(* ===== verification/Prelude.thy ===== *)
theory Prelude
  imports "HOL-Library.Word" "HOL-Library.Monad_Syntax" "HOL-Library.Sublist"
begin

text \<open>
  What every component of the model uses: the C integer types, the outcome of a call that
  may not return or may leave the defined behaviour of C, and the routines of the C library
  the firmware calls (decimal conversion by \<open>sprintf\<close>, \<open>atoi\<close>, \<open>strstr\<close>).

  Unsigned C integers are words of their width. A C \<open>int\<close> is an \<open>int\<close>; where the code
  can leave its range the model says so. A C string is a \<open>string\<close> without its terminator;
  a buffer is a list with it.
\<close>

type_synonym u8 = "8 word"
type_synonym u16 = "16 word"
type_synonym u32 = "32 word"

abbreviation NUL :: char where
  "NUL \<equiv> CHR 0x00"

definition INT_MAX :: int where
  "INT_MAX = 2147483647"

definition INT_MIN :: int where
  "INT_MIN = - 2147483648"

text \<open>
  A call whose model has type \<open>'a option\<close> has the value \<^term>\<open>None\<close> where the C code has
  no defined result: it writes or reads outside an object, overflows a signed integer, or
  never returns. \<open>returns m Q\<close> is partial correctness (whatever is returned satisfies
  \<open>Q\<close>), \<open>yields m Q\<close> is total correctness (something is returned and it satisfies \<open>Q\<close>).
\<close>

named_theorems outcome \<open>rules that push an outcome predicate through a model\<close>
named_theorems outcome_spec \<open>outcome lemmas of the operations\<close>

definition returns :: "'a option \<Rightarrow> ('a \<Rightarrow> bool) \<Rightarrow> bool" where
  "returns m Q \<longleftrightarrow> (case m of None \<Rightarrow> True | Some x \<Rightarrow> Q x)"

definition yields :: "'a option \<Rightarrow> ('a \<Rightarrow> bool) \<Rightarrow> bool" where
  "yields m Q \<longleftrightarrow> (case m of None \<Rightarrow> False | Some x \<Rightarrow> Q x)"

lemma returns_simps [simp, outcome]:
  "returns None Q"
  "returns (Some x) Q = Q x"
  by (simp_all add: returns_def)

lemma yields_simps [simp, outcome]:
  "\<not> yields None Q"
  "yields (Some x) Q = Q x"
  by (simp_all add: yields_def)

lemma returns_bind [outcome]: "returns (Option.bind m f) Q = returns m (\<lambda>x. returns (f x) Q)"
  by (cases m) simp_all

lemma yields_bind [outcome]: "yields (Option.bind m f) Q = yields m (\<lambda>x. yields (f x) Q)"
  by (cases m) simp_all

lemma returns_if [outcome]: "returns (if b then m else n) Q = (if b then returns m Q else returns n Q)"
  by simp

lemma yields_if [outcome]: "yields (if b then m else n) Q = (if b then yields m Q else yields n Q)"
  by simp

lemma returns_mono: "returns m P \<Longrightarrow> (\<And>x. P x \<Longrightarrow> Q x) \<Longrightarrow> returns m Q"
  by (cases m) simp_all

lemma yields_mono: "yields m P \<Longrightarrow> (\<And>x. P x \<Longrightarrow> Q x) \<Longrightarrow> yields m Q"
  by (cases m) simp_all

lemma returnsD: "returns m Q \<Longrightarrow> m = Some x \<Longrightarrow> Q x"
  by simp

lemma returnsI: "(\<And>x. m = Some x \<Longrightarrow> Q x) \<Longrightarrow> returns m Q"
  by (cases m) simp_all

lemma yieldsE: "yields m Q \<Longrightarrow> (\<And>x. m = Some x \<Longrightarrow> Q x \<Longrightarrow> R) \<Longrightarrow> R"
  by (cases m) simp_all

lemma yields_returns: "yields m Q \<Longrightarrow> returns m Q"
  by (cases m) simp_all

lemma yields_conj: "yields m P \<Longrightarrow> returns m Q \<Longrightarrow> yields m (\<lambda>x. P x \<and> Q x)"
  by (cases m) simp_all

subsection \<open>Decimal conversion\<close>

text \<open>The characters \<open>sprintf\<close> writes for \<open>%u\<close> and \<open>%d\<close>.\<close>

definition digit :: "nat \<Rightarrow> char" where
  "digit d = char_of (48 + d)"

fun show_nat :: "nat \<Rightarrow> string" where
  "show_nat n = (if n < 10 then [digit n] else show_nat (n div 10) @ [digit (n mod 10)])"

definition show_int :: "int \<Rightarrow> string" where
  "show_int z = (if z < 0 then CHR ''-'' # show_nat (nat (- z)) else show_nat (nat z))"

definition show_u32 :: "u32 \<Rightarrow> string" where
  "show_u32 w = show_nat (unat w)"

declare show_nat.simps [simp del]

lemma show_nat_small: "n < 10 \<Longrightarrow> show_nat n = [digit n]"
  by (subst show_nat.simps) simp

lemma show_nat_step: "10 \<le> n \<Longrightarrow> show_nat n = show_nat (n div 10) @ [digit (n mod 10)]"
  by (subst show_nat.simps) simp

lemma show_nat_nonempty [simp]: "show_nat n \<noteq> []"
  by (subst show_nat.simps) simp

lemma length_show_nat: "n < 10 ^ k \<Longrightarrow> 0 < k \<Longrightarrow> length (show_nat n) \<le> k"
proof (induction k arbitrary: n)
  case 0
  then show ?case by simp
next
  case (Suc k)
  show ?case
  proof (cases "n < 10")
    case True
    then show ?thesis by (simp add: show_nat_small)
  next
    case False
    with Suc.prems have "0 < k" and "n div 10 < 10 ^ k"
      by (auto intro!: Nat.gr0I simp: less_mult_imp_div_less mult.commute)
    then have "length (show_nat (n div 10)) \<le> k" using Suc.IH by blast
    with False show ?thesis by (simp add: show_nat_step)
  qed
qed

lemma length_show_u32: "length (show_u32 w) \<le> 10"
proof -
  have "unat w < 2 ^ LENGTH(32)" by (rule unsigned_less)
  then have "unat w < 10 ^ 10" by simp
  then show ?thesis unfolding show_u32_def by (rule length_show_nat) simp
qed

text \<open>The value a digit character stands for, and \<open>isdigit\<close>.\<close>

definition is_digit :: "char \<Rightarrow> bool" where
  "is_digit c \<longleftrightarrow> 48 \<le> (of_char c :: nat) \<and> (of_char c :: nat) \<le> 57"

definition digit_val :: "char \<Rightarrow> nat" where
  "digit_val c = of_char c - 48"

lemma of_char_digit: "d < 10 \<Longrightarrow> of_char (digit d) = 48 + d"
  by (simp add: digit_def)

lemma digit_is_digit [simp]: "d < 10 \<Longrightarrow> is_digit (digit d)"
  by (simp add: is_digit_def of_char_digit)

lemma digit_val_digit [simp]: "d < 10 \<Longrightarrow> digit_val (digit d) = d"
  by (simp add: digit_val_def of_char_digit)

lemma digit_inj: "a < 10 \<Longrightarrow> b < 10 \<Longrightarrow> digit a = digit b \<Longrightarrow> a = b"
  by (metis digit_val_digit)

lemma show_nat_digits: "c \<in> set (show_nat n) \<Longrightarrow> is_digit c"
proof (induction n rule: show_nat.induct)
  case (1 n)
  then show ?case
    by (cases "n < 10") (auto simp: show_nat_small show_nat_step)
qed

subsection \<open>\<open>atoi\<close>\<close>

text \<open>
  Leading white space, an optional sign, then digits up to the first other character. The
  strings the code converts hold at most nine characters, so the value fits an \<open>int\<close>.
\<close>

definition is_space :: "char \<Rightarrow> bool" where
  "is_space c \<longleftrightarrow> c = CHR '' '' \<or> (9 \<le> (of_char c :: nat) \<and> (of_char c :: nat) \<le> 13)"

fun atoi_digits :: "int \<Rightarrow> string \<Rightarrow> int" where
  "atoi_digits acc [] = acc"
| "atoi_digits acc (c # cs) =
     (if is_digit c then atoi_digits (10 * acc + int (digit_val c)) cs else acc)"

definition atoi :: "string \<Rightarrow> int" where
  "atoi s = (case dropWhile is_space s of
     [] \<Rightarrow> 0
   | c # cs \<Rightarrow> if c = CHR ''-'' then - atoi_digits 0 cs
              else if c = CHR ''+'' then atoi_digits 0 cs
              else atoi_digits 0 (c # cs))"

lemma atoi_digits_append:
  "(\<And>c. c \<in> set xs \<Longrightarrow> is_digit c) \<Longrightarrow> atoi_digits a (xs @ ys) = atoi_digits (atoi_digits a xs) ys"
  by (induction xs arbitrary: a) auto

lemma atoi_digits_show_nat: "atoi_digits 0 (show_nat n) = int n"
proof (induction n rule: show_nat.induct)
  case (1 n)
  show ?case
  proof (cases "n < 10")
    case True
    then show ?thesis by (simp add: show_nat_small)
  next
    case False
    then have "10 * int (n div 10) + int (n mod 10) = int n" by presburger
    with False 1 show ?thesis
      by (simp add: show_nat_step atoi_digits_append show_nat_digits)
  qed
qed

lemma is_digit_not_special: "is_digit c \<Longrightarrow> \<not> is_space c \<and> c \<noteq> CHR ''-'' \<and> c \<noteq> CHR ''+''"
  by (auto simp: is_digit_def is_space_def)

lemma atoi_show_nat: "atoi (show_nat n) = int n"
proof (cases "show_nat n")
  case Nil
  then show ?thesis by simp
next
  case (Cons c cs)
  then have "is_digit c" by (metis list.set_intros(1) show_nat_digits)
  with Cons show ?thesis
    using is_digit_not_special [of c] atoi_digits_show_nat [of n] by (simp add: atoi_def)
qed

lemma atoi_show_int [simp]: "atoi (show_int z) = z"
proof (cases "z < 0")
  case True
  then show ?thesis
    by (simp add: show_int_def atoi_def is_space_def atoi_digits_show_nat)
next
  case False
  then show ?thesis by (simp add: show_int_def atoi_show_nat)
qed

lemma show_int_inj: "show_int a = show_int b \<longleftrightarrow> a = b"
  by (metis atoi_show_int)

text \<open>\<open>sprintf\<close> into an array of \<open>cap\<close> bytes: the text and its terminator must fit.\<close>

definition sprintf_to :: "nat \<Rightarrow> string \<Rightarrow> string option" where
  "sprintf_to cap s = (if length s < cap then Some s else None)"

lemma sprintf_to_Some [simp]: "sprintf_to cap s = Some t \<longleftrightarrow> t = s \<and> length s < cap"
  by (auto simp: sprintf_to_def)

lemma sprintf_to_None [simp]: "sprintf_to cap s = None \<longleftrightarrow> cap \<le> length s"
  by (auto simp: sprintf_to_def)

subsection \<open>\<open>strstr\<close>, and strings in arrays\<close>

text \<open>The position of the first occurrence.\<close>

fun strstr :: "string \<Rightarrow> string \<Rightarrow> nat option" where
  "strstr [] pat = (if pat = [] then Some 0 else None)"
| "strstr (c # s) pat = (if prefix pat (c # s) then Some 0 else map_option Suc (strstr s pat))"

lemma strstr_None: "strstr s pat = None \<longleftrightarrow> \<not> sublist pat s"
  by (induction s) (auto simp: sublist_Cons_right)

lemma strstr_Some: "strstr s pat = Some n \<Longrightarrow> n + length pat \<le> length s \<and> take (length pat) (drop n s) = pat"
proof (induction s arbitrary: n)
  case (Cons c s)
  show ?case
  proof (cases "prefix pat (c # s)")
    case True
    then obtain zs where zs: "c # s = pat @ zs" by (auto simp: prefix_def)
    have "n = 0" using Cons.prems True by simp
    then show ?thesis unfolding zs by simp
  next
    case False
    then obtain m where "strstr s pat = Some m" "n = Suc m" using Cons.prems by auto
    then show ?thesis using Cons.IH by auto
  qed
qed (auto split: if_splits)

text \<open>The string in an array: it ends at the first zero, which must be there.\<close>

definition text_in :: "string \<Rightarrow> string option" where
  "text_in buf = (if NUL \<in> set buf then Some (takeWhile (\<lambda>c. c \<noteq> NUL) buf) else None)"

subsection \<open>Transition systems\<close>

text \<open>
  The states a system can reach, and the contract of an invariant: it holds at the start and
  every step keeps it. Components with several concurrent parts interpret the locale on their
  step relation.
\<close>

inductive reach :: "('s \<Rightarrow> bool) \<Rightarrow> ('s \<Rightarrow> 's \<Rightarrow> bool) \<Rightarrow> 's \<Rightarrow> bool" for init step where
  start: "init s \<Longrightarrow> reach init step s"
| move: "reach init step s \<Longrightarrow> step s t \<Longrightarrow> reach init step t"

locale invariant =
  fixes init :: "'s \<Rightarrow> bool"
    and step :: "'s \<Rightarrow> 's \<Rightarrow> bool"
    and inv :: "'s \<Rightarrow> bool"
  assumes init_inv: "init s \<Longrightarrow> inv s"
    and step_inv: "inv s \<Longrightarrow> step s t \<Longrightarrow> inv t"
begin

lemma reach_inv: "reach init step s \<Longrightarrow> inv s"
  by (induction rule: reach.induct) (auto intro: init_inv step_inv)

lemma steps_inv: "inv s \<Longrightarrow> step\<^sup>*\<^sup>* s t \<Longrightarrow> inv t"
  by (rotate_tac, induction rule: rtranclp_induct) (auto intro: step_inv)

end

end
