(* ===== verification/Storage.thy ===== *)
theory Storage
  imports Prelude "HOL-Library.Signed_Division"
begin

text \<open>
  The records the firmware keeps in flash: a ring of 200 formatted sensor readings with the
  number of readings ever saved, and the three configuration values. The non-volatile store
  itself (NVS, ESP-IDF) is not part of the repository: its operations are the fields of
  \<open>nvs_api\<close>, an argument of every definition, and what its documentation promises is the
  predicate \<open>nvs_lawful\<close>. \<open>parserJsonIntValues\<close> reads the configuration message.
\<close>

subsection \<open>Data\<close>

type_synonym esp_err_t = int

definition ESP_OK :: esp_err_t where
  "ESP_OK = 0"

definition ESP_ERR_NVS_NOT_FOUND :: esp_err_t where
  "ESP_ERR_NVS_NOT_FOUND = 0x1102"

definition MAX_BUFFER_RING :: int where
  "MAX_BUFFER_RING = 200"

definition STRING_LENGTH_BIG :: nat where
  "STRING_LENGTH_BIG = 50"

record data_t =
  timestamp :: u32
  temperature_1 :: u32
  temperature_2 :: u32
  temperature_3 :: u32
  battery :: u32
  temperature_alert :: bool

record config =
  threshold_min :: int
  threshold_max :: int
  rate :: int

definition default_config :: config where
  "default_config = \<lparr>threshold_min = 0, threshold_max = 50, rate = 60\<rparr>"

record 'n nvs_api =
  nvs_open :: "'n \<Rightarrow> esp_err_t \<times> 'n"
  nvs_get_i32 :: "string \<Rightarrow> 'n \<Rightarrow> esp_err_t \<times> int \<times> 'n"
  nvs_set_i32 :: "string \<Rightarrow> int \<Rightarrow> 'n \<Rightarrow> esp_err_t \<times> 'n"
  nvs_get_str :: "string \<Rightarrow> 'n \<Rightarrow> esp_err_t \<times> string \<times> 'n"
  nvs_set_str :: "string \<Rightarrow> string \<Rightarrow> 'n \<Rightarrow> esp_err_t \<times> 'n"
  nvs_commit :: "'n \<Rightarrow> esp_err_t \<times> 'n"
  nvs_close :: "'n \<Rightarrow> 'n"

subsection \<open>Formatting\<close>

text \<open>
  \<open>3.3 * (float) battery / 0xFFF\<close> printed with \<open>%.2f\<close>. In hundredths the quotient is
  \<open>22 * b / 273\<close>, which is never half-way between two integers and stays at least 1/546
  away from such a tie, so for values the 24-bit \<open>float\<close> holds exactly the printed text is
  that of the exact quotient rounded to the nearest hundredth.
\<close>

definition volts100 :: "nat \<Rightarrow> nat" where
  "volts100 b = (44 * b + 273) div 546"

definition show_2f :: "nat \<Rightarrow> string" where
  "show_2f h = show_nat (h div 100) @ ''.'' @ [digit (h div 10 mod 10), digit (h mod 10)]"

definition data_format :: "data_t \<Rightarrow> string" where
  "data_format d =
     ''{\"t\":'' @ show_u32 (timestamp d) @ '',\"T\":['' @ show_u32 (temperature_1 d) @ '',''
     @ show_u32 (temperature_2 d) @ '','' @ show_u32 (temperature_3 d) @ ''],\"B\":''
     @ show_2f (volts100 (unat (battery d))) @ ''}''"

definition slot_key :: "int \<Rightarrow> string" where
  "slot_key c = ''i_'' @ show_int (c smod MAX_BUFFER_RING)"

text \<open>\<open>++\<close> on an \<open>int32_t\<close>: overflow is undefined.\<close>

definition inc_i32 :: "int \<Rightarrow> int option" where
  "inc_i32 c = (if c = INT_MAX then None else Some (c + 1))"

subsection \<open>Operations\<close>

definition save_read_data :: "'n nvs_api \<Rightarrow> data_t \<Rightarrow> 'n \<Rightarrow> (esp_err_t \<times> 'n) option" where
  "save_read_data api d n =
     (let (err, n) = nvs_open api n in
      if err \<noteq> ESP_OK then Some (err, n) else
      let (err, v, n) = nvs_get_i32 api ''saved_counter'' n;
          data_saved_counter = (if err = ESP_OK then v else 0) in
      if err \<noteq> ESP_OK \<and> err \<noteq> ESP_ERR_NVS_NOT_FOUND then Some (err, n) else
      do {
        data_saved_counter \<leftarrow> inc_i32 data_saved_counter;
        let (err, n) = nvs_set_i32 api ''saved_counter'' data_saved_counter n;
        if err \<noteq> ESP_OK then Some (err, n) else do {
          idx \<leftarrow> sprintf_to 7 (slot_key data_saved_counter);
          aux \<leftarrow> sprintf_to STRING_LENGTH_BIG (data_format d);
          let (_, n) = nvs_set_str api idx aux n;
          let (err, n) = nvs_commit api n;
          if err \<noteq> ESP_OK then Some (err, n) else Some (ESP_OK, nvs_close api n)
        }
      })"

definition load_value :: "'n nvs_api \<Rightarrow> string \<Rightarrow> int \<Rightarrow> 'n \<Rightarrow> esp_err_t \<times> int \<times> 'n" where
  "load_value api k old n =
     (let (err, v, n) = nvs_get_i32 api k n in (err, if err = ESP_OK then v else old, n))"

definition load_config :: "'n nvs_api \<Rightarrow> config \<Rightarrow> 'n \<Rightarrow> esp_err_t \<times> config \<times> 'n" where
  "load_config api g n =
     (let (err, n) = nvs_open api n in
      if err \<noteq> ESP_OK then (err, g, n) else
      let (err, v, n) = load_value api ''threshold_min'' (threshold_min g) n;
          g = g\<lparr>threshold_min := v\<rparr> in
      if err \<noteq> ESP_OK \<and> err \<noteq> ESP_ERR_NVS_NOT_FOUND then (err, g, n) else
      let (err, v, n) = load_value api ''threshold_max'' (threshold_max g) n;
          g = g\<lparr>threshold_max := v\<rparr> in
      if err \<noteq> ESP_OK \<and> err \<noteq> ESP_ERR_NVS_NOT_FOUND then (err, g, n) else
      let (err, v, n) = load_value api ''rate'' (rate g) n;
          g = g\<lparr>rate := v\<rparr> in
      if err \<noteq> ESP_OK \<and> err \<noteq> ESP_ERR_NVS_NOT_FOUND then (err, g, n) else
      (ESP_OK, g, nvs_close api n))"

definition save_config :: "'n nvs_api \<Rightarrow> config \<Rightarrow> 'n \<Rightarrow> esp_err_t \<times> 'n" where
  "save_config api g n =
     (let (err, n) = nvs_open api n in
      if err \<noteq> ESP_OK then (err, n) else
      let (err, n) = nvs_set_i32 api ''threshold_min'' (threshold_min g) n in
      if err \<noteq> ESP_OK then (err, n) else
      let (err, n) = nvs_set_i32 api ''threshold_max'' (threshold_max g) n in
      if err \<noteq> ESP_OK then (err, n) else
      let (err, n) = nvs_set_i32 api ''rate'' (rate g) n in
      if err \<noteq> ESP_OK then (err, n) else
      let (err, n) = nvs_commit api n in
      if err \<noteq> ESP_OK then (err, n) else (ESP_OK, nvs_close api n))"

text \<open>
  The parser walks over the characters up to the terminator. \<open>stringValue\<close> has ten bytes and
  its terminator is written behind the characters collected so far; \<open>cap\<close> is the length of
  the caller's \<open>parsedValues\<close>. Leaving either array, or running past the end of the message's
  memory, is undefined.
\<close>

fun parse_loop :: "nat \<Rightarrow> string \<Rightarrow> bool \<Rightarrow> string \<Rightarrow> int list \<Rightarrow> int list option" where
  "parse_loop cap [] saveNextChar stringValue parsedValues = None"
| "parse_loop cap (c # cs) saveNextChar stringValue parsedValues =
     (if c = NUL then Some parsedValues
      else if c = CHR '':'' then parse_loop cap cs True stringValue parsedValues
      else if c = CHR '','' \<or> c = CHR ''}'' then
        if length stringValue \<ge> 10 \<or> length parsedValues \<ge> cap then None
        else let parsedValues = parsedValues @ [atoi stringValue] in
          if c = CHR ''}'' then Some parsedValues else parse_loop cap cs False [] parsedValues
      else if saveNextChar then
        if length stringValue \<ge> 10 then None
        else parse_loop cap cs saveNextChar (stringValue @ [c]) parsedValues
      else parse_loop cap cs saveNextChar stringValue parsedValues)"

definition parserJsonIntValues :: "nat \<Rightarrow> string \<Rightarrow> int list option" where
  "parserJsonIntValues cap json = parse_loop cap json False [] []"

subsection \<open>The documented behaviour of the store\<close>

text \<open>
  \<open>I\<close> and \<open>S\<close> read the integer and the string stored under a key. Opening, closing,
  committing and reading change no entry; a read that reports success returns the entry, one
  that reports "not found" means there is none; a write that reports success stores the
  value and leaves every other entry alone. Any call may report an error.
\<close>

definition nvs_lawful ::
  "'n nvs_api \<Rightarrow> ('n \<Rightarrow> string \<Rightarrow> int option) \<Rightarrow> ('n \<Rightarrow> string \<Rightarrow> string option) \<Rightarrow> bool" where
  "nvs_lawful api I S \<longleftrightarrow>
     (\<forall>n. I (snd (nvs_open api n)) = I n \<and> S (snd (nvs_open api n)) = S n) \<and>
     (\<forall>n. I (snd (nvs_commit api n)) = I n \<and> S (snd (nvs_commit api n)) = S n) \<and>
     (\<forall>n. I (nvs_close api n) = I n \<and> S (nvs_close api n) = S n) \<and>
     (\<forall>k n e v n'. nvs_get_i32 api k n = (e, v, n') \<longrightarrow> I n' = I n \<and> S n' = S n \<and>
        (e = ESP_OK \<longrightarrow> I n k = Some v) \<and> (e = ESP_ERR_NVS_NOT_FOUND \<longrightarrow> I n k = None)) \<and>
     (\<forall>k n e v n'. nvs_get_str api k n = (e, v, n') \<longrightarrow> I n' = I n \<and> S n' = S n \<and>
        (e = ESP_OK \<longrightarrow> S n k = Some v) \<and> (e = ESP_ERR_NVS_NOT_FOUND \<longrightarrow> S n k = None)) \<and>
     (\<forall>k v n n'. nvs_set_i32 api k v n = (ESP_OK, n') \<longrightarrow> I n' = (I n)(k \<mapsto> v) \<and> S n' = S n) \<and>
     (\<forall>k v n n'. nvs_set_str api k v n = (ESP_OK, n') \<longrightarrow> S n' = (S n)(k \<mapsto> v) \<and> I n' = I n)"

text \<open>No call fails: reads find what is stored, writes and commits succeed.\<close>

definition nvs_healthy ::
  "'n nvs_api \<Rightarrow> ('n \<Rightarrow> string \<Rightarrow> int option) \<Rightarrow> ('n \<Rightarrow> string \<Rightarrow> string option) \<Rightarrow> bool" where
  "nvs_healthy api I S \<longleftrightarrow>
     (\<forall>n. fst (nvs_open api n) = ESP_OK \<and> fst (nvs_commit api n) = ESP_OK) \<and>
     (\<forall>k n. fst (nvs_get_i32 api k n) =
        (if I n k = None then ESP_ERR_NVS_NOT_FOUND else ESP_OK)) \<and>
     (\<forall>k n. fst (nvs_get_str api k n) =
        (if S n k = None then ESP_ERR_NVS_NOT_FOUND else ESP_OK)) \<and>
     (\<forall>k v n. fst (nvs_set_i32 api k v n) = ESP_OK) \<and>
     (\<forall>k v n. fst (nvs_set_str api k v n) = ESP_OK)"

lemma nvs_open_lawful:
  "nvs_lawful api I S \<Longrightarrow> nvs_open api n = (e, n') \<Longrightarrow> I n' = I n \<and> S n' = S n"
  unfolding nvs_lawful_def by (metis snd_conv)

lemma nvs_commit_lawful:
  "nvs_lawful api I S \<Longrightarrow> nvs_commit api n = (e, n') \<Longrightarrow> I n' = I n \<and> S n' = S n"
  unfolding nvs_lawful_def by (metis snd_conv)

lemma nvs_close_lawful:
  "nvs_lawful api I S \<Longrightarrow> I (nvs_close api n) = I n"
  "nvs_lawful api I S \<Longrightarrow> S (nvs_close api n) = S n"
  unfolding nvs_lawful_def by blast+

lemma nvs_get_i32_lawful:
  "nvs_lawful api I S \<Longrightarrow> nvs_get_i32 api k n = (e, v, n') \<Longrightarrow> I n' = I n \<and> S n' = S n \<and>
     (e = ESP_OK \<longrightarrow> I n k = Some v) \<and> (e = ESP_ERR_NVS_NOT_FOUND \<longrightarrow> I n k = None)"
  unfolding nvs_lawful_def by blast

lemma nvs_get_str_lawful:
  "nvs_lawful api I S \<Longrightarrow> nvs_get_str api k n = (e, v, n') \<Longrightarrow> I n' = I n \<and> S n' = S n \<and>
     (e = ESP_OK \<longrightarrow> S n k = Some v) \<and> (e = ESP_ERR_NVS_NOT_FOUND \<longrightarrow> S n k = None)"
  unfolding nvs_lawful_def by blast

lemma nvs_set_i32_lawful:
  "nvs_lawful api I S \<Longrightarrow> nvs_set_i32 api k v n = (ESP_OK, n') \<Longrightarrow>
     I n' = (I n)(k \<mapsto> v) \<and> S n' = S n"
  unfolding nvs_lawful_def by blast

lemma nvs_set_str_lawful:
  "nvs_lawful api I S \<Longrightarrow> nvs_set_str api k v n = (ESP_OK, n') \<Longrightarrow>
     S n' = (S n)(k \<mapsto> v) \<and> I n' = I n"
  unfolding nvs_lawful_def by blast

lemmas nvs_laws = nvs_open_lawful nvs_commit_lawful nvs_get_i32_lawful nvs_get_str_lawful
  nvs_set_i32_lawful nvs_set_str_lawful


subsection \<open>Saving a reading\<close>

definition saved_count :: "('n \<Rightarrow> string \<Rightarrow> int option) \<Rightarrow> 'n \<Rightarrow> int" where
  "saved_count I n = (case I n ''saved_counter'' of None \<Rightarrow> 0 | Some v \<Rightarrow> v)"

text \<open>What \<open>task_adc_read\<close> produces: \<open>esp_random() / 100000000\<close> and a 12-bit reading.\<close>

definition sensor_range :: "data_t \<Rightarrow> bool" where
  "sensor_range d \<longleftrightarrow> temperature_1 d \<le> 42 \<and> temperature_2 d \<le> 42 \<and> temperature_3 d \<le> 42
     \<and> battery d \<le> 4095"

definition str_writes_succeed :: "'n nvs_api \<Rightarrow> bool" where
  "str_writes_succeed api \<longleftrightarrow> (\<forall>k v n. fst (nvs_set_str api k v n) = ESP_OK)"

lemma esp_err_distinct [simp]: "ESP_ERR_NVS_NOT_FOUND \<noteq> ESP_OK" "ESP_OK \<noteq> ESP_ERR_NVS_NOT_FOUND"
  by (simp_all add: ESP_OK_def ESP_ERR_NVS_NOT_FOUND_def)

lemma nvs_set_str_succeeds:
  assumes "nvs_lawful api I S" and "str_writes_succeed api" and "nvs_set_str api k v n = (e, n')"
  shows "S n' = (S n)(k \<mapsto> v) \<and> I n' = I n"
proof -
  have "e = ESP_OK" using assms(2,3) unfolding str_writes_succeed_def by (metis fst_conv)
  with assms(3) show ?thesis using nvs_set_str_lawful [OF assms(1)] by blast
qed

lemma save_read_data_effect:
  assumes lawful: "nvs_lawful api I S" and writes: "str_writes_succeed api"
    and saved: "save_read_data api d n = Some (ESP_OK, n')"
  shows "I n' = (I n)(''saved_counter'' \<mapsto> saved_count I n + 1)"
    and "S n' = (S n)(slot_key (saved_count I n + 1) \<mapsto> data_format d)"
    and "saved_count I n \<noteq> INT_MAX"
proof -
  note laws = nvs_laws(1-5) [OF lawful] nvs_set_str_succeeds [OF lawful writes]
  show "I n' = (I n)(''saved_counter'' \<mapsto> saved_count I n + 1)"
    and "S n' = (S n)(slot_key (saved_count I n + 1) \<mapsto> data_format d)"
    and "saved_count I n \<noteq> INT_MAX"
    using saved
    by (auto simp: save_read_data_def saved_count_def inc_i32_def INT_MAX_def nvs_close_lawful [OF lawful]
        split: prod.splits if_splits Option.bind_splits
        dest!: laws)
qed

lemma show_int_length: "\<bar>z\<bar> < 10 ^ k \<Longrightarrow> 0 < k \<Longrightarrow> length (show_int z) \<le> Suc k"
  using length_show_nat [of "nat \<bar>z\<bar>" k] by (auto simp: show_int_def nat_less_iff)

lemma smod_ring_range: "\<bar>c smod MAX_BUFFER_RING\<bar> < 200"
  by (simp add: MAX_BUFFER_RING_def signed_modulo_int_def signed_divide_int_def abs_mult abs_sgn_eq)

lemma slot_key_fits: "length (slot_key c) < 7"
  using show_int_length [of "c smod MAX_BUFFER_RING" 3] smod_ring_range [of c]
  by (simp add: slot_key_def)

lemma u32_two_digits: "w \<le> 42 \<Longrightarrow> length (show_u32 w) \<le> 2"
  by (simp add: show_u32_def word_le_nat_alt length_show_nat)

lemma volts_four_chars: "b \<le> 4095 \<Longrightarrow> length (show_2f (volts100 b)) \<le> 4"
proof -
  assume "b \<le> 4095"
  then have "volts100 b div 100 < 10 ^ 1" by (simp add: volts100_def)
  then have "length (show_nat (volts100 b div 100)) \<le> 1" by (rule length_show_nat) simp
  then show ?thesis by (simp add: show_2f_def)
qed

lemma data_format_length: "sensor_range d \<Longrightarrow> length (data_format d) \<le> 40"
  using length_show_u32 [of "timestamp d"] u32_two_digits [of "temperature_1 d"]
    u32_two_digits [of "temperature_2 d"] u32_two_digits [of "temperature_3 d"]
    volts_four_chars [of "unat (battery d)"]
  by (simp add: data_format_def sensor_range_def word_le_nat_alt)

lemma save_read_data_defined:
  assumes "nvs_lawful api I S" and "saved_count I n < INT_MAX" and "sensor_range d"
  shows "save_read_data api d n \<noteq> None"
proof -
  have "length (data_format d) < 50" using data_format_length [OF assms(3)] by simp
  then show ?thesis
    using assms(2) slot_key_fits
    by (auto simp: save_read_data_def saved_count_def inc_i32_def sprintf_to_def INT_MAX_def
        STRING_LENGTH_BIG_def split: prod.splits if_splits dest!: nvs_laws [OF assms(1)])
qed


subsection \<open>The log as a ring: what is still readable after many saves\<close>

text \<open>
  The contract between the task that saves readings and the task that sends them: saving
  raises the count by one and writes the slot of the new count modulo the capacity, and no
  other slot. A run of successful saves then leaves the last \<open>cap\<close> readings readable.
\<close>

fun append_all :: "('v \<Rightarrow> 's \<Rightarrow> 's option) \<Rightarrow> 'v list \<Rightarrow> 's \<Rightarrow> 's option" where
  "append_all f [] s = Some s"
| "append_all f (v # vs) s = do { s \<leftarrow> f v s; append_all f vs s }"

locale ring_log =
  fixes cap :: int
    and append :: "'v \<Rightarrow> 's \<Rightarrow> 's option"
    and count :: "'s \<Rightarrow> int"
    and slot :: "'s \<Rightarrow> int \<Rightarrow> 'w option"
    and render :: "'v \<Rightarrow> 'w"
    and invar :: "'s \<Rightarrow> bool"
  assumes append_invar: "invar s \<Longrightarrow> append v s = Some s' \<Longrightarrow> invar s'"
    and append_count: "invar s \<Longrightarrow> append v s = Some s' \<Longrightarrow> count s' = count s + 1"
    and count_nonneg: "invar s \<Longrightarrow> 0 \<le> count s"
    and append_slot: "invar s \<Longrightarrow> append v s = Some s' \<Longrightarrow> 0 \<le> i \<Longrightarrow>
      slot s' i = (if i mod cap = (count s + 1) mod cap then Some (render v) else slot s i)"
begin

lemma append_all_count:
  "invar s \<Longrightarrow> append_all append vs s = Some s' \<Longrightarrow> count s' = count s + int (length vs) \<and> invar s'"
proof (induction vs arbitrary: s)
  case Nil
  then show ?case by simp
next
  case (Cons v vs)
  then obtain t where t: "append v s = Some t" "append_all append vs t = Some s'"
    by (auto split: Option.bind_splits)
  with Cons.prems(1) have "invar t" "count t = count s + 1"
    by (auto dest: append_invar append_count)
  with Cons.IH [OF \<open>invar t\<close> t(2)] show ?case by simp
qed

lemma append_all_untouched:
  "invar s \<Longrightarrow> append_all append vs s = Some s' \<Longrightarrow> 0 \<le> i \<Longrightarrow> count s + int (length vs) < i + cap \<Longrightarrow>
     i \<le> count s \<Longrightarrow> slot s' i = slot s i"
proof (induction vs arbitrary: s)
  case Nil
  then show ?case by simp
next
  case (Cons v vs)
  then obtain t where t: "append v s = Some t" "append_all append vs t = Some s'"
    by (auto split: Option.bind_splits)
  with Cons.prems(1) have inv: "invar t" and c: "count t = count s + 1"
    by (auto dest: append_invar append_count)
  have "i mod cap \<noteq> (count s + 1) mod cap"
  proof
    assume "i mod cap = (count s + 1) mod cap"
    then have "cap dvd count s + 1 - i" by (metis mod_eq_dvd_iff)
    moreover have "0 < count s + 1 - i" and "count s + 1 - i < cap" using Cons.prems(4,5) by auto
    ultimately show False using zdvd_not_zless by blast
  qed
  then have "slot t i = slot s i" using append_slot [OF Cons.prems(1) t(1) Cons.prems(3)] by simp
  moreover have "slot s' i = slot t i"
    using Cons.IH [OF inv t(2) Cons.prems(3)] Cons.prems(4,5) c by simp
  ultimately show ?case by simp
qed

lemma append_all_readable:
  "invar s \<Longrightarrow> append_all append vs s = Some s' \<Longrightarrow> k < length vs \<Longrightarrow> int (length vs - k) \<le> cap \<Longrightarrow>
     slot s' (count s + 1 + int k) = Some (render (vs ! k))"
proof (induction vs arbitrary: s k)
  case Nil
  then show ?case by simp
next
  case (Cons v vs)
  then obtain t where t: "append v s = Some t" "append_all append vs t = Some s'"
    by (auto split: Option.bind_splits)
  with Cons.prems(1) have inv: "invar t" and c: "count t = count s + 1"
    by (auto dest: append_invar append_count)
  show ?case
  proof (cases k)
    case 0
    have "slot s' (count t) = slot t (count t)"
      using append_all_untouched [OF inv t(2) count_nonneg [OF inv]] Cons.prems(4) 0 by simp
    moreover have "slot t (count t) = Some (render v)"
      using append_slot [OF Cons.prems(1) t(1) count_nonneg [OF inv]] c by simp
    ultimately show ?thesis using 0 c by simp
  next
    case (Suc j)
    with Cons.IH [OF inv t(2), of j] Cons.prems(3,4) c show ?thesis by (simp add: algebra_simps)
  qed
qed

end

text \<open>The provider: \<open>save_read_data\<close> over any lawful store whose string writes succeed.\<close>

type_synonym 'n store =
  "'n nvs_api \<times> ('n \<Rightarrow> string \<Rightarrow> int option) \<times> ('n \<Rightarrow> string \<Rightarrow> string option) \<times> 'n"

definition log_append :: "data_t \<Rightarrow> 'n store \<Rightarrow> 'n store option" where
  "log_append d = (\<lambda>(api, I, S, n). case save_read_data api d n of
     Some (err, n') \<Rightarrow> if err = ESP_OK then Some (api, I, S, n') else None
   | None \<Rightarrow> None)"

definition log_count :: "'n store \<Rightarrow> int" where
  "log_count = (\<lambda>(api, I, S, n). saved_count I n)"

definition log_slot :: "'n store \<Rightarrow> int \<Rightarrow> string option" where
  "log_slot = (\<lambda>(api, I, S, n) i. S n (slot_key i))"

definition log_invar :: "'n store \<Rightarrow> bool" where
  "log_invar = (\<lambda>(api, I, S, n). nvs_lawful api I S \<and> str_writes_succeed api \<and> 0 \<le> saved_count I n)"

lemma slot_key_eq:
  assumes "0 \<le> i" and "0 \<le> j"
  shows "slot_key i = slot_key j \<longleftrightarrow> i mod MAX_BUFFER_RING = j mod MAX_BUFFER_RING"
proof -
  have "\<And>c. 0 \<le> c \<Longrightarrow> c smod MAX_BUFFER_RING = c mod MAX_BUFFER_RING"
    by (simp add: MAX_BUFFER_RING_def signed_modulo_int_def signed_divide_int_def
        minus_div_mult_eq_mod sgn_if)
  with assms show ?thesis by (simp add: slot_key_def show_int_inj)
qed

lemma log_append_effect:
  assumes "log_append d (api, I, S, n) = Some s'" and "log_invar (api, I, S, n)"
  shows "\<exists>n'. s' = (api, I, S, n') \<and> I n' = (I n)(''saved_counter'' \<mapsto> saved_count I n + 1)
    \<and> S n' = (S n)(slot_key (saved_count I n + 1) \<mapsto> data_format d)"
proof -
  from assms(1) obtain n' where n': "save_read_data api d n = Some (ESP_OK, n')" "s' = (api, I, S, n')"
    by (auto simp: log_append_def split: option.splits if_splits)
  from assms(2) have "nvs_lawful api I S" "str_writes_succeed api" by (auto simp: log_invar_def)
  from save_read_data_effect [OF this n'(1)] n'(2) show ?thesis by blast
qed

interpretation reading_log: ring_log MAX_BUFFER_RING log_append log_count log_slot data_format log_invar
proof (unfold_locales, goal_cases)
  case (1 s v s')
  then show ?case
    by (cases s) (auto dest!: log_append_effect simp: log_invar_def saved_count_def)
next
  case (2 s v s')
  then show ?case
    by (cases s) (auto dest!: log_append_effect simp: log_count_def saved_count_def)
next
  case (3 s)
  then show ?case by (auto simp: log_invar_def log_count_def)
next
  case (4 s v s' i)
  then show ?case
    by (cases s) (auto dest!: log_append_effect
        simp: log_slot_def log_count_def slot_key_eq log_invar_def)
qed


subsection \<open>The configuration\<close>

lemma nvs_healthy_get:
  "nvs_healthy api I S \<Longrightarrow> nvs_get_i32 api k n = (e, v, n') \<Longrightarrow>
     e = (if I n k = None then ESP_ERR_NVS_NOT_FOUND else ESP_OK)"
  unfolding nvs_healthy_def by (metis fst_conv)

lemma nvs_healthy_get_str:
  "nvs_healthy api I S \<Longrightarrow> nvs_get_str api k n = (e, v, n') \<Longrightarrow>
     e = (if S n k = None then ESP_ERR_NVS_NOT_FOUND else ESP_OK)"
  unfolding nvs_healthy_def by (metis fst_conv)

lemma nvs_healthy_calls:
  assumes "nvs_healthy api I S"
  shows "nvs_open api n = (e, n') \<Longrightarrow> e = ESP_OK"
    and "nvs_commit api n = (e, n') \<Longrightarrow> e = ESP_OK"
    and "nvs_set_i32 api k v n = (e, n') \<Longrightarrow> e = ESP_OK"
    and "nvs_set_str api k t n = (e, n') \<Longrightarrow> e = ESP_OK"
  using assms unfolding nvs_healthy_def by (metis fst_conv)+

lemma save_config_effect:
  assumes "nvs_lawful api I S" and "save_config api g n = (ESP_OK, n')"
  shows "I n' = (I n)(''threshold_min'' \<mapsto> threshold_min g, ''threshold_max'' \<mapsto> threshold_max g,
           ''rate'' \<mapsto> rate g)"
    and "S n' = S n"
proof -
  from assms obtain n1 n2 n3 n4 n5 where
      run: "nvs_open api n = (ESP_OK, n1)"
        "nvs_set_i32 api ''threshold_min'' (threshold_min g) n1 = (ESP_OK, n2)"
        "nvs_set_i32 api ''threshold_max'' (threshold_max g) n2 = (ESP_OK, n3)"
        "nvs_set_i32 api ''rate'' (rate g) n3 = (ESP_OK, n4)"
        "nvs_commit api n4 = (ESP_OK, n5)"
      and n': "n' = nvs_close api n5"
    by (auto simp: save_config_def split: prod.splits if_splits)
  note laws = nvs_laws [OF assms(1)]
  from n' laws(1) [OF run(1)] laws(5) [OF run(2)] laws(5) [OF run(3)] laws(5) [OF run(4)]
    laws(2) [OF run(5)] assms(1)
  show "I n' = (I n)(''threshold_min'' \<mapsto> threshold_min g, ''threshold_max'' \<mapsto> threshold_max g,
           ''rate'' \<mapsto> rate g)"
    and "S n' = S n"
    by (simp_all only: nvs_close_lawful [OF assms(1)])
qed

lemma load_value_lawful:
  assumes "nvs_lawful api I S" and "nvs_healthy api I S" and "load_value api k old n = (e, v, n')"
  shows "I n' = I n \<and> S n' = S n \<and> v = (case I n k of None \<Rightarrow> old | Some v \<Rightarrow> v)
    \<and> (e \<noteq> ESP_OK \<longrightarrow> e = ESP_ERR_NVS_NOT_FOUND)"
proof -
  from assms(3) obtain v0 where g: "nvs_get_i32 api k n = (e, v0, n')"
    and v: "v = (if e = ESP_OK then v0 else old)"
    by (auto simp: load_value_def split: prod.splits)
  from nvs_get_i32_lawful [OF assms(1) g] nvs_healthy_get [OF assms(2) g] v show ?thesis
    by (cases "I n k") auto
qed

lemma load_config_stored:
  assumes "nvs_lawful api I S" and "nvs_healthy api I S"
  shows "\<exists>n'. load_config api g n = (ESP_OK,
     \<lparr>threshold_min = (case I n ''threshold_min'' of None \<Rightarrow> threshold_min g | Some v \<Rightarrow> v),
      threshold_max = (case I n ''threshold_max'' of None \<Rightarrow> threshold_max g | Some v \<Rightarrow> v),
      rate = (case I n ''rate'' of None \<Rightarrow> rate g | Some v \<Rightarrow> v)\<rparr>, n') \<and> I n' = I n \<and> S n' = S n"
proof -
  obtain n1 where open1: "nvs_open api n = (ESP_OK, n1)" "I n1 = I n" "S n1 = S n"
    using nvs_healthy_calls(1) [OF assms(2), of n] nvs_open_lawful [OF assms(1), of n]
    by (metis surj_pair)
  obtain e1 v1 n2 where l1: "load_value api ''threshold_min'' (threshold_min g) n1 = (e1, v1, n2)"
    using prod_cases3 by blast
  obtain e2 v2 n3 where l2: "load_value api ''threshold_max'' (threshold_max g) n2 = (e2, v2, n3)"
    using prod_cases3 by blast
  obtain e3 v3 n4 where l3: "load_value api ''rate'' (rate g) n3 = (e3, v3, n4)"
    using prod_cases3 by blast
  note v = load_value_lawful [OF assms l1] load_value_lawful [OF assms l2] load_value_lawful [OF assms l3]
  from v open1 l1 l2 l3 show ?thesis
    by (auto simp: load_config_def nvs_close_lawful [OF assms(1)])
qed

subsection \<open>The parser\<close>

lemma parse_skip:
  "(\<And>c. c \<in> set xs \<Longrightarrow> c \<notin> {NUL, CHR '':'', CHR '','', CHR ''}''}) \<Longrightarrow>
     parse_loop cap (xs @ ys) False buf vs = parse_loop cap ys False buf vs"
  by (induction xs) auto

lemma parse_collect:
  "(\<And>c. c \<in> set xs \<Longrightarrow> c \<notin> {NUL, CHR '':'', CHR '','', CHR ''}''}) \<Longrightarrow> length buf + length xs \<le> 10 \<Longrightarrow>
     parse_loop cap (xs @ ys) True buf vs = parse_loop cap ys True (buf @ xs) vs"
proof (induction xs arbitrary: buf)
  case Nil
  then show ?case by simp
next
  case (Cons x xs)
  then have "parse_loop cap (xs @ ys) True (buf @ [x]) vs = parse_loop cap ys True ((buf @ [x]) @ xs) vs"
    by (intro Cons.IH) auto
  with Cons.prems show ?case by auto
qed

lemma show_nat_plain: "c \<in> set (show_nat n) \<Longrightarrow> c \<notin> {NUL, CHR '':'', CHR '','', CHR ''}''}"
  using show_nat_digits [of c n] by (auto simp: is_digit_def)

lemma show_int_plain: "c \<in> set (show_int z) \<Longrightarrow> c \<notin> {NUL, CHR '':'', CHR '','', CHR ''}''}"
  using show_nat_plain by (auto simp: show_int_def split: if_splits)

text \<open>One member \<open>"key":value\<close> of the message, behind whatever was parsed before.\<close>

definition plain :: "string \<Rightarrow> bool" where
  "plain xs \<longleftrightarrow> (\<forall>c \<in> set xs. c \<notin> {NUL, CHR '':'', CHR '','', CHR ''}''})"

lemma parse_member:
  assumes "plain key" and "length (show_int z) \<le> 9" and "length vs < cap"
  shows "parse_loop cap (key @ '':'' @ show_int z @ '','' @ rest) False [] vs
           = parse_loop cap rest False [] (vs @ [z])"
    and "parse_loop cap (key @ '':'' @ show_int z @ ''}'' @ rest) False [] vs = Some (vs @ [z])"
  using assms show_int_plain [of _ z]
  by (simp_all add: parse_skip parse_collect plain_def)

definition config_message :: "int \<Rightarrow> int \<Rightarrow> int \<Rightarrow> string" where
  "config_message lo hi rt =
     ''{\"tl\":'' @ show_int lo @ '',\"th\":'' @ show_int hi @ '',\"rt\":'' @ show_int rt @ ''}''"

lemma parse_config_message:
  assumes "length (show_int lo) \<le> 9" and "length (show_int hi) \<le> 9" and "length (show_int rt) \<le> 9"
    and "3 \<le> cap"
  shows "parserJsonIntValues cap (config_message lo hi rt @ [NUL]) = Some [lo, hi, rt]"
  using parse_member(1) [of "''{\"tl\"''" lo "[]" cap] parse_member(1) [of "''\"th\"''" hi "[lo]" cap]
    parse_member(2) [of "''\"rt\"''" rt "[lo, hi]" cap] assms
  by (simp add: config_message_def parserJsonIntValues_def plain_def)

end
