(* ===== verification/Firmware.thy ===== *)
theory Firmware
  imports Storage
begin

text \<open>
  The tasks \<open>app_main\<close> starts, one definition per loop iteration, over the globals they share:
  the sensor reading \<open>datas\<close>, the configuration, the supply state \<open>dc_state\<close> with its flag
  \<open>energy\<close>, and the three FreeRTOS queues. What the code calls and cannot be read here (the
  clock, the random numbers standing in for the sensors, the converter, the heap) is the
  argument \<open>esp_env\<close>: one function per call, of the number of calls made so far, so that it
  may answer differently every time. A task that has to wait on a full or an empty queue has
  no result (\<^term>\<open>None\<close>) in that state.
\<close>

subsection \<open>State\<close>

datatype dc_state_t = DC_DISCONNECTED | DC_CONNECTING | DC_CONNECTED | DC_DISCONNECTING

text \<open>What a \<open>char *\<close> taken from the heap refers to.\<close>

datatype heap_str = NullPtr | Garbage | Text string

record app =
  datas :: data_t
  cfg :: config
  energy :: bool
  dc_state :: dc_state_t
  adc_data :: "string option"  \<comment> \<open>\<open>data\<close> of \<open>task_adc_read\<close>; \<open>None\<close> while uninitialised\<close>
  Queue_data :: "heap_str list"
  Queue_config :: "string list"  \<comment> \<open>the memory behind each pointer, terminator included\<close>
  Queue_state :: "string list"
  calls :: nat

record esp_env =
  log_timestamp :: "nat \<Rightarrow> u32"
  random32 :: "nat \<Rightarrow> u32"
  adc_raw :: "nat \<Rightarrow> int"
  malloc_block :: "nat \<Rightarrow> nat \<Rightarrow> nat option"  \<comment> \<open>usable bytes of the block, \<open>None\<close> for \<open>NULL\<close>\<close>

definition N_QUEUE :: nat where
  "N_QUEUE = 400"

definition q_send :: "'a \<Rightarrow> 'a list \<Rightarrow> 'a list option" where
  "q_send x q = (if length q < N_QUEUE then Some (q @ [x]) else None)"

definition state_format :: "u32 \<Rightarrow> string \<Rightarrow> string" where
  "state_format t msg = ''{\"t\":'' @ show_u32 t @ '',\"s\":\"'' @ msg @ ''\"}''"

definition DC_DISCONNECTED_MSG :: string where "DC_DISCONNECTED_MSG = ''BATTERY_ONLY''"
definition DC_CONNECTED_MSG :: string where "DC_CONNECTED_MSG = ''DC_CONNECTED''"
definition HIGH_TEMPERATURE :: string where "HIGH_TEMPERATURE = ''HIGH_TEMP''"
definition LOW_TEMPERATURE :: string where "LOW_TEMPERATURE = ''LOW_TEMP''"
definition NORMAL_TEMPERATURE :: string where "NORMAL_TEMPERATURE = ''NORMAL_TEMP''"

subsection \<open>\<open>task_adc_read\<close>\<close>

text \<open>
  Reading: \<open>esp_random() / 100000000\<close> three times, then the converter, whose \<open>int\<close> is stored
  in a \<open>uint32_t\<close>.
\<close>

definition adc_sample :: "esp_env \<Rightarrow> app \<Rightarrow> app" where
  "adc_sample env s =
     (let k = calls s in
      s\<lparr>datas := (datas s)\<lparr>
          timestamp := log_timestamp env k,
          temperature_1 := random32 env (k + 1) div 100000000,
          temperature_2 := random32 env (k + 2) div 100000000,
          temperature_3 := random32 env (k + 3) div 100000000,
          battery := word_of_int (adc_raw env (k + 4))\<rparr>,
        calls := k + 5\<rparr>)"

text \<open>\<open>sprintf(data, STATE_FORMAT, ...)\<close> followed by \<open>xQueueSend(Queue_state, data, ...)\<close>.\<close>

definition send_state :: "esp_env \<Rightarrow> string \<Rightarrow> app \<Rightarrow> app option" where
  "send_state env msg s = do {
     data \<leftarrow> sprintf_to STRING_LENGTH_BIG (state_format (log_timestamp env (calls s)) msg);
     q \<leftarrow> q_send data (Queue_state s);
     Some (s\<lparr>adc_data := Some data, Queue_state := q, calls := calls s + 1\<rparr>) }"

text \<open>
  The alert branches call \<open>printf(data, STATE_FORMAT, ...)\<close>: the buffer is the format, nothing
  is written into it, and \<open>xQueueSend\<close> sends what it held before. With an uninitialised buffer,
  or one with a conversion in it, the call is undefined.
\<close>

definition print_and_send :: "esp_env \<Rightarrow> string \<Rightarrow> app \<Rightarrow> app option" where
  "print_and_send env msg s = do {
     data \<leftarrow> adc_data s;
     if CHR ''%'' \<in> set data then None else do {
       q \<leftarrow> q_send data (Queue_state s);
       Some (s\<lparr>Queue_state := q, calls := calls s + 1\<rparr>) } }"

text \<open>
  The thresholds are \<open>int\<close> and the temperatures \<open>uint32_t\<close>: C compares both as \<open>uint32_t\<close>.
\<close>

definition u32_of :: "int \<Rightarrow> u32" where
  "u32_of z = word_of_int z"

definition temperature_normal :: "config \<Rightarrow> data_t \<Rightarrow> bool" where
  "temperature_normal c d \<longleftrightarrow>
     temperature_1 d \<le> u32_of (threshold_max c) \<and> temperature_2 d \<le> u32_of (threshold_max c)
     \<and> temperature_3 d \<le> u32_of (threshold_max c)
     \<and> u32_of (threshold_min c) \<le> temperature_1 d \<and> u32_of (threshold_min c) \<le> temperature_2 d
     \<and> temperature_3 d \<le> u32_of (threshold_max c)"

definition temperature_high :: "config \<Rightarrow> data_t \<Rightarrow> bool" where
  "temperature_high c d \<longleftrightarrow>
     u32_of (threshold_max c) < temperature_1 d \<or> u32_of (threshold_max c) < temperature_2 d
     \<or> u32_of (threshold_max c) < temperature_3 d"

definition temperature_low :: "config \<Rightarrow> data_t \<Rightarrow> bool" where
  "temperature_low c d \<longleftrightarrow>
     temperature_1 d < u32_of (threshold_min c) \<or> temperature_2 d < u32_of (threshold_min c)
     \<or> temperature_3 d < u32_of (threshold_min c)"

definition set_alert :: "bool \<Rightarrow> app \<Rightarrow> app" where
  "set_alert b s = s\<lparr>datas := (datas s)\<lparr>temperature_alert := b\<rparr>\<rparr>"

definition check_temperature :: "esp_env \<Rightarrow> app \<Rightarrow> app option" where
  "check_temperature env s =
     (if temperature_normal (cfg s) (datas s) then
        if temperature_alert (datas s) then do {
          s \<leftarrow> send_state env NORMAL_TEMPERATURE s;
          Some (set_alert False s) }
        else Some s
      else if \<not> temperature_alert (datas s) then do {
        s \<leftarrow> (if temperature_high (cfg s) (datas s) then do {
               s \<leftarrow> print_and_send env HIGH_TEMPERATURE s;
               Some (set_alert True s) }
             else Some s);
        if temperature_low (cfg s) (datas s) then do {
          s \<leftarrow> print_and_send env LOW_TEMPERATURE s;
          Some (set_alert True s) }
        else Some s }
      else Some s)"

text \<open>The supply state machine. \<open>battery\<close> is unsigned.\<close>

definition check_supply :: "esp_env \<Rightarrow> app \<Rightarrow> app option" where
  "check_supply env s =
     (case dc_state s of
        DC_DISCONNECTED \<Rightarrow>
          (let s = s\<lparr>energy := False\<rparr> in
           Some (if 0 < battery (datas s) then s\<lparr>dc_state := DC_CONNECTING\<rparr> else s))
      | DC_CONNECTING \<Rightarrow>
          if 0 < battery (datas s) then do {
            s \<leftarrow> send_state env DC_CONNECTED_MSG s;
            Some (s\<lparr>dc_state := DC_CONNECTED\<rparr>) }
          else Some s
      | DC_CONNECTED \<Rightarrow>
          (let s = s\<lparr>energy := True\<rparr> in
           Some (if battery (datas s) = 0 then s\<lparr>dc_state := DC_DISCONNECTING\<rparr> else s))
      | DC_DISCONNECTING \<Rightarrow>
          if battery (datas s) = 0 then do {
            s \<leftarrow> send_state env DC_DISCONNECTED_MSG s;
            Some (s\<lparr>dc_state := DC_DISCONNECTED\<rparr>) }
          else Some s)"

definition task_adc_read :: "esp_env \<Rightarrow> app \<Rightarrow> app option" where
  "task_adc_read env s = do {
     let s = adc_sample env s;
     s \<leftarrow> check_temperature env s;
     check_supply env s }"

subsection \<open>\<open>task_nvs\<close> and \<open>task_config\<close>\<close>

definition task_nvs :: "'n nvs_api \<Rightarrow> app \<Rightarrow> 'n \<Rightarrow> 'n option" where
  "task_nvs api s n = do {
     (_, n) \<leftarrow> save_read_data api (datas s) n;
     Some n }"

definition RATE_MIN :: int where "RATE_MIN = 10"
definition TEMP_MIN :: int where "TEMP_MIN = -20"
definition TEMP_MAX :: int where "TEMP_MAX = 70"

text \<open>
  \<open>parsedValues\<close> has ten elements and is not initialised: the three tests are defined only when
  the message gave at least three values.
\<close>

definition apply_config :: "int list \<Rightarrow> config \<Rightarrow> config" where
  "apply_config vs c =
     (let c = (if TEMP_MIN \<le> vs ! 0 then c\<lparr>threshold_min := vs ! 0\<rparr> else c);
          c = (if vs ! 1 \<le> TEMP_MAX then c\<lparr>threshold_max := vs ! 1\<rparr> else c);
          c = (if RATE_MIN \<le> vs ! 2 then c\<lparr>rate := vs ! 2\<rparr> else c)
      in c)"

definition task_config :: "'n nvs_api \<Rightarrow> app \<Rightarrow> 'n \<Rightarrow> (app \<times> 'n) option" where
  "task_config api s n =
     (case Queue_config s of
        [] \<Rightarrow> None
      | configuration # q \<Rightarrow> do {
          parsedValues \<leftarrow> parserJsonIntValues 10 configuration;
          if length parsedValues < 3 then None else do {
            let s = s\<lparr>Queue_config := q, cfg := apply_config parsedValues (cfg s)\<rparr>;
            let (_, n) = save_config api (cfg s) n;
            Some (s, n) } })"

subsection \<open>\<open>iot_subscribe_callback_handler\<close>\<close>

text \<open>
  The block is requested for \<open>payloadLen\<close> bytes and the terminator is written behind them, at
  index \<open>payloadLen\<close>: defined only if the heap happened to give a longer block.
\<close>

definition iot_subscribe_callback_handler :: "esp_env \<Rightarrow> string \<Rightarrow> app \<Rightarrow> app option" where
  "iot_subscribe_callback_handler env payload s =
     (let s' = s\<lparr>calls := calls s + 1\<rparr> in
      case malloc_block env (calls s) (length payload) of
        None \<Rightarrow> Some s'
      | Some usable \<Rightarrow>
          if usable \<le> length payload then None else do {
            q \<leftarrow> q_send (payload @ [NUL]) (Queue_config s');
            Some (s'\<lparr>Queue_config := q\<rparr>) })"

subsection \<open>\<open>task_connector\<close>\<close>

text \<open>
  \<open>report\<close> is the code's answer to every failed store call: format a state message and queue
  it. \<open>size_L\<close> keeps its value when the length query fails. After a failed \<open>nvs_open\<close> the code goes on with a handle that holds
  an unspecified value, or that of the round before; what the store answers to its calls then is up to the argument.
\<close>

definition report :: "esp_env \<Rightarrow> bool \<Rightarrow> app \<Rightarrow> app option" where
  "report env failed s =
     (if failed then do {
        aux \<leftarrow> sprintf_to STRING_LENGTH_BIG
                 (state_format (log_timestamp env (calls s)) ''NVS not available'');
        q \<leftarrow> q_send aux (Queue_state s);
        Some (s\<lparr>Queue_state := q, calls := calls s + 1\<rparr>) }
      else Some s)"

definition read_slot ::
  "'n nvs_api \<Rightarrow> esp_env \<Rightarrow> string \<Rightarrow> nat \<Rightarrow> app \<Rightarrow> 'n \<Rightarrow> heap_str \<times> nat \<times> app \<times> 'n" where
  "read_slot api env idx size_L s n =
     (let (e1, v1, n) = nvs_get_str api idx n;
          size_L = (if e1 = ESP_OK then length v1 + 1 else size_L);
          block = malloc_block env (calls s) size_L;
          (e2, v2, n) = nvs_get_str api idx n;
          read_value = (case block of None \<Rightarrow> NullPtr
                        | Some _ \<Rightarrow> if e1 = ESP_OK \<and> e2 = ESP_OK then Text v2 else Garbage)
      in (read_value, size_L, s\<lparr>calls := calls s + 1\<rparr>, n))"

text \<open>
  \<open>for (i = data_sent_counter; i <= data_saved_counter; i++)\<close>: the body raises
  \<open>data_sent_counter\<close> too, so both counters run together.
\<close>

function connector_loop ::
  "'n nvs_api \<Rightarrow> esp_env \<Rightarrow> int \<Rightarrow> int \<Rightarrow> int \<Rightarrow> nat \<Rightarrow> app \<Rightarrow> 'n \<Rightarrow> (nat \<times> app \<times> 'n) option" where
  "connector_loop api env data_saved_counter i data_sent_counter size_L s n =
     (if i \<le> data_saved_counter then do {
        idx \<leftarrow> sprintf_to 7 (slot_key data_sent_counter);
        let (read_value, size_L, s, n) = read_slot api env idx size_L s n;
        q \<leftarrow> q_send read_value (Queue_data s);
        let s = s\<lparr>Queue_data := q\<rparr>;
        data_sent_counter \<leftarrow> inc_i32 data_sent_counter;
        let (err, n) = nvs_set_i32 api ''sent_counter'' data_sent_counter n;
        s \<leftarrow> report env (err \<noteq> ESP_OK) s;
        i \<leftarrow> inc_i32 i;
        connector_loop api env data_saved_counter i data_sent_counter size_L s n }
      else Some (size_L, s, n))"
  by pat_completeness auto
termination
  by (relation "measure (\<lambda>(api, env, data_saved_counter, i, _). nat (data_saved_counter + 1 - i))")
    (auto simp: inc_i32_def split: if_splits)

definition get_counter ::
  "'n nvs_api \<Rightarrow> esp_env \<Rightarrow> string \<Rightarrow> app \<Rightarrow> 'n \<Rightarrow> (int \<times> app \<times> 'n) option" where
  "get_counter api env key s n =
     (let (err, v, n) = nvs_get_i32 api key n;
          counter = (if err = ESP_OK then v else 0) in
      do {
        s \<leftarrow> report env (err \<noteq> ESP_OK \<and> err \<noteq> ESP_ERR_NVS_NOT_FOUND) s;
        Some (counter, s, n) })"

definition task_connector ::
  "'n nvs_api \<Rightarrow> esp_env \<Rightarrow> nat \<Rightarrow> app \<Rightarrow> 'n \<Rightarrow> (nat \<times> app \<times> 'n) option" where
  "task_connector api env size_L s n =
     (let (err, n) = nvs_open api n in
      do {
        s \<leftarrow> report env (err \<noteq> ESP_OK) s;
        (data_saved_counter, s, n) \<leftarrow> get_counter api env ''saved_counter'' s n;
        (data_sent_counter, s, n) \<leftarrow> get_counter api env ''sent_counter'' s n;
        data_sent_counter \<leftarrow> inc_i32 data_sent_counter;
        (size_L, s, n) \<leftarrow> (if data_saved_counter = 0 then Some (size_L, s, n)
           else connector_loop api env data_saved_counter data_sent_counter data_sent_counter size_L s n);
        Some (size_L, s, nvs_close api n) })"

declare connector_loop.simps [simp del]

subsection \<open>The event handler of the wireless interface, and start-up\<close>

datatype system_event =
    SYSTEM_EVENT_STA_START
  | SYSTEM_EVENT_STA_GOT_IP
  | SYSTEM_EVENT_STA_DISCONNECTED
  | SYSTEM_EVENT_AP_START
  | SYSTEM_EVENT_AP_STOP
  | SYSTEM_EVENT_AP_STACONNECTED
  | SYSTEM_EVENT_AP_STADISCONNECTED
  | SYSTEM_EVENT_OTHER

record wifi =
  wifi_event_group :: u32
  connect_requests :: nat  \<comment> \<open>calls of \<open>esp_wifi_connect\<close>\<close>

definition CONNECT_BIT :: u32 where "CONNECT_BIT = 1"
definition STOP_BIT :: u32 where "STOP_BIT = 2"
definition GOT_DATA_BIT :: u32 where "GOT_DATA_BIT = 4"

definition set_bits :: "u32 \<Rightarrow> wifi \<Rightarrow> wifi" where
  "set_bits b w = w\<lparr>wifi_event_group := or (wifi_event_group w) b\<rparr>"

definition clear_bits :: "u32 \<Rightarrow> wifi \<Rightarrow> wifi" where
  "clear_bits b w = w\<lparr>wifi_event_group := and (wifi_event_group w) (not b)\<rparr>"

definition esp_wifi_connect :: "wifi \<Rightarrow> wifi" where
  "esp_wifi_connect w = w\<lparr>connect_requests := connect_requests w + 1\<rparr>"

fun esp32_wifi_eventHandler :: "system_event \<Rightarrow> wifi \<Rightarrow> wifi" where
  "esp32_wifi_eventHandler SYSTEM_EVENT_STA_START w = esp_wifi_connect w"
| "esp32_wifi_eventHandler SYSTEM_EVENT_STA_GOT_IP w = set_bits CONNECT_BIT w"
| "esp32_wifi_eventHandler SYSTEM_EVENT_STA_DISCONNECTED w = clear_bits CONNECT_BIT (esp_wifi_connect w)"
| "esp32_wifi_eventHandler SYSTEM_EVENT_AP_START w = set_bits GOT_DATA_BIT w"
| "esp32_wifi_eventHandler SYSTEM_EVENT_AP_STOP w = clear_bits GOT_DATA_BIT w"
| "esp32_wifi_eventHandler _ w = w"

text \<open>
  The configuration \<open>app_main\<close> starts with: what the store holds over the initial values of the
  globals, and the defaults when loading reports an error.
\<close>

definition app_main_config :: "'n nvs_api \<Rightarrow> 'n \<Rightarrow> config \<times> 'n" where
  "app_main_config api n =
     (let (ret, g, n) = load_config api default_config n in
      (if ret \<noteq> ESP_OK then g\<lparr>threshold_min := 0, threshold_max := 50, rate := 60\<rparr> else g, n))"

definition app_start :: "config \<Rightarrow> data_t \<Rightarrow> app" where
  "app_start c d =
     \<lparr>datas = d\<lparr>temperature_alert := False\<rparr>, cfg = c, energy = False, dc_state = DC_DISCONNECTED,
      adc_data = None, Queue_data = [], Queue_config = [], Queue_state = [], calls = 0\<rparr>"

end
