(* ===== verification/FirmwareSystem.thy ===== *)
theory FirmwareSystem
  imports Firmware
begin

text \<open>
  The tasks of \<open>Firmware\<close> interleaved: one step is one loop iteration of one task, a message
  delivered by the MQTT client, or the client task taking an entry from a queue. The lemmas
  give the invariants of the shared state, the specification of the supply state machine and
  its refinement, and what a round of the connector task sends.
\<close>

subsection \<open>The step relation\<close>

type_synonym 'n sys = "app \<times> 'n \<times> nat"

definition sys_init :: "'n sys \<Rightarrow> bool" where
  "sys_init x \<longleftrightarrow> (\<exists>c d n. x = (app_start c d, n, 0))"

inductive other_step :: "'n nvs_api \<Rightarrow> esp_env \<Rightarrow> 'n sys \<Rightarrow> 'n sys \<Rightarrow> bool" for api env where
  nvs: "task_nvs api s n = Some n' \<Longrightarrow> other_step api env (s, n, z) (s, n', z)"
| config: "task_config api s n = Some (s', n') \<Longrightarrow> other_step api env (s, n, z) (s', n', z)"
| connector: "task_connector api env z s n = Some (z', s', n') \<Longrightarrow> other_step api env (s, n, z) (s', n', z')"
| message: "iot_subscribe_callback_handler env payload s = Some s' \<Longrightarrow> other_step api env (s, n, z) (s', n, z)"
| take_data: "Queue_data s = v # q \<Longrightarrow> energy s \<Longrightarrow> other_step api env (s, n, z) (s\<lparr>Queue_data := q\<rparr>, n, z)"
| take_state: "Queue_state s = v # q \<Longrightarrow> other_step api env (s, n, z) (s\<lparr>Queue_state := q\<rparr>, n, z)"

inductive sys_step :: "'n nvs_api \<Rightarrow> esp_env \<Rightarrow> 'n sys \<Rightarrow> 'n sys \<Rightarrow> bool" for api env where
  adc: "task_adc_read env s = Some s' \<Longrightarrow> sys_step api env (s, n, z) (s', n, z)"
| other: "other_step api env x y \<Longrightarrow> sys_step api env x y"

inductive_cases other_stepE: "other_step api env x y"
inductive_cases sys_stepE: "sys_step api env x y"

subsection \<open>Invariant of the shared state\<close>

text \<open>
  Queues within their capacity, the flag \<open>energy\<close> in step with the supply state, and every
  queued state message one of the four texts the code formats.
\<close>

definition state_texts :: "string set" where
  "state_texts = {state_format t m | t m. m \<in> {NORMAL_TEMPERATURE, DC_CONNECTED_MSG,
     DC_DISCONNECTED_MSG, ''NVS not available''}}"

definition queues_bounded :: "app \<Rightarrow> bool" where
  "queues_bounded s \<longleftrightarrow> length (Queue_data s) \<le> N_QUEUE \<and> length (Queue_config s) \<le> N_QUEUE
     \<and> length (Queue_state s) \<le> N_QUEUE"

definition messages_formatted :: "app \<Rightarrow> bool" where
  "messages_formatted s \<longleftrightarrow> set (Queue_state s) \<subseteq> state_texts \<and> set_option (adc_data s) \<subseteq> state_texts"

definition supply_consistent :: "app \<Rightarrow> bool" where
  "supply_consistent s \<longleftrightarrow> (dc_state s = DC_CONNECTING \<longrightarrow> \<not> energy s)
     \<and> (dc_state s = DC_DISCONNECTING \<longrightarrow> energy s)"

definition app_inv :: "app \<Rightarrow> bool" where
  "app_inv s \<longleftrightarrow> queues_bounded s \<and> messages_formatted s \<and> supply_consistent s"

lemmas app_inv_defs = app_inv_def queues_bounded_def messages_formatted_def supply_consistent_def

lemma q_send_Some [simp]: "q_send x q = Some q' \<longleftrightarrow> q' = q @ [x] \<and> length q < N_QUEUE"
  by (auto simp: q_send_def)

lemma state_texts_intros [simp, intro]:
  "state_format t NORMAL_TEMPERATURE \<in> state_texts"
  "state_format t DC_CONNECTED_MSG \<in> state_texts"
  "state_format t DC_DISCONNECTED_MSG \<in> state_texts"
  "state_format t ''NVS not available'' \<in> state_texts"
  by (auto simp: state_texts_def)

text \<open>The helpers queue known texts and touch nothing else the invariant speaks of.\<close>

lemma send_state_inv:
  assumes "send_state env m s = Some s'" and "\<And>t. state_format t m \<in> state_texts"
  shows "app_inv s \<Longrightarrow> app_inv s'" and "dc_state s' = dc_state s" and "energy s' = energy s"
    and "datas s' = datas s" and "cfg s' = cfg s"
  using assms by (auto simp: send_state_def app_inv_defs split: Option.bind_splits)

lemma print_and_send_inv:
  assumes "print_and_send env m s = Some s'"
  shows "app_inv s \<Longrightarrow> app_inv s'" and "dc_state s' = dc_state s" and "energy s' = energy s"
    and "datas s' = datas s" and "cfg s' = cfg s"
  using assms by (auto simp: print_and_send_def app_inv_defs split: Option.bind_splits if_splits)

lemma report_inv:
  assumes "report env b s = Some s'"
  shows "app_inv s \<Longrightarrow> app_inv s'"
  using assms by (auto simp: report_def app_inv_defs split: Option.bind_splits if_splits)

lemma set_alert_inv [simp]: "app_inv (set_alert b s) = app_inv s"
  by (simp add: set_alert_def app_inv_defs)

lemma adc_sample_inv [simp]: "app_inv (adc_sample env s) = app_inv s"
  by (simp add: adc_sample_def app_inv_defs Let_def)

lemma check_temperature_inv: "check_temperature env s = Some s' \<Longrightarrow> app_inv s \<Longrightarrow> app_inv s'"
  by (auto simp: check_temperature_def split: Option.bind_splits if_splits
      dest!: send_state_inv(1) print_and_send_inv(1))

lemma supply_consistent_update:
  "app_inv s \<Longrightarrow> (d = DC_CONNECTING \<longrightarrow> \<not> e) \<Longrightarrow> (d = DC_DISCONNECTING \<longrightarrow> e) \<Longrightarrow>
     app_inv (s\<lparr>energy := e, dc_state := d\<rparr>)"
  by (simp add: app_inv_defs)

lemma check_supply_inv: "check_supply env s = Some s' \<Longrightarrow> app_inv s \<Longrightarrow> app_inv s'"
  by (cases "dc_state s")
    (auto simp: check_supply_def Let_def app_inv_defs send_state_def split: Option.bind_splits if_splits)

lemma task_adc_read_inv: "task_adc_read env s = Some s' \<Longrightarrow> app_inv s \<Longrightarrow> app_inv s'"
  by (auto simp: task_adc_read_def Let_def split: Option.bind_splits
      dest: check_temperature_inv check_supply_inv)

lemma task_config_inv: "task_config api s n = Some (s', n') \<Longrightarrow> app_inv s \<Longrightarrow> app_inv s'"
  by (auto simp: task_config_def app_inv_defs split: list.splits Option.bind_splits if_splits prod.splits)

lemma callback_inv: "iot_subscribe_callback_handler env p s = Some s' \<Longrightarrow> app_inv s \<Longrightarrow> app_inv s'"
  by (auto simp: iot_subscribe_callback_handler_def Let_def app_inv_defs
      split: option.splits Option.bind_splits if_splits)

lemma read_slot_inv: "read_slot api env idx z s n = (v, z', s', n') \<Longrightarrow> app_inv s \<Longrightarrow> app_inv s'"
  by (auto simp: read_slot_def Let_def app_inv_defs split: prod.splits)

lemma queue_data_inv:
  "app_inv s \<Longrightarrow> length (Queue_data s) < N_QUEUE \<Longrightarrow> app_inv (s\<lparr>Queue_data := Queue_data s @ [v]\<rparr>)"
  by (auto simp: app_inv_defs)

text \<open>One pass of the loop, taken apart once for every proof about it.\<close>

lemma connector_loop_pass:
  assumes "connector_loop api env saved i sent z s n = Some r" and "i \<le> saved"
  obtains v z1 s1 n1 sent1 err n2 s2 i1 where
    "read_slot api env (slot_key sent) z s n = (v, z1, s1, n1)"
    "length (Queue_data s1) < N_QUEUE" "inc_i32 sent = Some sent1"
    "nvs_set_i32 api ''sent_counter'' sent1 n1 = (err, n2)"
    "report env (err \<noteq> ESP_OK) (s1\<lparr>Queue_data := Queue_data s1 @ [v]\<rparr>) = Some s2"
    "inc_i32 i = Some i1"
    "connector_loop api env saved i1 sent1 z1 s2 n2 = Some r"
  using assms(1) unfolding connector_loop.simps [of api env saved i] if_P [OF assms(2)]
  by (auto split: Option.bind_splits prod.splits if_splits)

lemma connector_loop_inv:
  "connector_loop api env saved i sent z s n = Some (z', s', n') \<Longrightarrow> app_inv s \<Longrightarrow> app_inv s'"
proof (induction "nat (saved + 1 - i)" arbitrary: i sent z s n rule: less_induct)
  case less
  show ?case
  proof (cases "i \<le> saved")
    case False
    with less.prems show ?thesis by (simp add: connector_loop.simps)
  next
    case True
    from less.prems(1) True show ?thesis
    proof (cases rule: connector_loop_pass)
      case (1 v z1 s1 n1 sent1 err n2 s2 i1)
      have "app_inv s2"
        using report_inv [OF 1(5)] queue_data_inv [OF read_slot_inv [OF 1(1) less.prems(2)] 1(2)] .
      moreover have "nat (saved + 1 - i1) < nat (saved + 1 - i)"
        using 1(6) True by (auto simp: inc_i32_def split: if_splits)
      ultimately show ?thesis using less.hyps 1(7) by blast
    qed
  qed
qed

lemma get_counter_inv:
  "get_counter api env k s n = Some (c, s', n') \<Longrightarrow> app_inv s \<Longrightarrow> app_inv s'"
  by (auto simp: get_counter_def split: prod.splits Option.bind_splits if_splits dest: report_inv)

lemma task_connector_inv:
  assumes "task_connector api env z s n = Some (z', s', n')" and "app_inv s"
  shows "app_inv s'"
  using assms
  by (auto simp: task_connector_def split: prod.splits Option.bind_splits if_splits
      dest!: report_inv get_counter_inv connector_loop_inv)

lemma app_start_inv: "app_inv (app_start c d)"
  by (simp add: app_start_def app_inv_defs)

lemma take_inv:
  "app_inv s \<Longrightarrow> Queue_data s = v # q \<Longrightarrow> app_inv (s\<lparr>Queue_data := q\<rparr>)"
  "app_inv s \<Longrightarrow> Queue_state s = w # q' \<Longrightarrow> app_inv (s\<lparr>Queue_state := q'\<rparr>)"
  by (auto simp: app_inv_defs)

lemma sys_step_inv: "app_inv (fst x) \<Longrightarrow> sys_step api env x y \<Longrightarrow> app_inv (fst y)"
  by (erule sys_stepE)
    (auto elim!: other_stepE dest: task_adc_read_inv task_config_inv task_connector_inv callback_inv take_inv)

interpretation firmware: invariant sys_init "sys_step api env" "\<lambda>x. app_inv (fst x)" for api env
  by unfold_locales (auto simp: sys_init_def app_start_inv intro: sys_step_inv)

subsection \<open>Alerts\<close>

lemma show_nat_no_letter: "c \<in> set (show_nat n) \<Longrightarrow> of_char c < (58 :: nat)"
  using show_nat_digits [of c n] by (simp add: is_digit_def)

lemma state_text_letters:
  assumes "x \<in> state_texts"
  shows "CHR ''H'' \<notin> set x" and "CHR ''W'' \<notin> set x" and "CHR ''%'' \<notin> set x"
  using assms show_nat_digits
  by (fastforce simp: state_texts_def state_format_def show_u32_def is_digit_def
      NORMAL_TEMPERATURE_def DC_CONNECTED_MSG_def DC_DISCONNECTED_MSG_def)+

lemma alert_texts_letters:
  "CHR ''H'' \<in> set (state_format t HIGH_TEMPERATURE)" "CHR ''W'' \<in> set (state_format t LOW_TEMPERATURE)"
  by (simp_all add: state_format_def HIGH_TEMPERATURE_def LOW_TEMPERATURE_def)

text \<open>The thresholds, read as the unsigned values the comparisons use.\<close>

lemma unat_u32_of: "0 \<le> z \<Longrightarrow> z < 2 ^ 32 \<Longrightarrow> int (unat (u32_of z)) = z"
  by (simp add: u32_of_def unat_eq_nat_uint uint_word_of_int)

lemma u32_of_negative: "- 2147483648 \<le> z \<Longrightarrow> z < 0 \<Longrightarrow> 2147483648 \<le> unat (u32_of z)"
proof -
  assume "- 2147483648 \<le> z" and "z < 0"
  then have "z mod 4294967296 = z + 4294967296"
    by (simp add: mod_pos_pos_trivial [of "z + 4294967296" 4294967296, simplified])
  with \<open>- 2147483648 \<le> z\<close> show ?thesis by (simp add: u32_of_def unat_eq_nat_uint uint_word_of_int)
qed

definition in_band :: "config \<Rightarrow> u32 \<Rightarrow> bool" where
  "in_band c t \<longleftrightarrow> threshold_min c \<le> int (unat t) \<and> int (unat t) \<le> threshold_max c"

definition non_negative_band :: "config \<Rightarrow> bool" where
  "non_negative_band c \<longleftrightarrow> 0 \<le> threshold_min c \<and> threshold_min c \<le> INT_MAX
     \<and> 0 \<le> threshold_max c \<and> threshold_max c \<le> INT_MAX"

lemma temperature_compare:
  assumes "non_negative_band c"
  shows "t \<le> u32_of (threshold_max c) \<longleftrightarrow> int (unat t) \<le> threshold_max c"
    and "u32_of (threshold_min c) \<le> t \<longleftrightarrow> threshold_min c \<le> int (unat t)"
  using assms unat_u32_of [of "threshold_max c"] unat_u32_of [of "threshold_min c"]
  by (simp_all add: word_le_def non_negative_band_def INT_MAX_def)

subsection \<open>The supply state machine as a specification\<close>

text \<open>
  What the machine promises, on its own: a state and a flag, a step per sample, and the message
  the step announces. \<open>check_supply\<close> refines it, and between two messages of a kind there is one of the other.
\<close>

datatype supply_msg = Connected | BatteryOnly

fun supply_step :: "bool \<Rightarrow> dc_state_t \<times> bool \<Rightarrow> (dc_state_t \<times> bool) \<times> supply_msg list" where
  "supply_step present (DC_DISCONNECTED, e) = ((if present then DC_CONNECTING else DC_DISCONNECTED, False), [])"
| "supply_step present (DC_CONNECTING, e) =
     (if present then ((DC_CONNECTED, e), [Connected]) else ((DC_CONNECTING, e), []))"
| "supply_step present (DC_CONNECTED, e) = ((if present then DC_CONNECTED else DC_DISCONNECTING, True), [])"
| "supply_step present (DC_DISCONNECTING, e) =
     (if present then ((DC_DISCONNECTING, e), []) else ((DC_DISCONNECTED, e), [BatteryOnly]))"

definition expected_msg :: "dc_state_t \<Rightarrow> supply_msg" where
  "expected_msg d = (if d = DC_DISCONNECTED \<or> d = DC_CONNECTING then Connected else BatteryOnly)"

fun supply_text :: "supply_msg \<Rightarrow> string" where
  "supply_text Connected = DC_CONNECTED_MSG"
| "supply_text BatteryOnly = DC_DISCONNECTED_MSG"

lemma check_supply_refines:
  assumes "check_supply env s = Some s'"
    and "supply_step (0 < battery (datas s)) (dc_state s, energy s) = ((d, e), ms)"
  shows "dc_state s' = d" and "energy s' = e"
    and "Queue_state s' = Queue_state s @ map (\<lambda>m. state_format (log_timestamp env (calls s)) (supply_text m)) ms"
  using assms
  by (cases "dc_state s"; auto simp: check_supply_def send_state_def Let_def word_neq_0_conv
      split: Option.bind_splits if_splits)+

subsection \<open>The messages of the sensor task\<close>

text \<open>
  The messages the task queues: those of the supply machine, the return to a normal temperature, and the alerts, which repeat
  the text the buffer holds from the message before.
\<close>

datatype sensor_msg = Supply supply_msg | Normal | Repeat

text \<open>
  The order they come in: the supply messages alternate, starting with the one given; there are one or two alerts, one after the
  other, and then none until the temperature was normal, which is only reported after an alert. The number is that of the
  alerts, 2 when there can be no further one. The result is what is expected next.
\<close>

fun sensor_log :: "supply_msg \<Rightarrow> nat \<Rightarrow> sensor_msg list \<Rightarrow> (supply_msg \<times> nat) option" where
  "sensor_log m r [] = Some (m, r)"
| "sensor_log m r (Supply x # ms) =
     (if x = m then sensor_log (if m = Connected then BatteryOnly else Connected) (if r = 0 then 0 else 2) ms else None)"
| "sensor_log m r (Normal # ms) = (if r = 0 then None else sensor_log m 0 ms)"
| "sensor_log m r (Repeat # ms) = (if 2 \<le> r then None else sensor_log m (r + 1) ms)"

text \<open>The texts in the queue, after the text given.\<close>

fun printed_as :: "string option \<Rightarrow> sensor_msg list \<Rightarrow> string list \<Rightarrow> bool" where
  "printed_as last_text (Supply m # ms) (x # xs) = ((\<exists>t. x = state_format t (supply_text m)) \<and> printed_as (Some x) ms xs)"
| "printed_as last_text (Normal # ms) (x # xs) = ((\<exists>t. x = state_format t NORMAL_TEMPERATURE) \<and> printed_as (Some x) ms xs)"
| "printed_as last_text (Repeat # ms) (x # xs) = (last_text = Some x \<and> printed_as (Some x) ms xs)"
| "printed_as last_text ms xs = (ms = [] \<and> xs = [])"

definition text_after :: "string option \<Rightarrow> string list \<Rightarrow> string option" where
  "text_after t xs = (if xs = [] then t else Some (last xs))"

lemma text_after_simps [simp]: "text_after t [] = t" "text_after t (x # xs) = text_after (Some x) xs"
  "text_after t (xs @ ys) = text_after (text_after t xs) ys"
  by (auto simp: text_after_def)

lemma printed_as_append:
  "printed_as t ms xs \<Longrightarrow> printed_as (text_after t xs) ms' ys \<Longrightarrow> printed_as t (ms @ ms') (xs @ ys)"
  by (induction t ms xs rule: printed_as.induct) auto

lemma sensor_log_append:
  "sensor_log m r (ms @ ms') = (case sensor_log m r ms of None \<Rightarrow> None | Some (m, r) \<Rightarrow> sensor_log m r ms')"
  by (induction m r ms rule: sensor_log.induct) auto

text \<open>A part of the task queues some messages.\<close>

definition emits :: "app \<Rightarrow> app \<Rightarrow> sensor_msg list \<Rightarrow> string list \<Rightarrow> bool" where
  "emits s s' ms xs \<longleftrightarrow> Queue_state s' = Queue_state s @ xs \<and> printed_as (adc_data s) ms xs \<and>
     adc_data s' = text_after (adc_data s) xs"

lemma emits_trans: "emits s s1 ms xs \<Longrightarrow> emits s1 s2 ms' ys \<Longrightarrow> emits s s2 (ms @ ms') (xs @ ys)"
  by (auto simp: emits_def intro: printed_as_append)

lemma send_state_emits:
  assumes "send_state env txt s = Some s'" and "msg = Normal \<and> txt = NORMAL_TEMPERATURE \<or> (\<exists>m. msg = Supply m \<and> txt = supply_text m)"
  shows "\<exists>x. emits s s' [msg] [x]"
  using assms by (auto simp: send_state_def emits_def sprintf_to_def split: Option.bind_splits if_splits)

lemma print_and_send_emits: "print_and_send env txt s = Some s' \<Longrightarrow> \<exists>x. emits s s' [Repeat] [x]"
  by (auto simp: print_and_send_def emits_def split: Option.bind_splits if_splits)

lemma emits_set_alert [simp]: "emits s (set_alert b s') ms xs = emits s s' ms xs" "emits (set_alert b s) s' ms xs = emits s s' ms xs"
  by (simp_all add: emits_def set_alert_def)

lemma emits_none [simp]: "emits s s [] xs \<longleftrightarrow> xs = []"
  by (auto simp: emits_def elim: printed_as.elims)

lemma set_alert_simps [simp]: "dc_state (set_alert b s) = dc_state s" "temperature_alert (datas (set_alert b s)) = b"
  by (simp_all add: set_alert_def)

text \<open>How many alerts there have been, after what a state says about them.\<close>

definition alerts_at :: "nat \<Rightarrow> app \<Rightarrow> bool" where
  "alerts_at r s \<longleftrightarrow> r \<le> 2 \<and> (temperature_alert (datas s) \<longleftrightarrow> r \<noteq> 0)"

lemma check_temperature_emits:
  assumes run: "check_temperature env s = Some s'" and r: "alerts_at r s"
  shows "\<exists>ms xs r'. emits s s' ms xs \<and> (\<forall>m. sensor_log m r ms = Some (m, r')) \<and> alerts_at r' s' \<and> dc_state s' = dc_state s"
proof -
  let ?claim = "\<lambda>ms. \<exists>xs r'. emits s s' ms xs \<and> (\<forall>m. sensor_log m r ms = Some (m, r')) \<and> alerts_at r' s' \<and> dc_state s' = dc_state s"
  consider (same) "s' = s"
    | (normal) s1 where "temperature_alert (datas s)" "send_state env NORMAL_TEMPERATURE s = Some s1" "s' = set_alert False s1"
    | (high) s1 where "\<not> temperature_alert (datas s)" "print_and_send env HIGH_TEMPERATURE s = Some s1" "s' = set_alert True s1"
    | (low) s1 where "\<not> temperature_alert (datas s)" "print_and_send env LOW_TEMPERATURE s = Some s1" "s' = set_alert True s1"
    | (both) s1 s2 where "\<not> temperature_alert (datas s)" "print_and_send env HIGH_TEMPERATURE s = Some s1"
        "print_and_send env LOW_TEMPERATURE (set_alert True s1) = Some s2" "s' = set_alert True s2"
    using run by (auto simp: check_temperature_def split: Option.bind_splits if_splits)
  then show ?thesis
  proof cases
    case same
    then show ?thesis using r by (intro exI [of _ "[]"] exI [of _ r]) auto
  next
    case normal
    then have "?claim [Normal]" using r send_state_emits [OF normal(2), of Normal] send_state_inv(2) [OF normal(2)]
      by (auto simp: alerts_at_def)
    then show ?thesis by blast
  next
    case high
    then have "?claim [Repeat]" using r print_and_send_emits [OF high(2)] print_and_send_inv(2) [OF high(2)]
      by (auto simp: alerts_at_def)
    then show ?thesis by blast
  next
    case low
    then have "?claim [Repeat]" using r print_and_send_emits [OF low(2)] print_and_send_inv(2) [OF low(2)]
      by (auto simp: alerts_at_def)
    then show ?thesis by blast
  next
    case both
    obtain x y where "emits s s1 [Repeat] [x]" "emits (set_alert True s1) s2 [Repeat] [y]"
      using print_and_send_emits [OF both(2)] print_and_send_emits [OF both(3)] by blast
    then have "emits s s2 ([Repeat] @ [Repeat]) ([x] @ [y])" by (intro emits_trans) simp_all
    then have "?claim [Repeat, Repeat]"
      using r both(1,4) print_and_send_inv(2) [OF both(2)] print_and_send_inv(2) [OF both(3)] by (auto simp: alerts_at_def)
    then show ?thesis by blast
  qed
qed

lemma check_supply_emits:
  assumes run: "check_supply env s = Some s'" and r: "alerts_at r s"
  shows "\<exists>ms xs r'. emits s s' ms xs \<and> sensor_log (expected_msg (dc_state s)) r ms = Some (expected_msg (dc_state s'), r') \<and>
    alerts_at r' s'"
proof -
  have quiet: ?thesis if "emits s s' [] []" "expected_msg (dc_state s') = expected_msg (dc_state s)" "datas s' = datas s"
    using that r by (intro exI [of _ "[]"] exI [of _ r]) (simp add: alerts_at_def)
  show ?thesis
  proof (cases "dc_state s = DC_CONNECTING \<and> 0 < battery (datas s) \<or> dc_state s = DC_DISCONNECTING \<and> battery (datas s) = 0")
    case False
    then show ?thesis using run
      by (intro quiet) (auto simp: check_supply_def emits_def expected_msg_def Let_def split: dc_state_t.splits if_splits)
  next
    case True
    define m where "m = expected_msg (dc_state s)"
    obtain s1 where s1: "send_state env (supply_text m) s = Some s1"
      "s' = s1\<lparr>dc_state := if dc_state s = DC_CONNECTING then DC_CONNECTED else DC_DISCONNECTED\<rparr>"
      using run True by (auto simp: check_supply_def m_def expected_msg_def split: Option.bind_splits if_splits)
    obtain x where "emits s s1 [Supply m] [x]" using send_state_emits [OF s1(1), of "Supply m"] by auto
    then have "emits s s' [Supply m] [x]" by (simp add: s1(2) emits_def)
    moreover have "alerts_at (if r = 0 then 0 else 2) s'"
      using r s1 by (auto simp: alerts_at_def send_state_def split: Option.bind_splits)
    ultimately show ?thesis using True s1(2)
      by (intro exI [of _ "[Supply m]"] exI [of _ "[x]"]) (auto simp: m_def expected_msg_def)
  qed
qed

lemma task_adc_read_emits:
  assumes run: "task_adc_read env s = Some s'" and r: "alerts_at r s"
  shows "\<exists>ms xs r'. emits s s' ms xs \<and> sensor_log (expected_msg (dc_state s)) r ms = Some (expected_msg (dc_state s'), r') \<and>
    alerts_at r' s'"
proof -
  define s0 where "s0 = adc_sample env s"
  have s0: "emits s0 = emits s" "alerts_at r s0" "dc_state s0 = dc_state s"
    using r by (simp_all add: s0_def fun_eq_iff emits_def adc_sample_def alerts_at_def Let_def)
  obtain s1 where s1: "check_temperature env s0 = Some s1" "check_supply env s1 = Some s'"
    using run by (auto simp: task_adc_read_def s0_def Option.bind_eq_Some_conv)
  obtain ms xs r1 where t: "emits s0 s1 ms xs" "\<And>m. sensor_log m r ms = Some (m, r1)" "alerts_at r1 s1" "dc_state s1 = dc_state s0"
    using check_temperature_emits [OF s1(1) s0(2)] by blast
  obtain ms' ys r2 where u: "emits s1 s' ms' ys" "sensor_log (expected_msg (dc_state s1)) r1 ms' = Some (expected_msg (dc_state s'), r2)"
    "alerts_at r2 s'"
    using check_supply_emits [OF s1(2) t(3)] by blast
  have "emits s s' (ms @ ms') (xs @ ys)" using emits_trans [OF t(1) u(1)] by (simp add: s0(1))
  moreover have "sensor_log (expected_msg (dc_state s)) r (ms @ ms') = Some (expected_msg (dc_state s'), r2)"
    using t(2,4) u(2) s0(3) by (simp add: sensor_log_append)
  ultimately show ?thesis using u(3) by blast
qed

text \<open>What belongs to the sensor task: the other tasks leave it alone.\<close>

definition sensor_part :: "app \<Rightarrow> data_t \<times> bool \<times> dc_state_t \<times> string option" where
  "sensor_part s = (datas s, energy s, dc_state s, adc_data s)"

lemma report_sensor: "report env b s = Some s' \<Longrightarrow> sensor_part s' = sensor_part s"
  by (auto simp: report_def sensor_part_def split: Option.bind_splits if_splits)

lemma get_counter_sensor: "get_counter api env k s n = Some (c, s', n') \<Longrightarrow> sensor_part s' = sensor_part s"
  by (auto simp: get_counter_def split: prod.splits Option.bind_splits if_splits dest: report_sensor)

lemma connector_loop_sensor:
  "connector_loop api env saved i sent z s n = Some (z', s', n') \<Longrightarrow> sensor_part s' = sensor_part s"
proof (induction "nat (saved + 1 - i)" arbitrary: i sent z s n rule: less_induct)
  case less
  show ?case
  proof (cases "i \<le> saved")
    case False
    with less.prems show ?thesis by (simp add: connector_loop.simps)
  next
    case True
    from less.prems True show ?thesis
    proof (cases rule: connector_loop_pass)
      case (1 v z1 s1 n1 sent1 err n2 s2 i1)
      have "sensor_part s2 = sensor_part s"
        using report_sensor [OF 1(5)] 1(1) by (auto simp: read_slot_def sensor_part_def Let_def split: prod.splits)
      moreover have "nat (saved + 1 - i1) < nat (saved + 1 - i)"
        using 1(6) True by (auto simp: inc_i32_def split: if_splits)
      ultimately show ?thesis using less.hyps 1(7) by metis
    qed
  qed
qed

lemma other_step_sensor:
  assumes "other_step api env x y"
  shows "sensor_part (fst y) = sensor_part (fst x)"
  using assms
proof cases
  case (connector z s n z' s' n')
  then show ?thesis
    by (auto simp: task_connector_def split: prod.splits Option.bind_splits if_splits
        dest!: report_sensor get_counter_sensor connector_loop_sensor)
qed (auto simp: sensor_part_def task_config_def iot_subscribe_callback_handler_def Let_def
    split: list.splits option.splits prod.splits Option.bind_splits if_splits)

text \<open>A run of the system, with every message the sensor task has queued in it.\<close>

inductive sensor_history :: "'n nvs_api \<Rightarrow> esp_env \<Rightarrow> string list \<Rightarrow> 'n sys \<Rightarrow> bool" for api env where
  start: "sys_init x \<Longrightarrow> sensor_history api env [] x"
| reading: "sensor_history api env xs (s, n, z) \<Longrightarrow> task_adc_read env s = Some s' \<Longrightarrow>
    sensor_history api env (xs @ drop (length (Queue_state s)) (Queue_state s')) (s', n, z)"
| other: "sensor_history api env xs x \<Longrightarrow> other_step api env x y \<Longrightarrow> sensor_history api env xs y"

lemma sensor_history_reach: "sensor_history api env xs x \<Longrightarrow> reach sys_init (sys_step api env) x"
  by (induction rule: sensor_history.induct) (auto intro: reach.start reach.move sys_step.intros)

lemma sensor_history_log:
  "sensor_history api env xs x \<Longrightarrow> \<exists>ms r. printed_as None ms xs \<and> adc_data (fst x) = text_after None xs \<and>
     sensor_log Connected 0 ms = Some (expected_msg (dc_state (fst x)), r) \<and> alerts_at r (fst x)"
proof (induction rule: sensor_history.induct)
  case (start x)
  then show ?case
    by (intro exI [of _ "[]"] exI [of _ 0]) (auto simp: sys_init_def app_start_def expected_msg_def alerts_at_def)
next
  case (reading xs s n z s')
  then obtain ms r where h: "printed_as None ms xs" "adc_data s = text_after None xs"
    "sensor_log Connected 0 ms = Some (expected_msg (dc_state s), r)" "alerts_at r s"
    by auto
  obtain ms' ys r' where e: "emits s s' ms' ys"
    "sensor_log (expected_msg (dc_state s)) r ms' = Some (expected_msg (dc_state s'), r')" "alerts_at r' s'"
    using task_adc_read_emits [OF reading(2) h(4)] by blast
  then have ys: "drop (length (Queue_state s)) (Queue_state s') = ys" by (simp add: emits_def)
  have "printed_as None (ms @ ms') (xs @ ys)" using h(1,2) e(1) by (intro printed_as_append) (simp_all add: emits_def)
  moreover have "sensor_log Connected 0 (ms @ ms') = Some (expected_msg (dc_state s'), r')"
    using h(3) e(2) by (simp add: sensor_log_append)
  moreover have "adc_data s' = text_after None (xs @ ys)" using h(2) e(1) by (simp add: emits_def)
  ultimately show ?case unfolding ys using e(3) by auto
next
  case (other xs x y)
  then show ?case using other_step_sensor [OF other(2)] by (auto simp: sensor_part_def alerts_at_def)
qed

subsection \<open>What a round of the connector sends\<close>

text \<open>
  A store on which no call fails, a heap that never refuses, and a queue with enough room: the
  round then queues the stored readings in order.
\<close>

definition sent_count :: "('n \<Rightarrow> string \<Rightarrow> int option) \<Rightarrow> 'n \<Rightarrow> int" where
  "sent_count I n = (case I n ''sent_counter'' of None \<Rightarrow> 0 | Some v \<Rightarrow> v)"

definition heap_never_refuses :: "esp_env \<Rightarrow> bool" where
  "heap_never_refuses env \<longleftrightarrow> (\<forall>k m. malloc_block env k m \<noteq> None)"

definition nvs_reliable ::
  "'n nvs_api \<Rightarrow> ('n \<Rightarrow> string \<Rightarrow> int option) \<Rightarrow> ('n \<Rightarrow> string \<Rightarrow> string option) \<Rightarrow> bool" where
  "nvs_reliable api I S \<longleftrightarrow> nvs_lawful api I S \<and> nvs_healthy api I S"

lemma nvs_reliableD:
  assumes "nvs_reliable api I S"
  shows lawful: "nvs_lawful api I S" and healthy: "nvs_healthy api I S"
  using assms by (simp_all add: nvs_reliable_def)

lemma close_ok:
  assumes "nvs_reliable api I S"
  shows "I (nvs_close api n) = I n" and "S (nvs_close api n) = S n"
  by (rule nvs_close_lawful [OF lawful [OF assms]])+

lemma open_ok:
  assumes good: "nvs_reliable api I S"
  shows "\<exists>n'. nvs_open api n = (ESP_OK, n') \<and> I n' = I n \<and> S n' = S n"
  using nvs_healthy_calls(1) [OF healthy [OF good], of n] nvs_open_lawful [OF lawful [OF good], of n]
  by (metis surj_pair)

lemma set_i32_ok:
  assumes good: "nvs_reliable api I S"
  shows "\<exists>n'. nvs_set_i32 api k v n = (ESP_OK, n') \<and> I n' = (I n)(k \<mapsto> v) \<and> S n' = S n"
  using nvs_healthy_calls(3) [OF healthy [OF good], of k v n]
    nvs_set_i32_lawful [OF lawful [OF good], of k v n]
  by (metis surj_pair)

lemma get_str_ok:
  assumes good: "nvs_reliable api I S" and t: "S n k = Some t"
  shows "\<exists>n'. nvs_get_str api k n = (ESP_OK, t, n') \<and> I n' = I n \<and> S n' = S n"
proof -
  note t
  moreover obtain e v n' where g: "nvs_get_str api k n = (e, v, n')" using prod_cases3 by blast
  moreover have "e = (if S n k = None then ESP_ERR_NVS_NOT_FOUND else ESP_OK)"
    by (rule nvs_healthy_get_str [OF healthy [OF good] g])
  ultimately have e: "e = ESP_OK" by simp
  from nvs_get_str_lawful [OF lawful [OF good] g] e t
  have "v = t" and "I n' = I n" and "S n' = S n" by simp_all
  with g e show ?thesis by blast
qed

lemma read_slot_ok:
  assumes good: "nvs_reliable api I S" and "S n k = Some t" and "heap_never_refuses env"
  shows "\<exists>z' n'. read_slot api env k z s n = (Text t, z', s\<lparr>calls := calls s + 1\<rparr>, n')
    \<and> I n' = I n \<and> S n' = S n"
proof -
  from get_str_ok [OF assms(1,2)] obtain n1 where
    n1: "nvs_get_str api k n = (ESP_OK, t, n1)" "I n1 = I n" "S n1 = S n" by blast
  with assms(2) have "S n1 k = Some t" by simp
  from get_str_ok [OF good this] obtain n2 where
    n2: "nvs_get_str api k n1 = (ESP_OK, t, n2)" "I n2 = I n1" "S n2 = S n1" by blast
  from assms(3) obtain b where "malloc_block env (calls s) (Suc (length t)) = Some b"
    unfolding heap_never_refuses_def by blast
  with n1 n2 show ?thesis by (simp add: read_slot_def)
qed

lemma get_counter_ok:
  assumes good: "nvs_reliable api I S"
  shows "\<exists>n'. get_counter api env k s n = Some (case I n k of None \<Rightarrow> 0 | Some v \<Rightarrow> v, s, n') \<and> I n' = I n \<and> S n' = S n"
proof -
  obtain e v n' where g: "nvs_get_i32 api k n = (e, v, n')" using prod_cases3 by blast
  have "I n' = I n" "S n' = S n" "e = ESP_OK \<Longrightarrow> I n k = Some v"
    using nvs_get_i32_lawful [OF lawful [OF good] g] by simp_all
  moreover have "e = (if I n k = None then ESP_ERR_NVS_NOT_FOUND else ESP_OK)"
    by (rule nvs_healthy_get [OF healthy [OF good] g])
  ultimately show ?thesis by (cases "I n k") (simp_all add: get_counter_def report_def g)
qed

lemma connector_loop_sends:
  assumes good: "nvs_reliable api I S" and "heap_never_refuses env" and "saved < INT_MAX"
    and "\<And>j. i \<le> j \<Longrightarrow> j \<le> saved \<Longrightarrow> S n (slot_key j) = Some (f j)"
    and "int (length (Queue_data s)) + (saved + 1 - i) \<le> int N_QUEUE"
  shows "\<exists>z' s' n'. connector_loop api env saved i i z s n = Some (z', s', n')
    \<and> Queue_data s' = Queue_data s @ map (\<lambda>j. Text (f j)) [i..saved]
    \<and> Queue_state s' = Queue_state s \<and> S n' = S n
    \<and> I n' = (if i \<le> saved then (I n)(''sent_counter'' \<mapsto> saved + 1) else I n)"
  using assms(4,5)
proof (induction "nat (saved + 1 - i)" arbitrary: i z s n rule: less_induct)
  case less
  show ?case
  proof (cases "i \<le> saved")
    case False
    then show ?thesis by (simp add: connector_loop.simps)
  next
    case True
    let ?s1 = "s\<lparr>calls := calls s + 1, Queue_data := Queue_data s @ [Text (f i)]\<rparr>"
    from less.prems(1) True have "S n (slot_key i) = Some (f i)" by simp
    from read_slot_ok [OF good this assms(2)] obtain z1 n1 where
      n1: "read_slot api env (slot_key i) z s n = (Text (f i), z1, s\<lparr>calls := calls s + 1\<rparr>, n1)"
        "I n1 = I n" "S n1 = S n" by blast
    from set_i32_ok [OF good] obtain n2 where
      n2: "nvs_set_i32 api ''sent_counter'' (i + 1) n1 = (ESP_OK, n2)"
        "I n2 = (I n1)(''sent_counter'' \<mapsto> i + 1)" "S n2 = S n1" by blast
    have inc: "inc_i32 i = Some (i + 1)" using True assms(3) by (simp add: inc_i32_def)
    have room: "length (Queue_data s) < N_QUEUE" using less.prems(2) True by simp
    have pass: "connector_loop api env saved i i z s n
        = connector_loop api env saved (i + 1) (i + 1) z1 ?s1 n2"
      using True room n1(1) n2(1) inc slot_key_fits [of i]
      by (subst connector_loop.simps) (simp add: sprintf_to_def report_def q_send_def)
    have "\<exists>z' s' n'. connector_loop api env saved (i + 1) (i + 1) z1 ?s1 n2 = Some (z', s', n')
      \<and> Queue_data s' = Queue_data ?s1 @ map (\<lambda>j. Text (f j)) [i + 1..saved]
      \<and> Queue_state s' = Queue_state ?s1 \<and> S n' = S n2
      \<and> I n' = (if i + 1 \<le> saved then (I n2)(''sent_counter'' \<mapsto> saved + 1) else I n2)"
      using True less.prems n1 n2 by (intro less.hyps) auto
    moreover have "[i..saved] = i # [i + 1..saved]" using True by (rule upto_rec1)
    moreover have "i + 1 \<le> saved \<or> i = saved" using True by auto
    ultimately show ?thesis unfolding pass using True n1 n2 by auto
  qed
qed

lemma task_connector_sends:
  assumes good: "nvs_reliable api I S" and "heap_never_refuses env" and "0 \<le> sent_count I n" and "sent_count I n < INT_MAX"
    and "0 \<le> saved_count I n" and "saved_count I n < INT_MAX"
    and "\<And>j. sent_count I n < j \<Longrightarrow> j \<le> saved_count I n \<Longrightarrow> S n (slot_key j) = Some (f j)"
    and "int (length (Queue_data s)) + (saved_count I n - sent_count I n) \<le> int N_QUEUE"
  shows "\<exists>z' s' n'. task_connector api env z s n = Some (z', s', n')
    \<and> Queue_data s' = Queue_data s @ map (\<lambda>j. Text (f j)) [sent_count I n + 1..saved_count I n]
    \<and> Queue_state s' = Queue_state s \<and> S n' = S n
    \<and> I n' = (if sent_count I n < saved_count I n
               then (I n)(''sent_counter'' \<mapsto> saved_count I n + 1) else I n)"
proof -
  let ?a = "saved_count I n" and ?b = "sent_count I n"
  from open_ok [OF good] obtain n1 where n1: "nvs_open api n = (ESP_OK, n1)" "I n1 = I n" "S n1 = S n" by blast
  from get_counter_ok [OF good] obtain n2 where
    n2: "get_counter api env ''saved_counter'' s n1 = Some (?a, s, n2)" "I n2 = I n1" "S n2 = S n1"
    unfolding saved_count_def n1(2) [symmetric] by blast
  from get_counter_ok [OF good] obtain n3 where
    n3: "get_counter api env ''sent_counter'' s n2 = Some (?b, s, n3)" "I n3 = I n2" "S n3 = S n2"
    unfolding sent_count_def n1(2) [symmetric] n2(2) [symmetric] by blast
  have inc: "inc_i32 ?b = Some (?b + 1)" using assms(4) by (simp add: inc_i32_def)
  show ?thesis
  proof (cases "?a = 0")
    case True
    then show ?thesis
      using n1 n2 n3 inc assms(3) close_ok [OF good] by (simp add: task_connector_def report_def)
  next
    case False
    have "\<exists>z' s' n'. connector_loop api env ?a (?b + 1) (?b + 1) z s n3 = Some (z', s', n')
      \<and> Queue_data s' = Queue_data s @ map (\<lambda>j. Text (f j)) [?b + 1..?a]
      \<and> Queue_state s' = Queue_state s \<and> S n' = S n3
      \<and> I n' = (if ?b + 1 \<le> ?a then (I n3)(''sent_counter'' \<mapsto> ?a + 1) else I n3)"
      using assms n1 n2 n3 by (intro connector_loop_sends [OF good]) auto
    then show ?thesis
      using False n1 n2 n3 inc by (auto simp: task_connector_def report_def close_ok [OF good])
  qed
qed

end
