(* ===== verification/FirmwareProperties.thy ===== *)
theory FirmwareProperties
  imports FirmwareSystem
begin

text \<open>
  The properties of storage, configuration, sensor and connector tasks, each with a witness at
  a concrete input. The witnesses use a store kept in two maps, on which no call fails.
\<close>

subsection \<open>A store for the witnesses\<close>

type_synonym flash = "(string \<Rightarrow> int option) \<times> (string \<Rightarrow> string option)"

definition flash_api :: "flash nvs_api" where
  "flash_api =
     \<lparr>nvs_open = (\<lambda>n. (ESP_OK, n)),
      nvs_get_i32 = (\<lambda>k n. case fst n k of None \<Rightarrow> (ESP_ERR_NVS_NOT_FOUND, 0, n) | Some v \<Rightarrow> (ESP_OK, v, n)),
      nvs_set_i32 = (\<lambda>k v n. (ESP_OK, ((fst n)(k \<mapsto> v), snd n))),
      nvs_get_str = (\<lambda>k n. case snd n k of None \<Rightarrow> (ESP_ERR_NVS_NOT_FOUND, [], n) | Some v \<Rightarrow> (ESP_OK, v, n)),
      nvs_set_str = (\<lambda>k v n. (ESP_OK, (fst n, (snd n)(k \<mapsto> v)))),
      nvs_commit = (\<lambda>n. (ESP_OK, n)),
      nvs_close = (\<lambda>n. n)\<rparr>"

lemma flash_lawful [simp]: "nvs_lawful flash_api fst snd"
  by (auto simp: nvs_lawful_def flash_api_def split: option.splits)

lemma flash_healthy [simp]: "nvs_healthy flash_api fst snd"
  by (auto simp: nvs_healthy_def flash_api_def split: option.splits)

lemma flash_reliable [simp]: "nvs_reliable flash_api fst snd"
  by (simp add: nvs_reliable_def)

lemma flash_str_writes [simp]: "str_writes_succeed flash_api"
  by (simp add: str_writes_succeed_def flash_api_def)

definition sample :: data_t where
  "sample = \<lparr>timestamp = 7, temperature_1 = 21, temperature_2 = 30, temperature_3 = 9,
     battery = 2000, temperature_alert = False\<rparr>"

definition blank_flash :: flash where
  "blank_flash = (Map.empty, Map.empty)"

definition quiet_env :: esp_env where
  "quiet_env = \<lparr>log_timestamp = (\<lambda>_. 5), random32 = (\<lambda>_. 2500000000), adc_raw = (\<lambda>_. 100),
     malloc_block = (\<lambda>_ m. Some (m + 4))\<rparr>"

definition start_app :: app where
  "start_app = app_start default_config sample"

subsection \<open>Saving readings\<close>

definition save_all :: "'n nvs_api \<Rightarrow> data_t list \<Rightarrow> 'n \<Rightarrow> 'n option" where
  "save_all api = append_all (\<lambda>d n. case save_read_data api d n of
     Some (err, n') \<Rightarrow> if err = ESP_OK then Some n' else None | None \<Rightarrow> None)"

lemma save_all_log:
  "save_all api ds n = Some n' \<Longrightarrow> append_all log_append ds (api, I, S, n) = Some (api, I, S, n')"
proof (induction ds arbitrary: n)
  case Nil
  then show ?case by (simp add: save_all_def)
next
  case (Cons d ds)
  then show ?case
    by (auto simp: save_all_def log_append_def split: Option.bind_splits option.splits if_splits)
qed

text \<open>(C1) After any run of successful saves on a store that keeps what it is given, each of the
  last 200 readings is still in flash under the key of its number, formatted, and the counter has
  grown by the number of readings: the ring never loses a reading that is less than 200 saves old.\<close>

theorem readings_retained:
  assumes "nvs_lawful api I S" and "str_writes_succeed api" and "0 \<le> saved_count I n"
    and "save_all api ds n = Some n'" and "k < length ds" and "length ds - k \<le> 200"
  shows "S n' (slot_key (saved_count I n + 1 + int k)) = Some (data_format (ds ! k))
    \<and> saved_count I n' = saved_count I n + int (length ds)"
proof -
  have inv: "log_invar (api, I, S, n)" using assms(1-3) by (simp add: log_invar_def)
  note run = save_all_log [OF assms(4), of I S]
  show ?thesis
    using reading_log.append_all_readable [OF inv run assms(5)] assms(6)
      reading_log.append_all_count [OF inv run]
    by (simp add: log_slot_def log_count_def MAX_BUFFER_RING_def)
qed

lemma save_sample_ok:
  assumes "saved_count fst n < INT_MAX"
  shows "\<exists>n'. save_read_data flash_api sample n = Some (ESP_OK, n')"
proof -
  have "sensor_range sample" by (simp add: sensor_range_def sample_def)
  from save_read_data_defined [OF flash_lawful assms this] show ?thesis
    by (auto simp: save_read_data_def flash_api_def split: option.splits Option.bind_splits if_splits)
qed

lemma save_sample: "save_all flash_api [sample, sample] blank_flash \<noteq> None"
proof -
  obtain n1 where n1: "save_read_data flash_api sample blank_flash = Some (ESP_OK, n1)"
    using save_sample_ok [of blank_flash] by (auto simp: saved_count_def blank_flash_def INT_MAX_def)
  have "saved_count fst n1 = 1"
    using save_read_data_effect(1) [OF flash_lawful flash_str_writes n1]
    by (simp add: saved_count_def blank_flash_def)
  then obtain n2 where "save_read_data flash_api sample n1 = Some (ESP_OK, n2)"
    using save_sample_ok [of n1] by (auto simp: INT_MAX_def)
  with n1 show ?thesis by (simp add: save_all_def)
qed

theorem readings_retained_witness:
  "\<exists>n'. save_all flash_api [sample, sample] blank_flash = Some n'
    \<and> snd n' ''i_2'' = Some (data_format sample) \<and> saved_count fst n' = 2"
proof -
  obtain n' where n': "save_all flash_api [sample, sample] blank_flash = Some n'"
    using save_sample by auto
  have c: "saved_count fst blank_flash = 0" by (simp add: saved_count_def blank_flash_def)
  have key: "slot_key 2 = ''i_2''" by code_simp
  from readings_retained [OF flash_lawful flash_str_writes _ n', of 1] n' c key
  show ?thesis by simp
qed

text \<open>For every reading the sensor task can produce and a counter below \<open>INT_MAX\<close>, saving
  stays inside its two stack arrays (the key in 7 bytes, the text in 50) and inside the range of
  \<open>int\<close>, whatever the store answers; the text needs at most 41 bytes.\<close>

theorem save_read_data_in_bounds:
  assumes "nvs_lawful api I S" and "saved_count I n < INT_MAX" and "sensor_range d"
  shows "save_read_data api d n \<noteq> None \<and> length (data_format d) + 1 \<le> 41"
  using save_read_data_defined [OF assms] data_format_length [OF assms(3)] by simp

theorem save_read_data_in_bounds_witness:
  "sensor_range sample \<and> save_read_data flash_api sample blank_flash \<noteq> None"
proof -
  have h: "sensor_range sample" "saved_count fst blank_flash < INT_MAX"
    by (simp_all add: sensor_range_def sample_def saved_count_def blank_flash_def INT_MAX_def)
  with save_read_data_in_bounds [OF flash_lawful h(2) h(1)] show ?thesis by simp
qed

subsection \<open>Configuration\<close>

lemma show_int_short:
  assumes "-99999999 \<le> z" and "z \<le> 999999999"
  shows "length (show_int z) \<le> 9"
proof (cases "z < 0")
  case True
  with assms have "nat (- z) < 10 ^ 8" by simp
  then have "length (show_nat (nat (- z))) \<le> 8" by (rule length_show_nat) simp
  with True show ?thesis by (simp add: show_int_def)
next
  case False
  with assms have "nat z < 10 ^ 9" by simp
  then have "length (show_nat (nat z)) \<le> 9" by (rule length_show_nat) simp
  with False show ?thesis by (simp add: show_int_def)
qed

text \<open>The configuration message the device documents, \<open>{"tl":..,"th":..,"rt":..}\<close>, is parsed
  back to exactly the three numbers it was printed from, for every number of at most nine
  characters and any result array of at least three elements.\<close>

theorem config_message_roundtrip:
  assumes "-99999999 \<le> lo" "lo \<le> 999999999" and "-99999999 \<le> hi" "hi \<le> 999999999"
    and "-99999999 \<le> rt" "rt \<le> 999999999" and "3 \<le> cap"
  shows "parserJsonIntValues cap (config_message lo hi rt @ [NUL]) = Some [lo, hi, rt]"
  using assms by (intro parse_config_message show_int_short)

theorem config_message_roundtrip_witness:
  "parserJsonIntValues 10 (''{\"tl\":-10,\"th\":50,\"rt\":30}'' @ [NUL]) = Some [-10, 50, 30]"
proof -
  have "config_message (-10) 50 30 = ''{\"tl\":-10,\"th\":50,\"rt\":30}''" by code_simp
  with config_message_roundtrip [of "-10" 50 30 10] show ?thesis by simp
qed

lemma save_config_ok:
  assumes "nvs_reliable api I S"
  shows "\<exists>n'. save_config api g n = (ESP_OK, n')"
proof -
  from open_ok [OF assms] obtain n1 where "nvs_open api n = (ESP_OK, n1)" by blast
  moreover from set_i32_ok [OF assms] obtain n2 where
    "nvs_set_i32 api ''threshold_min'' (threshold_min g) n1 = (ESP_OK, n2)" by blast
  moreover from set_i32_ok [OF assms] obtain n3 where
    "nvs_set_i32 api ''threshold_max'' (threshold_max g) n2 = (ESP_OK, n3)" by blast
  moreover from set_i32_ok [OF assms] obtain n4 where
    "nvs_set_i32 api ''rate'' (rate g) n3 = (ESP_OK, n4)" by blast
  moreover obtain n5 where "nvs_commit api n4 = (ESP_OK, n5)"
    using nvs_healthy_calls(2) [OF healthy [OF assms]] by (metis surj_pair)
  ultimately show ?thesis by (simp add: save_config_def)
qed

lemma saved_config_loads:
  assumes "nvs_reliable api I S" and "save_config api g n = (e, n')"
  shows "fst (app_main_config api n') = g"
proof -
  from save_config_ok [OF assms(1)] assms(2) have "save_config api g n = (ESP_OK, n')" by (metis prod.inject)
  note I = save_config_effect(1) [OF lawful [OF assms(1)] this]
  from load_config_stored [OF lawful [OF assms(1)] healthy [OF assms(1)], of default_config n'] I
  obtain n2 where "load_config api default_config n' = (ESP_OK, g, n2)" by auto
  then show ?thesis by (simp add: app_main_config_def)
qed

text \<open>(C18) A configuration message travels through the whole device. What the subscription callback does depends on the
  block the heap gives it for the message: without one the message is dropped, on a block without a spare byte the
  terminator is written behind it, which is undefined, and otherwise the message is queued. The configuration task parses a
  queued message, checks it against the limits, makes it the running configuration and stores it, and the next
  start of the device loads exactly that configuration.\<close>

theorem configuration_applied_and_kept:
  assumes store: "nvs_reliable api I S" and queue: "Queue_config s = []"
    and msg: "msg = config_message lo hi rt"
    and queued: "s1 = s\<lparr>calls := calls s + 1, Queue_config := [msg @ [NUL]]\<rparr>"
    and limits: "-20 \<le> lo" "lo \<le> 999999999" "-99999999 \<le> hi" "hi \<le> 70" "10 \<le> rt" "rt \<le> 999999999"
  shows "iot_subscribe_callback_handler env msg s = (case malloc_block env (calls s) (length msg) of
        None \<Rightarrow> Some (s\<lparr>calls := calls s + 1\<rparr>)
      | Some usable \<Rightarrow> if usable \<le> length msg then None else Some s1) \<and>
    (\<exists>s2 n2. task_config api s1 n = Some (s2, n2)
      \<and> cfg s2 = \<lparr>threshold_min = lo, threshold_max = hi, rate = rt\<rparr> \<and> Queue_config s2 = []
      \<and> fst (app_main_config api n2) = cfg s2)"
proof -
  let ?g = "\<lparr>threshold_min = lo, threshold_max = hi, rate = rt\<rparr>"
  have parse: "parserJsonIntValues 10 (msg @ [NUL]) = Some [lo, hi, rt]"
    unfolding msg using limits by (intro parse_config_message show_int_short) auto
  have "iot_subscribe_callback_handler env msg s = (case malloc_block env (calls s) (length msg) of
        None \<Rightarrow> Some (s\<lparr>calls := calls s + 1\<rparr>)
      | Some usable \<Rightarrow> if usable \<le> length msg then None else Some s1)"
    using queue by (simp add: iot_subscribe_callback_handler_def queued q_send_def N_QUEUE_def split: option.split)
  moreover have cfg: "apply_config [lo, hi, rt] (cfg s) = ?g"
    using limits by (simp add: apply_config_def TEMP_MIN_def TEMP_MAX_def RATE_MIN_def)
  obtain e n2 where "save_config api ?g n = (e, n2)" by fastforce
  moreover from this have "task_config api s1 n = Some (s1\<lparr>Queue_config := [], cfg := ?g\<rparr>, n2)"
    using parse cfg by (simp add: task_config_def queued)
  ultimately show ?thesis using saved_config_loads [OF store] by auto
qed

text \<open>A heap that rounds blocks up, and one that gives a message of a multiple of four characters no more than it asked for.\<close>

theorem configuration_applied_and_kept_witness:
  "\<exists>s1 s2 n2. iot_subscribe_callback_handler quiet_env (config_message (-10) 50 30) start_app = Some s1
    \<and> iot_subscribe_callback_handler (quiet_env\<lparr>malloc_block := \<lambda>_ m. Some m\<rparr>) (config_message (-10) 50 30) start_app = None
    \<and> task_config flash_api s1 blank_flash = Some (s2, n2)
    \<and> cfg s2 = \<lparr>threshold_min = -10, threshold_max = 50, rate = 30\<rparr> \<and> Queue_config s2 = []
    \<and> fst (app_main_config flash_api n2) = cfg s2"
proof -
  have q: "Queue_config start_app = []" by (simp add: start_app_def app_start_def)
  note kept = configuration_applied_and_kept [OF flash_reliable q refl refl, of "-10" 50 30 _ blank_flash]
  show ?thesis
    using kept [of quiet_env] kept [of "quiet_env\<lparr>malloc_block := \<lambda>_ m. Some m\<rparr>"] by (auto simp: quiet_env_def)
qed

text \<open>The callback that receives a configuration writes its terminator one byte behind the
  block it asked for: it has a defined result exactly when the heap refuses or gives a longer
  block. On a heap that gives blocks of exactly the requested size no message is ever handled.\<close>

theorem callback_needs_spare_byte:
  assumes "length (Queue_config s) < N_QUEUE"
  shows "iot_subscribe_callback_handler env payload s = None
    \<longleftrightarrow> (\<exists>u. malloc_block env (calls s) (length payload) = Some u \<and> u \<le> length payload)"
  using assms
  by (auto simp: iot_subscribe_callback_handler_def q_send_def Let_def split: option.splits)

theorem callback_needs_spare_byte_witness:
  "iot_subscribe_callback_handler (quiet_env\<lparr>malloc_block := \<lambda>_ m. Some m\<rparr>) ''{}'' start_app = None"
  using callback_needs_spare_byte [of start_app "quiet_env\<lparr>malloc_block := \<lambda>_ m. Some m\<rparr>" "''{}''"]
  by (simp add: start_app_def app_start_def N_QUEUE_def)

subsection \<open>Temperatures and alerts\<close>

text \<open>(C37) In every state the interleaved tasks can reach, no queued state message carries a
  high- or low-temperature alert: the alert branches call \<open>printf\<close> where \<open>sprintf\<close> is meant,
  so the text they format never reaches the buffer they send.\<close>

theorem alerts_never_queued:
  assumes "reach sys_init (sys_step api env) (s, n, z)"
  shows "state_format t HIGH_TEMPERATURE \<notin> set (Queue_state s)
    \<and> state_format t LOW_TEMPERATURE \<notin> set (Queue_state s)"
proof -
  have "app_inv s" using firmware.reach_inv [OF assms] by simp
  then have "set (Queue_state s) \<subseteq> state_texts" by (simp add: app_inv_def messages_formatted_def)
  then show ?thesis using state_text_letters alert_texts_letters by blast
qed

theorem alerts_never_queued_witness:
  "state_format 5 HIGH_TEMPERATURE \<notin> set (Queue_state start_app)"
proof -
  have "reach sys_init (sys_step flash_api quiet_env) (start_app, blank_flash, 0)"
    by (rule reach.start) (auto simp: sys_init_def start_app_def)
  from alerts_never_queued [OF this] show ?thesis by blast
qed

text \<open>The first alert after start-up is undefined behaviour: as long as no state message has
  been formatted the buffer is uninitialised, and the alert branch uses it as a format string.\<close>

theorem first_alert_undefined:
  assumes "adc_data s = None" and "\<not> temperature_alert (datas s)"
    and "\<not> temperature_normal (cfg s) (datas s)"
    and "temperature_high (cfg s) (datas s) \<or> temperature_low (cfg s) (datas s)"
  shows "check_temperature env s = None"
  using assms by (auto simp: check_temperature_def print_and_send_def)

theorem first_alert_undefined_witness:
  "check_temperature quiet_env (app_start default_config (sample\<lparr>temperature_1 := 60\<rparr>)) = None"
proof (rule first_alert_undefined)
  let ?s = "app_start default_config (sample\<lparr>temperature_1 := 60\<rparr>)"
  show "adc_data ?s = None" "\<not> temperature_alert (datas ?s)" by (simp_all add: app_start_def)
  show "\<not> temperature_normal (cfg ?s) (datas ?s)"
    by (simp add: app_start_def temperature_normal_def default_config_def sample_def u32_of_def)
  show "temperature_high (cfg ?s) (datas ?s) \<or> temperature_low (cfg ?s) (datas ?s)"
    by (simp add: app_start_def temperature_high_def default_config_def sample_def u32_of_def)
qed

text \<open>With limits that are not negative the test for a normal temperature is right for the
  first two sensors and checks only the upper limit for the third: it accepts exactly the
  readings where sensors 1 and 2 are within the band and sensor 3 is at most the maximum.\<close>

theorem normal_test_misses_third_minimum:
  assumes "non_negative_band c"
  shows "temperature_normal c d \<longleftrightarrow>
    in_band c (temperature_1 d) \<and> in_band c (temperature_2 d) \<and> int (unat (temperature_3 d)) \<le> threshold_max c"
  using temperature_compare [OF assms] by (auto simp: temperature_normal_def in_band_def)

theorem normal_test_misses_third_minimum_witness:
  "temperature_normal \<lparr>threshold_min = 15, threshold_max = 50, rate = 60\<rparr> sample
    \<and> \<not> in_band \<lparr>threshold_min = 15, threshold_max = 50, rate = 60\<rparr> (temperature_3 sample)"
proof -
  let ?c = "\<lparr>threshold_min = 15, threshold_max = 50, rate = 60\<rparr>"
  have "non_negative_band ?c" by (simp add: non_negative_band_def INT_MAX_def)
  from normal_test_misses_third_minimum [OF this, of sample] show ?thesis
    by (simp add: in_band_def sample_def)
qed

text \<open>A negative lower limit, which the configuration accepts down to -20, is compared as a
  large unsigned number: no reading below 2^31 is then ever normal, and every such reading
  counts as too low.\<close>

theorem negative_limit_never_normal:
  assumes "INT_MIN \<le> threshold_min c" and "threshold_min c < 0" and "unat (temperature_1 d) < 2147483648"
  shows "\<not> temperature_normal c d \<and> temperature_low c d"
  using u32_of_negative [of "threshold_min c"] assms
  by (auto simp: temperature_normal_def temperature_low_def word_le_nat_alt word_less_nat_alt INT_MIN_def)

theorem negative_limit_never_normal_witness:
  "\<not> temperature_normal \<lparr>threshold_min = -10, threshold_max = 50, rate = 60\<rparr> sample"
  using negative_limit_never_normal [of "\<lparr>threshold_min = -10, threshold_max = 50, rate = 60\<rparr>" sample]
  by (simp add: INT_MIN_def sample_def)

subsection \<open>Supply\<close>

text \<open>(C17) Over any run of the interleaved tasks, what the sensor task queues is what its specification allows, in
  order: supply messages, returns to a normal temperature, and alerts, each of which is, by the defect of their printing, the
  text queued before it once more. The supply messages it formats strictly alternate, starting with "DC_CONNECTED", and the
  next one is the one the supply state asks for, although a repeated text can put one into the queue twice; a temperature is
  reported to be normal only after an alert, there are at most two alerts before that, and the first message is never one.\<close>

theorem sensor_messages_ordered:
  assumes "sensor_history api env xs (s, n, z)"
  shows "reach sys_init (sys_step api env) (s, n, z) \<and>
    (\<exists>ms r. printed_as None ms xs \<and> sensor_log Connected 0 ms = Some (expected_msg (dc_state s), r) \<and>
       r \<le> 2 \<and> (temperature_alert (datas s) \<longleftrightarrow> r \<noteq> 0))"
  using sensor_history_reach [OF assms] sensor_history_log [OF assms] by (auto simp: alerts_at_def)

text \<open>Two readings with a supply, then one that is too hot: the message of the supply is queued twice.\<close>

definition hot_env :: esp_env where
  "hot_env = quiet_env\<lparr>random32 := (\<lambda>k. if k < 10 then 2500000000 else 4200000000)\<rparr>"

definition cool_app :: app where
  "cool_app = app_start (default_config\<lparr>threshold_max := 40\<rparr>) sample"

theorem sensor_messages_ordered_witness:
  "\<exists>x s. sensor_history flash_api hot_env [x, x] (s, blank_flash, 0) \<and>
    (\<exists>ms r. printed_as None ms [x, x] \<and> sensor_log Connected 0 ms = Some (BatteryOnly, r) \<and> r \<noteq> 0)"
proof -
  let ?x = "state_format 5 DC_CONNECTED_MSG"
  have "map_option (\<lambda>(a, b, c). (Queue_state cool_app, Queue_state a, Queue_state b, Queue_state c, dc_state c, temperature_alert (datas c)))
      (do { a \<leftarrow> task_adc_read hot_env cool_app; b \<leftarrow> task_adc_read hot_env a; c \<leftarrow> task_adc_read hot_env b; Some (a, b, c) }) =
    Some ([], [], [?x], [?x, ?x], DC_CONNECTED, True)" by code_simp
  then obtain a b c where run: "task_adc_read hot_env cool_app = Some a" "task_adc_read hot_env a = Some b" "task_adc_read hot_env b = Some c"
    and q: "Queue_state cool_app = []" "Queue_state a = []" "Queue_state b = [?x]" "Queue_state c = [?x, ?x]"
      "dc_state c = DC_CONNECTED" "temperature_alert (datas c)"
    by (auto simp: Option.bind_eq_Some_conv)
  have "sensor_history flash_api hot_env [] (cool_app, blank_flash, 0)"
    by (rule sensor_history.start) (auto simp: sys_init_def cool_app_def)
  note sensor_history.reading [OF sensor_history.reading [OF sensor_history.reading [OF this run(1)] run(2)] run(3)]
  then have h: "sensor_history flash_api hot_env [?x, ?x] (c, blank_flash, 0)" by (simp add: q)
  from sensor_messages_ordered [OF h] h q(5,6) show ?thesis by (auto simp: expected_msg_def)
qed

text \<open>In every reachable state of the interleaved tasks all three queues hold at most 400
  entries, and the flag that lets the client task publish readings agrees with the supply
  machine: it is off while a supply is being confirmed and on while its loss is being confirmed.\<close>

theorem queues_bounded_and_supply_consistent:
  assumes "reach sys_init (sys_step api env) (s, n, z)"
  shows "length (Queue_data s) \<le> 400 \<and> length (Queue_config s) \<le> 400 \<and> length (Queue_state s) \<le> 400
    \<and> (dc_state s = DC_CONNECTING \<longrightarrow> \<not> energy s) \<and> (dc_state s = DC_DISCONNECTING \<longrightarrow> energy s)"
  using firmware.reach_inv [OF assms] by (simp add: app_inv_defs N_QUEUE_def)

theorem queues_bounded_and_supply_consistent_witness:
  "\<exists>s. reach sys_init (sys_step flash_api quiet_env) (s, blank_flash, 0) \<and> dc_state s = DC_CONNECTING
    \<and> length (Queue_state s) \<le> 400 \<and> \<not> energy s"
proof -
  have start: "reach sys_init (sys_step flash_api quiet_env) (start_app, blank_flash, 0)"
    by (rule reach.start) (auto simp: sys_init_def start_app_def)
  have "map_option dc_state (task_adc_read quiet_env start_app) = Some DC_CONNECTING" by code_simp
  then obtain s where s: "task_adc_read quiet_env start_app = Some s" "dc_state s = DC_CONNECTING" by auto
  have r: "reach sys_init (sys_step flash_api quiet_env) (s, blank_flash, 0)"
    by (rule reach.move [OF start sys_step.adc [OF s(1)]])
  from queues_bounded_and_supply_consistent [OF r] s(2) r show ?thesis by blast
qed

subsection \<open>The connector\<close>

text \<open>(C2) A round of the connector on a store and heap that do not fail queues exactly the
  readings between the number already sent and the number saved, oldest first, reports nothing,
  and records one more than the last number as sent.\<close>

theorem connector_round:
  assumes "nvs_reliable api I S" and "heap_never_refuses env"
    and "0 \<le> sent_count I n" and "sent_count I n < INT_MAX"
    and "0 \<le> saved_count I n" and "saved_count I n < INT_MAX"
    and "\<And>j. sent_count I n < j \<Longrightarrow> j \<le> saved_count I n \<Longrightarrow> S n (slot_key j) = Some (f j)"
    and "int (length (Queue_data s)) + (saved_count I n - sent_count I n) \<le> 400"
  shows "\<exists>z' s' n'. task_connector api env z s n = Some (z', s', n')
    \<and> Queue_data s' = Queue_data s @ map (\<lambda>j. Text (f j)) [sent_count I n + 1..saved_count I n]
    \<and> Queue_state s' = Queue_state s
    \<and> sent_count I n' = (if sent_count I n < saved_count I n then saved_count I n + 1 else sent_count I n)"
  using task_connector_sends [OF assms(1-6), where f = f and s = s and z = z] assms(7,8)
  by (fastforce simp: N_QUEUE_def sent_count_def split: if_splits)

definition one_saved :: flash where
  "one_saved = ([''saved_counter'' \<mapsto> 1], [''i_1'' \<mapsto> ''x''])"

lemma one_saved_counts: "saved_count fst one_saved = 1" "sent_count fst one_saved = 0"
  by (simp_all add: one_saved_def saved_count_def sent_count_def)

lemma one_saved_slot: "0 < j \<Longrightarrow> j \<le> 1 \<Longrightarrow> snd one_saved (slot_key j) = Some ''x''"
proof -
  assume "0 < j" "j \<le> 1"
  then have "j = 1" by simp
  moreover have "slot_key 1 = ''i_1''" by code_simp
  ultimately show ?thesis by (simp add: one_saved_def)
qed

theorem connector_round_witness:
  "\<exists>z' s' n'. task_connector flash_api quiet_env 0 start_app one_saved = Some (z', s', n')
    \<and> Queue_data s' = [Text ''x''] \<and> sent_count fst n' = 2"
proof -
  have heap: "heap_never_refuses quiet_env" by (simp add: heap_never_refuses_def quiet_env_def)
  have q: "Queue_data start_app = []" by (simp add: start_app_def app_start_def)
  have "[1..1::int] = [1]" by simp
  with connector_round [OF flash_reliable heap, of one_saved "\<lambda>_. ''x''" start_app 0] one_saved_slot q
  show ?thesis by (fastforce simp: one_saved_counts INT_MAX_def)
qed

text \<open>The connector loses readings: after a round that sent something, the counter claims one
  reading more than was sent, so when exactly one more reading is saved the next round queues
  nothing, and the store counts that reading as sent although it never was.\<close>

theorem connector_skips_a_reading:
  assumes "nvs_reliable api I S" and "heap_never_refuses env"
    and "0 \<le> sent_count I n" and "sent_count I n < saved_count I n" and "saved_count I n + 1 < INT_MAX"
    and "\<And>j. sent_count I n < j \<Longrightarrow> j \<le> saved_count I n \<Longrightarrow> S n (slot_key j) = Some (f j)"
    and "int (length (Queue_data s)) + (saved_count I n - sent_count I n) \<le> 400"
    and "task_connector api env z s n = Some (z1, s1, n1)"
    and "save_read_data api d n1 = Some (ESP_OK, n2)"
    and "task_connector api env z1 s1 n2 = Some (z3, s3, n3)"
  shows "Queue_data s3 = Queue_data s1 \<and> saved_count I n3 = saved_count I n + 1
    \<and> sent_count I n3 = saved_count I n3"
proof -
  let ?N = "saved_count I n"
  have str: "str_writes_succeed api"
    using healthy [OF assms(1)] by (simp add: str_writes_succeed_def nvs_healthy_def)
  have "0 \<le> ?N" using assms(3,4) by simp
  then have round1: "I n1 = (I n)(''sent_counter'' \<mapsto> ?N + 1)" "length (Queue_data s1) \<le> 400"
    using task_connector_sends [OF assms(1,2,3), where f = f and s = s and z = z] assms(4-8) by (auto simp: N_QUEUE_def)
  then have c1: "saved_count I n1 = ?N" by (simp add: saved_count_def)
  have I2: "I n2 = (I n1)(''saved_counter'' \<mapsto> ?N + 1)"
    using save_read_data_effect(1) [OF lawful [OF assms(1)] str assms(9)] c1 by simp
  then have c2: "saved_count I n2 = ?N + 1" "sent_count I n2 = ?N + 1"
    using round1 by (simp_all add: saved_count_def sent_count_def)
  have "\<exists>z' s' n'. task_connector api env z1 s1 n2 = Some (z', s', n')
    \<and> Queue_data s' = Queue_data s1 @ map (\<lambda>j. Text (f j)) [sent_count I n2 + 1..saved_count I n2]
    \<and> Queue_state s' = Queue_state s1 \<and> S n' = S n2
    \<and> I n' = (if sent_count I n2 < saved_count I n2
               then (I n2)(''sent_counter'' \<mapsto> saved_count I n2 + 1) else I n2)"
    using c2 assms(3-5) round1(2) by (intro task_connector_sends [OF assms(1,2)]) (auto simp: N_QUEUE_def)
  with assms(10) c2 have "Queue_data s3 = Queue_data s1" "I n3 = I n2" by auto
  with c2 show ?thesis by (simp add: saved_count_def sent_count_def)
qed

theorem connector_skips_a_reading_witness:
  "\<exists>z1 s1 n1 n2 z3 s3 n3. task_connector flash_api quiet_env 0 start_app one_saved = Some (z1, s1, n1)
    \<and> save_read_data flash_api sample n1 = Some (ESP_OK, n2)
    \<and> task_connector flash_api quiet_env z1 s1 n2 = Some (z3, s3, n3)
    \<and> Queue_data s3 = [Text ''x''] \<and> sent_count fst n3 = 2 \<and> saved_count fst n3 = 2"
proof -
  have heap: "heap_never_refuses quiet_env" by (simp add: heap_never_refuses_def quiet_env_def)
  have q: "Queue_data start_app = []" by (simp add: start_app_def app_start_def)
  have "[1..1::int] = [1]" by simp
  with task_connector_sends [OF flash_reliable heap, of one_saved "\<lambda>_. ''x''" start_app 0] one_saved_slot q
  obtain z1 s1 n1 where r1: "task_connector flash_api quiet_env 0 start_app one_saved = Some (z1, s1, n1)"
    "Queue_data s1 = [Text ''x'']" "fst n1 = (fst one_saved)(''sent_counter'' \<mapsto> 2)"
    by (fastforce simp: one_saved_counts INT_MAX_def N_QUEUE_def)
  from r1(3) have c1: "saved_count fst n1 = 1" by (simp add: saved_count_def one_saved_def)
  with save_sample_ok [of n1] obtain n2 where r2: "save_read_data flash_api sample n1 = Some (ESP_OK, n2)"
    by (auto simp: INT_MAX_def)
  have c2: "saved_count fst n2 = 2" "sent_count fst n2 = 2"
    using save_read_data_effect(1) [OF flash_lawful flash_str_writes r2] c1 r1(3)
    by (simp_all add: saved_count_def sent_count_def)
  with task_connector_sends [OF flash_reliable heap, of n2 "\<lambda>_. ''x''" s1 z1] r1(2)
  obtain z3 s3 n3 where r3: "task_connector flash_api quiet_env z1 s1 n2 = Some (z3, s3, n3)"
    by (fastforce simp: INT_MAX_def N_QUEUE_def)
  have "Queue_data s3 = Queue_data s1 \<and> saved_count fst n3 = saved_count fst one_saved + 1
    \<and> sent_count fst n3 = saved_count fst n3"
    by (rule connector_skips_a_reading [OF flash_reliable heap _ _ _ one_saved_slot _ r1(1) r2 r3])
      (simp_all add: one_saved_counts INT_MAX_def start_app_def app_start_def)
  with r1 r2 r3 one_saved_counts show ?thesis by (metis one_add_one)
qed

subsection \<open>Wireless events\<close>

fun last_link :: "bool \<Rightarrow> system_event list \<Rightarrow> bool" where
  "last_link b [] = b"
| "last_link b (e # es) = last_link (if e = SYSTEM_EVENT_STA_GOT_IP then True
     else if e = SYSTEM_EVENT_STA_DISCONNECTED then False else b) es"

lemma link_bit: "and w CONNECT_BIT \<noteq> 0 \<longleftrightarrow> bit w 0"
  by (simp add: CONNECT_BIT_def and_one_eq bit_0 odd_iff_mod_2_eq_one)

lemma handler_link: "and (wifi_event_group (esp32_wifi_eventHandler e w)) CONNECT_BIT \<noteq> 0 \<longleftrightarrow>
  last_link (and (wifi_event_group w) CONNECT_BIT \<noteq> 0) [e]"
  unfolding link_bit
  by (cases e) (auto simp: set_bits_def clear_bits_def esp_wifi_connect_def CONNECT_BIT_def
      GOT_DATA_BIT_def bit_0 even_or_iff even_and_iff)

text \<open>Over any sequence of interface events, the bit the client task waits for says exactly
  whether the last address or disconnection event was an address, and every start or
  disconnection has requested a connection.\<close>

theorem connect_bit_follows_events:
  "(and (wifi_event_group (fold esp32_wifi_eventHandler es w)) CONNECT_BIT \<noteq> 0 \<longleftrightarrow>
      last_link (and (wifi_event_group w) CONNECT_BIT \<noteq> 0) es)
   \<and> connect_requests (fold esp32_wifi_eventHandler es w) = connect_requests w
       + length (filter (\<lambda>e. e = SYSTEM_EVENT_STA_START \<or> e = SYSTEM_EVENT_STA_DISCONNECTED) es)"
proof (induction es arbitrary: w)
  case Nil
  then show ?case by simp
next
  case (Cons e es)
  have "connect_requests (esp32_wifi_eventHandler e w) = connect_requests w
      + length (filter (\<lambda>e. e = SYSTEM_EVENT_STA_START \<or> e = SYSTEM_EVENT_STA_DISCONNECTED) [e])"
    by (cases e) (auto simp: set_bits_def clear_bits_def esp_wifi_connect_def)
  with Cons [of "esp32_wifi_eventHandler e w"] handler_link [of e w] show ?case by auto
qed

end
