(* ===== verification/Timer.thy ===== *)
theory Timer
  imports Prelude
begin

text \<open>
  The countdown timers of the MQTT client (\<open>port/timer.c\<close>) over the 32-bit tick counter of
  FreeRTOS, which wraps around. The tick counter itself is an argument: every operation that
  calls \<open>xTaskGetTickCount\<close> takes the value it returned.
\<close>

record Timer =
  start_ticks :: u32
  timeout_ticks :: u32
  last_polled_ticks :: u32

text \<open>\<open>CONFIG_FREERTOS_HZ\<close> is 100: a tick is ten milliseconds.\<close>

definition portTICK_PERIOD_MS :: u32 where
  "portTICK_PERIOD_MS = 10"

definition init_timer :: Timer where
  "init_timer = \<lparr>start_ticks = 0, timeout_ticks = 0, last_polled_ticks = 0\<rparr>"

definition countdown_ms :: "u32 \<Rightarrow> u32 \<Rightarrow> Timer" where
  "countdown_ms now timeout =
     \<lparr>start_ticks = now, timeout_ticks = timeout div portTICK_PERIOD_MS, last_polled_ticks = 0\<rparr>"

text \<open>An out-of-range number of seconds is only logged; the product wraps.\<close>

definition countdown_sec :: "u32 \<Rightarrow> u32 \<Rightarrow> Timer" where
  "countdown_sec now timeout = countdown_ms now (timeout * 1000)"

definition expired :: "u32 \<Rightarrow> Timer \<Rightarrow> bool" where
  "expired now t \<longleftrightarrow> timeout_ticks t \<le> now - start_ticks t"

text \<open>The result, whether the caller was made to sleep for a tick, and the timer polled.\<close>

definition has_timer_expired :: "u32 \<Rightarrow> Timer \<Rightarrow> bool \<times> bool \<times> Timer" where
  "has_timer_expired now t =
     (expired now t, \<not> expired now t \<and> now = last_polled_ticks t, t\<lparr>last_polled_ticks := now\<rparr>)"

definition left_ms :: "u32 \<Rightarrow> Timer \<Rightarrow> u32" where
  "left_ms now t =
     (let elapsed = now - start_ticks t in
      if elapsed < timeout_ticks t then (timeout_ticks t - elapsed) * portTICK_PERIOD_MS else 0)"

subsection \<open>Contract\<close>

text \<open>
  What the client relies on: a timer armed at any tick, also close to the wrap-around, is
  expired \<open>d\<close> ticks later exactly when \<open>d\<close> reaches the time-out. A polling loop then sees it
  expire as soon as the clock has advanced that far.
\<close>

locale countdown =
  fixes arm :: "u32 \<Rightarrow> nat \<Rightarrow> 't"
    and is_expired :: "u32 \<Rightarrow> 't \<Rightarrow> bool"
  assumes expires: "d < 2 ^ 32 \<Longrightarrow> ticks < 2 ^ 32 \<Longrightarrow>
    is_expired (now + of_nat d) (arm now ticks) \<longleftrightarrow> ticks \<le> d"
begin

lemma stays_expired:
  "is_expired (now + of_nat d) (arm now ticks) \<Longrightarrow> d \<le> e \<Longrightarrow> e < 2 ^ 32 \<Longrightarrow> ticks < 2 ^ 32 \<Longrightarrow>
     is_expired (now + of_nat e) (arm now ticks)"
  using expires by (meson le_less_trans order_trans)

lemma polled_until_expired:
  assumes "ticks < 2 ^ 32" and "\<And>k :: nat. clock k = now + of_nat (elapsed k)"
    and "elapsed K < 2 ^ 32" and "ticks \<le> elapsed K"
  shows "\<exists>k \<le> K. is_expired (clock k) (arm now ticks)"
proof (intro exI conjI)
  show "is_expired (clock K) (arm now ticks)"
    unfolding assms(2) using expires [OF assms(3,1)] assms(4) by simp
qed simp

end

lemma unat_of_nat_u32: "d < 2 ^ 32 \<Longrightarrow> unat (of_nat d :: u32) = d"
  by (simp add: unat_of_nat take_bit_nat_eq_self)

interpretation wrapping: countdown
  "\<lambda>now ticks. \<lparr>start_ticks = now, timeout_ticks = of_nat ticks, last_polled_ticks = 0\<rparr>" expired
  by unfold_locales (simp add: expired_def word_le_nat_alt unat_of_nat_u32)

lemma unat_div_tick: "unat (timeout div portTICK_PERIOD_MS) = unat timeout div 10"
  by (simp add: portTICK_PERIOD_MS_def unat_div)

lemma expired_after:
  assumes "d < 2 ^ 32"
  shows "expired (now + of_nat d) (countdown_ms now timeout) \<longleftrightarrow> unat timeout div 10 \<le> d"
proof -
  have "unat timeout div 10 < 2 ^ 32"
  proof -
    have "unat timeout < 2 ^ LENGTH(32)" by (rule unsigned_less)
    then show ?thesis by simp
  qed
  moreover have "timeout div portTICK_PERIOD_MS = of_nat (unat timeout div 10)"
    by (simp flip: unat_div_tick)
  ultimately show ?thesis
    using wrapping.expires [OF assms] by (simp add: countdown_ms_def)
qed

subsection \<open>Properties\<close>

text \<open>(C38) Armed at any tick, the timer reports expiry exactly from \<open>timeout / 10\<close> ticks on, also
  across the wrap-around of the tick counter.\<close>

theorem timer_expires_across_wrap:
  assumes "d < 2 ^ 32"
  shows "fst (has_timer_expired (now + of_nat d) (countdown_ms now timeout)) \<longleftrightarrow> unat timeout div 10 \<le> d"
  using expired_after [OF assms] by (simp add: has_timer_expired_def)

theorem timer_expires_across_wrap_witness:
  "\<not> fst (has_timer_expired (4294967290 + of_nat 9) (countdown_ms 4294967290 100))
    \<and> fst (has_timer_expired (4294967290 + of_nat 10) (countdown_ms 4294967290 100))"
  using timer_expires_across_wrap [of 9 4294967290 100] timer_expires_across_wrap [of 10 4294967290 100]
  by simp

text \<open>The time left is zero exactly when the timer has expired and otherwise never more than
  the time-out, so it neither wraps nor keeps an expired caller waiting.\<close>

theorem left_ms_bounds:
  "(left_ms now (countdown_ms t0 timeout) = 0 \<longleftrightarrow> expired now (countdown_ms t0 timeout))
   \<and> left_ms now (countdown_ms t0 timeout) \<le> timeout"
proof -
  define T where "T = timeout div portTICK_PERIOD_MS"
  define E where "E = now - t0"
  have left: "left_ms now (countdown_ms t0 timeout) = (if E < T then (T - E) * 10 else 0)"
    by (simp add: left_ms_def countdown_ms_def T_def E_def portTICK_PERIOD_MS_def Let_def)
  have exp: "expired now (countdown_ms t0 timeout) \<longleftrightarrow> T \<le> E"
    by (simp add: expired_def countdown_ms_def T_def E_def)
  show ?thesis
  proof (cases "E < T")
    case False
    then show ?thesis by (auto simp: left exp not_less)
  next
    case True
    have T: "unat T = unat timeout div 10" by (simp add: T_def unat_div_tick)
    have less: "unat timeout < 2 ^ LENGTH(32)" by (rule unsigned_less)
    from True have d: "unat (T - E) = unat T - unat E" by (simp add: unat_sub_if' word_less_nat_alt)
    with T less have "unat ((T - E) * 10) = (unat T - unat E) * 10"
      by (subst unat_mult_lem [THEN iffD1]) auto
    moreover have "0 < unat T - unat E" and "(unat T - unat E) * 10 \<le> unat timeout"
      using True T by (auto simp: word_less_nat_alt)
    ultimately show ?thesis
      using True by (auto simp: left exp word_le_nat_alt unat_eq_0 [symmetric] not_le word_less_nat_alt
          simp del: unat_eq_0)
  qed
qed

end
