(* ===== verification/MqttTypes.thy ===== *)
theory MqttTypes
  imports Timer
begin

text \<open>
  The data types of the MQTT client (\<open>aws_iot_error.h\<close>, \<open>aws_iot_mqtt_client.h\<close> and
  \<open>aws_iot_mqtt_client_common_internal.h\<close>). A pointer to bytes is the list of the bytes that
  can be read from it, and \<^term>\<open>None\<close> is the null pointer. A C string carries its terminator.
\<close>

datatype (plugins only: code size) IoT_Error_t =
     NETWORK_PHYSICAL_LAYER_CONNECTED | NETWORK_MANUALLY_DISCONNECTED
    | NETWORK_ATTEMPTING_RECONNECT | NETWORK_RECONNECTED | MQTT_NOTHING_TO_READ
    | MQTT_CONNACK_CONNECTION_ACCEPTED | SUCCESS | FAILURE | NULL_VALUE_ERROR
    | TCP_CONNECTION_ERROR | SSL_CONNECTION_ERROR | TCP_SETUP_ERROR
    | NETWORK_SSL_CONNECT_TIMEOUT_ERROR | NETWORK_SSL_WRITE_ERROR | NETWORK_SSL_INIT_ERROR
    | NETWORK_SSL_CERT_ERROR | NETWORK_SSL_WRITE_TIMEOUT_ERROR | NETWORK_SSL_READ_TIMEOUT_ERROR
    | NETWORK_SSL_READ_ERROR | NETWORK_DISCONNECTED_ERROR | NETWORK_RECONNECT_TIMED_OUT_ERROR
    | NETWORK_ALREADY_CONNECTED_ERROR | NETWORK_MBEDTLS_ERR_CTR_DRBG_ENTROPY_SOURCE_FAILED
    | NETWORK_SSL_UNKNOWN_ERROR | NETWORK_PHYSICAL_LAYER_DISCONNECTED
    | NETWORK_X509_ROOT_CRT_PARSE_ERROR | NETWORK_X509_DEVICE_CRT_PARSE_ERROR
    | NETWORK_PK_PRIVATE_KEY_PARSE_ERROR | NETWORK_ERR_NET_SOCKET_FAILED
    | NETWORK_ERR_NET_UNKNOWN_HOST | NETWORK_ERR_NET_CONNECT_FAILED | NETWORK_SSL_NOTHING_TO_READ
    | MQTT_CONNECTION_ERROR | MQTT_CONNECT_TIMEOUT_ERROR | MQTT_REQUEST_TIMEOUT_ERROR
    | MQTT_UNEXPECTED_CLIENT_STATE_ERROR | MQTT_CLIENT_NOT_IDLE_ERROR
    | MQTT_RX_MESSAGE_PACKET_TYPE_INVALID_ERROR | MQTT_RX_BUFFER_TOO_SHORT_ERROR
    | MQTT_TX_BUFFER_TOO_SHORT_ERROR | MQTT_MAX_SUBSCRIPTIONS_REACHED_ERROR
    | MQTT_DECODE_REMAINING_LENGTH_ERROR | MQTT_CONNACK_UNKNOWN_ERROR
    | MQTT_CONNACK_UNACCEPTABLE_PROTOCOL_VERSION_ERROR | MQTT_CONNACK_IDENTIFIER_REJECTED_ERROR
    | MQTT_CONNACK_SERVER_UNAVAILABLE_ERROR | MQTT_CONNACK_BAD_USERDATA_ERROR
    | MQTT_CONNACK_NOT_AUTHORIZED_ERROR | JSON_PARSE_ERROR | SHADOW_WAIT_FOR_PUBLISH
    | SHADOW_JSON_BUFFER_TRUNCATED | SHADOW_JSON_ERROR | MUTEX_INIT_ERROR | MUTEX_LOCK_ERROR
    | MUTEX_UNLOCK_ERROR | MUTEX_DESTROY_ERROR | MAX_SIZE_ERROR | LIMIT_EXCEEDED_ERROR
    | INVALID_TOPIC_TYPE_ERROR

datatype MessageTypes =
    UNKNOWN | CONNECT | CONNACK | PUBLISH | PUBACK | PUBREC | PUBREL | PUBCOMP | SUBSCRIBE
  | SUBACK | UNSUBSCRIBE | UNSUBACK | PINGREQ | PINGRESP | DISCONNECT

text \<open>The enumerators as the \<open>uint8_t\<close> the receive path compares them with.\<close>

fun msg_code :: "MessageTypes \<Rightarrow> u8" where
  "msg_code UNKNOWN = 255"
| "msg_code CONNECT = 1"
| "msg_code CONNACK = 2"
| "msg_code PUBLISH = 3"
| "msg_code PUBACK = 4"
| "msg_code PUBREC = 5"
| "msg_code PUBREL = 6"
| "msg_code PUBCOMP = 7"
| "msg_code SUBSCRIBE = 8"
| "msg_code SUBACK = 9"
| "msg_code UNSUBSCRIBE = 10"
| "msg_code UNSUBACK = 11"
| "msg_code PINGREQ = 12"
| "msg_code PINGRESP = 13"
| "msg_code DISCONNECT = 14"

text \<open>\<open>QoS\<close> is cast from bytes of the wire, so it holds values that are no enumerator.\<close>

type_synonym QoS = u32

abbreviation QOS0 :: QoS where "QOS0 \<equiv> 0"
abbreviation QOS1 :: QoS where "QOS1 \<equiv> 1"

type_synonym pointer = "u8 list option"

record IoT_Publish_Message_Params =
  msg_qos :: QoS
  msg_isRetained :: u8
  msg_isDup :: u8
  msg_id :: u16
  msg_payload :: pointer
  msg_payloadLen :: u32

record IoT_MQTT_Will_Options =
  will_topic :: pointer
  will_topicLen :: u16
  will_message :: pointer
  will_msgLen :: u16
  will_isRetained :: bool
  will_qos :: QoS

record IoT_Client_Connect_Params =
  MQTTVersion :: u8
  pClientID :: pointer
  clientIDLen :: u16
  keepAliveIntervalInSec :: u16
  isCleanSession :: bool
  isWillMsgPresent :: bool
  will :: IoT_MQTT_Will_Options
  pUsername :: pointer
  usernameLen :: u16
  pPassword :: pointer
  passwordLen :: u16

subsection \<open>Reading memory\<close>

text \<open>\<open>n\<close> bytes from a pointer: undefined beyond the object, and on the null pointer unless
  nothing is read.\<close>

definition mem_read :: "pointer \<Rightarrow> nat \<Rightarrow> u8 list option" where
  "mem_read p n =
     (if n = 0 then Some []
      else case p of None \<Rightarrow> None
        | Some obj \<Rightarrow> if n \<le> length obj then Some (take n obj) else None)"

definition byte_at :: "u8 list \<Rightarrow> nat \<Rightarrow> u8 option" where
  "byte_at xs i = (if i < length xs then Some (xs ! i) else None)"

definition cstr :: "u8 list \<Rightarrow> u8 list" where
  "cstr xs = xs @ [0]"

definition bytes_of :: "string \<Rightarrow> u8 list" where
  "bytes_of s = map of_char s"

lemma mem_read_length: "mem_read p n = Some bs \<Longrightarrow> length bs = n"
  by (auto simp: mem_read_def split: if_splits option.splits)

lemma mem_read_prefix [simp]: "mem_read (Some (xs @ ys)) (length xs) = Some xs"
  by (simp add: mem_read_def)

lemma byte_at_Cons_0 [simp]: "byte_at (x # xs) 0 = Some x"
  by (simp add: byte_at_def)

lemma byte_at_append [simp]: "byte_at (xs @ ys) (length xs + k) = byte_at ys k"
  by (simp add: byte_at_def nth_append)

lemma byte_at_Some: "byte_at xs i = Some b \<Longrightarrow> i < length xs \<and> b = xs ! i"
  by (auto simp: byte_at_def split: if_splits)

end
