(* ===== verification/MqttCodec.thy ===== *)
theory MqttCodec
  imports MqttTypes
begin

text \<open>
  The packet formats of the MQTT client: the byte-level routines of
  \<open>aws_iot_mqtt_client_common_internal.c\<close> and the serializers and deserializers of the
  publish, subscribe, unsubscribe and connect files. Names drop the prefixes
  \<open>aws_iot_mqtt_internal_\<close> and \<open>_aws_iot_mqtt_internal_\<close> of the C functions.

  A serializer returns the bytes it writes to the front of the transmit buffer, whose real size
  is the \<open>txBufLen\<close> it is given; writing further is undefined. A deserializer works on the
  bytes of the receive buffer; reading behind them is undefined. The out-parameters of the C
  functions, never null at their calls, are the components of the result.
\<close>

unbundle bit_operations_syntax

subsection \<open>Lengths and integers\<close>

function write_len_to_buffer :: "u32 \<Rightarrow> u8 list" where
  "write_len_to_buffer n =
     (let encodedByte = ucast (n mod 128) :: u8; rest = n div 128 in
      if 0 < rest then (encodedByte OR 0x80) # write_len_to_buffer rest else [encodedByte])"
  by auto

termination
proof (relation "measure unat")
  fix n :: u32 and b :: u8 and r
  assume r: "r = n div 128" "0 < r"
  have "unat n div 128 \<noteq> 0" using r by (simp add: word_less_nat_alt unat_div)
  then have "unat n div 128 < unat n" by (intro div_less_dividend) (auto intro: Nat.gr0I)
  then show "(r, n) \<in> measure unat" by (simp add: r unat_div)
qed simp

declare write_len_to_buffer.simps [simp del]

fun decode_length_loop :: "nat \<Rightarrow> u32 \<Rightarrow> u32 \<Rightarrow> u8 list \<Rightarrow> (IoT_Error_t + u32 \<times> u32) option" where
  "decode_length_loop len multiplier decodedLen buf =
     (if 4 \<le> len then Some (Inl MQTT_DECODE_REMAINING_LENGTH_ERROR)
      else case buf of
        [] \<Rightarrow> None
      | encodedByte # buf' \<Rightarrow>
          let decodedLen' = decodedLen + ucast (encodedByte AND 127) * multiplier in
          if encodedByte AND 128 \<noteq> 0
          then decode_length_loop (len + 1) (multiplier * 128) decodedLen' buf'
          else Some (Inr (decodedLen', of_nat (len + 1))))"

declare decode_length_loop.simps [simp del]

text \<open>The decoded length and the number of bytes it took.\<close>

definition decode_remaining_length_from_buffer :: "u8 list \<Rightarrow> (IoT_Error_t + u32 \<times> u32) option" where
  "decode_remaining_length_from_buffer buf = decode_length_loop 0 1 0 buf"

definition get_final_packet_length :: "u32 \<Rightarrow> u32" where
  "get_final_packet_length remaining =
     (let rem_len = remaining + 1 in
      if rem_len < 128 then rem_len + 1
      else if rem_len < 16384 then rem_len + 2
      else if rem_len < 2097152 then rem_len + 3
      else rem_len + 4)"

definition write_uint_16 :: "u16 \<Rightarrow> u8 list" where
  "write_uint_16 anInt = [ucast (anInt div 256), ucast (anInt mod 256)]"

definition read_uint16_t :: "u8 list \<Rightarrow> nat \<Rightarrow> u16 option" where
  "read_uint16_t buf pos = do {
     firstByte \<leftarrow> byte_at buf pos;
     secondByte \<leftarrow> byte_at buf (pos + 1);
     Some (ucast secondByte + 256 * ucast firstByte)
   }"

definition write_utf8_string :: "pointer \<Rightarrow> u16 \<Rightarrow> u8 list option" where
  "write_utf8_string str stringLen = do {
     body \<leftarrow> mem_read str (unat stringLen);
     Some (write_uint_16 stringLen @ body)
   }"

subsection \<open>The fixed header\<close>

definition init_header :: "MessageTypes \<Rightarrow> QoS \<Rightarrow> u8 \<Rightarrow> u8 \<Rightarrow> IoT_Error_t + u8" where
  "init_header message_type qos dup retained =
     (if message_type = UNKNOWN then Inl FAILURE
      else Inr (push_bit 4 (msg_code message_type) OR push_bit 3 dup
                OR (if qos = QOS1 then 2 else 0) OR (if retained = 1 then 1 else 0)))"

definition header_type :: "u8 \<Rightarrow> u8" where
  "header_type b = drop_bit 4 b AND 15"

definition header_dup :: "u8 \<Rightarrow> u8" where
  "header_dup b = drop_bit 3 (b AND 8)"

definition header_qos :: "u8 \<Rightarrow> u8" where
  "header_qos b = drop_bit 1 (b AND 6)"

definition header_retain :: "u8 \<Rightarrow> u8" where
  "header_retain b = b AND 1"

subsection \<open>Serializers\<close>

definition emit :: "u32 \<Rightarrow> u8 list \<Rightarrow> (IoT_Error_t + u8 list) option" where
  "emit txBufLen bs = (if length bs \<le> unat txBufLen then Some (Inr bs) else None)"

definition serialize_zero :: "u32 \<Rightarrow> MessageTypes \<Rightarrow> (IoT_Error_t + u8 list) option" where
  "serialize_zero txBufLen packetType =
     (if txBufLen < 4 then Some (Inl MQTT_TX_BUFFER_TOO_SHORT_ERROR)
      else case init_header packetType QOS0 0 0 of
        Inl rc \<Rightarrow> Some (Inl rc)
      | Inr header \<Rightarrow> emit txBufLen (header # write_len_to_buffer 0))"

definition serialize_ack :: "u32 \<Rightarrow> MessageTypes \<Rightarrow> u8 \<Rightarrow> u16 \<Rightarrow> (IoT_Error_t + u8 list) option" where
  "serialize_ack txBufLen msgType dup packetId =
     (if txBufLen < 4 then Some (Inl MQTT_TX_BUFFER_TOO_SHORT_ERROR)
      else case init_header msgType (if msgType = PUBREL then QOS1 else QOS0) dup 0 of
        Inl rc \<Rightarrow> Some (Inl rc)
      | Inr header \<Rightarrow> emit txBufLen (header # write_len_to_buffer 2 @ write_uint_16 packetId))"

definition publish_remaining :: "QoS \<Rightarrow> u16 \<Rightarrow> u32 \<Rightarrow> u32" where
  "publish_remaining qos topicNameLen payloadLen =
     (ucast topicNameLen + payloadLen + 2) + (if 0 < qos then 2 else 0)"

definition serialize_publish ::
  "u32 \<Rightarrow> u8 \<Rightarrow> QoS \<Rightarrow> u8 \<Rightarrow> u16 \<Rightarrow> pointer \<Rightarrow> u16 \<Rightarrow> pointer \<Rightarrow> u32 \<Rightarrow> (IoT_Error_t + u8 list) option"
where
  "serialize_publish txBufLen dup qos retained packetId pTopicName topicNameLen pPayload payloadLen =
     (if pPayload = None then Some (Inl NULL_VALUE_ERROR)
      else let rem_len = publish_remaining qos topicNameLen payloadLen in
        if txBufLen < get_final_packet_length rem_len then Some (Inl MQTT_TX_BUFFER_TOO_SHORT_ERROR)
        else case init_header PUBLISH qos dup retained of
          Inl rc \<Rightarrow> Some (Inl rc)
        | Inr header \<Rightarrow> do {
            topic \<leftarrow> write_utf8_string pTopicName topicNameLen;
            body \<leftarrow> mem_read pPayload (unat payloadLen);
            emit txBufLen (header # write_len_to_buffer rem_len @ topic
                           @ (if 0 < qos then write_uint_16 packetId else []) @ body)
          })"

text \<open>Topic filters with their lengths and, for a subscription, the requested QoS.\<close>

fun subscribe_remaining :: "(pointer \<times> u16 \<times> QoS) list \<Rightarrow> u32" where
  "subscribe_remaining [] = 0"
| "subscribe_remaining ((_, n, _) # topics) = (ucast n + 2 + 1) + subscribe_remaining topics"

fun write_subscriptions :: "(pointer \<times> u16 \<times> QoS) list \<Rightarrow> u8 list option" where
  "write_subscriptions [] = Some []"
| "write_subscriptions ((name, n, q) # topics) = do {
     topic \<leftarrow> write_utf8_string name n;
     rest \<leftarrow> write_subscriptions topics;
     Some (topic @ [ucast q] @ rest)
   }"

definition serialize_subscribe ::
  "u32 \<Rightarrow> u8 \<Rightarrow> u16 \<Rightarrow> (pointer \<times> u16 \<times> QoS) list \<Rightarrow> (IoT_Error_t + u8 list) option"
where
  "serialize_subscribe txBufLen dup packetId topics =
     (let rem_len = 2 + subscribe_remaining topics in
      if txBufLen < get_final_packet_length rem_len then Some (Inl MQTT_TX_BUFFER_TOO_SHORT_ERROR)
      else case init_header SUBSCRIBE QOS1 dup 0 of
        Inl rc \<Rightarrow> Some (Inl rc)
      | Inr header \<Rightarrow> do {
          filters \<leftarrow> write_subscriptions topics;
          emit txBufLen (header # write_len_to_buffer rem_len @ write_uint_16 packetId @ filters)
        })"

fun unsubscribe_remaining :: "(pointer \<times> u16) list \<Rightarrow> u32" where
  "unsubscribe_remaining [] = 0"
| "unsubscribe_remaining ((_, n) # topics) = (ucast n + 2) + unsubscribe_remaining topics"

fun write_filters :: "(pointer \<times> u16) list \<Rightarrow> u8 list option" where
  "write_filters [] = Some []"
| "write_filters ((name, n) # topics) = do {
     topic \<leftarrow> write_utf8_string name n;
     rest \<leftarrow> write_filters topics;
     Some (topic @ rest)
   }"

definition serialize_unsubscribe ::
  "u32 \<Rightarrow> u8 \<Rightarrow> u16 \<Rightarrow> (pointer \<times> u16) list \<Rightarrow> (IoT_Error_t + u8 list) option"
where
  "serialize_unsubscribe txBufLen dup packetId topics =
     (let rem_len = 2 + unsubscribe_remaining topics in
      if txBufLen < get_final_packet_length rem_len then Some (Inl MQTT_TX_BUFFER_TOO_SHORT_ERROR)
      else case init_header UNSUBSCRIBE QOS1 dup 0 of
        Inl rc \<Rightarrow> Some (Inl rc)
      | Inr header \<Rightarrow> do {
          filters \<leftarrow> write_filters topics;
          emit txBufLen (header # write_len_to_buffer rem_len @ write_uint_16 packetId @ filters)
        })"

text \<open>The CONNECT packet.\<close>

definition get_connect_packet_length :: "IoT_Client_Connect_Params \<Rightarrow> u32" where
  "get_connect_packet_length p =
     10 + ucast (clientIDLen p) + 2
     + (if isWillMsgPresent p
        then ucast (will_topicLen (will p)) + 2 + ucast (will_msgLen (will p)) + 2 else 0)
     + (if pUsername p \<noteq> None then ucast (usernameLen p) + 2 else 0)
     + (if pPassword p \<noteq> None then ucast (passwordLen p) + 2 else 0)"

definition connect_flags :: "IoT_Client_Connect_Params \<Rightarrow> u8" where
  "connect_flags p =
     (if isCleanSession p then 2 else 0)
     OR (if isWillMsgPresent p
         then 4 OR ucast (push_bit 3 (will_qos (will p))) OR (if will_isRetained (will p) then 32 else 0)
         else 0)
     OR (if pPassword p \<noteq> None then 64 else 0)
     OR (if pUsername p \<noteq> None then 128 else 0)"

definition MQTT_3_1_1 :: u8 where
  "MQTT_3_1_1 = 4"

definition serialize_connect :: "u32 \<Rightarrow> IoT_Client_Connect_Params \<Rightarrow> (IoT_Error_t + u8 list) option" where
  "serialize_connect txBufLen p =
     (if pClientID p = None \<longleftrightarrow> clientIDLen p \<noteq> 0 then Some (Inl NULL_VALUE_ERROR)
      else if MQTTVersion p \<noteq> MQTT_3_1_1 then Some (Inl MQTT_CONNACK_UNACCEPTABLE_PROTOCOL_VERSION_ERROR)
      else let len = get_connect_packet_length p in
        if txBufLen < get_final_packet_length len then Some (Inl MQTT_TX_BUFFER_TOO_SHORT_ERROR)
        else case init_header CONNECT QOS0 0 0 of
          Inl rc \<Rightarrow> Some (Inl rc)
        | Inr header \<Rightarrow> do {
            protocol \<leftarrow> write_utf8_string (Some (bytes_of ''MQTT'')) 4;
            client_id \<leftarrow> (if pClientID p = None then Some (write_uint_16 0)
                          else write_utf8_string (pClientID p) (clientIDLen p));
            will_part \<leftarrow> (if isWillMsgPresent p then do {
                 t \<leftarrow> write_utf8_string (will_topic (will p)) (will_topicLen (will p));
                 m \<leftarrow> write_utf8_string (will_message (will p)) (will_msgLen (will p));
                 Some (t @ m) }
               else Some []);
            user \<leftarrow> (if pUsername p \<noteq> None then write_utf8_string (pUsername p) (usernameLen p) else Some []);
            pass \<leftarrow> (if pPassword p \<noteq> None then write_utf8_string (pPassword p) (passwordLen p) else Some []);
            emit txBufLen (header # write_len_to_buffer len @ protocol
              @ [MQTTVersion p, connect_flags p] @ write_uint_16 (keepAliveIntervalInSec p)
              @ client_id @ will_part @ user @ pass)
          })"

subsection \<open>Deserializers\<close>

text \<open>The string is its position in the receive buffer and its length.\<close>

definition read_string_with_len :: "u8 list \<Rightarrow> nat \<Rightarrow> nat \<Rightarrow> (IoT_Error_t + nat \<times> u16) option" where
  "read_string_with_len buf pos endData =
     (if pos + 1 < endData then do {
        stringLen \<leftarrow> read_uint16_t buf pos;
        if pos + 2 + unat stringLen \<le> endData then Some (Inr (pos + 2, stringLen))
        else Some (Inl FAILURE)
      }
      else Some (Inl FAILURE))"

text \<open>An incoming publish: \<open>in_id\<close> is \<^term>\<open>None\<close> where \<open>*pPacketId\<close> is left alone.\<close>

record publish_view =
  in_dup :: u8
  in_qos :: QoS
  in_retained :: u8
  in_id :: "u16 option"
  in_topic :: nat
  in_topicLen :: u16
  in_payload :: nat
  in_payloadLen :: u32

definition deserialize_publish :: "u8 list \<Rightarrow> u32 \<Rightarrow> (IoT_Error_t + publish_view) option" where
  "deserialize_publish pRxBuf rxBufLen =
     (if rxBufLen < 4 then Some (Inl MQTT_RX_BUFFER_TOO_SHORT_ERROR)
      else do {
        header \<leftarrow> byte_at pRxBuf 0;
        if header_type header \<noteq> msg_code PUBLISH then Some (Inl FAILURE)
        else do {
          decoded \<leftarrow> decode_remaining_length_from_buffer (drop 1 pRxBuf);
          case decoded of
            Inl rc \<Rightarrow> Some (Inl rc)
          | Inr (decodedLen, readBytesLen) \<Rightarrow>
              let curData = 1 + unat readBytesLen; endData = curData + unat decodedLen in do {
                topic \<leftarrow> read_string_with_len pRxBuf curData endData;
                case topic of
                  Inl rc \<Rightarrow> Some (Inl FAILURE)
                | Inr (name, nameLen) \<Rightarrow>
                    let afterTopic = name + unat nameLen; qos = ucast (header_qos header) :: QoS in do {
                      idPart \<leftarrow> (if qos \<noteq> QOS0 then do {
                                   i \<leftarrow> read_uint16_t pRxBuf afterTopic;
                                   Some (Some i, afterTopic + 2) }
                                 else Some (None, afterTopic));
                      let (packetId, payload) = idPart in
                        Some (Inr \<lparr>in_dup = header_dup header, in_qos = qos,
                          in_retained = header_retain header, in_id = packetId,
                          in_topic = name, in_topicLen = nameLen, in_payload = payload,
                          in_payloadLen = of_int (int endData - int payload)\<rparr>)
                    }
              }
        }
      })"

text \<open>The packet type, the dup flag and the packet identifier.\<close>

definition deserialize_ack :: "u8 list \<Rightarrow> u32 \<Rightarrow> (IoT_Error_t + u8 \<times> u8 \<times> u16) option" where
  "deserialize_ack pRxBuf rxBufLen =
     (if rxBufLen < 4 then Some (Inl MQTT_RX_BUFFER_TOO_SHORT_ERROR)
      else do {
        header \<leftarrow> byte_at pRxBuf 0;
        decoded \<leftarrow> decode_remaining_length_from_buffer (drop 1 pRxBuf);
        case decoded of
          Inl rc \<Rightarrow> Some (Inl rc)
        | Inr (decodedLen, readBytesLen) \<Rightarrow>
            if decodedLen < 2 then Some (Inl FAILURE)
            else do {
              packetId \<leftarrow> read_uint16_t pRxBuf (1 + unat readBytesLen);
              Some (Inr (header_type header, header_dup header, packetId))
            }
      })"

definition deserialize_unsuback :: "u8 list \<Rightarrow> u32 \<Rightarrow> (IoT_Error_t + u16) option" where
  "deserialize_unsuback pRxBuf rxBufLen = do {
     r \<leftarrow> deserialize_ack pRxBuf rxBufLen;
     case r of
       Inl rc \<Rightarrow> Some (Inl rc)
     | Inr (type, dup, packetId) \<Rightarrow>
         if type \<noteq> msg_code UNSUBACK then Some (Inl FAILURE) else Some (Inr packetId)
   }"

text \<open>The granted qualities of service go to an array of \<open>slots\<close> elements.\<close>

function suback_loop :: "nat \<Rightarrow> nat \<Rightarrow> u8 list \<Rightarrow> nat \<Rightarrow> nat \<Rightarrow> QoS list \<Rightarrow> (IoT_Error_t + QoS list) option"
where
  "suback_loop maxExpectedQoSCount slots buf curData endData granted =
     (if curData < endData then
        if maxExpectedQoSCount < length granted then Some (Inl FAILURE)
        else do {
          q \<leftarrow> byte_at buf curData;
          if length granted < slots
          then suback_loop maxExpectedQoSCount slots buf (curData + 1) endData (granted @ [ucast q])
          else None
        }
      else Some (Inr granted))"
  by auto
termination by (relation "measure (\<lambda>(_, _, _, curData, endData, _). endData - curData)") auto

declare suback_loop.simps [simp del]

definition deserialize_suback :: "nat \<Rightarrow> nat \<Rightarrow> u8 list \<Rightarrow> u32 \<Rightarrow> (IoT_Error_t + u16 \<times> QoS list) option" where
  "deserialize_suback maxExpectedQoSCount slots pRxBuf rxBufLen =
     (if rxBufLen < 5 then Some (Inl MQTT_RX_BUFFER_TOO_SHORT_ERROR)
      else do {
        header \<leftarrow> byte_at pRxBuf 0;
        if header_type header \<noteq> msg_code SUBACK then Some (Inl FAILURE)
        else do {
          decoded \<leftarrow> decode_remaining_length_from_buffer (drop 1 pRxBuf);
          case decoded of
            Inl rc \<Rightarrow> Some (Inl rc)
          | Inr (decodedLen, readBytesLen) \<Rightarrow>
              let curData = 1 + unat readBytesLen; endData = curData + unat decodedLen in
              if decodedLen < 2 then Some (Inl FAILURE)
              else do {
                packetId \<leftarrow> read_uint16_t pRxBuf curData;
                r \<leftarrow> suback_loop maxExpectedQoSCount slots pRxBuf (curData + 2) endData [];
                case r of
                  Inl rc \<Rightarrow> Some (Inl rc)
                | Inr granted \<Rightarrow> Some (Inr (packetId, granted))
              }
        }
      })"

text \<open>The bit field of \<open>MQTT_Connack_Header_Flags\<close>, least significant bit first: seven unused
  bits, then the session-present flag.\<close>

definition connack_session_present :: "u8 \<Rightarrow> u8" where
  "connack_session_present flags = drop_bit 7 flags"

definition connack_result :: "u8 \<Rightarrow> IoT_Error_t" where
  "connack_result c =
     (if c = 0 then MQTT_CONNACK_CONNECTION_ACCEPTED
      else if c = 1 then MQTT_CONNACK_UNACCEPTABLE_PROTOCOL_VERSION_ERROR
      else if c = 2 then MQTT_CONNACK_IDENTIFIER_REJECTED_ERROR
      else if c = 3 then MQTT_CONNACK_SERVER_UNAVAILABLE_ERROR
      else if c = 4 then MQTT_CONNACK_BAD_USERDATA_ERROR
      else if c = 5 then MQTT_CONNACK_NOT_AUTHORIZED_ERROR
      else MQTT_CONNACK_UNKNOWN_ERROR)"

definition deserialize_connack :: "u8 list \<Rightarrow> u32 \<Rightarrow> (IoT_Error_t + u8 \<times> IoT_Error_t) option" where
  "deserialize_connack pRxBuf rxBufLen =
     (if rxBufLen < 4 then Some (Inl MQTT_RX_BUFFER_TOO_SHORT_ERROR)
      else do {
        header \<leftarrow> byte_at pRxBuf 0;
        if header_type header \<noteq> msg_code CONNACK then Some (Inl FAILURE)
        else do {
          decoded \<leftarrow> decode_remaining_length_from_buffer (drop 1 pRxBuf);
          case decoded of
            Inl rc \<Rightarrow> Some (Inl rc)
          | Inr (decodedLen, readBytesLen) \<Rightarrow>
              let curData = 1 + unat readBytesLen in
              if decodedLen \<noteq> 2 then Some (Inl MQTT_DECODE_REMAINING_LENGTH_ERROR)
              else do {
                flags \<leftarrow> byte_at pRxBuf curData;
                code \<leftarrow> byte_at pRxBuf (curData + 1);
                Some (Inr (connack_session_present flags, connack_result code))
              }
        }
      })"

end
