(* ===== verification/MqttCodecLemmas.thy ===== *)
theory MqttCodecLemmas
  imports MqttCodec
begin

text \<open>
  What the packet routines of \<^theory_text>\<open>MqttCodec\<close> compute: the encoding of lengths and
  integers and its inverse, the packet length estimate, the fields of the header byte, and the
  shape of a framed packet. The properties of the formats follow at the end.
\<close>

subsection \<open>Bytes\<close>

lemmas byte_bits = bit_unsigned_iff bit_and_iff bit_or_iff bit_take_bit_iff 

lemma u8_less: "unat (b :: u8) < 256"
  using unsigned_less [of b] by simp

lemma u16_less: "unat (b :: u16) < 65536"
  using unsigned_less [of b] by simp

lemma u32_less: "unat (b :: u32) < 4294967296"
  using unsigned_less [of b] by simp

lemma unat_ucast_u8: "unat (ucast (b :: u8) :: u32) = unat b"
  using u8_less [of b] by (simp add: unsigned_ucast_eq take_bit_nat_eq_self)

lemma ucast_u8_zero: "(ucast (b :: u8) :: u32) = 0 \<longleftrightarrow> b = 0"
  using unat_ucast_u8 [of b] by (auto simp flip: unat_eq_0)

lemma mod_128: "(n :: u32) mod 128 = take_bit 7 n"
  by (simp add: take_bit_eq_mod)

lemma bit_127 [simp]: "bit (127 :: 'a :: len word) k \<longleftrightarrow> k < 7 \<and> k < LENGTH('a)"
proof -
  have "bit (mask 7 :: 'a word) k \<longleftrightarrow> k < 7 \<and> k < LENGTH('a)" by (auto simp: bit_simps)
  then show ?thesis by (simp add: mask_eq_exp_minus_1)
qed

lemma bit_128 [simp]: "bit (128 :: 'a :: len word) k \<longleftrightarrow> k = 7 \<and> k < LENGTH('a)"
proof -
  have "bit (2 ^ 7 :: 'a word) k \<longleftrightarrow> k = 7 \<and> k < LENGTH('a)"
    unfolding bit_exp_iff by auto
  then show ?thesis by simp
qed

lemma int_bit_127 [simp]: "bit (127 :: int) k \<longleftrightarrow> k < 7"
proof -
  have "bit (mask 7 :: int) k \<longleftrightarrow> k < 7" by (auto simp: bit_simps)
  then show ?thesis by (simp add: mask_eq_exp_minus_1)
qed

lemma int_bit_128 [simp]: "bit (128 :: int) k \<longleftrightarrow> k = 7"
proof -
  have "bit (2 ^ 7 :: int) k \<longleftrightarrow> k = 7" unfolding bit_exp_iff by auto
  then show ?thesis by simp
qed

lemma below_128: "n < 128 \<Longrightarrow> take_bit 7 n = (n :: u32)"
  by (simp add: mod_128 [symmetric] word_less_nat_alt unat_mod word_unat_eq_iff)

lemma continuation_low: "ucast (((ucast (n mod 128) :: u8) OR 128) AND 127) = (n mod 128 :: u32)"
  unfolding mod_128 by (auto intro!: bit_word_eqI simp: byte_bits)

lemma continuation_bit: "((x :: u8) OR 128) AND 128 \<noteq> 0"
proof -
  have "bit ((x OR 128) AND 128) 7" by (simp add: bit_simps)
  then show ?thesis by auto
qed

lemma last_low: "n < 128 \<Longrightarrow> ucast ((ucast n :: u8) AND 127) = (n :: u32)"
proof -
  assume n: "n < 128"
  have "ucast ((ucast (take_bit 7 n) :: u8) AND 127) = take_bit 7 n"
    by (auto intro!: bit_word_eqI simp: byte_bits)
  with n show ?thesis by (simp add: below_128)
qed

lemma last_bit: "n < 128 \<Longrightarrow> (ucast (n :: u32) :: u8) AND 128 = 0"
proof -
  assume n: "n < 128"
  have "(ucast (take_bit 7 n) :: u8) AND 128 = 0"
    by (auto intro!: bit_word_eqI simp: byte_bits)
  with n show ?thesis by (simp add: below_128)
qed

lemma div_128_pos: "0 < (n :: u32) div 128 \<longleftrightarrow> 128 \<le> n"
  by (simp add: word_less_nat_alt word_le_nat_alt unat_div) linarith

subsection \<open>Remaining lengths\<close>

lemma write_len_last: "n < 128 \<Longrightarrow> write_len_to_buffer n = [ucast n]"
proof -
  assume n: "n < 128"
  then have "n mod 128 = n" by (simp add: mod_128 below_128)
  moreover have "n div 128 = 0" using n by (simp add: word_less_nat_alt unat_div word_unat_eq_iff)
  ultimately show ?thesis by (simp add: write_len_to_buffer.simps [of n])
qed

lemma write_len_more:
  "128 \<le> n \<Longrightarrow> write_len_to_buffer n = (ucast (n mod 128) OR 128) # write_len_to_buffer (n div 128)"
  by (simp add: write_len_to_buffer.simps [of n] div_128_pos)

lemma not_below_128: "\<not> n < 128 \<Longrightarrow> 128 \<le> (n :: u32)"
  by simp

lemma digits_fit: "unat (n :: u32) < 128 ^ (Suc k) \<Longrightarrow> unat (n div 128) < 128 ^ k"
  by (simp add: unat_div less_mult_imp_div_less mult.commute)

lemma digits_overflow: "128 ^ (Suc k) \<le> unat (n :: u32) \<Longrightarrow> 128 ^ k \<le> unat (n div 128)"
proof -
  assume "128 ^ (Suc k) \<le> unat n"
  then have "128 ^ (Suc k) div 128 \<le> unat n div 128" by (rule div_le_mono)
  then show ?thesis by (simp add: unat_div)
qed

lemma decode_written:
  assumes "unat n < 128 ^ (4 - k)" and "k < 4"
  shows "decode_length_loop k m d (write_len_to_buffer n @ rest)
    = Some (Inr (d + n * m, of_nat (k + length (write_len_to_buffer n))))"
  using assms
proof (induction "4 - k" arbitrary: k m d n)
  case 0
  then show ?case by simp
next
  case (Suc j)
  show ?case
  proof (cases "n < 128")
    case True
    then show ?thesis
      using Suc.prems
      by (subst decode_length_loop.simps) (simp add: write_len_last last_low last_bit)
  next
    case False
    from False have big: "128 \<le> n" by simp
    have "unat (n div 128) < 128 ^ j"
      using Suc by (intro digits_fit) simp
    moreover have "128 \<le> unat n" using big by (simp add: word_le_nat_alt)
    moreover have "128 \<le> unat n div 128 * 128 + 127" using \<open>128 \<le> unat n\<close> by simp
    ultimately have j: "0 < j" by (cases j) (auto simp: unat_div)
    have eq: "j = 4 - Suc k" and k: "Suc k < 4" using Suc(2) j by auto
    have "decode_length_loop k m d (write_len_to_buffer n @ rest)
        = decode_length_loop (Suc k) (m * 128) (d + (n mod 128) * m) (write_len_to_buffer (n div 128) @ rest)"
      using Suc.prems
      by (subst decode_length_loop.simps) (simp add: write_len_more [OF big] continuation_low continuation_bit)
    also have "\<dots> = Some (Inr (d + (n mod 128) * m + (n div 128) * (m * 128),
        of_nat (Suc k + length (write_len_to_buffer (n div 128)))))"
      using Suc(1) [OF eq _ k] \<open>unat (n div 128) < 128 ^ j\<close> eq by simp
    also have "d + (n mod 128) * m + (n div 128) * (m * 128) = d + (n div 128 * 128 + n mod 128) * m"
      by (simp add: algebra_simps)
    also have "n div 128 * 128 + n mod 128 = n" by (rule div_mult_mod_eq)
    finally show ?thesis by (simp add: write_len_more [OF big])
  qed
qed

lemma decode_too_long:
  assumes "128 ^ (4 - k) \<le> unat n" and "k < 4"
  shows "decode_length_loop k m d (write_len_to_buffer n @ rest)
    = Some (Inl MQTT_DECODE_REMAINING_LENGTH_ERROR)"
  using assms
proof (induction "4 - k" arbitrary: k m d n)
  case 0
  then show ?case by simp
next
  case (Suc j)
  have "(128::nat) ^ 1 \<le> 128 ^ (4 - k)" using Suc by (intro power_increasing) auto
  with Suc.prems have big: "128 \<le> n" by (simp add: word_le_nat_alt)
  have step: "decode_length_loop k m d (write_len_to_buffer n @ rest)
      = decode_length_loop (Suc k) (m * 128) (d + (n mod 128) * m) (write_len_to_buffer (n div 128) @ rest)"
    using Suc.prems
    by (subst decode_length_loop.simps) (simp add: write_len_more [OF big] continuation_low continuation_bit)
  show ?case
  proof (cases "Suc k < 4")
    case True
    have "128 ^ j \<le> unat (n div 128)" using Suc by (intro digits_overflow) simp
    moreover have "j = 4 - Suc k" using Suc(2) by simp
    ultimately show ?thesis unfolding step using True by (intro Suc(1)) simp_all
  next
    case False
    then show ?thesis unfolding step by (simp add: decode_length_loop.simps)
  qed
qed

lemma length_write_len:
  assumes "unat n < 268435456"
  shows "length (write_len_to_buffer n)
    = (if unat n < 128 then 1 else if unat n < 16384 then 2 else if unat n < 2097152 then 3 else 4)"
proof -
  have one: "length (write_len_to_buffer x) = (if unat x < 128 then 1 else Suc (length (write_len_to_buffer (x div 128))))"
    for x
    using write_len_last [of x] write_len_more [of x] by (auto simp: word_less_nat_alt word_le_nat_alt)
  have div: "unat (n div 128) = unat n div 128" "unat (n div 128 div 128) = unat n div 16384"
    "unat (n div 128 div 128 div 128) = unat n div 2097152"
    by (simp_all add: unat_div div_mult2_eq [symmetric])
  show ?thesis
    using assms unfolding one [of n] one [of "n div 128"] one [of "n div 128 div 128"]
      one [of "n div 128 div 128 div 128"] div
    by (auto simp: less_mult_imp_div_less div_less_iff_less_mult)
qed

lemma decode_write_len:
  "unat n < 268435456 \<Longrightarrow> decode_remaining_length_from_buffer (write_len_to_buffer n @ rest)
     = Some (Inr (n, of_nat (length (write_len_to_buffer n))))"
  using decode_written [of n 0 1 0 rest] by (simp add: decode_remaining_length_from_buffer_def)

lemma length_write_len_le: "unat n < 268435456 \<Longrightarrow> length (write_len_to_buffer n) \<le> 4"
  by (simp add: length_write_len)

text \<open>The estimate is exact or one byte too long.\<close>

lemma final_packet_length:
  assumes "unat n < 268435456"
  shows "1 + length (write_len_to_buffer n) + unat n \<le> unat (get_final_packet_length n)"
    and "unat (get_final_packet_length n) \<le> 2 + length (write_len_to_buffer n) + unat n"
proof -
  have add: "unat (n + of_nat k) = unat n + k" if "k < 6" for k
  proof -
    have "unat n + k < 2 ^ 32" using assms that by simp
    then show ?thesis
      using that by (simp add: unat_word_ariths unat_of_nat take_bit_nat_eq_self)
  qed
  have "unat (get_final_packet_length n)
      = unat n + (if unat n + 1 < 128 then 2 else if unat n + 1 < 16384 then 3
                  else if unat n + 1 < 2097152 then 4 else 5)"
    using add [of 1] add [of 2] add [of 3] add [of 4] add [of 5]
    by (simp add: get_final_packet_length_def Let_def word_less_nat_alt add.assoc)
  then show "1 + length (write_len_to_buffer n) + unat n \<le> unat (get_final_packet_length n)"
    and "unat (get_final_packet_length n) \<le> 2 + length (write_len_to_buffer n) + unat n"
    using length_write_len [OF assms] by auto
qed

lemma unat_add_small: "unat n + k < 4294967296 \<Longrightarrow> unat ((n :: u32) + of_nat k) = unat n + k"
  by (simp add: unat_word_ariths unat_of_nat take_bit_nat_eq_self)

lemma final_packet_length_big:
  assumes "268435456 \<le> k" and "k < 4294967291"
  shows "268435456 \<le> get_final_packet_length (of_nat k)"
proof -
  have k: "unat (of_nat k :: u32) = k" using assms by (simp add: unat_of_nat_u32)
  have "unat (of_nat k + of_nat 1 :: u32) = k + 1" "unat (of_nat k + of_nat 5 :: u32) = k + 5"
    using assms by (simp_all only: unat_add_small k)
  then show ?thesis
    using assms by (simp add: get_final_packet_length_def Let_def word_less_nat_alt word_le_nat_alt add.assoc)
qed

subsection \<open>Header and integer fields\<close>

lemma word_bit_cases: "(w :: 'a :: len word) \<le> 1 \<Longrightarrow> w = 0 \<or> w = 1"
proof -
  assume "w \<le> 1"
  then have "unat w \<le> 1" by (simp add: word_le_nat_alt)
  then have "unat w = 0 \<or> unat w = 1" by auto
  then show ?thesis by (auto simp: word_unat_eq_iff)
qed

lemma header_fields:
  assumes "t \<noteq> UNKNOWN" and "d = 0 \<or> d = 1" and "q = 0 \<or> q = 2" and "r = 0 \<or> r = 1"
  defines "h \<equiv> push_bit 4 (msg_code t) OR push_bit 3 d OR q OR r"
  shows "header_type h = msg_code t \<and> header_dup h = d \<and> header_qos h = drop_bit 1 q \<and> header_retain h = r"
  using assms(1-4) unfolding h_def header_type_def header_dup_def header_qos_def header_retain_def
  by (cases t; elim disjE; simp)

lemma init_header_fields:
  assumes "init_header t q d r = Inr h" and "q \<le> 1" and "d \<le> 1" and "r \<le> 1"
  shows "header_type h = msg_code t \<and> header_dup h = d \<and> header_qos h = ucast q \<and> header_retain h = r"
proof -
  have q: "q = 0 \<or> q = 1" and d: "d = 0 \<or> d = 1" and r: "r = 0 \<or> r = 1"
    using assms word_bit_cases by blast+
  from assms(1) have t: "t \<noteq> UNKNOWN"
    and h: "h = push_bit 4 (msg_code t) OR push_bit 3 d OR (if q = QOS1 then 2 else 0) OR r"
    using r by (auto simp: init_header_def split: if_splits)
  have "drop_bit 1 (if q = QOS1 then 2 else 0 :: u8) = ucast q"
    using q by auto
  with header_fields [OF t d _ r, of "if q = QOS1 then 2 else 0"] show ?thesis
    unfolding h by (auto split: if_splits)
qed

lemma init_header_Inr: "t \<noteq> UNKNOWN \<Longrightarrow> \<exists>h. init_header t q d r = Inr h"
  by (simp add: init_header_def)

lemma length_write_uint_16 [simp]: "length (write_uint_16 w) = 2"
  by (simp add: write_uint_16_def)

lemma join_bytes: "ucast (ucast (w mod 256) :: u8) + 256 * ucast (ucast (w div 256) :: u8) = (w :: u16)"
proof -
  have "unat w < 65536" by (rule u16_less)
  then have "ucast (ucast (w mod 256) :: u8) = w mod 256" "ucast (ucast (w div 256) :: u8) = w div 256"
    by (simp_all add: word_unat_eq_iff unsigned_ucast_eq take_bit_eq_mod unat_mod unat_div)
  then show ?thesis using mult_div_mod_eq [of 256 w] by (simp add: add.commute)
qed

lemma read_write_uint_16: "read_uint16_t (xs @ write_uint_16 w @ ys) (length xs) = Some w"
proof -
  have "byte_at (xs @ write_uint_16 w @ ys) (length xs) = Some (ucast (w div 256))"
    using byte_at_append [of xs "write_uint_16 w @ ys" 0] by (simp add: write_uint_16_def)
  moreover have "byte_at (xs @ write_uint_16 w @ ys) (length xs + 1) = Some (ucast (w mod 256))"
    using byte_at_append [of xs "write_uint_16 w @ ys" 1] by (simp add: write_uint_16_def byte_at_def)
  ultimately show ?thesis using join_bytes [of w] unfolding read_uint16_t_def by simp
qed

lemma write_utf8_string_Some:
  "write_utf8_string p n = Some bs \<longleftrightarrow> (\<exists>body. mem_read p (unat n) = Some body \<and> bs = write_uint_16 n @ body)"
  by (cases "mem_read p (unat n)") (auto simp: write_utf8_string_def)

lemma emit_Some:
  "emit cap bs = Some r \<longleftrightarrow> length bs \<le> unat cap \<and> r = Inr bs"
  by (auto simp: emit_def)

subsection \<open>Framed packets\<close>

text \<open>What every packet is to look like: header byte, length of the rest, the rest.\<close>

definition frame :: "u8 \<Rightarrow> u8 list \<Rightarrow> u8 list" where
  "frame header body = header # write_len_to_buffer (of_nat (length body)) @ body"

lemma unat_of_nat_small: "k < 268435456 \<Longrightarrow> unat (of_nat k :: u32) = k"
  by (simp add: unat_of_nat_u32)

lemma byte_at_frame [simp]: "byte_at (frame h body @ rest) 0 = Some h"
  by (simp add: frame_def)

lemma frame_decode:
  assumes "length body < 268435456"
  shows "decode_remaining_length_from_buffer (drop 1 (frame h body @ rest))
    = Some (Inr (of_nat (length body), of_nat (length (write_len_to_buffer (of_nat (length body))))))"
  using decode_write_len [of "of_nat (length body)" "body @ rest"] assms
  by (simp add: frame_def unat_of_nat_small)

text \<open>Positions behind the length field.\<close>

lemma frame_position:
  assumes "length body < 268435456"
  shows "\<exists>pre. frame h body = pre @ body
    \<and> length pre = 1 + unat (of_nat (length (write_len_to_buffer (of_nat (length body)))) :: u32)"
proof -
  have "length (write_len_to_buffer (of_nat (length body))) \<le> 4"
    using assms by (intro length_write_len_le) (simp add: unat_of_nat_small)
  then have "unat (of_nat (length (write_len_to_buffer (of_nat (length body)))) :: u32)
      = length (write_len_to_buffer (of_nat (length body)))"
    by (intro unat_of_nat_small) simp
  then show ?thesis
    by (intro exI [of _ "h # write_len_to_buffer (of_nat (length body))"]) (simp add: frame_def)
qed

lemma length_frame_bounds: "length body < length (frame h body)"
  by (simp add: frame_def)

lemma emit_frame:
  assumes "emit cap (h # write_len_to_buffer r @ body) = Some (Inr bs)"
    and "r = of_nat (length body)"
  shows "bs = frame h body \<and> length (frame h body) \<le> unat cap"
  using assms by (auto simp: emit_Some frame_def)

text \<open>A frame whose size passes the check of the serializers is written inside the buffer.\<close>

lemma checked_frame_fits:
  assumes "get_final_packet_length r \<le> cap" and "r = of_nat (length body)"
    and "length body < 268435456"
  shows "emit cap (h # write_len_to_buffer r @ body) = Some (Inr (frame h body))"
proof -
  have r: "unat r = length body" using assms by (simp add: unat_of_nat_small)
  then have "1 + length (write_len_to_buffer r) + length body \<le> unat (get_final_packet_length r)"
    using final_packet_length(1) [of r] assms(3) by simp
  with assms(1,2) show ?thesis by (simp add: emit_Some frame_def word_le_nat_alt)
qed

lemma wrapped_not_emitted:
  "unat cap < length body \<Longrightarrow> emit cap (h # write_len_to_buffer r @ body) = None"
  by (simp add: emit_def)

subsection \<open>Bodies\<close>

lemma length_write_utf8_string:
  "write_utf8_string p n = Some bs \<Longrightarrow> length bs = unat n + 2"
  by (auto simp: write_utf8_string_Some dest: mem_read_length)

lemma length_write_subscriptions:
  "write_subscriptions ts = Some bs \<Longrightarrow> of_nat (length bs) = subscribe_remaining ts"
proof (induction ts arbitrary: bs rule: write_subscriptions.induct)
  case 1
  then show ?case by simp
next
  case (2 name n q topics)
  then obtain t rest where "write_utf8_string name n = Some t" "write_subscriptions topics = Some rest"
    "bs = t @ [ucast q] @ rest"
    by (auto simp: Option.bind_eq_Some_conv)
  with 2 show ?case
    by (simp add: length_write_utf8_string flip: 2(1))
qed

lemma length_write_filters:
  "write_filters ts = Some bs \<Longrightarrow> of_nat (length bs) = unsubscribe_remaining ts"
proof (induction ts arbitrary: bs rule: write_filters.induct)
  case 1
  then show ?case by simp
next
  case (2 name n topics)
  then obtain t rest where "write_utf8_string name n = Some t" "write_filters topics = Some rest"
    "bs = t @ rest"
    by (auto simp: Option.bind_eq_Some_conv)
  with 2 show ?case
    by (simp add: length_write_utf8_string flip: 2(1))
qed

definition publish_body :: "QoS \<Rightarrow> u16 \<Rightarrow> u16 \<Rightarrow> u8 list \<Rightarrow> u8 list \<Rightarrow> u8 list" where
  "publish_body qos packetId n topic body =
     write_uint_16 n @ topic @ (if 0 < qos then write_uint_16 packetId else []) @ body"

lemma length_publish_body:
  "length topic = unat n \<Longrightarrow> length body = unat m \<Longrightarrow>
     of_nat (length (publish_body qos i n topic body)) = publish_remaining qos n m"
  by (simp add: publish_body_def publish_remaining_def)

lemma serialize_publish_Some:
  assumes "serialize_publish cap dup qos retained i p n pl m = Some (Inr bs)"
  obtains h topic body where "init_header PUBLISH qos dup retained = Inr h"
    "mem_read p (unat n) = Some topic" "mem_read pl (unat m) = Some body"
    "bs = frame h (publish_body qos i n topic body)" "length bs \<le> unat cap"
proof -
  from assms obtain h t body where r: "init_header PUBLISH qos dup retained = Inr h"
    "write_utf8_string p n = Some t" "mem_read pl (unat m) = Some body"
    "emit cap (h # write_len_to_buffer (publish_remaining qos n m) @ t
       @ (if 0 < qos then write_uint_16 i else []) @ body) = Some (Inr bs)"
    by (auto simp: serialize_publish_def Let_def Option.bind_eq_Some_conv split: if_splits sum.splits)
  from r(2) obtain topic where topic: "mem_read p (unat n) = Some topic" "t = write_uint_16 n @ topic"
    by (auto simp: write_utf8_string_Some)
  have len: "publish_remaining qos n m = of_nat (length (publish_body qos i n topic body))"
    using topic r(3) by (intro length_publish_body [symmetric]) (auto dest: mem_read_length)
  have "emit cap (h # write_len_to_buffer (publish_remaining qos n m) @ publish_body qos i n topic body)
      = Some (Inr bs)"
    using r(4) topic(2) by (simp add: publish_body_def)
  from emit_frame [OF this len] have "bs = frame h (publish_body qos i n topic body)" "length bs \<le> unat cap"
    by auto
  with r topic show ?thesis using that by blast
qed

lemma read_uint16_at: "length xs = k \<Longrightarrow> read_uint16_t (xs @ write_uint_16 w @ ys) k = Some w"
  using read_write_uint_16 by auto

text \<open>A publish whose header byte and body are known is taken apart again.\<close>

lemma deserialize_publish_frame:
  fixes rest topic pl :: "u8 list" and n i :: u16 and h :: u8
  defines "body \<equiv> publish_body (ucast (header_qos h)) i n topic pl"
  defines "buf \<equiv> frame h body @ rest"
  assumes h: "header_type h = msg_code PUBLISH" and cap: "4 \<le> rxBufLen"
    and topic: "length topic = unat n" and small: "length body < 268435456"
  obtains v where "deserialize_publish buf rxBufLen = Some (Inr v)"
    "in_dup v = header_dup h" "in_qos v = ucast (header_qos h)" "in_retained v = header_retain h"
    "in_id v = (if header_qos h = 0 then None else Some i)" "in_topicLen v = n"
    "in_payloadLen v = of_nat (length pl)"
    "take (unat n) (drop (in_topic v) buf) = topic"
    "take (length pl) (drop (in_payload v) buf) = pl"
proof -
  define q where "q = (ucast (header_qos h) :: QoS)"
  define idp where "idp = (if 0 < q then write_uint_16 i else [])"
  define rb where "rb = (of_nat (length (write_len_to_buffer (of_nat (length body)))) :: u32)"
  have q0: "q = 0 \<longleftrightarrow> header_qos h = 0" "0 < q \<longleftrightarrow> header_qos h \<noteq> 0"
    by (simp_all add: q_def word_greater_zero_iff ucast_u8_zero)
  obtain pre where pre: "frame h body = pre @ body" "length pre = 1 + unat rb"
    using frame_position [OF small, of h] by (auto simp: rb_def)
  have buf: "buf = pre @ write_uint_16 n @ topic @ idp @ pl @ rest"
    unfolding buf_def pre(1) by (simp add: body_def publish_body_def idp_def q_def)
  have ed: "unat (of_nat (length body) :: u32) = length body" using small by (simp add: unat_of_nat_small)
  have lb: "length body = 2 + unat n + length idp + length pl"
    by (simp add: body_def publish_body_def idp_def topic q_def)
  have dec: "decode_remaining_length_from_buffer (drop 1 buf) = Some (Inr (of_nat (length body), rb))"
    unfolding buf_def rb_def by (rule frame_decode [OF small])
  have b0: "byte_at buf 0 = Some h" by (simp add: buf_def)
  have len: "read_uint16_t buf (length pre) = Some n"
    unfolding buf by (rule read_write_uint_16)
  have str: "read_string_with_len buf (1 + unat rb) (1 + unat rb + length body) = Some (Inr (length pre + 2, n))"
    using len by (simp add: read_string_with_len_def pre(2) lb)
  have idr: "(if q \<noteq> QOS0 then do { j \<leftarrow> read_uint16_t buf (length pre + 2 + unat n);
                                   Some (Some j, length pre + 2 + unat n + 2) }
              else Some (None, length pre + 2 + unat n))
      = Some (if header_qos h = 0 then None else Some i, length pre + 2 + unat n + length idp)"
  proof (cases "header_qos h = 0")
    case True
    then show ?thesis using q0 by (simp add: idp_def)
  next
    case False
    have "read_uint16_t ((pre @ write_uint_16 n @ topic) @ write_uint_16 i @ pl @ rest)
        (length pre + 2 + unat n) = Some i"
      by (rule read_uint16_at) (simp add: topic)
    then show ?thesis using False q0 by (simp add: idp_def buf)
  qed
  have left: "int (1 + unat rb + length body) - int (length pre + 2 + unat n + length idp) = int (length pl)"
    by (simp add: lb pre(2))
  let ?v = "\<lparr>in_dup = header_dup h, in_qos = q, in_retained = header_retain h,
     in_id = (if header_qos h = 0 then None else Some i), in_topic = length pre + 2, in_topicLen = n,
     in_payload = length pre + 2 + unat n + length idp, in_payloadLen = of_int (int (length pl))\<rparr>"
  show ?thesis
  proof (rule that [of ?v])
    show "deserialize_publish buf rxBufLen = Some (Inr ?v)"
      using cap
      by (simp only: deserialize_publish_def b0 h dec ed str idr Let_def left not_less [symmetric]
          q_def [symmetric] Option.bind.simps sum.case prod.case if_False simp_thms)
    show "take (unat n) (drop (in_topic ?v) buf) = topic"
      by (simp add: buf topic drop_append)
    show "take (length pl) (drop (in_payload ?v) buf) = pl"
      by (simp add: buf topic drop_append add.assoc)
  qed (simp_all add: q_def)
qed

end
