(* ===== verification/MqttCodecProperties.thy ===== *)
theory MqttCodecProperties
  imports MqttCodecLemmas
begin

text \<open>
  The properties of the packet formats: the encoding of remaining lengths, what a broker reads
  from the packets the client writes, what the client reads from the packets a broker writes,
  and where the arithmetic of the two sides leaves the packet.
\<close>

subsection \<open>What a broker reads\<close>

text \<open>The payload of SUBSCRIBE after MQTT 3.1.1, section 3.8: a packet identifier, then pairs of
  a length-prefixed filter and a requested quality of service.\<close>

function parse_requests :: "u8 list \<Rightarrow> (u8 list \<times> u8) list option" where
  "parse_requests [] = Some []"
| "parse_requests [x] = None"
| "parse_requests (a # b # xs) =
     (let n = unat (ucast b + 256 * ucast a :: u16) in
      if n < length xs then do {
        rest \<leftarrow> parse_requests (drop (n + 1) xs);
        Some ((take n xs, xs ! n) # rest)
      }
      else None)"
  by pat_completeness auto
termination by (relation "measure length") auto

declare parse_requests.simps(3) [simp del]

fun broker_subscribe :: "u8 list \<Rightarrow> (u16 \<times> (u8 list \<times> u8) list) option" where
  "broker_subscribe (a # b # xs) =
     do { reqs \<leftarrow> parse_requests xs; Some (ucast b + 256 * ucast a, reqs) }"
| "broker_subscribe _ = None"

definition requests :: "(pointer \<times> u16 \<times> QoS) list \<Rightarrow> (u8 list \<times> u8) list \<Rightarrow> bool" where
  "requests = list_all2 (\<lambda>(p, n, q) (f, r). mem_read p (unat n) = Some f \<and> r = ucast q)"

lemma parse_requests_step:
  "length topic = unat n \<Longrightarrow>
     parse_requests (write_uint_16 n @ topic @ q # rest)
     = do { reqs \<leftarrow> parse_requests rest; Some ((topic, q) # reqs) }"
  by (simp add: write_uint_16_def parse_requests.simps(3) Let_def join_bytes nth_append)

lemma parse_written:
  "write_subscriptions ts = Some bs \<Longrightarrow> \<exists>reqs. parse_requests bs = Some reqs \<and> requests ts reqs"
proof (induction ts arbitrary: bs rule: write_subscriptions.induct)
  case 1
  then show ?case by (simp add: requests_def)
next
  case (2 name n q topics)
  then obtain topic rest where w: "mem_read name (unat n) = Some topic"
    "write_subscriptions topics = Some rest" "bs = write_uint_16 n @ topic @ ucast q # rest"
    by (auto simp: Option.bind_eq_Some_conv write_utf8_string_Some)
  moreover from w(1) have "write_utf8_string name n = Some (write_uint_16 n @ topic)"
    by (simp add: write_utf8_string_Some)
  ultimately obtain reqs where "parse_requests rest = Some reqs" "requests topics reqs"
    using "2.IH" by blast
  with w show ?case
    using parse_requests_step [OF mem_read_length [OF w(1)]] by (auto simp: requests_def)
qed

lemma short_body:
  "length (frame h body) \<le> unat (cap :: u32) \<Longrightarrow> cap < 268435456 \<Longrightarrow> length body < 268435456"
  using length_frame_bounds [of body h] by (simp add: word_less_nat_alt)

lemma frame_length_le: "emit cap (h # write_len_to_buffer r @ body) = Some (Inr bs) \<Longrightarrow> length body < unat cap"
  by (auto simp: emit_Some)

lemma serialize_subscribe_Some:
  assumes "serialize_subscribe cap dup i ts = Some (Inr bs)"
  obtains h filters where "init_header SUBSCRIBE QOS1 dup 0 = Inr h"
    "write_subscriptions ts = Some filters" "bs = frame h (write_uint_16 i @ filters)"
    "length bs \<le> unat cap"
proof -
  from assms obtain h filters where r: "init_header SUBSCRIBE QOS1 dup 0 = Inr h"
    "write_subscriptions ts = Some filters"
    "emit cap (h # write_len_to_buffer (2 + subscribe_remaining ts) @ write_uint_16 i @ filters) = Some (Inr bs)"
    by (auto simp: serialize_subscribe_def Let_def Option.bind_eq_Some_conv split: if_splits sum.splits)
  have "2 + subscribe_remaining ts = of_nat (length (write_uint_16 i @ filters))"
    using length_write_subscriptions [OF r(2)] by simp
  from emit_frame [OF r(3) this] r that show ?thesis by blast
qed

subsection \<open>Properties\<close>

text \<open>Every remaining length MQTT allows is decoded as it was encoded, with the number of bytes
  it took, whatever follows in the buffer; every larger one is refused.\<close>

theorem remaining_length_roundtrip:
  "decode_remaining_length_from_buffer (write_len_to_buffer n @ rest)
   = (if unat n < 268435456 then Some (Inr (n, of_nat (length (write_len_to_buffer n))))
      else Some (Inl MQTT_DECODE_REMAINING_LENGTH_ERROR))"
  using decode_write_len [of n rest] decode_too_long [of 0 n 1 0 rest]
  by (simp add: decode_remaining_length_from_buffer_def)

text \<open>(C6) A publish packet the client serializes, followed by anything, is deserialized to the same
  topic, payload, packet identifier and flags.\<close>

theorem publish_roundtrip:
  assumes "serialize_publish cap dup qos retained i p n pl m = Some (Inr bs)"
    and "cap < 268435456" and "qos \<le> 1" and "dup \<le> 1" and "retained \<le> 1" and "4 \<le> rxBufLen"
  shows "\<exists>v. deserialize_publish (bs @ rest) rxBufLen = Some (Inr v)
    \<and> in_dup v = dup \<and> in_qos v = qos \<and> in_retained v = retained
    \<and> in_id v = (if qos = QOS0 then None else Some i)
    \<and> in_topicLen v = n \<and> Some (take (unat n) (drop (in_topic v) (bs @ rest))) = mem_read p (unat n)
    \<and> in_payloadLen v = m \<and> Some (take (unat m) (drop (in_payload v) (bs @ rest))) = mem_read pl (unat m)"
proof -
  from assms(1) obtain h topic body where s: "init_header PUBLISH qos dup retained = Inr h"
    "mem_read p (unat n) = Some topic" "mem_read pl (unat m) = Some body"
    "bs = frame h (publish_body qos i n topic body)" "length bs \<le> unat cap"
    by (rule serialize_publish_Some)
  have q: "qos = 0 \<or> qos = 1" using assms(3) by (rule word_bit_cases)
  from init_header_fields [OF s(1) assms(3-5)]
  have h: "header_type h = msg_code PUBLISH" "header_dup h = dup" "ucast (header_qos h) = qos"
    "header_retain h = retained"
    using q by auto
  have qz: "header_qos h = 0 \<longleftrightarrow> qos = 0"
    using q h(3) ucast_u8_zero [of "header_qos h"] by auto
  have small: "length (publish_body (ucast (header_qos h)) i n topic body) < 268435456"
    using s(4,5) short_body assms(2) h(3) by blast
  from deserialize_publish_frame [OF h(1) assms(6) mem_read_length [OF s(2)] small, where rest = rest]
  obtain v where "deserialize_publish (bs @ rest) rxBufLen = Some (Inr v)"
    "in_dup v = dup" "in_qos v = qos" "in_retained v = retained"
    "in_id v = (if qos = 0 then None else Some i)" "in_topicLen v = n"
    "in_payloadLen v = of_nat (length body)"
    "take (unat n) (drop (in_topic v) (bs @ rest)) = topic"
    "take (length body) (drop (in_payload v) (bs @ rest)) = body"
    unfolding h qz s(4) by blast
  with s mem_read_length [OF s(3)] show ?thesis by (intro exI [of _ v]) simp
qed

theorem publish_roundtrip_witness:
  "\<exists>bs v. serialize_publish 512 0 1 0 7 (Some (cstr (bytes_of ''t/1''))) 3 (Some (bytes_of ''hi'')) 2 = Some (Inr bs)
     \<and> deserialize_publish bs 512 = Some (Inr v) \<and> in_id v = Some 7 \<and> in_payloadLen v = 2"
proof -
  have "serialize_publish 512 0 1 0 7 (Some (cstr (bytes_of ''t/1''))) 3 (Some (bytes_of ''hi'')) 2
      = Some (Inr [50, 9, 0, 3, 116, 47, 49, 0, 7, 104, 105])"
    by code_simp
  with publish_roundtrip [OF this, of 512 "[]"] show ?thesis by auto
qed

text \<open>A publish whose topic and payload can be read and whose length fits 32 bits is refused when
  the buffer may be too short and otherwise written inside it, framed with exactly its length.\<close>

theorem publish_in_bounds:
  assumes "mem_read p (unat n) = Some topic" and "mem_read pl (unat m) = Some body" and "pl \<noteq> None"
    and "unat n + unat m + 4 < 4294967291" and "cap < 268435456"
  shows "if cap < get_final_packet_length (publish_remaining qos n m)
    then serialize_publish cap dup qos retained i p n pl m = Some (Inl MQTT_TX_BUFFER_TOO_SHORT_ERROR)
    else \<exists>h. serialize_publish cap dup qos retained i p n pl m
               = Some (Inr (frame h (publish_body qos i n topic body)))
           \<and> length (frame h (publish_body qos i n topic body)) \<le> unat cap"
proof (cases "cap < get_final_packet_length (publish_remaining qos n m)")
  case True
  then show ?thesis using assms(3) by (auto simp: serialize_publish_def Let_def)
next
  case False
  let ?b = "publish_body qos i n topic body"
  have len: "length topic = unat n" "length body = unat m"
    using assms(1,2) by (auto dest: mem_read_length)
  then have T: "length ?b \<le> unat n + unat m + 4" by (simp add: publish_body_def)
  have rem: "publish_remaining qos n m = of_nat (length ?b)"
    using length_publish_body [OF len] by simp
  have small: "length ?b < 268435456"
  proof (rule ccontr)
    assume "\<not> ?thesis"
    then have "268435456 \<le> get_final_packet_length (publish_remaining qos n m)"
      unfolding rem using T assms(4) by (intro final_packet_length_big) auto
    with False assms(5) show False by simp
  qed
  obtain h where h: "init_header PUBLISH qos dup retained = Inr h"
    using init_header_Inr by blast
  have "emit cap (h # write_len_to_buffer (publish_remaining qos n m) @ ?b) = Some (Inr (frame h ?b))"
    using False by (intro checked_frame_fits rem small) simp
  moreover from this have "length (frame h ?b) \<le> unat cap" by (simp add: emit_Some)
  moreover have "write_utf8_string p n = Some (write_uint_16 n @ topic)"
    using assms(1) by (simp add: write_utf8_string_Some)
  ultimately show ?thesis
    using False assms(2,3) h by (auto simp: serialize_publish_def Let_def publish_body_def)
qed

theorem publish_in_bounds_witness:
  "\<exists>h. serialize_publish 512 0 0 0 0 (Some [97]) 1 (Some [1, 2]) 2
     = Some (Inr (frame h (publish_body 0 0 1 [97] [1, 2])))"
  using publish_in_bounds [of "Some [97]" 1 "[97]" "Some [1, 2]" 2 "[1, 2]" 512 0 0 0 0]
  by (simp add: mem_read_def publish_remaining_def get_final_packet_length_def split: if_splits) blast

text \<open>Where the length overflows 32 bits the size check passes and the publish is written past
  the transmit buffer.\<close>

theorem publish_size_wraps:
  assumes "4294967296 \<le> unat n + unat m + (if 0 < qos then 4 else 2)"
    and "unat n + unat m + 10 \<le> 4294967296 + unat cap" and "cap < 268435456" and "pl \<noteq> None"
  shows "get_final_packet_length (publish_remaining qos n m) \<le> cap
    \<and> serialize_publish cap dup qos retained i p n pl m = None"
proof -
  let ?k = "unat n + unat m + (if 0 < qos then 4 else 2) - 4294967296"
  have "of_nat (unat n + unat m + (if 0 < qos then 4 else 2)) = (of_nat (?k + 4294967296) :: u32)"
    using assms(1) by simp
  also have "\<dots> = of_nat ?k" by simp
  finally have rem: "publish_remaining qos n m = of_nat ?k"
    by (simp add: publish_remaining_def add_ac split: if_splits)
  have k: "?k + 6 \<le> unat cap" and cap: "unat cap < 268435456"
    using assms(1-3) by (auto simp: word_less_nat_alt split: if_splits)
  then have r: "unat (publish_remaining qos n m) = ?k"
    unfolding rem by (intro unat_of_nat_small) simp
  have "unat (get_final_packet_length (publish_remaining qos n m)) \<le> 6 + ?k"
    using final_packet_length(2) [of "publish_remaining qos n m"]
      length_write_len_le [of "publish_remaining qos n m"] k cap unfolding r by linarith
  then have check: "get_final_packet_length (publish_remaining qos n m) \<le> cap"
    using k by (simp add: word_le_nat_alt)
  obtain h where h: "init_header PUBLISH qos dup retained = Inr h"
    using init_header_Inr by blast
  have "serialize_publish cap dup qos retained i p n pl m = None"
  proof (rule ccontr)
    assume "\<not> ?thesis"
    then obtain t body where "mem_read pl (unat m) = Some body" "write_utf8_string p n = Some t"
      "length (t @ body) \<le> unat cap"
      using check h assms(4) by (auto simp: serialize_publish_def Let_def emit_def not_less [symmetric]
          split: option.splits if_splits bind_splits)
    then have "unat n + 2 + unat m \<le> unat cap"
      by (simp add: length_write_utf8_string mem_read_length)
    with assms(1) cap show False by (simp split: if_splits)
  qed
  with check show ?thesis by blast
qed

theorem publish_size_wraps_witness:
  "serialize_publish 512 0 0 0 0 (Some [97, 98]) 2 (Some [1]) 4294967295 = None"
  using publish_size_wraps [of 2 4294967295 0 512 "Some [1]" 0 0 0 "Some [97, 98]"] by simp

text \<open>A subscribe packet fits the transmit buffer and a broker reads from it the packet identifier
  and the requested filters, in order and with their qualities of service.\<close>

theorem subscribe_received:
  assumes "serialize_subscribe cap dup i ts = Some (Inr bs)" and "cap < 268435456"
  shows "length bs \<le> unat cap
    \<and> (\<exists>h body reqs. bs = frame h body \<and> broker_subscribe body = Some (i, reqs) \<and> requests ts reqs)"
proof -
  from assms(1) obtain h filters where s: "write_subscriptions ts = Some filters"
    "bs = frame h (write_uint_16 i @ filters)" "length bs \<le> unat cap"
    by (rule serialize_subscribe_Some)
  from parse_written [OF s(1)] obtain reqs where "parse_requests filters = Some reqs" "requests ts reqs"
    by blast
  then have "broker_subscribe (write_uint_16 i @ filters) = Some (i, reqs)"
    by (simp add: write_uint_16_def join_bytes)
  with s \<open>requests ts reqs\<close> show ?thesis by blast
qed

theorem subscribe_received_witness:
  "\<exists>h body. serialize_subscribe 512 0 9 [(Some (cstr (bytes_of ''a/b'')), 3, 1)] = Some (Inr (frame h body))
     \<and> broker_subscribe body = Some (9, [(bytes_of ''a/b'', 1)])"
proof -
  have s: "serialize_subscribe 512 0 9 [(Some (cstr (bytes_of ''a/b'')), 3, 1)]
      = Some (Inr [130, 8, 0, 9, 0, 3, 97, 47, 98, 1])"
    by code_simp
  from subscribe_received [OF this] obtain h body reqs
    where "[130, 8, 0, 9, 0, 3, 97, 47, 98, 1] = frame h body" "broker_subscribe body = Some (9, reqs)"
      "requests [(Some (cstr (bytes_of ''a/b'')), 3, 1)] reqs"
    by auto
  with s show ?thesis
    by (auto simp: requests_def list_all2_Cons1 cstr_def bytes_of_def mem_read_def)
qed

text \<open>An acknowledgement the client writes is read back as its type, dup flag and packet identifier,
  and the unsubscribe path accepts it exactly when it is an UNSUBACK.\<close>

theorem ack_roundtrip:
  assumes "serialize_ack cap t dup i = Some (Inr bs)" and "dup \<le> 1" and "4 \<le> rxBufLen"
  shows "deserialize_ack (bs @ rest) rxBufLen = Some (Inr (msg_code t, dup, i))
    \<and> deserialize_unsuback (bs @ rest) rxBufLen
        = Some (if t = UNSUBACK then Inr i else Inl FAILURE)"
proof -
  from assms(1) obtain h where h: "init_header t (if t = PUBREL then QOS1 else QOS0) dup 0 = Inr h"
    "bs = h # write_len_to_buffer 2 @ write_uint_16 i"
    by (auto simp: serialize_ack_def emit_Some split: if_splits sum.splits)
  have bs: "bs = frame h (write_uint_16 i)" by (simp add: h(2) frame_def)
  from init_header_fields [OF h(1)] assms(2)
  have f: "header_type h = msg_code t" "header_dup h = dup" by (auto split: if_splits)
  have "write_len_to_buffer 2 = [2]" by (simp add: write_len_last)
  then have bs2: "bs @ rest = [h, 2] @ write_uint_16 i @ rest" by (simp add: h(2))
  have dec: "decode_remaining_length_from_buffer (drop 1 (bs @ rest)) = Some (Inr (2, 1))"
    using frame_decode [of "write_uint_16 i" h rest] \<open>write_len_to_buffer 2 = [2]\<close> by (simp add: bs)
  have "read_uint16_t (bs @ rest) 2 = Some i"
    unfolding bs2 by (rule read_uint16_at) simp
  moreover have "byte_at (bs @ rest) 0 = Some h" by (simp add: bs)
  ultimately have a: "deserialize_ack (bs @ rest) rxBufLen = Some (Inr (msg_code t, dup, i))"
    using assms(3) dec f by (simp add: deserialize_ack_def not_less [symmetric] numeral_2_eq_2)
  moreover have "msg_code t = msg_code UNSUBACK \<longleftrightarrow> t = UNSUBACK" by (cases t) simp_all
  ultimately show ?thesis by (simp add: deserialize_unsuback_def)
qed

theorem ack_roundtrip_witness:
  "deserialize_ack [64, 2, 1, 2] 512 = Some (Inr (4, 0, 258))"
proof -
  have "serialize_ack 512 PUBACK 0 258 = Some (Inr [64, 2, 1, 2])" by code_simp
  from ack_roundtrip [OF this, of 512 "[]"] show ?thesis by simp
qed

lemma suback_loop_reads:
  assumes "length granted \<le> maxc + 1" and "maxc + 1 \<le> slots"
  shows "suback_loop maxc slots (pre @ codes @ rest) (length pre) (length pre + length codes) granted
    = (if length granted + length codes \<le> maxc + 1 then Some (Inr (granted @ map ucast codes))
       else Some (Inl FAILURE))"
  using assms
proof (induction codes arbitrary: pre granted)
  case Nil
  then show ?case by (simp add: suback_loop.simps)
next
  case (Cons c codes)
  show ?case
  proof (cases "maxc < length granted")
    case True
    then show ?thesis by (simp add: suback_loop.simps)
  next
    case False
    have b: "byte_at (pre @ c # codes @ rest) (length pre) = Some c"
      using byte_at_append [of pre "c # codes @ rest" 0] by simp
    have "suback_loop maxc slots (pre @ (c # codes) @ rest) (length pre) (length pre + length (c # codes)) granted
        = suback_loop maxc slots ((pre @ [c]) @ codes @ rest) (length (pre @ [c]))
            (length (pre @ [c]) + length codes) (granted @ [ucast c])"
      using False Cons.prems b by (subst suback_loop.simps) simp
    also have "\<dots> = (if length (granted @ [ucast c]) + length codes \<le> maxc + 1
        then Some (Inr ((granted @ [ucast c]) @ map ucast codes)) else Some (Inl FAILURE))"
      using False Cons.prems by (intro Cons.IH) auto
    finally show ?thesis by simp
  qed
qed

text \<open>A SUBACK is accepted up to one return code more than the caller allows; with an array
  that has a slot to spare it is never written out of bounds.\<close>

theorem suback_count:
  assumes "header_type h = msg_code SUBACK" and "maxc + 1 \<le> slots" and "length codes < 268435454"
    and "5 \<le> rxBufLen"
  shows "deserialize_suback maxc slots (frame h (write_uint_16 i @ codes) @ rest) rxBufLen
    = Some (if length codes \<le> maxc + 1 then Inr (i, map ucast codes) else Inl FAILURE)"
proof -
  let ?body = "write_uint_16 i @ codes"
  let ?buf = "frame h ?body @ rest"
  have small: "length ?body < 268435456" using assms(3) by simp
  obtain pre where pre: "frame h ?body = pre @ ?body"
    "length pre = 1 + unat (of_nat (length (write_len_to_buffer (of_nat (length ?body)))) :: u32)"
    using frame_position [OF small] by blast
  have buf: "?buf = (pre @ write_uint_16 i) @ codes @ rest" unfolding pre(1) by simp
  have len: "unat (of_nat (length ?body) :: u32) = length ?body" using small by (rule unat_of_nat_small)
  have id: "read_uint16_t ?buf (length pre) = Some i"
    unfolding pre(1) using read_write_uint_16 [of pre i "codes @ rest"] by simp
  have loop: "suback_loop maxc slots ?buf (length pre + 2) (length pre + length ?body) []
      = Some (if length codes \<le> maxc + 1 then Inr (map ucast codes) else Inl FAILURE)"
    using suback_loop_reads [of "[]" maxc slots "pre @ write_uint_16 i" codes rest] assms(2)
    unfolding buf by (simp add: add.assoc)
  have two: "\<not> of_nat (length ?body) < (2 :: u32)"
    unfolding word_less_nat_alt len by simp
  show ?thesis
    using assms(1,4) frame_decode [OF small, of h rest] id loop two len
    by (simp only: deserialize_suback_def byte_at_frame pre(2) [symmetric] Let_def not_less [symmetric]
        Option.bind.simps sum.case prod.case if_False simp_thms) (simp split: if_splits)
qed

theorem suback_count_witness:
  "deserialize_suback 1 3 [144, 4, 0, 5, 0, 128] 512 = Some (Inr (5, [0, 128]))"
proof -
  have "frame 144 (write_uint_16 5 @ [0, 128]) = [144, 4, 0, 5, 0, 128]" by code_simp
  moreover have "header_type 144 = msg_code SUBACK" by code_simp
  ultimately show ?thesis
    using suback_count [of 144 1 3 "[0, 128]" 512 5 "[]"] by simp
qed

lemma unat_minus_one_u32: "unat (- 1 :: u32) = 4294967295"
  by (simp add: unsigned_minus_1_eq_mask mask_eq_exp_minus_1)

lemma read_string_bounds:
  "read_string_with_len buf pos e = Some (Inr (a, n)) \<Longrightarrow> a = pos + 2 \<and> a + unat n \<le> e"
  by (auto simp: read_string_with_len_def Option.bind_eq_Some_conv split: if_splits)

lemma deserialize_publish_shape:
  assumes "deserialize_publish buf rxBufLen = Some (Inr v)"
  shows "\<exists>decodedLen readBytesLen. decode_remaining_length_from_buffer (drop 1 buf) = Some (Inr (decodedLen, readBytesLen))
    \<and> in_topic v = 1 + unat readBytesLen + 2
    \<and> in_topic v + unat (in_topicLen v) \<le> 1 + unat readBytesLen + unat decodedLen
    \<and> in_payload v = in_topic v + unat (in_topicLen v) + (if in_qos v = QOS0 then 0 else 2)
    \<and> in_payloadLen v = of_int (int (1 + unat readBytesLen + unat decodedLen) - int (in_payload v))"
proof -
  from assms obtain header where d: "byte_at buf 0 = Some header"
    by (cases "byte_at buf 0") (simp_all add: deserialize_publish_def split: if_splits)
  have "\<exists>dl rb. decode_remaining_length_from_buffer (drop 1 buf) = Some (Inr (dl, rb))"
  proof (cases "decode_remaining_length_from_buffer (drop 1 buf)")
    case None
    with assms d show ?thesis by (simp add: deserialize_publish_def split: if_splits)
  next
    case (Some decoded)
    with assms d show ?thesis by (cases decoded) (auto simp: deserialize_publish_def split: if_splits)
  qed
  then obtain dl rb where dec: "decode_remaining_length_from_buffer (drop 1 buf) = Some (Inr (dl, rb))"
    by blast
  let ?e = "1 + unat rb + unat dl"
  let ?q = "ucast (header_qos header) :: QoS"
  have opened: "read_string_with_len buf (1 + unat rb) ?e \<bind> (\<lambda>topic. case topic of
        Inl rc \<Rightarrow> Some (Inl FAILURE)
      | Inr (name, nameLen) \<Rightarrow> (if ?q \<noteq> QOS0 then do { i \<leftarrow> read_uint16_t buf (name + unat nameLen);
              Some (Some i, name + unat nameLen + 2) } else Some (None, name + unat nameLen))
          \<bind> (\<lambda>idPart. let (packetId, payload) = idPart in
            Some (Inr \<lparr>in_dup = header_dup header, in_qos = ?q, in_retained = header_retain header,
              in_id = packetId, in_topic = name, in_topicLen = nameLen, in_payload = payload,
              in_payloadLen = of_int (int ?e - int payload)\<rparr>))) = Some (Inr v)"
    using assms by (simp only: deserialize_publish_def d dec Let_def Option.bind.simps sum.case prod.case
        split: if_split_asm) simp_all
  then obtain name nameLen where r: "read_string_with_len buf (1 + unat rb) ?e = Some (Inr (name, nameLen))"
    by (cases "read_string_with_len buf (1 + unat rb) ?e") (auto split: sum.splits)
  have "in_topic v = name \<and> in_topicLen v = nameLen \<and> in_qos v = ?q
      \<and> in_payload v = name + unat nameLen + (if in_qos v = QOS0 then 0 else 2)
      \<and> in_payloadLen v = of_int (int ?e - int (in_payload v))"
    using opened unfolding r
    by (cases "?q = QOS0"; cases "read_uint16_t buf (name + unat nameLen)") (auto simp del: of_int_diff)
  moreover have "name = 1 + unat rb + 2" "name + unat nameLen \<le> ?e"
    using read_string_bounds [OF r] by simp_all
  ultimately show ?thesis using dec by auto
qed

text \<open>(C33) In a received publish the topic lies inside the packet, and so does the payload, unless the
  packet has a quality of service and no room for its packet identifier: then the payload length
  wraps around to nearly four gigabytes.\<close>

theorem received_publish_bounds:
  assumes "deserialize_publish buf rxBufLen = Some (Inr v)"
    and "decode_remaining_length_from_buffer (drop 1 buf) = Some (Inr (decodedLen, readBytesLen))"
  shows "in_topic v + unat (in_topicLen v) \<le> 1 + unat readBytesLen + unat decodedLen
    \<and> (if in_payload v \<le> 1 + unat readBytesLen + unat decodedLen
       then in_payload v + unat (in_payloadLen v) = 1 + unat readBytesLen + unat decodedLen
       else in_qos v \<noteq> QOS0 \<and> 4294967294 \<le> in_payloadLen v)"
proof -
  let ?e = "1 + unat readBytesLen + unat decodedLen"
  from deserialize_publish_shape [OF assms(1)] assms(2)
  have s: "in_topic v = 1 + unat readBytesLen + 2" "in_topic v + unat (in_topicLen v) \<le> ?e"
    "in_payload v = in_topic v + unat (in_topicLen v) + (if in_qos v = QOS0 then 0 else 2)"
    "in_payloadLen v = of_int (int ?e - int (in_payload v))"
    by auto
  have dl: "unat decodedLen < 4294967296" by (rule u32_less)
  show ?thesis
  proof (cases "in_payload v \<le> ?e")
    case True
    then have "int ?e - int (in_payload v) = int (?e - in_payload v)" by simp
    then have "in_payloadLen v = of_nat (?e - in_payload v)" using s(4) by simp
    moreover have "?e - in_payload v < 2 ^ 32" using s(1,3) dl by simp
    ultimately have "unat (in_payloadLen v) = ?e - in_payload v" by (simp add: unat_of_nat_u32)
    with True s(2) show ?thesis by simp
  next
    case False
    with s(2,3) have q: "in_qos v \<noteq> QOS0" and d: "in_payload v = ?e + 1 \<or> in_payload v = ?e + 2"
      by (auto split: if_splits)
    then have "int ?e - int (in_payload v) = -1 \<or> int ?e - int (in_payload v) = -2" by auto
    then have "in_payloadLen v = of_int (- 1) \<or> in_payloadLen v = of_int (- 2)" unfolding s(4) by metis
    then have "4294967294 \<le> in_payloadLen v" by (elim disjE) (simp_all add: word_le_nat_alt unat_minus_one_u32)
    with False s(2) q show ?thesis by simp
  qed
qed

theorem received_publish_bounds_witness:
  "\<exists>v. deserialize_publish [50, 3, 0, 1, 97, 0, 0, 0] 512 = Some (Inr v) \<and> 4294967294 \<le> in_payloadLen v"
proof -
  have dec: "decode_remaining_length_from_buffer (drop 1 [50, 3, 0, 1, 97, 0, 0, 0]) = Some (Inr (3, 1))"
    by code_simp
  have "(case deserialize_publish [50, 3, 0, 1, 97, 0, 0, 0] 512 of
      Some (Inr v) \<Rightarrow> in_payload v = 7 | _ \<Rightarrow> False)"
    by code_simp
  then obtain v where "deserialize_publish [50, 3, 0, 1, 97, 0, 0, 0] 512 = Some (Inr v)" "in_payload v = 7"
    by (auto split: option.splits sum.splits)
  with received_publish_bounds [OF this(1) dec] show ?thesis by auto
qed

text \<open>The CONNACK the client accepts has exactly two bytes after its length; its return code is
  reported as MQTT names it, but the session-present flag is read from the wrong end of its byte.\<close>

theorem connack_meaning:
  assumes "header_type h = msg_code CONNACK" and "length body < 268435456" and "4 \<le> rxBufLen"
  shows "deserialize_connack (frame h body @ rest) rxBufLen
    = Some (case body of [flags, code] \<Rightarrow> Inr (drop_bit 7 flags, connack_result code)
            | _ \<Rightarrow> Inl MQTT_DECODE_REMAINING_LENGTH_ERROR)
    \<and> (connack_result code = MQTT_CONNACK_CONNECTION_ACCEPTED \<longleftrightarrow> code = 0)
    \<and> connack_session_present 1 = 0"
proof -
  obtain pre where pre: "frame h body = pre @ body"
    "length pre = 1 + unat (of_nat (length (write_len_to_buffer (of_nat (length body)))) :: u32)"
    using frame_position [OF assms(2)] by blast
  have two: "of_nat (length body) = (2 :: u32) \<longleftrightarrow> length body = 2"
    using unat_of_nat_small [OF assms(2)] by (auto simp: word_unat_eq_iff)
  have d: "deserialize_connack (frame h body @ rest) rxBufLen
      = (if length body \<noteq> 2 then Some (Inl MQTT_DECODE_REMAINING_LENGTH_ERROR)
         else do {
           flags \<leftarrow> byte_at (frame h body @ rest) (length pre);
           code \<leftarrow> byte_at (frame h body @ rest) (length pre + 1);
           Some (Inr (connack_session_present flags, connack_result code))
         })"
    using assms(1,3) frame_decode [OF assms(2), of h rest]
    by (simp only: deserialize_connack_def byte_at_frame pre(2) [symmetric] Let_def not_less [symmetric]
        Option.bind.simps sum.case prod.case if_False simp_thms two)
  have "deserialize_connack (frame h body @ rest) rxBufLen
    = Some (case body of [flags, code] \<Rightarrow> Inr (drop_bit 7 flags, connack_result code)
            | _ \<Rightarrow> Inl MQTT_DECODE_REMAINING_LENGTH_ERROR)"
  proof (cases "length body = 2")
    case True
    then obtain x y where b: "body = [x, y]" by (auto simp: length_Suc_conv numeral_2_eq_2)
    have "byte_at (frame h body @ rest) (length pre) = Some x"
      "byte_at (frame h body @ rest) (length pre + 1) = Some y"
      unfolding pre(1) using byte_at_append [of pre "body @ rest" 0] byte_at_append [of pre "body @ rest" 1]
      by (simp_all add: b byte_at_def)
    with d True show ?thesis by (simp add: b connack_session_present_def)
  next
    case False
    with d show ?thesis by (auto split: list.splits)
  qed
  then show ?thesis by (simp add: connack_result_def connack_session_present_def)
qed

theorem connack_meaning_witness:
  "deserialize_connack [32, 2, 1, 5] 512 = Some (Inr (0, MQTT_CONNACK_NOT_AUTHORIZED_ERROR))"
proof -
  have "frame 32 [1, 5] = [32, 2, 1, 5]" by code_simp
  moreover have "header_type 32 = msg_code CONNACK" by code_simp
  ultimately show ?thesis
    using connack_meaning [of 32 "[1, 5]" 512 "[]" 5] by (simp add: connack_result_def)
qed

text \<open>The length computed for a CONNECT packet is the number of bytes behind its fixed header, so a
  packet that passes the check is written inside the transmit buffer and framed.\<close>

theorem connect_packet_framed:
  assumes "serialize_connect cap p = Some (Inr bs)"
  shows "\<exists>h body. bs = frame h body \<and> length bs \<le> unat cap
    \<and> of_nat (length body) = get_connect_packet_length p
    \<and> take 10 body = [0, 4, 77, 81, 84, 84, 4, connect_flags p]
                     @ write_uint_16 (keepAliveIntervalInSec p)"
proof -
  from assms have c: "\<not> (pClientID p = None \<longleftrightarrow> clientIDLen p \<noteq> 0)" "MQTTVersion p = 4"
    by (auto simp: serialize_connect_def MQTT_3_1_1_def split: if_splits)
  have proto: "write_utf8_string (Some (bytes_of ''MQTT'')) 4 = Some [0, 4, 77, 81, 84, 84]"
    by code_simp
  from assms obtain h cid wp user pass where r:
    "(if pClientID p = None then Some (write_uint_16 0)
      else write_utf8_string (pClientID p) (clientIDLen p)) = Some cid"
    "(if isWillMsgPresent p then do {
        t \<leftarrow> write_utf8_string (will_topic (will p)) (will_topicLen (will p));
        m \<leftarrow> write_utf8_string (will_message (will p)) (will_msgLen (will p));
        Some (t @ m) } else Some []) = Some wp"
    "(if pUsername p \<noteq> None then write_utf8_string (pUsername p) (usernameLen p) else Some []) = Some user"
    "(if pPassword p \<noteq> None then write_utf8_string (pPassword p) (passwordLen p) else Some []) = Some pass"
    "emit cap (h # write_len_to_buffer (get_connect_packet_length p) @ [0, 4, 77, 81, 84, 84]
       @ [MQTTVersion p, connect_flags p] @ write_uint_16 (keepAliveIntervalInSec p)
       @ cid @ wp @ user @ pass) = Some (Inr bs)"
    unfolding serialize_connect_def proto Let_def
    by (auto simp: Option.bind_eq_Some_conv split: sum.splits if_splits)
  define body where "body = [0, 4, 77, 81, 84, 84] @ [MQTTVersion p, connect_flags p]
    @ write_uint_16 (keepAliveIntervalInSec p) @ cid @ wp @ user @ pass"
  have "of_nat (length cid) = (ucast (clientIDLen p) + 2 :: u32)"
    using r(1) c(1) by (auto simp: length_write_utf8_string split: if_splits)
  moreover have "of_nat (length wp) = (if isWillMsgPresent p
      then ucast (will_topicLen (will p)) + 2 + ucast (will_msgLen (will p)) + 2 else 0 :: u32)"
    using r(2) by (auto simp: length_write_utf8_string Option.bind_eq_Some_conv split: if_splits)
  moreover have "of_nat (length user) = (if pUsername p \<noteq> None then ucast (usernameLen p) + 2 else 0 :: u32)"
    using r(3) by (auto simp: length_write_utf8_string split: if_splits)
  moreover have "of_nat (length pass) = (if pPassword p \<noteq> None then ucast (passwordLen p) + 2 else 0 :: u32)"
    using r(4) by (auto simp: length_write_utf8_string split: if_splits)
  ultimately have len: "get_connect_packet_length p = of_nat (length body)"
    unfolding get_connect_packet_length_def body_def by (simp add: add_ac)
  have "emit cap (h # write_len_to_buffer (get_connect_packet_length p) @ body) = Some (Inr bs)"
    using r(5) by (simp add: body_def)
  from emit_frame [OF this len] have "bs = frame h body" "length bs \<le> unat cap" by auto
  moreover have "take 10 body = [0, 4, 77, 81, 84, 84, 4, connect_flags p] @ write_uint_16 (keepAliveIntervalInSec p)"
    by (simp add: body_def c(2) write_uint_16_def)
  ultimately show ?thesis using len by auto
qed

definition sample_connect :: IoT_Client_Connect_Params where
  "sample_connect =
     \<lparr>MQTTVersion = 4, pClientID = Some (cstr (bytes_of ''esp'')), clientIDLen = 3,
      keepAliveIntervalInSec = 10, isCleanSession = True, isWillMsgPresent = False,
      will = \<lparr>will_topic = None, will_topicLen = 0, will_message = None, will_msgLen = 0,
              will_isRetained = False, will_qos = 0\<rparr>,
      pUsername = Some (cstr (bytes_of ''u'')), usernameLen = 1, pPassword = None, passwordLen = 0\<rparr>"

theorem connect_packet_framed_witness:
  "\<exists>h body. serialize_connect 512 sample_connect = Some (Inr (frame h body))
     \<and> of_nat (length body) = get_connect_packet_length sample_connect"
proof -
  have "serialize_connect 512 sample_connect
      = Some (Inr [16, 18, 0, 4, 77, 81, 84, 84, 4, 130, 0, 10, 0, 3, 101, 115, 112, 0, 1, 117])"
    by code_simp
  with connect_packet_framed [OF this] show ?thesis by auto
qed

end
