(* ===== verification/MqttTopic.thy ===== *)
theory MqttTopic
  imports MqttCodec
begin

text \<open>
  Which subscription a message belongs to: \<open>_aws_iot_mqtt_internal_is_topic_matched\<close> on topic
  filters with wildcards, against the rules of MQTT on topic levels.
\<close>

abbreviation SLASH :: u8 where "SLASH \<equiv> 47"
abbreviation PLUS :: u8 where "PLUS \<equiv> 43"
abbreviation HASH :: u8 where "HASH \<equiv> 35"

text \<open>
  The arguments are the rests of the filter and of the name. Leaving the loop by one of its
  \<open>break\<close>s leaves a rest of the name, so the result is false. A \<open>+\<close> skips to the next
  separator, a \<open>#\<close> to the end.
\<close>

fun topic_loop :: "u8 list \<Rightarrow> u8 list \<Rightarrow> bool" where
  "topic_loop [] [] = True"
| "topic_loop [] (n # ns) = False"
| "topic_loop (f # fs) [] = False"
| "topic_loop (f # fs) (n # ns) =
     (if n = SLASH \<and> f \<noteq> SLASH then False
      else if f \<noteq> PLUS \<and> f \<noteq> HASH \<and> f \<noteq> n then False
      else if f = PLUS then topic_loop fs (dropWhile (\<lambda>c. c \<noteq> SLASH) ns)
      else if f = HASH then topic_loop fs []
      else topic_loop fs ns)"

text \<open>The string a C pointer refers to; without a terminator reading it is undefined.\<close>

definition c_string :: "u8 list \<Rightarrow> u8 list option" where
  "c_string obj = (if 0 \<in> set obj then Some (takeWhile (\<lambda>c. c \<noteq> 0) obj) else None)"

definition is_topic_matched :: "pointer \<Rightarrow> u8 list option \<Rightarrow> bool option" where
  "is_topic_matched pTopicFilter name =
     (case (pTopicFilter, name) of
        (Some obj, Some n) \<Rightarrow> do { f \<leftarrow> c_string obj; Some (topic_loop f n) }
      | _ \<Rightarrow> Some False)"

subsection \<open>Topic levels\<close>

function levels :: "u8 list \<Rightarrow> u8 list list" where
  "levels t = takeWhile (\<lambda>c. c \<noteq> SLASH) t
     # (case dropWhile (\<lambda>c. c \<noteq> SLASH) t of [] \<Rightarrow> [] | _ # rest \<Rightarrow> levels rest)"
  by auto
termination
  by (relation "measure length")
     (simp_all, metis Suc_le_eq length_Cons length_dropWhile_le)

declare levels.simps [simp del]

fun match_levels :: "u8 list list \<Rightarrow> u8 list list \<Rightarrow> bool" where
  "match_levels [] [] = True"
| "match_levels [] (l # ls) = False"
| "match_levels (f # fs) [] = False"
| "match_levels (f # fs) (l # ls) =
     (if f = [HASH] then True else (f = [PLUS] \<or> f = l) \<and> match_levels fs ls)"

text \<open>A wildcard fills its level and \<open>#\<close> is the last level.\<close>

fun valid_filter :: "u8 list list \<Rightarrow> bool" where
  "valid_filter [] = True"
| "valid_filter (f # fs) =
     ((f = [HASH] \<and> fs = [] \<or> f = [PLUS] \<or> (HASH \<notin> set f \<and> PLUS \<notin> set f)) \<and> valid_filter fs)"

abbreviation separated :: "u8 list \<Rightarrow> bool" where
  "separated t \<equiv> t = [] \<or> hd t = SLASH"

lemma literal_level:
  assumes "SLASH \<notin> set f" and "HASH \<notin> set f" and "PLUS \<notin> set f" and "SLASH \<notin> set l"
    and "separated F" and "separated N"
  shows "topic_loop (f @ F) (l @ N) \<longleftrightarrow> f = l \<and> topic_loop F N"
  using assms
proof (induction f arbitrary: l)
  case Nil
  then show ?case by (cases l; cases F) auto
next
  case (Cons c f)
  then show ?case by (cases l; cases N) auto
qed

lemma skip_level:
  "SLASH \<notin> set l \<Longrightarrow> separated N \<Longrightarrow> dropWhile (\<lambda>c. c \<noteq> SLASH) (l @ N) = N"
  by (induction l) (cases N, auto)

lemma plus_level:
  assumes "SLASH \<notin> set l" and "separated N" and "l \<noteq> []"
  shows "topic_loop (PLUS # F) (l @ N) \<longleftrightarrow> topic_loop F N"
  using assms skip_level [of "tl l" N] by (cases l) auto

lemma hash_level:
  assumes "SLASH \<notin> set l" and "l \<noteq> []"
  shows "topic_loop [HASH] (l @ N)"
  using assms by (cases l) auto

lemma slash_both: "topic_loop (SLASH # F) (SLASH # N) \<longleftrightarrow> topic_loop F N"
  by simp

text \<open>A topic is its first level, then nothing or a separator and the other levels.\<close>

lemma levels_split:
  obtains l N where "t = l @ N" "SLASH \<notin> set l" "separated N"
    "levels t = l # (case N of [] \<Rightarrow> [] | _ # rest \<Rightarrow> levels rest)"
proof (rule that [of "takeWhile (\<lambda>c. c \<noteq> SLASH) t" "dropWhile (\<lambda>c. c \<noteq> SLASH) t"])
  show "SLASH \<notin> set (takeWhile (\<lambda>c. c \<noteq> SLASH) t)" by (auto dest: set_takeWhileD)
  show "separated (dropWhile (\<lambda>c. c \<noteq> SLASH) t)"
    using hd_dropWhile [of "\<lambda>c. c \<noteq> SLASH" t] by auto
  show "levels t = takeWhile (\<lambda>c. c \<noteq> SLASH) t
      # (case dropWhile (\<lambda>c. c \<noteq> SLASH) t of [] \<Rightarrow> [] | _ # rest \<Rightarrow> levels rest)"
    by (rule levels.simps)
qed simp

lemma levels_not_Nil [simp]: "levels t \<noteq> []"
  by (simp add: levels.simps [of t])

lemma topic_loop_levels:
  assumes "valid_filter (levels f)" and "[] \<notin> set (levels n)"
  shows "topic_loop f n \<longleftrightarrow> match_levels (levels f) (levels n)"
  using assms
proof (induction "length f" arbitrary: f n rule: less_induct)
  case less
  obtain a F where f: "f = a @ F" "SLASH \<notin> set a" "separated F"
    "levels f = a # (case F of [] \<Rightarrow> [] | _ # rest \<Rightarrow> levels rest)"
    by (rule levels_split [of f])
  obtain l N where n: "n = l @ N" "SLASH \<notin> set l" "separated N"
    "levels n = l # (case N of [] \<Rightarrow> [] | _ # rest \<Rightarrow> levels rest)"
    by (rule levels_split [of n])
  have l: "l \<noteq> []" using less.prems(2) n(4) by auto
  have rest: "topic_loop F N \<longleftrightarrow> match_levels (case F of [] \<Rightarrow> [] | _ # r \<Rightarrow> levels r)
      (case N of [] \<Rightarrow> [] | _ # r \<Rightarrow> levels r)"
  proof (cases F)
    case Nil
    then show ?thesis using n(3) by (cases N; cases "levels (tl N)") auto
  next
    case F: (Cons c F')
    show ?thesis
    proof (cases N)
      case Nil
      then show ?thesis using F by (cases "levels F'") auto
    next
      case N: (Cons d N')
      have "topic_loop F' N' \<longleftrightarrow> match_levels (levels F') (levels N')"
        using less.prems f(1,4) n(4) F N by (intro less.hyps) auto
      then show ?thesis using F N f(3) n(3) by simp
    qed
  qed
  from less.prems(1) f(4) consider (hash) "a = [HASH]" "F = []" | (plus) "a = [PLUS]"
    | (literal) "HASH \<notin> set a" "PLUS \<notin> set a"
    by (cases F) auto
  then show ?case
  proof cases
    case hash
    then show ?thesis using hash_level [OF n(2) l] f n by simp
  next
    case plus
    then show ?thesis using plus_level [OF n(2,3) l] f(1,4) n(1,4) rest by simp
  next
    case literal
    then have "a \<noteq> [HASH]" "a \<noteq> [PLUS]" by auto
    then show ?thesis
      using literal_level [OF f(2) literal n(2) f(3) n(3)] f(1,4) n(1,4) rest by simp
  qed
qed

subsection \<open>Properties\<close>

text \<open>(C16) For a well-formed topic filter and a name without empty levels, a message is delivered exactly
  when the levels match by the rules of MQTT, \<open>#\<close> standing for one or more levels.\<close>

theorem topic_matching:
  assumes "c_string obj = Some f" and "valid_filter (levels f)" and "[] \<notin> set (levels n)"
  shows "is_topic_matched (Some obj) (Some n) = Some (match_levels (levels f) (levels n))"
  using assms topic_loop_levels by (simp add: is_topic_matched_def)

theorem topic_matching_witness:
  "is_topic_matched (Some (cstr (bytes_of ''a/+/c''))) (Some (bytes_of ''a/b/c'')) = Some True
   \<and> is_topic_matched (Some (cstr (bytes_of ''a/+/c''))) (Some (bytes_of ''a/b/d'')) = Some False"
proof -
  have f: "c_string (cstr (bytes_of ''a/+/c'')) = Some (bytes_of ''a/+/c'')"
    "valid_filter (levels (bytes_of ''a/+/c''))"
    and n: "[] \<notin> set (levels (bytes_of ''a/b/c''))" "[] \<notin> set (levels (bytes_of ''a/b/d''))"
    and m: "match_levels (levels (bytes_of ''a/+/c'')) (levels (bytes_of ''a/b/c''))"
    "\<not> match_levels (levels (bytes_of ''a/+/c'')) (levels (bytes_of ''a/b/d''))"
    by code_simp+
  show ?thesis
    using topic_matching [OF f n(1)] topic_matching [OF f n(2)] m by simp
qed

text \<open>Where the code departs from MQTT 3.1.1, section 4.7: an empty level is matched by no wildcard, and
  \<open>a/#\<close> does not stand for its parent \<open>a\<close>.\<close>

lemma empty_levels_and_parent_missed:
  "\<not> topic_loop (bytes_of ''a/+'') (bytes_of ''a/'') \<and> \<not> topic_loop (bytes_of ''#'') (bytes_of ''/a'')
   \<and> \<not> topic_loop (bytes_of ''a/#'') (bytes_of ''a'')"
  by code_simp

end
