(* ===== verification/MqttClient.thy ===== *)
theory MqttClient
  imports MqttTopic
begin

text \<open>
  The MQTT client (\<open>aws_iot_mqtt_client.c\<close> and the packet layer of
  \<open>aws_iot_mqtt_client_common_internal.c\<close>): the client structure, its life cycle, sending and
  receiving packets, and the delivery of messages to the application.

  The client calls out through function pointers and platform routines: the network stack, the
  tick counter, the mutexes, the application's handlers. They are the fields of a record, over
  an arbitrary world \<open>'w\<close>; a handler is called by its number, where the code stores its address.
  Operations run on the client, the timer their caller passed by reference, and the world.
  \<^term>\<open>None\<close> is behaviour C does not define, or a loop that does not end. The client pointer is
  never null: a call with a null pointer returns an error and touches nothing.
\<close>

subsection \<open>Data\<close>

datatype ClientState =
    CLIENT_STATE_INVALID | CLIENT_STATE_INITIALIZED | CLIENT_STATE_CONNECTING
  | CLIENT_STATE_CONNECTED_IDLE | CLIENT_STATE_CONNECTED_YIELD_IN_PROGRESS
  | CLIENT_STATE_CONNECTED_PUBLISH_IN_PROGRESS | CLIENT_STATE_CONNECTED_SUBSCRIBE_IN_PROGRESS
  | CLIENT_STATE_CONNECTED_UNSUBSCRIBE_IN_PROGRESS | CLIENT_STATE_CONNECTED_RESUBSCRIBE_IN_PROGRESS
  | CLIENT_STATE_CONNECTED_WAIT_FOR_CB_RETURN | CLIENT_STATE_DISCONNECTING
  | CLIENT_STATE_DISCONNECTED_ERROR | CLIENT_STATE_DISCONNECTED_MANUALLY
  | CLIENT_STATE_PENDING_RECONNECT

definition AWS_IOT_MQTT_NUM_SUBSCRIBE_HANDLERS :: nat where
  "AWS_IOT_MQTT_NUM_SUBSCRIBE_HANDLERS = 5"

definition AWS_IOT_MQTT_TX_BUF_LEN :: u32 where
  "AWS_IOT_MQTT_TX_BUF_LEN = 512"

definition AWS_IOT_MQTT_RX_BUF_LEN :: u32 where
  "AWS_IOT_MQTT_RX_BUF_LEN = 512"

definition MAX_PACKET_ID :: u16 where
  "MAX_PACKET_ID = 65535"

record MessageHandlers =
  topicName :: pointer
  topicNameLen :: u16
  resubscribed :: bool
  handler_qos :: QoS
  pApplicationHandler :: "nat option"
  pApplicationHandlerData :: nat

record client =
  pingReqTimer :: Timer
  pingRespTimer :: Timer
  reconnectDelayTimer :: Timer
  clientState :: ClientState
  isPingOutstanding :: bool
  isAutoReconnectEnabled :: bool
  nextPacketId :: u16
  packetTimeoutMs :: u32
  commandTimeoutMs :: u32
  keepAliveInterval :: u16
  currentReconnectWaitInterval :: u32
  counterNetworkDisconnected :: u32
  writeBufSize :: u32
  readBufSize :: u32
  readBufIndex :: nat
  writeBuf :: "u8 list"
  readBuf :: "u8 list"
  isBlockOnThreadLockEnabled :: bool
  options :: IoT_Client_Connect_Params
  messageHandlers :: "MessageHandlers list"
  disconnectHandler :: "nat option"
  disconnectHandlerData :: nat

record IoT_Client_Init_Params =
  enableAutoReconnect :: bool
  pHostURL :: pointer
  port :: u16
  pRootCALocation :: pointer
  pDeviceCertLocation :: pointer
  pDevicePrivateKeyLocation :: pointer
  mqttPacketTimeout_ms :: u32
  mqttCommandTimeout_ms :: u32
  tlsHandshakeTimeout_ms :: u32
  isSSLHostnameVerify :: bool
  init_disconnectHandler :: "nat option"
  init_disconnectHandlerData :: nat
  init_isBlockOnThreadLockEnabled :: bool

datatype IoT_Mutex = state_change_mutex | tls_read_mutex | tls_write_mutex

record 'w st =
  cl :: client
  tm :: Timer
  wd :: 'w

text \<open>
  The network \<open>read\<close> stores bytes at the pointer it is given and sets the number of bytes read
  unless it leaves it alone (\<^term>\<open>None\<close>); \<open>write\<close> reports how many bytes it took. Both may
  poll the timer they are given, and both may fail to return.
\<close>

record 'w platform =
  get_ticks :: "'w \<Rightarrow> u32 \<times> 'w"
  delay_tick :: "'w \<Rightarrow> 'w"
  mutex_init :: "IoT_Mutex \<Rightarrow> 'w \<Rightarrow> IoT_Error_t \<times> 'w"
  mutex_lock :: "IoT_Mutex \<Rightarrow> 'w \<Rightarrow> IoT_Error_t \<times> 'w"
  mutex_trylock :: "IoT_Mutex \<Rightarrow> 'w \<Rightarrow> IoT_Error_t \<times> 'w"
  mutex_unlock :: "IoT_Mutex \<Rightarrow> 'w \<Rightarrow> IoT_Error_t \<times> 'w"
  mutex_destroy :: "IoT_Mutex \<Rightarrow> 'w \<Rightarrow> IoT_Error_t \<times> 'w"
  net_init :: "IoT_Client_Init_Params \<Rightarrow> 'w \<Rightarrow> IoT_Error_t \<times> 'w"
  net_connect :: "'w \<Rightarrow> IoT_Error_t \<times> 'w"
  net_read :: "nat \<Rightarrow> Timer \<Rightarrow> 'w \<Rightarrow> (IoT_Error_t \<times> u8 list \<times> nat option \<times> Timer \<times> 'w) option"
  net_write :: "u8 list \<Rightarrow> Timer \<Rightarrow> 'w \<Rightarrow> (IoT_Error_t \<times> nat \<times> Timer \<times> 'w) option"
  net_disconnect :: "'w \<Rightarrow> IoT_Error_t \<times> 'w"
  net_is_connected :: "('w \<Rightarrow> IoT_Error_t \<times> 'w) option"
  net_destroy :: "'w \<Rightarrow> IoT_Error_t \<times> 'w"
  message_handler :: "nat \<Rightarrow> nat \<Rightarrow> publish_view \<Rightarrow> 'w st \<Rightarrow> 'w st option"
  disconnect_handler :: "nat \<Rightarrow> nat \<Rightarrow> 'w st \<Rightarrow> 'w st option"

definition upd :: "(client \<Rightarrow> client) \<Rightarrow> 'w st \<Rightarrow> 'w st" where
  "upd f s = s\<lparr>cl := f (cl s)\<rparr>"

lemma upd_simps [simp]:
  "cl (upd f s) = f (cl s)" "tm (upd f s) = tm s" "wd (upd f s) = wd s"
  by (simp_all add: upd_def)

text \<open>A platform routine that only touches the world.\<close>

definition on_world :: "('w \<Rightarrow> 'a \<times> 'w) \<Rightarrow> 'w st \<Rightarrow> 'a \<times> 'w st" where
  "on_world f s = (let (r, w) = f (wd s) in (r, s\<lparr>wd := w\<rparr>))"

definition poll_timer :: "'w platform \<Rightarrow> Timer \<Rightarrow> 'w \<Rightarrow> bool \<times> Timer \<times> 'w" where
  "poll_timer P t w =
     (let (now, w') = get_ticks P w; (e, sleeps, t') = has_timer_expired now t in
      (e, t', if sleeps then delay_tick P w' else w'))"

definition poll_tm :: "'w platform \<Rightarrow> 'w st \<Rightarrow> bool \<times> 'w st" where
  "poll_tm P s = (let (e, t, w) = poll_timer P (tm s) (wd s) in (e, s\<lparr>tm := t, wd := w\<rparr>))"

definition arm_ms :: "'w platform \<Rightarrow> u32 \<Rightarrow> 'w st \<Rightarrow> Timer \<times> 'w st" where
  "arm_ms P ms s = (let (now, s') = on_world (get_ticks P) s in (countdown_ms now ms, s'))"

definition arm_sec :: "'w platform \<Rightarrow> u32 \<Rightarrow> 'w st \<Rightarrow> Timer \<times> 'w st" where
  "arm_sec P sec s = (let (now, s') = on_world (get_ticks P) s in (countdown_sec now sec, s'))"

text \<open>An operation with a timer of its own on the stack.\<close>

definition start_tm :: "'w platform \<Rightarrow> u32 \<Rightarrow> 'w st \<Rightarrow> 'w st" where
  "start_tm P ms s = (let (t, s') = arm_ms P ms s in s'\<lparr>tm := t\<rparr>)"

subsection \<open>Client state\<close>

definition client_lock_mutex :: "'w platform \<Rightarrow> IoT_Mutex \<Rightarrow> 'w st \<Rightarrow> IoT_Error_t \<times> 'w st" where
  "client_lock_mutex P m s =
     (if \<not> isBlockOnThreadLockEnabled (cl s) then on_world (mutex_trylock P m) s
      else on_world (mutex_lock P m) s)"

definition client_unlock_mutex :: "'w platform \<Rightarrow> IoT_Mutex \<Rightarrow> 'w st \<Rightarrow> IoT_Error_t \<times> 'w st" where
  "client_unlock_mutex P m s = on_world (mutex_unlock P m) s"

definition set_client_state ::
  "'w platform \<Rightarrow> ClientState \<Rightarrow> ClientState \<Rightarrow> 'w st \<Rightarrow> IoT_Error_t \<times> 'w st"
where
  "set_client_state P expectedCurrentState newState s =
     (let (rc, s1) = client_lock_mutex P state_change_mutex s in
      if rc \<noteq> SUCCESS then (rc, s1)
      else
        let (rc, s2) =
          (if expectedCurrentState = clientState (cl s1)
           then (SUCCESS, upd (clientState_update (\<lambda>_. newState)) s1)
           else (MQTT_UNEXPECTED_CLIENT_STATE_ERROR, s1));
            (threadRc, s3) = client_unlock_mutex P state_change_mutex s2
        in (if rc = SUCCESS \<and> threadRc \<noteq> SUCCESS then threadRc else rc, s3))"

text \<open>\<open>SDK_METRICS_TEMPLATE\<close> with the version of \<open>aws_iot_version.h\<close>.\<close>

definition pUsernameTemp :: string where
  "pUsernameTemp = ''?SDK=C&Version=3.0.1''"

definition set_connect_params :: "IoT_Client_Connect_Params \<Rightarrow> client \<Rightarrow> client" where
  "set_connect_params p c = c\<lparr>options :=
     p\<lparr>pUsername := Some (cstr (bytes_of pUsernameTemp)), usernameLen := of_nat (length pUsernameTemp)\<rparr>\<rparr>"

definition default_connect_params :: IoT_Client_Connect_Params where
  "default_connect_params =
     \<lparr>MQTTVersion = MQTT_3_1_1, pClientID = None, clientIDLen = 0, keepAliveIntervalInSec = 60,
      isCleanSession = True, isWillMsgPresent = False,
      will = \<lparr>will_topic = None, will_topicLen = 0, will_message = None, will_msgLen = 0,
              will_isRetained = False, will_qos = QOS0\<rparr>,
      pUsername = None, usernameLen = 0, pPassword = None, passwordLen = 0\<rparr>"

definition get_next_packet_id :: "client \<Rightarrow> u16 \<times> client" where
  "get_next_packet_id c =
     (let i = (if nextPacketId c = MAX_PACKET_ID then 1 else nextPacketId c + 1)
      in (i, c\<lparr>nextPacketId := i\<rparr>))"

fun connected_state :: "ClientState \<Rightarrow> bool" where
  "connected_state CLIENT_STATE_CONNECTED_IDLE = True"
| "connected_state CLIENT_STATE_CONNECTED_YIELD_IN_PROGRESS = True"
| "connected_state CLIENT_STATE_CONNECTED_PUBLISH_IN_PROGRESS = True"
| "connected_state CLIENT_STATE_CONNECTED_SUBSCRIBE_IN_PROGRESS = True"
| "connected_state CLIENT_STATE_CONNECTED_UNSUBSCRIBE_IN_PROGRESS = True"
| "connected_state CLIENT_STATE_CONNECTED_RESUBSCRIBE_IN_PROGRESS = True"
| "connected_state CLIENT_STATE_CONNECTED_WAIT_FOR_CB_RETURN = True"
| "connected_state _ = False"

definition is_client_connected :: "client \<Rightarrow> bool" where
  "is_client_connected c = connected_state (clientState c)"

definition autoreconnect_set_status :: "bool \<Rightarrow> client \<Rightarrow> client" where
  "autoreconnect_set_status newStatus c = c\<lparr>isAutoReconnectEnabled := newStatus\<rparr>"

definition set_disconnect_handler :: "nat option \<Rightarrow> nat \<Rightarrow> client \<Rightarrow> IoT_Error_t \<times> client" where
  "set_disconnect_handler h d c =
     (if h = None then (NULL_VALUE_ERROR, c)
      else (SUCCESS, c\<lparr>disconnectHandler := h, disconnectHandlerData := d\<rparr>))"

definition reset_network_disconnected_count :: "client \<Rightarrow> client" where
  "reset_network_disconnected_count c = c\<lparr>counterNetworkDisconnected := 0\<rparr>"

definition flushBuffers :: "client \<Rightarrow> client" where
  "flushBuffers c = c\<lparr>readBufIndex := 0\<rparr>"

subsection \<open>Set-up\<close>

definition cleared_handler :: "MessageHandlers \<Rightarrow> MessageHandlers" where
  "cleared_handler h = h\<lparr>topicName := None, pApplicationHandler := None, pApplicationHandlerData := 0,
                         handler_qos := QOS0\<rparr>"

text \<open>Destroying a mutex on an error path ignores the result.\<close>

definition destroy_mutexes :: "'w platform \<Rightarrow> IoT_Mutex list \<Rightarrow> 'w st \<Rightarrow> 'w st" where
  "destroy_mutexes P ms s = fold (\<lambda>m s. snd (on_world (mutex_destroy P m) s)) ms s"

definition init_mutexes :: "'w platform \<Rightarrow> 'w st \<Rightarrow> IoT_Error_t \<times> 'w st" where
  "init_mutexes P s =
     (let (rc, s1) = on_world (mutex_init P state_change_mutex) s in
      if rc \<noteq> SUCCESS then (rc, s1)
      else let (rc, s2) = on_world (mutex_init P tls_read_mutex) s1 in
      if rc \<noteq> SUCCESS then (rc, destroy_mutexes P [state_change_mutex] s2)
      else let (rc, s3) = on_world (mutex_init P tls_write_mutex) s2 in
      if rc \<noteq> SUCCESS then (rc, destroy_mutexes P [tls_read_mutex, state_change_mutex] s3)
      else (SUCCESS, s3))"

definition aws_iot_mqtt_init :: "'w platform \<Rightarrow> IoT_Client_Init_Params \<Rightarrow> 'w st \<Rightarrow> IoT_Error_t \<times> 'w st" where
  "aws_iot_mqtt_init P p s =
     (if pHostURL p = None \<or> port p = 0 \<or> pRootCALocation p = None \<or> pDevicePrivateKeyLocation p = None
         \<or> pDeviceCertLocation p = None
      then (NULL_VALUE_ERROR, s)
      else
        let s1 = upd (\<lambda>c. set_connect_params default_connect_params (c\<lparr>
              messageHandlers := map cleared_handler (messageHandlers c),
              packetTimeoutMs := mqttPacketTimeout_ms p,
              commandTimeoutMs := mqttCommandTimeout_ms p,
              writeBufSize := AWS_IOT_MQTT_TX_BUF_LEN,
              readBufSize := AWS_IOT_MQTT_RX_BUF_LEN,
              counterNetworkDisconnected := 0,
              disconnectHandler := init_disconnectHandler p,
              disconnectHandlerData := init_disconnectHandlerData p,
              nextPacketId := 1\<rparr>)) s;
            s2 = upd (isBlockOnThreadLockEnabled_update (\<lambda>_. init_isBlockOnThreadLockEnabled p)) s1;
            (rc, s3) = init_mutexes P s2
        in if rc \<noteq> SUCCESS then (rc, s3)
        else
          let s4 = upd (\<lambda>c. c\<lparr>isPingOutstanding := False,
                               isAutoReconnectEnabled := enableAutoReconnect p\<rparr>) s3;
              (rc, s5) = on_world (net_init P p) s4
          in if rc \<noteq> SUCCESS
             then (rc, upd (clientState_update (\<lambda>_. CLIENT_STATE_INVALID))
                        (destroy_mutexes P [tls_read_mutex, state_change_mutex, tls_write_mutex] s5))
             else (SUCCESS, upd (\<lambda>c. c\<lparr>pingReqTimer := init_timer, pingRespTimer := init_timer,
                      reconnectDelayTimer := init_timer, clientState := CLIENT_STATE_INITIALIZED\<rparr>) s5))"

text \<open>The first failure decides the result; all three mutexes are destroyed in any case.\<close>

definition aws_iot_mqtt_free :: "'w platform \<Rightarrow> 'w st \<Rightarrow> IoT_Error_t \<times> 'w st" where
  "aws_iot_mqtt_free P s =
     (let (rc1, s1) = on_world (mutex_destroy P state_change_mutex) s;
          (rc2, s2) = on_world (mutex_destroy P tls_read_mutex) s1;
          (rc3, s3) = on_world (mutex_destroy P tls_write_mutex) s2
      in (if rc1 \<noteq> SUCCESS then rc1 else if rc2 \<noteq> SUCCESS then rc2 else rc3, s3))"

subsection \<open>Sending\<close>

text \<open>The loop ends when everything is sent, the timer has expired, or the network reports an
  error; it returns the number of bytes sent and the last result code.\<close>

partial_function (option) send_loop ::
  "'w platform \<Rightarrow> nat \<Rightarrow> nat \<Rightarrow> IoT_Error_t \<Rightarrow> 'w st \<Rightarrow> (nat \<times> IoT_Error_t \<times> 'w st) option"
where
  "send_loop P len sent rc s =
     (if sent < len then
        let (e, s1) = poll_tm P s in
        if e then Some (sent, rc, s1)
        else do {
          (rc', n, t, w) \<leftarrow> net_write P (take (len - sent) (drop sent (writeBuf (cl s1)))) (tm s1) (wd s1);
          let s2 = s1\<lparr>tm := t, wd := w\<rparr> in
          if rc' \<noteq> SUCCESS then Some (sent, rc', s2) else send_loop P len (sent + n) rc' s2
        }
      else Some (sent, rc, s))"

definition send_packet :: "'w platform \<Rightarrow> nat \<Rightarrow> 'w st \<Rightarrow> (IoT_Error_t \<times> 'w st) option" where
  "send_packet P len s =
     (if unat (writeBufSize (cl s)) \<le> len then Some (MQTT_TX_BUFFER_TOO_SHORT_ERROR, s)
      else
        let (rc, s1) = client_lock_mutex P tls_write_mutex s in
        if rc \<noteq> SUCCESS then Some (rc, s1)
        else do {
          (sent, rc, s2) \<leftarrow> send_loop P len 0 rc s1;
          let (rc, s3) = client_unlock_mutex P tls_write_mutex s2 in
          if rc \<noteq> SUCCESS then Some (rc, s3)
          else if sent = len then Some (SUCCESS, s3)
          else Some (rc, s3)
        })"

text \<open>A serialized packet goes to the front of the transmit buffer.\<close>

definition put_packet :: "u8 list \<Rightarrow> client \<Rightarrow> client" where
  "put_packet bs c = c\<lparr>writeBuf := bs @ drop (length bs) (writeBuf c)\<rparr>"

subsection \<open>Receiving\<close>

text \<open>Bytes the network stored behind the pointer it was given, here a position of \<open>readBuf\<close>.\<close>

definition store_bytes :: "nat \<Rightarrow> nat \<Rightarrow> u8 list \<Rightarrow> client \<Rightarrow> client option" where
  "store_bytes pos wanted bs c =
     (if length bs \<le> wanted \<and> pos + length bs \<le> length (readBuf c)
      then Some (c\<lparr>readBuf := take pos (readBuf c) @ bs @ drop (pos + length bs) (readBuf c)\<rparr>)
      else None)"

text \<open>The result code and \<open>*read_len\<close>.\<close>

definition readWrapper :: "'w platform \<Rightarrow> nat \<Rightarrow> nat \<Rightarrow> 'w st \<Rightarrow> (IoT_Error_t \<times> int \<times> 'w st) option" where
  "readWrapper P offset wanted s =
     (let byteToRead = int (offset + wanted) - int (readBufIndex (cl s)) in
      if 0 < byteToRead then
        do {
          (rc, bs, byteRead, t, w) \<leftarrow> net_read P (nat byteToRead) (tm s) (wd s);
          c \<leftarrow> store_bytes (readBufIndex (cl s)) (nat byteToRead) bs (cl s);
          let c' = c\<lparr>readBufIndex := readBufIndex c + (case byteRead of None \<Rightarrow> 0 | Some k \<Rightarrow> k)\<rparr>;
              byteToRead' = int (offset + wanted) - int (readBufIndex c')
          in Some (rc, int wanted - byteToRead', s\<lparr>cl := c', tm := t, wd := w\<rparr>)
        }
      else Some (SUCCESS, int wanted, s))"

text \<open>The offset behind the length field and the remaining length.\<close>

function remaining_len_loop ::
  "'w platform \<Rightarrow> nat \<Rightarrow> u32 \<Rightarrow> u32 \<Rightarrow> 'w st \<Rightarrow> ((IoT_Error_t + nat \<times> u32) \<times> 'w st) option"
where
  "remaining_len_loop P len multiplier rem_len s =
     (if 4 < len + 1 then Some (Inl MQTT_DECODE_REMAINING_LENGTH_ERROR, s)
      else do {
        (rc, read_len, s) \<leftarrow> readWrapper P (len + 1) 1 s;
        if rc \<noteq> SUCCESS then Some (Inl rc, s)
        else do {
          b \<leftarrow> byte_at (readBuf (cl s)) (len + 1);
          let rem_len' = rem_len + ucast (b AND 127) * multiplier in
          if b AND 128 \<noteq> 0 then remaining_len_loop P (len + 1) (multiplier * 128) rem_len' s
          else Some (Inr (len + 2, rem_len'), s)
        }
      })"
  by auto
termination by (relation "measure (\<lambda>(_, len, _). 4 - len)") auto

declare remaining_len_loop.simps [simp del]

text \<open>A packet that does not fit is read away in pieces, over the front of the buffer.\<close>

partial_function (option) discard_loop ::
  "'w platform \<Rightarrow> u32 \<Rightarrow> u32 \<Rightarrow> u32 \<Rightarrow> u32 \<Rightarrow> 'w st \<Rightarrow> (IoT_Error_t \<times> u32 \<times> 'w st) option"
where
  "discard_loop P rem_len totalRead to_read read_len s =
     (do {
        (rc, bs, got, t, w) \<leftarrow> net_read P (unat to_read) (tm s) (wd s);
        let read_len' = (case got of None \<Rightarrow> read_len | Some k \<Rightarrow> of_nat k) in do {
        c \<leftarrow> store_bytes 0 (unat to_read) bs (cl s);
        let s' = s\<lparr>cl := c, tm := t, wd := w\<rparr> in
        if rc = SUCCESS then
          let totalRead' = totalRead + read_len';
              to_read' = (if readBufSize c \<le> rem_len - totalRead' then readBufSize c else rem_len - totalRead')
          in if totalRead' < rem_len then discard_loop P rem_len totalRead' to_read' read_len' s'
             else Some (rc, totalRead', s')
        else Some (rc, totalRead, s')
      }})"

text \<open>
  \<open>*pPacketType\<close> is \<^term>\<open>None\<close> while the caller's variable holds no value. The packet timer
  is armed and never looked at.
\<close>

definition read_packet :: "'w platform \<Rightarrow> u8 option \<Rightarrow> 'w st \<Rightarrow> (IoT_Error_t \<times> u8 option \<times> 'w st) option" where
  "read_packet P ptype s =
     (let (packetTimer, s) = arm_ms P (packetTimeoutMs (cl s)) s in do {
        (rc, read_len, s) \<leftarrow> readWrapper P 0 1 s;
        if rc = NETWORK_SSL_NOTHING_TO_READ then Some (MQTT_NOTHING_TO_READ, ptype, s)
        else if rc \<noteq> SUCCESS then Some (rc, ptype, s)
        else do {
          (r, s) \<leftarrow> remaining_len_loop P 0 1 0 s;
          case r of
            Inl rc \<Rightarrow> Some (rc, ptype, s)
          | Inr (offset, rem_len) \<Rightarrow>
              if readBufSize (cl s) \<le> rem_len + of_nat offset then do {
                (rc, totalRead, s) \<leftarrow> discard_loop P rem_len 0 (readBufSize (cl s)) (of_int read_len) s;
                if totalRead = rem_len then Some (MQTT_RX_BUFFER_TOO_SHORT_ERROR, ptype, upd flushBuffers s)
                else Some (rc, ptype, s)
              }
              else do {
                (rc, read_len, s) \<leftarrow> (if 0 < rem_len then readWrapper P offset (unat rem_len) s
                                       else Some (SUCCESS, 0, s));
                if 0 < rem_len \<and> (rc \<noteq> SUCCESS \<or> read_len \<noteq> int (unat rem_len)) then Some (FAILURE, ptype, s)
                else do {
                  header \<leftarrow> byte_at (readBuf (cl s)) 0;
                  Some (rc, Some (header_type header), upd flushBuffers s)
                }
              }
        }
      })"

subsection \<open>Delivering messages\<close>

text \<open>\<open>strncmp (a, b, n) == 0\<close>.\<close>

fun strncmp_eq :: "u8 list \<Rightarrow> u8 list \<Rightarrow> nat \<Rightarrow> bool option" where
  "strncmp_eq a b 0 = Some True"
| "strncmp_eq (x # a) (y # b) (Suc n) =
     (if x \<noteq> y then Some False else if x = 0 then Some True else strncmp_eq a b n)"
| "strncmp_eq a b (Suc n) = None"

definition handler_matches :: "MessageHandlers \<Rightarrow> u8 list \<Rightarrow> u16 \<Rightarrow> bool option" where
  "handler_matches h name nameLen =
     (case topicName h of
        None \<Rightarrow> Some False
      | Some obj \<Rightarrow> do {
          same \<leftarrow> (if nameLen = topicNameLen h then strncmp_eq name obj (unat nameLen) else Some False);
          if same then Some True else is_topic_matched (Some obj) (Some name)
        })"

text \<open>The name is read in the receive buffer, which a handler may overwrite.\<close>

fun deliver_loop :: "'w platform \<Rightarrow> publish_view \<Rightarrow> nat list \<Rightarrow> 'w st \<Rightarrow> 'w st option" where
  "deliver_loop P msg [] s = Some s"
| "deliver_loop P msg (i # is) s =
     (let h = messageHandlers (cl s) ! i in do {
        m \<leftarrow> (if topicName h = None then Some False
              else do {
                name \<leftarrow> mem_read (Some (drop (in_topic msg) (readBuf (cl s)))) (unat (in_topicLen msg));
                handler_matches h name (in_topicLen msg)
              });
        s' \<leftarrow> (case pApplicationHandler h of
                None \<Rightarrow> Some s
              | Some f \<Rightarrow> if m then do {
                    s' \<leftarrow> message_handler P f (pApplicationHandlerData h) msg s;
                    Some (s'\<lparr>tm := tm s\<rparr>)
                  }
                  else Some s);
        deliver_loop P msg is s'
      })"

definition deliver_message :: "'w platform \<Rightarrow> publish_view \<Rightarrow> 'w st \<Rightarrow> (IoT_Error_t \<times> 'w st) option" where
  "deliver_message P msg s =
     (let state = clientState (cl s);
          (_, s1) = set_client_state P state CLIENT_STATE_CONNECTED_WAIT_FOR_CB_RETURN s
      in do {
        s2 \<leftarrow> deliver_loop P msg [0..<AWS_IOT_MQTT_NUM_SUBSCRIBE_HANDLERS] s1;
        Some (set_client_state P CLIENT_STATE_CONNECTED_WAIT_FOR_CB_RETURN state s2)
      })"

text \<open>A QoS 1 publish is acknowledged first, whatever the acknowledgement's fate.\<close>

definition handle_publish :: "'w platform \<Rightarrow> 'w st \<Rightarrow> (IoT_Error_t \<times> 'w st) option" where
  "handle_publish P s = do {
     r \<leftarrow> deserialize_publish (readBuf (cl s)) (readBufSize (cl s));
     case r of
       Inl rc \<Rightarrow> Some (rc, s)
     | Inr msg \<Rightarrow> do {
         s2 \<leftarrow> (if in_qos msg = QOS1 then
                  let s1 = start_tm P (commandTimeoutMs (cl s)) s in do {
                    i \<leftarrow> in_id msg;
                    a \<leftarrow> serialize_ack (writeBufSize (cl s1)) PUBACK 0 i;
                    (case a of
                       Inl rc \<Rightarrow> Some (s1\<lparr>tm := tm s\<rparr>)
                     | Inr bs \<Rightarrow> do {
                         (rc, s2) \<leftarrow> send_packet P (length bs) (upd (put_packet bs) s1);
                         Some (s2\<lparr>tm := tm s\<rparr>)
                       })
                  }
                else Some s);
         deliver_message P msg s2
       }
   }"

definition cycle_read :: "'w platform \<Rightarrow> u8 option \<Rightarrow> 'w st \<Rightarrow> (IoT_Error_t \<times> u8 option \<times> 'w st) option" where
  "cycle_read P ptype s =
     (let (threadRc, s) = client_lock_mutex P tls_read_mutex s in
      if threadRc \<noteq> SUCCESS then Some (threadRc, ptype, s)
      else do {
        (rc, ptype, s) \<leftarrow> read_packet P ptype s;
        let (threadRc, s) = client_unlock_mutex P tls_read_mutex s in
        if threadRc \<noteq> SUCCESS \<and> (rc = MQTT_NOTHING_TO_READ \<or> rc = SUCCESS) then Some (threadRc, ptype, s)
        else if rc = MQTT_NOTHING_TO_READ then Some (SUCCESS, ptype, s)
        else if rc \<noteq> SUCCESS then Some (rc, ptype, s)
        else do {
          p \<leftarrow> ptype;
          if p \<in> {msg_code CONNACK, msg_code PUBACK, msg_code SUBACK, msg_code UNSUBACK} then Some (rc, ptype, s)
          else if p = msg_code PUBLISH then do {
            (rc, s) \<leftarrow> handle_publish P s;
            Some (rc, ptype, s)
          }
          else if p \<in> {msg_code PUBREC, msg_code PUBCOMP} then Some (rc, ptype, s)
          else if p = msg_code PINGRESP
            then Some (rc, ptype, upd (isPingOutstanding_update (\<lambda>_. False)) s)
          else Some (MQTT_RX_MESSAGE_PACKET_TYPE_INVALID_ERROR, ptype, s)
        }
      })"

partial_function (option) wait_loop ::
  "'w platform \<Rightarrow> u8 \<Rightarrow> u8 option \<Rightarrow> 'w st \<Rightarrow> (IoT_Error_t \<times> 'w st) option"
where
  "wait_loop P packetType ptype s =
     (let (e, s) = poll_tm P s in
      if e then Some (MQTT_REQUEST_TIMEOUT_ERROR, s)
      else do {
        (rc, ptype, s) \<leftarrow> cycle_read P ptype s;
        if (rc = SUCCESS \<or> rc = MQTT_NOTHING_TO_READ) \<and> ptype \<noteq> Some packetType
        then wait_loop P packetType ptype s
        else Some (rc, s)
      })"

definition wait_for_read :: "'w platform \<Rightarrow> u8 \<Rightarrow> 'w st \<Rightarrow> (IoT_Error_t \<times> 'w st) option" where
  "wait_for_read P packetType s = wait_loop P packetType (Some 0) s"

end
