(* ===== verification/MqttApi.thy ===== *)
theory MqttApi
  imports MqttClient
begin

text \<open>
  The operations of the MQTT client an application calls: connect and disconnect, publish,
  subscribe, resubscribe and unsubscribe. Each public operation checks and changes the state of
  the client around an internal operation of the same name, which blocks until the server
  answers or the command times out.
\<close>

text \<open>The timer of a blocking call lives on its stack.\<close>

definition with_timer :: "'w platform \<Rightarrow> ('w st \<Rightarrow> ('a \<times> 'w st) option) \<Rightarrow> 'w st \<Rightarrow> ('a \<times> 'w st) option" where
  "with_timer P body s = do {
     (r, s') \<leftarrow> body (start_tm P (commandTimeoutMs (cl s)) s);
     Some (r, s'\<lparr>tm := tm s\<rparr>)
   }"

definition take_packet_id :: "'w st \<Rightarrow> u16 \<times> 'w st" where
  "take_packet_id s = (let (i, c) = get_next_packet_id (cl s) in (i, s\<lparr>cl := c\<rparr>))"

text \<open>Write a serialized packet, then wait for the answer of the given type and decode it. The
  first error ends the exchange.\<close>

definition send_serialized ::
  "'w platform \<Rightarrow> (IoT_Error_t + u8 list) option \<Rightarrow> 'w st \<Rightarrow> (IoT_Error_t \<times> 'w st) option"
where
  "send_serialized P packet s = do {
     r \<leftarrow> packet;
     case r of
       Inl rc \<Rightarrow> Some (rc, s)
     | Inr bs \<Rightarrow> send_packet P (length bs) (upd (put_packet bs) s)
   }"

definition await_answer ::
  "'w platform \<Rightarrow> MessageTypes \<Rightarrow> (u8 list \<Rightarrow> u32 \<Rightarrow> (IoT_Error_t + 'a) option) \<Rightarrow> 'w st
     \<Rightarrow> ((IoT_Error_t + 'a) \<times> 'w st) option"
where
  "await_answer P t decode s = do {
     (rc, s) \<leftarrow> wait_for_read P (msg_code t) s;
     if rc \<noteq> SUCCESS then Some (Inl rc, s)
     else do {
       r \<leftarrow> decode (readBuf (cl s)) (readBufSize (cl s));
       Some (r, s)
     }
   }"

definition send_and_await ::
  "'w platform \<Rightarrow> nat \<Rightarrow> MessageTypes \<Rightarrow> (u8 list \<Rightarrow> u32 \<Rightarrow> (IoT_Error_t + 'a) option) \<Rightarrow> 'w st
     \<Rightarrow> ((IoT_Error_t + 'a) \<times> 'w st) option"
where
  "send_and_await P len t decode s = do {
     (rc, s) \<leftarrow> send_packet P len s;
     if rc \<noteq> SUCCESS then Some (Inl rc, s) else await_answer P t decode s
   }"

definition exchange ::
  "'w platform \<Rightarrow> (IoT_Error_t + u8 list) option \<Rightarrow> MessageTypes
     \<Rightarrow> (u8 list \<Rightarrow> u32 \<Rightarrow> (IoT_Error_t + 'a) option) \<Rightarrow> 'w st \<Rightarrow> ((IoT_Error_t + 'a) \<times> 'w st) option"
where
  "exchange P packet t decode s = do {
     r \<leftarrow> packet;
     case r of
       Inl rc \<Rightarrow> Some (Inl rc, s)
     | Inr bs \<Rightarrow> send_and_await P (length bs) t decode (upd (put_packet bs) s)
   }"

definition result_code :: "IoT_Error_t + 'a \<Rightarrow> IoT_Error_t" where
  "result_code r = (case r of Inl rc \<Rightarrow> rc | Inr _ \<Rightarrow> SUCCESS)"

subsection \<open>Publish\<close>

text \<open>The identifier chosen for a QoS 1 message is also stored in the parameters of the caller; the public
  operation hands them back to callers that do not look at it, and leaves it out.\<close>

definition choose_packet_id ::
  "IoT_Publish_Message_Params \<Rightarrow> 'w st \<Rightarrow> IoT_Publish_Message_Params \<times> 'w st"
where
  "choose_packet_id params s =
     (if msg_qos params = QOS1 then let (i, s) = take_packet_id s in (params\<lparr>msg_id := i\<rparr>, s)
      else (params, s))"

definition publish_exchange ::
  "'w platform \<Rightarrow> pointer \<Rightarrow> u16 \<Rightarrow> IoT_Publish_Message_Params \<Rightarrow> 'w st
     \<Rightarrow> ((IoT_Error_t \<times> IoT_Publish_Message_Params) \<times> 'w st) option"
where
  "publish_exchange P pTopicName nameLen params s =
     (let (params, s) = choose_packet_id params s;
          packet = serialize_publish (writeBufSize (cl s)) 0 (msg_qos params) (msg_isRetained params)
            (msg_id params) pTopicName nameLen (msg_payload params) (msg_payloadLen params)
      in if msg_qos params = QOS1 then do {
           (r, s) \<leftarrow> exchange P packet PUBACK deserialize_ack s;
           Some ((result_code r, params), s)
         }
         else do {
           (rc, s) \<leftarrow> send_serialized P packet s;
           Some ((rc, params), s)
         })"

definition internal_publish ::
  "'w platform \<Rightarrow> pointer \<Rightarrow> u16 \<Rightarrow> IoT_Publish_Message_Params \<Rightarrow> 'w st
     \<Rightarrow> ((IoT_Error_t \<times> IoT_Publish_Message_Params) \<times> 'w st) option"
where
  "internal_publish P pTopicName nameLen params = with_timer P (publish_exchange P pTopicName nameLen params)"

text \<open>The frame of the public operations: guards, enter the operation's state, run it, and return to
  the state found. A failure to return is reported only after success.\<close>

definition enter_operation ::
  "'w platform \<Rightarrow> ClientState \<Rightarrow> ('w st \<Rightarrow> (IoT_Error_t \<times> 'w st) option) \<Rightarrow> 'w st \<Rightarrow> (IoT_Error_t \<times> 'w st) option"
where
  "enter_operation P busy body s =
     (let state = clientState (cl s); (rc, s) = set_client_state P state busy s in
      if rc \<noteq> SUCCESS then Some (rc, s)
      else do {
        (opRc, s) \<leftarrow> body s;
        let (rc, s) = set_client_state P busy state s in
        Some (if opRc = SUCCESS \<and> rc \<noteq> SUCCESS then rc else opRc, s)
      })"

definition may_start :: "client \<Rightarrow> bool" where
  "may_start c \<longleftrightarrow> clientState c = CLIENT_STATE_CONNECTED_IDLE
     \<or> clientState c = CLIENT_STATE_CONNECTED_WAIT_FOR_CB_RETURN"

definition aws_iot_mqtt_publish ::
  "'w platform \<Rightarrow> pointer \<Rightarrow> u16 \<Rightarrow> IoT_Publish_Message_Params option \<Rightarrow> 'w st \<Rightarrow> (IoT_Error_t \<times> 'w st) option"
where
  "aws_iot_mqtt_publish P pTopicName nameLen pParams s =
     (case pParams of
        None \<Rightarrow> Some (NULL_VALUE_ERROR, s)
      | Some params \<Rightarrow>
          if pTopicName = None \<or> nameLen = 0 then Some (NULL_VALUE_ERROR, s)
          else if \<not> is_client_connected (cl s) then Some (NETWORK_DISCONNECTED_ERROR, s)
          else if \<not> may_start (cl s) then Some (MQTT_CLIENT_NOT_IDLE_ERROR, s)
          else enter_operation P CLIENT_STATE_CONNECTED_PUBLISH_IN_PROGRESS (\<lambda>s. do {
                 ((rc, _), s) \<leftarrow> internal_publish P pTopicName nameLen params s;
                 Some (rc, s)
               }) s)"

subsection \<open>Subscribe\<close>

definition get_free_message_handler_index :: "client \<Rightarrow> nat" where
  "get_free_message_handler_index c = length (takeWhile (\<lambda>h. topicName h \<noteq> None)
     (take AWS_IOT_MQTT_NUM_SUBSCRIBE_HANDLERS (messageHandlers c)))"

text \<open>The array for the granted qualities of service has three elements; one is expected.\<close>

abbreviation granted_one :: "u8 list \<Rightarrow> u32 \<Rightarrow> (IoT_Error_t + u16 \<times> QoS list) option" where
  "granted_one \<equiv> deserialize_suback 1 3"

definition register_handler :: "nat \<Rightarrow> pointer \<Rightarrow> u16 \<Rightarrow> QoS \<Rightarrow> nat option \<Rightarrow> nat \<Rightarrow> client \<Rightarrow> client" where
  "register_handler i name nameLen qos handler handlerData c =
     c\<lparr>messageHandlers := (messageHandlers c)[i := (messageHandlers c ! i)
         \<lparr>topicName := name, topicNameLen := nameLen, pApplicationHandler := handler,
          pApplicationHandlerData := handlerData, handler_qos := qos\<rparr>]\<rparr>"

definition subscribe_exchange ::
  "'w platform \<Rightarrow> pointer \<Rightarrow> u16 \<Rightarrow> QoS \<Rightarrow> nat option \<Rightarrow> nat \<Rightarrow> 'w st \<Rightarrow> (IoT_Error_t \<times> 'w st) option"
where
  "subscribe_exchange P pTopicName nameLen qos handler handlerData s =
     (let (txPacketId, s) = take_packet_id s in do {
        r \<leftarrow> serialize_subscribe (writeBufSize (cl s)) 0 txPacketId [(pTopicName, nameLen, qos)];
        case r of
          Inl rc \<Rightarrow> Some (rc, s)
        | Inr bs \<Rightarrow>
            let s = upd (put_packet bs) s; i = get_free_message_handler_index (cl s) in
            if AWS_IOT_MQTT_NUM_SUBSCRIBE_HANDLERS \<le> i then Some (MQTT_MAX_SUBSCRIPTIONS_REACHED_ERROR, s)
            else do {
              (r, s) \<leftarrow> send_and_await P (length bs) SUBACK granted_one s;
              case r of
                Inl rc \<Rightarrow> Some (rc, s)
              | Inr _ \<Rightarrow>
                  Some (SUCCESS, upd (register_handler i pTopicName nameLen qos handler handlerData) s)
            }
      })"

definition internal_subscribe ::
  "'w platform \<Rightarrow> pointer \<Rightarrow> u16 \<Rightarrow> QoS \<Rightarrow> nat option \<Rightarrow> nat \<Rightarrow> 'w st \<Rightarrow> (IoT_Error_t \<times> 'w st) option"
where
  "internal_subscribe P pTopicName nameLen qos handler handlerData =
     with_timer P (subscribe_exchange P pTopicName nameLen qos handler handlerData)"

definition aws_iot_mqtt_subscribe ::
  "'w platform \<Rightarrow> pointer \<Rightarrow> u16 \<Rightarrow> QoS \<Rightarrow> nat option \<Rightarrow> nat \<Rightarrow> 'w st \<Rightarrow> (IoT_Error_t \<times> 'w st) option"
where
  "aws_iot_mqtt_subscribe P pTopicName nameLen qos handler handlerData s =
     (if pTopicName = None \<or> handler = None then Some (NULL_VALUE_ERROR, s)
      else if \<not> is_client_connected (cl s) then Some (NETWORK_DISCONNECTED_ERROR, s)
      else if \<not> may_start (cl s) then Some (MQTT_CLIENT_NOT_IDLE_ERROR, s)
      else enter_operation P CLIENT_STATE_CONNECTED_SUBSCRIBE_IN_PROGRESS
             (internal_subscribe P pTopicName nameLen qos handler handlerData) s)"

definition mark_resubscribed :: "nat \<Rightarrow> client \<Rightarrow> client" where
  "mark_resubscribed i c = c\<lparr>messageHandlers :=
     (messageHandlers c)[i := (messageHandlers c ! i)\<lparr>resubscribed := True\<rparr>]\<rparr>"

definition resubscribe_exchange :: "'w platform \<Rightarrow> nat \<Rightarrow> 'w st \<Rightarrow> (IoT_Error_t \<times> 'w st) option" where
  "resubscribe_exchange P i s =
     (let (packetId, s) = take_packet_id s; h = messageHandlers (cl s) ! i in do {
        (r, s) \<leftarrow> exchange P
          (serialize_subscribe (writeBufSize (cl s)) 0 packetId [(topicName h, topicNameLen h, handler_qos h)])
          SUBACK granted_one s;
        case r of
          Inl rc \<Rightarrow> Some (rc, s)
        | Inr _ \<Rightarrow> Some (SUCCESS, upd (mark_resubscribed i) s)
      })"

fun resubscribe_loop :: "'w platform \<Rightarrow> nat list \<Rightarrow> 'w st \<Rightarrow> (IoT_Error_t \<times> 'w st) option" where
  "resubscribe_loop P [] s = Some (SUCCESS, s)"
| "resubscribe_loop P (i # is) s =
     (let h = messageHandlers (cl s) ! i in
      if topicName h = None \<or> resubscribed h then resubscribe_loop P is s
      else do {
        (rc, s) \<leftarrow> with_timer P (resubscribe_exchange P i) s;
        if rc \<noteq> SUCCESS then Some (rc, s) else resubscribe_loop P is s
      })"

definition internal_resubscribe :: "'w platform \<Rightarrow> 'w st \<Rightarrow> (IoT_Error_t \<times> 'w st) option" where
  "internal_resubscribe P s = resubscribe_loop P [0..<get_free_message_handler_index (cl s)] s"

definition aws_iot_mqtt_resubscribe :: "'w platform \<Rightarrow> 'w st \<Rightarrow> (IoT_Error_t \<times> 'w st) option" where
  "aws_iot_mqtt_resubscribe P s =
     (let currentState = clientState (cl s) in
      if \<not> is_client_connected (cl s) then Some (NETWORK_DISCONNECTED_ERROR, s)
      else if currentState \<noteq> CLIENT_STATE_CONNECTED_IDLE
              \<and> currentState \<noteq> CLIENT_STATE_CONNECTED_RESUBSCRIBE_IN_PROGRESS
        then Some (MQTT_UNEXPECTED_CLIENT_STATE_ERROR, s)
      else
        let (rc, s) = (if currentState = CLIENT_STATE_CONNECTED_IDLE
             then set_client_state P CLIENT_STATE_CONNECTED_IDLE CLIENT_STATE_CONNECTED_RESUBSCRIBE_IN_PROGRESS s
             else (SUCCESS, s))
        in if rc \<noteq> SUCCESS then Some (rc, s)
        else do {
          (rc, s) \<leftarrow> internal_resubscribe P s;
          if rc = SUCCESS
          then Some (set_client_state P CLIENT_STATE_CONNECTED_RESUBSCRIBE_IN_PROGRESS CLIENT_STATE_CONNECTED_IDLE s)
          else Some (rc, s)
        })"

subsection \<open>Unsubscribe\<close>

text \<open>\<open>strcmp (a, b) == 0\<close>.\<close>

fun strcmp_eq :: "u8 list \<Rightarrow> u8 list \<Rightarrow> bool option" where
  "strcmp_eq (x # a) (y # b) = (if x \<noteq> y then Some False else if x = 0 then Some True else strcmp_eq a b)"
| "strcmp_eq _ _ = None"

definition same_filter :: "u8 list \<Rightarrow> MessageHandlers \<Rightarrow> bool option" where
  "same_filter name h = (case topicName h of None \<Rightarrow> Some False | Some t \<Rightarrow> strcmp_eq t name)"

fun subscription_exists :: "u8 list \<Rightarrow> MessageHandlers list \<Rightarrow> bool option" where
  "subscription_exists name [] = Some False"
| "subscription_exists name (h # hs) = do {
     e \<leftarrow> same_filter name h;
     if e then Some True else subscription_exists name hs
   }"

fun remove_handlers :: "u8 list \<Rightarrow> MessageHandlers list \<Rightarrow> MessageHandlers list option" where
  "remove_handlers name [] = Some []"
| "remove_handlers name (h # hs) = do {
     e \<leftarrow> same_filter name h;
     rest \<leftarrow> remove_handlers name hs;
     Some ((if e then h\<lparr>topicName := None\<rparr> else h) # rest)
   }"

definition unsubscribe_exchange ::
  "'w platform \<Rightarrow> u8 list \<Rightarrow> u16 \<Rightarrow> 'w st \<Rightarrow> (IoT_Error_t \<times> 'w st) option"
where
  "unsubscribe_exchange P pTopicFilter filterLen s =
     (let (packetId, s) = take_packet_id s in do {
        (r, s) \<leftarrow> exchange P
          (serialize_unsubscribe (writeBufSize (cl s)) 0 packetId [(Some pTopicFilter, filterLen)])
          UNSUBACK deserialize_unsuback s;
        case r of
          Inl rc \<Rightarrow> Some (rc, s)
        | Inr _ \<Rightarrow> do {
            hs \<leftarrow> remove_handlers pTopicFilter (messageHandlers (cl s));
            Some (SUCCESS, upd (messageHandlers_update (\<lambda>_. hs)) s)
          }
      })"

definition internal_unsubscribe ::
  "'w platform \<Rightarrow> u8 list \<Rightarrow> u16 \<Rightarrow> 'w st \<Rightarrow> (IoT_Error_t \<times> 'w st) option"
where
  "internal_unsubscribe P pTopicFilter filterLen s = do {
     exists \<leftarrow> subscription_exists pTopicFilter (messageHandlers (cl s));
     if \<not> exists then Some (FAILURE, s)
     else with_timer P (unsubscribe_exchange P pTopicFilter filterLen) s
   }"

text \<open>When the state cannot be changed the code tries to change it back and reports that attempt.\<close>

definition aws_iot_mqtt_unsubscribe ::
  "'w platform \<Rightarrow> pointer \<Rightarrow> u16 \<Rightarrow> 'w st \<Rightarrow> (IoT_Error_t \<times> 'w st) option"
where
  "aws_iot_mqtt_unsubscribe P pTopicFilter filterLen s =
     (case pTopicFilter of
        None \<Rightarrow> Some (NULL_VALUE_ERROR, s)
      | Some name \<Rightarrow>
          if \<not> is_client_connected (cl s) then Some (NETWORK_DISCONNECTED_ERROR, s)
          else if \<not> may_start (cl s) then Some (MQTT_CLIENT_NOT_IDLE_ERROR, s)
          else
            let state = clientState (cl s);
                (rc, s) = set_client_state P state CLIENT_STATE_CONNECTED_UNSUBSCRIBE_IN_PROGRESS s
            in if rc \<noteq> SUCCESS
               then Some (set_client_state P CLIENT_STATE_CONNECTED_UNSUBSCRIBE_IN_PROGRESS state s)
               else do {
                 (unsubRc, s) \<leftarrow> internal_unsubscribe P name filterLen s;
                 let (rc, s) = set_client_state P CLIENT_STATE_CONNECTED_UNSUBSCRIBE_IN_PROGRESS state s in
                 Some (if unsubRc = SUCCESS \<and> rc \<noteq> SUCCESS then rc else unsubRc, s)
               })"

subsection \<open>Connect and disconnect\<close>

definition is_client_state_valid_for_connect :: "ClientState \<Rightarrow> bool" where
  "is_client_state_valid_for_connect state \<longleftrightarrow>
     state = CLIENT_STATE_INITIALIZED \<or> state = CLIENT_STATE_DISCONNECTED_ERROR
     \<or> state = CLIENT_STATE_DISCONNECTED_MANUALLY \<or> state = CLIENT_STATE_PENDING_RECONNECT"

definition connect_exchange :: "'w platform \<Rightarrow> 'w st \<Rightarrow> (IoT_Error_t \<times> 'w st) option" where
  "connect_exchange P s =
     (let s = upd (\<lambda>c. c\<lparr>keepAliveInterval := keepAliveIntervalInSec (options c)\<rparr>) s in do {
        (r, s) \<leftarrow> exchange P (serialize_connect (writeBufSize (cl s)) (options (cl s)))
          CONNACK deserialize_connack s;
        case r of
          Inl rc \<Rightarrow> Some (rc, s)
        | Inr (sessionPresent, connack_rc) \<Rightarrow>
            if connack_rc \<noteq> MQTT_CONNACK_CONNECTION_ACCEPTED then Some (connack_rc, s)
            else
              let s = upd (isPingOutstanding_update (\<lambda>_. False)) s;
                  (t, s) = arm_sec P (ucast (keepAliveInterval (cl s))) s
              in Some (SUCCESS, upd (pingReqTimer_update (\<lambda>_. t)) s)
      })"

definition internal_connect ::
  "'w platform \<Rightarrow> IoT_Client_Connect_Params option \<Rightarrow> 'w st \<Rightarrow> (IoT_Error_t \<times> 'w st) option"
where
  "internal_connect P pConnectParams s =
     (let s = (case pConnectParams of None \<Rightarrow> s | Some p \<Rightarrow> upd (set_connect_params p) s);
          (rc, s) = on_world (net_connect P) s
      in if rc \<noteq> SUCCESS then Some (rc, s) else with_timer P (connect_exchange P) s)"

definition aws_iot_mqtt_connect ::
  "'w platform \<Rightarrow> IoT_Client_Connect_Params option \<Rightarrow> 'w st \<Rightarrow> (IoT_Error_t \<times> 'w st) option"
where
  "aws_iot_mqtt_connect P pConnectParams s =
     (let s = upd flushBuffers s; state = clientState (cl s) in
      if \<not> is_client_state_valid_for_connect state then Some (NETWORK_ALREADY_CONNECTED_ERROR, s)
      else
        let (_, s) = set_client_state P state CLIENT_STATE_CONNECTING s in do {
          (rc, s) \<leftarrow> internal_connect P pConnectParams s;
          if rc \<noteq> SUCCESS then
            let (_, s) = on_world (net_disconnect P) s; (disconRc, s) = on_world (net_destroy P) s in
            if disconRc \<noteq> SUCCESS then Some (NETWORK_DISCONNECTED_ERROR, s)
            else let (_, s) = set_client_state P CLIENT_STATE_CONNECTING CLIENT_STATE_DISCONNECTED_ERROR s in
              Some (rc, s)
          else
            let (_, s) = set_client_state P CLIENT_STATE_CONNECTING CLIENT_STATE_CONNECTED_IDLE s in
            Some (rc, s)
        })"

definition internal_disconnect :: "'w platform \<Rightarrow> 'w st \<Rightarrow> (IoT_Error_t \<times> 'w st) option" where
  "internal_disconnect P s = do {
     packet \<leftarrow> serialize_zero (writeBufSize (cl s)) DISCONNECT;
     case packet of
       Inl rc \<Rightarrow> Some (rc, s)
     | Inr bs \<Rightarrow> do {
         (_, s) \<leftarrow> with_timer P (send_packet P (length bs)) (upd (put_packet bs) s);
         let (_, s) = on_world (net_disconnect P) s; (rc, s) = on_world (net_destroy P) s in
         Some (if rc \<noteq> SUCCESS then FAILURE else SUCCESS, s)
       }
   }"

definition aws_iot_mqtt_disconnect :: "'w platform \<Rightarrow> 'w st \<Rightarrow> (IoT_Error_t \<times> 'w st) option" where
  "aws_iot_mqtt_disconnect P s =
     (let state = clientState (cl s) in
      if \<not> is_client_connected (cl s) then Some (NETWORK_DISCONNECTED_ERROR, s)
      else
        let (rc, s) = set_client_state P state CLIENT_STATE_DISCONNECTING s in
        if rc \<noteq> SUCCESS then Some (rc, s)
        else do {
          (rc, s) \<leftarrow> internal_disconnect P s;
          Some (rc, upd (clientState_update (\<lambda>_.
            if rc \<noteq> SUCCESS then state else CLIENT_STATE_DISCONNECTED_MANUALLY)) s)
        })"

definition aws_iot_mqtt_attempt_reconnect :: "'w platform \<Rightarrow> 'w st \<Rightarrow> (IoT_Error_t \<times> 'w st) option" where
  "aws_iot_mqtt_attempt_reconnect P s =
     (let resub = (\<lambda>s. do {
            (rc, s) \<leftarrow> aws_iot_mqtt_resubscribe P s;
            Some (if rc \<noteq> SUCCESS then NETWORK_ATTEMPTING_RECONNECT else NETWORK_RECONNECTED, s)
          })
      in if \<not> is_client_connected (cl s) then do {
        (_, s) \<leftarrow> aws_iot_mqtt_connect P None s;
        if clientState (cl s) \<noteq> CLIENT_STATE_CONNECTED_IDLE then
          let (_, s) = set_client_state P CLIENT_STATE_DISCONNECTED_ERROR CLIENT_STATE_PENDING_RECONNECT s in
          Some (NETWORK_ATTEMPTING_RECONNECT, s)
        else resub s
      }
      else if clientState (cl s) \<noteq> CLIENT_STATE_CONNECTED_RESUBSCRIBE_IN_PROGRESS
        then Some (NETWORK_ALREADY_CONNECTED_ERROR, s)
      else resub s)"

end
