(* ===== verification/MqttYield.thy ===== *)
theory MqttYield
  imports MqttApi
begin

text \<open>
  The part of the client that runs between commands (\<open>aws_iot_mqtt_client_yield.c\<close>): reading
  what the server sends, the keep-alive ping, the detection of a lost connection, and the
  reconnection with a doubling delay.
\<close>

definition AWS_IOT_MQTT_MIN_RECONNECT_WAIT_INTERVAL :: u32 where
  "AWS_IOT_MQTT_MIN_RECONNECT_WAIT_INTERVAL = 1000"

definition AWS_IOT_MQTT_MAX_RECONNECT_WAIT_INTERVAL :: u32 where
  "AWS_IOT_MQTT_MAX_RECONNECT_WAIT_INTERVAL = 128000"

definition force_client_disconnect :: "'w platform \<Rightarrow> 'w st \<Rightarrow> 'w st" where
  "force_client_disconnect P s =
     (let s = upd (clientState_update (\<lambda>_. CLIENT_STATE_DISCONNECTED_ERROR)) s;
          (_, s) = on_world (net_disconnect P) s; (_, s) = on_world (net_destroy P) s
      in s)"

definition handle_disconnect :: "'w platform \<Rightarrow> 'w st \<Rightarrow> (IoT_Error_t \<times> 'w st) option" where
  "handle_disconnect P s = do {
     (rc, s) \<leftarrow> aws_iot_mqtt_disconnect P s;
     let s = (if rc \<noteq> SUCCESS then force_client_disconnect P s else s);
         s = upd (clientState_update (\<lambda>_. CLIENT_STATE_DISCONNECTED_ERROR)) s
     in do {
       s \<leftarrow> (case disconnectHandler (cl s) of
               None \<Rightarrow> Some s
             | Some h \<Rightarrow> do {
                 s' \<leftarrow> disconnect_handler P h (disconnectHandlerData (cl s)) s;
                 Some (s'\<lparr>tm := tm s\<rparr>)
               });
       if clientState (cl s) = CLIENT_STATE_CONNECTED_IDLE then Some (SUCCESS, s)
       else Some (NETWORK_DISCONNECTED_ERROR, s)
     }
   }"

text \<open>Polling one of the timers of the client.\<close>

definition poll_reconnect_timer :: "'w platform \<Rightarrow> 'w st \<Rightarrow> bool \<times> 'w st" where
  "poll_reconnect_timer P s = (let (e, t, w) = poll_timer P (reconnectDelayTimer (cl s)) (wd s) in
     (e, upd (reconnectDelayTimer_update (\<lambda>_. t)) (s\<lparr>wd := w\<rparr>)))"

definition poll_ping_req_timer :: "'w platform \<Rightarrow> 'w st \<Rightarrow> bool \<times> 'w st" where
  "poll_ping_req_timer P s = (let (e, t, w) = poll_timer P (pingReqTimer (cl s)) (wd s) in
     (e, upd (pingReqTimer_update (\<lambda>_. t)) (s\<lparr>wd := w\<rparr>)))"

definition poll_ping_resp_timer :: "'w platform \<Rightarrow> 'w st \<Rightarrow> bool \<times> 'w st" where
  "poll_ping_resp_timer P s = (let (e, t, w) = poll_timer P (pingRespTimer (cl s)) (wd s) in
     (e, upd (pingRespTimer_update (\<lambda>_. t)) (s\<lparr>wd := w\<rparr>)))"

text \<open>After a failed attempt the delay is doubled; beyond the maximum there is no further attempt.\<close>

definition back_off :: "'w platform \<Rightarrow> IoT_Error_t \<Rightarrow> 'w st \<Rightarrow> IoT_Error_t \<times> 'w st" where
  "back_off P rc s =
     (let s = upd (currentReconnectWaitInterval_update (\<lambda>i. i * 2)) s in
      if AWS_IOT_MQTT_MAX_RECONNECT_WAIT_INTERVAL < currentReconnectWaitInterval (cl s)
      then (NETWORK_RECONNECT_TIMED_OUT_ERROR, s)
      else let (t, s) = arm_ms P (currentReconnectWaitInterval (cl s)) s in
        (rc, upd (reconnectDelayTimer_update (\<lambda>_. t)) s))"

definition handle_reconnect :: "'w platform \<Rightarrow> 'w st \<Rightarrow> (IoT_Error_t \<times> 'w st) option" where
  "handle_reconnect P s =
     (let (e, s) = poll_reconnect_timer P s in
      if \<not> e then Some (NETWORK_ATTEMPTING_RECONNECT, s)
      else
        let (rc, s) = (case net_is_connected P of
              None \<Rightarrow> (NETWORK_PHYSICAL_LAYER_DISCONNECTED, s)
            | Some f \<Rightarrow> on_world f s)
        in if rc = NETWORK_PHYSICAL_LAYER_CONNECTED then do {
             (rc, s) \<leftarrow> aws_iot_mqtt_attempt_reconnect P s;
             if rc = NETWORK_RECONNECTED then
               let (rc, s) = set_client_state P CLIENT_STATE_CONNECTED_IDLE
                               CLIENT_STATE_CONNECTED_YIELD_IN_PROGRESS s
               in Some (if rc \<noteq> SUCCESS then rc else NETWORK_RECONNECTED, s)
             else Some (back_off P rc s)
           }
           else Some (back_off P rc s))"

definition keep_alive :: "'w platform \<Rightarrow> 'w st \<Rightarrow> (IoT_Error_t \<times> 'w st) option" where
  "keep_alive P s =
     (if keepAliveInterval (cl s) = 0 then Some (SUCCESS, s)
      else if isPingOutstanding (cl s) then
        let (e, s) = poll_ping_resp_timer P s in
        if e then handle_disconnect P s else Some (SUCCESS, s)
      else
        let (e, s) = poll_ping_req_timer P s in
        if \<not> e then Some (SUCCESS, s)
        else do {
          (r, s) \<leftarrow> with_timer P (\<lambda>s. do {
            packet \<leftarrow> serialize_zero (writeBufSize (cl s)) PINGREQ;
            case packet of
              Inl rc \<Rightarrow> Some (Inl rc, s)
            | Inr bs \<Rightarrow> do {
                (rc, s) \<leftarrow> send_packet P (length bs) (upd (put_packet bs) s);
                Some (Inr rc, s)
              }
          }) s;
          case r of
            Inl rc \<Rightarrow> Some (rc, s)
          | Inr rc \<Rightarrow>
              if rc \<noteq> SUCCESS then handle_disconnect P s
              else
                let s = upd (isPingOutstanding_update (\<lambda>_. True)) s;
                    (t1, s) = arm_sec P (ucast (keepAliveInterval (cl s))) s;
                    s = upd (pingRespTimer_update (\<lambda>_. t1)) s;
                    (t2, s) = arm_sec P (ucast (keepAliveInterval (cl s))) s
                in Some (SUCCESS, upd (pingReqTimer_update (\<lambda>_. t2)) s)
        })"

text \<open>What follows the detection of a lost connection, for the result code that reports it.\<close>

definition begin_reconnect :: "'w platform \<Rightarrow> 'w st \<Rightarrow> IoT_Error_t \<times> 'w st" where
  "begin_reconnect P s =
     (let (rc, s) = set_client_state P CLIENT_STATE_DISCONNECTED_ERROR CLIENT_STATE_PENDING_RECONNECT s in
      if rc \<noteq> SUCCESS then (rc, s)
      else
        let s = upd (currentReconnectWaitInterval_update (\<lambda>_. AWS_IOT_MQTT_MIN_RECONNECT_WAIT_INTERVAL)) s;
            (t, s) = arm_ms P (currentReconnectWaitInterval (cl s)) s;
            s = upd (\<lambda>c. c\<lparr>reconnectDelayTimer := t,
                           messageHandlers := map (resubscribed_update (\<lambda>_. False)) (messageHandlers c)\<rparr>) s
        in (SUCCESS, s))"

text \<open>
  One pass of the loop: the result code, whether the loop is left by a \<open>break\<close> or \<open>return\<close>, and
  the packet type variable.
\<close>

definition yield_pass ::
  "'w platform \<Rightarrow> u8 option \<Rightarrow> 'w st \<Rightarrow> ((IoT_Error_t \<times> bool \<times> u8 option) \<times> 'w st) option"
where
  "yield_pass P ptype s =
     (if clientState (cl s) = CLIENT_STATE_PENDING_RECONNECT
         \<or> clientState (cl s) = CLIENT_STATE_CONNECTED_RESUBSCRIBE_IN_PROGRESS
      then if AWS_IOT_MQTT_MAX_RECONNECT_WAIT_INTERVAL < currentReconnectWaitInterval (cl s)
        then Some ((NETWORK_RECONNECT_TIMED_OUT_ERROR, True, ptype), s)
        else do { (rc, s) \<leftarrow> handle_reconnect P s; Some ((rc, False, ptype), s) }
      else do {
        (rc, ptype, s) \<leftarrow> cycle_read P ptype s;
        (rc, s) \<leftarrow> (if rc = SUCCESS then keep_alive P s
                    else if rc = NETWORK_SSL_READ_ERROR \<or> rc = NETWORK_SSL_WRITE_ERROR
                            \<or> rc = NETWORK_SSL_WRITE_TIMEOUT_ERROR
                    then handle_disconnect P s
                    else Some (rc, s));
        if rc = NETWORK_DISCONNECTED_ERROR then
          let s = upd (counterNetworkDisconnected_update (\<lambda>n. n + 1)) s in
          if isAutoReconnectEnabled (cl s) then
            let (rc, s) = begin_reconnect P s in
            if rc \<noteq> SUCCESS then Some ((rc, True, ptype), s)
            else Some ((NETWORK_ATTEMPTING_RECONNECT, False, ptype), s)
          else Some ((rc, True, ptype), s)
        else Some ((rc, rc \<noteq> SUCCESS, ptype), s)
      })"

partial_function (option) yield_loop :: "'w platform \<Rightarrow> u8 option \<Rightarrow> 'w st \<Rightarrow> (IoT_Error_t \<times> 'w st) option" where
  "yield_loop P ptype s = do {
     ((rc, leave, ptype), s) \<leftarrow> yield_pass P ptype s;
     if leave then Some (rc, s)
     else let (e, s) = poll_tm P s in
       if e then Some (rc, s) else yield_loop P ptype s
   }"

definition internal_yield :: "'w platform \<Rightarrow> u32 \<Rightarrow> 'w st \<Rightarrow> (IoT_Error_t \<times> 'w st) option" where
  "internal_yield P timeout_ms s = do {
     (rc, s') \<leftarrow> yield_loop P None (start_tm P timeout_ms s);
     Some (rc, s'\<lparr>tm := tm s\<rparr>)
   }"

definition aws_iot_mqtt_yield :: "'w platform \<Rightarrow> u32 \<Rightarrow> 'w st \<Rightarrow> (IoT_Error_t \<times> 'w st) option" where
  "aws_iot_mqtt_yield P timeout_ms s =
     (let state = clientState (cl s);
          run = (\<lambda>s. do {
            (yieldRc, s) \<leftarrow> internal_yield P timeout_ms s;
            if yieldRc \<noteq> NETWORK_DISCONNECTED_ERROR \<and> yieldRc \<noteq> NETWORK_ATTEMPTING_RECONNECT then
              let (rc, s) = set_client_state P CLIENT_STATE_CONNECTED_YIELD_IN_PROGRESS CLIENT_STATE_CONNECTED_IDLE s in
              Some (if yieldRc = SUCCESS \<and> rc \<noteq> SUCCESS then rc else yieldRc, s)
            else Some (yieldRc, s)
          })
      in if timeout_ms = 0 then Some (NULL_VALUE_ERROR, s)
      else if state = CLIENT_STATE_DISCONNECTED_MANUALLY then Some (NETWORK_MANUALLY_DISCONNECTED, s)
      else if state \<noteq> CLIENT_STATE_PENDING_RECONNECT
              \<and> state \<noteq> CLIENT_STATE_CONNECTED_RESUBSCRIBE_IN_PROGRESS then
        if \<not> is_client_connected (cl s) then Some (NETWORK_DISCONNECTED_ERROR, s)
        else if state \<noteq> CLIENT_STATE_CONNECTED_IDLE then Some (MQTT_CLIENT_NOT_IDLE_ERROR, s)
        else
          let (rc, s) = set_client_state P CLIENT_STATE_CONNECTED_IDLE CLIENT_STATE_CONNECTED_YIELD_IN_PROGRESS s in
          if rc \<noteq> SUCCESS then Some (rc, s) else run s
      else run s)"

end
