(* ===== verification/MqttFrame.thy ===== *)
theory MqttFrame
  imports MqttYield MqttCodecLemmas
begin

text \<open>
  What the operations of the client leave alone. The locale \<open>client_frame\<close> is the contract of a
  relation between the client before and after: everything the packet layer does to the client,
  and everything the application's handlers may do, is within it. Inside it every blocking
  operation is shown to stay within the relation; its interpretations are the invariant of the
  client and the table of subscriptions.
\<close>

subsection \<open>Mutexes\<close>

text \<open>The mutexes of the port never fail once created: the client runs in one task and they are
  recursive.\<close>

definition mutexes_work :: "'w platform \<Rightarrow> bool" where
  "mutexes_work P \<longleftrightarrow> (\<forall>m w. fst (mutex_lock P m w) = SUCCESS \<and> fst (mutex_trylock P m w) = SUCCESS
     \<and> fst (mutex_unlock P m w) = SUCCESS)"

lemma on_world_simps [simp]:
  "cl (snd (on_world f s)) = cl s" "tm (snd (on_world f s)) = tm s"
  "fst (on_world f s) = fst (f (wd s))" "wd (snd (on_world f s)) = snd (f (wd s))"
  by (simp_all add: on_world_def split: prod.splits)

lemma on_world_eq: "on_world f s = (fst (f (wd s)), s\<lparr>wd := snd (f (wd s))\<rparr>)"
  by (simp add: on_world_def split: prod.splits)

lemma client_lock_cl [simp]: "cl (snd (client_lock_mutex P m s)) = cl s"
  "tm (snd (client_lock_mutex P m s)) = tm s"
  by (simp_all add: client_lock_mutex_def)

lemma client_unlock_cl [simp]: "cl (snd (client_unlock_mutex P m s)) = cl s"
  "tm (snd (client_unlock_mutex P m s)) = tm s"
  by (simp_all add: client_unlock_mutex_def)

lemma lock_succeeds: "mutexes_work P \<Longrightarrow> fst (client_lock_mutex P m s) = SUCCESS"
  by (simp add: client_lock_mutex_def mutexes_work_def)

lemma unlock_succeeds: "mutexes_work P \<Longrightarrow> fst (client_unlock_mutex P m s) = SUCCESS"
  by (simp add: client_unlock_mutex_def mutexes_work_def)

lemma client_lockE:
  assumes "mutexes_work P"
  obtains w where "client_lock_mutex P m s = (SUCCESS, s\<lparr>wd := w\<rparr>)"
proof (rule that)
  show "client_lock_mutex P m s
      = (SUCCESS, s\<lparr>wd := snd ((if isBlockOnThreadLockEnabled (cl s) then mutex_lock P m else mutex_trylock P m) (wd s))\<rparr>)"
    using assms by (simp add: client_lock_mutex_def on_world_eq mutexes_work_def)
qed

lemma client_unlockE:
  assumes "mutexes_work P"
  obtains w where "client_unlock_mutex P m s = (SUCCESS, s\<lparr>wd := w\<rparr>)"
  using assms by (auto simp: client_unlock_mutex_def on_world_eq mutexes_work_def)

text \<open>Setting the state: exact when the expected state is the current one, refused otherwise.\<close>

lemma set_state_hit:
  assumes "mutexes_work P" and "clientState (cl s) = x"
  obtains w where "set_client_state P x y s = (SUCCESS, s\<lparr>cl := (cl s)\<lparr>clientState := y\<rparr>, wd := w\<rparr>)"
proof -
  obtain w1 where l: "client_lock_mutex P state_change_mutex s = (SUCCESS, s\<lparr>wd := w1\<rparr>)"
    using client_lockE [OF assms(1)] .
  let ?s = "upd (clientState_update (\<lambda>_. y)) (s\<lparr>wd := w1\<rparr>)"
  obtain w2 where u: "client_unlock_mutex P state_change_mutex ?s = (SUCCESS, ?s\<lparr>wd := w2\<rparr>)"
    using client_unlockE [OF assms(1)] .
  have "set_client_state P x y s = (SUCCESS, s\<lparr>cl := (cl s)\<lparr>clientState := y\<rparr>, wd := w2\<rparr>)"
    using assms(2) u by (simp add: set_client_state_def l upd_def)
  then show ?thesis by (rule that)
qed

lemma set_state_miss:
  assumes "mutexes_work P" and "clientState (cl s) \<noteq> x"
  obtains w where "set_client_state P x y s = (MQTT_UNEXPECTED_CLIENT_STATE_ERROR, s\<lparr>wd := w\<rparr>)"
proof -
  obtain w1 where l: "client_lock_mutex P state_change_mutex s = (SUCCESS, s\<lparr>wd := w1\<rparr>)"
    using client_lockE [OF assms(1)] .
  obtain w2 where u: "client_unlock_mutex P state_change_mutex (s\<lparr>wd := w1\<rparr>) = (SUCCESS, s\<lparr>wd := w1\<rparr>\<lparr>wd := w2\<rparr>)"
    using client_unlockE [OF assms(1)] .
  have "set_client_state P x y s = (MQTT_UNEXPECTED_CLIENT_STATE_ERROR, s\<lparr>wd := w2\<rparr>)"
    using assms(2) u by (auto simp: set_client_state_def l)
  then show ?thesis by (rule that)
qed

subsection \<open>Timers and sending leave the client alone\<close>

lemma poll_tm_cl [simp]: "cl (snd (poll_tm P s)) = cl s"
  by (simp add: poll_tm_def split: prod.splits)

lemma poll_cl: "poll_tm P s = (e, s') \<Longrightarrow> cl s' = cl s"
  using poll_tm_cl [of P s] by simp

lemma arm_ms_cl [simp]: "cl (snd (arm_ms P ms s)) = cl s" "tm (snd (arm_ms P ms s)) = tm s"
  by (simp_all add: arm_ms_def on_world_eq split: prod.splits)

lemma arm_sec_cl [simp]: "cl (snd (arm_sec P ms s)) = cl s" "tm (snd (arm_sec P ms s)) = tm s"
  by (simp_all add: arm_sec_def on_world_eq split: prod.splits)

lemma start_tm_cl [simp]: "cl (start_tm P ms s) = cl s"
  by (simp add: start_tm_def arm_ms_def on_world_eq split: prod.splits)

text \<open>Induction over the passes of the loops that return.\<close>

lemma send_loop_induct [consumes 1, case_names finished expired failed again]:
  assumes "send_loop P len sent rc s = Some y"
    and "\<And>sent rc s. len \<le> sent \<Longrightarrow> Q sent rc s (sent, rc, s)"
    and "\<And>sent rc s s1. sent < len \<Longrightarrow> poll_tm P s = (True, s1) \<Longrightarrow> Q sent rc s (sent, rc, s1)"
    and "\<And>sent rc s s1 rc' n t w. sent < len \<Longrightarrow> poll_tm P s = (False, s1) \<Longrightarrow>
      net_write P (take (len - sent) (drop sent (writeBuf (cl s1)))) (tm s1) (wd s1) = Some (rc', n, t, w) \<Longrightarrow>
      rc' \<noteq> SUCCESS \<Longrightarrow> Q sent rc s (sent, rc', s1\<lparr>tm := t, wd := w\<rparr>)"
    and "\<And>sent rc s s1 n t w y. sent < len \<Longrightarrow> poll_tm P s = (False, s1) \<Longrightarrow>
      net_write P (take (len - sent) (drop sent (writeBuf (cl s1)))) (tm s1) (wd s1) = Some (SUCCESS, n, t, w) \<Longrightarrow>
      Q (sent + n) SUCCESS (s1\<lparr>tm := t, wd := w\<rparr>) y \<Longrightarrow> Q sent rc s y"
  shows "Q sent rc s y"
proof -
  let ?Q = "\<lambda>x y. case x of ((((P', len'), sent), rc), s) \<Rightarrow> P' = P \<longrightarrow> len' = len \<longrightarrow> Q sent rc s y"
  have "?Q ((((P, len), sent), rc), s) y"
  proof (rule send_loop.raw_induct [where Pa = ?Q, OF _ assms(1)])
    fix loop P' len' sent rc s y
    assume IH: "\<And>len sent rc s b y. loop len sent rc s b = Some y \<Longrightarrow> ?Q ((((len, sent), rc), s), b) y"
      and body: "(if sent < len' then let (e, s1) = poll_tm P' s in if e then Some (sent, rc, s1)
          else net_write P' (take (len' - sent) (drop sent (writeBuf (cl s1)))) (tm s1) (wd s1) \<bind>
            (\<lambda>(rc', n, t, w). let s2 = s1\<lparr>tm := t, wd := w\<rparr>
               in if rc' \<noteq> SUCCESS then Some (sent, rc', s2) else loop P' len' (sent + n) rc' s2)
        else Some (sent, rc, s)) = Some y"
    show "?Q ((((P', len'), sent), rc), s) y"
    proof (clarsimp)
      assume eq: "P' = P" "len' = len"
      show "Q sent rc s y"
      proof (cases "sent < len")
        case False
        then show ?thesis using body assms(2) [of sent rc s] eq by auto
      next
        case more: True
        obtain e s1 where p: "poll_tm P s = (e, s1)" by (cases "poll_tm P s")
        show ?thesis
        proof (cases e)
          case True
          then show ?thesis using body assms(3) [OF more] p eq more by auto
        next
          case running: False
          then obtain rc' n t w where nw:
            "net_write P (take (len - sent) (drop sent (writeBuf (cl s1)))) (tm s1) (wd s1) = Some (rc', n, t, w)"
            using body p eq more by (auto simp: Option.bind_eq_Some_conv)
          show ?thesis
          proof (cases "rc' = SUCCESS")
            case False
            then show ?thesis using body assms(4) [OF more _ nw] p nw eq more running by auto
          next
            case True
            then have "loop P len (sent + n) SUCCESS (s1\<lparr>tm := t, wd := w\<rparr>) = Some y"
              using body p nw eq more running by simp
            with IH have "Q (sent + n) SUCCESS (s1\<lparr>tm := t, wd := w\<rparr>) y" by fastforce
            then show ?thesis using assms(5) [OF more _ nw [unfolded True]] p running by simp
          qed
        qed
      qed
    qed
  qed
  then show ?thesis by simp
qed

lemma discard_loop_induct [consumes 1, case_names stop again]:
  assumes "discard_loop P rem_len rd to_read read_len s = Some y"
    and "\<And>rd to_read read_len s rc bs got t w c rd'.
      net_read P (unat to_read) (tm s) (wd s) = Some (rc, bs, got, t, w) \<Longrightarrow>
      store_bytes 0 (unat to_read) bs (cl s) = Some c \<Longrightarrow>
      Q rd to_read read_len s (rc, rd', s\<lparr>cl := c, tm := t, wd := w\<rparr>)"
    and "\<And>rd to_read read_len s bs got t w c rd' to_read' read_len' y.
      net_read P (unat to_read) (tm s) (wd s) = Some (SUCCESS, bs, got, t, w) \<Longrightarrow>
      store_bytes 0 (unat to_read) bs (cl s) = Some c \<Longrightarrow>
      Q rd' to_read' read_len' (s\<lparr>cl := c, tm := t, wd := w\<rparr>) y \<Longrightarrow> Q rd to_read read_len s y"
  shows "Q rd to_read read_len s y"
proof -
  let ?Q = "\<lambda>x y. case x of (((((P', rem'), rd), to_read), read_len), s) \<Rightarrow>
    P' = P \<longrightarrow> rem' = rem_len \<longrightarrow> Q rd to_read read_len s y"
  have "?Q (((((P, rem_len), rd), to_read), read_len), s) y"
  proof (rule discard_loop.raw_induct [where Pa = ?Q, OF _ assms(1)])
    fix loop P' rem' don and to_read :: u32 and read_len s y
    assume IH: "\<And>a b c d e f y. loop a b c d e f = Some y \<Longrightarrow> ?Q (((((a, b), c), d), e), f) y"
      and body: "net_read P' (unat to_read) (tm s) (wd s) \<bind> (\<lambda>(rc, bs, got, t, w).
        let read_len' = (case got of None \<Rightarrow> read_len | Some k \<Rightarrow> of_nat k)
        in store_bytes 0 (unat to_read) bs (cl s) \<bind>
          (\<lambda>c. let s' = s\<lparr>cl := c, tm := t, wd := w\<rparr> in
            if rc = SUCCESS then
              let totalRead' = don + read_len';
                  to_read' = (if readBufSize c \<le> rem' - totalRead' then readBufSize c else rem' - totalRead')
              in if totalRead' < rem' then loop P' rem' totalRead' to_read' read_len' s'
                 else Some (rc, totalRead', s')
            else Some (rc, don, s'))) = Some y"
    show "?Q (((((P', rem'), don), to_read), read_len), s) y"
    proof (clarsimp)
      assume eq: "P' = P" "rem' = rem_len"
      obtain rc bs got t w where r: "net_read P (unat to_read) (tm s) (wd s) = Some (rc, bs, got, t, w)"
        using body by (auto simp: eq Option.bind_eq_Some_conv)
      obtain c where c: "store_bytes 0 (unat to_read) bs (cl s) = Some c"
        using body by (auto simp: eq r Let_def Option.bind_eq_Some_conv)
      let ?s = "s\<lparr>cl := c, tm := t, wd := w\<rparr>"
      let ?read = "case got of None \<Rightarrow> read_len | Some k \<Rightarrow> of_nat k"
      show "Q don to_read read_len s y"
      proof (cases "rc = SUCCESS \<and> don + ?read < rem_len")
        case True
        then obtain a b where "loop P rem_len (don + ?read) a ?read ?s = Some y"
          using body by (auto simp: eq r c Let_def)
        from IH [OF this] have "Q (don + ?read) a ?read ?s y" by simp
        then show ?thesis using assms(3) r c True by blast
      next
        case False
        then obtain d where "y = (rc, d, ?s)"
          using body by (auto simp: eq r c Let_def split: if_splits)
        then show ?thesis using assms(2) [OF r c] by simp
      qed
    qed
  qed
  then show ?thesis by simp
qed

lemma wait_loop_induct [consumes 1, case_names expired stop again]:
  assumes "wait_loop P packetType ptype s = Some y"
    and "\<And>ptype s s1. poll_tm P s = (True, s1) \<Longrightarrow> Q ptype s (MQTT_REQUEST_TIMEOUT_ERROR, s1)"
    and "\<And>ptype s s1 rc p' s2. poll_tm P s = (False, s1) \<Longrightarrow> cycle_read P ptype s1 = Some (rc, p', s2) \<Longrightarrow>
      \<not> ((rc = SUCCESS \<or> rc = MQTT_NOTHING_TO_READ) \<and> p' \<noteq> Some packetType) \<Longrightarrow> Q ptype s (rc, s2)"
    and "\<And>ptype s s1 rc p' s2 y. poll_tm P s = (False, s1) \<Longrightarrow> cycle_read P ptype s1 = Some (rc, p', s2) \<Longrightarrow>
      Q p' s2 y \<Longrightarrow> Q ptype s y"
  shows "Q ptype s y"
proof -
  let ?Q = "\<lambda>x y. case x of (((P', pt), ptype), s) \<Rightarrow> P' = P \<longrightarrow> pt = packetType \<longrightarrow> Q ptype s y"
  have "?Q (((P, packetType), ptype), s) y"
  proof (rule wait_loop.raw_induct [where Pa = ?Q, OF _ assms(1)])
    fix loop P' pt ptype s y
    assume IH: "\<And>a b c d y. loop a b c d = Some y \<Longrightarrow> ?Q (((a, b), c), d) y"
      and body: "(let (e, s) = poll_tm P' s in if e then Some (MQTT_REQUEST_TIMEOUT_ERROR, s)
        else cycle_read P' ptype s \<bind> (\<lambda>(rc, ptype, s).
          if (rc = SUCCESS \<or> rc = MQTT_NOTHING_TO_READ) \<and> ptype \<noteq> Some pt
          then loop P' pt ptype s else Some (rc, s))) = Some y"
    show "?Q (((P', pt), ptype), s) y"
    proof (clarsimp)
      assume eq: "P' = P" "pt = packetType"
      obtain e s1 where p: "poll_tm P s = (e, s1)" by (cases "poll_tm P s")
      show "Q ptype s y"
      proof (cases e)
        case True
        then show ?thesis using body assms(2) p eq by auto
      next
        case False
        then obtain rc p' s2 where c: "cycle_read P ptype s1 = Some (rc, p', s2)"
          using body by (auto simp: eq p Option.bind_eq_Some_conv)
        show ?thesis
        proof (cases "(rc = SUCCESS \<or> rc = MQTT_NOTHING_TO_READ) \<and> p' \<noteq> Some packetType")
          case True
          then have "loop P packetType p' s2 = Some y" using body False c by (simp add: eq p)
          from IH [OF this] have "Q p' s2 y" by simp
          then show ?thesis using assms(4) [OF _ c \<open>Q p' s2 y\<close>] p \<open>\<not> e\<close> by simp
        next
          case stop: False
          then have "y = (rc, s2)" using body False c by (auto simp: eq p)
          then show ?thesis using assms(3) [OF _ c stop] p False by simp
        qed
      qed
    qed
  qed
  then show ?thesis by simp
qed

lemma send_loop_cl:
  assumes "send_loop P len sent rc s = Some y"
  shows "cl (snd (snd y)) = cl s"
  using assms
  by (induction rule: send_loop_induct) (auto simp: poll_cl)

lemma send_packet_cl:
  assumes "send_packet P len s = Some (r, s')"
  shows "cl s' = cl s"
proof -
  obtain rc s1 where l: "client_lock_mutex P tls_write_mutex s = (rc, s1)"
    by (cases "client_lock_mutex P tls_write_mutex s")
  have s1: "cl s1 = cl s" using client_lock_cl(1) [of P tls_write_mutex s] l by simp
  show ?thesis
  proof (cases "send_loop P len 0 rc s1")
    case None
    then show ?thesis using assms s1 by (auto simp: send_packet_def l split: if_splits)
  next
    case (Some y)
    obtain sent rc2 s2 where y: "y = (sent, rc2, s2)" by (cases y)
    obtain rc3 s3 where u: "client_unlock_mutex P tls_write_mutex s2 = (rc3, s3)"
      by (cases "client_unlock_mutex P tls_write_mutex s2")
    have "cl s3 = cl s"
      using client_unlock_cl(1) [of P tls_write_mutex s2] send_loop_cl [OF Some] s1 by (simp add: y u)
    then show ?thesis
      using assms s1 Some by (auto simp: send_packet_def l y u split: if_splits)
  qed
qed

lemma remaining_len_step:
  "len < 4 \<Longrightarrow> remaining_len_loop P len m r s = readWrapper P (len + 1) 1 s \<bind> (\<lambda>(rc, l, s).
     if rc \<noteq> SUCCESS then Some (Inl rc, s)
     else byte_at (readBuf (cl s)) (len + 1) \<bind> (\<lambda>b.
       if b AND 128 \<noteq> 0 then remaining_len_loop P (len + 1) (m * 128) (r + ucast (b AND 127) * m) s
       else Some (Inr (len + 2, r + ucast (b AND 127) * m), s)))"
  by (subst remaining_len_loop.simps, unfold Let_def) simp

subsection \<open>The contract and the operations within it\<close>

text \<open>A platform whose message handlers stay within the relation.\<close>

definition callbacks_keep :: "(client \<Rightarrow> client \<Rightarrow> bool) \<Rightarrow> 'w platform \<Rightarrow> bool" where
  "callbacks_keep R P \<longleftrightarrow> mutexes_work P
     \<and> (\<forall>f data msg s s'. message_handler P f data msg s = Some s' \<longrightarrow> R (cl s) (cl s'))"

lemma callbacks_work: "callbacks_keep R P \<Longrightarrow> mutexes_work P"
  by (simp add: callbacks_keep_def)

lemma callbacks_handler: "callbacks_keep R P \<Longrightarrow> message_handler P f data msg s = Some s' \<Longrightarrow> R (cl s) (cl s')"
  unfolding callbacks_keep_def by blast

locale client_frame =
  fixes R :: "client \<Rightarrow> client \<Rightarrow> bool"
  assumes R_refl: "R c c"
    and R_trans: "R a b \<Longrightarrow> R b c \<Longrightarrow> R a c"
    and R_state: "R a b \<Longrightarrow> clientState b = clientState a"
    and R_bracket: "R (a\<lparr>clientState := x\<rparr>) b \<Longrightarrow> R a (b\<lparr>clientState := clientState a\<rparr>)"
    and R_put: "length bs \<le> unat (writeBufSize c) \<Longrightarrow> R c (put_packet bs c)"
    and R_store: "store_bytes pos n bs c = Some c' \<Longrightarrow> R c c'"
    and R_index: "R c (c\<lparr>readBufIndex := k\<rparr>)"
    and R_ping: "R c (c\<lparr>isPingOutstanding := outstanding\<rparr>)"
    and R_id: "R c (snd (get_next_packet_id c))"
begin

lemma readWrapper_frame:
  assumes "readWrapper P a b s = Some (rc, l, s')"
  shows "R (cl s) (cl s')"
proof (cases "0 < int (a + b) - int (readBufIndex (cl s))")
  case False
  then show ?thesis using assms by (simp add: readWrapper_def R_refl)
next
  case True
  with assms obtain bs c k where
    "store_bytes (readBufIndex (cl s)) (nat (int (a + b) - int (readBufIndex (cl s)))) bs (cl s) = Some c"
    "cl s' = c\<lparr>readBufIndex := k\<rparr>"
    by (auto simp: readWrapper_def Let_def Option.bind_eq_Some_conv split: prod.splits)
  then show ?thesis using R_trans [OF R_store R_index] by metis
qed

lemma remaining_len_frame:
  assumes "remaining_len_loop P len m r s = Some (v, s')"
  shows "R (cl s) (cl s')"
  using assms
proof (induction "4 - len" arbitrary: len m r s rule: less_induct)
  case less
  show ?case
  proof (cases "len < 4")
    case False
    then show ?thesis using less.prems by (simp add: remaining_len_loop.simps R_refl)
  next
    case True
    note run = less.prems [unfolded remaining_len_step [OF True]]
    then obtain rc l s1 where w: "readWrapper P (len + 1) 1 s = Some (rc, l, s1)"
      by (auto simp: Option.bind_eq_Some_conv)
    have s1: "R (cl s) (cl s1)" by (rule readWrapper_frame [OF w])
    note run = run [unfolded w Option.bind.simps prod.case]
    show ?thesis
    proof (cases "rc = SUCCESS")
      case False
      then show ?thesis using run s1 by (simp)
    next
      case ok: True
      then obtain b where b: "byte_at (readBuf (cl s1)) (len + 1) = Some b"
        using run by (cases "byte_at (readBuf (cl s1)) (len + 1)") (simp_all)
      show ?thesis
      proof (cases "b AND 128 = 0")
        case True
        then show ?thesis using run s1 ok b by (simp)
      next
        case more: False
        then have "remaining_len_loop P (len + 1) (m * 128) (r + ucast (b AND 127) * m) s1 = Some (v, s')"
          using run ok b by (simp)
        from less.hyps [OF _ this] True s1 show ?thesis using R_trans by simp
      qed
    qed
  qed
qed

lemma discard_frame:
  assumes "discard_loop P rem_len rd to_read read_len s = Some y"
  shows "R (cl s) (cl (snd (snd y)))"
  using assms
proof (induction rule: discard_loop_induct)
  case (stop rd to_read read_len s rc bs got t w c rd')
  then show ?case using R_store by simp
next
  case (again rd to_read read_len s bs got t w c rd' to_read' read_len' y)
  then show ?case using R_trans [OF R_store [OF again(2)]] by simp
qed

lemma R_flush: "R c (flushBuffers c)"
  unfolding flushBuffers_def by (rule R_index)

lemma read_packet_frame:
  assumes "read_packet P p s = Some (rc, p', s')"
  shows "R (cl s) (cl s')"
proof -
  let ?s = "snd (arm_ms P (packetTimeoutMs (cl s)) s)"
  obtain rc1 l s1 where h: "readWrapper P 0 1 ?s = Some (rc1, l, s1)"
    using assms by (auto simp: read_packet_def Option.bind_eq_Some_conv split: prod.splits)
  have R1: "R (cl s) (cl s1)" using readWrapper_frame [OF h] by simp
  show ?thesis
  proof (cases "rc1 = SUCCESS")
    case False
    then show ?thesis using assms R1 h by (auto simp: read_packet_def split: prod.splits if_splits)
  next
    case True
    then obtain v s2 where r: "remaining_len_loop P 0 1 0 s1 = Some (v, s2)"
      using assms h by (auto simp: read_packet_def Option.bind_eq_Some_conv split: prod.splits)
    have R2: "R (cl s) (cl s2)" using R_trans [OF R1 remaining_len_frame [OF r]] .
    show ?thesis
    proof (cases v)
      case (Inl e)
      then show ?thesis using assms R2 h r True by (auto simp: read_packet_def split: prod.splits)
    next
      case (Inr x)
      obtain offset rem_len where x: "x = (offset, rem_len)" by (cases x)
      show ?thesis
      proof (cases "readBufSize (cl s2) \<le> rem_len + of_nat offset")
        case big: True
        then obtain rc3 tot s3 where d: "discard_loop P rem_len 0 (readBufSize (cl s2)) (of_int l) s2 = Some (rc3, tot, s3)"
          "s' = s3 \<or> s' = upd flushBuffers s3"
          using assms h r True Inr x
          by (auto simp: read_packet_def Option.bind_eq_Some_conv split: prod.splits if_splits)
        have "R (cl s) (cl s3)" using R_trans [OF R2] discard_frame [OF d(1)] by simp
        then show ?thesis using d(2) R_trans [OF _ R_flush] by auto
      next
        case False
        then obtain rc3 l3 s3 where d: "(if 0 < rem_len then readWrapper P offset (unat rem_len) s2
            else Some (SUCCESS, 0, s2)) = Some (rc3, l3, s3)" "s' = s3 \<or> s' = upd flushBuffers s3"
          using assms h r True Inr x
          by (auto simp: read_packet_def Option.bind_eq_Some_conv split: prod.splits if_splits)
        have "R (cl s) (cl s3)"
          using R_trans [OF R2 readWrapper_frame] R2 d(1) by (auto split: if_splits)
        then show ?thesis using d(2) R_trans [OF _ R_flush] by auto
      qed
    qed
  qed
qed

lemma deliver_loop_frame:
  assumes "callbacks_keep R P"
  shows "deliver_loop P msg is s = Some s' \<Longrightarrow> R (cl s) (cl s')"
proof (induction "is" arbitrary: s)
  case Nil
  then show ?case by (simp add: R_refl)
next
  case (Cons i "is")
  let ?h = "messageHandlers (cl s) ! i"
  from Cons.prems obtain s1 where s1: "deliver_loop P msg is s1 = Some s'"
    "cl s1 = cl s \<or> (\<exists>f s2. message_handler P f (pApplicationHandlerData ?h) msg s = Some s2 \<and> cl s1 = cl s2)"
    by (fastforce simp: Let_def Option.bind_eq_Some_conv split: option.splits if_splits)
  have "R (cl s) (cl s1)" using s1(2) R_refl callbacks_handler [OF assms] by auto
  then show ?case using R_trans Cons.IH [OF s1(1)] by blast
qed

lemma deliver_frame:
  assumes K: "callbacks_keep R P" and run: "deliver_message P msg s = Some (rc, s')"
  shows "R (cl s) (cl s') \<and> rc = SUCCESS"
proof -
  let ?wait = "CLIENT_STATE_CONNECTED_WAIT_FOR_CB_RETURN"
  obtain w where set1: "set_client_state P (clientState (cl s)) ?wait s
      = (SUCCESS, s\<lparr>cl := (cl s)\<lparr>clientState := ?wait\<rparr>, wd := w\<rparr>)"
    using set_state_hit [OF callbacks_work [OF K], of s "clientState (cl s)" ?wait] by blast
  let ?s1 = "s\<lparr>cl := (cl s)\<lparr>clientState := ?wait\<rparr>, wd := w\<rparr>"
  obtain s2 where d: "deliver_loop P msg [0..<AWS_IOT_MQTT_NUM_SUBSCRIBE_HANDLERS] ?s1 = Some s2"
    "set_client_state P ?wait (clientState (cl s)) s2 = (rc, s')"
    using run by (auto simp: deliver_message_def set1 Option.bind_eq_Some_conv)
  have R2: "R ((cl s)\<lparr>clientState := ?wait\<rparr>) (cl s2)" using deliver_loop_frame [OF K d(1)] by simp
  from R_state [OF this] have "clientState (cl s2) = ?wait" by simp
  then obtain w' where "set_client_state P ?wait (clientState (cl s)) s2
      = (SUCCESS, s2\<lparr>cl := (cl s2)\<lparr>clientState := clientState (cl s)\<rparr>, wd := w'\<rparr>)"
    using set_state_hit [OF callbacks_work [OF K]] by blast
  with d(2) R_bracket [OF R2] show ?thesis by auto
qed

lemma serialize_ack_fits:
  assumes "serialize_ack cap t dup i = Some (Inr bs)"
  shows "length bs \<le> unat cap"
  using assms by (auto simp: serialize_ack_def emit_Some split: if_splits sum.splits)

lemma handle_publish_frame:
  assumes K: "callbacks_keep R P" and run: "handle_publish P s = Some (rc, s')"
  shows "R (cl s) (cl s')"
proof -
  obtain r where r: "deserialize_publish (readBuf (cl s)) (readBufSize (cl s)) = Some r"
    using assms by (auto simp: handle_publish_def Option.bind_eq_Some_conv)
  show ?thesis
  proof (cases r)
    case (Inl e)
    then show ?thesis using assms r by (simp add: handle_publish_def R_refl)
  next
    case (Inr msg)
    let ?s1 = "start_tm P (commandTimeoutMs (cl s)) s"
    obtain s2 where s2: "deliver_message P msg s2 = Some (rc, s')"
      "s2 = s \<or> cl s2 = cl s \<or> (\<exists>i bs rc3 s3. serialize_ack (writeBufSize (cl ?s1)) PUBACK 0 i = Some (Inr bs)
          \<and> send_packet P (length bs) (upd (put_packet bs) ?s1) = Some (rc3, s3) \<and> cl s2 = cl s3)"
    proof (cases "in_qos msg = QOS1")
      case False
      then show ?thesis using assms r Inr that [of s] by (simp add: handle_publish_def)
    next
      case True
      then obtain i a where ia: "in_id msg = Some i" "serialize_ack (writeBufSize (cl ?s1)) PUBACK 0 i = Some a"
        using assms r Inr by (auto simp: handle_publish_def Let_def Option.bind_eq_Some_conv)
      show ?thesis
      proof (cases a)
        case (Inl e)
        then have "deliver_message P msg (?s1\<lparr>tm := tm s\<rparr>) = Some (rc, s')"
          using assms r Inr True ia by (simp add: handle_publish_def Let_def)
        then show ?thesis by (rule that) simp
      next
        case a: (Inr bs)
        then obtain rc3 s3 where s3: "send_packet P (length bs) (upd (put_packet bs) ?s1) = Some (rc3, s3)"
          using assms r Inr True ia by (auto simp: handle_publish_def Let_def Option.bind_eq_Some_conv)
        then have "deliver_message P msg (s3\<lparr>tm := tm s\<rparr>) = Some (rc, s')"
          using assms r Inr True ia a by (simp add: handle_publish_def Let_def)
        then show ?thesis
          using s3 ia a by (intro that [of "s3\<lparr>tm := tm s\<rparr>"]) auto
      qed
    qed
    have "R (cl s) (cl s2)"
      using s2(2)
    proof (elim disjE exE conjE)
      fix i bs rc3 s3
      assume a: "serialize_ack (writeBufSize (cl ?s1)) PUBACK 0 i = Some (Inr bs)"
        "send_packet P (length bs) (upd (put_packet bs) ?s1) = Some (rc3, s3)" "cl s2 = cl s3"
      have "cl s3 = put_packet bs (cl s)" using send_packet_cl [OF a(2)] by simp
      moreover have "length bs \<le> unat (writeBufSize (cl s))" using serialize_ack_fits [OF a(1)] by simp
      ultimately show ?thesis using a(3) R_put by simp
    qed (simp_all add: R_refl)
    then show ?thesis using R_trans deliver_frame [OF K s2(1)] by blast
  qed
qed

lemma cycle_read_frame:
  assumes K: "callbacks_keep R P" and run: "cycle_read P p s = Some (rc, p', s')"
  shows "R (cl s) (cl s')"
proof -
  obtain w1 where l: "client_lock_mutex P tls_read_mutex s = (SUCCESS, s\<lparr>wd := w1\<rparr>)"
    using client_lockE [OF callbacks_work [OF K]] .
  obtain rc1 p1 s1 where r: "read_packet P p (s\<lparr>wd := w1\<rparr>) = Some (rc1, p1, s1)"
    using run by (auto simp: cycle_read_def l Option.bind_eq_Some_conv)
  obtain w2 where u: "client_unlock_mutex P tls_read_mutex s1 = (SUCCESS, s1\<lparr>wd := w2\<rparr>)"
    using client_unlockE [OF callbacks_work [OF K]] .
  have R1: "R (cl s) (cl s1)" using read_packet_frame [OF r] by simp
  from assms consider "cl s' = cl s1" | "s' = upd (isPingOutstanding_update (\<lambda>_. False)) (s1\<lparr>wd := w2\<rparr>)"
    | rc2 where "handle_publish P (s1\<lparr>wd := w2\<rparr>) = Some (rc2, s')"
    by (auto simp: cycle_read_def l r u Option.bind_eq_Some_conv split: if_splits)
  then show ?thesis
  proof cases
    case 1
    then show ?thesis using R1 by simp
  next
    case 2
    then show ?thesis using R_trans [OF R1 R_ping] by simp
  next
    case 3
    then show ?thesis using R_trans [OF R1] handle_publish_frame [OF K] by fastforce
  qed
qed

lemma wait_loop_frame:
  assumes K: "callbacks_keep R P" and run: "wait_loop P t p s = Some y"
  shows "R (cl s) (cl (snd y))"
  using run
proof (induction rule: wait_loop_induct)
  case (expired ptype s s1)
  then show ?case using poll_cl R_refl by fastforce
next
  case (stop ptype s s1 rc p' s2)
  then show ?case using cycle_read_frame [OF K stop(2)] poll_cl by fastforce
next
  case (again ptype s s1 rc p' s2 y)
  then show ?case using R_trans [OF cycle_read_frame [OF K again(2)]] poll_cl by fastforce
qed

lemma await_frame:
  assumes K: "callbacks_keep R P" and run: "await_answer P t dec s = Some (r, s')"
  shows "R (cl s) (cl s')"
proof -
  obtain rc s1 where w: "wait_for_read P (msg_code t) s = Some (rc, s1)"
    using run by (auto simp: await_answer_def Option.bind_eq_Some_conv)
  then have "s' = s1" using run by (auto simp: await_answer_def Option.bind_eq_Some_conv split: if_splits)
  then show ?thesis using wait_loop_frame [OF K w [unfolded wait_for_read_def]] by simp
qed

lemma send_serialized_frame:
  assumes "send_serialized P packet s = Some (rc, s')"
    and "\<And>bs. packet = Some (Inr bs) \<Longrightarrow> length bs \<le> unat (writeBufSize (cl s))"
  shows "R (cl s) (cl s')"
proof -
  obtain r where r: "packet = Some r" using assms(1) by (auto simp: send_serialized_def Option.bind_eq_Some_conv)
  show ?thesis
  proof (cases r)
    case (Inl e)
    then show ?thesis using assms(1) r by (simp add: send_serialized_def R_refl)
  next
    case (Inr bs)
    then have "send_packet P (length bs) (upd (put_packet bs) s) = Some (rc, s')"
      using assms(1) r by (simp add: send_serialized_def)
    from send_packet_cl [OF this] show ?thesis using assms(2) r Inr R_put by simp
  qed
qed

lemma send_and_await_frame:
  assumes K: "callbacks_keep R P" and run: "send_and_await P len t dec s = Some (r, s')"
  shows "R (cl s) (cl s')"
proof -
  obtain rc s1 where send: "send_packet P len s = Some (rc, s1)"
    and rest: "s' = s1 \<or> await_answer P t dec s1 = Some (r, s')"
    using run by (auto simp: send_and_await_def Option.bind_eq_Some_conv split: if_splits)
  have c: "cl s1 = cl s" by (rule send_packet_cl [OF send])
  from rest show ?thesis
  proof
    assume "await_answer P t dec s1 = Some (r, s')"
    from await_frame [OF K this] show ?thesis by (simp add: c)
  qed (simp add: c R_refl)
qed

lemma exchange_frame:
  assumes K: "callbacks_keep R P" and run: "exchange P packet t dec s = Some (r, s')"
    and fits: "\<And>bs. packet = Some (Inr bs) \<Longrightarrow> length bs \<le> unat (writeBufSize (cl s))"
  shows "R (cl s) (cl s')"
proof -
  obtain p where p: "packet = Some p" using run by (auto simp: exchange_def Option.bind_eq_Some_conv)
  show ?thesis
  proof (cases p)
    case (Inl e)
    then show ?thesis using run p by (simp add: exchange_def R_refl)
  next
    case (Inr bs)
    then have "send_and_await P (length bs) t dec (upd (put_packet bs) s) = Some (r, s')"
      using run p by (simp add: exchange_def)
    from send_and_await_frame [OF K this] R_put [OF fits] p Inr show ?thesis
      using R_trans by simp
  qed
qed

lemma take_packet_id_frame: "take_packet_id s = (i, s') \<Longrightarrow> R (cl s) (cl s')"
  using R_id [of "cl s"] by (auto simp: take_packet_id_def split: prod.splits)

lemma with_timer_frame:
  assumes "with_timer P body s = Some (r, s')"
    and "\<And>s r s'. body s = Some (r, s') \<Longrightarrow> R (cl s) (cl s')"
  shows "R (cl s) (cl s')"
  using assms(1) assms(2) [of "start_tm P (commandTimeoutMs (cl s)) s"]
  by (auto simp: with_timer_def Option.bind_eq_Some_conv)

end

end
