(* ===== verification/MqttApiFrame.thy ===== *)
theory MqttApiFrame
  imports MqttFrame
begin

text \<open>
  The commands of the client within the contract of \<^theory_text>\<open>MqttFrame\<close>: a locale that extends
  it by the changes a command itself makes to the client. Every command returns the client to
  the state in which it found it; connecting and disconnecting move between states as their
  results say.
\<close>

lemma serialize_subscribe_fits:
  "serialize_subscribe cap dup i ts = Some (Inr bs) \<Longrightarrow> length bs \<le> unat cap"
  by (auto simp: serialize_subscribe_def Let_def Option.bind_eq_Some_conv emit_Some split: if_splits sum.splits)

lemma serialize_unsubscribe_fits:
  "serialize_unsubscribe cap dup i ts = Some (Inr bs) \<Longrightarrow> length bs \<le> unat cap"
  by (auto simp: serialize_unsubscribe_def Let_def Option.bind_eq_Some_conv emit_Some split: if_splits sum.splits)

lemma serialize_zero_fits: "serialize_zero cap t = Some (Inr bs) \<Longrightarrow> length bs \<le> unat cap"
  by (auto simp: serialize_zero_def emit_Some split: if_splits sum.splits)

lemma serialize_publish_fits:
  "serialize_publish cap dup qos r i p n pl m = Some (Inr bs) \<Longrightarrow> length bs \<le> unat cap"
  by (auto elim: serialize_publish_Some)

lemma serialize_connect_fits: "serialize_connect cap p = Some (Inr bs) \<Longrightarrow> length bs \<le> unat cap"
  unfolding serialize_connect_def Let_def
  by (auto simp: Option.bind_eq_Some_conv emit_Some split: if_splits sum.splits)

text \<open>What a public operation does around its body: it runs in the busy state and, when the body ends in
  that state, the state found before comes back and the result is the body's.\<close>

lemma enter_operationE:
  assumes works: "mutexes_work P" and run: "enter_operation P busy body s = Some (rc, s')"
    and keeps: "\<And>w opRc s2. body (s\<lparr>cl := (cl s)\<lparr>clientState := busy\<rparr>, wd := w\<rparr>) = Some (opRc, s2) \<Longrightarrow>
      clientState (cl s2) = busy"
  obtains w s2 w' where "body (s\<lparr>cl := (cl s)\<lparr>clientState := busy\<rparr>, wd := w\<rparr>) = Some (rc, s2)"
    "s' = s2\<lparr>cl := (cl s2)\<lparr>clientState := clientState (cl s)\<rparr>, wd := w'\<rparr>"
proof -
  obtain w where set1: "set_client_state P (clientState (cl s)) busy s
      = (SUCCESS, s\<lparr>cl := (cl s)\<lparr>clientState := busy\<rparr>, wd := w\<rparr>)"
    using set_state_hit [OF works, of s "clientState (cl s)" busy] by blast
  obtain opRc s2 where b: "body (s\<lparr>cl := (cl s)\<lparr>clientState := busy\<rparr>, wd := w\<rparr>) = Some (opRc, s2)"
    using run by (auto simp: enter_operation_def set1 Option.bind_eq_Some_conv)
  from keeps [OF b] obtain w' where set2: "set_client_state P busy (clientState (cl s)) s2
      = (SUCCESS, s2\<lparr>cl := (cl s2)\<lparr>clientState := clientState (cl s)\<rparr>, wd := w'\<rparr>)"
    using set_state_hit [OF works] by blast
  from run b have "rc = opRc" "s' = s2\<lparr>cl := (cl s2)\<lparr>clientState := clientState (cl s)\<rparr>, wd := w'\<rparr>"
    by (auto simp: enter_operation_def set1 set2)
  with b show ?thesis using that by blast
qed

locale client_api_frame = client_frame +
  assumes R_register: "R c (register_handler i name nameLen q h d c)"
    and R_resubscribed: "R c (mark_resubscribed i c)"
    and R_remove: "remove_handlers topic (messageHandlers c) = Some hs \<Longrightarrow> R c (c\<lparr>messageHandlers := hs\<rparr>)"
    and R_params: "R c (set_connect_params p c)"
    and R_keep_alive: "R c (c\<lparr>keepAliveInterval := secs\<rparr>)"
    and R_ping_timer: "R c (c\<lparr>pingReqTimer := t\<rparr>)"
begin

lemma publish_exchange_frame:
  assumes K: "callbacks_keep R P" and run: "publish_exchange P name n params s = Some (r, s')"
  shows "R (cl s) (cl s')"
proof -
  obtain ps s1 where st: "choose_packet_id params s = (ps, s1)" by (cases "choose_packet_id params s")
  have R1: "R (cl s) (cl s1)"
    using st take_packet_id_frame R_refl by (auto simp: choose_packet_id_def split: if_splits prod.splits)
  let ?packet = "serialize_publish (writeBufSize (cl s1)) 0 (msg_qos ps) (msg_isRetained ps) (msg_id ps)
      name n (msg_payload ps) (msg_payloadLen ps)"
  have "(\<exists>x. exchange P ?packet PUBACK deserialize_ack s1 = Some (x, s'))
      \<or> (\<exists>x. send_serialized P ?packet s1 = Some (x, s'))"
    using run by (auto simp: publish_exchange_def st Let_def Option.bind_eq_Some_conv split: if_splits)
  then have "R (cl s1) (cl s')"
  proof (elim disjE exE)
    fix x
    show "exchange P ?packet PUBACK deserialize_ack s1 = Some (x, s') \<Longrightarrow> R (cl s1) (cl s')"
      by (erule exchange_frame [OF K]) (rule serialize_publish_fits)
  next
    fix x
    show "send_serialized P ?packet s1 = Some (x, s') \<Longrightarrow> R (cl s1) (cl s')"
      by (erule send_serialized_frame) (rule serialize_publish_fits)
  qed
  with R1 show ?thesis by (rule R_trans)
qed

lemma internal_publish_frame:
  "callbacks_keep R P \<Longrightarrow> internal_publish P name n params s = Some (r, s') \<Longrightarrow> R (cl s) (cl s')"
  unfolding internal_publish_def by (blast intro: with_timer_frame publish_exchange_frame)

lemma enter_operation_frame:
  assumes K: "callbacks_keep R P" and run: "enter_operation P busy body s = Some (rc, s')"
    and body: "\<And>s r s'. body s = Some (r, s') \<Longrightarrow> R (cl s) (cl s')"
  shows "R (cl s) (cl s')"
proof -
  have "clientState (cl s2) = busy"
    if "body (s\<lparr>cl := (cl s)\<lparr>clientState := busy\<rparr>, wd := w\<rparr>) = Some (opRc, s2)" for w opRc s2
    using R_state [OF body [OF that]] by simp
  with run obtain w s2 w' where b: "body (s\<lparr>cl := (cl s)\<lparr>clientState := busy\<rparr>, wd := w\<rparr>) = Some (rc, s2)"
    "s' = s2\<lparr>cl := (cl s2)\<lparr>clientState := clientState (cl s)\<rparr>, wd := w'\<rparr>"
    by (rule enter_operationE [OF callbacks_work [OF K]])
  have "R ((cl s)\<lparr>clientState := busy\<rparr>) (cl s2)" using body [OF b(1)] by simp
  from R_bracket [OF this] show ?thesis by (simp add: b(2))
qed

lemma publish_frame:
  assumes K: "callbacks_keep R P" and run: "aws_iot_mqtt_publish P name n params s = Some (rc, s')"
  shows "R (cl s) (cl s')"
proof -
  consider "s' = s" | p where "enter_operation P CLIENT_STATE_CONNECTED_PUBLISH_IN_PROGRESS (\<lambda>s. do {
      ((rc, _), s) \<leftarrow> internal_publish P name n p s; Some (rc, s) }) s = Some (rc, s')"
    using run by (auto simp: aws_iot_mqtt_publish_def split: option.splits if_splits)
  then show ?thesis
  proof cases
    case 1
    then show ?thesis by (simp add: R_refl)
  next
    case 2
    show ?thesis
      using enter_operation_frame [OF K 2] internal_publish_frame [OF K]
      by (auto simp: Option.bind_eq_Some_conv) blast
  qed
qed

lemma subscribe_exchange_frame:
  assumes K: "callbacks_keep R P" and run: "subscribe_exchange P name n q h d s = Some (rc, s')"
  shows "R (cl s) (cl s')"
proof -
  obtain i s1 where id: "take_packet_id s = (i, s1)" by (cases "take_packet_id s")
  have R1: "R (cl s) (cl s1)" by (rule take_packet_id_frame [OF id])
  obtain p where p: "serialize_subscribe (writeBufSize (cl s1)) 0 i [(name, n, q)] = Some p"
    using run by (auto simp: subscribe_exchange_def id Option.bind_eq_Some_conv)
  show ?thesis
  proof (cases p)
    case (Inl e)
    then show ?thesis using run p R1 by (simp add: subscribe_exchange_def id)
  next
    case (Inr bs)
    let ?s2 = "upd (put_packet bs) s1"
    have R2: "R (cl s) (cl ?s2)"
      using R_trans [OF R1 R_put] serialize_subscribe_fits p Inr by simp
    show ?thesis
    proof (cases "AWS_IOT_MQTT_NUM_SUBSCRIBE_HANDLERS \<le> get_free_message_handler_index (cl ?s2)")
      case True
      then show ?thesis using run p Inr R2 by (simp add: subscribe_exchange_def id Let_def)
    next
      case False
      then obtain r s3 where e: "send_and_await P (length bs) SUBACK granted_one ?s2 = Some (r, s3)"
        using run p Inr by (auto simp: subscribe_exchange_def id Let_def Option.bind_eq_Some_conv)
      have R3: "R (cl s) (cl s3)" using R_trans [OF R2 send_and_await_frame [OF K e]] .
      show ?thesis
        using run p Inr False e R3 R_trans [OF R3 R_register]
        by (cases r) (auto simp: subscribe_exchange_def id Let_def)
    qed
  qed
qed

lemma internal_subscribe_frame:
  "callbacks_keep R P \<Longrightarrow> internal_subscribe P name n q h d s = Some (r, s') \<Longrightarrow> R (cl s) (cl s')"
  unfolding internal_subscribe_def by (blast intro: with_timer_frame subscribe_exchange_frame)

lemma subscribe_frame:
  assumes K: "callbacks_keep R P" and run: "aws_iot_mqtt_subscribe P name n q h d s = Some (rc, s')"
  shows "R (cl s) (cl s')"
proof -
  consider "s' = s" | "enter_operation P CLIENT_STATE_CONNECTED_SUBSCRIBE_IN_PROGRESS
      (internal_subscribe P name n q h d) s = Some (rc, s')"
    using run by (auto simp: aws_iot_mqtt_subscribe_def split: if_splits)
  then show ?thesis
  proof cases
    case 1
    then show ?thesis by (simp add: R_refl)
  next
    case 2
    then show ?thesis using enter_operation_frame [OF K 2] internal_subscribe_frame [OF K] by blast
  qed
qed

lemma resubscribe_exchange_frame:
  assumes K: "callbacks_keep R P" and run: "resubscribe_exchange P i s = Some (rc, s')"
  shows "R (cl s) (cl s')"
proof -
  obtain k s1 where id: "take_packet_id s = (k, s1)" by (cases "take_packet_id s")
  have R1: "R (cl s) (cl s1)" by (rule take_packet_id_frame [OF id])
  from run obtain r s2 packet where e: "exchange P packet SUBACK granted_one s1 = Some (r, s2)"
    and packet: "packet = serialize_subscribe (writeBufSize (cl s1)) 0 k
      [(topicName (messageHandlers (cl s1) ! i), topicNameLen (messageHandlers (cl s1) ! i),
        handler_qos (messageHandlers (cl s1) ! i))]"
    by (auto simp: resubscribe_exchange_def id Let_def Option.bind_eq_Some_conv)
  have R2: "R (cl s) (cl s2)"
    using R_trans [OF R1 exchange_frame [OF K e [unfolded packet]]] serialize_subscribe_fits by blast
  show ?thesis
    using run e R2 R_trans [OF R2 R_resubscribed] unfolding packet
    by (cases r) (auto simp: resubscribe_exchange_def id)
qed

lemma resubscribe_loop_frame:
  assumes K: "callbacks_keep R P"
  shows "resubscribe_loop P is s = Some (rc, s') \<Longrightarrow> R (cl s) (cl s')"
proof (induction "is" arbitrary: s)
  case Nil
  then show ?case by (simp add: R_refl)
next
  case (Cons i "is")
  show ?case
  proof (cases "topicName (messageHandlers (cl s) ! i) = None \<or> resubscribed (messageHandlers (cl s) ! i)")
    case True
    then show ?thesis using Cons by auto
  next
    case False
    then obtain rc2 s2 where e: "with_timer P (resubscribe_exchange P i) s = Some (rc2, s2)"
      "s' = s2 \<or> resubscribe_loop P is s2 = Some (rc, s')"
      using Cons.prems by (auto simp: Let_def Option.bind_eq_Some_conv split: if_splits)
    have "R (cl s) (cl s2)" using with_timer_frame [OF e(1)] resubscribe_exchange_frame [OF K] by blast
    then show ?thesis using e(2) Cons.IH R_trans by blast
  qed
qed

lemma unsubscribe_exchange_frame:
  assumes K: "callbacks_keep R P" and run: "unsubscribe_exchange P f n s = Some (rc, s')"
  shows "R (cl s) (cl s')"
proof -
  obtain k s1 where id: "take_packet_id s = (k, s1)" by (cases "take_packet_id s")
  have R1: "R (cl s) (cl s1)" by (rule take_packet_id_frame [OF id])
  from run obtain r s2 where e: "exchange P (serialize_unsubscribe (writeBufSize (cl s1)) 0 k [(Some f, n)])
      UNSUBACK deserialize_unsuback s1 = Some (r, s2)"
    by (auto simp: unsubscribe_exchange_def id Option.bind_eq_Some_conv)
  have R2: "R (cl s) (cl s2)"
    using R_trans [OF R1 exchange_frame [OF K e]] serialize_unsubscribe_fits by blast
  show ?thesis
    using run e R2 R_trans [OF R2 R_remove]
    by (cases r) (auto simp: unsubscribe_exchange_def id Option.bind_eq_Some_conv)
qed

lemma unsubscribe_frame:
  assumes K: "callbacks_keep R P" and run: "aws_iot_mqtt_unsubscribe P f n s = Some (rc, s')"
  shows "R (cl s) (cl s')"
proof (cases "f = None \<or> \<not> is_client_connected (cl s) \<or> \<not> may_start (cl s)")
  case True
  then show ?thesis using run by (auto simp: aws_iot_mqtt_unsubscribe_def R_refl split: option.splits if_splits)
next
  case False
  then obtain g where g: "f = Some g" by auto
  let ?busy = "CLIENT_STATE_CONNECTED_UNSUBSCRIBE_IN_PROGRESS"
  obtain w where set1: "set_client_state P (clientState (cl s)) ?busy s
      = (SUCCESS, s\<lparr>cl := (cl s)\<lparr>clientState := ?busy\<rparr>, wd := w\<rparr>)"
    using set_state_hit [OF callbacks_work [OF K], of s "clientState (cl s)" ?busy] by blast
  let ?s1 = "s\<lparr>cl := (cl s)\<lparr>clientState := ?busy\<rparr>, wd := w\<rparr>"
  obtain rc2 s2 where b: "internal_unsubscribe P g n ?s1 = Some (rc2, s2)"
    using run False by (auto simp: aws_iot_mqtt_unsubscribe_def g set1 Let_def Option.bind_eq_Some_conv)
  have R2: "R ((cl s)\<lparr>clientState := ?busy\<rparr>) (cl s2)"
  proof (cases "s2 = ?s1")
    case True
    then show ?thesis by (simp add: R_refl)
  next
    case False
    then have "with_timer P (unsubscribe_exchange P g n) ?s1 = Some (rc2, s2)"
      using b by (auto simp: internal_unsubscribe_def Option.bind_eq_Some_conv split: if_splits)
    from with_timer_frame [OF this] unsubscribe_exchange_frame [OF K] show ?thesis by fastforce
  qed
  from R_state [OF this] have "clientState (cl s2) = ?busy" by simp
  then obtain w' where "set_client_state P ?busy (clientState (cl s)) s2
      = (SUCCESS, s2\<lparr>cl := (cl s2)\<lparr>clientState := clientState (cl s)\<rparr>, wd := w'\<rparr>)"
    using set_state_hit [OF callbacks_work [OF K]] by blast
  with run False b R_bracket [OF R2] show ?thesis
    by (auto simp: aws_iot_mqtt_unsubscribe_def g set1 Let_def)
qed

lemma connect_exchange_frame:
  assumes K: "callbacks_keep R P" and run: "connect_exchange P s = Some (rc, s')"
  shows "R (cl s) (cl s')"
proof -
  let ?s0 = "upd (\<lambda>c. c\<lparr>keepAliveInterval := keepAliveIntervalInSec (options c)\<rparr>) s"
  have R0: "R (cl s) (cl ?s0)" using R_keep_alive by simp
  obtain r s2 where e: "exchange P (serialize_connect (writeBufSize (cl ?s0)) (options (cl ?s0)))
      CONNACK deserialize_connack ?s0 = Some (r, s2)"
    using run by (auto simp: connect_exchange_def Option.bind_eq_Some_conv)
  have R2: "R (cl s) (cl s2)"
    using R_trans [OF R0 exchange_frame [OF K e]] serialize_connect_fits by blast
  show ?thesis
  proof (cases "s' = s2")
    case True
    then show ?thesis using R2 by simp
  next
    case False
    let ?s3 = "upd (isPingOutstanding_update (\<lambda>_. False)) s2"
    obtain t s4 where t: "arm_sec P (ucast (keepAliveInterval (cl ?s3))) ?s3 = (t, s4)"
      by (cases "arm_sec P (ucast (keepAliveInterval (cl ?s3))) ?s3")
    have c4: "cl s4 = (cl s2)\<lparr>isPingOutstanding := False\<rparr>"
      using arm_sec_cl(1) [of P "ucast (keepAliveInterval (cl ?s3))" ?s3] unfolding t by simp
    have s': "s' = upd (pingReqTimer_update (\<lambda>_. t)) s4"
      using run e False t by (auto simp: connect_exchange_def split: sum.splits if_splits)
    have "R (cl s2) (cl s4)" unfolding c4 by (rule R_ping)
    from R_trans [OF R_trans [OF R2 this] R_ping_timer] show ?thesis by (simp add: s')
  qed
qed

lemma internal_connect_frame:
  assumes K: "callbacks_keep R P" and run: "internal_connect P p s = Some (rc, s')"
  shows "R (cl s) (cl s')"
proof -
  let ?s0 = "case p of None \<Rightarrow> s | Some p \<Rightarrow> upd (set_connect_params p) s"
  have R0: "R (cl s) (cl ?s0)" by (cases p) (simp_all add: R_refl R_params)
  obtain rc1 s1 where n: "on_world (net_connect P) ?s0 = (rc1, s1)" by (cases "on_world (net_connect P) ?s0")
  have R1: "R (cl s) (cl s1)" using R0 on_world_simps(1) [of "net_connect P" ?s0] by (simp add: n)
  have "s' = s1 \<or> with_timer P (connect_exchange P) s1 = Some (rc, s')"
    using run by (auto simp: internal_connect_def n split: if_splits)
  then show ?thesis
    using R1 R_trans [OF R1] with_timer_frame connect_exchange_frame [OF K] by metis
qed

end

end
