(* ===== verification/MqttSample.thy ===== *)
theory MqttSample
  imports MqttFrame
begin

text \<open>
  A concrete platform: a clock that moves on by one tick each time it is read, a link that
  hands over a queue of received bytes and collects what is sent, mutexes that work, and
  handlers that do nothing. The statements about the client are tried on it.
\<close>

record link =
  clock :: int
  incoming :: "u8 list"
  outgoing :: "u8 list"

definition link_read :: "nat \<Rightarrow> Timer \<Rightarrow> link \<Rightarrow> (IoT_Error_t \<times> u8 list \<times> nat option \<times> Timer \<times> link) option" where
  "link_read n t w = Some
     (if incoming w = [] then (NETWORK_SSL_NOTHING_TO_READ, [], None, t, w)
      else if length (incoming w) < n
      then (NETWORK_SSL_READ_TIMEOUT_ERROR, incoming w, None, t, w\<lparr>incoming := []\<rparr>)
      else (SUCCESS, take n (incoming w), Some n, t, w\<lparr>incoming := drop n (incoming w)\<rparr>))"

definition link_write :: "u8 list \<Rightarrow> Timer \<Rightarrow> link \<Rightarrow> (IoT_Error_t \<times> nat \<times> Timer \<times> link) option" where
  "link_write bs t w = Some (SUCCESS, length bs, t, w\<lparr>outgoing := outgoing w @ bs\<rparr>)"

definition demo :: "link platform" where
  "demo =
     \<lparr>get_ticks = \<lambda>w. (of_int (clock w), w\<lparr>clock := clock w + 1\<rparr>),
      delay_tick = \<lambda>w. w\<lparr>clock := clock w + 1\<rparr>,
      mutex_init = \<lambda>m w. (SUCCESS, w), mutex_lock = \<lambda>m w. (SUCCESS, w),
      mutex_trylock = \<lambda>m w. (SUCCESS, w), mutex_unlock = \<lambda>m w. (SUCCESS, w),
      mutex_destroy = \<lambda>m w. (SUCCESS, w),
      net_init = \<lambda>p w. (SUCCESS, w), net_connect = \<lambda>w. (SUCCESS, w),
      net_read = link_read, net_write = link_write,
      net_disconnect = \<lambda>w. (SUCCESS, w),
      net_is_connected = Some (\<lambda>w. (NETWORK_PHYSICAL_LAYER_CONNECTED, w)),
      net_destroy = \<lambda>w. (SUCCESS, w),
      message_handler = \<lambda>f d msg s. Some s, disconnect_handler = \<lambda>f d s. Some s\<rparr>"

text \<open>The same with a link on which every write fails.\<close>

definition dead_link :: "link platform" where
  "dead_link = demo\<lparr>net_write := \<lambda>bs t w. Some (NETWORK_SSL_WRITE_ERROR, 0, t, w)\<rparr>"

text \<open>A link that is gone: reading fails, the physical layer is down, and time passes quickly.\<close>

definition unplugged :: "link platform" where
  "unplugged = demo\<lparr>get_ticks := \<lambda>w. (of_int (clock w), w\<lparr>clock := clock w + 1000\<rparr>),
     net_read := \<lambda>n t w. Some (NETWORK_SSL_READ_ERROR, [], None, t, w),
     net_is_connected := Some (\<lambda>w. (NETWORK_PHYSICAL_LAYER_DISCONNECTED, w))\<rparr>"

definition no_handler :: MessageHandlers where
  "no_handler = \<lparr>topicName = None, topicNameLen = 0, resubscribed = False, handler_qos = QOS0,
     pApplicationHandler = None, pApplicationHandlerData = 0\<rparr>"

definition idle_client :: client where
  "idle_client =
     \<lparr>pingReqTimer = init_timer, pingRespTimer = init_timer, reconnectDelayTimer = init_timer,
      clientState = CLIENT_STATE_CONNECTED_IDLE, isPingOutstanding = False, isAutoReconnectEnabled = True,
      nextPacketId = 1, packetTimeoutMs = 20000, commandTimeoutMs = 20000, keepAliveInterval = 10,
      currentReconnectWaitInterval = 1000, counterNetworkDisconnected = 0,
      writeBufSize = AWS_IOT_MQTT_TX_BUF_LEN, readBufSize = AWS_IOT_MQTT_RX_BUF_LEN, readBufIndex = 0,
      writeBuf = replicate 512 0, readBuf = replicate 512 0, isBlockOnThreadLockEnabled = True,
      options = default_connect_params, messageHandlers = replicate 5 no_handler,
      disconnectHandler = None, disconnectHandlerData = 0\<rparr>"

definition idle_state :: "u8 list \<Rightarrow> link st" where
  "idle_state received = \<lparr>cl = idle_client, tm = init_timer,
     wd = \<lparr>clock = 0, incoming = received, outgoing = []\<rparr>\<rparr>"

definition demo_topic :: pointer where
  "demo_topic = Some (cstr (bytes_of ''a/b''))"

definition demo_message :: IoT_Publish_Message_Params where
  "demo_message = \<lparr>msg_qos = QOS0, msg_isRetained = 0, msg_isDup = 0, msg_id = 0,
     msg_payload = Some (bytes_of ''hi''), msg_payloadLen = 2\<rparr>"

definition demo_connect :: IoT_Client_Connect_Params where
  "demo_connect = default_connect_params\<lparr>pClientID := Some (cstr (bytes_of ''x'')), clientIDLen := 1\<rparr>"

declare send_loop.simps [code] discard_loop.simps [code] wait_loop.simps [code] yield_loop.simps [code]

lemma demo_works: "mutexes_work demo" "mutexes_work dead_link" "mutexes_work unplugged"
  by (simp_all add: mutexes_work_def demo_def dead_link_def unplugged_def)

lemma demo_keeps:
  assumes "\<And>c. R c c"
  shows "callbacks_keep R demo" "callbacks_keep R dead_link" "callbacks_keep R unplugged"
  using assms demo_works by (auto simp: callbacks_keep_def demo_def dead_link_def unplugged_def)

end
