(* ===== verification/MqttClientProperties.thy ===== *)
theory MqttClientProperties
  imports MqttApiFrame MqttSample
begin

text \<open>
  The contracts of \<^theory_text>\<open>MqttFrame\<close> and \<^theory_text>\<open>MqttApiFrame\<close> on the client's invariant and on
  its table of subscriptions, and the properties of the commands: what they leave alone, what
  they register, which state a connection attempt leaves, and what a sender learns about the
  fate of its packet.
\<close>

subsection \<open>The invariant of the client\<close>

definition client_ok :: "client \<Rightarrow> bool" where
  "client_ok c \<longleftrightarrow> writeBufSize c = AWS_IOT_MQTT_TX_BUF_LEN \<and> length (writeBuf c) = 512
     \<and> readBufSize c = AWS_IOT_MQTT_RX_BUF_LEN \<and> length (readBuf c) = 512
     \<and> length (messageHandlers c) = AWS_IOT_MQTT_NUM_SUBSCRIBE_HANDLERS \<and> nextPacketId c \<noteq> 0"

definition keeps_ok :: "client \<Rightarrow> client \<Rightarrow> bool" where
  "keeps_ok a b \<longleftrightarrow> clientState b = clientState a \<and> (client_ok a \<longrightarrow> client_ok b)"

definition keeps_table :: "client \<Rightarrow> client \<Rightarrow> bool" where
  "keeps_table a b \<longleftrightarrow> clientState b = clientState a \<and> messageHandlers b = messageHandlers a"

lemma next_packet_id_nonzero: "nextPacketId c \<noteq> 0 \<Longrightarrow> nextPacketId (snd (get_next_packet_id c)) \<noteq> 0"
proof -
  have "x = 65535" if "x + 1 = 0" for x :: u16
  proof -
    from that have "x = - 1" by (simp add: eq_neg_iff_add_eq_0)
    then show ?thesis by simp
  qed
  then show ?thesis by (auto simp: get_next_packet_id_def MAX_PACKET_ID_def Let_def)
qed

lemma length_remove_handlers: "remove_handlers f hs = Some hs' \<Longrightarrow> length hs' = length hs"
  by (induction hs arbitrary: hs') (auto simp: Option.bind_eq_Some_conv)

lemma store_bytes_same:
  assumes "store_bytes pos n bs c = Some c'"
  shows "\<exists>buf. c' = c\<lparr>readBuf := buf\<rparr> \<and> length buf = length (readBuf c)"
  using assms by (auto simp: store_bytes_def split: if_splits)

interpretation table: client_frame keeps_table
  by unfold_locales
    (auto simp: keeps_table_def put_packet_def get_next_packet_id_def Let_def dest!: store_bytes_same)

interpretation ok: client_api_frame keeps_ok
proof unfold_locales
  fix c :: client and bs :: "u8 list"
  assume "length bs \<le> unat (writeBufSize c)"
  then show "keeps_ok c (put_packet bs c)"
    by (auto simp: keeps_ok_def put_packet_def client_ok_def AWS_IOT_MQTT_TX_BUF_LEN_def)
next
  fix c :: client
  have "keeps_ok c (c\<lparr>nextPacketId := i\<rparr>)" if "nextPacketId c \<noteq> 0 \<longrightarrow> i \<noteq> 0" for i
    using that by (simp add: keeps_ok_def client_ok_def)
  then show "keeps_ok c (snd (get_next_packet_id c))"
    using next_packet_id_nonzero [of c] by (simp add: get_next_packet_id_def Let_def)
qed (auto simp: keeps_ok_def client_ok_def register_handler_def mark_resubscribed_def set_connect_params_def
    dest!: store_bytes_same length_remove_handlers)

subsection \<open>Results\<close>

lemma decode_loop_error:
  "decode_length_loop k m d buf = Some (Inl rc) \<Longrightarrow> rc = MQTT_DECODE_REMAINING_LENGTH_ERROR"
proof (induction k m d buf rule: decode_length_loop.induct)
  case (1 k m d buf)
  then show ?case
    by (subst (asm) (2) decode_length_loop.simps) (auto simp: Let_def split: if_splits list.splits)
qed

lemma decode_error:
  "decode_remaining_length_from_buffer buf = Some (Inl rc) \<Longrightarrow> rc \<noteq> SUCCESS"
  using decode_loop_error by (fastforce simp: decode_remaining_length_from_buffer_def)

lemma suback_loop_error: "suback_loop m k buf a b g = Some (Inl rc) \<Longrightarrow> rc = FAILURE"
proof (induction m k buf a b g rule: suback_loop.induct)
  case (1 m k buf a b g)
  then show ?case
    by (subst (asm) (2) suback_loop.simps) (auto simp: Option.bind_eq_Some_conv split: if_splits)
qed

lemma suback_error:
  assumes "deserialize_suback m k buf n = Some (Inl rc)"
  shows "rc \<noteq> SUCCESS"
proof -
  consider "rc = MQTT_RX_BUFFER_TOO_SHORT_ERROR" | "rc = FAILURE"
    | "decode_remaining_length_from_buffer (drop 1 buf) = Some (Inl rc)"
    | a b where "suback_loop m k buf a b [] = Some (Inl rc)"
  proof (cases "n < 5 \<or> byte_at buf 0 = None")
    case True
    then show ?thesis using assms that by (cases "n < 5") (auto simp: deserialize_suback_def)
  next
    case False
    then obtain h where h: "\<not> n < 5" "byte_at buf 0 = Some h" by auto
    show ?thesis
    proof (cases "header_type h = msg_code SUBACK")
      case False
      then show ?thesis using assms that h by (simp add: deserialize_suback_def)
    next
      case True
      then obtain r where r: "decode_remaining_length_from_buffer (drop 1 buf) = Some r"
        using assms h by (cases "decode_remaining_length_from_buffer (drop 1 buf)") (simp_all add: deserialize_suback_def)
      show ?thesis
      proof (cases r)
        case (Inl e)
        then show ?thesis using assms that h True r by (simp add: deserialize_suback_def)
      next
        case (Inr x)
        obtain dl rb where x: "x = (dl, rb)" by (cases x)
        show ?thesis
        proof (cases "dl < 2")
          case short: True
          then show ?thesis using assms that h True r Inr x by (simp add: deserialize_suback_def)
        next
          case False
          then obtain i where i: "read_uint16_t buf (1 + unat rb) = Some i"
            using assms h True r Inr x
            by (cases "read_uint16_t buf (1 + unat rb)") (simp_all add: deserialize_suback_def Let_def)
          let ?loop = "suback_loop m k buf (1 + unat rb + 2) (1 + unat rb + unat dl) []"
          have "?loop = Some (Inl rc)"
          proof (cases ?loop)
            case None
            then show ?thesis using assms h True r Inr x i False by (simp add: deserialize_suback_def Let_def)
          next
            case (Some y)
            then show ?thesis
              using assms h True r Inr x i False by (cases y) (simp_all add: deserialize_suback_def Let_def)
          qed
          then show ?thesis by (rule that(4))
        qed
      qed
    qed
  qed
  then show ?thesis by cases (auto dest: decode_error suback_loop_error)
qed

lemma await_error:
  assumes "await_answer P t dec s = Some (Inl rc, s')"
    and "\<And>buf n rc. dec buf n = Some (Inl rc) \<Longrightarrow> rc \<noteq> SUCCESS"
  shows "rc \<noteq> SUCCESS"
  using assms by (auto simp: await_answer_def Option.bind_eq_Some_conv split: if_splits)

lemma send_and_await_error:
  assumes "send_and_await P k t dec s = Some (Inl rc, s')"
    and "\<And>buf n rc. dec buf n = Some (Inl rc) \<Longrightarrow> rc \<noteq> SUCCESS"
  shows "rc \<noteq> SUCCESS"
proof -
  obtain rc1 s1 where "send_packet P k s = Some (rc1, s1)"
    "rc1 \<noteq> SUCCESS \<and> rc = rc1 \<or> await_answer P t dec s1 = Some (Inl rc, s')"
    using assms(1) by (auto simp: send_and_await_def Option.bind_eq_Some_conv split: if_splits)
  then show ?thesis using await_error assms(2) by metis
qed

lemma exchange_error:
  assumes "exchange P packet t dec s = Some (Inl rc, s')"
    and "\<And>rc. packet = Some (Inl rc) \<Longrightarrow> rc \<noteq> SUCCESS"
    and "\<And>buf n rc. dec buf n = Some (Inl rc) \<Longrightarrow> rc \<noteq> SUCCESS"
  shows "rc \<noteq> SUCCESS"
proof (cases packet)
  case None
  then show ?thesis using assms(1) by (simp add: exchange_def)
next
  case (Some r)
  show ?thesis
  proof (cases r)
    case (Inl e)
    then show ?thesis using assms(1,2) Some by (simp add: exchange_def)
  next
    case (Inr bs)
    then have "send_and_await P (length bs) t dec (upd (put_packet bs) s) = Some (Inl rc, s')"
      using assms(1) Some by (simp add: exchange_def)
    then show ?thesis by (rule send_and_await_error) (rule assms(3))
  qed
qed

lemma serialize_subscribe_error: "serialize_subscribe cap d i ts = Some (Inl rc) \<Longrightarrow> rc \<noteq> SUCCESS"
  by (auto simp: serialize_subscribe_def Let_def init_header_def emit_def Option.bind_eq_Some_conv
      split: if_splits)

lemma subscribe_exchange_table:
  assumes K: "callbacks_keep keeps_table P" and run: "subscribe_exchange P name n q h d s = Some (rc, s')"
  shows "messageHandlers (cl s')
    = (if rc = SUCCESS then messageHandlers (register_handler (get_free_message_handler_index (cl s)) name n q h d (cl s))
       else messageHandlers (cl s))
    \<and> (rc = SUCCESS \<longrightarrow> get_free_message_handler_index (cl s) < AWS_IOT_MQTT_NUM_SUBSCRIBE_HANDLERS)
    \<and> clientState (cl s') = clientState (cl s)"
proof -
  obtain i s1 where id: "take_packet_id s = (i, s1)" by (cases "take_packet_id s")
  have t1: "messageHandlers (cl s1) = messageHandlers (cl s)" "clientState (cl s1) = clientState (cl s)"
    using table.take_packet_id_frame [OF id] by (simp_all add: keeps_table_def)
  obtain p where p: "serialize_subscribe (writeBufSize (cl s1)) 0 i [(name, n, q)] = Some p"
    using run by (auto simp: subscribe_exchange_def id Option.bind_eq_Some_conv)
  show ?thesis
  proof (cases p)
    case (Inl e)
    then show ?thesis
      using run p t1 serialize_subscribe_error by (auto simp: subscribe_exchange_def id)
  next
    case (Inr bs)
    let ?s2 = "upd (put_packet bs) s1" and ?i = "get_free_message_handler_index (cl s)"
    have i: "get_free_message_handler_index (cl ?s2) = ?i"
      by (simp add: get_free_message_handler_index_def put_packet_def t1)
    show ?thesis
    proof (cases "AWS_IOT_MQTT_NUM_SUBSCRIBE_HANDLERS \<le> ?i")
      case True
      then have "rc = MQTT_MAX_SUBSCRIPTIONS_REACHED_ERROR" "s' = ?s2"
        using run p Inr i by (simp_all add: subscribe_exchange_def id Let_def)
      then show ?thesis by (simp add: put_packet_def t1)
    next
      case False
      then obtain r s3 where e: "send_and_await P (length bs) SUBACK granted_one ?s2 = Some (r, s3)"
        using run p Inr i by (auto simp: subscribe_exchange_def id Let_def Option.bind_eq_Some_conv)
      have t3: "messageHandlers (cl s3) = messageHandlers (cl s)" "clientState (cl s3) = clientState (cl s)"
        using table.send_and_await_frame [OF K e] by (simp_all add: keeps_table_def put_packet_def t1)
      show ?thesis
      proof (cases r)
        case (Inl e')
        then have "rc = e'" "s' = s3"
          using run p Inr False e i by (simp_all add: subscribe_exchange_def id Let_def)
        moreover have "e' \<noteq> SUCCESS"
          by (rule send_and_await_error [OF e [unfolded Inl]]) (rule suback_error)
        ultimately show ?thesis using t3 by simp
      next
        case r: (Inr x)
        then have "rc = SUCCESS" "s' = upd (register_handler ?i name n q h d) s3"
          using run p Inr False e i by (simp_all add: subscribe_exchange_def id Let_def)
        then show ?thesis using False by (simp add: register_handler_def t3)
      qed
    qed
  qed
qed

subsection \<open>Properties of the commands\<close>

text \<open>(C23) A publish, subscribe or unsubscribe that returns leaves the client in the state in which it found
  it and keeps its invariant, whatever the network does, provided the message handlers do.\<close>

theorem commands_restore_state:
  assumes "callbacks_keep keeps_ok P"
    and "aws_iot_mqtt_publish P name n params s = Some (rc, s')
      \<or> aws_iot_mqtt_subscribe P name n q h d s = Some (rc, s')
      \<or> aws_iot_mqtt_unsubscribe P name n s = Some (rc, s')"
  shows "clientState (cl s') = clientState (cl s) \<and> (if client_ok (cl s) then client_ok (cl s') else True)"
  using assms(2) ok.publish_frame [OF assms(1)] ok.subscribe_frame [OF assms(1)]
    ok.unsubscribe_frame [OF assms(1)]
  unfolding keeps_ok_def by auto

lemma keeps_table_refl: "keeps_table c c"
  by (simp add: keeps_table_def)

lemma keeps_ok_refl: "keeps_ok c c"
  by (simp add: keeps_ok_def)

theorem commands_restore_state_witness:
  "case aws_iot_mqtt_publish demo demo_topic 3 (Some demo_message) (idle_state []) of
     None \<Rightarrow> False
   | Some (rc, s') \<Rightarrow> rc = SUCCESS \<and> clientState (cl s') = CLIENT_STATE_CONNECTED_IDLE"
proof -
  have "map_option fst (aws_iot_mqtt_publish demo demo_topic 3 (Some demo_message) (idle_state [])) = Some SUCCESS"
    by code_simp
  then obtain s' where run: "aws_iot_mqtt_publish demo demo_topic 3 (Some demo_message) (idle_state []) = Some (SUCCESS, s')"
    by auto
  have "clientState (cl s') = clientState (cl (idle_state []))"
    using commands_restore_state [OF demo_keeps(1) [OF keeps_ok_refl] disjI1 [OF run]] by blast
  then have "clientState (cl s') = CLIENT_STATE_CONNECTED_IDLE"
    by (simp add: idle_state_def idle_client_def)
  then show ?thesis by (simp add: run)
qed

text \<open>(C14) A successful subscription enters the topic, its quality of service and its handler in the first
  free slot of the table, whatever return code the SUBACK grants; a failed one changes no slot.\<close>

theorem subscribe_registers:
  assumes K: "callbacks_keep keeps_table P" and run: "aws_iot_mqtt_subscribe P name n q h d s = Some (rc, s')"
  shows "messageHandlers (cl s')
    = (if rc = SUCCESS
       then let i = get_free_message_handler_index (cl s) in
         (messageHandlers (cl s))[i := (messageHandlers (cl s) ! i)
           \<lparr>topicName := name, topicNameLen := n, pApplicationHandler := h,
            pApplicationHandlerData := d, handler_qos := q\<rparr>]
       else messageHandlers (cl s))
    \<and> (if rc = SUCCESS then get_free_message_handler_index (cl s) < 5 else True)"
proof -
  consider "s' = s" "rc \<noteq> SUCCESS" | "enter_operation P CLIENT_STATE_CONNECTED_SUBSCRIBE_IN_PROGRESS
      (internal_subscribe P name n q h d) s = Some (rc, s')"
    using run by (auto simp: aws_iot_mqtt_subscribe_def split: if_splits)
  then show ?thesis
  proof cases
    case 1
    then show ?thesis by simp
  next
    case 2
    let ?busy = "CLIENT_STATE_CONNECTED_SUBSCRIBE_IN_PROGRESS"
    have body: "\<exists>s3. subscribe_exchange P name n q h d (start_tm P (commandTimeoutMs (cl s1)) s1) = Some (r, s3)
        \<and> cl s2 = cl s3"
      if "internal_subscribe P name n q h d s1 = Some (r, s2)" for s1 r s2
      using that by (auto simp: internal_subscribe_def with_timer_def Option.bind_eq_Some_conv)
    have "clientState (cl s2) = ?busy"
      if "internal_subscribe P name n q h d (s\<lparr>cl := (cl s)\<lparr>clientState := ?busy\<rparr>, wd := w\<rparr>) = Some (r, s2)"
      for w r s2
      using body [OF that] subscribe_exchange_table [OF K] by fastforce
    with 2 obtain w s2 w' where e:
      "internal_subscribe P name n q h d (s\<lparr>cl := (cl s)\<lparr>clientState := ?busy\<rparr>, wd := w\<rparr>) = Some (rc, s2)"
      "s' = s2\<lparr>cl := (cl s2)\<lparr>clientState := clientState (cl s)\<rparr>, wd := w'\<rparr>"
      by (rule enter_operationE [OF callbacks_work [OF K]])
    from body [OF e(1)] obtain s3 where x: "cl s2 = cl s3"
      "subscribe_exchange P name n q h d (start_tm P (commandTimeoutMs (cl s))
         (s\<lparr>cl := (cl s)\<lparr>clientState := ?busy\<rparr>, wd := w\<rparr>)) = Some (rc, s3)"
      by auto
    show ?thesis
      using subscribe_exchange_table [OF K x(2)]
      by (simp add: e(2) x(1) register_handler_def get_free_message_handler_index_def
          AWS_IOT_MQTT_NUM_SUBSCRIBE_HANDLERS_def Let_def)
  qed
qed

theorem subscribe_registers_witness:
  "case aws_iot_mqtt_subscribe demo demo_topic 3 QOS1 (Some 7) 0 (idle_state [0x90, 3, 0, 2, 1]) of
     None \<Rightarrow> False
   | Some (rc, s') \<Rightarrow> rc = SUCCESS \<and> topicName (messageHandlers (cl s') ! 0) = demo_topic
       \<and> pApplicationHandler (messageHandlers (cl s') ! 0) = Some 7"
proof -
  let ?s = "idle_state [0x90, 3, 0, 2, 1]"
  have "map_option fst (aws_iot_mqtt_subscribe demo demo_topic 3 QOS1 (Some 7) 0 ?s) = Some SUCCESS"
    by code_simp
  then obtain s' where run: "aws_iot_mqtt_subscribe demo demo_topic 3 QOS1 (Some 7) 0 ?s = Some (SUCCESS, s')"
    by auto
  have free: "get_free_message_handler_index (cl ?s) = 0"
    by code_simp
  have "messageHandlers (cl s') ! 0 = no_handler\<lparr>topicName := demo_topic, topicNameLen := 3,
      pApplicationHandler := Some 7, pApplicationHandlerData := 0, handler_qos := QOS1\<rparr>"
    using subscribe_registers [OF demo_keeps(1) [OF keeps_table_refl] run]
    unfolding free by (simp add: idle_state_def idle_client_def)
  then show ?thesis by (simp add: run)
qed

lemma send_packet_result:
  assumes "mutexes_work P" and "len < unat (writeBufSize (cl s))" and "send_packet P len s = Some (rc, s')"
  shows "rc = SUCCESS"
proof -
  obtain w where l: "client_lock_mutex P tls_write_mutex s = (SUCCESS, s\<lparr>wd := w\<rparr>)"
    using client_lockE [OF assms(1)] .
  obtain sent rc2 s2 where r: "send_loop P len 0 SUCCESS (s\<lparr>wd := w\<rparr>) = Some (sent, rc2, s2)"
    using assms(2,3) by (auto simp: send_packet_def l Option.bind_eq_Some_conv)
  obtain w2 where "client_unlock_mutex P tls_write_mutex s2 = (SUCCESS, s2\<lparr>wd := w2\<rparr>)"
    using client_unlockE [OF assms(1)] .
  then show ?thesis using assms(2,3) r by (auto simp: send_packet_def l split: if_splits)
qed

text \<open>With working mutexes the result of a failed or timed-out network write is lost: a publish of
  quality of service 0 that fits the buffer reports success whatever the network does.\<close>

theorem publish_hides_send_failure:
  assumes works: "mutexes_work P" and idle: "may_start (cl s)" and qos: "msg_qos params = QOS0"
    and topic: "n \<noteq> 0" "name \<noteq> None"
    and packet: "serialize_publish (writeBufSize (cl s)) 0 QOS0 (msg_isRetained params) (msg_id params) name n
      (msg_payload params) (msg_payloadLen params) = Some (Inr bs)"
    and fits: "length bs < unat (writeBufSize (cl s))"
    and run: "aws_iot_mqtt_publish P name n (Some params) s = Some (rc, s')"
  shows "rc = SUCCESS"
proof -
  let ?busy = "CLIENT_STATE_CONNECTED_PUBLISH_IN_PROGRESS"
  have "is_client_connected (cl s)"
    using idle by (auto simp: may_start_def is_client_connected_def)
  then have "enter_operation P ?busy (\<lambda>s. do {
      ((rc, _), s) \<leftarrow> internal_publish P name n params s; Some (rc, s) }) s = Some (rc, s')"
    using run idle topic by (simp add: aws_iot_mqtt_publish_def)
  note run' = this
  have body: "\<exists>s3. send_packet P (length bs) (upd (put_packet bs) (start_tm P (commandTimeoutMs (cl s1)) s1))
        = Some (r, s3) \<and> cl s2 = cl s3"
    if "do { ((rc, _), s) \<leftarrow> internal_publish P name n params s1; Some (rc, s) } = Some (r, s2)"
      and "writeBufSize (cl s1) = writeBufSize (cl s)" for s1 r s2
    using that packet qos
    by (auto simp: internal_publish_def with_timer_def publish_exchange_def choose_packet_id_def
        send_serialized_def Let_def Option.bind_eq_Some_conv)
  have keeps: "clientState (cl s2) = ?busy"
    if "do { ((rc, _), s) \<leftarrow> internal_publish P name n params (s\<lparr>cl := (cl s)\<lparr>clientState := ?busy\<rparr>, wd := w\<rparr>);
          Some (rc, s) } = Some (r, s2)" for w r s2
    using body [OF that] send_packet_cl by (fastforce simp: put_packet_def)
  from run' keeps obtain w s2 w' where "do {
      ((rc, _), s) \<leftarrow> internal_publish P name n params (s\<lparr>cl := (cl s)\<lparr>clientState := ?busy\<rparr>, wd := w\<rparr>);
      Some (rc, s) } = Some (rc, s2)"
    "s' = s2\<lparr>cl := (cl s2)\<lparr>clientState := clientState (cl s)\<rparr>, wd := w'\<rparr>"
    by (rule enter_operationE [OF works])
  from body [OF this(1)] obtain s3 where send: "send_packet P (length bs) (upd (put_packet bs)
      (start_tm P (commandTimeoutMs (cl s)) (s\<lparr>cl := (cl s)\<lparr>clientState := ?busy\<rparr>, wd := w\<rparr>))) = Some (rc, s3)"
    by auto
  show ?thesis
    by (rule send_packet_result [OF works _ send]) (simp add: put_packet_def fits)
qed

theorem publish_hides_send_failure_witness:
  "case aws_iot_mqtt_publish dead_link demo_topic 3 (Some demo_message) (idle_state []) of
     None \<Rightarrow> False
   | Some (rc, s') \<Rightarrow> rc = SUCCESS \<and> outgoing (wd s') = []"
proof -
  have "map_option (outgoing \<circ> wd \<circ> snd) (aws_iot_mqtt_publish dead_link demo_topic 3 (Some demo_message) (idle_state [])) = Some []"
    by code_simp
  then obtain rc s' where run: "aws_iot_mqtt_publish dead_link demo_topic 3 (Some demo_message) (idle_state []) = Some (rc, s')"
    and unsent: "outgoing (wd s') = []"
    by auto
  let ?bs = "[0x30, 7, 0, 3, 97, 47, 98, 104, 105] :: u8 list"
  have packet: "serialize_publish 512 0 QOS0 0 0 demo_topic 3 (Some (bytes_of ''hi'')) 2 = Some (Inr ?bs)"
    by code_simp
  have "rc = SUCCESS"
    by (rule publish_hides_send_failure [OF demo_works(2) _ _ _ _ _ _ run, where bs = ?bs])
      (use packet in \<open>simp_all add: idle_state_def idle_client_def may_start_def demo_message_def demo_topic_def
        AWS_IOT_MQTT_TX_BUF_LEN_def\<close>)
  then show ?thesis using unsent by (simp add: run)
qed

subsection \<open>Connecting\<close>

text \<open>(C24) A connection attempt from a state that allows one ends in the idle state exactly when it reports
  success. When the exchange fails, the network is disconnected and destroyed; if it can be destroyed the client ends in
  the disconnected state with the error of the exchange, and if not the call returns at once and leaves the client
  connecting. In any other state nothing happens.\<close>

theorem connect_result:
  assumes K: "callbacks_keep keeps_ok P" and run: "aws_iot_mqtt_connect P p s = Some (rc, s')"
    and begun: "s1 = snd (set_client_state P (clientState (cl s)) CLIENT_STATE_CONNECTING (upd flushBuffers s))"
  shows "if is_client_state_valid_for_connect (clientState (cl s))
    then (rc = SUCCESS \<longleftrightarrow> clientState (cl s') = CLIENT_STATE_CONNECTED_IDLE) \<and>
      clientState (cl s1) = CLIENT_STATE_CONNECTING \<and>
      (\<exists>e s2. internal_connect P p s1 = Some (e, s2) \<and>
        (if e = SUCCESS then rc = SUCCESS
         else let (_, w) = net_disconnect P (wd s2); (gone, w) = net_destroy P w in
           if gone = SUCCESS then rc = e \<and> cl s' = (cl s2)\<lparr>clientState := CLIENT_STATE_DISCONNECTED_ERROR\<rparr>
           else rc = NETWORK_DISCONNECTED_ERROR \<and> clientState (cl s') = CLIENT_STATE_CONNECTING \<and> cl s' = cl s2 \<and> wd s' = w))
    else rc = NETWORK_ALREADY_CONNECTED_ERROR \<and> cl s' = flushBuffers (cl s) \<and> wd s' = wd s"
proof (cases "is_client_state_valid_for_connect (clientState (cl s))")
  case False
  then show ?thesis using run by (auto simp: aws_iot_mqtt_connect_def flushBuffers_def)
next
  case True
  have works: "mutexes_work P" by (rule callbacks_work [OF K])
  let ?s0 = "upd flushBuffers s"
  have valid: "is_client_state_valid_for_connect (clientState (cl ?s0))"
    using True by (simp add: flushBuffers_def)
  obtain w where set1: "set_client_state P (clientState (cl ?s0)) CLIENT_STATE_CONNECTING ?s0
      = (SUCCESS, ?s0\<lparr>cl := (cl ?s0)\<lparr>clientState := CLIENT_STATE_CONNECTING\<rparr>, wd := w\<rparr>)"
    using set_state_hit [OF works, of ?s0 "clientState (cl ?s0)" CLIENT_STATE_CONNECTING] by blast
  have s1: "s1 = ?s0\<lparr>cl := (cl ?s0)\<lparr>clientState := CLIENT_STATE_CONNECTING\<rparr>, wd := w\<rparr>"
    using set1 by (simp add: begun flushBuffers_def)
  obtain e s2 where c: "internal_connect P p s1 = Some (e, s2)"
    using run valid set1 by (auto simp: s1 aws_iot_mqtt_connect_def Let_def Option.bind_eq_Some_conv)
  have st: "clientState (cl s1) = CLIENT_STATE_CONNECTING" "clientState (cl s2) = CLIENT_STATE_CONNECTING"
    using ok.internal_connect_frame [OF K c] by (simp_all add: s1 keeps_ok_def)
  show ?thesis
  proof (cases "e = SUCCESS")
    case ok: True
    obtain w2 where "set_client_state P CLIENT_STATE_CONNECTING CLIENT_STATE_CONNECTED_IDLE s2
        = (SUCCESS, s2\<lparr>cl := (cl s2)\<lparr>clientState := CLIENT_STATE_CONNECTED_IDLE\<rparr>, wd := w2\<rparr>)"
      using set_state_hit [OF works st(2)] by blast
    then have "rc = SUCCESS" "clientState (cl s') = CLIENT_STATE_CONNECTED_IDLE"
      using run valid set1 c ok by (auto simp: s1 aws_iot_mqtt_connect_def Let_def)
    with True c ok st(1) show ?thesis by simp
  next
    case failed: False
    obtain r3 w3 where d: "net_disconnect P (wd s2) = (r3, w3)" by (cases "net_disconnect P (wd s2)")
    obtain r4 w4 where gone: "net_destroy P w3 = (r4, w4)" by (cases "net_destroy P w3")
    let ?s4 = "s2\<lparr>wd := w4\<rparr>"
    obtain w5 where set4: "set_client_state P CLIENT_STATE_CONNECTING CLIENT_STATE_DISCONNECTED_ERROR ?s4
        = (SUCCESS, ?s4\<lparr>cl := (cl ?s4)\<lparr>clientState := CLIENT_STATE_DISCONNECTED_ERROR\<rparr>, wd := w5\<rparr>)"
      using set_state_hit [OF works, of ?s4 CLIENT_STATE_CONNECTING CLIENT_STATE_DISCONNECTED_ERROR] st(2) by auto
    note unfolded = aws_iot_mqtt_connect_def Let_def on_world_eq s1 d gone
    show ?thesis
    proof (cases "r4 = SUCCESS")
      case True
      then have "rc = e" "cl s' = (cl s2)\<lparr>clientState := CLIENT_STATE_DISCONNECTED_ERROR\<rparr>"
        using run valid set1 c failed set4 by (auto simp: unfolded)
      with True \<open>is_client_state_valid_for_connect (clientState (cl s))\<close> failed c d gone st(1) show ?thesis by simp
    next
      case False
      then have "rc = NETWORK_DISCONNECTED_ERROR" "s' = ?s4"
        using run valid set1 c failed by (auto simp: unfolded)
      with False True failed c d gone st show ?thesis by simp
    qed
  qed
qed

theorem connect_result_witness:
  "case aws_iot_mqtt_connect demo (Some demo_connect)
      (upd (clientState_update (\<lambda>_. CLIENT_STATE_INITIALIZED)) (idle_state [0x20, 2, 0, 0])) of
     None \<Rightarrow> False
   | Some (rc, s') \<Rightarrow> rc = SUCCESS \<and> clientState (cl s') = CLIENT_STATE_CONNECTED_IDLE"
proof -
  let ?s = "upd (clientState_update (\<lambda>_. CLIENT_STATE_INITIALIZED)) (idle_state [0x20, 2, 0, 0])"
  have "map_option fst (aws_iot_mqtt_connect demo (Some demo_connect) ?s) = Some SUCCESS"
    by code_simp
  then obtain s' where run: "aws_iot_mqtt_connect demo (Some demo_connect) ?s = Some (SUCCESS, s')"
    by auto
  show ?thesis
    using connect_result [OF demo_keeps(1) [OF keeps_ok_refl] run refl] unfolding run
    by (simp add: idle_state_def idle_client_def is_client_state_valid_for_connect_def)
qed

end
