(* ===== verification/MqttYieldProperties.thy ===== *)
theory MqttYieldProperties
  imports MqttClientProperties
begin

text \<open>
  Reconnection: what an attempt leaves of the client, the doubling of the delay between attempts
  and their number, and which subscriptions a reconnection restores.
\<close>

subsection \<open>What an attempt leaves alone\<close>

definition keeps_wait :: "client \<Rightarrow> client \<Rightarrow> bool" where
  "keeps_wait a b \<longleftrightarrow> clientState b = clientState a
     \<and> currentReconnectWaitInterval b = currentReconnectWaitInterval a"

lemma keeps_wait_refl: "keeps_wait c c"
  by (simp add: keeps_wait_def)

interpretation wait: client_api_frame keeps_wait
  by unfold_locales
    (auto simp: keeps_wait_def put_packet_def get_next_packet_id_def Let_def register_handler_def
      mark_resubscribed_def set_connect_params_def dest!: store_bytes_same)

abbreviation interval :: "'w st \<Rightarrow> u32" where
  "interval s \<equiv> currentReconnectWaitInterval (cl s)"

lemma set_client_state_cl:
  "cl (snd (set_client_state P x y s)) = cl s \<or> cl (snd (set_client_state P x y s)) = (cl s)\<lparr>clientState := y\<rparr>"
proof -
  obtain r1 s1 where l: "client_lock_mutex P state_change_mutex s = (r1, s1)"
    by (cases "client_lock_mutex P state_change_mutex s")
  have s1: "cl s1 = cl s" using client_lock_cl(1) [of P state_change_mutex s] by (simp add: l)
  let ?s2 = "if x = clientState (cl s1) then upd (clientState_update (\<lambda>_. y)) s1 else s1"
  have "cl (snd (set_client_state P x y s)) = (if r1 = SUCCESS then cl ?s2 else cl s1)"
    by (simp add: set_client_state_def l client_unlock_mutex_def on_world_eq)
  then show ?thesis by (simp add: s1)
qed

lemma set_client_state_interval [simp]:
  "interval (snd (set_client_state P x y s)) = interval s"
  using set_client_state_cl [of P x y s] by auto

lemma set_state_interval: "set_client_state P x y s = (rc, s') \<Longrightarrow> interval s' = interval s"
  using set_client_state_interval [of P x y s] by simp

lemma connect_interval:
  assumes K: "callbacks_keep keeps_wait P" and run: "aws_iot_mqtt_connect P p s = Some (rc, s')"
  shows "interval s' = interval s"
proof (cases "is_client_state_valid_for_connect (clientState (cl s))")
  case False
  then show ?thesis using run by (auto simp: aws_iot_mqtt_connect_def flushBuffers_def)
next
  case True
  obtain r1 s1 where set1: "set_client_state P (clientState (cl s)) CLIENT_STATE_CONNECTING (upd flushBuffers s) = (r1, s1)"
    by (cases "set_client_state P (clientState (cl s)) CLIENT_STATE_CONNECTING (upd flushBuffers s)")
  obtain rc1 s2 where c: "internal_connect P p s1 = Some (rc1, s2)"
    using run True set1 by (auto simp: aws_iot_mqtt_connect_def Let_def Option.bind_eq_Some_conv flushBuffers_def)
  have i2: "interval s2 = interval s"
    using wait.internal_connect_frame [OF K c] set_state_interval [OF set1]
    by (simp add: keeps_wait_def flushBuffers_def)
  show ?thesis
    using run True set1 c i2
    by (auto simp: aws_iot_mqtt_connect_def flushBuffers_def Let_def on_world_eq
        split: if_splits prod.splits dest!: set_state_interval)
qed

lemma resubscribe_result:
  assumes K: "callbacks_keep keeps_wait P" and run: "aws_iot_mqtt_resubscribe P s = Some (rc, s')"
  shows "interval s' = interval s \<and> (rc = SUCCESS \<longrightarrow> clientState (cl s') = CLIENT_STATE_CONNECTED_IDLE)"
proof -
  have works: "mutexes_work P" by (rule callbacks_work [OF K])
  let ?busy = "CLIENT_STATE_CONNECTED_RESUBSCRIBE_IN_PROGRESS"
  consider "s' = s" "rc \<noteq> SUCCESS" | s1 where "clientState (cl s1) = ?busy" "interval s1 = interval s"
    "(do { (rc, s) \<leftarrow> internal_resubscribe P s1;
           if rc = SUCCESS then Some (set_client_state P ?busy CLIENT_STATE_CONNECTED_IDLE s) else Some (rc, s) })
     = Some (rc, s')"
  proof (cases "clientState (cl s) = CLIENT_STATE_CONNECTED_IDLE")
    case True
    then obtain w where "set_client_state P CLIENT_STATE_CONNECTED_IDLE ?busy s
        = (SUCCESS, s\<lparr>cl := (cl s)\<lparr>clientState := ?busy\<rparr>, wd := w\<rparr>)"
      using set_state_hit [OF works] by blast
    then show ?thesis
      using run True by (intro that(2) [of "s\<lparr>cl := (cl s)\<lparr>clientState := ?busy\<rparr>, wd := w\<rparr>"])
        (simp_all add: aws_iot_mqtt_resubscribe_def is_client_connected_def)
  next
    case False
    then show ?thesis
      using run that(1) that(2) [of s] by (auto simp: aws_iot_mqtt_resubscribe_def Let_def split: if_splits)
  qed
  then show ?thesis
  proof cases
    case 1
    then show ?thesis by simp
  next
    case (2 s1)
    then obtain rc2 s2 where r: "internal_resubscribe P s1 = Some (rc2, s2)"
      by (auto simp: Option.bind_eq_Some_conv)
    have f: "interval s2 = interval s" "clientState (cl s2) = ?busy"
      using wait.resubscribe_loop_frame [OF K r [unfolded internal_resubscribe_def]] 2
      by (simp_all add: keeps_wait_def)
    obtain w where "set_client_state P ?busy CLIENT_STATE_CONNECTED_IDLE s2
        = (SUCCESS, s2\<lparr>cl := (cl s2)\<lparr>clientState := CLIENT_STATE_CONNECTED_IDLE\<rparr>, wd := w\<rparr>)"
      using set_state_hit [OF works f(2)] by blast
    then show ?thesis using 2 r f by (auto split: if_splits)
  qed
qed

subsection \<open>The delay between attempts\<close>

lemma poll_reconnect_cl:
  "poll_reconnect_timer P s = (e, s') \<Longrightarrow> \<exists>t. cl s' = (cl s)\<lparr>reconnectDelayTimer := t\<rparr>"
  by (auto simp: poll_reconnect_timer_def split: prod.splits)

text \<open>A delay has just begun: the last thing the platform was asked is the tick the timer runs from.\<close>

definition delay_started :: "'w platform \<Rightarrow> 'w st \<Rightarrow> bool" where
  "delay_started P s \<longleftrightarrow> (\<exists>w. wd s = snd (get_ticks P w) \<and>
     reconnectDelayTimer (cl s) = countdown_ms (fst (get_ticks P w)) (interval s))"

lemma arm_ms_started:
  "arm_ms P ms s = (t, s') \<Longrightarrow> cl s' = cl s \<and> (\<exists>w. wd s' = snd (get_ticks P w) \<and> t = countdown_ms (fst (get_ticks P w)) ms)"
  by (auto simp: arm_ms_def on_world_def split: prod.splits intro!: exI [of _ "wd s"])

lemma back_off_result:
  assumes "back_off P rc s = (rc', s')"
  shows "interval s' = interval s * 2 \<and> clientState (cl s') = clientState (cl s)
    \<and> rc' = (if 128000 < interval s * 2 then NETWORK_RECONNECT_TIMED_OUT_ERROR else rc)
    \<and> (interval s * 2 \<le> 128000 \<longrightarrow> delay_started P s')"
proof (cases "AWS_IOT_MQTT_MAX_RECONNECT_WAIT_INTERVAL < interval s * 2")
  case True
  then show ?thesis using assms
    by (auto simp: back_off_def AWS_IOT_MQTT_MAX_RECONNECT_WAIT_INTERVAL_def)
next
  case False
  let ?s1 = "upd (currentReconnectWaitInterval_update (\<lambda>i. i * 2)) s"
  obtain t s2 where a: "arm_ms P (interval ?s1) ?s1 = (t, s2)" by (cases "arm_ms P (interval ?s1) ?s1")
  then show ?thesis using arm_ms_started [OF a] assms False
    by (auto simp: back_off_def delay_started_def AWS_IOT_MQTT_MAX_RECONNECT_WAIT_INTERVAL_def)
qed

lemma attempt_result:
  assumes K: "callbacks_keep keeps_wait P" and run: "aws_iot_mqtt_attempt_reconnect P s = Some (rc, s')"
  shows "interval s' = interval s
    \<and> rc \<in> {NETWORK_ATTEMPTING_RECONNECT, NETWORK_RECONNECTED, NETWORK_ALREADY_CONNECTED_ERROR}
    \<and> (rc = NETWORK_RECONNECTED \<longrightarrow> clientState (cl s') = CLIENT_STATE_CONNECTED_IDLE)"
proof -
  consider (failed) r s1 s2 where "aws_iot_mqtt_connect P None s = Some (r, s1)"
      "set_client_state P CLIENT_STATE_DISCONNECTED_ERROR CLIENT_STATE_PENDING_RECONNECT s1 = (s2, s')"
      "rc = NETWORK_ATTEMPTING_RECONNECT"
    | (again) s1 r where "interval s1 = interval s" "aws_iot_mqtt_resubscribe P s1 = Some (r, s')"
      "rc = (if r \<noteq> SUCCESS then NETWORK_ATTEMPTING_RECONNECT else NETWORK_RECONNECTED)"
    | (connected) "rc = NETWORK_ALREADY_CONNECTED_ERROR" "s' = s"
  proof (cases "is_client_connected (cl s)")
    case True
    then show ?thesis using run that(2) [of s] that(3)
      by (auto simp: aws_iot_mqtt_attempt_reconnect_def Option.bind_eq_Some_conv split: if_splits)
  next
    case False
    then obtain r s1 where c: "aws_iot_mqtt_connect P None s = Some (r, s1)"
      using run by (auto simp: aws_iot_mqtt_attempt_reconnect_def Option.bind_eq_Some_conv)
    have i: "interval s1 = interval s" by (rule connect_interval [OF K c])
    show ?thesis
    proof (cases "clientState (cl s1) = CLIENT_STATE_CONNECTED_IDLE")
      case True
      then show ?thesis using run False c i that(2) [of s1]
        by (auto simp: aws_iot_mqtt_attempt_reconnect_def Option.bind_eq_Some_conv)
    next
      case unconnected: False
      then show ?thesis using run False c that(1) [of r s1]
        by (auto simp: aws_iot_mqtt_attempt_reconnect_def split: prod.splits)
    qed
  qed
  then show ?thesis
  proof cases
    case failed
    then show ?thesis using connect_interval [OF K failed(1)] set_state_interval [OF failed(2)] by simp
  next
    case again
    then show ?thesis using resubscribe_result [OF K again(2)] by simp
  next
    case connected
    then show ?thesis by simp
  qed
qed

text \<open>Polling a timer leaves the delay alone.\<close>

definition same_delay :: "Timer \<Rightarrow> Timer \<Rightarrow> bool" where
  "same_delay t t' \<longleftrightarrow> start_ticks t' = start_ticks t \<and> timeout_ticks t' = timeout_ticks t"

lemma handle_reconnect_waits:
  assumes "handle_reconnect P s = Some (rc, s')" and "\<not> fst (poll_reconnect_timer P s)"
  shows "interval s' = interval s \<and> same_delay (reconnectDelayTimer (cl s)) (reconnectDelayTimer (cl s'))"
proof -
  have "s' = snd (poll_reconnect_timer P s)" using assms by (auto simp: handle_reconnect_def split: prod.splits)
  then show ?thesis
    by (auto simp: poll_reconnect_timer_def poll_timer_def has_timer_expired_def same_delay_def split: prod.splits)
qed

lemma handle_reconnect_doubles:
  assumes K: "callbacks_keep keeps_wait P" and run: "handle_reconnect P s = Some (rc, s')"
    and expired: "fst (poll_reconnect_timer P s)" and failed: "rc \<noteq> NETWORK_RECONNECTED"
  shows "interval s' = interval s * 2 \<and> (interval s * 2 \<le> 128000 \<longrightarrow> delay_started P s')"
proof -
  obtain s1 where p: "poll_reconnect_timer P s = (True, s1)"
    using expired by (cases "poll_reconnect_timer P s") auto
  have i1: "interval s1 = interval s" using poll_reconnect_cl [OF p] by auto
  let ?link = "case net_is_connected P of None \<Rightarrow> (NETWORK_PHYSICAL_LAYER_DISCONNECTED, s1) | Some f \<Rightarrow> on_world f s1"
  obtain r s2 where link: "?link = (r, s2)" by (cases ?link)
  have i2: "interval s2 = interval s"
    using link i1 by (auto simp: on_world_eq split: option.splits)
  show ?thesis
  proof (cases "r = NETWORK_PHYSICAL_LAYER_CONNECTED")
    case False
    then have "back_off P r s2 = (rc, s')"
      using run p link by (simp add: handle_reconnect_def)
    then show ?thesis using back_off_result i2 by metis
  next
    case True
    then obtain r3 s3 where a: "aws_iot_mqtt_attempt_reconnect P s2 = Some (r3, s3)"
      using run p link by (auto simp: handle_reconnect_def Option.bind_eq_Some_conv)
    note res = attempt_result [OF K a]
    show ?thesis
    proof (cases "r3 = NETWORK_RECONNECTED")
      case again: True
      then obtain w where "set_client_state P CLIENT_STATE_CONNECTED_IDLE CLIENT_STATE_CONNECTED_YIELD_IN_PROGRESS s3
          = (SUCCESS, s3\<lparr>cl := (cl s3)\<lparr>clientState := CLIENT_STATE_CONNECTED_YIELD_IN_PROGRESS\<rparr>, wd := w\<rparr>)"
        using res set_state_hit [OF callbacks_work [OF K], of s3] by metis
      then have "rc = NETWORK_RECONNECTED"
        using run p link True a again by (simp add: handle_reconnect_def)
      with failed show ?thesis ..
    next
      case False
      then have "back_off P r3 s3 = (rc, s')"
        using run p link True a by (simp add: handle_reconnect_def)
      then show ?thesis using back_off_result i2 res by metis
    qed
  qed
qed

subsection \<open>A lost connection\<close>

text \<open>The states in which the background loop tries to reconnect, and the passes of the loop that follow a lost
  connection up to a state, with the number of attempts among them and the state in which the current delay began, after the
  loss or the last attempt.\<close>

definition reconnect_state :: "ClientState \<Rightarrow> bool" where
  "reconnect_state x \<longleftrightarrow> x = CLIENT_STATE_PENDING_RECONNECT \<or> x = CLIENT_STATE_CONNECTED_RESUBSCRIBE_IN_PROGRESS"

inductive reconnecting :: "'w platform \<Rightarrow> nat \<Rightarrow> 'w st \<Rightarrow> 'w st \<Rightarrow> 'w st \<Rightarrow> bool" for P where
  lost: "reconnecting P 0 s s s"
| attempt: "reconnecting P n s d s1 \<Longrightarrow> reconnect_state (clientState (cl s1)) \<Longrightarrow> fst (poll_reconnect_timer P s1) \<Longrightarrow>
    yield_pass P p s1 = Some ((rc, False, p'), s2) \<Longrightarrow> rc \<noteq> NETWORK_RECONNECTED \<Longrightarrow> reconnecting P (Suc n) s s2 s2"
| wait: "reconnecting P n s d s1 \<Longrightarrow> reconnect_state (clientState (cl s1)) \<Longrightarrow> \<not> fst (poll_reconnect_timer P s1) \<Longrightarrow>
    yield_pass P p s1 = Some ((rc, False, p'), s2) \<Longrightarrow> reconnecting P n s d s2"

lemma yield_pass_reconnects:
  assumes "reconnect_state (clientState (cl s))" and "yield_pass P p s = Some ((rc, False, p'), s')"
  shows "interval s \<le> 128000" and "handle_reconnect P s = Some (rc, s')"
  using assms by (auto simp: yield_pass_def reconnect_state_def AWS_IOT_MQTT_MAX_RECONNECT_WAIT_INTERVAL_def
      Option.bind_eq_Some_conv split: if_splits)

lemma reconnecting_interval:
  assumes "reconnecting P n s d s'" and K: "callbacks_keep keeps_wait P" and "interval s = 1000" and "delay_started P s"
  shows "n \<le> 8 \<and> unat (interval s') = 1000 * 2 ^ n \<and> interval d = interval s' \<and>
    (n < 8 \<longrightarrow> delay_started P d \<and> same_delay (reconnectDelayTimer (cl d)) (reconnectDelayTimer (cl s')))"
  using assms(1,3,4)
proof (induction rule: reconnecting.induct)
  case (lost s)
  then show ?case by (simp add: same_delay_def)
next
  case (attempt n s d s1 p rc p' s2)
  note bound = yield_pass_reconnects(1) [OF attempt(2,4)] and run = yield_pass_reconnects(2) [OF attempt(2,4)]
  have i: "unat (interval s1) = 1000 * 2 ^ n" using attempt by simp
  have "1000 * 2 ^ n \<le> (128000 :: nat)" using bound i by (simp add: word_le_nat_alt)
  then have n: "n \<le> 7"
    using power_increasing [of 8 n "2 :: nat"] by (cases "n \<le> 7") auto
  note doubles = handle_reconnect_doubles [OF K run attempt(3,5)]
  have twice: "unat (interval s1 * 2) = unat (interval s1) * 2"
    using bound by (simp add: unat_word_ariths word_le_nat_alt)
  have "delay_started P s2" if "Suc n < 8"
  proof -
    have "(2 :: nat) ^ n \<le> 2 ^ 6" using that by (intro power_increasing) simp_all
    then have "interval s1 * 2 \<le> 128000" using twice i by (simp add: word_le_nat_alt)
    then show ?thesis using doubles by simp
  qed
  then show ?case using doubles twice n i by (simp add: same_delay_def)
next
  case (wait n s d s1 p rc p' s2)
  then show ?case using handle_reconnect_waits [OF yield_pass_reconnects(2) [OF wait(2,4)] wait(3)]
    by (simp add: same_delay_def)
qed

lemma begin_reconnect_result:
  assumes works: "mutexes_work P" and run: "begin_reconnect P s = (SUCCESS, s')"
  shows "clientState (cl s') = CLIENT_STATE_PENDING_RECONNECT \<and> interval s' = 1000 \<and> delay_started P s'
    \<and> list_all (\<lambda>h. \<not> resubscribed h) (messageHandlers (cl s'))"
proof (cases "clientState (cl s) = CLIENT_STATE_DISCONNECTED_ERROR")
  case False
  then obtain w where "set_client_state P CLIENT_STATE_DISCONNECTED_ERROR CLIENT_STATE_PENDING_RECONNECT s
      = (MQTT_UNEXPECTED_CLIENT_STATE_ERROR, s\<lparr>wd := w\<rparr>)"
    using set_state_miss [OF works] by blast
  then show ?thesis using run by (simp add: begin_reconnect_def)
next
  case True
  then obtain w where set: "set_client_state P CLIENT_STATE_DISCONNECTED_ERROR CLIENT_STATE_PENDING_RECONNECT s
      = (SUCCESS, s\<lparr>cl := (cl s)\<lparr>clientState := CLIENT_STATE_PENDING_RECONNECT\<rparr>, wd := w\<rparr>)"
    using set_state_hit [OF works] by blast
  let ?s1 = "upd (currentReconnectWaitInterval_update (\<lambda>_. 1000))
    (s\<lparr>cl := (cl s)\<lparr>clientState := CLIENT_STATE_PENDING_RECONNECT\<rparr>, wd := w\<rparr>)"
  obtain t s2 where a: "arm_ms P 1000 ?s1 = (t, s2)" by (cases "arm_ms P 1000 ?s1")
  show ?thesis using arm_ms_started [OF a] run a
    by (auto simp: begin_reconnect_def set delay_started_def AWS_IOT_MQTT_MIN_RECONNECT_WAIT_INTERVAL_def list_all_iff)
qed

lemma lost_connection:
  assumes works: "mutexes_work P" and "\<not> reconnect_state (clientState (cl s))"
    and "yield_pass P p s = Some ((NETWORK_ATTEMPTING_RECONNECT, False, p'), s')"
  obtains s1 where "begin_reconnect P s1 = (SUCCESS, s')"
proof -
  obtain rc1 p1 s1 where c: "cycle_read P p s = Some (rc1, p1, s1)"
    using assms by (auto simp: yield_pass_def reconnect_state_def Option.bind_eq_Some_conv split: if_splits)
  let ?check = "if rc1 = SUCCESS then keep_alive P s1
    else if rc1 = NETWORK_SSL_READ_ERROR \<or> rc1 = NETWORK_SSL_WRITE_ERROR \<or> rc1 = NETWORK_SSL_WRITE_TIMEOUT_ERROR
    then handle_disconnect P s1 else Some (rc1, s1)"
  obtain rc2 s2 where k: "?check = Some (rc2, s2)"
    using assms c by (cases ?check) (auto simp: yield_pass_def reconnect_state_def)
  let ?s3 = "upd (counterNetworkDisconnected_update (\<lambda>n. n + 1)) s2"
  obtain rc4 s4 where b: "begin_reconnect P ?s3 = (rc4, s4)" by (cases "begin_reconnect P ?s3")
  have "(if rc2 = NETWORK_DISCONNECTED_ERROR then
      if isAutoReconnectEnabled (cl ?s3) then
        if rc4 \<noteq> SUCCESS then Some ((rc4, True, p1), s4) else Some ((NETWORK_ATTEMPTING_RECONNECT, False, p1), s4)
      else Some ((rc2, True, p1), ?s3)
    else Some ((rc2, rc2 \<noteq> SUCCESS, p1), s2)) = Some ((NETWORK_ATTEMPTING_RECONNECT, False, p'), s')"
    using assms(2,3) unfolding yield_pass_def reconnect_state_def
    by (simp add: c k b cong: if_cong)
  then have "rc4 = SUCCESS \<and> s4 = s'" by (auto split: if_splits)
  then show ?thesis using b by (intro that) simp
qed

text \<open>(C15) Whatever the network does, a lost connection is retried at most eight times, with delays that double from one
  second. The state after a loss is pending, with every subscription to be renewed. After the loss and after each of the first
  seven failed attempts the delay timer is started anew, from the tick that is read last; while the loop waits, a pass makes the
  next attempt exactly when 100 * 2^n ticks of ten milliseconds have gone by since then, for the n attempts made. After the
  eighth attempt the loop gives up.\<close>

theorem reconnect_gives_up:
  assumes K: "callbacks_keep keeps_wait P" and up: "\<not> reconnect_state (clientState (cl s0))"
    and loss: "yield_pass P p s0 = Some ((NETWORK_ATTEMPTING_RECONNECT, False, p'), s)"
    and passes: "reconnecting P n s d s'"
  shows "clientState (cl s) = CLIENT_STATE_PENDING_RECONNECT
    \<and> list_all (\<lambda>h. \<not> resubscribed h) (messageHandlers (cl s))
    \<and> n \<le> 8 \<and> unat (currentReconnectWaitInterval (cl s')) = 1000 * 2 ^ n
    \<and> (if n < 8
       then (\<exists>w. wd d = snd (get_ticks P w) \<and> start_ticks (reconnectDelayTimer (cl d)) = fst (get_ticks P w)) \<and>
         (fst (poll_reconnect_timer P s') \<longleftrightarrow>
           100 * 2 ^ n \<le> unat (fst (get_ticks P (wd s')) - start_ticks (reconnectDelayTimer (cl d))))
       else if reconnect_state (clientState (cl s'))
       then yield_pass P q s' = Some ((NETWORK_RECONNECT_TIMED_OUT_ERROR, True, q), s') else True)"
proof -
  obtain s1 where "begin_reconnect P s1 = (SUCCESS, s)"
    using lost_connection [OF callbacks_work [OF K] up loss] .
  note start = begin_reconnect_result [OF callbacks_work [OF K] this]
  have i: "n \<le> 8" "unat (interval s') = 1000 * 2 ^ n" "interval d = interval s'"
    and delay: "n < 8 \<Longrightarrow> delay_started P d \<and> same_delay (reconnectDelayTimer (cl d)) (reconnectDelayTimer (cl s'))"
    using reconnecting_interval [OF passes K] start by auto
  have "yield_pass P q s' = Some ((NETWORK_RECONNECT_TIMED_OUT_ERROR, True, q), s')"
    if "\<not> n < 8" "reconnect_state (clientState (cl s'))"
  proof -
    have "n = 8" using that(1) i(1) by simp
    then show ?thesis using i that(2) by (simp add: yield_pass_def reconnect_state_def word_less_nat_alt
        AWS_IOT_MQTT_MAX_RECONNECT_WAIT_INTERVAL_def)
  qed
  moreover have "(\<exists>w. wd d = snd (get_ticks P w) \<and> start_ticks (reconnectDelayTimer (cl d)) = fst (get_ticks P w)) \<and>
      (fst (poll_reconnect_timer P s') \<longleftrightarrow>
        100 * 2 ^ n \<le> unat (fst (get_ticks P (wd s')) - start_ticks (reconnectDelayTimer (cl d))))" if n: "n < 8"
  proof -
    obtain w where w: "wd d = snd (get_ticks P w)" "reconnectDelayTimer (cl d) = countdown_ms (fst (get_ticks P w)) (interval s')"
      using delay [OF n] i(3) by (auto simp: delay_started_def)
    have t: "start_ticks (reconnectDelayTimer (cl s')) = start_ticks (reconnectDelayTimer (cl d))"
      "timeout_ticks (reconnectDelayTimer (cl s')) = interval s' div portTICK_PERIOD_MS"
      using delay [OF n] w(2) by (simp_all add: same_delay_def countdown_ms_def)
    have "unat (interval s' div portTICK_PERIOD_MS) = 100 * 2 ^ n" unfolding unat_div_tick i(2) by simp
    then show ?thesis using w t
      by (auto simp: poll_reconnect_timer_def poll_timer_def has_timer_expired_def expired_def word_le_nat_alt
          countdown_ms_def split: prod.splits)
  qed
  ultimately show ?thesis using start i by simp
qed

theorem reconnect_gives_up_witness:
  "\<exists>s s'. yield_pass unplugged None
       (upd (clientState_update (\<lambda>_. CLIENT_STATE_CONNECTED_YIELD_IN_PROGRESS)) (idle_state []))
         = Some ((NETWORK_ATTEMPTING_RECONNECT, False, None), s)
     \<and> reconnecting unplugged 1 s s' s' \<and> unat (currentReconnectWaitInterval (cl s')) = 2000"
proof -
  let ?s0 = "upd (clientState_update (\<lambda>_. CLIENT_STATE_CONNECTED_YIELD_IN_PROGRESS)) (idle_state [])"
  have "(do { (r, s) \<leftarrow> yield_pass unplugged None ?s0; (r', s') \<leftarrow> yield_pass unplugged None s;
      Some (r, r', fst (poll_reconnect_timer unplugged s)) })
    = Some ((NETWORK_ATTEMPTING_RECONNECT, False, None), (NETWORK_PHYSICAL_LAYER_DISCONNECTED, False, None), True)"
    by code_simp
  then obtain s s' where loss: "yield_pass unplugged None ?s0 = Some ((NETWORK_ATTEMPTING_RECONNECT, False, None), s)"
    and retry: "yield_pass unplugged None s = Some ((NETWORK_PHYSICAL_LAYER_DISCONNECTED, False, None), s')"
    and expired: "fst (poll_reconnect_timer unplugged s)"
    by (auto simp: Option.bind_eq_Some_conv)
  have K: "callbacks_keep keeps_wait unplugged" by (rule demo_keeps(3) [OF keeps_wait_refl])
  have up: "\<not> reconnect_state (clientState (cl ?s0))" by (simp add: reconnect_state_def)
  have "clientState (cl s) = CLIENT_STATE_PENDING_RECONNECT"
    using reconnect_gives_up [OF K up loss reconnecting.lost] by blast
  then have passes: "reconnecting unplugged 1 s s' s'"
    using reconnecting.attempt [OF reconnecting.lost _ expired retry] by (simp add: reconnect_state_def)
  then show ?thesis using loss reconnect_gives_up [OF K up loss passes] by auto
qed

subsection \<open>What a reconnection restores\<close>

text \<open>What renewing the subscriptions of the given slots does to the table.\<close>

definition renewed :: "nat \<Rightarrow> MessageHandlers list \<Rightarrow> MessageHandlers list" where
  "renewed i hs = (if topicName (hs ! i) = None then hs else hs[i := (hs ! i)\<lparr>resubscribed := True\<rparr>])"

lemma length_fold_renewed [simp]: "length (fold renewed is hs) = length hs"
  by (induction "is" arbitrary: hs) (simp_all add: renewed_def)

lemma nth_fold_renewed:
  "j < length hs \<Longrightarrow> fold renewed is hs ! j
    = (if j \<in> set is \<and> topicName (hs ! j) \<noteq> None then (hs ! j)\<lparr>resubscribed := True\<rparr> else hs ! j)"
proof (induction "is" arbitrary: hs)
  case Nil
  then show ?case by simp
next
  case (Cons i "is")
  have "j < length (renewed i hs)" using Cons.prems by (simp add: renewed_def)
  from Cons.IH [OF this] show ?case
    using Cons.prems by (cases "i = j") (auto simp: renewed_def nth_list_update)
qed

lemma renewed_again:
  assumes "topicName (hs ! i) = None \<or> resubscribed (hs ! i)"
  shows "renewed i hs = hs"
proof -
  have "h\<lparr>resubscribed := True\<rparr> = h" if "resubscribed h" for h :: MessageHandlers
    using that by (cases h) simp
  then have "hs[i := (hs ! i)\<lparr>resubscribed := True\<rparr>] = hs" if "resubscribed (hs ! i)"
    using that by (metis list_update_id)
  with assms show ?thesis unfolding renewed_def by metis
qed

lemma resubscribe_exchange_table:
  assumes K: "callbacks_keep keeps_table P" and run: "resubscribe_exchange P i s = Some (rc, s')"
    and topic: "topicName (messageHandlers (cl s) ! i) \<noteq> None"
  shows "messageHandlers (cl s') = (if rc = SUCCESS then renewed i (messageHandlers (cl s)) else messageHandlers (cl s))"
proof -
  obtain k s1 where id: "take_packet_id s = (k, s1)" by (cases "take_packet_id s")
  from run obtain r s2 packet where e: "exchange P packet SUBACK granted_one s1 = Some (r, s2)"
    and packet: "packet = serialize_subscribe (writeBufSize (cl s1)) 0 k
      [(topicName (messageHandlers (cl s1) ! i), topicNameLen (messageHandlers (cl s1) ! i),
        handler_qos (messageHandlers (cl s1) ! i))]"
    by (auto simp: resubscribe_exchange_def id Let_def Option.bind_eq_Some_conv)
  have "keeps_table (cl s1) (cl s2)"
    by (rule table.exchange_frame [OF K e [unfolded packet]]) (rule serialize_subscribe_fits)
  then have t: "messageHandlers (cl s2) = messageHandlers (cl s)"
    using table.take_packet_id_frame [OF id] by (simp add: keeps_table_def)
  show ?thesis
  proof (cases r)
    case (Inl e')
    then have "rc = e'" "s' = s2"
      using run e unfolding packet by (simp_all add: resubscribe_exchange_def id)
    moreover have "e' \<noteq> SUCCESS"
      by (rule exchange_error [OF e [unfolded packet Inl]])
        (fact serialize_subscribe_error suback_error)+
    ultimately show ?thesis using t by simp
  next
    case (Inr x)
    then show ?thesis
      using run e t topic unfolding packet
      by (auto simp: resubscribe_exchange_def id mark_resubscribed_def renewed_def)
  qed
qed

lemma resubscribe_loop_table:
  assumes K: "callbacks_keep keeps_table P"
  shows "resubscribe_loop P is s = Some (SUCCESS, s') \<Longrightarrow>
    messageHandlers (cl s') = fold renewed is (messageHandlers (cl s))"
proof (induction "is" arbitrary: s)
  case Nil
  then show ?case by simp
next
  case (Cons i "is")
  let ?h = "messageHandlers (cl s) ! i"
  show ?case
  proof (cases "topicName ?h = None \<or> resubscribed ?h")
    case True
    then show ?thesis using Cons renewed_again [OF True] by simp
  next
    case False
    then obtain rc2 s2 where e: "with_timer P (resubscribe_exchange P i) s = Some (rc2, s2)"
      and rest: "if rc2 \<noteq> SUCCESS then Some (rc2, s2) = Some (SUCCESS, s')
        else resubscribe_loop P is s2 = Some (SUCCESS, s')"
      using Cons.prems by (auto simp: Let_def Option.bind_eq_Some_conv split: if_splits)
    then have ok: "rc2 = SUCCESS" "resubscribe_loop P is s2 = Some (SUCCESS, s')" by (auto split: if_splits)
    from e obtain s3 where "resubscribe_exchange P i (start_tm P (commandTimeoutMs (cl s)) s) = Some (rc2, s3)"
      "cl s2 = cl s3"
      by (auto simp: with_timer_def Option.bind_eq_Some_conv)
    then have "messageHandlers (cl s2) = renewed i (messageHandlers (cl s))"
      using resubscribe_exchange_table [OF K, of i _ rc2 s3] False ok by fastforce
    then show ?thesis using Cons.IH [OF ok(2)] by simp
  qed
qed

lemma takeWhile_topics:
  assumes "j < get_free_message_handler_index c" and "length (messageHandlers c) = AWS_IOT_MQTT_NUM_SUBSCRIBE_HANDLERS"
  shows "j < length (messageHandlers c) \<and> topicName (messageHandlers c ! j) \<noteq> None"
proof -
  have "get_free_message_handler_index c \<le> length (messageHandlers c)"
    using assms(2) length_takeWhile_le [of _ "messageHandlers c"] by (simp add: get_free_message_handler_index_def)
  moreover have "topicName (messageHandlers c ! j) \<noteq> None"
    using assms takeWhile_nth [of j "\<lambda>h. topicName h \<noteq> None" "messageHandlers c"]
      set_takeWhileD [OF nth_mem, of j "\<lambda>h. topicName h \<noteq> None" "messageHandlers c"]
    by (simp add: get_free_message_handler_index_def)
  ultimately show ?thesis using assms(1) by simp
qed

text \<open>A resubscription that reports success has renewed exactly the subscriptions in front of the first
  free slot of the table: those behind a slot freed by an unsubscription are skipped and stay lost.\<close>

theorem resubscribe_stops_at_gap:
  assumes K: "callbacks_keep keeps_table P" and five: "length (messageHandlers (cl s)) = 5"
    and state: "clientState (cl s) = CLIENT_STATE_CONNECTED_IDLE"
    and run: "aws_iot_mqtt_resubscribe P s = Some (SUCCESS, s')"
  shows "messageHandlers (cl s')
    = map (resubscribed_update (\<lambda>_. True)) (takeWhile (\<lambda>h. topicName h \<noteq> None) (messageHandlers (cl s)))
      @ dropWhile (\<lambda>h. topicName h \<noteq> None) (messageHandlers (cl s))"
proof -
  let ?hs = "messageHandlers (cl s)" and ?k = "get_free_message_handler_index (cl s)"
  let ?t = "takeWhile (\<lambda>h. topicName h \<noteq> None) ?hs"
  have works: "mutexes_work P" by (rule callbacks_work [OF K])
  obtain w where enter: "set_client_state P CLIENT_STATE_CONNECTED_IDLE CLIENT_STATE_CONNECTED_RESUBSCRIBE_IN_PROGRESS s
      = (SUCCESS, s\<lparr>cl := (cl s)\<lparr>clientState := CLIENT_STATE_CONNECTED_RESUBSCRIBE_IN_PROGRESS\<rparr>, wd := w\<rparr>)"
    using set_state_hit [OF works state] by blast
  let ?s1 = "s\<lparr>cl := (cl s)\<lparr>clientState := CLIENT_STATE_CONNECTED_RESUBSCRIBE_IN_PROGRESS\<rparr>, wd := w\<rparr>"
  obtain rc2 s2 where r: "internal_resubscribe P ?s1 = Some (rc2, s2)"
    and leave: "(if rc2 = SUCCESS then set_client_state P CLIENT_STATE_CONNECTED_RESUBSCRIBE_IN_PROGRESS
      CLIENT_STATE_CONNECTED_IDLE s2 else (rc2, s2)) = (SUCCESS, s')"
    using run state by (auto simp: aws_iot_mqtt_resubscribe_def is_client_connected_def enter
        Option.bind_eq_Some_conv split: if_splits)
  have ok: "rc2 = SUCCESS" using leave by (auto split: if_splits)
  have k: "?k = length ?t" using five by (simp add: get_free_message_handler_index_def AWS_IOT_MQTT_NUM_SUBSCRIBE_HANDLERS_def)
  have "messageHandlers (cl s2) = fold renewed [0..<?k] ?hs"
    using resubscribe_loop_table [OF K r [unfolded internal_resubscribe_def ok]]
    by (simp add: get_free_message_handler_index_def)
  also have "\<dots> = map (resubscribed_update (\<lambda>_. True)) ?t @ dropWhile (\<lambda>h. topicName h \<noteq> None) ?hs"
  proof (rule nth_equalityI)
    show "length (fold renewed [0..<?k] ?hs)
        = length (map (resubscribed_update (\<lambda>_. True)) ?t @ dropWhile (\<lambda>h. topicName h \<noteq> None) ?hs)"
      by (metis length_append length_fold_renewed length_map takeWhile_dropWhile_id)
  next
    fix j assume "j < length (fold renewed [0..<?k] ?hs)"
    then have j: "j < length ?hs" by simp
    show "fold renewed [0..<?k] ?hs ! j
        = (map (resubscribed_update (\<lambda>_. True)) ?t @ dropWhile (\<lambda>h. topicName h \<noteq> None) ?hs) ! j"
    proof (cases "j < ?k")
      case True
      then show ?thesis
        using nth_fold_renewed [OF j, of "[0..<?k]"] takeWhile_topics [OF True] five k takeWhile_nth [of j _ ?hs]
        by (simp add: nth_append AWS_IOT_MQTT_NUM_SUBSCRIBE_HANDLERS_def)
    next
      case False
      have "?hs ! j = dropWhile (\<lambda>h. topicName h \<noteq> None) ?hs ! (j - length ?t)"
        using False nth_append [of ?t "dropWhile (\<lambda>h. topicName h \<noteq> None) ?hs" j]
        unfolding takeWhile_dropWhile_id k by simp
      with False show ?thesis
        using nth_fold_renewed [OF j, of "[0..<?k]"] k by (simp add: nth_append)
    qed
  qed
  finally show ?thesis
    using leave ok set_client_state_cl [of P CLIENT_STATE_CONNECTED_RESUBSCRIBE_IN_PROGRESS CLIENT_STATE_CONNECTED_IDLE s2]
    by auto
qed

theorem resubscribe_stops_at_gap_witness:
  "\<exists>s'. aws_iot_mqtt_resubscribe demo
       (upd (messageHandlers_update (\<lambda>hs. hs[1 := no_handler\<lparr>topicName := demo_topic\<rparr>])) (idle_state []))
       = Some (SUCCESS, s')
     \<and> messageHandlers (cl s') ! 1 = no_handler\<lparr>topicName := demo_topic\<rparr>"
proof -
  let ?s = "upd (messageHandlers_update (\<lambda>hs. hs[1 := no_handler\<lparr>topicName := demo_topic\<rparr>])) (idle_state [])"
  have "map_option fst (aws_iot_mqtt_resubscribe demo ?s) = Some SUCCESS"
    by code_simp
  then obtain s' where run: "aws_iot_mqtt_resubscribe demo ?s = Some (SUCCESS, s')" by auto
  have start: "length (messageHandlers (cl ?s)) = 5" "clientState (cl ?s) = CLIENT_STATE_CONNECTED_IDLE"
    by (simp_all add: idle_state_def idle_client_def)
  have first: "messageHandlers (cl ?s) = no_handler # [no_handler\<lparr>topicName := demo_topic\<rparr>, no_handler, no_handler, no_handler]"
    by (simp add: idle_state_def idle_client_def numeral_eq_Suc)
  have "topicName no_handler = None" by (simp add: no_handler_def)
  then have "messageHandlers (cl s') ! 1 = no_handler\<lparr>topicName := demo_topic\<rparr>"
    using resubscribe_stops_at_gap [OF demo_keeps(1) [OF keeps_table_refl] start run] unfolding first by simp
  then show ?thesis using run by blast
qed

end
