(* ===== verification/MqttReceiveProperties.thy ===== *)
theory MqttReceiveProperties
  imports MqttFrame MqttSample
begin

text \<open>
  Receiving: what is read away of a packet that does not fit, what a malformed packet leaves
  behind, and which handlers a message is delivered to.
\<close>

subsection \<open>Oversized packets\<close>

text \<open>A network that delivers every read in full.\<close>

definition reads_deliver :: "'w platform \<Rightarrow> bool" where
  "reads_deliver P \<longleftrightarrow> (\<forall>n t w. \<exists>bs t' w'. net_read P n t w = Some (SUCCESS, bs, Some n, t', w') \<and> length bs = n)"

lemma reads_deliverE:
  assumes "reads_deliver P"
  obtains bs t' w' where "net_read P n t w = Some (SUCCESS, bs, Some n, t', w')" "length bs = n"
  using assms unfolding reads_deliver_def by blast

lemma store_bytes_front:
  assumes "length bs \<le> length (readBuf c)"
  obtains buf where "store_bytes 0 (length bs) bs c = Some (c\<lparr>readBuf := buf\<rparr>)" "length buf = length (readBuf c)"
  using assms by (auto simp: store_bytes_def)

lemma discard_step:
  assumes D: "reads_deliver P" and room: "unat to_read \<le> length (readBuf (cl s))"
  obtains s' where "readBufSize (cl s') = readBufSize (cl s)" "length (readBuf (cl s')) = length (readBuf (cl s))"
    "discard_loop P rem_len rd to_read read_len s
      = (if rd + to_read < rem_len
         then discard_loop P rem_len (rd + to_read)
           (if readBufSize (cl s) \<le> rem_len - (rd + to_read) then readBufSize (cl s) else rem_len - (rd + to_read))
           to_read s'
         else Some (SUCCESS, rd + to_read, s'))"
proof -
  obtain bs t w where r: "net_read P (unat to_read) (tm s) (wd s) = Some (SUCCESS, bs, Some (unat to_read), t, w)"
    and len: "length bs = unat to_read"
    using reads_deliverE [OF D] .
  obtain buf where "store_bytes 0 (unat to_read) bs (cl s) = Some ((cl s)\<lparr>readBuf := buf\<rparr>)"
    "length buf = length (readBuf (cl s))"
    using store_bytes_front [of bs "cl s"] room len by auto
  then show ?thesis
    using that [of "s\<lparr>cl := (cl s)\<lparr>readBuf := buf\<rparr>, tm := t, wd := w\<rparr>"]
    by (simp add: discard_loop.simps [of P rem_len rd to_read] r Let_def)
qed

lemma discard_rest:
  assumes D: "reads_deliver P"
  shows "unat to_read \<le> length (readBuf (cl s)) \<Longrightarrow> unat (readBufSize (cl s)) \<le> length (readBuf (cl s)) \<Longrightarrow>
    0 < readBufSize (cl s) \<Longrightarrow> rd < rem_len \<Longrightarrow>
    to_read = (if readBufSize (cl s) \<le> rem_len - rd then readBufSize (cl s) else rem_len - rd) \<Longrightarrow>
    \<exists>s'. discard_loop P rem_len rd to_read read_len s = Some (SUCCESS, rem_len, s')"
proof (induction "unat (rem_len - rd)" arbitrary: rd to_read read_len s rule: less_induct)
  case less
  obtain s' where s': "readBufSize (cl s') = readBufSize (cl s)" "length (readBuf (cl s')) = length (readBuf (cl s))"
    and step: "discard_loop P rem_len rd to_read read_len s
      = (if rd + to_read < rem_len
         then discard_loop P rem_len (rd + to_read)
           (if readBufSize (cl s) \<le> rem_len - (rd + to_read) then readBufSize (cl s) else rem_len - (rd + to_read))
           to_read s'
         else Some (SUCCESS, rd + to_read, s'))"
    using discard_step [OF D less.prems(1)] by blast
  have d: "unat (rem_len - rd) = unat rem_len - unat rd"
    using less.prems(4) by (simp add: unat_sub)
  have pos: "0 < unat to_read"
    using less.prems(3,4,5) d by (auto simp: word_less_nat_alt)
  have le: "to_read \<le> rem_len - rd" using less.prems(5) by auto
  have sum: "unat (rd + to_read) = unat rd + unat to_read" and bound: "unat rd + unat to_read \<le> unat rem_len"
  proof -
    have "unat to_read \<le> unat rem_len - unat rd"
      using le d by (simp add: word_le_nat_alt)
    then show b: "unat rd + unat to_read \<le> unat rem_len" using less.prems(4) by (simp add: word_less_nat_alt)
    then show "unat (rd + to_read) = unat rd + unat to_read"
      using u32_less [of rem_len] by (simp add: unat_word_ariths)
  qed
  show ?case
  proof (cases "rd + to_read < rem_len")
    case True
    let ?next = "if readBufSize (cl s) \<le> rem_len - (rd + to_read) then readBufSize (cl s) else rem_len - (rd + to_read)"
    have "unat (rem_len - (rd + to_read)) = unat rem_len - unat (rd + to_read)"
      using True by (intro unat_sub order.strict_implies_order)
    then have "unat (rem_len - (rd + to_read)) < unat (rem_len - rd)"
      using True d sum pos by (simp add: word_less_nat_alt)
    moreover have "unat ?next \<le> length (readBuf (cl s'))"
      using less.prems(2) s' by (auto simp: word_le_nat_alt)
    ultimately have "\<exists>s''. discard_loop P rem_len (rd + to_read) ?next to_read s' = Some (SUCCESS, rem_len, s'')"
      using less.prems(2,3) s' True by (intro less.hyps) simp_all
    then show ?thesis using step True by simp
  next
    case False
    then have "rd + to_read = rem_len" using sum bound by (simp add: word_unat_eq_iff word_less_nat_alt)
    then show ?thesis using step by simp
  qed
qed

text \<open>On a network that delivers, reading away a packet that does not fit ends, and takes exactly the remaining
  length when that is at least the buffer size; but a packet whose remaining length is smaller, and that
  is too big only with its fixed header, costs the whole buffer size: the bytes behind it are lost.\<close>

theorem oversized_packet_discarded:
  assumes D: "reads_deliver P" and buf: "unat (readBufSize (cl s)) \<le> length (readBuf (cl s))" "0 < readBufSize (cl s)"
    and packet: "0 < rem_len"
  shows "\<exists>s'. discard_loop P rem_len 0 (readBufSize (cl s)) read_len s
    = Some (SUCCESS, max rem_len (readBufSize (cl s)), s')"
proof (cases "readBufSize (cl s) \<le> rem_len")
  case True
  then show ?thesis
    using discard_rest [OF D buf(1) buf(1) buf(2) packet, of read_len] by (simp add: max_absorb1)
next
  case False
  then have "max rem_len (readBufSize (cl s)) = readBufSize (cl s)" by (simp add: max_absorb2)
  moreover obtain s' where "discard_loop P rem_len 0 (readBufSize (cl s)) read_len s
      = Some (SUCCESS, readBufSize (cl s), s')"
  proof (rule discard_step [OF D buf(1), of rem_len 0 read_len])
    fix s'
    assume "discard_loop P rem_len 0 (readBufSize (cl s)) read_len s
      = (if 0 + readBufSize (cl s) < rem_len
         then discard_loop P rem_len (0 + readBufSize (cl s))
           (if readBufSize (cl s) \<le> rem_len - (0 + readBufSize (cl s)) then readBufSize (cl s)
            else rem_len - (0 + readBufSize (cl s))) (readBufSize (cl s)) s'
         else Some (SUCCESS, 0 + readBufSize (cl s), s'))"
    moreover have "\<not> readBufSize (cl s) < rem_len" using False by (meson order.strict_implies_order)
    ultimately show thesis using that by simp
  qed
  ultimately show ?thesis by simp
qed

theorem oversized_packet_discarded_witness:
  "\<exists>s'. discard_loop (demo\<lparr>net_read := \<lambda>n t w. Some (SUCCESS, replicate n 0, Some n, t, w)\<rparr>) 510 0 512 0 (idle_state [])
    = Some (SUCCESS, 512, s')"
proof -
  let ?P = "demo\<lparr>net_read := \<lambda>n t w. Some (SUCCESS, replicate n 0, Some n, t, w)\<rparr>" and ?s = "idle_state []"
  have "reads_deliver ?P" by (simp add: reads_deliver_def)
  moreover have buf: "readBufSize (cl ?s) = 512" "length (readBuf (cl ?s)) = 512"
    by (simp_all add: idle_state_def idle_client_def AWS_IOT_MQTT_RX_BUF_LEN_def)
  ultimately show ?thesis
    using oversized_packet_discarded [of ?P ?s 510 0] by (simp add: buf max_def)
qed

subsection \<open>Malformed packets\<close>

lemma readWrapper_have:
  "a + b \<le> readBufIndex (cl s) \<Longrightarrow> readWrapper P a b s = Some (SUCCESS, int b, s)"
  by (simp add: readWrapper_def)

lemma remaining_len_stuck:
  assumes "readBufIndex (cl s) = 5" and "5 \<le> length (readBuf (cl s))"
    and "\<forall>k \<in> {1..4}. readBuf (cl s) ! k AND 128 \<noteq> 0"
  shows "len \<le> 4 \<Longrightarrow> remaining_len_loop P len m r s = Some (Inl MQTT_DECODE_REMAINING_LENGTH_ERROR, s)"
proof (induction "4 - len" arbitrary: len m r)
  case 0
  then show ?case by (simp add: remaining_len_loop.simps)
next
  case (Suc n)
  then have len: "len < 4" by simp
  have "readWrapper P (len + 1) 1 s = Some (SUCCESS, 1, s)"
    using readWrapper_have [of "len + 1" 1 s P] assms(1) len by simp
  moreover have "byte_at (readBuf (cl s)) (len + 1) = Some (readBuf (cl s) ! (len + 1))"
    using assms(2) len by (simp add: byte_at_def)
  moreover have "readBuf (cl s) ! (len + 1) AND 128 \<noteq> 0"
    using assms(3) len by simp
  moreover have "remaining_len_loop P (len + 1) m' r' s = Some (Inl MQTT_DECODE_REMAINING_LENGTH_ERROR, s)" for m' r'
    using Suc.hyps len by (intro Suc.hyps(1)) simp_all
  ultimately show ?case by (simp add: remaining_len_step [OF len])
qed

text \<open>A packet whose length field has four continuation bytes blocks the client for good: with it in the
  receive buffer every further read reports the same error, without a look at the network and without any change of the
  client.\<close>

theorem malformed_length_sticks:
  assumes "readBufIndex (cl s) = 5" and "5 \<le> length (readBuf (cl s))"
    and "\<forall>k \<in> {1..4}. readBuf (cl s) ! k AND 128 \<noteq> 0"
  shows "read_packet P p s
    = Some (MQTT_DECODE_REMAINING_LENGTH_ERROR, p, snd (arm_ms P (packetTimeoutMs (cl s)) s))
    \<and> cl (snd (arm_ms P (packetTimeoutMs (cl s)) s)) = cl s"
proof -
  obtain t s1 where a: "arm_ms P (packetTimeoutMs (cl s)) s = (t, s1)" by (cases "arm_ms P (packetTimeoutMs (cl s)) s")
  have c: "cl s1 = cl s" using arm_ms_cl(1) [of P "packetTimeoutMs (cl s)" s] unfolding a by simp
  have "readWrapper P 0 1 s1 = Some (SUCCESS, 1, s1)"
    using readWrapper_have [of 0 1 s1 P] assms(1) c by simp
  moreover have "remaining_len_loop P 0 1 0 s1 = Some (Inl MQTT_DECODE_REMAINING_LENGTH_ERROR, s1)"
    using assms c by (intro remaining_len_stuck) simp_all
  ultimately show ?thesis by (simp add: read_packet_def a c)
qed

theorem malformed_length_sticks_witness:
  "\<exists>s1. read_packet demo None (idle_state [0x30, 0x80, 0x80, 0x80, 0x80, 1, 0xD0, 0])
       = Some (MQTT_DECODE_REMAINING_LENGTH_ERROR, None, s1)
     \<and> map_option fst (read_packet demo None s1) = Some MQTT_DECODE_REMAINING_LENGTH_ERROR"
proof -
  let ?s = "idle_state [0x30, 0x80, 0x80, 0x80, 0x80, 1, 0xD0, 0]"
  have "map_option (\<lambda>(rc, p, s1). (rc, p, readBufIndex (cl s1), take 5 (readBuf (cl s1)))) (read_packet demo None ?s)
      = Some (MQTT_DECODE_REMAINING_LENGTH_ERROR, None, 5, [0x30, 0x80, 0x80, 0x80, 0x80])"
    by code_simp
  then obtain s1 where first: "read_packet demo None ?s = Some (MQTT_DECODE_REMAINING_LENGTH_ERROR, None, s1)"
    and index: "readBufIndex (cl s1) = 5" and bytes: "take 5 (readBuf (cl s1)) = [0x30, 0x80, 0x80, 0x80, 0x80]"
    by auto
  have len: "5 \<le> length (readBuf (cl s1))"
    using arg_cong [OF bytes, of length] by simp
  have "readBuf (cl s1) ! k AND 128 \<noteq> 0" if "k \<in> {1..4}" for k
  proof -
    have "readBuf (cl s1) ! k = [0x30, 0x80, 0x80, 0x80, 0x80] ! k"
      using that by (simp flip: bytes)
    moreover have "k = 1 \<or> k = 2 \<or> k = 3 \<or> k = 4" using that by auto
    ultimately show ?thesis by auto
  qed
  then show ?thesis
    using first malformed_length_sticks [OF index len, of demo None] by simp
qed

subsection \<open>Delivery\<close>

text \<open>A platform whose mutexes work and whose handlers are noted in the world.\<close>

definition notes_calls :: "'w platform \<Rightarrow> (nat \<Rightarrow> nat \<Rightarrow> 'w \<Rightarrow> 'w) \<Rightarrow> bool" where
  "notes_calls P note \<longleftrightarrow> (\<forall>m w. mutex_lock P m w = (SUCCESS, w) \<and> mutex_trylock P m w = (SUCCESS, w)
     \<and> mutex_unlock P m w = (SUCCESS, w))
   \<and> (\<forall>f d msg s. message_handler P f d msg s = Some (s\<lparr>wd := note f d (wd s)\<rparr>))"

text \<open>What a handler does with a message of the given name.\<close>

definition notify :: "(nat \<Rightarrow> nat \<Rightarrow> 'w \<Rightarrow> 'w) \<Rightarrow> u8 list \<Rightarrow> MessageHandlers \<Rightarrow> 'w \<Rightarrow> 'w" where
  "notify note name h =
     (case pApplicationHandler h of
        None \<Rightarrow> id
      | Some f \<Rightarrow> if handler_matches h name (of_nat (length name)) = Some True
                 then note f (pApplicationHandlerData h) else id)"

lemma strncmp_defined: "0 \<in> set b \<Longrightarrow> n \<le> length a \<Longrightarrow> strncmp_eq a b n \<noteq> None"
  by (induction a b n rule: strncmp_eq.induct) auto

lemma handler_matches_defined:
  assumes "\<And>t. topicName h = Some t \<Longrightarrow> 0 \<in> set t" and "n = of_nat (length name)" "length name < 65536"
  shows "handler_matches h name n \<noteq> None"
proof (cases "topicName h")
  case None
  then show ?thesis by (simp add: handler_matches_def)
next
  case (Some t)
  then have t: "0 \<in> set t" by (rule assms(1))
  have "unat n = length name" using assms(2,3) by (simp add: unat_of_nat)
  then obtain e where "strncmp_eq name t (unat n) = Some e"
    using strncmp_defined [OF t, of "unat n" name] by auto
  moreover obtain m where "is_topic_matched (Some t) (Some name) = Some m"
    using t by (auto simp: is_topic_matched_def c_string_def)
  ultimately show ?thesis by (auto simp: handler_matches_def Some)
qed

lemma deliver_loop_notifies:
  assumes N: "notes_calls P note"
    and filters: "\<And>h t. h \<in> set hs \<Longrightarrow> topicName h = Some t \<Longrightarrow> 0 \<in> set t"
    and name: "mem_read (Some (drop (in_topic msg) buf)) (unat (in_topicLen msg)) = Some name"
      "in_topicLen msg = of_nat (length name)" "length name < 65536"
  shows "messageHandlers (cl s) = hs \<Longrightarrow> readBuf (cl s) = buf \<Longrightarrow> \<forall>i \<in> set is. i < length hs \<Longrightarrow>
    deliver_loop P msg is s = Some (s\<lparr>wd := fold (\<lambda>i. notify note name (hs ! i)) is (wd s)\<rparr>)"
proof (induction "is" arbitrary: s)
  case Nil
  then show ?case by simp
next
  case (Cons i "is")
  let ?h = "hs ! i"
  have h: "?h \<in> set hs" using Cons.prems by simp
  obtain m where hm: "handler_matches ?h name (in_topicLen msg) = Some m"
    using handler_matches_defined [OF filters [OF h] name(2,3)] by auto
  have m: "(if topicName ?h = None then Some False else handler_matches ?h name (in_topicLen msg)) = Some m"
    using hm by (auto simp: handler_matches_def)
  have m2: "m \<longleftrightarrow> handler_matches ?h name (of_nat (length name)) = Some True"
    using hm name(2) by simp
  let ?w = "notify note name ?h (wd s)"
  have step: "(case pApplicationHandler ?h of None \<Rightarrow> Some s
      | Some f \<Rightarrow> if m then do {
          s' \<leftarrow> message_handler P f (pApplicationHandlerData ?h) msg s; Some (s'\<lparr>tm := tm s\<rparr>) }
        else Some s) = Some (s\<lparr>wd := ?w\<rparr>)"
    using N m2 by (auto simp: notify_def notes_calls_def split: option.splits)
  have m': "(if topicName ?h = None then Some False else do {
      name \<leftarrow> mem_read (Some (drop (in_topic msg) buf)) (unat (in_topicLen msg));
      handler_matches ?h name (in_topicLen msg) }) = Some m"
    using m name(1) by (auto split: if_splits)
  have "deliver_loop P msg (i # is) s = deliver_loop P msg is (s\<lparr>wd := ?w\<rparr>)"
    by (simp only: deliver_loop.simps Let_def Cons.prems(1,2) m' Option.bind.simps step)
  also have "\<dots> = Some (s\<lparr>wd := fold (\<lambda>i. notify note name (hs ! i)) is ?w\<rparr>)"
    using Cons.IH [of "s\<lparr>wd := ?w\<rparr>"] Cons.prems by simp
  finally show ?case by simp
qed

text \<open>(C7) A received message is delivered, in the order of the table, to exactly the handlers whose subscription
  matches its topic, and the client is afterwards as before.\<close>

theorem delivered_to_matching:
  assumes N: "notes_calls P note" and five: "length (messageHandlers (cl s)) = 5"
    and filters: "\<forall>h \<in> set (messageHandlers (cl s)). case topicName h of None \<Rightarrow> True | Some t \<Rightarrow> 0 \<in> set t"
    and name: "in_topic msg + unat (in_topicLen msg) \<le> length (readBuf (cl s))"
  shows "deliver_message P msg s = Some (SUCCESS, s\<lparr>wd :=
    fold (notify note (take (unat (in_topicLen msg)) (drop (in_topic msg) (readBuf (cl s)))))
      (messageHandlers (cl s)) (wd s)\<rparr>)"
proof -
  let ?name = "take (unat (in_topicLen msg)) (drop (in_topic msg) (readBuf (cl s)))"
  let ?hs = "messageHandlers (cl s)"
  have set: "set_client_state P x y s' = (SUCCESS, s'\<lparr>cl := (cl s')\<lparr>clientState := y\<rparr>\<rparr>)"
    if "clientState (cl s') = x" for x y s'
    using N that by (simp add: set_client_state_def client_lock_mutex_def client_unlock_mutex_def on_world_eq
        notes_calls_def upd_def)
  let ?s1 = "s\<lparr>cl := (cl s)\<lparr>clientState := CLIENT_STATE_CONNECTED_WAIT_FOR_CB_RETURN\<rparr>\<rparr>"
  have len: "length ?name = unat (in_topicLen msg)" using name by simp
  have "deliver_loop P msg [0..<5] ?s1
      = Some (?s1\<lparr>wd := fold (\<lambda>i. notify note ?name (?hs ! i)) [0..<5] (wd ?s1)\<rparr>)"
  proof (rule deliver_loop_notifies [OF N])
    show "mem_read (Some (drop (in_topic msg) (readBuf (cl s)))) (unat (in_topicLen msg)) = Some ?name"
      using name by (simp add: mem_read_def)
    show "in_topicLen msg = of_nat (length ?name)" unfolding len by simp
    show "length ?name < 65536" unfolding len using u16_less .
  qed (use filters five in auto)
  also have "fold (\<lambda>i. notify note ?name (?hs ! i)) [0..<5] = fold (notify note ?name) ?hs"
    using fold_map [of "notify note ?name" "(!) ?hs" "[0..<5]"] map_nth [of ?hs] five by (simp add: comp_def)
  finally show ?thesis
    by (simp add: deliver_message_def set AWS_IOT_MQTT_NUM_SUBSCRIBE_HANDLERS_def)
qed

definition logging :: "link platform" where
  "logging = demo\<lparr>message_handler := \<lambda>f d msg s. Some (s\<lparr>wd := (wd s)\<lparr>outgoing := outgoing (wd s) @ [of_nat f]\<rparr>\<rparr>)\<rparr>"

definition demo_subscriptions :: "MessageHandlers list" where
  "demo_subscriptions =
     [no_handler\<lparr>topicName := demo_topic, topicNameLen := 3, pApplicationHandler := Some 7\<rparr>,
      no_handler\<lparr>topicName := Some (cstr (bytes_of ''c'')), topicNameLen := 1, pApplicationHandler := Some 8\<rparr>,
      no_handler\<lparr>topicName := Some (cstr (bytes_of ''+/b'')), topicNameLen := 3, pApplicationHandler := Some 9\<rparr>,
      no_handler, no_handler]"

theorem delivered_to_matching_witness:
  "\<exists>s'. deliver_message logging
      \<lparr>in_dup = 0, in_qos = QOS0, in_retained = 0, in_id = None, in_topic = 4, in_topicLen = 3,
       in_payload = 7, in_payloadLen = 0\<rparr>
      (upd (\<lambda>c. c\<lparr>messageHandlers := demo_subscriptions, readBuf := [0x30, 5, 0, 3] @ bytes_of ''a/b''\<rparr>) (idle_state []))
    = Some (SUCCESS, s') \<and> outgoing (wd s') = [7, 9]"
proof -
  let ?msg = "\<lparr>in_dup = 0, in_qos = QOS0, in_retained = 0, in_id = None, in_topic = 4, in_topicLen = 3,
       in_payload = 7, in_payloadLen = 0\<rparr>"
  let ?s = "upd (\<lambda>c. c\<lparr>messageHandlers := demo_subscriptions, readBuf := [0x30, 5, 0, 3] @ bytes_of ''a/b''\<rparr>) (idle_state [])"
  let ?note = "\<lambda>f d w. w\<lparr>outgoing := outgoing w @ [of_nat f]\<rparr>"
  have N: "notes_calls logging ?note" by (simp add: notes_calls_def logging_def demo_def)
  have five: "length (messageHandlers (cl ?s)) = 5" by (simp add: demo_subscriptions_def)
  have filters: "\<forall>h \<in> set (messageHandlers (cl ?s)). case topicName h of None \<Rightarrow> True | Some t \<Rightarrow> 0 \<in> set t"
    by (simp add: demo_subscriptions_def no_handler_def demo_topic_def cstr_def)
  have name: "in_topic ?msg + unat (in_topicLen ?msg) \<le> length (readBuf (cl ?s))" by (simp add: bytes_of_def)
  have "outgoing (fold (notify ?note (bytes_of ''a/b'')) demo_subscriptions (wd (idle_state []))) = [7, 9]"
    by code_simp
  then show ?thesis
    using delivered_to_matching [OF N five filters name] by (simp add: bytes_of_def)
qed

end
