(* ===== verification/Network.thy ===== *)
theory Network
  imports MqttClient
begin

text \<open>
  The port layer under the MQTT client: the mutexes (\<open>port/threads_freertos.c\<close>) and the network
  interface over mbed TLS (\<open>port/network_mbedtls_wrapper.c\<close>). FreeRTOS and mbed TLS are not
  part of the repository: their functions are the fields of a record over the world, and their
  error codes are fields, too. A call without a result that only prepares or frees library objects is one field
  for the whole group.
\<close>

subsection \<open>Mutexes\<close>

text \<open>A recursive semaphore is created, taken with a time-out in ticks, given and deleted.\<close>

record 'w rtos_api =
  sem_create :: "IoT_Mutex \<Rightarrow> 'w \<Rightarrow> bool \<times> 'w"
  sem_take :: "IoT_Mutex \<Rightarrow> u32 \<Rightarrow> 'w \<Rightarrow> bool \<times> 'w"
  sem_give :: "IoT_Mutex \<Rightarrow> 'w \<Rightarrow> bool \<times> 'w"
  sem_delete :: "IoT_Mutex \<Rightarrow> 'w \<Rightarrow> 'w"

definition portMAX_DELAY :: u32 where
  "portMAX_DELAY = 0xFFFFFFFF"

definition aws_iot_thread_mutex_init :: "'w rtos_api \<Rightarrow> IoT_Mutex \<Rightarrow> 'w \<Rightarrow> IoT_Error_t \<times> 'w" where
  "aws_iot_thread_mutex_init Q m w =
     (let (created, w) = sem_create Q m w in (if created then SUCCESS else MUTEX_INIT_ERROR, w))"

definition aws_iot_thread_mutex_lock :: "'w rtos_api \<Rightarrow> IoT_Mutex \<Rightarrow> 'w \<Rightarrow> IoT_Error_t \<times> 'w" where
  "aws_iot_thread_mutex_lock Q m w = (let (_, w) = sem_take Q m portMAX_DELAY w in (SUCCESS, w))"

definition aws_iot_thread_mutex_trylock :: "'w rtos_api \<Rightarrow> IoT_Mutex \<Rightarrow> 'w \<Rightarrow> IoT_Error_t \<times> 'w" where
  "aws_iot_thread_mutex_trylock Q m w =
     (let (taken, w) = sem_take Q m 0 w in (if taken then SUCCESS else MUTEX_LOCK_ERROR, w))"

definition aws_iot_thread_mutex_unlock :: "'w rtos_api \<Rightarrow> IoT_Mutex \<Rightarrow> 'w \<Rightarrow> IoT_Error_t \<times> 'w" where
  "aws_iot_thread_mutex_unlock Q m w =
     (let (given, w) = sem_give Q m w in (if given then SUCCESS else MUTEX_UNLOCK_ERROR, w))"

definition aws_iot_thread_mutex_destroy :: "'w rtos_api \<Rightarrow> IoT_Mutex \<Rightarrow> 'w \<Rightarrow> IoT_Error_t \<times> 'w" where
  "aws_iot_thread_mutex_destroy Q m w = (SUCCESS, sem_delete Q m w)"

subsection \<open>The network structure and the TLS library\<close>

record TLSConnectParams =
  tls_pRootCALocation :: pointer
  tls_pDeviceCertLocation :: pointer
  tls_pDevicePrivateKeyLocation :: pointer
  tls_pDestinationURL :: pointer
  tls_DestinationPort :: u16
  tls_timeout_ms :: u32
  tls_ServerVerificationFlag :: bool

record network =
  tlsConnectParams :: TLSConnectParams
  tls_flags :: u32

datatype cert_store = cacert | clicert

record 'w tls_api =
  ERR_WANT_READ :: int
  ERR_WANT_WRITE :: int
  ERR_TIMEOUT :: int
  ERR_NET_SOCKET_FAILED :: int
  ERR_NET_UNKNOWN_HOST :: int
  init_contexts :: "'w \<Rightarrow> 'w"
  free_contexts :: "'w \<Rightarrow> 'w"
  ctr_drbg_seed :: "'w \<Rightarrow> int \<times> 'w"
  crt_parse_file :: "cert_store \<Rightarrow> u8 list \<Rightarrow> 'w \<Rightarrow> int \<times> 'w"
  crt_parse :: "cert_store \<Rightarrow> u8 list \<Rightarrow> 'w \<Rightarrow> int \<times> 'w"
  pk_parse_keyfile :: "u8 list \<Rightarrow> 'w \<Rightarrow> int \<times> 'w"
  pk_parse_key :: "u8 list \<Rightarrow> 'w \<Rightarrow> int \<times> 'w"
  tcp_connect :: "u8 list \<Rightarrow> string \<Rightarrow> 'w \<Rightarrow> int \<times> 'w"
  net_set_block :: "'w \<Rightarrow> int \<times> 'w"
  ssl_config_defaults :: "'w \<Rightarrow> int \<times> 'w"
  ssl_conf_verify_rng_ca :: "bool \<Rightarrow> 'w \<Rightarrow> 'w"
  ssl_conf_own_cert :: "'w \<Rightarrow> int \<times> 'w"
  ssl_conf_read_timeout :: "u32 \<Rightarrow> 'w \<Rightarrow> 'w"
  ssl_read_timeout :: "'w \<Rightarrow> u32"
  ssl_conf_alpn_protocols :: "'w \<Rightarrow> int \<times> 'w"
  ssl_setup :: "'w \<Rightarrow> int \<times> 'w"
  ssl_set_hostname :: "u8 list \<Rightarrow> 'w \<Rightarrow> int \<times> 'w"
  ssl_set_bio :: "'w \<Rightarrow> 'w"
  ssl_handshake :: "'w \<Rightarrow> int \<times> 'w"
  ssl_get_verify_result :: "'w \<Rightarrow> u32"
  ssl_read :: "nat \<Rightarrow> 'w \<Rightarrow> int \<times> u8 list \<times> 'w"
  ssl_write :: "u8 list \<Rightarrow> 'w \<Rightarrow> int \<times> 'w"
  ssl_close_notify :: "'w \<Rightarrow> int \<times> 'w"

subsection \<open>Set-up and connection\<close>

definition iot_tls_init :: "TLSConnectParams \<Rightarrow> network \<Rightarrow> IoT_Error_t \<times> network" where
  "iot_tls_init p net = (SUCCESS, net\<lparr>tlsConnectParams := p, tls_flags := 0\<rparr>)"

definition iot_tls_is_connected :: "'w \<Rightarrow> IoT_Error_t \<times> 'w" where
  "iot_tls_is_connected w = (NETWORK_PHYSICAL_LAYER_CONNECTED, w)"

text \<open>
  A certificate or key whose first character is a slash is a path, otherwise the data
  itself, passed with its terminator.
\<close>

definition load_object ::
  "(u8 list \<Rightarrow> 'w \<Rightarrow> int \<times> 'w) \<Rightarrow> (u8 list \<Rightarrow> 'w \<Rightarrow> int \<times> 'w) \<Rightarrow> pointer \<Rightarrow> 'w \<Rightarrow> (int \<times> 'w) option"
where
  "load_object from_file from_data location w = do {
     obj \<leftarrow> location;
     name \<leftarrow> c_string obj;
     Some (if take 1 name = [SLASH] then from_file name w else from_data (name @ [0]) w)
   }"

definition net_connect_error :: "'w tls_api \<Rightarrow> int \<Rightarrow> IoT_Error_t" where
  "net_connect_error A ret =
     (if ret = ERR_NET_SOCKET_FAILED A then NETWORK_ERR_NET_SOCKET_FAILED
      else if ret = ERR_NET_UNKNOWN_HOST A then NETWORK_ERR_NET_UNKNOWN_HOST
      else NETWORK_ERR_NET_CONNECT_FAILED)"

text \<open>The handshake is repeated while the library wants more; the result is its last code.\<close>

partial_function (option) handshake_loop :: "'w tls_api \<Rightarrow> 'w \<Rightarrow> (int \<times> 'w) option" where
  "handshake_loop A w =
     (let (ret, w) = ssl_handshake A w in
      if ret \<noteq> 0 \<and> (ret = ERR_WANT_READ A \<or> ret = ERR_WANT_WRITE A) then handshake_loop A w
      else Some (ret, w))"

text \<open>The session of a connected socket: configuration, set-up, handshake, verification.\<close>

definition tls_session ::
  "'w tls_api \<Rightarrow> network \<Rightarrow> u8 list \<Rightarrow> 'w \<Rightarrow> (IoT_Error_t \<times> network \<times> 'w) option"
where
  "tls_session A net url w =
     (let p = tlsConnectParams net; (ret, w) = ssl_config_defaults A w in
      if ret \<noteq> 0 then Some (SSL_CONNECTION_ERROR, net, w)
      else
        let w = ssl_conf_verify_rng_ca A (tls_ServerVerificationFlag p) w; (ret, w) = ssl_conf_own_cert A w in
        if ret \<noteq> 0 then Some (SSL_CONNECTION_ERROR, net, w)
        else
          let w = ssl_conf_read_timeout A (tls_timeout_ms p) w;
              (ret, w) = (if tls_DestinationPort p = 443 then ssl_conf_alpn_protocols A w else (0, w))
          in if ret \<noteq> 0 then Some (SSL_CONNECTION_ERROR, net, w)
          else let (ret, w) = ssl_setup A w in
            if ret \<noteq> 0 then Some (SSL_CONNECTION_ERROR, net, w)
            else let (ret, w) = ssl_set_hostname A url w in
              if ret \<noteq> 0 then Some (SSL_CONNECTION_ERROR, net, w)
              else do {
                (ret, w) \<leftarrow> handshake_loop A (ssl_set_bio A w);
                if ret \<noteq> 0 then Some (SSL_CONNECTION_ERROR, net, w)
                else if tls_ServerVerificationFlag p then
                  let flags = ssl_get_verify_result A w in
                  Some (if flags \<noteq> 0 then SSL_CONNECTION_ERROR else SUCCESS, net\<lparr>tls_flags := flags\<rparr>, w)
                else Some (SUCCESS, net, w)
              })"

definition iot_tls_connect ::
  "'w tls_api \<Rightarrow> TLSConnectParams option \<Rightarrow> network \<Rightarrow> 'w \<Rightarrow> (IoT_Error_t \<times> network \<times> 'w) option"
where
  "iot_tls_connect A params net w =
     (let net = (case params of None \<Rightarrow> net | Some p \<Rightarrow> net\<lparr>tlsConnectParams := p\<rparr>);
          p = tlsConnectParams net;
          (ret, w) = ctr_drbg_seed A (init_contexts A w)
      in if ret \<noteq> 0 then Some (NETWORK_MBEDTLS_ERR_CTR_DRBG_ENTROPY_SOURCE_FAILED, net, w)
      else do {
        (ret, w) \<leftarrow> load_object (crt_parse_file A cacert) (crt_parse A cacert) (tls_pRootCALocation p) w;
        if ret < 0 then Some (NETWORK_X509_ROOT_CRT_PARSE_ERROR, net, w)
        else do {
          (ret, w) \<leftarrow> load_object (crt_parse_file A clicert) (crt_parse A clicert) (tls_pDeviceCertLocation p) w;
          if ret \<noteq> 0 then Some (NETWORK_X509_DEVICE_CRT_PARSE_ERROR, net, w)
          else do {
            (ret, w) \<leftarrow> load_object (pk_parse_keyfile A) (pk_parse_key A) (tls_pDevicePrivateKeyLocation p) w;
            if ret \<noteq> 0 then Some (NETWORK_PK_PRIVATE_KEY_PARSE_ERROR, net, w)
            else do {
              obj \<leftarrow> tls_pDestinationURL p;
              url \<leftarrow> c_string obj;
              let (ret, w) = tcp_connect A url (show_int (uint (tls_DestinationPort p))) w in
              if ret \<noteq> 0 then Some (net_connect_error A ret, net, w)
              else let (ret, w) = net_set_block A w in
                if ret \<noteq> 0 then Some (SSL_CONNECTION_ERROR, net, w)
                else tls_session A net url w
            }
          }
        }
      })"

subsection \<open>Reading and writing\<close>

text \<open>
  The bytes received so far, and the remaining length. The library never returns more bytes than
  it was asked for. The length read is stored only when everything has arrived.
\<close>

partial_function (option) tls_read_loop ::
  "'w platform \<Rightarrow> 'w tls_api \<Rightarrow> u32 \<Rightarrow> nat \<Rightarrow> u8 list \<Rightarrow> Timer \<Rightarrow> 'w
     \<Rightarrow> (IoT_Error_t \<times> u8 list \<times> nat option \<times> Timer \<times> 'w) option"
where
  "tls_read_loop P A read_timeout len rx t w =
     (if 0 < len then
        let (now, w) = get_ticks P w;
            w = ssl_conf_read_timeout A (max 1 (min read_timeout (left_ms now t))) w;
            (ret, bs, w) = ssl_read A len w;
            w = ssl_conf_read_timeout A read_timeout w
        in if 0 < ret \<or> ret \<noteq> 0 \<and> (ret = ERR_WANT_READ A \<or> ret = ERR_WANT_WRITE A \<or> ret = ERR_TIMEOUT A) then
          let (len, rx) = (if 0 < ret then (len - nat ret, rx @ bs) else (len, rx));
              (e, t, w) = poll_timer P t w
          in if \<not> e then tls_read_loop P A read_timeout len rx t w
             else Some (if len = 0 then (SUCCESS, rx, Some (length rx), t, w)
                        else (if rx = [] then NETWORK_SSL_NOTHING_TO_READ else NETWORK_SSL_READ_TIMEOUT_ERROR,
                              rx, None, t, w))
        else Some (NETWORK_SSL_READ_ERROR, rx, None, t, w)
      else Some (SUCCESS, rx, Some (length rx), t, w))"

definition iot_tls_read ::
  "'w platform \<Rightarrow> 'w tls_api \<Rightarrow> nat \<Rightarrow> Timer \<Rightarrow> 'w \<Rightarrow> (IoT_Error_t \<times> u8 list \<times> nat option \<times> Timer \<times> 'w) option"
where
  "iot_tls_read P A len t w = tls_read_loop P A (ssl_read_timeout A w) len [] t w"

text \<open>
  The inner loop of the write repeats a call that would block; it hands on the value of \<open>ret\<close>,
  which is that of an earlier call when the timer expires first, and whether an error ended it.
\<close>

partial_function (option) tls_write_retry ::
  "'w platform \<Rightarrow> 'w tls_api \<Rightarrow> u8 list \<Rightarrow> int \<Rightarrow> Timer \<Rightarrow> 'w \<Rightarrow> (int \<times> bool \<times> Timer \<times> 'w) option"
where
  "tls_write_retry P A rest ret t w =
     (let (e, t, w) = poll_timer P t w in
      if e then Some (ret, False, t, w)
      else let (ret, w) = ssl_write A rest w in
        if 0 < ret then Some (ret, False, t, w)
        else if ret \<noteq> ERR_WANT_READ A \<and> ret \<noteq> ERR_WANT_WRITE A then Some (ret, True, t, w)
        else tls_write_retry P A rest ret t w)"

text \<open>\<open>written_so_far\<close> is unsigned; a negative \<open>ret\<close> is added modulo \<open>2 ^ 32\<close>.\<close>

partial_function (option) tls_write_loop ::
  "'w platform \<Rightarrow> 'w tls_api \<Rightarrow> u8 list \<Rightarrow> u32 \<Rightarrow> int \<Rightarrow> Timer \<Rightarrow> 'w \<Rightarrow> (u32 \<times> bool \<times> Timer \<times> 'w) option"
where
  "tls_write_loop P A msg written ret t w =
     (if written < of_nat (length msg) then
        let (e, t, w) = poll_timer P t w in
        if e then Some (written, False, t, w)
        else do {
          (ret, failed, t, w) \<leftarrow> tls_write_retry P A (drop (unat written) msg) ret t w;
          if failed then Some (written, True, t, w)
          else tls_write_loop P A msg (written + of_int ret) ret t w
        }
      else Some (written, False, t, w))"

definition iot_tls_write ::
  "'w platform \<Rightarrow> 'w tls_api \<Rightarrow> u8 list \<Rightarrow> Timer \<Rightarrow> 'w \<Rightarrow> (IoT_Error_t \<times> nat \<times> Timer \<times> 'w) option"
where
  "iot_tls_write P A msg t w = do {
     (written, failed, t, w) \<leftarrow> tls_write_loop P A msg 0 0 t w;
     if failed then Some (NETWORK_SSL_WRITE_ERROR, unat written, t, w)
     else let (e, t, w) = poll_timer P t w in
       Some (if e \<and> written \<noteq> of_nat (length msg) then NETWORK_SSL_WRITE_TIMEOUT_ERROR else SUCCESS,
             unat written, t, w)
   }"

partial_function (option) close_loop :: "'w tls_api \<Rightarrow> 'w \<Rightarrow> 'w option" where
  "close_loop A w =
     (let (ret, w) = ssl_close_notify A w in if ret = ERR_WANT_WRITE A then close_loop A w else Some w)"

definition iot_tls_disconnect :: "'w tls_api \<Rightarrow> 'w \<Rightarrow> (IoT_Error_t \<times> 'w) option" where
  "iot_tls_disconnect A w = do { w \<leftarrow> close_loop A w; Some (SUCCESS, w) }"

definition iot_tls_destroy :: "'w tls_api \<Rightarrow> 'w \<Rightarrow> IoT_Error_t \<times> 'w" where
  "iot_tls_destroy A w = (SUCCESS, free_contexts A w)"

text \<open>A platform that reads, writes and locks through this port.\<close>

definition with_port :: "'w rtos_api \<Rightarrow> 'w tls_api \<Rightarrow> 'w platform \<Rightarrow> 'w platform" where
  "with_port Q A P = P\<lparr>
     mutex_init := aws_iot_thread_mutex_init Q, mutex_lock := aws_iot_thread_mutex_lock Q,
     mutex_trylock := aws_iot_thread_mutex_trylock Q, mutex_unlock := aws_iot_thread_mutex_unlock Q,
     mutex_destroy := aws_iot_thread_mutex_destroy Q,
     net_read := iot_tls_read P A, net_write := iot_tls_write P A,
     net_is_connected := Some iot_tls_is_connected, net_destroy := iot_tls_destroy A\<rparr>"

end
