(* ===== verification/NetworkProperties.thy ===== *)
theory NetworkProperties
  imports Network MqttFrame MqttSample
begin

text \<open>
  The byte stream under the packets. The locale \<open>byte_stream\<close> is what the packet layer needs of the
  network's read operation: a successful read takes exactly the bytes asked for off the front of the
  stream. The TLS wrapper keeps it when the TLS library behaves as documented; from it
  follows that the client reads the packets that were sent, one by one.
\<close>

subsection \<open>The contract\<close>

text \<open>\<open>inc\<close> gives the bytes still to come; \<open>lawful\<close> stands for the documented behaviour of the library below.\<close>

locale byte_stream =
  fixes rd :: "nat \<Rightarrow> Timer \<Rightarrow> 'w \<Rightarrow> (IoT_Error_t \<times> u8 list \<times> nat option \<times> Timer \<times> 'w) option"
    and inc :: "'w \<Rightarrow> u8 list" and lawful :: bool
  assumes rd_prefix: "lawful \<Longrightarrow> rd n t w = Some (rc, bs, k, t', w') \<Longrightarrow> inc w = bs @ inc w'"
    and rd_result: "lawful \<Longrightarrow> rd n t w = Some (rc, bs, k, t', w') \<Longrightarrow>
      (if rc = SUCCESS then length bs = n \<and> k = Some n else k = None)"

text \<open>The bytes the client has read of the packet it is at, and those to come.\<close>

definition pending :: "('w \<Rightarrow> u8 list) \<Rightarrow> 'w st \<Rightarrow> u8 list" where
  "pending inc s = take (readBufIndex (cl s)) (readBuf (cl s)) @ inc (wd s)"

definition ticks_quiet :: "'w platform \<Rightarrow> ('w \<Rightarrow> u8 list) \<Rightarrow> bool" where
  "ticks_quiet P inc \<longleftrightarrow> (\<forall>w. inc (snd (get_ticks P w)) = inc w)"

definition buffer_ok :: "'w st \<Rightarrow> bool" where
  "buffer_ok s \<longleftrightarrow> readBufIndex (cl s) \<le> length (readBuf (cl s))"

lemma pending_nth:
  "buffer_ok s \<Longrightarrow> k < readBufIndex (cl s) \<Longrightarrow> readBuf (cl s) ! k = pending inc s ! k"
  by (simp add: buffer_ok_def pending_def nth_append)

lemma remaining_len_error:
  "remaining_len_loop P len m r s = Some (Inl e, s') \<Longrightarrow> e \<noteq> SUCCESS"
proof (induction "4 - len" arbitrary: len m r s)
  case 0
  then show ?case by (simp add: remaining_len_loop.simps)
next
  case (Suc n)
  then have len: "len < 4" by simp
  note run = Suc.prems [unfolded remaining_len_step [OF len]]
  then obtain rc l s1 where w: "readWrapper P (len + 1) 1 s = Some (rc, l, s1)"
    by (auto simp: Option.bind_eq_Some_conv)
  note run = run [unfolded w Option.bind.simps prod.case]
  show ?case
  proof (cases "rc = SUCCESS")
    case False
    then show ?thesis using run by simp
  next
    case True
    then obtain m' r' where "remaining_len_loop P (len + 1) m' r' s1 = Some (Inl e, s')"
      using run by (auto simp: Option.bind_eq_Some_conv split: if_splits)
    then show ?thesis using Suc.hyps(2) by (intro Suc.hyps(1)) simp_all
  qed
qed

context byte_stream
begin

lemma readWrapper_stream:
  assumes lawful and P: "net_read P = rd" and ok: "buffer_ok s"
    and run: "readWrapper P off n s = Some (SUCCESS, l, s')"
  shows "buffer_ok s'" and "pending inc s' = pending inc s"
    and "readBufIndex (cl s') = max (readBufIndex (cl s)) (off + n)" and "l = int n"
    and "readBufSize (cl s') = readBufSize (cl s)"
proof -
  let ?i = "readBufIndex (cl s)" and ?buf = "readBuf (cl s)"
  have "buffer_ok s' \<and> pending inc s' = pending inc s \<and> readBufIndex (cl s') = max ?i (off + n)
    \<and> l = int n \<and> readBufSize (cl s') = readBufSize (cl s)"
  proof (cases "off + n \<le> ?i")
    case True
    then have "int (off + n) \<le> int ?i" by simp
    then show ?thesis using run ok True by (auto simp: readWrapper_def)
  next
    case False
    let ?m = "off + n - ?i"
    have more: "0 < int (off + n) - int ?i" "nat (int (off + n) - int ?i) = ?m" using False by auto
    with run obtain bs k t w c where r: "rd ?m (tm s) (wd s) = Some (SUCCESS, bs, k, t, w)"
      and c: "store_bytes ?i ?m bs (cl s) = Some c"
      and s': "s' = s\<lparr>cl := c\<lparr>readBufIndex := readBufIndex c + (case k of None \<Rightarrow> 0 | Some k \<Rightarrow> k)\<rparr>, tm := t, wd := w\<rparr>"
      and l: "l = int n - (int (off + n) - int (readBufIndex c + (case k of None \<Rightarrow> 0 | Some k \<Rightarrow> k)))"
      by (auto simp: readWrapper_def P Let_def Option.bind_eq_Some_conv)
    have k: "length bs = ?m" "k = Some ?m" and inc: "inc (wd s) = bs @ inc w"
      using rd_result [OF \<open>lawful\<close> r] rd_prefix [OF \<open>lawful\<close> r] by auto
    have fits: "?i + length bs \<le> length ?buf" and c': "c = (cl s)\<lparr>readBuf := take ?i ?buf @ bs @ drop (?i + length bs) ?buf\<rparr>"
      using c by (auto simp: store_bytes_def split: if_splits)
    have "readBufIndex (cl s') = off + n" using False by (simp add: s' c' k)
    moreover have "length (readBuf (cl s')) = length ?buf" using fits by (simp add: s' c')
    moreover have "take (off + n) (readBuf (cl s')) = take ?i ?buf @ bs"
      using fits False k(1) ok by (simp add: s' c' buffer_ok_def)
    moreover have "l = int n" using False by (simp add: l k c')
    moreover have "readBufSize (cl s') = readBufSize (cl s)" "wd s' = w" by (simp_all add: s' c')
    ultimately show ?thesis
      using fits False k(1) inc by (simp add: buffer_ok_def pending_def)
  qed
  then show "buffer_ok s'" and "pending inc s' = pending inc s"
    and "readBufIndex (cl s') = max (readBufIndex (cl s)) (off + n)" and "l = int n"
    and "readBufSize (cl s') = readBufSize (cl s)"
    by simp_all
qed

lemma remaining_len_stream:
  assumes lawful and P: "net_read P = rd"
  shows "buffer_ok s \<Longrightarrow> pending inc s = pre @ write_len_to_buffer v @ rest \<Longrightarrow> length pre = len + 1 \<Longrightarrow>
    remaining_len_loop P len m r s = Some (Inr (off, rl), s') \<Longrightarrow>
    buffer_ok s' \<and> pending inc s' = pending inc s \<and> readBufSize (cl s') = readBufSize (cl s)
    \<and> readBufIndex (cl s') = max (readBufIndex (cl s)) off
    \<and> off = len + 1 + length (write_len_to_buffer v) \<and> rl = r + v * m"
proof (induction "4 - len" arbitrary: len m r s pre v)
  case 0
  then show ?case by (simp add: remaining_len_loop.simps)
next
  case (Suc n)
  then have len: "len < 4" by simp
  note run = Suc.prems(4) [unfolded remaining_len_step [OF len]]
  obtain rc l s1 where w: "readWrapper P (len + 1) 1 s = Some (rc, l, s1)"
    using run by (auto simp: Option.bind_eq_Some_conv)
  have rc: "rc = SUCCESS" using run w by (auto split: if_splits)
  note step = readWrapper_stream [OF \<open>lawful\<close> P Suc.prems(1) w [unfolded rc]]
  let ?b = "write_len_to_buffer v ! 0"
  have nonempty: "write_len_to_buffer v \<noteq> []"
    by (subst write_len_to_buffer.simps) (simp add: Let_def)
  have "readBuf (cl s1) ! (len + 1) = pending inc s1 ! (len + 1)"
    using pending_nth [OF step(1)] step(3) by simp
  also have "\<dots> = ?b" using Suc.prems(2,3) nonempty by (simp add: step(2) nth_append)
  finally have b: "byte_at (readBuf (cl s1)) (len + 1) = Some ?b"
    using step(1,3) by (simp add: byte_at_def buffer_ok_def)
  have run: "(if ?b AND 128 \<noteq> 0 then remaining_len_loop P (len + 1) (m * 128) (r + ucast (?b AND 127) * m) s1
      else Some (Inr (len + 2, r + ucast (?b AND 127) * m), s1)) = Some (Inr (off, rl), s')"
    using run by (simp only: w rc b Option.bind.simps prod.case simp_thms if_False)
  show ?case
  proof (cases "v < 128")
    case True
    then show ?thesis
      using run step by (simp add: write_len_last last_low last_bit)
  next
    case False
    then have big: "128 \<le> v" by simp
    have rest: "pending inc s1 = (pre @ [?b]) @ write_len_to_buffer (v div 128) @ rest"
      using Suc.prems(2) by (simp add: step(2) write_len_more [OF big])
    have "remaining_len_loop P (len + 1) (m * 128) (r + (v mod 128) * m) s1 = Some (Inr (off, rl), s')"
      using run by (simp add: write_len_more [OF big] continuation_low continuation_bit)
    from Suc.hyps(1) [OF _ step(1) rest _ this]
    have IH: "buffer_ok s' \<and> pending inc s' = pending inc s1 \<and> readBufSize (cl s') = readBufSize (cl s1)
      \<and> readBufIndex (cl s') = max (readBufIndex (cl s1)) off
      \<and> off = len + 1 + 1 + length (write_len_to_buffer (v div 128))
      \<and> rl = r + v mod 128 * m + v div 128 * (m * 128)"
      using Suc.hyps(2) Suc.prems(3) by simp
    have "r + v mod 128 * m + v div 128 * (m * 128) = r + (v div 128 * 128 + v mod 128) * m"
      by (simp add: algebra_simps)
    also have "v div 128 * 128 + v mod 128 = v" by (rule div_mult_mod_eq)
    finally show ?thesis using IH step by (simp add: write_len_more [OF big])
  qed
qed

lemma read_packet_stream:
  assumes lawful and P: "net_read P = rd" and quiet: "ticks_quiet P inc" and ok: "buffer_ok s"
    and packet: "pending inc s = frame h body @ rest" and at: "readBufIndex (cl s) \<le> length (frame h body)"
    and len: "length body < 268435456" and fits: "length (frame h body) < unat (readBufSize (cl s))"
    and run: "read_packet P p s = Some (SUCCESS, p', s')"
  shows "p' = Some (header_type h) \<and> take (length (frame h body)) (readBuf (cl s')) = frame h body
    \<and> readBufIndex (cl s') = 0 \<and> inc (wd s') = rest"
proof -
  let ?n = "of_nat (length body) :: u32"
  obtain t s0 where a: "arm_ms P (packetTimeoutMs (cl s)) s = (t, s0)" by (cases "arm_ms P (packetTimeoutMs (cl s)) s")
  have s0: "cl s0 = cl s" "inc (wd s0) = inc (wd s)"
    using a quiet by (auto simp: arm_ms_def on_world_eq ticks_quiet_def)
  have ok0: "buffer_ok s0" and p0: "pending inc s0 = frame h body @ rest"
    using ok packet by (simp_all add: buffer_ok_def pending_def s0)
  obtain rc1 l1 s1 where w1: "readWrapper P 0 1 s0 = Some (rc1, l1, s1)"
    using run by (auto simp: read_packet_def a Option.bind_eq_Some_conv)
  note w1' = w1 [unfolded One_nat_def]
  have rc1: "rc1 = SUCCESS" using run by (auto simp: read_packet_def a w1' split: if_splits)
  note r1 = readWrapper_stream [OF \<open>lawful\<close> P ok0 w1 [unfolded rc1]]
  obtain v s2 where w2: "remaining_len_loop P 0 1 0 s1 = Some (v, s2)"
    using run by (auto simp: read_packet_def a w1' rc1 Option.bind_eq_Some_conv)
  show ?thesis
  proof (cases v)
    case (Inl e)
    then have "e = SUCCESS" using run by (simp add: read_packet_def a w1' rc1 w2)
    moreover have "e \<noteq> SUCCESS" using remaining_len_error [OF w2 [unfolded Inl]] .
    ultimately show ?thesis by simp
  next
    case (Inr x)
    obtain off rl where x: "x = (off, rl)" by (cases x)
    have p1: "pending inc s1 = [h] @ write_len_to_buffer ?n @ body @ rest"
      by (simp add: r1(2) p0 frame_def)
    have r2: "buffer_ok s2" "pending inc s2 = pending inc s1" "readBufSize (cl s2) = readBufSize (cl s)"
      "readBufIndex (cl s2) = max (readBufIndex (cl s1)) off" "off = 1 + length (write_len_to_buffer ?n)" "rl = ?n"
      using remaining_len_stream [OF \<open>lawful\<close> P r1(1) p1 _ w2 [unfolded Inr x]] r1(5) s0 by simp_all
    have frame: "length (frame h body) = off + length body" by (simp add: frame_def r2(5))
    have n: "unat ?n = length body" by (rule unat_of_nat_small [OF len])
    have small: "length (write_len_to_buffer ?n) \<le> 4" using length_write_len_le n len by simp
    have "unat (rl + of_nat off) = length body + off"
      using unat_add_small [of ?n off] n len small r2(5,6) by simp
    then have room: "\<not> readBufSize (cl s2) \<le> rl + of_nat off"
      using fits frame by (simp add: r2(3) word_le_nat_alt)
    obtain rc3 l3 s3 where w3: "(if 0 < rl then readWrapper P off (unat rl) s2 else Some (SUCCESS, 0, s2)) = Some (rc3, l3, s3)"
      and good: "\<not> (0 < rl \<and> (rc3 \<noteq> SUCCESS \<or> l3 \<noteq> int (unat rl)))"
      and last: "byte_at (readBuf (cl s3)) 0 \<bind> (\<lambda>header. Some (rc3, Some (header_type header), upd flushBuffers s3))
        = Some (SUCCESS, p', s')"
      using run room by (auto simp: read_packet_def a w1' rc1 w2 Inr x Option.bind_eq_Some_conv split: if_splits)
    have s3: "buffer_ok s3" "pending inc s3 = frame h body @ rest" "readBufIndex (cl s3) = length (frame h body)"
    proof -
      have i2: "readBufIndex (cl s2) = max (readBufIndex (cl s)) off"
        using r1(3) r2(4,5) s0 by simp
      have "buffer_ok s3 \<and> pending inc s3 = frame h body @ rest \<and> readBufIndex (cl s3) = length (frame h body)"
      proof (cases "0 < rl")
        case True
        then have "readWrapper P off (unat rl) s2 = Some (SUCCESS, l3, s3)" using w3 good by simp
        note r3 = readWrapper_stream [OF \<open>lawful\<close> P r2(1) this]
        show ?thesis using r3 r2(2) r1(2) p0 i2 at frame n r2(6) by simp
      next
        case False
        then have "s3 = s2" "length body = 0" using w3 n r2(6) by (auto simp: word_gt_0)
        then show ?thesis using r2(1,2) r1(2) p0 i2 at frame by simp
      qed
      then show "buffer_ok s3" "pending inc s3 = frame h body @ rest" "readBufIndex (cl s3) = length (frame h body)"
        by simp_all
    qed
    have "length (take (length (frame h body)) (readBuf (cl s3))) = length (frame h body)"
      using s3(1,3) by (simp add: buffer_ok_def)
    then have bytes: "take (length (frame h body)) (readBuf (cl s3)) = frame h body" and rest: "inc (wd s3) = rest"
      using s3(2) unfolding pending_def s3(3) by simp_all
    have "readBuf (cl s3) ! 0 = h"
      using arg_cong [OF bytes, of "\<lambda>xs. xs ! 0"] by (simp add: frame_def)
    moreover have "0 < length (readBuf (cl s3))" using s3(1,3) by (auto simp: buffer_ok_def frame_def)
    ultimately have "byte_at (readBuf (cl s3)) 0 = Some h" by (simp add: byte_at_def)
    then show ?thesis using last bytes rest by (auto simp: flushBuffers_def)
  qed
qed

end

subsection \<open>The TLS wrapper keeps the contract\<close>

text \<open>
  The documented behaviour of the library: a positive result of a read is the number of bytes
  taken off the stream and stored, at most as many as were asked for; any other result
  takes none. Clock and configuration calls leave the stream alone.
\<close>

definition tls_stream :: "'w platform \<Rightarrow> 'w tls_api \<Rightarrow> ('w \<Rightarrow> u8 list) \<Rightarrow> bool" where
  "tls_stream P A inc \<longleftrightarrow> ticks_quiet P inc \<and> (\<forall>w. inc (delay_tick P w) = inc w)
     \<and> (\<forall>n w. inc (ssl_conf_read_timeout A n w) = inc w)
     \<and> (\<forall>n w ret bs w'. ssl_read A n w = (ret, bs, w') \<longrightarrow>
          inc w = bs @ inc w' \<and> length bs = nat ret \<and> nat ret \<le> n)"

lemma poll_timer_inc:
  "tls_stream P A inc \<Longrightarrow> poll_timer P t w = (e, t', w') \<Longrightarrow> inc w' = inc w"
  by (auto simp: poll_timer_def tls_stream_def ticks_quiet_def split: prod.splits if_splits) (metis snd_conv)+

lemma tls_read_loop_stream:
  assumes "tls_read_loop P A read_timeout len rx t w = Some y" and T: "tls_stream P A inc"
  shows "\<exists>got. inc w = got @ inc (snd (snd (snd (snd y)))) \<and> fst (snd y) = rx @ got
    \<and> (if fst y = SUCCESS then length got = len \<and> fst (snd (snd y)) = Some (length rx + len)
        else fst (snd (snd y)) = None)
    \<and> (if fst y = NETWORK_SSL_READ_TIMEOUT_ERROR then fst (snd y) \<noteq> [] else True)"
proof -
  let ?R = "\<lambda>len rx w y. \<exists>got. inc w = got @ inc (snd (snd (snd (snd y)))) \<and> fst (snd y) = rx @ got
    \<and> (if fst y = SUCCESS then length got = len \<and> fst (snd (snd y)) = Some (length rx + len)
        else fst (snd (snd y)) = None)
    \<and> (if fst y = NETWORK_SSL_READ_TIMEOUT_ERROR then fst (snd y) \<noteq> [] else True)"
  let ?Q = "\<lambda>x y. case x of ((((((P', A'), rt), len), rx), t), w) \<Rightarrow> P' = P \<longrightarrow> A' = A \<longrightarrow> ?R len rx w y"
  have "?Q ((((((P, A), read_timeout), len), rx), t), w) y"
  proof (rule tls_read_loop.raw_induct [where Pa = ?Q, OF _ assms(1)])
    fix loop P' A' rt and len :: nat and rx t w y
    assume IH: "\<And>a b c d e f g y. loop a b c d e f g = Some y \<Longrightarrow> ?Q ((((((a, b), c), d), e), f), g) y"
      and body: "(if 0 < len then
        let (now, w) = get_ticks P' w;
            w = ssl_conf_read_timeout A' (max 1 (min rt (left_ms now t))) w;
            (ret, bs, w) = ssl_read A' len w;
            w = ssl_conf_read_timeout A' rt w
        in if 0 < ret \<or> ret \<noteq> 0 \<and> (ret = ERR_WANT_READ A' \<or> ret = ERR_WANT_WRITE A' \<or> ret = ERR_TIMEOUT A') then
          let (len, rx) = (if 0 < ret then (len - nat ret, rx @ bs) else (len, rx));
              (e, t, w) = poll_timer P' t w
          in if \<not> e then loop P' A' rt len rx t w
             else Some (if len = 0 then (SUCCESS, rx, Some (length rx), t, w)
                        else (if rx = [] then NETWORK_SSL_NOTHING_TO_READ else NETWORK_SSL_READ_TIMEOUT_ERROR,
                              rx, None, t, w))
        else Some (NETWORK_SSL_READ_ERROR, rx, None, t, w)
      else Some (SUCCESS, rx, Some (length rx), t, w)) = Some y"
    have "?R len rx w y" if eq: "P' = P" "A' = A"
    proof -
      show "?R len rx w y"
      proof (cases "0 < len")
        case False
        then show ?thesis using body by (auto simp: eq)
      next
        case True
        obtain now w1 where g: "get_ticks P w = (now, w1)" by (cases "get_ticks P w")
        let ?w2 = "ssl_conf_read_timeout A (max 1 (min rt (left_ms now t))) w1"
        obtain ret bs w3 where r: "ssl_read A len ?w2 = (ret, bs, w3)" by (cases "ssl_read A len ?w2")
        let ?w4 = "ssl_conf_read_timeout A rt w3"
        have inc: "inc w = bs @ inc ?w4" "length bs = nat ret" "nat ret \<le> len"
          using T g r by (auto simp: tls_stream_def ticks_quiet_def) (metis snd_conv)
        obtain e t5 w5 where p: "poll_timer P t ?w4 = (e, t5, w5)" by (cases "poll_timer P t ?w4")
        have w5: "inc w5 = inc ?w4" by (rule poll_timer_inc [OF T p])
        let ?go = "0 < ret \<or> ret \<noteq> 0 \<and> (ret = ERR_WANT_READ A \<or> ret = ERR_WANT_WRITE A \<or> ret = ERR_TIMEOUT A)"
        let ?len = "if 0 < ret then len - nat ret else len" and ?rx = "rx @ bs"
        have rx: "(if 0 < ret then (len - nat ret, rx @ bs) else (len, rx)) = (?len, ?rx)"
          using inc(2) by auto
        have y: "(if ?go then if \<not> e then loop P A rt ?len ?rx t5 w5
             else Some (if ?len = 0 then (SUCCESS, ?rx, Some (length ?rx), t5, w5)
                        else (if ?rx = [] then NETWORK_SSL_NOTHING_TO_READ else NETWORK_SSL_READ_TIMEOUT_ERROR,
                              ?rx, None, t5, w5))
          else Some (NETWORK_SSL_READ_ERROR, rx, None, t, ?w4)) = Some y"
          using body True by (simp only: eq g r p rx Let_def prod.case if_True)
        consider (error) "\<not> ?go" | (expired) ?go e | (again) ?go "\<not> e" by blast
        then show ?thesis
        proof cases
          case error
          then have "bs = []" using inc(2) by auto
          then show ?thesis using y error inc by auto
        next
          case expired
          then show ?thesis using y inc w5 True
            by (intro exI [of _ bs]) (auto split: if_splits)
        next
          case again
          then have "loop P A rt ?len ?rx t5 w5 = Some y" using y by simp
          from IH [OF this] obtain got where "inc w5 = got @ inc (snd (snd (snd (snd y))))"
            "fst (snd y) = ?rx @ got"
            "if fst y = SUCCESS then length got = ?len \<and> fst (snd (snd y)) = Some (length ?rx + ?len)
             else fst (snd (snd y)) = None"
            "if fst y = NETWORK_SSL_READ_TIMEOUT_ERROR then fst (snd y) \<noteq> [] else True"
            by auto
          then show ?thesis using inc w5
            by (intro exI [of _ "bs @ got"]) (auto split: if_splits)
        qed
      qed
    qed
    then show "?Q ((((((P', A'), rt), len), rx), t), w) y" by (simp only: prod.case) blast
  qed
  then show ?thesis by simp
qed

interpretation tls: byte_stream "iot_tls_read P A" inc "tls_stream P A inc" for P A inc
proof unfold_locales
  fix n t w rc bs k t' w'
  assume T: "tls_stream P A inc" and run: "iot_tls_read P A n t w = Some (rc, bs, k, t', w')"
  note loop = tls_read_loop_stream [OF run [unfolded iot_tls_read_def] T]
  show "inc w = bs @ inc w'" using loop by auto
  show "if rc = SUCCESS then length bs = n \<and> k = Some n else k = None" using loop by auto
qed

subsection \<open>Properties of reading\<close>

lemma with_port_read [simp]: "net_read (with_port Q A P) = iot_tls_read P A"
  by (simp add: with_port_def)

lemma with_port_ticks: "tls_stream P A inc \<Longrightarrow> ticks_quiet (with_port Q A P) inc"
  by (simp add: tls_stream_def ticks_quiet_def with_port_def)

text \<open>(C5) Over TLS the client reads the packets as they were sent: when the bytes to come start with a packet that
  fits the receive buffer, part of which may have been read before, a successful read yields its type, leaves exactly its bytes in
  the buffer and exactly what follows it in the stream, however the library cuts the stream.\<close>

theorem packets_read_from_tls:
  assumes T: "tls_stream P A inc" and ok: "buffer_ok s"
    and packet: "pending inc s = frame h body @ rest" and at: "readBufIndex (cl s) \<le> length (frame h body)"
    and len: "length body < 268435456" and fits: "length (frame h body) < unat (readBufSize (cl s))"
    and run: "read_packet (with_port Q A P) p s = Some (SUCCESS, p', s')"
  shows "p' = Some (header_type h) \<and> take (length (frame h body)) (readBuf (cl s')) = frame h body
    \<and> readBufIndex (cl s') = 0 \<and> inc (wd s') = rest"
  by (rule tls.read_packet_stream [OF T with_port_read with_port_ticks [OF T] ok packet at len fits run])

text \<open>A TLS library over the link of \<^theory_text>\<open>MqttSample\<close>: it hands over at most two bytes at a time.\<close>

definition demo_tls :: "link tls_api" where
  "demo_tls =
     \<lparr>ERR_WANT_READ = - 26880, ERR_WANT_WRITE = - 26752, ERR_TIMEOUT = - 26624,
      ERR_NET_SOCKET_FAILED = - 66, ERR_NET_UNKNOWN_HOST = - 82,
      init_contexts = id, free_contexts = id, ctr_drbg_seed = Pair 0,
      crt_parse_file = \<lambda>_ _. Pair 0, crt_parse = \<lambda>_ _. Pair 0, pk_parse_keyfile = \<lambda>_. Pair 0,
      pk_parse_key = \<lambda>_. Pair 0, tcp_connect = \<lambda>_ _. Pair 0, net_set_block = Pair 0,
      ssl_config_defaults = Pair 0, ssl_conf_verify_rng_ca = \<lambda>_. id, ssl_conf_own_cert = Pair 0,
      ssl_conf_read_timeout = \<lambda>_. id, ssl_read_timeout = \<lambda>_. 10, ssl_conf_alpn_protocols = Pair 0,
      ssl_setup = Pair 0, ssl_set_hostname = \<lambda>_. Pair 0, ssl_set_bio = id, ssl_handshake = Pair 0,
      ssl_get_verify_result = \<lambda>_. 0,
      ssl_read = \<lambda>n w. let k = min 2 (min n (length (incoming w))) in
        (if k = 0 then - 26624 else int k, take k (incoming w), w\<lparr>incoming := drop k (incoming w)\<rparr>),
      ssl_write = \<lambda>bs w. (int (length (take 2 bs)), w\<lparr>outgoing := outgoing w @ take 2 bs\<rparr>),
      ssl_close_notify = Pair 0\<rparr>"

definition demo_rtos :: "link rtos_api" where
  "demo_rtos = \<lparr>sem_create = \<lambda>_. Pair True, sem_take = \<lambda>_ _. Pair True, sem_give = \<lambda>_. Pair True,
     sem_delete = \<lambda>_. id\<rparr>"

declare tls_read_loop.simps [code] tls_write_retry.simps [code] tls_write_loop.simps [code]

lemma demo_tls_stream: "tls_stream demo demo_tls incoming"
  by (auto simp: tls_stream_def ticks_quiet_def demo_def demo_tls_def Let_def)

theorem packets_read_from_tls_witness:
  "\<exists>s'. read_packet (with_port demo_rtos demo_tls demo) None
      ((idle_state [0x90, 3, 0, 2, 1, 0xD0, 0])\<lparr>tm := \<lparr>start_ticks = 0, timeout_ticks = 100, last_polled_ticks = 0\<rparr>\<rparr>)
    = Some (SUCCESS, Some (msg_code SUBACK), s') \<and> incoming (wd s') = [0xD0, 0]"
proof -
  let ?P = "with_port demo_rtos demo_tls demo"
  let ?s = "(idle_state [0x90, 3, 0, 2, 1, 0xD0, 0])\<lparr>tm := \<lparr>start_ticks = 0, timeout_ticks = 100, last_polled_ticks = 0\<rparr>\<rparr>"
  have "map_option fst (read_packet ?P None ?s) = Some SUCCESS"
    by code_simp
  then obtain p s' where run: "read_packet ?P None ?s = Some (SUCCESS, p, s')" by auto
  have frame: "frame 0x90 [0, 2, 1] = [0x90, 3, 0, 2, 1]" by code_simp
  have start: "readBufIndex (cl (idle_state bs)) = 0" "readBufSize (cl (idle_state bs)) = 512"
    "incoming (wd (idle_state bs)) = bs" for bs
    by (simp_all add: idle_state_def idle_client_def AWS_IOT_MQTT_RX_BUF_LEN_def)
  have "p = Some (header_type 0x90) \<and> incoming (wd s') = [0xD0, 0]"
    using packets_read_from_tls [where h = "0x90" and body = "[0, 2, 1]" and rest = "[0xD0, 0]",
        OF demo_tls_stream _ _ _ _ _ run]
    unfolding frame by (simp add: buffer_ok_def pending_def start)
  moreover have "header_type 0x90 = msg_code SUBACK" by code_simp
  ultimately show ?thesis using run by simp
qed

text \<open>A read that times out after part of the bytes has arrived loses that part: it is taken off the stream, but
  the client does not count it, so the next read overwrites it.\<close>

theorem partial_read_lost:
  assumes T: "tls_stream P A inc" and ok: "buffer_ok s"
    and run: "readWrapper (with_port Q A P) off n s = Some (NETWORK_SSL_READ_TIMEOUT_ERROR, l, s')"
  shows "readBufIndex (cl s') = readBufIndex (cl s) \<and> length (pending inc s') < length (pending inc s)"
proof -
  let ?m = "nat (int (off + n) - int (readBufIndex (cl s)))"
  have more: "0 < int (off + n) - int (readBufIndex (cl s))"
    using run by (auto simp: readWrapper_def Let_def split: if_splits)
  obtain bs k t w c where r: "iot_tls_read P A ?m (tm s) (wd s) = Some (NETWORK_SSL_READ_TIMEOUT_ERROR, bs, k, t, w)"
    and c: "store_bytes (readBufIndex (cl s)) ?m bs (cl s) = Some c"
    and s': "s' = s\<lparr>cl := c\<lparr>readBufIndex := readBufIndex c + (case k of None \<Rightarrow> 0 | Some k \<Rightarrow> k)\<rparr>, tm := t, wd := w\<rparr>"
    using run more by (auto simp: readWrapper_def Let_def Option.bind_eq_Some_conv split: if_splits)
  note loop = tls_read_loop_stream [OF r [unfolded iot_tls_read_def] T]
  have k: "k = None" "bs \<noteq> []" "inc (wd s) = bs @ inc w" using loop by auto
  have "readBufIndex (cl s') = readBufIndex (cl s)" "wd s' = w" "length (readBuf (cl s')) = length (readBuf (cl s))"
    using c by (auto simp: s' k store_bytes_def split: if_splits)
  then show ?thesis using k ok by (simp add: pending_def)
qed

theorem partial_read_lost_witness:
  "\<exists>l s'. readWrapper (with_port demo_rtos demo_tls demo) 0 2 (idle_state [0x20])
      = Some (NETWORK_SSL_READ_TIMEOUT_ERROR, l, s')
    \<and> readBufIndex (cl s') = 0 \<and> pending incoming s' = []"
proof -
  let ?P = "with_port demo_rtos demo_tls demo"
  have "map_option fst (readWrapper ?P 0 2 (idle_state [0x20])) = Some NETWORK_SSL_READ_TIMEOUT_ERROR"
    by code_simp
  then obtain l s' where run: "readWrapper ?P 0 2 (idle_state [0x20]) = Some (NETWORK_SSL_READ_TIMEOUT_ERROR, l, s')"
    by auto
  have start: "buffer_ok (idle_state [0x20])" "pending incoming (idle_state [0x20]) = [0x20]"
    "readBufIndex (cl (idle_state [0x20])) = 0"
    by (simp_all add: buffer_ok_def pending_def idle_state_def idle_client_def)
  show ?thesis
    using partial_read_lost [OF demo_tls_stream start(1) run] run by (simp add: start)
qed

end
