(* ===== verification/Liveness.thy ===== *)
theory Liveness
  imports NetworkProperties
begin

text \<open>
  Blocking calls return. The clock of the platform is a number of ticks since some start,
  of which the code sees the lower 32 bits; reading it twice in one tick makes
  \<open>has_timer_expired\<close> sleep for a tick, which is what keeps a polling loop from running for ever.
\<close>

subsection \<open>A clock that moves on\<close>

definition MAX_STEP :: nat where
  "MAX_STEP = 2 ^ 28"

text \<open>A call that takes time, but not an age: the counter of the code must not wrap around within it.\<close>

definition short_call :: "('w \<Rightarrow> nat) \<Rightarrow> 'w \<Rightarrow> 'w \<Rightarrow> bool" where
  "short_call time w w' \<longleftrightarrow> time w \<le> time w' \<and> time w' \<le> time w + MAX_STEP"

definition clock_runs :: "'w platform \<Rightarrow> ('w \<Rightarrow> nat) \<Rightarrow> bool" where
  "clock_runs P time \<longleftrightarrow> (\<forall>w. fst (get_ticks P w) = of_nat (time w) \<and> short_call time w (snd (get_ticks P w))
     \<and> short_call time w (delay_tick P w) \<and> time w < time (delay_tick P w))"

text \<open>A timer armed at the tick \<open>s0\<close> for \<open>T\<close> ticks, and the polls left until it expires.\<close>

definition armed :: "nat \<Rightarrow> nat \<Rightarrow> Timer \<Rightarrow> bool" where
  "armed s0 T t \<longleftrightarrow> start_ticks t = of_nat s0 \<and> timeout_ticks t = of_nat T \<and> T \<le> 2 ^ 30"

definition polls_left :: "nat \<Rightarrow> nat \<Rightarrow> Timer \<Rightarrow> nat \<Rightarrow> nat" where
  "polls_left s0 T t now = 2 * (s0 + T - now) + (if last_polled_ticks t = of_nat now then 0 else 1)"

lemma armed_countdown: "armed s0 (unat ms div 10) (countdown_ms (of_nat s0) ms)"
proof -
  have "unat ms div 10 \<le> 2 ^ 30" using u32_less [of ms] by simp
  then show ?thesis by (simp add: armed_def countdown_ms_def flip: unat_div_tick)
qed

lemma polls_left_later:
  "now \<le> now' \<Longrightarrow> polls_left s0 T t now' \<le> polls_left s0 T t now \<or> s0 + T \<le> now'"
  by (cases "now = now'") (auto simp: polls_left_def)

lemma expired_exactly:
  assumes "armed s0 T t" and "s0 \<le> now" and "now < s0 + 2 ^ 32"
  shows "expired (of_nat now) t \<longleftrightarrow> s0 + T \<le> now"
proof -
  obtain d where d: "now = s0 + d" using assms(2) by (auto simp: le_iff_add)
  then have "of_nat now - start_ticks t = (of_nat d :: u32)"
    using assms(1) by (simp add: armed_def)
  moreover have "unat (of_nat d :: u32) = d" "unat (of_nat T :: u32) = T"
    using assms(1,3) d by (intro unat_of_nat_u32, simp add: armed_def)+
  ultimately show ?thesis
    using assms(1) d by (simp add: expired_def armed_def word_le_nat_alt)
qed

lemma poll_progress:
  assumes C: "clock_runs P time" and A: "armed s0 T t" and start: "s0 \<le> time w" "time w < s0 + 2 ^ 32"
    and poll: "poll_timer P t w = (e, t', w')"
  shows "armed s0 T t'" and "time w \<le> time w'" and "time w' \<le> time w + 2 * MAX_STEP"
    and "e \<longleftrightarrow> s0 + T \<le> time w"
    and "\<not> e \<Longrightarrow> time w0 \<le> time w \<Longrightarrow>
      polls_left s0 T t' (time w') < polls_left s0 T t (time w0)"
proof -
  obtain w1 where g: "get_ticks P w = (of_nat (time w), w1)" and w1: "short_call time w w1"
    using C by (cases "get_ticks P w") (auto simp: clock_runs_def dest: spec [of _ w])
  have e: "e \<longleftrightarrow> expired (of_nat (time w)) t" and t': "t' = t\<lparr>last_polled_ticks := of_nat (time w)\<rparr>"
    and w': "w' = (if \<not> e \<and> of_nat (time w) = last_polled_ticks t then delay_tick P w1 else w1)"
    using poll by (auto simp: poll_timer_def has_timer_expired_def g split: if_splits)
  show ex: "e \<longleftrightarrow> s0 + T \<le> time w" using expired_exactly [OF A start] e by simp
  show "armed s0 T t'" using A by (simp add: armed_def t')
  have d: "short_call time w1 (delay_tick P w1)" "time w1 < time (delay_tick P w1)"
    using C by (auto simp: clock_runs_def)
  show mono: "time w \<le> time w'" and "time w' \<le> time w + 2 * MAX_STEP"
    using w1 d by (auto simp: w' short_call_def)
  assume run: "\<not> e" and w0: "time w0 \<le> time w"
  have sleeps: "time w < time w'" if "last_polled_ticks t = of_nat (time w)"
    using that run w1 d by (auto simp: w' short_call_def)
  have before: "time w < s0 + T" using ex run by simp
  show "polls_left s0 T t' (time w') < polls_left s0 T t (time w0)"
  proof (cases "time w' = time w0")
    case True
    then have eq: "time w = time w0" using mono w0 by simp
    then have "last_polled_ticks t \<noteq> of_nat (time w)" using sleeps True by auto
    then show ?thesis using eq True by (simp add: polls_left_def t')
  next
    case False
    then show ?thesis using mono w0 before by (auto simp: polls_left_def)
  qed
qed

subsection \<open>Reading\<close>

definition tls_prompt :: "'w tls_api \<Rightarrow> ('w \<Rightarrow> nat) \<Rightarrow> bool" where
  "tls_prompt A time \<longleftrightarrow> (\<forall>n w. short_call time w (ssl_conf_read_timeout A n w))
     \<and> (\<forall>n w. short_call time w (snd (snd (ssl_read A n w))))"

definition tls_writes_prompt :: "'w tls_api \<Rightarrow> ('w \<Rightarrow> nat) \<Rightarrow> bool" where
  "tls_writes_prompt A time \<longleftrightarrow> (\<forall>bs w. short_call time w (snd (ssl_write A bs w)))"

lemma short_call_get_ticks: "clock_runs P time \<Longrightarrow> short_call time w (snd (get_ticks P w))"
  by (simp add: clock_runs_def)

lemma tls_read_loop_returns:
  assumes C: "clock_runs P time" and prompt: "tls_prompt A time"
  shows "armed s0 T t \<Longrightarrow> s0 \<le> time w \<Longrightarrow> time w \<le> s0 + T + 2 * MAX_STEP \<Longrightarrow>
    \<exists>y. tls_read_loop P A rt len rx t w = Some y"
proof (induction "polls_left s0 T t (time w)" arbitrary: len rx t w rule: less_induct)
  case less
  obtain now w1 where g: "get_ticks P w = (now, w1)" by (cases "get_ticks P w")
  let ?w2 = "ssl_conf_read_timeout A (max 1 (min rt (left_ms now t))) w1"
  obtain ret bs w3 where r: "ssl_read A len ?w2 = (ret, bs, w3)" by (cases "ssl_read A len ?w2")
  let ?w4 = "ssl_conf_read_timeout A rt w3"
  have steps: "short_call time w w1" "short_call time w1 ?w2" "short_call time ?w2 w3" "short_call time w3 ?w4"
    using short_call_get_ticks [OF C, of w] prompt r g
    by (auto simp: tls_prompt_def) (metis snd_conv)
  then have w4: "time w \<le> time ?w4" "time ?w4 \<le> time w + 4 * MAX_STEP"
    by (auto simp: short_call_def)
  obtain e t5 w5 where p: "poll_timer P t ?w4 = (e, t5, w5)" by (cases "poll_timer P t ?w4")
  have "time ?w4 < s0 + 2 ^ 32"
    using w4(2) less.prems(1,3) by (simp add: armed_def MAX_STEP_def)
  note poll = poll_progress [OF C less.prems(1) _ this p]
  note step = tls_read_loop.simps [of P A rt len rx t w, unfolded g r Let_def prod.case p]
  show ?case
  proof (cases e)
    case True
    then show ?thesis
      by (subst tls_read_loop.simps) (simp add: g r Let_def p split: prod.splits)
  next
    case False
    have "s0 \<le> time ?w4" using less.prems(2) w4(1) by simp
    note poll = poll [OF this]
    have "\<exists>y. tls_read_loop P A rt len' rx' t5 w5 = Some y" for len' rx'
    proof (rule less.hyps)
      show "polls_left s0 T t5 (time w5) < polls_left s0 T t (time w)"
        using poll(5) [OF False w4(1)] .
      show "armed s0 T t5" by (rule poll(1))
      show "s0 \<le> time w5" using poll(2) \<open>s0 \<le> time ?w4\<close> by simp
      show "time w5 \<le> s0 + T + 2 * MAX_STEP" using poll(3,4) False by simp
    qed
    then show ?thesis
      using False by (subst tls_read_loop.simps) (simp add: g r Let_def p split: prod.splits)
  qed
qed

text \<open>The platform of the samples with a clock that never stands still, not even before zero.\<close>

definition steady :: "link platform" where
  "steady = demo\<lparr>get_ticks := \<lambda>w. (of_nat (nat (clock w)), w\<lparr>clock := max 0 (clock w) + 1\<rparr>),
     delay_tick := \<lambda>w. w\<lparr>clock := max 0 (clock w) + 1\<rparr>\<rparr>"

lemma steady_clock: "clock_runs steady (\<lambda>w. nat (clock w))"
  by (auto simp: clock_runs_def short_call_def steady_def demo_def MAX_STEP_def)

lemma demo_prompt:
  "tls_prompt demo_tls (\<lambda>w. nat (clock w))" "tls_writes_prompt demo_tls (\<lambda>w. nat (clock w))"
  by (auto simp: tls_prompt_def tls_writes_prompt_def short_call_def demo_tls_def Let_def)

text \<open>A TLS read returns, whatever the library delivers, if its calls return and the clock runs: a read
  that gets nothing ends when its timer expires, also when the tick counter wraps around meanwhile.\<close>

theorem tls_read_returns:
  assumes "clock_runs P time" and "tls_prompt A time" and "get_ticks P w0 = (now, w)"
  shows "\<exists>y. iot_tls_read P A n (countdown_ms now ms) w = Some y"
proof -
  have now: "now = of_nat (time w0)" "time w0 \<le> time w" "time w \<le> time w0 + MAX_STEP"
    using assms(1,3) by (auto simp: clock_runs_def short_call_def dest: spec [of _ w0])
  show ?thesis
    using armed_countdown [of "time w0" ms]
    unfolding iot_tls_read_def now(1)
    by (rule tls_read_loop_returns [OF assms(1,2)]) (use now in simp_all)
qed

theorem tls_read_returns_witness:
  "\<exists>y. iot_tls_read steady demo_tls 4 (countdown_ms 0 200) \<lparr>clock = 1, incoming = [7], outgoing = []\<rparr> = Some y"
  by (rule tls_read_returns [OF steady_clock demo_prompt(1), of "\<lparr>clock = 0, incoming = [7], outgoing = []\<rparr>"])
    (simp add: steady_def demo_def)

subsection \<open>Writing\<close>

text \<open>What a loop that polls may assume of a call in its body: it returns, keeps the timer armed, does not
  give polls back unless the timer is up, and ends soon after that.\<close>

definition timed :: "nat \<Rightarrow> nat \<Rightarrow> ('w \<Rightarrow> nat) \<Rightarrow> Timer \<Rightarrow> 'w \<Rightarrow> Timer \<Rightarrow> 'w \<Rightarrow> bool" where
  "timed s0 T time t w t' w' \<longleftrightarrow> armed s0 T t' \<and> time w \<le> time w' \<and> time w' \<le> s0 + T + 9 * MAX_STEP
     \<and> (polls_left s0 T t' (time w') \<le> polls_left s0 T t (time w) \<or> s0 + T \<le> time w')"

lemma timed_trans:
  "timed s0 T time t w t1 w1 \<Longrightarrow> timed s0 T time t1 w1 t2 w2 \<Longrightarrow> timed s0 T time t w t2 w2"
  by (auto simp: timed_def)

lemma timed_decreases:
  assumes "polls_left s0 T t1 (time w1) < polls_left s0 T t (time w)" and "time w < s0 + T"
    and "timed s0 T time t1 w1 t2 w2"
  shows "polls_left s0 T t2 (time w2) < polls_left s0 T t (time w)"
proof (cases "s0 + T \<le> time w2")
  case True
  then show ?thesis using assms(2) by (auto simp: polls_left_def)
next
  case False
  then show ?thesis using assms(1,3) by (auto simp: timed_def)
qed

text \<open>A poll in the window in which the timer can be read off the counter.\<close>

lemma poll_timed:
  assumes "clock_runs P time" and "armed s0 T t" and "s0 \<le> time w" and "time w \<le> s0 + T + 9 * MAX_STEP"
    and "poll_timer P t w = (e, t', w')"
  shows "armed s0 T t'" and "time w \<le> time w'" and "time w' \<le> time w + 2 * MAX_STEP" and "e \<longleftrightarrow> s0 + T \<le> time w"
    and "\<not> e \<Longrightarrow> polls_left s0 T t' (time w') < polls_left s0 T t (time w)"
proof -
  have "time w < s0 + 2 ^ 32" using assms(2,4) by (simp add: armed_def MAX_STEP_def)
  note poll = poll_progress [OF assms(1,2,3) this assms(5)]
  show "armed s0 T t'" and "time w \<le> time w'" and "time w' \<le> time w + 2 * MAX_STEP" and "e \<longleftrightarrow> s0 + T \<le> time w"
    using poll(1-4) by auto
  show "\<not> e \<Longrightarrow> polls_left s0 T t' (time w') < polls_left s0 T t (time w)" using poll(5) by simp
qed

lemma tls_write_retry_returns:
  assumes C: "clock_runs P time" and prompt: "tls_writes_prompt A time"
  shows "armed s0 T t \<Longrightarrow> s0 \<le> time w \<Longrightarrow> time w \<le> s0 + T + 3 * MAX_STEP \<Longrightarrow>
    \<exists>r f t' w'. tls_write_retry P A rest ret t w = Some (r, f, t', w') \<and> timed s0 T time t w t' w'
      \<and> time w' \<le> s0 + T + 5 * MAX_STEP"
proof (induction "polls_left s0 T t (time w)" arbitrary: ret t w rule: less_induct)
  case less
  obtain e t1 w1 where p: "poll_timer P t w = (e, t1, w1)" by (cases "poll_timer P t w")
  have "time w \<le> s0 + T + 9 * MAX_STEP" using less.prems(3) by (simp add: MAX_STEP_def)
  note poll = poll_timed [OF C less.prems(1,2) this p]
  show ?case
  proof (cases e)
    case True
    then have "timed s0 T time t w t1 w1"
      using poll less.prems by (simp add: timed_def)
    then show ?thesis using True poll(3) less.prems(3)
      by (subst tls_write_retry.simps) (simp add: p, blast)
  next
    case False
    obtain r w2 where wr: "ssl_write A rest w1 = (r, w2)" by (cases "ssl_write A rest w1")
    have w2: "time w1 \<le> time w2" "time w2 \<le> time w1 + MAX_STEP"
      using prompt wr by (auto simp: tls_writes_prompt_def short_call_def) (metis snd_conv)+
    have bound: "time w2 \<le> s0 + T + 3 * MAX_STEP" using poll(3,4) False w2 by simp
    have here: "timed s0 T time t w t1 w2"
      using poll w2 bound False polls_left_later [OF w2(1), of s0 T t1] by (auto simp: timed_def)
    have less_left: "polls_left s0 T t1 (time w2) < polls_left s0 T t (time w)"
    proof (rule timed_decreases [where time = time and w = w and ?w1.0 = w1 and ?w2.0 = w2])
      show "polls_left s0 T t1 (time w1) < polls_left s0 T t (time w)" by (rule poll(5) [OF False])
      show "time w < s0 + T" using poll(4) False by simp
      show "timed s0 T time t1 w1 t1 w2"
        using poll(1) w2 bound polls_left_later [OF w2(1), of s0 T t1] by (auto simp: timed_def)
    qed
    show ?thesis
    proof (cases "0 < r \<or> r \<noteq> ERR_WANT_READ A \<and> r \<noteq> ERR_WANT_WRITE A")
      case True
      then show ?thesis using False here bound
        by (subst tls_write_retry.simps) (auto simp: p wr)
    next
      case again: False
      have "s0 \<le> time w2" using less.prems(2) poll(2) w2 by simp
      from less.hyps [OF less_left poll(1) this bound, of r]
      show ?thesis using False again timed_trans [OF here]
        by (subst tls_write_retry.simps) (auto simp: p wr)
    qed
  qed
qed

lemma tls_write_loop_returns:
  assumes C: "clock_runs P time" and prompt: "tls_writes_prompt A time"
  shows "armed s0 T t \<Longrightarrow> s0 \<le> time w \<Longrightarrow> time w \<le> s0 + T + 5 * MAX_STEP \<Longrightarrow>
    \<exists>k f t' w'. tls_write_loop P A msg written ret t w = Some (k, f, t', w') \<and> timed s0 T time t w t' w'
      \<and> time w' \<le> s0 + T + 7 * MAX_STEP"
proof (induction "polls_left s0 T t (time w)" arbitrary: written ret t w rule: less_induct)
  case less
  obtain e t1 w1 where p: "poll_timer P t w = (e, t1, w1)" by (cases "poll_timer P t w")
  have bound: "time w \<le> s0 + T + 9 * MAX_STEP" using less.prems(3) by (simp add: MAX_STEP_def)
  note poll = poll_timed [OF C less.prems(1,2) bound p]
  consider (finished) "\<not> written < of_nat (length msg)" | (expired) "written < of_nat (length msg)" e
    | (running) "written < of_nat (length msg)" "\<not> e" by blast
  then show ?case
  proof cases
    case finished
    then show ?thesis using less.prems bound
      by (subst tls_write_loop.simps) (simp add: timed_def, blast)
  next
    case expired
    then show ?thesis using less.prems poll
      by (subst tls_write_loop.simps) (simp add: p timed_def, blast?)
  next
    case running
    have w1: "s0 \<le> time w1" "time w1 \<le> s0 + T + 3 * MAX_STEP" and before: "time w < s0 + T"
      using less.prems(2) poll(2,3,4) running(2) by simp_all
    obtain r f t2 w2 where retry: "tls_write_retry P A (drop (unat written) msg) ret t1 w1 = Some (r, f, t2, w2)"
      and T2: "timed s0 T time t1 w1 t2 w2" "time w2 \<le> s0 + T + 5 * MAX_STEP"
      using tls_write_retry_returns [OF C prompt poll(1) w1] by blast
    have one: "timed s0 T time t w t1 w1"
      using poll running(2) before by (simp add: timed_def)
    show ?thesis
    proof (cases f)
      case True
      then show ?thesis using running p retry timed_trans [OF one T2(1)] T2(2)
        by (subst tls_write_loop.simps) auto
    next
      case False
      have "s0 \<le> time w2" "armed s0 T t2" using w1 T2 by (auto simp: timed_def)
      from less.hyps [OF timed_decreases [OF poll(5) [OF running(2)] before T2(1)] this(2,1) T2(2)]
      obtain k g t3 w3 where "tls_write_loop P A msg (written + of_int r) r t2 w2 = Some (k, g, t3, w3)"
        "timed s0 T time t2 w2 t3 w3" "time w3 \<le> s0 + T + 7 * MAX_STEP" by blast
      then show ?thesis
        using running p retry False timed_trans [OF timed_trans [OF one T2(1)]]
        by (subst tls_write_loop.simps) auto
    qed
  qed
qed

lemma tls_write_returns:
  assumes C: "clock_runs P time" and prompt: "tls_writes_prompt A time"
    and "armed s0 T t" and "s0 \<le> time w" and "time w \<le> s0 + T + 2 * MAX_STEP"
  shows "\<exists>rc n t' w'. iot_tls_write P A msg t w = Some (rc, n, t', w') \<and> timed s0 T time t w t' w'"
proof -
  have "time w \<le> s0 + T + 5 * MAX_STEP" using assms(5) by (simp add: MAX_STEP_def)
  then obtain k f t1 w1 where loop: "tls_write_loop P A msg 0 0 t w = Some (k, f, t1, w1)"
    and T1: "timed s0 T time t w t1 w1" "time w1 \<le> s0 + T + 7 * MAX_STEP"
    using tls_write_loop_returns [OF C prompt assms(3,4)] by blast
  obtain e t2 w2 where p: "poll_timer P t1 w1 = (e, t2, w2)" by (cases "poll_timer P t1 w1")
  have "armed s0 T t1" "s0 \<le> time w1" "time w1 \<le> s0 + T + 9 * MAX_STEP"
    using T1 assms(4) by (auto simp: timed_def)
  note poll = poll_timed [OF C this p]
  have "timed s0 T time t1 w1 t2 w2"
    using poll T1(2) by (cases e) (auto simp: timed_def)
  with timed_trans [OF T1(1)] T1(1) loop p show ?thesis
    by (auto simp: iot_tls_write_def)
qed

subsection \<open>Sending\<close>

lemma with_port_clock [simp]:
  "get_ticks (with_port Q A P) = get_ticks P" "delay_tick (with_port Q A P) = delay_tick P"
  by (simp_all add: with_port_def)

lemma with_port_poll [simp]: "poll_timer (with_port Q A P) = poll_timer P"
  by (simp add: fun_eq_iff poll_timer_def split: prod.split)

lemma with_port_write [simp]: "net_write (with_port Q A P) = iot_tls_write P A"
  by (simp add: with_port_def)

lemma send_loop_returns:
  assumes C: "clock_runs P time" and prompt: "tls_writes_prompt A time"
  shows "armed s0 T (tm s) \<Longrightarrow> s0 \<le> time (wd s) \<Longrightarrow> time (wd s) \<le> s0 + T + 9 * MAX_STEP \<Longrightarrow>
    \<exists>y. send_loop (with_port Q A P) len sent rc s = Some y"
proof (induction "polls_left s0 T (tm s) (time (wd s))" arbitrary: sent rc s rule: less_induct)
  case less
  obtain e t1 w1 where p: "poll_timer P (tm s) (wd s) = (e, t1, w1)" by (cases "poll_timer P (tm s) (wd s)")
  note poll = poll_timed [OF C less.prems p]
  let ?s1 = "s\<lparr>tm := t1, wd := w1\<rparr>"
  have tick: "poll_tm (with_port Q A P) s = (e, ?s1)" by (simp add: poll_tm_def p)
  show ?case
  proof (cases "sent < len \<and> \<not> e")
    case False
    then show ?thesis by (subst send_loop.simps) (auto simp: tick)
  next
    case True
    have w1: "s0 \<le> time w1" "time w1 \<le> s0 + T + 2 * MAX_STEP" and before: "time (wd s) < s0 + T"
      using less.prems(2) poll(2,3,4) True by simp_all
    let ?msg = "take (len - sent) (drop sent (writeBuf (cl s)))"
    obtain rc2 n t2 w2 where wr: "iot_tls_write P A ?msg t1 w1 = Some (rc2, n, t2, w2)"
      and T2: "timed s0 T time t1 w1 t2 w2"
      using tls_write_returns [OF C prompt poll(1) w1] by blast
    let ?s2 = "s\<lparr>tm := t2, wd := w2\<rparr>"
    have "\<exists>y. send_loop (with_port Q A P) len (sent + n) rc2 ?s2 = Some y"
    proof (rule less.hyps)
      show "polls_left s0 T (tm ?s2) (time (wd ?s2)) < polls_left s0 T (tm s) (time (wd s))"
        using timed_decreases [OF poll(5) before T2] True by simp
    qed (use T2 w1 in \<open>auto simp: timed_def\<close>)
    then show ?thesis using True wr
      by (subst send_loop.simps) (cases "rc2 = SUCCESS"; auto simp: tick Let_def)
  qed
qed

text \<open>(C25) Sending a packet over TLS returns, if the calls of the library return and the clock runs:
  no pattern of partial writes, retries and timer polls keeps it in its three nested loops.\<close>

theorem send_packet_returns:
  assumes "clock_runs P time" and "tls_writes_prompt A time" and "get_ticks P (wd s0) = (now, wd s)"
    and "tm s = countdown_ms now ms" and "\<forall>m n w. time (snd (sem_take Q m n w)) = time w"
  shows "\<exists>y. send_packet (with_port Q A P) len s = Some y"
proof -
  have now: "now = of_nat (time (wd s0))" "time (wd s0) \<le> time (wd s)" "time (wd s) \<le> time (wd s0) + MAX_STEP"
    using assms(1,3) by (auto simp: clock_runs_def short_call_def dest: spec [of _ "wd s0"])
  obtain rc s1 where lock: "client_lock_mutex (with_port Q A P) tls_write_mutex s = (rc, s1)"
    by (cases "client_lock_mutex (with_port Q A P) tls_write_mutex s")
  have s1: "tm s1 = tm s" "time (wd s1) = time (wd s)"
    using lock assms(5) by (auto simp: client_lock_mutex_def with_port_def on_world_eq aws_iot_thread_mutex_lock_def
        aws_iot_thread_mutex_trylock_def split: prod.splits if_splits) (metis snd_conv)+
  have "\<exists>y. send_loop (with_port Q A P) len 0 rc s1 = Some y"
  proof (rule send_loop_returns [OF assms(1,2)])
    show "armed (time (wd s0)) (unat ms div 10) (tm s1)"
      using armed_countdown by (simp add: s1 assms(4) now)
  qed (use s1 now in \<open>simp_all add: MAX_STEP_def\<close>)
  then show ?thesis by (auto simp: send_packet_def lock split: prod.splits)
qed

theorem send_packet_returns_witness:
  "\<exists>y. send_packet (with_port demo_rtos demo_tls steady) 3
      \<lparr>cl = idle_client, tm = countdown_ms 0 200, wd = \<lparr>clock = 1, incoming = [], outgoing = []\<rparr>\<rparr> = Some y"
  by (rule send_packet_returns [OF steady_clock demo_prompt(2),
        of "idle_state []" 0 _ 200])
    (simp_all add: steady_def demo_def idle_state_def demo_rtos_def)

end
