(* ===== verification/Modem.thy ===== *)
theory Modem
  imports Timer
begin

text \<open>
  The modem library \<open>components/pppos/libGSM.c\<close>, first part: the table of the
  initialisation commands and the exchange of AT commands over the serial line. The drivers
  of ESP-IDF and the PPP stack of lwIP are the fields of a record over the world. Text on the line is a
  \<open>string\<close>; a read that gets nothing, or an error, yields the empty one.
\<close>

record 'w modem_api =
  vTaskDelay :: "u32 \<Rightarrow> 'w \<Rightarrow> 'w"
  uart_flush :: "'w \<Rightarrow> 'w"
  uart_wait_tx_done :: "u32 \<Rightarrow> 'w \<Rightarrow> 'w"
  uart_write_bytes :: "string \<Rightarrow> 'w \<Rightarrow> u32 \<times> 'w"
  uart_read_bytes :: "nat \<Rightarrow> u32 \<Rightarrow> 'w \<Rightarrow> string \<times> 'w"
  gpio_set_direction :: "u8 \<Rightarrow> bool \<Rightarrow> 'w \<Rightarrow> int \<times> 'w"
  gpio_set_pull_mode :: "u8 \<Rightarrow> 'w \<Rightarrow> int \<times> 'w"
  uart_param_config :: "'w \<Rightarrow> int \<times> 'w"
  uart_set_pin :: "'w \<Rightarrow> int \<times> 'w"
  uart_driver_install :: "'w \<Rightarrow> int \<times> 'w"
  malloc :: "nat \<Rightarrow> 'w \<Rightarrow> bool \<times> 'w"
  pppapi_pppos_create :: "'w \<Rightarrow> bool \<times> 'w"
  pppapi_set_default_auth :: "'w \<Rightarrow> 'w"
  pppapi_connect :: "'w \<Rightarrow> 'w"
  pppapi_close :: "'w \<Rightarrow> 'w"
  pppos_input_tcpip :: "string \<Rightarrow> 'w \<Rightarrow> 'w"
  ppp_free :: "'w \<Rightarrow> 'w"

subsection \<open>Strings\<close>

abbreviation (input) CR :: char where "CR \<equiv> CHR 0x0D"
abbreviation (input) LF :: char where "LF \<equiv> CHR 0x0A"

definition crlf :: string where
  "crlf = [CR, LF]"

subsection \<open>Commands\<close>

record GSM_Cmd =
  cmd :: "string option"
  cmdSize :: u16
  cmdResponseOnOk :: string
  timeoutMs :: u16
  delayMs :: u16
  skip :: u8

definition GSM_OK_Str :: string where
  "GSM_OK_Str = ''OK''"

text \<open>\<open>sizeof\<close> of a literal counts its terminator.\<close>

definition plain_cmd :: "string \<Rightarrow> string \<Rightarrow> u16 \<Rightarrow> GSM_Cmd" where
  "plain_cmd text ok timeout =
     \<lparr>cmd = Some (text @ crlf), cmdSize = of_nat (length text + 2), cmdResponseOnOk = ok, timeoutMs = timeout,
      delayMs = 0, skip = 0\<rparr>"

definition cmd_AT :: GSM_Cmd where "cmd_AT = plain_cmd ''AT'' GSM_OK_Str 300"
definition cmd_NoSMSInd :: GSM_Cmd where "cmd_NoSMSInd = plain_cmd ''AT+CNMI=0,0,0,0,0'' GSM_OK_Str 1000"
definition cmd_Reset :: GSM_Cmd where "cmd_Reset = plain_cmd ''ATZ'' GSM_OK_Str 300"
definition cmd_EchoOff :: GSM_Cmd where "cmd_EchoOff = plain_cmd ''ATE0'' GSM_OK_Str 300"
definition cmd_Pin :: GSM_Cmd where "cmd_Pin = plain_cmd ''AT+CPIN?'' ''CPIN: READY'' 5000"
definition cmd_Reg :: GSM_Cmd where "cmd_Reg = (plain_cmd ''AT+CREG?'' ''CREG: 0,1'' 3000)\<lparr>delayMs := 2000\<rparr>"

text \<open>Its size is that of another literal.\<close>

definition cmd_RFOn :: GSM_Cmd where
  "cmd_RFOn = (plain_cmd ''AT+CFUN=1'' GSM_OK_Str 10000)\<lparr>cmdSize := of_nat (length ''ATCFUN=1,0'' + 2), delayMs := 1000\<rparr>"

definition cmd_APN :: GSM_Cmd where
  "cmd_APN = \<lparr>cmd = None, cmdSize = 0, cmdResponseOnOk = GSM_OK_Str, timeoutMs = 8000, delayMs = 0, skip = 0\<rparr>"

definition QUOTE :: char where "QUOTE = CHR 0x22"

definition cmd_Connect :: GSM_Cmd where
  "cmd_Connect = (plain_cmd (''AT+CGDATA='' @ [QUOTE] @ ''PPP'' @ [QUOTE] @ '',1'') ''CONNECT'' 30000)\<lparr>delayMs := 1000\<rparr>"

definition GSM_Init :: "GSM_Cmd list" where
  "GSM_Init = [cmd_AT, cmd_Reset, cmd_EchoOff, cmd_RFOn, cmd_NoSMSInd, cmd_Pin, cmd_Reg, cmd_APN, cmd_Connect]"

text \<open>The positions of the commands that the code changes by name.\<close>

definition REG :: nat where "REG = 6"
definition APN :: nat where "APN = 7"

subsection \<open>The exchange of a command\<close>

definition ticks :: "int \<Rightarrow> u32" where
  "ticks ms = of_int ms div portTICK_PERIOD_MS"

text \<open>The bytes read from a command: its characters and the terminator behind them.\<close>

definition send_command :: "'w modem_api \<Rightarrow> string option \<Rightarrow> int \<Rightarrow> 'w \<Rightarrow> 'w option" where
  "send_command U c sz w =
     (let w = uart_flush U (vTaskDelay U (ticks 100) w) in
      case c of None \<Rightarrow> Some w
      | Some text \<Rightarrow>
          let n = (if sz = - 1 then int (length text) else sz) in
          if 0 \<le> n \<and> n \<le> int (length text) + 1 then
            Some (uart_wait_tx_done U (ticks 100) (snd (uart_write_bytes U (take (nat n) (text @ [NUL])) w)))
          else None)"

definition printable :: "char \<Rightarrow> char" where
  "printable c = (if 0x20 \<le> (of_char c :: nat) \<and> (of_char c :: nat) < 0x80 then c else CHR 0x2E)"

text \<open>\<open>sresp\<close> keeps the first 256 characters; it is a string only while one of its bytes is left.\<close>

definition check_response :: "string \<Rightarrow> string \<Rightarrow> string option \<Rightarrow> int option" where
  "check_response sresp resp resp1 = do {
     s \<leftarrow> text_in (sresp @ replicate (256 - length sresp) NUL);
     Some (if strstr s resp \<noteq> None then 1
           else case resp1 of None \<Rightarrow> 0 | Some r \<Rightarrow> if strstr s r \<noteq> None then 2 else 0)
   }"

function wait_response ::
  "'w modem_api \<Rightarrow> string \<Rightarrow> string option \<Rightarrow> int \<Rightarrow> string \<Rightarrow> int \<Rightarrow> int \<Rightarrow> 'w \<Rightarrow> (int \<times> 'w) option"
where
  "wait_response U resp resp1 timeout sresp tot timeoutCnt w =
     (let (data, w) = uart_read_bytes U 256 (ticks 10) w in
      if data = [] \<and> 0 < tot then do { res \<leftarrow> check_response sresp resp resp1; Some (res, w) }
      else
        let sresp = sresp @ take (256 - length sresp) (map printable data);
            tot = tot + int (length data);
            timeoutCnt = timeoutCnt + 10
        in if timeout < timeoutCnt then Some (0, w)
           else wait_response U resp resp1 timeout sresp tot timeoutCnt w)"
  by pat_completeness auto
termination by (relation "measure (\<lambda>(U, resp, resp1, timeout, sresp, tot, cnt, w). nat (timeout - cnt + 1))") auto

declare wait_response.simps [simp del]

definition atCmd_waitResponse ::
  "'w modem_api \<Rightarrow> string option \<Rightarrow> string \<Rightarrow> string option \<Rightarrow> int \<Rightarrow> int \<Rightarrow> 'w \<Rightarrow> (int \<times> 'w) option"
where
  "atCmd_waitResponse U c resp resp1 sz timeout w = do {
     w \<leftarrow> send_command U c sz w;
     wait_response U resp resp1 timeout [] 0 0 w
   }"

text \<open>
  With a response buffer the answer is collected until the line is quiet; the buffer grows when
  it is full, which takes a block of the heap. The code then stores its zero through
  \<open>response[tot]\<close>, a pointer \<open>tot\<close> places behind the one pointer that \<open>response\<close> points to.
\<close>

definition store_behind :: "nat \<Rightarrow> unit option" where
  "store_behind tot = (if tot < 1 then Some () else None)"

partial_function (option) collect_response ::
  "'w modem_api \<Rightarrow> bool \<Rightarrow> string \<Rightarrow> nat \<Rightarrow> string \<Rightarrow> 'w \<Rightarrow> (int \<times> string \<times> 'w) option"
where
  "collect_response U on_heap buf sz data w =
     (if data = [] then Some (int (length buf), buf, w)
      else
        let grow = sz \<le> length buf + length data; (got, w1) = (if grow then malloc U (sz + 512) w else (True, w)) in
        if grow \<and> \<not> on_heap then None
        else if \<not> got then Some (0, buf, w1)
        else do {
          _ \<leftarrow> store_behind (length (buf @ data));
          let (data', w2) = uart_read_bytes U 256 (ticks 100) w1 in
          collect_response U on_heap (buf @ data) (if grow then sz + 512 else sz) data' w2
        })"

definition atCmd_readResponse ::
  "'w modem_api \<Rightarrow> string option \<Rightarrow> int \<Rightarrow> int \<Rightarrow> bool \<Rightarrow> nat \<Rightarrow> 'w \<Rightarrow> (int \<times> string \<times> 'w) option"
where
  "atCmd_readResponse U c sz timeout on_heap buf_size w = do {
     w \<leftarrow> send_command U c sz w;
     let (data, w) = uart_read_bytes U 256 (ticks timeout) w in
     collect_response U on_heap [] buf_size data w
   }"

end
