(* ===== verification/ModemTask.thy ===== *)
theory ModemTask
  imports Modem
begin

text \<open>
  The modem library, second part: the variables its functions share, the callbacks of
  the PPP stack, the modem task as a state machine, and the calls \<open>ppposInit\<close> and
  \<open>ppposDisconnect\<close> that wait for it. What the code does between two accesses to
  the shared variables is one step; the mutex makes each access atomic.
\<close>

subsection \<open>Shared variables\<close>

definition GSM_STATE_DISCONNECTED :: u8 where "GSM_STATE_DISCONNECTED = 0"
definition GSM_STATE_CONNECTED :: u8 where "GSM_STATE_CONNECTED = 1"
definition GSM_STATE_IDLE :: u8 where "GSM_STATE_IDLE = 89"
definition GSM_STATE_FIRSTINIT :: u8 where "GSM_STATE_FIRSTINIT = 98"

lemmas gsm_states = GSM_STATE_DISCONNECTED_def GSM_STATE_CONNECTED_def GSM_STATE_IDLE_def GSM_STATE_FIRSTINIT_def

definition BUF_SIZE :: nat where "BUF_SIZE = 1024"

text \<open>The control block of the PPP stack: the pointer keeps its value when the block is freed.\<close>

datatype ppp_ptr = Null | Live | Freed

record gsm =
  gsm_status :: u8
  do_pppos_connect :: int
  pppos_rx_count :: u32
  pppos_tx_count :: u32
  pppos_task_started :: u8
  gsm_rfOff :: u8
  pppos_mutex :: bool
  tcpip_adapter_initialized :: u8
  ppp :: ppp_ptr
  commands :: "GSM_Cmd list"

definition gsm_start :: gsm where
  "gsm_start = \<lparr>gsm_status = GSM_STATE_FIRSTINIT, do_pppos_connect = 1, pppos_rx_count = 0, pppos_tx_count = 0,
     pppos_task_started = 0, gsm_rfOff = 0, pppos_mutex = False, tcpip_adapter_initialized = 0, ppp = Null,
     commands = GSM_Init\<rparr>"

definition set_cmd :: "nat \<Rightarrow> (GSM_Cmd \<Rightarrow> GSM_Cmd) \<Rightarrow> gsm \<Rightarrow> gsm" where
  "set_cmd i f g = g\<lparr>commands := (commands g)[i := f (commands g ! i)]\<rparr>"

definition enableAllInitCmd :: "gsm \<Rightarrow> gsm" where
  "enableAllInitCmd g = g\<lparr>commands := map (\<lambda>c. c\<lparr>skip := 0\<rparr>) (commands g)\<rparr>"

subsection \<open>Callbacks\<close>

datatype ppp_err =
    PPPERR_NONE | PPPERR_PARAM | PPPERR_OPEN | PPPERR_DEVICE | PPPERR_ALLOC | PPPERR_USER | PPPERR_CONNECT
  | PPPERR_AUTHFAIL | PPPERR_PROTOCOL | PPPERR_PEERDEAD | PPPERR_IDLETIMEOUT | PPPERR_CONNECTTIME | PPPERR_LOOPBACK
  | PPPERR_UNKNOWN int

definition ppp_status_cb :: "ppp_err \<Rightarrow> gsm \<Rightarrow> gsm" where
  "ppp_status_cb err_code g =
     (case err_code of
        PPPERR_NONE \<Rightarrow> g\<lparr>gsm_status := GSM_STATE_CONNECTED\<rparr>
      | PPPERR_USER \<Rightarrow> g\<lparr>gsm_status := GSM_STATE_DISCONNECTED\<rparr>
      | PPPERR_CONNECT \<Rightarrow> g\<lparr>gsm_status := GSM_STATE_DISCONNECTED\<rparr>
      | _ \<Rightarrow> g)"

definition ppp_output_callback :: "'w modem_api \<Rightarrow> string \<Rightarrow> gsm \<Rightarrow> 'w \<Rightarrow> u32 \<times> gsm \<times> 'w" where
  "ppp_output_callback U data g w =
     (let (ret, w) = uart_write_bytes U data w; w = uart_wait_tx_done U (ticks 10) w in
      (ret, if 0 < ret then g\<lparr>pppos_rx_count := pppos_rx_count g + ret\<rparr> else g, w))"

definition getRxTxCount :: "u8 \<Rightarrow> gsm \<Rightarrow> u32 \<times> u32 \<times> gsm" where
  "getRxTxCount rst g = (pppos_rx_count g, pppos_tx_count g,
     if rst \<noteq> 0 then g\<lparr>pppos_rx_count := 0, pppos_tx_count := 0\<rparr> else g)"

definition resetRxTxCount :: "gsm \<Rightarrow> gsm" where
  "resetRxTxCount g = g\<lparr>pppos_rx_count := 0, pppos_tx_count := 0\<rparr>"

definition ppposStatus :: "gsm \<Rightarrow> int" where
  "ppposStatus g = uint (gsm_status g)"

subsection \<open>Hanging up\<close>

definition at_ok :: "'w modem_api \<Rightarrow> string \<Rightarrow> int \<Rightarrow> int \<Rightarrow> 'w \<Rightarrow> (int \<times> 'w) option" where
  "at_ok U text sz timeout w = atCmd_waitResponse U (Some (text @ crlf)) GSM_OK_Str None sz timeout w"

definition escape :: "'w modem_api \<Rightarrow> int \<Rightarrow> 'w \<Rightarrow> 'w" where
  "escape U guard w =
     (let w = uart_flush U (vTaskDelay U (ticks 1000) w); (_, w) = uart_write_bytes U ''+++'' w in
      vTaskDelay U (ticks guard) (uart_wait_tx_done U (ticks 10) w))"

definition send_ATH :: "'w modem_api \<Rightarrow> 'w \<Rightarrow> (int \<times> 'w) option" where
  "send_ATH U w = atCmd_waitResponse U (Some (''ATH'' @ crlf)) GSM_OK_Str (Some ''NO CARRIER'') 5 3000 w"

partial_function (option) hang_up_loop :: "'w modem_api \<Rightarrow> nat \<Rightarrow> int \<Rightarrow> 'w \<Rightarrow> 'w option" where
  "hang_up_loop U n res w =
     (if res = 0 then do {
        let (n, w) = (if 10 < n + 1 then (0, escape U 1000 w) else (n + 1, w));
        (res, w) \<leftarrow> send_ATH U (vTaskDelay U (ticks 100) w);
        hang_up_loop U n res w
      }
      else Some w)"

definition radio_off :: "'w modem_api \<Rightarrow> u8 \<Rightarrow> int \<Rightarrow> gsm \<Rightarrow> 'w \<Rightarrow> (gsm \<times> 'w) option" where
  "radio_off U rfOff timeout g w =
     (if rfOff \<noteq> 0 then do {
        (_, w) \<leftarrow> at_ok U ''AT+CFUN=4'' 11 timeout w;
        Some (set_cmd REG (timeoutMs_update (\<lambda>_. 10000)) g, w)
      }
      else Some (g, w))"

definition gsm_disconnect :: "'w modem_api \<Rightarrow> u8 \<Rightarrow> gsm \<Rightarrow> 'w \<Rightarrow> (gsm \<times> 'w) option" where
  "gsm_disconnect U rfOff g w = do {
     (res, w) \<leftarrow> at_ok U ''AT'' 4 1000 w;
     if res = 1 then radio_off U rfOff 10000 g w
     else do {
       (res, w) \<leftarrow> send_ATH U (escape U 1100 w);
       w \<leftarrow> hang_up_loop U 0 res w;
       radio_off U rfOff 3000 g (vTaskDelay U (ticks 100) w)
     }
   }"

subsection \<open>Initialising the modem\<close>

text \<open>Every failure starts again from the first command that is not skipped; the twenty-first ends the task.\<close>

function init_loop :: "'w modem_api \<Rightarrow> nat \<Rightarrow> nat \<Rightarrow> gsm \<Rightarrow> 'w \<Rightarrow> (bool \<times> gsm \<times> 'w) option" where
  "init_loop U gsmCmdIter nfail g w =
     (if gsmCmdIter < length (commands g) then
        let c = commands g ! gsmCmdIter in
        if skip c \<noteq> 0 then init_loop U (gsmCmdIter + 1) nfail g w
        else do {
          (res, w) \<leftarrow> atCmd_waitResponse U (cmd c) (cmdResponseOnOk c) None (uint (cmdSize c)) (uint (timeoutMs c)) w;
          if res = 0 then
            if 20 < nfail + 1 then Some (False, g, w)
            else init_loop U 0 (nfail + 1) g (vTaskDelay U (ticks 3000) w)
          else
            let w = (if 0 < delayMs c then vTaskDelay U (ticks (uint (delayMs c))) w else w);
                c' = c\<lparr>skip := 1, delayMs := if gsmCmdIter = REG then 0 else delayMs c\<rparr>
            in init_loop U (gsmCmdIter + 1) nfail (g\<lparr>commands := (commands g)[gsmCmdIter := c']\<rparr>) w
        }
      else Some (True, g, w))"
  by pat_completeness auto
termination
  by (relation "measures [\<lambda>(U, i, n, g, w). 21 - n, \<lambda>(U, i, n, g, w). length (commands g) - i]") auto

declare init_loop.simps [simp del]

subsection \<open>The task\<close>

text \<open>
  Where the task is. It leaves by freeing the control block, and has ended when the flag is clear. \<open>Dead_use\<close> and
  \<open>Freed_twice\<close> are the ends of a run that has passed to the PPP stack a block that is not there, or has freed one
  again: what follows is undefined.
\<close>

datatype task_pc =
    Off | Starting | Setting_up | Initialising | Creating | Connecting | Handling | Retrying
  | Closing int | Hanging_up int | Closed int | Waiting | Leaving | Ending | Dead_use | Freed_twice

fun all_zero :: "('w \<Rightarrow> int \<times> 'w) list \<Rightarrow> 'w \<Rightarrow> bool \<times> 'w" where
  "all_zero [] w = (True, w)"
| "all_zero (f # fs) w = (let (r, w) = f w in if r = 0 then all_zero fs w else (False, w))"

text \<open>The pins are configuration constants; output is the direction \<open>True\<close>.\<close>

definition configure_uart :: "'w modem_api \<Rightarrow> u8 \<Rightarrow> u8 \<Rightarrow> 'w \<Rightarrow> bool \<times> 'w" where
  "configure_uart U tx rx = all_zero
     [gpio_set_direction U tx True, gpio_set_direction U rx False, gpio_set_pull_mode U rx,
      uart_param_config U, uart_set_pin U, uart_driver_install U]"

definition apn_request :: "string \<Rightarrow> string" where
  "apn_request apn = ''AT+CGDCONT=1,'' @ [QUOTE] @ ''IP'' @ [QUOTE] @ '','' @ [QUOTE] @ apn @ [QUOTE] @ crlf"

record modem_config =
  GSM_TX :: u8
  GSM_RX :: u8
  GSM_APN :: string

text \<open>From the allocation of the buffer to the first command.\<close>

definition task_setup :: "'w modem_api \<Rightarrow> modem_config \<Rightarrow> gsm \<Rightarrow> 'w \<Rightarrow> (gsm \<times> task_pc \<times> 'w) option" where
  "task_setup U cfg g w =
     (let (got, w) = malloc U BUF_SIZE w in
      if \<not> got then Some (g, Leaving, w)
      else let (ok, w) = configure_uart U (GSM_TX cfg) (GSM_RX cfg) w in
        if \<not> ok then Some (g, Leaving, w)
        else do {
          request \<leftarrow> sprintf_to (length (GSM_APN cfg) + 1 + 24) (apn_request (GSM_APN cfg));
          (g, w) \<leftarrow> gsm_disconnect U 1 (set_cmd APN (\<lambda>c. c\<lparr>cmd := Some request, cmdSize := of_nat (length request)\<rparr>) g) w;
          Some (enableAllInitCmd (g\<lparr>pppos_tx_count := 0, pppos_rx_count := 0, gsm_status := GSM_STATE_FIRSTINIT\<rparr>),
                Initialising, w)
        })"

text \<open>A call into the PPP stack needs a control block. Data from the modem goes to the stack.\<close>

definition with_ppp :: "gsm \<Rightarrow> 'w \<Rightarrow> gsm \<times> task_pc \<times> 'w \<Rightarrow> gsm \<times> task_pc \<times> 'w" where
  "with_ppp g w next_state = (if ppp g = Live then next_state else (g, Dead_use, w))"

definition pump :: "'w modem_api \<Rightarrow> task_pc \<Rightarrow> gsm \<Rightarrow> 'w \<Rightarrow> gsm \<times> task_pc \<times> 'w" where
  "pump U pc g w =
     (let (data, w) = uart_read_bytes U BUF_SIZE (ticks 30) w in
      if data \<noteq> [] then
        with_ppp g w (g\<lparr>pppos_tx_count := pppos_tx_count g + of_nat (length data)\<rparr>, pc, pppos_input_tcpip U data w)
      else (g, pc, w))"

definition task_create :: "'w modem_api \<Rightarrow> gsm \<Rightarrow> 'w \<Rightarrow> gsm \<times> task_pc \<times> 'w" where
  "task_create U g w =
     (let (created, g, w) =
        (if gsm_status g = GSM_STATE_FIRSTINIT then
           let (ok, w) = pppapi_pppos_create U w in (ok, g\<lparr>ppp := if ok then Live else Null\<rparr>, w)
         else (True, g, w))
      in if \<not> created then (g, Leaving, w)
      else with_ppp g w (g\<lparr>gsm_status := GSM_STATE_IDLE\<rparr>, Connecting, pppapi_set_default_auth U w))"

text \<open>A request is taken off the table, to be answered with 0 when it has been carried out.\<close>

definition task_request :: "'w modem_api \<Rightarrow> gsm \<Rightarrow> 'w \<Rightarrow> gsm \<times> task_pc \<times> 'w" where
  "task_request U g w = with_ppp g w (g\<lparr>do_pppos_connect := 1\<rparr>, Closing (do_pppos_connect g), pppapi_close U w)"

text \<open>One pass of the loop over the modem's responses.\<close>

definition task_handle :: "'w modem_api \<Rightarrow> gsm \<Rightarrow> 'w \<Rightarrow> gsm \<times> task_pc \<times> 'w" where
  "task_handle U g w =
     (if do_pppos_connect g \<le> 0 then task_request U g w
      else if gsm_status g = GSM_STATE_DISCONNECTED then (g, Retrying, w)
      else pump U Handling g w)"

fun task_step :: "'w modem_api \<Rightarrow> modem_config \<Rightarrow> task_pc \<Rightarrow> gsm \<Rightarrow> 'w \<Rightarrow> (gsm \<times> task_pc \<times> 'w) option" where
  "task_step U cfg Off g w = None"
| "task_step U cfg Starting g w = Some (g\<lparr>pppos_task_started := 1\<rparr>, Setting_up, w)"
| "task_step U cfg Setting_up g w = task_setup U cfg g w"
| "task_step U cfg Initialising g w = do {
     (ok, g, w) \<leftarrow> init_loop U 0 0 g (vTaskDelay U (ticks 500) w);
     Some (g, if ok then Creating else Leaving, w)
   }"
| "task_step U cfg Creating g w = Some (task_create U g w)"
| "task_step U cfg Connecting g w = Some (with_ppp g w (g, Handling, pppapi_connect U w))"
| "task_step U cfg Handling g w = Some (task_handle U g w)"
| "task_step U cfg Retrying g w = Some (with_ppp g w
     ((enableAllInitCmd g)\<lparr>gsm_status := GSM_STATE_IDLE\<rparr>, Initialising, vTaskDelay U (ticks 10000) (pppapi_close U w)))"
| "task_step U cfg (Closing e) g w =
     Some (if gsm_status g \<noteq> GSM_STATE_DISCONNECTED then pump U (Closing e) g w else (g, Hanging_up e, w))"
| "task_step U cfg (Hanging_up e) g w = do {
     (g, w) \<leftarrow> gsm_disconnect U (gsm_rfOff g) g (vTaskDelay U (ticks 1000) w);
     Some (enableAllInitCmd g, Closed e, w)
   }"
| "task_step U cfg (Closed e) g w =
     Some (g\<lparr>gsm_status := GSM_STATE_IDLE, do_pppos_connect := 0\<rparr>, if e < 0 then Leaving else Waiting, w)"
| "task_step U cfg Waiting g w =
     Some (g, if do_pppos_connect g = 0 then Waiting else Initialising, vTaskDelay U (ticks 100) w)"
| "task_step U cfg Leaving g w =
     Some (case ppp g of
         Null \<Rightarrow> (g, Ending, w)
       | Live \<Rightarrow> (g\<lparr>ppp := Freed\<rparr>, Ending, ppp_free U w)
       | Freed \<Rightarrow> (g, Freed_twice, w))"
| "task_step U cfg Ending g w = Some (g\<lparr>pppos_task_started := 0, gsm_status := GSM_STATE_FIRSTINIT\<rparr>, Off, w)"
| "task_step U cfg Dead_use g w = None"
| "task_step U cfg Freed_twice g w = None"

end
