(* ===== verification/ModemSystem.thy ===== *)
theory ModemSystem
  imports ModemTask
begin

text \<open>
  The modem library, third part: the calls of the application, and the system made of the
  modem task, one caller and the callbacks of the PPP stack, whose steps interleave freely.
\<close>

subsection \<open>Calls\<close>

text \<open>Where the calling task is in \<open>ppposInit\<close> or \<open>ppposDisconnect(end_task, rfoff)\<close>.\<close>

datatype call_pc =
    Ready | Init_begin | Init_wait_task | Init_wait_status | Init_returned int
  | Disc_begin u8 u8 | Disc_request u8 u8 | Disc_wait_taken | Disc_wait_done | Disc_returned bool

record 'w modem_sys =
  gs :: gsm
  task :: task_pc
  caller :: call_pc
  world :: 'w

record 'w rtos_calls =
  xSemaphoreCreateMutex :: "'w \<Rightarrow> bool \<times> 'w"
  tcpip_adapter_init :: "'w \<Rightarrow> 'w"

definition ppposInit_begin :: "'w rtos_calls \<Rightarrow> 'w modem_sys \<Rightarrow> 'w modem_sys" where
  "ppposInit_begin R s =
     (let g = (gs s)\<lparr>do_pppos_connect := 1\<rparr> in
      if pppos_task_started g \<noteq> 0 then s\<lparr>gs := g, caller := Init_wait_status\<rparr>
      else
        let (ok, w) = (if pppos_mutex g then (True, world s) else xSemaphoreCreateMutex R (world s)) in
        if \<not> ok then s\<lparr>gs := g, caller := Init_returned 0, world := w\<rparr>
        else
          let w = (if tcpip_adapter_initialized g = 0 then tcpip_adapter_init R w else w)
          in s\<lparr>gs := g\<lparr>pppos_mutex := True, tcpip_adapter_initialized := 1\<rparr>, task := Starting,
               caller := Init_wait_task, world := w\<rparr>)"

definition ppposInit_poll :: "gsm \<Rightarrow> call_pc" where
  "ppposInit_poll g =
     (if pppos_task_started g = 0 then Init_returned 0
      else if gsm_status g = GSM_STATE_CONNECTED then Init_returned 1 else Init_wait_status)"

definition ppposDisconnect_request :: "u8 \<Rightarrow> u8 \<Rightarrow> gsm \<Rightarrow> gsm" where
  "ppposDisconnect_request end_task rfoff g =
     g\<lparr>do_pppos_connect := if end_task \<noteq> 0 then - 1 else 0, gsm_rfOff := rfoff\<rparr>"

text \<open>A step of the caller; a call that takes a mutex that is not there has none.\<close>

fun call_step :: "'w rtos_calls \<Rightarrow> call_pc \<Rightarrow> 'w modem_sys \<Rightarrow> 'w modem_sys option" where
  "call_step R Init_begin s = Some (ppposInit_begin R s)"
| "call_step R Init_wait_task s =
     Some (s\<lparr>caller := if pppos_task_started (gs s) = 0 then Init_wait_task else Init_wait_status\<rparr>)"
| "call_step R Init_wait_status s = Some (s\<lparr>caller := ppposInit_poll (gs s)\<rparr>)"
| "call_step R (Disc_begin e r) s =
     (if \<not> pppos_mutex (gs s) then None
      else Some (s\<lparr>caller := if gsm_status (gs s) = GSM_STATE_IDLE then Disc_returned False else Disc_request e r\<rparr>))"
| "call_step R (Disc_request e r) s = Some (s\<lparr>gs := ppposDisconnect_request e r (gs s), caller := Disc_wait_taken\<rparr>)"
| "call_step R Disc_wait_taken s =
     Some (s\<lparr>caller := if do_pppos_connect (gs s) = 0 then Disc_wait_taken else Disc_wait_done\<rparr>)"
| "call_step R Disc_wait_done s =
     Some (s\<lparr>caller := if do_pppos_connect (gs s) = 0 then Disc_returned True else Disc_wait_done\<rparr>)"
| "call_step R _ s = None"

fun may_call :: "call_pc \<Rightarrow> bool" where
  "may_call Ready = True"
| "may_call (Init_returned r) = True"
| "may_call (Disc_returned b) = True"
| "may_call _ = False"

subsection \<open>The system\<close>

inductive modem_step :: "'w modem_api \<Rightarrow> 'w rtos_calls \<Rightarrow> modem_config \<Rightarrow> 'w modem_sys \<Rightarrow> 'w modem_sys \<Rightarrow> bool"
  for U R cfg where
  task: "task_step U cfg (task s) (gs s) (world s) = Some (g, pc, w) \<Longrightarrow>
     modem_step U R cfg s (s\<lparr>gs := g, task := pc, world := w\<rparr>)"
| call: "call_step R (caller s) s = Some t \<Longrightarrow> modem_step U R cfg s t"
| init: "may_call (caller s) \<Longrightarrow> modem_step U R cfg s (s\<lparr>caller := Init_begin\<rparr>)"
| disconnect: "may_call (caller s) \<Longrightarrow> modem_step U R cfg s (s\<lparr>caller := Disc_begin e r\<rparr>)"
| status: "ppp (gs s) = Live \<Longrightarrow> modem_step U R cfg s (s\<lparr>gs := ppp_status_cb err (gs s)\<rparr>)"
| transmit: "ppp (gs s) = Live \<Longrightarrow> ppp_output_callback U data (gs s) (world s) = (n, g, w) \<Longrightarrow>
     modem_step U R cfg s (s\<lparr>gs := g, world := w\<rparr>)"
| counts: "getRxTxCount rst (gs s) = (rx, tx, g) \<Longrightarrow> modem_step U R cfg s (s\<lparr>gs := g\<rparr>)"

inductive_cases modem_stepE: "modem_step U R cfg s t"

definition modem_init :: "'w modem_sys \<Rightarrow> bool" where
  "modem_init s \<longleftrightarrow> gs s = gsm_start \<and> task s = Off \<and> caller s = Ready"

subsection \<open>What the long operations leave alone\<close>

text \<open>The commands may change, and nothing else.\<close>

definition only_commands :: "gsm \<Rightarrow> gsm \<Rightarrow> bool" where
  "only_commands g g' \<longleftrightarrow> (\<exists>cs. g' = g\<lparr>commands := cs\<rparr> \<and> length cs = length (commands g))"

lemma only_commands_refl [simp]: "only_commands g g"
  unfolding only_commands_def by (rule exI [of _ "commands g"]) simp

lemma only_commands_trans: "only_commands g h \<Longrightarrow> only_commands h k \<Longrightarrow> only_commands g k"
  by (auto simp: only_commands_def)

lemma only_commands_simps [simp]:
  "only_commands g (set_cmd i f g)" "only_commands g (enableAllInitCmd g)"
  "length cs = length (commands g) \<Longrightarrow> only_commands g (g\<lparr>commands := cs\<rparr>)"
  unfolding only_commands_def set_cmd_def enableAllInitCmd_def by auto

text \<open>The variables that the tasks use to talk to each other are as before.\<close>

definition same_shared :: "gsm \<Rightarrow> gsm \<Rightarrow> bool" where
  "same_shared g g' \<longleftrightarrow> gsm_status g' = gsm_status g \<and> do_pppos_connect g' = do_pppos_connect g
     \<and> pppos_task_started g' = pppos_task_started g \<and> pppos_mutex g' = pppos_mutex g \<and> ppp g' = ppp g"

lemma only_commands_shared: "only_commands g g' \<Longrightarrow> same_shared g g'"
  by (auto simp: only_commands_def same_shared_def)

lemma radio_off_only: "radio_off U r timeout g w = Some (g', w') \<Longrightarrow> only_commands g g'"
  by (auto simp: radio_off_def Option.bind_eq_Some_conv split: if_splits prod.splits)

lemma gsm_disconnect_only: "gsm_disconnect U r g w = Some (g', w') \<Longrightarrow> only_commands g g'"
  by (auto simp: gsm_disconnect_def Option.bind_eq_Some_conv split: if_splits prod.splits dest: radio_off_only)

lemma init_loop_only: "init_loop U i n g w = Some (ok, g', w') \<Longrightarrow> only_commands g g'"
proof (induction U i n g w rule: init_loop.induct)
  case (1 U i n g w)
  show ?case
  proof (cases "i < length (commands g)")
    case False
    then show ?thesis using "1.prems" by (simp add: init_loop.simps)
  next
    case True
    define c where "c = commands g ! i"
    show ?thesis
    proof (cases "skip c = 0")
      case False
      then show ?thesis using "1.IH"(1) [OF True c_def] "1.prems" True
        by (subst (asm) init_loop.simps) (simp add: c_def Let_def)
    next
      case skip: True
      obtain res w1 where at: "atCmd_waitResponse U (cmd c) (cmdResponseOnOk c) None (uint (cmdSize c)) (uint (timeoutMs c)) w
          = Some (res, w1)"
        using "1.prems" True skip
        by (subst (asm) init_loop.simps) (auto simp: c_def Let_def Option.bind_eq_Some_conv)
      note run = "1.prems" [unfolded init_loop.simps [of U i n g w]]
      show ?thesis
      proof (cases "res = 0")
        case res: True
        show ?thesis
        proof (cases "20 < n + 1")
          case False
          then show ?thesis
            using "1.IH"(2) [OF True c_def _ at refl res False] run True skip at res
            by (simp add: c_def [symmetric] Let_def)
        qed (use run True skip at res in \<open>simp add: c_def [symmetric] Let_def\<close>)
      next
        case res: False
        let ?c' = "c\<lparr>skip := 1, delayMs := if i = REG then 0 else delayMs c\<rparr>"
        let ?g = "g\<lparr>commands := (commands g)[i := ?c']\<rparr>"
        have "only_commands ?g g'"
          using "1.IH"(3) [OF True c_def _ at refl res refl refl] run True skip at res
          by (simp add: c_def [symmetric] Let_def)
        moreover have "only_commands g ?g" by simp
        ultimately show ?thesis by (rule only_commands_trans [rotated])
      qed
    qed
  qed
qed

lemmas hang_up_shared = gsm_disconnect_only [THEN only_commands_shared]
lemmas init_loop_shared = init_loop_only [THEN only_commands_shared]

lemma pump_shared: "pump U pc g w = (g', pc', w') \<Longrightarrow> same_shared g g' \<and> (pc' = pc \<or> pc' = Dead_use \<and> ppp g \<noteq> Live)"
  by (auto simp: pump_def with_ppp_def same_shared_def split: prod.splits if_splits)

lemma output_shared: "ppp_output_callback U data g w = (n, g', w') \<Longrightarrow> same_shared g g'"
  by (auto simp: ppp_output_callback_def Let_def same_shared_def split: prod.splits if_splits)

lemma counts_shared: "getRxTxCount rst g = (rx, tx, g') \<Longrightarrow> same_shared g g'"
  by (auto simp: getRxTxCount_def same_shared_def split: if_splits)

lemma enable_shared: "same_shared g (enableAllInitCmd g)"
  by (simp add: only_commands_shared)

lemma callbacks_keep [simp]:
  "do_pppos_connect (ppp_status_cb err g) = do_pppos_connect g"
  "pppos_task_started (ppp_status_cb err g) = pppos_task_started g"
  "pppos_mutex (ppp_status_cb err g) = pppos_mutex g" "ppp (ppp_status_cb err g) = ppp g"
  by (simp_all add: ppp_status_cb_def split: ppp_err.split)

lemma task_setup_shared:
  assumes "task_setup U cfg g w = Some (g', pc, w')"
  shows "pc = Leaving \<and> same_shared g g'
    \<or> pc = Initialising \<and> gsm_status g' = GSM_STATE_FIRSTINIT \<and> same_shared g (g'\<lparr>gsm_status := gsm_status g\<rparr>)"
  using assms
  by (auto simp: task_setup_def Let_def Option.bind_eq_Some_conv set_cmd_def enableAllInitCmd_def same_shared_def
      split: prod.splits if_splits dest!: hang_up_shared)

subsection \<open>The task as an automaton on the shared variables\<close>

fun task_effect :: "task_pc \<Rightarrow> gsm \<Rightarrow> task_pc \<Rightarrow> gsm \<Rightarrow> bool" where
  "task_effect Off g pc g' = False"
| "task_effect Starting g pc g' = (pc = Setting_up \<and> same_shared (g\<lparr>pppos_task_started := 1\<rparr>) g')"
| "task_effect Setting_up g pc g' =
     (pc = Leaving \<and> same_shared g g'
      \<or> pc = Initialising \<and> same_shared (g\<lparr>gsm_status := GSM_STATE_FIRSTINIT\<rparr>) g')"
| "task_effect Initialising g pc g' = ((pc = Creating \<or> pc = Leaving) \<and> same_shared g g')"
| "task_effect Creating g pc g' =
     (if gsm_status g = GSM_STATE_FIRSTINIT then
        pc = Leaving \<and> same_shared (g\<lparr>ppp := Null\<rparr>) g'
        \<or> pc = Connecting \<and> same_shared (g\<lparr>ppp := Live, gsm_status := GSM_STATE_IDLE\<rparr>) g'
      else if ppp g = Live then pc = Connecting \<and> same_shared (g\<lparr>gsm_status := GSM_STATE_IDLE\<rparr>) g'
      else pc = Dead_use \<and> same_shared g g')"
| "task_effect Connecting g pc g' = (pc = (if ppp g = Live then Handling else Dead_use) \<and> same_shared g g')"
| "task_effect Handling g pc g' =
     (if do_pppos_connect g \<le> 0 \<and> ppp g = Live then
        pc = Closing (do_pppos_connect g) \<and> same_shared (g\<lparr>do_pppos_connect := 1\<rparr>) g'
      else (pc = (if gsm_status g = GSM_STATE_DISCONNECTED then Retrying else Handling) \<and> 0 < do_pppos_connect g
          \<or> pc = Dead_use \<and> ppp g \<noteq> Live) \<and> same_shared g g')"
| "task_effect Retrying g pc g' =
     (if ppp g = Live then pc = Initialising \<and> same_shared (g\<lparr>gsm_status := GSM_STATE_IDLE\<rparr>) g'
      else pc = Dead_use \<and> same_shared g g')"
| "task_effect (Closing e) g pc g' =
     ((pc = (if gsm_status g = GSM_STATE_DISCONNECTED then Hanging_up e else Closing e) \<or> pc = Dead_use \<and> ppp g \<noteq> Live)
      \<and> same_shared g g')"
| "task_effect (Hanging_up e) g pc g' = (pc = Closed e \<and> same_shared g g')"
| "task_effect (Closed e) g pc g' =
     (pc = (if e < 0 then Leaving else Waiting)
      \<and> same_shared (g\<lparr>gsm_status := GSM_STATE_IDLE, do_pppos_connect := 0\<rparr>) g')"
| "task_effect Waiting g pc g' = (pc = (if do_pppos_connect g = 0 then Waiting else Initialising) \<and> same_shared g g')"
| "task_effect Leaving g pc g' =
     (if ppp g = Freed then pc = Freed_twice \<and> same_shared g g'
      else pc = Ending \<and> same_shared (g\<lparr>ppp := if ppp g = Null then Null else Freed\<rparr>) g')"
| "task_effect Ending g pc g' =
     (pc = Off \<and> same_shared (g\<lparr>pppos_task_started := 0, gsm_status := GSM_STATE_FIRSTINIT\<rparr>) g')"
| "task_effect Dead_use g pc g' = False"
| "task_effect Freed_twice g pc g' = False"

lemma same_shared_refl [simp]: "same_shared g g"
  by (simp add: same_shared_def)

lemma task_step_effect:
  assumes "task_step U cfg pc g w = Some (g', pc', w')"
  shows "task_effect pc g pc' g'"
proof (cases pc)
  case Setting_up
  then show ?thesis using assms by (auto dest!: task_setup_shared simp: same_shared_def)
next
  case Initialising
  then show ?thesis using assms by (auto simp: Option.bind_eq_Some_conv split: if_splits dest: init_loop_shared)
next
  case Creating
  then show ?thesis using assms
    by (auto simp: task_create_def with_ppp_def Let_def split: if_splits prod.splits)
next
  case Handling
  then show ?thesis using assms
    by (auto simp: task_handle_def task_request_def with_ppp_def split: if_splits dest: pump_shared)
next
  case Retrying
  then show ?thesis using assms
    by (auto simp: with_ppp_def enableAllInitCmd_def same_shared_def split: if_splits)
next
  case (Closing e)
  then show ?thesis using assms
    by (auto split: if_splits dest: pump_shared)
next
  case Leaving
  then show ?thesis using assms by (auto simp: same_shared_def split: ppp_ptr.splits)
next
  case (Hanging_up e)
  then show ?thesis using assms
    by (auto simp: Option.bind_eq_Some_conv enableAllInitCmd_def same_shared_def dest!: hang_up_shared)
qed (use assms in \<open>auto simp: with_ppp_def split: if_splits\<close>)

lemmas call_defs = ppposInit_begin_def ppposInit_poll_def ppposDisconnect_request_def Let_def

subsection \<open>Invariants\<close>

text \<open>The flag says whether the task runs, the mutex exists while it does, and the caller that creates it waits for it.\<close>

definition started_ok :: "'w modem_sys \<Rightarrow> bool" where
  "started_ok s \<longleftrightarrow> pppos_task_started (gs s) = (if task s \<in> {Off, Starting} then 0 else 1)
     \<and> (task s \<noteq> Off \<longrightarrow> pppos_mutex (gs s)) \<and> (task s = Starting \<longrightarrow> caller s = Init_wait_task)"

text \<open>Past its creation the control block is live until the task leaves. No dead block is ever passed to the PPP stack.\<close>

fun needs_ppp :: "task_pc \<Rightarrow> bool" where
  "needs_ppp Off = False"
| "needs_ppp Starting = False"
| "needs_ppp Setting_up = False"
| "needs_ppp Initialising = False"
| "needs_ppp Creating = False"
| "needs_ppp Leaving = False"
| "needs_ppp Ending = False"
| "needs_ppp Freed_twice = False"
| "needs_ppp _ = True"

definition ppp_ok :: "'w modem_sys \<Rightarrow> bool" where
  "ppp_ok s \<longleftrightarrow> task s \<noteq> Dead_use \<and> (needs_ppp (task s) \<longrightarrow> ppp (gs s) = Live)
     \<and> (task s \<in> {Initialising, Creating} \<longrightarrow> ppp (gs s) = Live \<or> gsm_status (gs s) = GSM_STATE_FIRSTINIT)
     \<and> (task s \<in> {Off, Starting, Setting_up, Ending} \<longrightarrow> ppp (gs s) \<noteq> Live)"

text \<open>A request of the caller goes from \<open>- 1\<close> or 0 over 1, while the task closes the connection, to 0.\<close>

fun closes :: "task_pc \<Rightarrow> bool" where
  "closes (Closing e) = True"
| "closes (Hanging_up e) = True"
| "closes (Closed e) = True"
| "closes _ = False"

definition at_rest :: "task_pc \<Rightarrow> ppp_ptr \<Rightarrow> bool" where
  "at_rest pc p \<longleftrightarrow> pc \<in> {Waiting, Ending, Off} \<or> pc = Leaving \<and> p = Live"

fun request_inv :: "call_pc \<Rightarrow> int \<Rightarrow> task_pc \<Rightarrow> ppp_ptr \<Rightarrow> bool" where
  "request_inv Disc_wait_taken d pc p = (d = 1 \<longrightarrow> closes pc)"
| "request_inv Disc_wait_done d pc p = ((d = 1 \<longrightarrow> closes pc) \<and> (d = 0 \<longrightarrow> at_rest pc p))"
| "request_inv (Disc_returned b) d pc p = (b \<longrightarrow> d = 0 \<and> at_rest pc p)"
| "request_inv _ d pc p = True"

definition request_ok :: "'w modem_sys \<Rightarrow> bool" where
  "request_ok s \<longleftrightarrow> request_inv (caller s) (do_pppos_connect (gs s)) (task s) (ppp (gs s))
     \<and> do_pppos_connect (gs s) \<in> {- 1, 0, 1}"

lemma request_inv_task:
  assumes "request_inv c (do_pppos_connect g) pc (ppp g)" and "task_effect pc g pc' g'"
    and "do_pppos_connect g \<in> {- 1, 0, 1}" and live: "closes pc \<Longrightarrow> ppp g = Live"
  shows "request_inv c (do_pppos_connect g') pc' (ppp g') \<and> do_pppos_connect g' \<in> {- 1, 0, 1}"
proof -
  have d: "do_pppos_connect g' = do_pppos_connect g \<or> do_pppos_connect g' = 1 \<and> closes pc'
      \<or> do_pppos_connect g' = 0 \<and> at_rest pc' (ppp g')"
    and closing: "do_pppos_connect g' = 1 \<Longrightarrow> closes pc \<Longrightarrow> closes pc'"
    and resting: "do_pppos_connect g = 0 \<Longrightarrow> at_rest pc (ppp g) \<Longrightarrow> do_pppos_connect g' = 0 \<and> at_rest pc' (ppp g')"
    using assms(2) live by (cases pc; auto simp: same_shared_def at_rest_def split: if_splits)+
  show ?thesis using assms(1,3) d closing resting by (cases c) auto
qed

lemma started_ok_step:
  assumes "started_ok s" and "modem_step U R cfg s t"
  shows "started_ok t"
  using assms(2)
proof cases
  case (task g pc w)
  have "task_effect (task s) (gs s) pc g" using task(2) by (rule task_step_effect)
  then show ?thesis
    using assms(1) task(1)
    by (cases "task s") (auto simp: started_ok_def same_shared_def split: if_splits)
next
  case call
  then show ?thesis
    using assms(1)
    by (cases "caller s")
      (auto simp: started_ok_def call_defs split: if_splits prod.splits)
qed (use assms(1) in \<open>auto simp: started_ok_def same_shared_def dest!: output_shared counts_shared\<close>)

lemma call_step_keeps:
  assumes "call_step R c s = Some t"
  shows "ppp (gs t) = ppp (gs s) \<and> gsm_status (gs t) = gsm_status (gs s)
    \<and> (task t = task s \<or> task t = Starting \<and> pppos_task_started (gs s) = 0)"
  using assms
  by (cases c) (auto simp: ppposInit_begin_def ppposDisconnect_request_def Let_def split: if_splits prod.splits)

lemma ppp_ok_step:
  assumes "started_ok s" and "ppp_ok s" and "modem_step U R cfg s t"
  shows "ppp_ok t"
  using assms(3)
proof cases
  case (task g pc w)
  have "task_effect (task s) (gs s) pc g" using task(2) by (rule task_step_effect)
  then show ?thesis
    using assms(2) task(1)
    by (cases "task s") (auto simp: ppp_ok_def same_shared_def split: if_splits)
next
  case call
  note keeps = call_step_keeps [OF call]
  show ?thesis
  proof (cases "task t = task s")
    case True
    then show ?thesis using keeps assms(2) unfolding ppp_ok_def by metis
  next
    case False
    then have "task s \<in> {Off, Starting}" "task t = Starting"
      using keeps assms(1) unfolding started_ok_def by (auto split: if_splits)
    then show ?thesis using keeps assms(2) by (auto simp: ppp_ok_def)
  qed
qed (use assms(2) in \<open>auto simp: ppp_ok_def same_shared_def dest!: output_shared counts_shared\<close>)

lemma request_ok_call:
  assumes ok: "request_ok s" and step: "call_step R (caller s) s = Some t"
  shows "request_ok t"
proof (cases "caller s")
  case Init_begin
  then have "\<exists>c. caller t = c \<and> c \<in> {Init_wait_task, Init_wait_status, Init_returned 0} \<and> do_pppos_connect (gs t) = 1"
    using step by (auto simp: ppposInit_begin_def Let_def split: if_splits prod.splits)
  then show ?thesis by (auto simp: request_ok_def)
next
  case Init_wait_status
  then show ?thesis using ok step by (auto simp: request_ok_def ppposInit_poll_def)
next
  case (Disc_begin e r)
  then show ?thesis using ok step by (auto simp: request_ok_def split: if_splits)
next
  case (Disc_request e r)
  then show ?thesis using step by (cases "e = 0") (auto simp: request_ok_def ppposDisconnect_request_def)
next
  case Disc_wait_taken
  then show ?thesis using ok step
    by (cases "do_pppos_connect (gs s) = 0") (auto simp: request_ok_def)
next
  case Disc_wait_done
  then show ?thesis using ok step
    by (cases "do_pppos_connect (gs s) = 0") (auto simp: request_ok_def)
qed (use ok step in \<open>auto simp: request_ok_def\<close>)

lemma request_ok_step:
  assumes "ppp_ok s" and "request_ok s" and "modem_step U R cfg s t"
  shows "request_ok t"
  using assms(3)
proof cases
  case (task g pc w)
  have "task_effect (task s) (gs s) pc g" using task(2) by (rule task_step_effect)
  moreover have "closes (task s) \<Longrightarrow> ppp (gs s) = Live" using assms(1) by (cases "task s") (auto simp: ppp_ok_def)
  ultimately show ?thesis
    using assms(2) request_inv_task [of "caller s" "gs s" "task s" pc g] unfolding request_ok_def task(1) by simp
next
  case call
  then show ?thesis
    using request_ok_call [OF assms(2)] by blast
next
  case init
  then show ?thesis using assms(2) by (simp add: request_ok_def)
next
  case disconnect
  then show ?thesis using assms(2) by (simp add: request_ok_def)
qed (use assms(2) in \<open>auto simp: request_ok_def same_shared_def dest!: output_shared counts_shared\<close>)

definition modem_ok :: "'w modem_sys \<Rightarrow> bool" where
  "modem_ok s \<longleftrightarrow> started_ok s \<and> ppp_ok s \<and> request_ok s"

interpretation modem: invariant modem_init "modem_step U R cfg" modem_ok for U R cfg
proof unfold_locales
  show "modem_init s \<Longrightarrow> modem_ok s" for s :: "'w modem_sys"
    by (simp add: modem_init_def modem_ok_def started_ok_def ppp_ok_def request_ok_def gsm_start_def)
  show "modem_ok s \<Longrightarrow> modem_step U R cfg s t \<Longrightarrow> modem_ok t" for s t
    using started_ok_step ppp_ok_step request_ok_step unfolding modem_ok_def by blast
qed

end
