(* ===== verification/ModemSample.thy ===== *)
theory ModemSample
  imports Modem
begin

text \<open>
  A concrete serial line and drivers for it, on which the statements about the modem library are tried.
\<close>

text \<open>A line that plays a list of reads, and drivers that work; the serial driver can be installed once.\<close>

record line =
  replies :: "string list"
  written :: "string list"

definition demo_modem :: "line modem_api" where
  "demo_modem =
     \<lparr>vTaskDelay = \<lambda>_. id, uart_flush = id, uart_wait_tx_done = \<lambda>_. id,
      uart_write_bytes = \<lambda>bs w. (of_nat (length bs), w\<lparr>written := written w @ [bs]\<rparr>),
      uart_read_bytes = \<lambda>_ _ w. (case replies w of [] \<Rightarrow> ([], w) | r # rs \<Rightarrow> (r, w\<lparr>replies := rs\<rparr>)),
      gpio_set_direction = \<lambda>_ _. Pair 0, gpio_set_pull_mode = \<lambda>_. Pair 0, uart_param_config = Pair 0,
      uart_set_pin = Pair 0, uart_driver_install = \<lambda>w. (if written w = [] then 0 else - 1, w), malloc = \<lambda>_. Pair True,
      pppapi_pppos_create = Pair True, pppapi_set_default_auth = id, pppapi_connect = id, pppapi_close = id,
      pppos_input_tcpip = \<lambda>_. id, ppp_free = id\<rparr>"

definition demo_line :: "string list \<Rightarrow> line" where
  "demo_line rs = \<lparr>replies = rs, written = []\<rparr>"

end
