(* ===== verification/ModemProperties.thy ===== *)
theory ModemProperties
  imports ModemSystem ModemSample
begin

text \<open>
  What the modem library achieves: the exchange of a command, the initialisation, the
  protocol between the modem task and its caller, and the list of messages; and where it fails.
\<close>

subsection \<open>The exchange of a command\<close>

text \<open>The data that successive polls of the line deliver.\<close>

fun polls :: "'w modem_api \<Rightarrow> 'w \<Rightarrow> string list \<Rightarrow> 'w \<Rightarrow> bool" where
  "polls U w [] w' = (w' = w)"
| "polls U w (d # ds) w' = (fst (uart_read_bytes U 256 (ticks 10) w) = d
     \<and> polls U (snd (uart_read_bytes U 256 (ticks 10) w)) ds w')"

lemma polls_append: "polls U w (ds @ es) w' \<longleftrightarrow> (\<exists>w1. polls U w ds w1 \<and> polls U w1 es w')"
  by (induction ds arbitrary: w) auto

definition answer_code :: "string \<Rightarrow> string option \<Rightarrow> string \<Rightarrow> int" where
  "answer_code resp resp1 s =
     (if sublist resp s then 1
      else case resp1 of None \<Rightarrow> 0 | Some r \<Rightarrow> if sublist r s then 2 else 0)"

lemma printable_not_NUL [simp]: "printable c \<noteq> NUL"
  by (auto simp: printable_def)

lemma text_in_padded:
  "NUL \<notin> set s \<Longrightarrow> text_in (s @ replicate n NUL) = (if n = 0 then None else Some s)"
proof -
  have "takeWhile (\<lambda>c. c \<noteq> NUL) (replicate n NUL) = []" by (cases n) simp_all
  then have "NUL \<notin> set s \<Longrightarrow> takeWhile (\<lambda>c. c \<noteq> NUL) (s @ replicate n NUL) = s" by (induction s) auto
  then show "NUL \<notin> set s \<Longrightarrow> ?thesis" by (auto simp: text_in_def)
qed

lemma check_printable:
  "check_response (take 256 (map printable s)) resp resp1 =
     (if length s < 256 then Some (answer_code resp resp1 (map printable s)) else None)"
  using text_in_padded [of "take 256 (map printable s)" "256 - length (take 256 (map printable s))"]
  by (auto simp: check_response_def answer_code_def strstr_None in_set_conv_nth split: option.split)

lemma wait_quiet:
  "polls U w (replicate k []) w1 \<Longrightarrow> cnt + 10 * int k \<le> timeout \<Longrightarrow>
     wait_response U resp resp1 timeout [] 0 cnt w = wait_response U resp resp1 timeout [] 0 (cnt + 10 * int k) w1"
proof (induction k arbitrary: w cnt)
  case (Suc k)
  obtain w2 where r: "uart_read_bytes U 256 (ticks 10) w = ([], w2)" and rest: "polls U w2 (replicate k []) w1"
    using Suc.prems(1) by (cases "uart_read_bytes U 256 (ticks 10) w") auto
  have "wait_response U resp resp1 timeout [] 0 cnt w = wait_response U resp resp1 timeout [] 0 (cnt + 10) w2"
    using Suc.prems(2) by (subst wait_response.simps) (simp add: r)
  also have "\<dots> = wait_response U resp resp1 timeout [] 0 (cnt + 10 + 10 * int k) w1"
    by (rule Suc.IH [OF rest]) (use Suc.prems(2) in simp)
  finally show ?case by (simp add: algebra_simps)
qed simp

lemma take_more: "take n xs @ take (n - length (take n xs)) ys = take n (xs @ ys)"
  by (simp add: min_def)

lemma wait_chunks:
  "polls U w ds w1 \<Longrightarrow> [] \<notin> set ds \<Longrightarrow> cnt + 10 * int (length ds) \<le> timeout \<Longrightarrow>
     wait_response U resp resp1 timeout (take 256 (map printable s)) (int (length s)) cnt w
     = wait_response U resp resp1 timeout (take 256 (map printable (s @ concat ds))) (int (length (s @ concat ds)))
         (cnt + 10 * int (length ds)) w1"
proof (induction ds arbitrary: w cnt s)
  case (Cons d ds)
  obtain w2 where r: "uart_read_bytes U 256 (ticks 10) w = (d, w2)" and rest: "polls U w2 ds w1"
    using Cons.prems(1) by (cases "uart_read_bytes U 256 (ticks 10) w") auto
  have "d \<noteq> []" using Cons.prems(2) by auto
  then have "wait_response U resp resp1 timeout (take 256 (map printable s)) (int (length s)) cnt w
      = wait_response U resp resp1 timeout (take 256 (map printable (s @ d))) (int (length (s @ d))) (cnt + 10) w2"
    using Cons.prems(3) take_more [of 256 "map printable s" "map printable d"]
    by (subst wait_response.simps) (simp add: r)
  also have "\<dots> = wait_response U resp resp1 timeout (take 256 (map printable ((s @ d) @ concat ds)))
      (int (length ((s @ d) @ concat ds))) (cnt + 10 + 10 * int (length ds)) w1"
    by (rule Cons.IH [OF rest]) (use Cons.prems(2,3) in simp_all)
  finally show ?case by (simp add: algebra_simps)
qed simp

text \<open>(C28) The exchange of a command, when the line is silent for \<open>k\<close> polls, then delivers an
  answer in chunks and then pauses within the time-out: the code says whether the expected text, or
  the alternative, is part of the answer. An answer of 256 characters leaves no room for a terminator and has no defined result.\<close>

theorem at_answer:
  assumes "send_command U c sz w = Some w0" and "polls U w0 (replicate k [] @ ds @ [[]]) w1"
    and "ds \<noteq> []" and "[] \<notin> set ds" and "10 * int (k + length ds) \<le> timeout"
  shows "atCmd_waitResponse U c resp resp1 sz timeout w =
     (if length (concat ds) < 256 then Some (answer_code resp resp1 (map printable (concat ds)), w1) else None)"
proof -
  obtain wa wb where "polls U w0 (replicate k []) wa" and "polls U wa ds wb" and last: "polls U wb [[]] w1"
    using assms(2) by (auto simp: polls_append)
  have "wait_response U resp resp1 timeout [] 0 0 w0 = wait_response U resp resp1 timeout [] 0 (10 * int k) wa"
    using wait_quiet [OF \<open>polls U w0 (replicate k []) wa\<close>, of 0 timeout] assms(5) by simp
  also have "\<dots> = wait_response U resp resp1 timeout (take 256 (map printable (concat ds))) (int (length (concat ds)))
      (10 * int k + 10 * int (length ds)) wb"
    using wait_chunks [OF \<open>polls U wa ds wb\<close> assms(4), of "10 * int k" timeout resp resp1 "[]"] assms(5) by simp
  also have "\<dots> = do { res \<leftarrow> check_response (take 256 (map printable (concat ds))) resp resp1; Some (res, w1) }"
  proof -
    obtain w2 where "uart_read_bytes U 256 (ticks 10) wb = ([], w2)" "w2 = w1"
      using last by (cases "uart_read_bytes U 256 (ticks 10) wb") auto
    moreover have "concat ds \<noteq> []" using assms(3,4) by (cases ds) auto
    ultimately show ?thesis by (subst wait_response.simps) simp
  qed
  finally show ?thesis
    using assms(1) by (simp add: atCmd_waitResponse_def check_printable)
qed

theorem at_answer_witness:
  "atCmd_waitResponse demo_modem (cmd cmd_RFOn) GSM_OK_Str None (uint (cmdSize cmd_RFOn)) 1000 (demo_line [[], crlf @ ''OK'', crlf, []])
   = Some (1, \<lparr>replies = [], written = [''AT+CFUN=1'' @ crlf @ [NUL]]\<rparr>)"
proof -
  let ?w = "\<lparr>replies = [[], crlf @ ''OK'', crlf, []], written = [''AT+CFUN=1'' @ crlf @ [NUL]]\<rparr>"
  have sent: "send_command demo_modem (cmd cmd_RFOn) (uint (cmdSize cmd_RFOn)) (demo_line [[], crlf @ ''OK'', crlf, []])
      = Some ?w"
    by code_simp
  have heard: "polls demo_modem ?w (replicate 1 [] @ [crlf @ ''OK'', crlf] @ [[]]) (?w\<lparr>replies := []\<rparr>)"
    by (simp add: demo_modem_def)
  have code: "answer_code GSM_OK_Str None (map printable (concat [crlf @ ''OK'', crlf])) = 1"
    by code_simp
  show ?thesis
    using at_answer [OF sent heard, of 1000 GSM_OK_Str None] code by (simp add: crlf_def)
qed

subsection \<open>Initialisation\<close>

text \<open>The commands still to be done, one after the other, each repeated until it is answered.\<close>

function dial :: "'w modem_api \<Rightarrow> nat \<Rightarrow> GSM_Cmd list \<Rightarrow> 'w \<Rightarrow> (bool \<times> 'w) option" where
  "dial U nfail [] w = Some (True, w)"
| "dial U nfail (c # cs) w = do {
     (res, w) \<leftarrow> atCmd_waitResponse U (cmd c) (cmdResponseOnOk c) None (uint (cmdSize c)) (uint (timeoutMs c)) w;
     if res = 0 then
       if 20 < nfail + 1 then Some (False, w) else dial U (nfail + 1) (c # cs) (vTaskDelay U (ticks 3000) w)
     else dial U nfail cs (if 0 < delayMs c then vTaskDelay U (ticks (uint (delayMs c))) w else w)
   }"
  by pat_completeness auto
termination
  by (relation "measures [\<lambda>(U, n, cs, w). 21 - n, \<lambda>(U, n, cs, w). length cs]") auto

declare dial.simps [simp del]

abbreviation to_do :: "GSM_Cmd \<Rightarrow> bool" where
  "to_do c \<equiv> skip c = 0"

lemma filter_from:
  assumes "\<forall>j<i. \<not> P (xs ! j)" and "i \<le> length xs"
  shows "filter P xs = filter P (drop i xs)"
proof -
  have "filter P (take i xs) = []"
    using assms by (auto simp: filter_empty_conv in_set_conv_nth)
  then show ?thesis by (metis append_Nil append_take_drop_id filter_append)
qed

lemma init_loop_dial:
  "\<forall>j<i. \<not> to_do (commands g ! j) \<Longrightarrow> i \<le> length (commands g) \<Longrightarrow>
     map_option (\<lambda>(ok, g, w). (ok, w)) (init_loop U i n g w) = dial U n (filter to_do (commands g)) w"
proof (induction U i n g w rule: init_loop.induct)
  case (1 U i n g w)
  show ?case
  proof (cases "i < length (commands g)")
    case False
    then show ?thesis
      using filter_from [OF "1.prems"] "1.prems"(2) by (simp add: init_loop.simps dial.simps)
  next
    case True
    define c where "c = commands g ! i"
    show ?thesis
    proof (cases "skip c = 0")
      case False
      have "\<forall>j<i + 1. \<not> to_do (commands g ! j)"
        using "1.prems"(1) False by (auto simp: c_def less_Suc_eq)
      then show ?thesis
        using "1.IH"(1) [OF True c_def False] True False
        by (subst init_loop.simps) (simp add: c_def Let_def)
    next
      case skip: True
      have rest: "filter to_do (commands g) = c # filter to_do (drop (Suc i) (commands g))"
        using filter_from [OF "1.prems"] True skip by (simp add: Cons_nth_drop_Suc [symmetric] c_def)
      show ?thesis
      proof (cases "atCmd_waitResponse U (cmd c) (cmdResponseOnOk c) None (uint (cmdSize c)) (uint (timeoutMs c)) w")
        case None
        then show ?thesis using True skip
          by (subst init_loop.simps) (simp add: c_def [symmetric] Let_def rest dial.simps)
      next
        case (Some y)
        then obtain res w1 where at: "atCmd_waitResponse U (cmd c) (cmdResponseOnOk c) None (uint (cmdSize c))
          (uint (timeoutMs c)) w = Some (res, w1)" by (cases y) auto
        show ?thesis
        proof (cases "res = 0")
          case res: True
          show ?thesis
          proof (cases "20 < n + 1")
            case False
            then show ?thesis
              using "1.IH"(2) [OF True c_def _ at refl res False] True skip at res
              by (subst init_loop.simps) (simp add: c_def [symmetric] Let_def rest dial.simps(2))
          next
            case gone: True
            then show ?thesis using True skip at res
              by (subst init_loop.simps) (simp add: c_def [symmetric] Let_def rest dial.simps(2))
          qed
        next
          case res: False
          let ?c' = "c\<lparr>skip := 1, delayMs := if i = REG then 0 else delayMs c\<rparr>"
          let ?g = "g\<lparr>commands := (commands g)[i := ?c']\<rparr>"
          have before: "\<forall>j<i + 1. \<not> to_do (commands ?g ! j)"
            using "1.prems"(1) True by (auto simp: nth_list_update)
          have after: "filter to_do (commands ?g) = filter to_do (drop (Suc i) (commands g))"
            using filter_from [of "i + 1" to_do "commands ?g"] before True by simp
          show ?thesis
            using "1.IH"(3) [OF True c_def _ at refl res refl refl] before after True skip at res
            by (subst init_loop.simps) (simp add: c_def [symmetric] Let_def rest dial.simps(2))
        qed
      qed
    qed
  qed
qed

text \<open>(C26) Initialising the modem, which starts again from the first command after a failure, is the same as repeating the
  failed command: the commands that are not marked as done are sent in order, each until it is answered, and the twenty-first
  failure ends the attempt.\<close>

theorem init_is_dialling:
  "map_option (\<lambda>(ok, g, w). (ok, w)) (init_loop U 0 0 g w) = dial U 0 (filter to_do (commands g)) w"
  by (rule init_loop_dial) simp_all

subsection \<open>The protocol between the task and its caller\<close>


text \<open>(C10) When a disconnection that was requested returns, and until the next call, the request is off the table and the task
  waits to reconnect, or is at its end, leaving or gone: the caller cannot be told of a disconnection that has not been carried out.\<close>

theorem disconnect_handshake:
  assumes "reach modem_init (modem_step U R cfg) s" and "caller s = Disc_returned True"
  shows "do_pppos_connect (gs s) = 0 \<and> task s \<in> {Waiting, Leaving, Ending, Off}"
  using modem.reach_inv [OF assms(1)] assms(2) by (auto simp: modem_ok_def request_ok_def at_rest_def)

text \<open>The caller waits for a task that is not there.\<close>

fun stuck_call :: "call_pc \<Rightarrow> int \<Rightarrow> bool" where
  "stuck_call Init_wait_task d = True"
| "stuck_call (Disc_request e r) d = True"
| "stuck_call Disc_wait_taken d = (d \<le> 0)"
| "stuck_call Disc_wait_done d = (d = - 1)"
| "stuck_call _ d = False"

definition stuck :: "'w modem_sys \<Rightarrow> bool" where
  "stuck s \<longleftrightarrow> task s = Off \<and> pppos_task_started (gs s) = 0 \<and> stuck_call (caller s) (do_pppos_connect (gs s))
     \<and> do_pppos_connect (gs s) \<in> {- 1, 0, 1}"

lemma stuck_step:
  assumes "stuck s" and "modem_step U R cfg s t"
  shows "stuck t"
  using assms(2)
proof cases
  case (task g pc w)
  then show ?thesis using assms(1) by (simp add: stuck_def)
next
  case call
  then show ?thesis
    using assms(1)
    by (cases "caller s"; cases "do_pppos_connect (gs s) = 0")
      (auto simp: stuck_def ppposDisconnect_request_def split: if_splits)
next
  case init
  then show ?thesis using assms(1) by (cases "caller s") (auto simp: stuck_def)
next
  case disconnect
  then show ?thesis using assms(1) by (cases "caller s") (auto simp: stuck_def)
qed (use assms(1) in \<open>auto simp: stuck_def same_shared_def dest!: output_shared counts_shared\<close>)

interpretation stuck: invariant stuck "modem_step U R cfg" stuck for U R cfg
  by unfold_locales (auto intro: stuck_step)

text \<open>Calls that never return: a disconnection requested after the task has ended, and an initialisation whose task ended
  before the caller looked at its flag for the first time, wait for ever, whatever the rest of the system does.\<close>

theorem calls_never_return:
  assumes "reach modem_init (modem_step U R cfg) s" and "task s = Off"
    and "caller s = Init_wait_task \<or> caller s = Disc_request e r"
    and "(modem_step U R cfg)\<^sup>*\<^sup>* s t"
  shows "task t = Off \<and> \<not> may_call (caller t)"
proof -
  have "stuck s"
    using modem.reach_inv [OF assms(1)] assms(2,3) by (auto simp: stuck_def modem_ok_def started_ok_def request_ok_def)
  then have "stuck t" using assms(4) by (rule stuck.steps_inv)
  then show ?thesis by (cases "caller t") (auto simp: stuck_def)
qed

lemma freed_step:
  assumes "ppp (gs s) = Freed" and "task s \<in> {Off, Starting, Setting_up, Initialising, Leaving, Freed_twice}"
    and "modem_step U R cfg s t" and "task t \<noteq> Creating"
  shows "ppp (gs t) = Freed \<and> task t \<in> {Off, Starting, Setting_up, Initialising, Leaving, Freed_twice}"
  using assms(3)
proof cases
  case (task g pc w)
  have "task_effect (task s) (gs s) pc g" using task(2) by (rule task_step_effect)
  then show ?thesis
    using assms(1,2,4) task(1) by (auto simp: same_shared_def)
next
  case call
  then show ?thesis using assms(1,2) call_step_keeps [OF call] by auto
qed (use assms in \<open>auto simp: same_shared_def dest!: output_shared counts_shared\<close>)

text \<open>After an orderly end the pointer to the control block keeps its value. A restarted task that has to leave before it has
  created a new one, because the drivers are still installed or the modem does not answer, frees the old one again.\<close>

theorem restart_frees_twice:
  assumes "ppp (gs s) = Freed" and "task s = Off"
    and "(\<lambda>s t. modem_step U R cfg s t \<and> task t \<noteq> Creating)\<^sup>*\<^sup>* s t" and "task t = Leaving"
  shows "task_step U cfg Leaving (gs t) (world t) = Some (gs t, Freed_twice, world t)"
proof -
  have "ppp (gs t) = Freed \<and> task t \<in> {Off, Starting, Setting_up, Initialising, Leaving, Freed_twice}"
    using assms(3)
  proof (induction rule: rtranclp_induct)
    case base
    then show ?case using assms(1,2) by simp
  next
    case (step u v)
    then show ?case using freed_step [of u U R cfg v] by blast
  qed
  then show ?thesis by simp
qed

subsection \<open>Runs of the system\<close>

datatype move = T | C | I | D u8 u8 | S ppp_err

fun exec_move :: "'w modem_api \<Rightarrow> 'w rtos_calls \<Rightarrow> modem_config \<Rightarrow> move \<Rightarrow> 'w modem_sys \<Rightarrow> 'w modem_sys option" where
  "exec_move U R cfg T s = do {
     (g, pc, w) \<leftarrow> task_step U cfg (task s) (gs s) (world s);
     Some (s\<lparr>gs := g, task := pc, world := w\<rparr>)
   }"
| "exec_move U R cfg C s = call_step R (caller s) s"
| "exec_move U R cfg I s = (if may_call (caller s) then Some (s\<lparr>caller := Init_begin\<rparr>) else None)"
| "exec_move U R cfg (D e r) s = (if may_call (caller s) then Some (s\<lparr>caller := Disc_begin e r\<rparr>) else None)"
| "exec_move U R cfg (S err) s = (if ppp (gs s) = Live then Some (s\<lparr>gs := ppp_status_cb err (gs s)\<rparr>) else None)"

fun exec_moves :: "'w modem_api \<Rightarrow> 'w rtos_calls \<Rightarrow> modem_config \<Rightarrow> move list \<Rightarrow> 'w modem_sys \<Rightarrow> 'w modem_sys option" where
  "exec_moves U R cfg [] s = Some s"
| "exec_moves U R cfg (m # ms) s = do { s \<leftarrow> exec_move U R cfg m s; exec_moves U R cfg ms s }"

lemma exec_move_step: "exec_move U R cfg m s = Some t \<Longrightarrow> modem_step U R cfg s t"
  by (cases m) (auto simp: Option.bind_eq_Some_conv split: if_splits intro: modem_step.intros)

lemma exec_moves_reach:
  "reach init (modem_step U R cfg) s \<Longrightarrow> exec_moves U R cfg ms s = Some t \<Longrightarrow> reach init (modem_step U R cfg) t"
proof (induction ms arbitrary: s)
  case (Cons m ms)
  then obtain u where "exec_move U R cfg m s = Some u" "exec_moves U R cfg ms u = Some t"
    by (auto simp: Option.bind_eq_Some_conv)
  then show ?case using Cons.IH reach.move [OF Cons.prems(1) exec_move_step] by blast
qed simp

definition demo_calls :: "line rtos_calls" where
  "demo_calls = \<lparr>xSemaphoreCreateMutex = Pair True, tcpip_adapter_init = id\<rparr>"

definition demo_config :: modem_config where
  "demo_config = \<lparr>GSM_TX = 17, GSM_RX = 16, GSM_APN = ''net''\<rparr>"

definition ok_answers :: "nat \<Rightarrow> string list" where
  "ok_answers n = concat (replicate n [''OK'', []])"

text \<open>The answers of a modem that is hung up, initialised, and hung up again later.\<close>

definition modem_start :: "line modem_sys" where
  "modem_start = \<lparr>gs = gsm_start, task = Off, caller = Ready,
     world = demo_line (ok_answers 7 @ [''CPIN: READY'', [], ''CREG: 0,1'', []] @ ok_answers 1 @ [''CONNECT'', []] @ ok_answers 2)\<rparr>"

lemma modem_start_init: "reach modem_init (modem_step U R cfg) modem_start"
  by (rule reach.start) (simp add: modem_init_def modem_start_def)

declare hang_up_loop.simps [code] collect_response.simps [code]

abbreviation demo_run :: "move list \<Rightarrow> line modem_sys option" where
  "demo_run ms \<equiv> exec_moves demo_modem demo_calls demo_config ms modem_start"

lemma demo_reach:
  "demo_run ms = Some t \<Longrightarrow> reach modem_init (modem_step demo_modem demo_calls demo_config) t"
  by (rule exec_moves_reach [OF modem_start_init])

text \<open>From the first call to an established connection.\<close>

definition connect_moves :: "move list" where
  "connect_moves = [I, C, T, C, T, T, T, T, S PPPERR_NONE, C]"


text \<open>A disconnection carried out by the task, which stays or ends.\<close>

definition disconnect_moves :: "u8 \<Rightarrow> move list" where
  "disconnect_moves e = connect_moves @ [D e 0, C, C, T, C, S PPPERR_USER, T, T, T, C]"

theorem disconnect_handshake_witness:
  "\<exists>s. demo_run (disconnect_moves 0) = Some s \<and> caller s = Disc_returned True \<and> do_pppos_connect (gs s) = 0"
proof -
  have "map_option caller (demo_run (disconnect_moves 0)) = Some (Disc_returned True)" by code_simp
  then obtain s where s: "demo_run (disconnect_moves 0) = Some s" "caller s = Disc_returned True" by auto
  then show ?thesis using disconnect_handshake [OF demo_reach [OF s(1)] s(2)] by blast
qed

text \<open>A task that gets no memory ends before its caller has looked.\<close>

abbreviation poor_modem :: "line modem_api" where
  "poor_modem \<equiv> demo_modem\<lparr>malloc := \<lambda>_. Pair False\<rparr>"

theorem calls_never_return_witness:
  "\<exists>s. exec_moves poor_modem demo_calls demo_config [I, C, T, T, T, T] modem_start = Some s
     \<and> (\<forall>t. (modem_step poor_modem demo_calls demo_config)\<^sup>*\<^sup>* s t \<longrightarrow> \<not> may_call (caller t))"
proof -
  let ?run = "exec_moves poor_modem demo_calls demo_config [I, C, T, T, T, T] modem_start"
  have "map_option (\<lambda>s. (task s, caller s)) ?run = Some (Off, Init_wait_task)" by code_simp
  then obtain s where s: "?run = Some s" "task s = Off" "caller s = Init_wait_task" by auto
  have "reach modem_init (modem_step poor_modem demo_calls demo_config) s"
    by (rule exec_moves_reach [OF modem_start_init s(1)])
  from calls_never_return [OF this s(2)] s show ?thesis by blast
qed

lemma exec_moves_avoid:
  "exec_moves U R cfg ms s = Some t \<Longrightarrow>
     \<forall>n \<le> length ms. map_option task (exec_moves U R cfg (take n ms) s) \<noteq> Some Creating \<Longrightarrow>
     (\<lambda>s t. modem_step U R cfg s t \<and> task t \<noteq> Creating)\<^sup>*\<^sup>* s t"
proof (induction ms arbitrary: s)
  case (Cons m ms)
  then obtain u where u: "exec_move U R cfg m s = Some u" "exec_moves U R cfg ms u = Some t"
    by (auto simp: Option.bind_eq_Some_conv)
  have avoid: "map_option task (exec_moves U R cfg (take n ms) u) \<noteq> Some Creating" if "n \<le> length ms" for n
    using Cons.prems(2) [rule_format, of "Suc n"] that u(1) by simp
  have "(\<lambda>s t. modem_step U R cfg s t \<and> task t \<noteq> Creating)\<^sup>*\<^sup>* u t"
    using Cons.IH [OF u(2)] avoid by blast
  moreover have "task u \<noteq> Creating" using avoid [of 0] by simp
  ultimately show ?case using exec_move_step [OF u(1)]
    by (intro converse_rtranclp_into_rtranclp [of _ s u]) auto
qed simp

theorem restart_frees_twice_witness:
  "\<exists>s t. demo_run (disconnect_moves 1 @ [T, T]) = Some s
     \<and> exec_moves demo_modem demo_calls demo_config [I, C, T, T] s = Some t
     \<and> map_option (fst \<circ> snd) (task_step demo_modem demo_config Leaving (gs t) (world t)) = Some Freed_twice"
proof -
  let ?run = "\<lambda>n s. exec_moves demo_modem demo_calls demo_config (take n [I, C, T, T]) s"
  have all: "map_option (\<lambda>s. (task s, ppp (gs s), map (\<lambda>n. map_option task (?run n s)) [0, 1, 2, 3, 4]))
      (demo_run (disconnect_moves 1 @ [T, T]))
    = Some (Off, Freed, [Some Off, Some Off, Some Starting, Some Setting_up, Some Leaving])"
    by code_simp
  then obtain s where s: "demo_run (disconnect_moves 1 @ [T, T]) = Some s" "task s = Off" "ppp (gs s) = Freed"
    and tasks: "map (\<lambda>n. map_option task (?run n s)) [0, 1, 2, 3, 4]
      = [Some Off, Some Off, Some Starting, Some Setting_up, Some Leaving]" by auto
  then obtain t where t: "exec_moves demo_modem demo_calls demo_config [I, C, T, T] s = Some t" "task t = Leaving"
    by auto
  have "map_option task (?run n s) \<noteq> Some Creating" if "n \<le> length [I, C, T, T]" for n
  proof -
    have "n \<in> {0, 1, 2, 3, 4}" using that by (auto simp: le_Suc_eq numeral_eq_Suc)
    then show ?thesis using tasks by (auto simp del: take_Cons_numeral)
  qed
  then have "(\<lambda>s t. modem_step demo_modem demo_calls demo_config s t \<and> task t \<noteq> Creating)\<^sup>*\<^sup>* s t"
    using exec_moves_avoid [OF t(1)] by blast
  from restart_frees_twice [OF s(3,2) this t(2)] show ?thesis using s(1) t(1) by fastforce
qed

end
