(* ===== verification/ModemSms.thy ===== *)
theory ModemSms
  imports ModemTask
begin

text \<open>
  The modem library, fourth part: switching the radio, and sending, reading and deleting short
  messages.
\<close>

subsection \<open>The radio\<close>

text \<open>Whether an answer collected in \<open>char buf[64]\<close> contains a pattern.\<close>

definition answered :: "int \<Rightarrow> string \<Rightarrow> string \<Rightarrow> bool option" where
  "answered res buf pat =
     (if 0 < res then do { s \<leftarrow> text_in (take 64 (buf @ replicate 64 NUL)); Some (strstr s pat \<noteq> None) }
      else Some False)"

definition switch_radio ::
  "'w modem_api \<Rightarrow> string \<Rightarrow> string \<Rightarrow> u16 \<Rightarrow> gsm \<Rightarrow> 'w \<Rightarrow> (int \<times> gsm \<times> 'w) option"
where
  "switch_radio U state command reg_timeout g w =
     (if gsm_status g \<noteq> GSM_STATE_IDLE then Some (0, g, w)
      else do {
        (res, buf, w) \<leftarrow> atCmd_readResponse U (Some (''AT+CFUN?'' @ crlf)) (- 1) 2000 False 63 w;
        there \<leftarrow> answered res buf state;
        if there then Some (1, g, w)
        else do {
          (res, w) \<leftarrow> at_ok U command 11 10000 w;
          Some (res, set_cmd REG (timeoutMs_update (\<lambda>_. reg_timeout)) g, w)
        }
      })"

definition gsm_RFOff :: "'w modem_api \<Rightarrow> gsm \<Rightarrow> 'w \<Rightarrow> (int \<times> gsm \<times> 'w) option" where
  "gsm_RFOff U = switch_radio U ''+CFUN: 4'' ''AT+CFUN=4'' 500"

definition gsm_RFOn :: "'w modem_api \<Rightarrow> gsm \<Rightarrow> 'w \<Rightarrow> (int \<times> gsm \<times> 'w) option" where
  "gsm_RFOn U = switch_radio U ''+CFUN: 1'' ''AT+CFUN=1'' 0"

subsection \<open>Sending\<close>

definition sms_ready :: "'w modem_api \<Rightarrow> gsm \<Rightarrow> 'w \<Rightarrow> (bool \<times> 'w) option" where
  "sms_ready U g w =
     (if ppposStatus g \<noteq> uint GSM_STATE_IDLE then Some (False, w)
      else do {
        (res, w) \<leftarrow> atCmd_waitResponse U (Some (''AT+CFUN?'' @ crlf)) ''+CFUN: 1'' None (- 1) 1000 w;
        if res \<noteq> 1 then Some (False, w)
        else do { (res, w) \<leftarrow> at_ok U ''AT+CMGF=1'' (- 1) 1000 w; Some (res = 1, w) }
      })"

definition cancel_sms :: "'w modem_api \<Rightarrow> 'w \<Rightarrow> (int \<times> 'w) option" where
  "cancel_sms U w = atCmd_waitResponse U (Some [CHR 0x1B]) GSM_OK_Str None 1 1000 w"

definition smsSend :: "'w modem_api \<Rightarrow> string \<Rightarrow> string \<Rightarrow> gsm \<Rightarrow> 'w \<Rightarrow> (int \<times> 'w) option" where
  "smsSend U smsnum msg g w = do {
     (ready, w) \<leftarrow> sms_ready U g w;
     if \<not> ready then Some (0, w)
     else do {
       buf \<leftarrow> sprintf_to 64 (''AT+CMGS='' @ [QUOTE] @ smsnum @ [QUOTE] @ crlf);
       (res, w) \<leftarrow> atCmd_waitResponse U (Some buf) ''> '' None (- 1) 1000 w;
       if res \<noteq> 1 then do { (_, w) \<leftarrow> cancel_sms U w; Some (0, w) }
       else
         let (got, w) = malloc U (length msg + 2) w in
         if \<not> got then Some (0, w)
         else do {
           (res, w) \<leftarrow> atCmd_waitResponse U (Some (msg @ [CHR 0x1A])) ''+CMGS: '' (Some ''ERROR'')
             (int (length msg) + 1) 40000 w;
           if res \<noteq> 1 then do { (_, w) \<leftarrow> cancel_sms U w; Some (0, w) } else Some (res, w)
         }
     }
   }"

definition smsDelete :: "'w modem_api \<Rightarrow> int \<Rightarrow> gsm \<Rightarrow> 'w \<Rightarrow> (int \<times> 'w) option" where
  "smsDelete U idx g w = do {
     (ready, w) \<leftarrow> sms_ready U g w;
     if \<not> ready then Some (0, w)
     else do {
       buf \<leftarrow> sprintf_to 64 (''AT+CMGD='' @ show_int idx @ crlf);
       atCmd_waitResponse U (Some buf) GSM_OK_Str None (- 1) 5000 w
     }
   }"

subsection \<open>Numbers in text\<close>

text \<open>The value of a character as a digit, at least 36 when it is none.\<close>

definition digit_in :: "char \<Rightarrow> nat" where
  "digit_in c = (let n = of_char c in
     if 48 \<le> n \<and> n \<le> 57 then n - 48
     else if 65 \<le> n \<and> n \<le> 90 then n - 55
     else if 97 \<le> n \<and> n \<le> 122 then n - 87
     else 36)"

definition number_in :: "nat \<Rightarrow> string \<Rightarrow> nat" where
  "number_in base ds = foldl (\<lambda>v c. base * v + digit_in c) 0 ds"

definition sign_in :: "string \<Rightarrow> bool \<times> string" where
  "sign_in s = (if take 1 s = ''-'' then (True, drop 1 s) else if take 1 s = ''+'' then (False, drop 1 s) else (False, s))"

text \<open>\<open>strtol\<close> with base 0, clamped to 32 bits.\<close>

definition strtol0 :: "string \<Rightarrow> int" where
  "strtol0 s =
     (let (neg, s) = sign_in (dropWhile is_space s);
          hex = (take 2 s \<in> {''0x'', ''0X''} \<and> drop 2 s \<noteq> [] \<and> digit_in (s ! 2) < 16);
          base = (if hex then 16 else if take 1 s = ''0'' then 8 else 10);
          v = int (number_in base (takeWhile (\<lambda>c. digit_in c < base) (if hex then drop 2 s else s)))
      in if neg then max INT_MIN (- v) else min INT_MAX v)"

text \<open>A conversion \<open>%u\<close> or \<open>%d\<close> of \<open>sscanf\<close> into an \<open>int\<close>: it fails without a digit.\<close>

definition scan_int :: "string \<Rightarrow> (int \<times> string) option" where
  "scan_int s =
     (let (neg, s) = sign_in (dropWhile is_space s); ds = takeWhile is_digit s; v = int (number_in 10 ds) in
      if ds = [] \<or> INT_MAX < v then None else Some (if neg then - v else v, drop (length ds) s))"

fun scan_fields :: "string \<Rightarrow> string \<Rightarrow> (int list \<times> string) option" where
  "scan_fields [] s = Some ([], s)"
| "scan_fields (sep # seps) s = do {
     (v, s) \<leftarrow> scan_int s;
     s \<leftarrow> (if sep = NUL then Some s else if take 1 s = [sep] then Some (drop 1 s) else None);
     (vs, s) \<leftarrow> scan_fields seps s;
     Some (v # vs, s)
   }"

subsection \<open>Parsing the list of messages\<close>

record SMS_Msg =
  sms_idx :: int
  sms_msg :: "string option"
  sms_stat :: string
  sms_from :: string
  sms_time :: string
  time_value :: int
  sms_tz :: int

definition no_sms :: SMS_Msg where
  "no_sms = \<lparr>sms_idx = 0, sms_msg = None, sms_stat = [], sms_from = [], sms_time = [], time_value = 0, sms_tz = 0\<rparr>"

definition CMGL :: string where "CMGL = ''+CMGL: ''"

lemma length_CMGL [simp]: "length CMGL = 7"
  by (simp add: CMGL_def)

function numSMS :: "string \<Rightarrow> nat" where
  "numSMS s = (case strstr s CMGL of None \<Rightarrow> 0 | Some n \<Rightarrow> Suc (numSMS (drop (n + 7) s)))"
  by pat_completeness auto
termination
  by (relation "measure length") (auto dest!: strstr_Some)

declare numSMS.simps [simp del]

text \<open>The text behind the heading of the message with a number, if there are that many.\<close>

fun find_sms :: "string \<Rightarrow> nat \<Rightarrow> string option" where
  "find_sms s 0 = None"
| "find_sms s (Suc k) = (case strstr s CMGL of None \<Rightarrow> None
     | Some n \<Rightarrow> if k = 0 then Some (drop (n + 7) s) else find_sms (drop (n + 7) s) k)"

definition COMMA_QUOTE :: string where "COMMA_QUOTE = [CHR '','', QUOTE]"

definition next_field :: "string \<Rightarrow> nat option" where
  "next_field s = (case strstr s COMMA_QUOTE of None \<Rightarrow> strstr s [QUOTE] | Some n \<Rightarrow> Some n)"

definition store_field :: "nat \<Rightarrow> string \<Rightarrow> SMS_Msg \<Rightarrow> SMS_Msg" where
  "store_field i field msg =
     (if length field < 32 \<and> 0 < length field then
        let buf = (if last field = QUOTE then butlast field else field) in
        if i = 1 then msg\<lparr>sms_idx := strtol0 buf\<rparr>
        else if i = 2 then msg\<lparr>sms_stat := buf\<rparr>
        else if i = 3 then msg\<lparr>sms_from := buf\<rparr>
        else if i = 5 then msg\<lparr>sms_time := buf\<rparr>
        else msg
      else msg)"

text \<open>\<open>hdr\<close> has four zeros behind its text, so that the place behind the last quote may be looked at.\<close>

function header_loop :: "nat \<Rightarrow> string \<Rightarrow> nat option \<Rightarrow> SMS_Msg \<Rightarrow> SMS_Msg" where
  "header_loop i s None msg = msg"
| "header_loop i s (Some p) msg =
     (if p < length s then
        let s' = drop (p + 2) s in header_loop (i + 1) s' (next_field s') (store_field i (take p s) msg)
      else msg)"
  by pat_completeness auto
termination
  by (relation "measure (\<lambda>(i, s, p, msg). length s)") auto

declare header_loop.simps [simp del]

record tm =
  tm_hour :: int
  tm_min :: int
  tm_sec :: int
  tm_year :: int
  tm_mon :: int
  tm_mday :: int

text \<open>The conversion of the time; a value that was not scanned would be read uninitialised.\<close>

definition TIME_FORMAT :: string where
  "TIME_FORMAT = ''//,::'' @ [NUL, NUL]"

definition store_time :: "(tm \<Rightarrow> int) \<Rightarrow> SMS_Msg \<Rightarrow> SMS_Msg option" where
  "store_time mktime msg =
     (if 20 \<le> length (sms_time msg) then
        case scan_fields TIME_FORMAT (sms_time msg) of
          Some ([yy, mn, dd, hh, mm, ss, tz], _) \<Rightarrow>
            Some (msg\<lparr>time_value := mktime \<lparr>tm_hour = hh, tm_min = mm, tm_sec = ss, tm_year = yy + 100, tm_mon = mn,
                        tm_mday = dd\<rparr>,
                      sms_tz := sgn tz * (\<bar>tz\<bar> div 4)\<rparr>)
        | _ \<Rightarrow> None
      else Some msg)"

text \<open>The block for the body is not checked: the copy goes to a null pointer when there is none.\<close>

definition getSMS ::
  "'w modem_api \<Rightarrow> (tm \<Rightarrow> int) \<Rightarrow> string \<Rightarrow> nat \<Rightarrow> SMS_Msg \<Rightarrow> 'w \<Rightarrow> (nat \<times> SMS_Msg \<times> 'w) option"
where
  "getSMS U mktime rbuffer idx msg w =
     (case find_sms rbuffer idx of None \<Rightarrow> Some (0, msg, w)
      | Some s \<Rightarrow>
        (case strstr s crlf of None \<Rightarrow> Some (0, no_sms, w)
         | Some p \<Rightarrow>
            let hdr = take p s; body = drop (p + 2) s in
            (case strstr body crlf of None \<Rightarrow> Some (0, no_sms, w)
             | Some q \<Rightarrow>
                let (got, w) = malloc U (q + 2) w in
                if \<not> got then None
                else do {
                  msg \<leftarrow> store_time mktime (header_loop 1 hdr (strstr hdr COMMA_QUOTE) (no_sms\<lparr>sms_msg := Some (take q body)\<rparr>));
                  Some (idx, msg, w)
                })))"

subsection \<open>Reading and sorting\<close>

text \<open>
  The arrays are indexed with \<open>i * sizeof(SMS_Msg)\<close>, which the pointer arithmetic multiplies with the
  size once more; \<open>sizeof(SMS_Msg)\<close> is 112 on the 32-bit target.
\<close>

definition SIZEOF_SMS :: nat where "SIZEOF_SMS = 112"

definition sms_at :: "SMS_Msg list \<Rightarrow> nat \<Rightarrow> SMS_Msg option" where
  "sms_at ms i = (if i * SIZEOF_SMS < length ms then Some (ms ! (i * SIZEOF_SMS)) else None)"

definition sms_put :: "SMS_Msg list \<Rightarrow> nat \<Rightarrow> SMS_Msg \<Rightarrow> SMS_Msg list option" where
  "sms_put ms i m = (if i * SIZEOF_SMS < length ms then Some (ms[i * SIZEOF_SMS := m]) else None)"

fun fill_messages ::
  "'w modem_api \<Rightarrow> (tm \<Rightarrow> int) \<Rightarrow> string \<Rightarrow> nat list \<Rightarrow> SMS_Msg list \<Rightarrow> nat \<Rightarrow> SMS_Msg \<Rightarrow> 'w
     \<Rightarrow> (SMS_Msg list \<times> nat \<times> 'w) option"
where
  "fill_messages U mktime rbuffer [] ms n msg w = Some (ms, n, w)"
| "fill_messages U mktime rbuffer (i # is) ms n msg w = do {
     (r, msg, w) \<leftarrow> getSMS U mktime rbuffer (i + 1) msg w;
     if 0 < r then do {
       ms \<leftarrow> sms_put ms i msg;
       fill_messages U mktime rbuffer is ms (n + 1) msg w
     }
     else fill_messages U mktime rbuffer is ms n msg w
   }"

text \<open>The least time of the messages not yet taken, or the greatest, starting from a bound.\<close>

fun best_time :: "bool \<Rightarrow> SMS_Msg list \<Rightarrow> bool list \<Rightarrow> nat list \<Rightarrow> int \<Rightarrow> int option" where
  "best_time up ms mm [] t = Some t"
| "best_time up ms mm (i # is) t =
     (if mm ! i then do {
        m \<leftarrow> sms_at ms i;
        best_time up ms mm is (if (if up then time_value m < t else t < time_value m) then time_value m else t)
      }
      else best_time up ms mm is t)"

fun take_message :: "SMS_Msg list \<Rightarrow> bool list \<Rightarrow> nat list \<Rightarrow> int \<Rightarrow> (nat \<times> SMS_Msg) option option" where
  "take_message ms mm [] t = Some None"
| "take_message ms mm (i # is) t =
     (if mm ! i then do {
        m \<leftarrow> sms_at ms i;
        if time_value m = t then Some (Some (i, m)) else take_message ms mm is t
      }
      else take_message ms mm is t)"

fun sort_messages :: "bool \<Rightarrow> nat \<Rightarrow> SMS_Msg list \<Rightarrow> bool list \<Rightarrow> nat list \<Rightarrow> SMS_Msg list \<Rightarrow> SMS_Msg list option" where
  "sort_messages up n ms mm [] sms = Some sms"
| "sort_messages up n ms mm (k # ks) sms = do {
     t \<leftarrow> best_time up ms mm [0..<n] (if up then 0x7FFFFFFF else 0);
     found \<leftarrow> take_message ms mm [0..<n] t;
     (case found of None \<Rightarrow> sort_messages up n ms mm ks sms
      | Some (i, m) \<Rightarrow> do { sms \<leftarrow> sms_put sms k m; sort_messages up n ms (mm[i := False]) ks sms })
   }"

text \<open>The array of the result is not checked either.\<close>

definition smsRead ::
  "'w modem_api \<Rightarrow> (tm \<Rightarrow> int) \<Rightarrow> SMS_Msg \<Rightarrow> int \<Rightarrow> gsm \<Rightarrow> 'w \<Rightarrow> (nat \<times> SMS_Msg list option \<times> 'w) option"
where
  "smsRead U mktime uninitialised sort_by g w = do {
     (ready, w) \<leftarrow> sms_ready U g w;
     if \<not> ready then Some (0, None, w)
     else
       let (got, w) = malloc U 512 w in
       if \<not> got then Some (0, None, w)
       else do {
         (res, rbuffer, w) \<leftarrow> atCmd_readResponse U (Some (''AT+CMGL='' @ [QUOTE] @ ''ALL'' @ [QUOTE] @ crlf)) (- 1) 2000 True 512 w;
         if res \<le> 0 then Some (0, None, w)
         else
           let nmsg = numSMS rbuffer in
           if nmsg = 0 then Some (0, None, w)
           else
             let (got, w) = malloc U (nmsg * SIZEOF_SMS) w in
             if \<not> got then Some (0, None, w)
             else do {
               (ms, n, w) \<leftarrow> fill_messages U mktime rbuffer [0..<nmsg] (replicate nmsg no_sms) 0 uninitialised w;
               if n = 0 then Some (0, None, w)
               else if sort_by = 0 then Some (n, Some ms, w)
               else
                 let (got, w) = malloc U (n * SIZEOF_SMS) w in
                 if \<not> got then None
                 else do {
                   sms \<leftarrow> sort_messages (0 < sort_by) n ms (replicate n True) [0..<n] (replicate n no_sms);
                   Some (n, Some sms, w)
                 }
             }
       }
   }"

end
