(* ===== verification/ModemSmsProperties.thy ===== *)
theory ModemSmsProperties
  imports ModemSms ModemSample
begin

text \<open>
  The list of short messages: it is parsed back into the messages a modem printed it from. The
  format is that of the modem the library was written for, with a quoted, possibly empty, name
  between the number of the sender and the time.
\<close>

subsection \<open>Searching\<close>

lemma strstr_at:
  "n \<le> length s \<Longrightarrow> (\<And>i. i < n \<Longrightarrow> \<not> prefix pat (drop i s)) \<Longrightarrow> prefix pat (drop n s) \<Longrightarrow> strstr s pat = Some n"
proof (induction s arbitrary: n)
  case (Cons c s)
  show ?case
  proof (cases n)
    case 0
    then show ?thesis using Cons.prems(3) by simp
  next
    case (Suc m)
    have "\<not> prefix pat (drop i s)" if "i < m" for i using Cons.prems(2) [of "Suc i"] that Suc by simp
    then have "strstr s pat = Some m" using Cons.prems(1,3) Suc by (intro Cons.IH) simp_all
    moreover have "\<not> prefix pat (c # s)" using Cons.prems(2) [of 0] Suc by simp
    ultimately show ?thesis using Suc by simp
  qed
qed simp

text \<open>A pattern that is not in a text and cannot begin at its end is found behind it.\<close>

lemma strstr_behind:
  assumes "\<not> sublist pat a" and "a = [] \<or> last a \<notin> set pat" and "pat \<noteq> []"
  shows "strstr (a @ pat @ b) pat = Some (length a)"
proof (rule strstr_at)
  fix i assume i: "i < length a"
  show "\<not> prefix pat (drop i (a @ pat @ b))"
  proof
    assume "prefix pat (drop i (a @ pat @ b))"
    then have p: "prefix pat (drop i a @ pat @ b)" using i by simp
    show False
    proof (cases "length pat \<le> length (drop i a)")
      case True
      then have "prefix pat (drop i a)" using p by (meson prefix_length_prefix prefixI)
      then have "sublist pat (drop i a)" by (rule prefix_imp_sublist)
      then show False using assms(1) by (meson sublist_drop sublist_order.order_trans)
    next
      case False
      then have "prefix (drop i a) pat" using p by (meson nat_le_linear prefix_length_prefix prefixI)
      then have "set (drop i a) \<subseteq> set pat" by (rule set_mono_prefix)
      moreover have "last a \<in> set (drop i a)" using i by (metis drop_eq_Nil last_drop last_in_set not_less)
      ultimately show False using assms(2) i by auto
    qed
  qed
qed simp_all

lemma strstr_head: "hd pat \<notin> set a \<Longrightarrow> pat \<noteq> [] \<Longrightarrow> strstr (a @ pat @ b) pat = Some (length a)"
proof (rule strstr_at)
  fix i assume "hd pat \<notin> set a" "pat \<noteq> []" "i < length a"
  then show "\<not> prefix pat (drop i (a @ pat @ b))"
    by (cases pat) (auto simp: prefix_def Cons_nth_drop_Suc [symmetric])
qed simp_all

lemma sublist_set: "sublist xs ys \<Longrightarrow> set xs \<subseteq> set ys"
  by (auto simp: sublist_def)

lemma strstr_absent: "c \<in> set pat \<Longrightarrow> c \<notin> set s \<Longrightarrow> strstr s pat = None"
  using sublist_set [of pat s] by (auto simp: strstr_None)

subsection \<open>Numbers\<close>

lemma digit_in_digit [simp]: "d < 10 \<Longrightarrow> digit_in (digit d) = d"
  by (simp add: digit_in_def of_char_digit Let_def)

lemma digit_in_is_digit: "is_digit c \<Longrightarrow> digit_in c < 10"
  by (auto simp: is_digit_def digit_in_def Let_def)

lemma number_in_append: "number_in b (xs @ [c]) = b * number_in b xs + digit_in c"
  by (simp add: number_in_def)

lemma number_in_show_nat: "number_in 10 (show_nat n) = n"
proof (induction n rule: show_nat.induct)
  case (1 n)
  show ?case
  proof (cases "n < 10")
    case True
    then show ?thesis by (simp add: show_nat_small number_in_def)
  next
    case False
    then show ?thesis using 1 by (simp add: show_nat_step number_in_append)
  qed
qed

lemma show_nat_first: "0 < n \<Longrightarrow> hd (show_nat n) \<noteq> CHR ''0''"
proof (induction n rule: show_nat.induct)
  case (1 n)
  show ?case
  proof (cases "n < 10")
    case True
    have "digit n \<noteq> digit 0" using True "1.prems" digit_inj [of n 0] by auto
    moreover have "digit 0 = CHR ''0''" by code_simp
    ultimately show ?thesis using True by (simp add: show_nat_small)
  next
    case False
    then show ?thesis using 1 by (simp add: show_nat_step)
  qed
qed

lemma sign_in_digits: "s \<noteq> [] \<Longrightarrow> is_digit (hd s) \<Longrightarrow> sign_in s = (False, s)"
  by (cases s) (auto simp: sign_in_def is_digit_def)

lemma strtol0_show_nat:
  assumes "int n \<le> INT_MAX"
  shows "strtol0 (show_nat n) = int n"
proof -
  obtain c s where s: "show_nat n = c # s" by (cases "show_nat n") auto
  have digits: "\<forall>c\<in>set (show_nat n). is_digit c" using show_nat_digits by blast
  then have c: "is_digit c" and space: "\<not> is_space c" using s is_digit_not_special by auto
  have plain: "take 2 (show_nat n) \<notin> {''0x'', ''0X''}"
    using digits by (cases s) (auto simp: s is_digit_def)
  have sign: "sign_in (dropWhile is_space (show_nat n)) = (False, show_nat n)"
    using sign_in_digits [of "show_nat n"] c space by (simp add: s)
  show ?thesis
  proof (cases "n = 0")
    case True
    have "strtol0 (show_nat 0) = 0" by code_simp
    then show ?thesis using True by simp
  next
    case False
    then have "take 1 (show_nat n) \<noteq> ''0''" using show_nat_first [of n] s by simp
    moreover have all: "takeWhile (\<lambda>c. digit_in c < 10) (show_nat n) = show_nat n"
      using digits digit_in_is_digit by simp
    ultimately show ?thesis
      using plain assms by (simp add: strtol0_def sign all number_in_show_nat Let_def del: One_nat_def)
  qed
qed

subsection \<open>The header of a message\<close>

definition quoted :: "string \<Rightarrow> string" where
  "quoted f = QUOTE # f @ [QUOTE]"

text \<open>Text that can stand between quotes: it has none, does not end with a comma, has no line end and fits its array.\<close>

definition plain_field :: "string \<Rightarrow> bool" where
  "plain_field f \<longleftrightarrow> QUOTE \<notin> set f \<and> CR \<notin> set f \<and> (f = [] \<or> last f \<noteq> CHR '','') \<and> length f < 31"

lemma strstr_field:
  "QUOTE \<notin> set f \<Longrightarrow> f = [] \<or> last f \<noteq> CHR '','' \<Longrightarrow>
     strstr (f @ QUOTE # COMMA_QUOTE @ rest) COMMA_QUOTE = Some (length f + 1)"
proof (induction f)
  case Nil
  then show ?case by (simp add: COMMA_QUOTE_def QUOTE_def)
next
  case (Cons c f)
  have "\<not> prefix COMMA_QUOTE ((c # f) @ QUOTE # COMMA_QUOTE @ rest)"
    using Cons.prems by (cases f) (auto simp: COMMA_QUOTE_def QUOTE_def)
  then show ?case using Cons by (auto split: if_splits)
qed

lemma strstr_last:
  "QUOTE \<notin> set f \<Longrightarrow> f = [] \<or> last f \<noteq> CHR '','' \<Longrightarrow> strstr (f @ [QUOTE]) COMMA_QUOTE = None"
proof (induction f)
  case Nil
  then show ?case by (simp add: COMMA_QUOTE_def QUOTE_def)
next
  case (Cons c f)
  have "\<not> prefix COMMA_QUOTE ((c # f) @ [QUOTE])"
    using Cons.prems by (cases f) (auto simp: COMMA_QUOTE_def QUOTE_def)
  then show ?case using Cons by (auto split: if_splits)
qed

lemma strstr_quote: "QUOTE \<notin> set f \<Longrightarrow> strstr (f @ [QUOTE]) [QUOTE] = Some (length f)"
  by (induction f) auto

lemma next_field_inner:
  "plain_field f \<Longrightarrow> next_field (f @ QUOTE # COMMA_QUOTE @ rest) = Some (length f + 1)"
  by (simp add: next_field_def strstr_field plain_field_def)

lemma next_field_last: "plain_field f \<Longrightarrow> next_field (f @ [QUOTE]) = Some (length f)"
  by (simp add: next_field_def strstr_last strstr_quote plain_field_def)

lemma header_loop_field:
  assumes "plain_field f"
  shows "header_loop i (f @ QUOTE # COMMA_QUOTE @ rest) (next_field (f @ QUOTE # COMMA_QUOTE @ rest)) msg
    = header_loop (i + 1) rest (next_field rest) (store_field i (f @ [QUOTE]) msg)"
proof -
  let ?s = "f @ QUOTE # COMMA_QUOTE @ rest"
  have "take (length f + 1) ?s = f @ [QUOTE]" "drop (length f + 1 + 2) ?s = rest" "length f + 1 < length ?s"
    by (simp_all add: COMMA_QUOTE_def)
  then show ?thesis
    by (simp only: next_field_inner [OF assms] header_loop.simps(2) if_True Let_def)
qed

lemma header_loop_last:
  assumes "plain_field f"
  shows "header_loop i (f @ [QUOTE]) (next_field (f @ [QUOTE])) msg = store_field i f msg"
  using assms by (simp add: next_field_last header_loop.simps Let_def) (simp add: next_field_def COMMA_QUOTE_def header_loop.simps)

text \<open>A field is stored without its quote.\<close>

definition put_field :: "nat \<Rightarrow> string \<Rightarrow> SMS_Msg \<Rightarrow> SMS_Msg" where
  "put_field i f msg =
     (if i = 1 then msg\<lparr>sms_idx := strtol0 f\<rparr> else if i = 2 then msg\<lparr>sms_stat := f\<rparr>
      else if i = 3 then msg\<lparr>sms_from := f\<rparr> else if i = 5 then msg\<lparr>sms_time := f\<rparr> else msg)"

lemma store_field_quoted: "plain_field f \<Longrightarrow> store_field i (f @ [QUOTE]) msg = put_field i f msg"
  by (simp add: store_field_def put_field_def plain_field_def)

lemma store_field_plain: "plain_field f \<Longrightarrow> f \<noteq> [] \<Longrightarrow> store_field i f msg = put_field i f msg"
  by (auto simp: store_field_def put_field_def plain_field_def dest: last_in_set)

definition sms_header :: "nat \<Rightarrow> string \<Rightarrow> string \<Rightarrow> string \<Rightarrow> string \<Rightarrow> string" where
  "sms_header idx stat from alpha time =
     show_nat idx @ CHR '','' # quoted stat @ CHR '','' # quoted from @ CHR '','' # quoted alpha @ CHR '','' # quoted time"

lemma header_parsed:
  assumes "int idx \<le> INT_MAX" and "plain_field stat" and "plain_field from" and "plain_field alpha"
    and "plain_field time" and "time \<noteq> []"
  defines "hdr \<equiv> sms_header idx stat from alpha time"
  shows "header_loop 1 hdr (strstr hdr COMMA_QUOTE) msg
    = msg\<lparr>sms_idx := int idx, sms_stat := stat, sms_from := from, sms_time := time\<rparr>"
proof -
  let ?n = "show_nat idx"
  let ?rest = "stat @ QUOTE # COMMA_QUOTE @ from @ QUOTE # COMMA_QUOTE @ alpha @ QUOTE # COMMA_QUOTE @ time @ [QUOTE]"
  have hdr: "hdr = ?n @ COMMA_QUOTE @ ?rest"
    by (simp add: hdr_def sms_header_def quoted_def COMMA_QUOTE_def)
  have digits: "is_digit c" if "c \<in> set ?n" for c using that by (rule show_nat_digits)
  have comma: "CHR '','' \<notin> set ?n" and quote: "QUOTE \<notin> set ?n"
    using digits [of "CHR '',''"] digits [of QUOTE] by (auto simp: is_digit_def QUOTE_def)
  have "strstr hdr COMMA_QUOTE = Some (length ?n)"
    unfolding hdr
  proof (rule strstr_behind)
    show "\<not> sublist COMMA_QUOTE ?n" using comma sublist_set [of COMMA_QUOTE ?n] by (auto simp: COMMA_QUOTE_def)
    show "?n = [] \<or> last ?n \<notin> set COMMA_QUOTE"
      using comma quote by (auto simp: COMMA_QUOTE_def) (metis last_in_set show_nat_nonempty)+
  qed (simp add: COMMA_QUOTE_def)
  moreover have "take (length ?n) hdr = ?n" "drop (length ?n + 2) hdr = ?rest" "length ?n < length hdr"
    by (simp_all add: hdr) (simp_all add: COMMA_QUOTE_def)
  ultimately have "header_loop 1 hdr (strstr hdr COMMA_QUOTE) msg = header_loop 2 ?rest (next_field ?rest) (store_field 1 ?n msg)"
    by (simp only: header_loop.simps(2) if_True Let_def one_add_one)
  also have "store_field 1 ?n msg = msg\<lparr>sms_idx := int idx\<rparr>"
  proof -
    have "idx < 10 ^ 10" using assms(1) by (simp add: INT_MAX_def)
    then have "length ?n \<le> 10" using length_show_nat [of idx 10] by simp
    moreover have "last ?n \<noteq> QUOTE" using quote by (metis last_in_set show_nat_nonempty)
    ultimately show ?thesis using strtol0_show_nat [OF assms(1)] by (simp add: store_field_def)
  qed
  finally show ?thesis
    using assms(2-6)
    by (simp add: header_loop_field header_loop_last store_field_quoted store_field_plain put_field_def)
qed

subsection \<open>The time\<close>

definition two :: "nat \<Rightarrow> string" where
  "two n = show_nat (n div 10) @ show_nat (n mod 10)"

text \<open>Year, month, day, hour, minute, second, and the zone in quarters of an hour with its sign.\<close>

definition stamp :: "nat \<Rightarrow> nat \<Rightarrow> nat \<Rightarrow> nat \<Rightarrow> nat \<Rightarrow> nat \<Rightarrow> bool \<Rightarrow> nat \<Rightarrow> string" where
  "stamp yy mn dd hh mm ss west tz = two yy @ CHR ''/'' # two mn @ CHR ''/'' # two dd @ CHR '','' # two hh @ CHR '':'' #
     two mm @ CHR '':'' # two ss @ (if west then CHR ''-'' else CHR ''+'') # two tz"

lemma two_digits: "n < 100 \<Longrightarrow> two n = [digit (n div 10), digit (n mod 10)]"
  by (simp add: two_def show_nat_small)

lemma scan_two:
  assumes "n < 100" and "rest = [] \<or> \<not> is_digit (hd rest)"
  shows "scan_int (two n @ rest) = Some (int n, rest)"
proof -
  have d: "n div 10 < 10" "n mod 10 < 10" using assms(1) by simp_all
  have "takeWhile is_digit (two n @ rest) = two n"
    using assms d by (cases rest) (simp_all add: two_digits)
  moreover have "dropWhile is_space (two n @ rest) = two n @ rest"
    using d is_digit_not_special [of "digit (n div 10)"] by (simp add: two_digits assms(1))
  moreover have "sign_in (two n @ rest) = (False, two n @ rest)"
    by (rule sign_in_digits) (use d in \<open>simp_all add: two_digits assms(1)\<close>)
  moreover have "number_in 10 (two n) = n" using d by (simp add: two_digits assms(1) number_in_def)
  ultimately show ?thesis using assms(1) by (simp add: scan_int_def INT_MAX_def two_digits)
qed

lemma scan_signed:
  assumes "n < 100"
  shows "scan_int ((if west then CHR ''-'' else CHR ''+'') # two n) = Some (if west then - int n else int n, [])"
proof -
  have d: "n div 10 < 10" "n mod 10 < 10" using assms(1) by simp_all
  then have "takeWhile is_digit (two n) = two n" "number_in 10 (two n) = n"
    by (simp_all add: two_digits assms number_in_def)
  then show ?thesis
    using assms by (simp add: scan_int_def sign_in_def is_space_def INT_MAX_def two_digits)
qed

lemma scan_stamp:
  assumes "yy < 100" "mn < 100" "dd < 100" "hh < 100" "mm < 100" "ss < 100" "tz < 100"
  shows "scan_fields TIME_FORMAT (stamp yy mn dd hh mm ss west tz)
    = Some ([int yy, int mn, int dd, int hh, int mm, int ss, if west then - int tz else int tz], [])"
proof -
  have sep: "\<not> is_digit (CHR ''/'')" "\<not> is_digit (CHR '','')" "\<not> is_digit (CHR '':'')"
    "\<not> is_digit (if west then CHR ''-'' else CHR ''+'')"
    by (simp_all add: is_digit_def)
  show ?thesis
    using assms sep scan_signed [OF assms(7), of west]
    by (simp add: TIME_FORMAT_def stamp_def scan_two)
qed

lemma stamp_plain:
  assumes "yy < 100" "mn < 100" "dd < 100" "hh < 100" "mm < 100" "ss < 100" "tz < 100"
  shows "plain_field (stamp yy mn dd hh mm ss west tz)" "length (stamp yy mn dd hh mm ss west tz) = 20"
proof -
  have no: "digit d \<noteq> QUOTE" "digit d \<noteq> CR" "digit d \<noteq> CHR '',''" if "d < 10" for d
    using digit_is_digit [OF that] by (auto simp: is_digit_def QUOTE_def)
  note no = no no [symmetric]
  show "length (stamp yy mn dd hh mm ss west tz) = 20"
    using assms by (simp add: stamp_def two_digits)
  show "plain_field (stamp yy mn dd hh mm ss west tz)"
    using assms no by (simp add: plain_field_def stamp_def two_digits QUOTE_def)
qed

subsection \<open>The list\<close>

text \<open>A message as the modem stores it.\<close>

record stored_sms =
  st_idx :: nat
  st_stat :: string
  st_from :: string
  st_alpha :: string
  st_body :: string
  st_yy :: nat
  st_mn :: nat
  st_dd :: nat
  st_hh :: nat
  st_mm :: nat
  st_ss :: nat
  st_west :: bool
  st_tz :: nat

definition st_time :: "stored_sms \<Rightarrow> string" where
  "st_time m = stamp (st_yy m) (st_mn m) (st_dd m) (st_hh m) (st_mm m) (st_ss m) (st_west m) (st_tz m)"

definition entry_rest :: "stored_sms \<Rightarrow> string" where
  "entry_rest m = sms_header (st_idx m) (st_stat m) (st_from m) (st_alpha m) (st_time m) @ crlf @ st_body m @ crlf"

definition sms_listing :: "stored_sms list \<Rightarrow> string" where
  "sms_listing ms = crlf @ concat (map (\<lambda>m. CMGL @ entry_rest m) ms) @ crlf @ ''OK'' @ crlf"

definition sms_ok :: "stored_sms \<Rightarrow> bool" where
  "sms_ok m \<longleftrightarrow> int (st_idx m) \<le> INT_MAX \<and> plain_field (st_stat m) \<and> plain_field (st_from m) \<and> plain_field (st_alpha m)
     \<and> (\<forall>n\<in>{st_yy m, st_mn m, st_dd m, st_hh m, st_mm m, st_ss m, st_tz m}. n < 100)
     \<and> CR \<notin> set (st_body m) \<and> \<not> sublist CMGL (entry_rest m)"

text \<open>What the library makes of it; the month goes to \<open>mktime\<close> as it is, counted from one.\<close>

definition delivered_sms :: "(tm \<Rightarrow> int) \<Rightarrow> stored_sms \<Rightarrow> SMS_Msg" where
  "delivered_sms mktime m =
     \<lparr>sms_idx = int (st_idx m), sms_msg = Some (st_body m), sms_stat = st_stat m, sms_from = st_from m,
      sms_time = st_time m,
      time_value = mktime \<lparr>tm_hour = int (st_hh m), tm_min = int (st_mm m), tm_sec = int (st_ss m),
        tm_year = int (st_yy m) + 100, tm_mon = int (st_mn m), tm_mday = int (st_dd m)\<rparr>,
      sms_tz = (if st_west m then - (int (st_tz m) div 4) else int (st_tz m) div 4)\<rparr>"

lemma CMGL_chars: "LF \<notin> set CMGL" "CHR ''+'' \<in> set CMGL" "CMGL \<noteq> []"
  by (simp_all add: CMGL_def)

lemma last_entry_rest: "last (entry_rest m) = LF" "entry_rest m \<noteq> []"
  by (simp_all add: entry_rest_def crlf_def)

lemma strstr_heading:
  assumes "\<not> sublist CMGL pre" and "last pre = LF"
  shows "strstr (pre @ CMGL @ rest) CMGL = Some (length pre)"
  using assms CMGL_chars by (intro strstr_behind) auto

lemma no_heading_left:
  assumes "\<not> sublist CMGL pre" and "last pre = LF"
  shows "strstr (pre @ crlf @ ''OK'' @ crlf) CMGL = None"
proof -
  have "\<not> sublist CMGL (pre @ crlf @ ''OK'' @ crlf)"
  proof
    assume "sublist CMGL (pre @ crlf @ ''OK'' @ crlf)"
    then consider "sublist CMGL (crlf @ ''OK'' @ crlf)"
      | xs ys where "CMGL = xs @ ys" "suffix xs pre" "prefix ys (crlf @ ''OK'' @ crlf)"
      using assms(1) by (auto simp: sublist_append)
    then show False
    proof cases
      case 1
      then show False using sublist_set [OF 1] CMGL_chars(2) by (auto simp: crlf_def)
    next
      case 2
      show False
      proof (cases "xs = []")
        case True
        then have "set CMGL \<subseteq> set (crlf @ ''OK'' @ crlf)" 
          using 2 True set_mono_prefix [of ys "crlf @ ''OK'' @ crlf"] by simp
        then show False using CMGL_chars(2) by (auto simp: crlf_def)
      next
        case False
        then have "last xs = LF" using 2(2) assms(2) by (auto simp: suffix_def)
        then have "LF \<in> set xs" using False last_in_set by metis
        moreover have "set xs \<subseteq> set CMGL" by (simp add: 2(1))
        ultimately show False using CMGL_chars(1) by blast
      qed
    qed
  qed
  then show ?thesis by (simp add: strstr_None)
qed

abbreviation listing_tail :: "stored_sms list \<Rightarrow> string" where
  "listing_tail ms \<equiv> concat (map (\<lambda>m. CMGL @ entry_rest m) ms) @ crlf @ ''OK'' @ crlf"

lemma find_sms_listed:
  assumes "\<not> sublist CMGL pre" and "last pre = LF" and "\<forall>m\<in>set ms. sms_ok m" and "k < length ms"
  shows "\<exists>rest. find_sms (pre @ listing_tail ms) (Suc k) = Some (entry_rest (ms ! k) @ rest)"
  using assms
proof (induction ms arbitrary: pre k)
  case (Cons m ms)
  have found: "strstr (pre @ listing_tail (m # ms)) CMGL = Some (length pre)"
    using strstr_heading [OF Cons.prems(1,2)] by simp
  have next_text: "drop (length pre + 7) (pre @ listing_tail (m # ms)) = entry_rest m @ listing_tail ms"
    by (simp add: drop_append [symmetric] del: drop_append) (simp add: CMGL_def)
  show ?case
  proof (cases k)
    case 0
    then show ?thesis using found next_text by (auto simp del: find_sms.simps simp: find_sms.simps(2) [of _ 0])
  next
    case (Suc j)
    have "\<exists>rest. find_sms (entry_rest m @ listing_tail ms) (Suc j) = Some (entry_rest (ms ! j) @ rest)"
      using Cons.prems Suc last_entry_rest by (intro Cons.IH) (auto simp: sms_ok_def)
    then show ?thesis
      using Suc found next_text by (simp del: find_sms.simps add: find_sms.simps(2) [of _ "Suc j"])
  qed
qed simp

lemma numSMS_listed:
  assumes "\<not> sublist CMGL pre" and "last pre = LF" and "\<forall>m\<in>set ms. sms_ok m"
  shows "numSMS (pre @ listing_tail ms) = length ms"
  using assms
proof (induction ms arbitrary: pre)
  case Nil
  then show ?case using no_heading_left [of pre] by (simp add: numSMS.simps)
next
  case (Cons m ms)
  have found: "strstr (pre @ listing_tail (m # ms)) CMGL = Some (length pre)"
    using strstr_heading [OF Cons.prems(1,2)] by simp
  have next_text: "drop (length pre + 7) (pre @ listing_tail (m # ms)) = entry_rest m @ listing_tail ms"
    by (simp add: drop_append [symmetric] del: drop_append) (simp add: CMGL_def)
  have "numSMS (entry_rest m @ listing_tail ms) = length ms"
    using Cons.prems last_entry_rest by (intro Cons.IH) (auto simp: sms_ok_def)
  then show ?case
    by (subst numSMS.simps) (simp only: found option.case next_text length_Cons)
qed

lemma header_no_CR:
  assumes "sms_ok m"
  shows "CR \<notin> set (sms_header (st_idx m) (st_stat m) (st_from m) (st_alpha m) (st_time m))"
proof -
  have "CR \<notin> set (show_nat (st_idx m))" using show_nat_digits [of CR] by (auto simp: is_digit_def)
  moreover have "plain_field (st_time m)" unfolding st_time_def
    by (rule stamp_plain) (use assms in \<open>simp_all add: sms_ok_def\<close>)
  ultimately show ?thesis
    using assms by (simp add: sms_ok_def plain_field_def sms_header_def quoted_def QUOTE_def)
qed

lemma stored_time:
  assumes "sms_ok m" and "sms_time msg = st_time m"
  shows "store_time mktime msg = Some (msg\<lparr>time_value := time_value (delivered_sms mktime m), sms_tz := sms_tz (delivered_sms mktime m)\<rparr>)"
proof -
  have small: "st_yy m < 100" "st_mn m < 100" "st_dd m < 100" "st_hh m < 100" "st_mm m < 100" "st_ss m < 100" "st_tz m < 100"
    using assms(1) by (simp_all add: sms_ok_def)
  have "sgn (- int n) * (int n div 4) = - (int n div 4)" "sgn (int n) * (int n div 4) = int n div 4" for n
    by (cases "n = 0"; simp)+
  then show ?thesis
    using scan_stamp [OF small, of "st_west m"] stamp_plain(2) [OF small, of "st_west m"]
    by (simp add: store_time_def assms(2) st_time_def delivered_sms_def)
qed

lemma getSMS_entry:
  assumes ok: "sms_ok m" and found: "find_sms s idx = Some (entry_rest m @ rest)" and mem: "\<forall>n w. fst (malloc U n w)"
  shows "\<exists>w'. getSMS U mktime s idx msg w = Some (idx, delivered_sms mktime m, w')"
proof -
  let ?hdr = "sms_header (st_idx m) (st_stat m) (st_from m) (st_alpha m) (st_time m)"
  let ?body = "st_body m @ crlf @ rest"
  have cr: "hd crlf = CR" "crlf \<noteq> []" "length crlf = 2" by (simp_all add: crlf_def)
  have h: "strstr (?hdr @ crlf @ ?body) crlf = Some (length ?hdr)"
    by (rule strstr_head) (use header_no_CR [OF ok] cr in simp_all)
  have b: "strstr ?body crlf = Some (length (st_body m))"
    by (rule strstr_head) (use ok cr in \<open>simp_all add: sms_ok_def\<close>)
  have small: "st_yy m < 100" "st_mn m < 100" "st_dd m < 100" "st_hh m < 100" "st_mm m < 100" "st_ss m < 100" "st_tz m < 100"
    and fields: "int (st_idx m) \<le> INT_MAX" "plain_field (st_stat m)" "plain_field (st_from m)" "plain_field (st_alpha m)"
    using ok by (simp_all add: sms_ok_def)
  have time: "plain_field (st_time m)" "st_time m \<noteq> []"
    using stamp_plain [OF small, of "st_west m"] by (auto simp: st_time_def)
  obtain w' where got: "malloc U (length (st_body m) + 2) w = (True, w')"
    using mem by (metis prod.collapse)
  have listed: "find_sms s idx = Some (?hdr @ crlf @ ?body)"
    using found by (simp add: entry_rest_def)
  have parts: "take (length ?hdr) (?hdr @ crlf @ ?body) = ?hdr" "drop (length ?hdr + 2) (?hdr @ crlf @ ?body) = ?body"
    "take (length (st_body m)) ?body = st_body m"
    using cr(3) by simp_all
  let ?msg = "no_sms\<lparr>sms_msg := Some (st_body m), sms_idx := int (st_idx m), sms_stat := st_stat m,
    sms_from := st_from m, sms_time := st_time m\<rparr>"
  have "getSMS U mktime s idx msg w = do { msg \<leftarrow> store_time mktime ?msg; Some (idx, msg, w') }"
    unfolding getSMS_def listed option.case h parts b Let_def got prod.case header_parsed [OF fields time]
    by simp
  also have "\<dots> = Some (idx, delivered_sms mktime m, w')"
    using stored_time [OF ok, of ?msg mktime] by (simp add: delivered_sms_def no_sms_def)
  finally show ?thesis by blast
qed

text \<open>(C27) The list of messages a modem prints is counted and parsed back into these messages: index, state, sender, time,
  zone and body, for messages without quotes or line ends in them, and without the heading that starts a message.\<close>

theorem sms_listing_roundtrip:
  assumes "\<forall>m\<in>set ms. sms_ok m" and "\<forall>n w. fst (malloc U n w)"
  shows "numSMS (sms_listing ms) = length ms
    \<and> (\<forall>k<length ms. \<exists>w'. getSMS U mktime (sms_listing ms) (k + 1) msg w
        = Some (k + 1, delivered_sms mktime (ms ! k), w'))"
proof -
  have pre: "\<not> sublist CMGL crlf" "last crlf = LF"
    using sublist_set [of CMGL crlf] CMGL_chars(2) by (auto simp: crlf_def)
  have "\<exists>w'. getSMS U mktime (sms_listing ms) (k + 1) msg w = Some (k + 1, delivered_sms mktime (ms ! k), w')"
    if k: "k < length ms" for k
  proof -
    obtain rest where "find_sms (sms_listing ms) (Suc k) = Some (entry_rest (ms ! k) @ rest)"
      using find_sms_listed [OF pre assms(1) k] unfolding sms_listing_def by blast
    moreover have "sms_ok (ms ! k)" using assms(1) k by simp
    ultimately show ?thesis using getSMS_entry assms(2) by (metis Suc_eq_plus1)
  qed
  then show ?thesis using numSMS_listed [OF pre assms(1)] by (simp add: sms_listing_def)
qed

text \<open>Two messages.\<close>

definition hello :: "nat \<Rightarrow> stored_sms" where
  "hello n = \<lparr>st_idx = n, st_stat = ''REC READ'', st_from = ''+85291234567'', st_alpha = [], st_body = ''Hello'',
     st_yy = 21, st_mn = 3, st_dd = 1, st_hh = 12, st_mm = 30, st_ss = 5, st_west = False, st_tz = 8\<rparr>"

lemma hello_ok: "sms_ok (hello 1)" "sms_ok (hello 2)"
  by code_simp+

theorem sms_listing_roundtrip_witness:
  "numSMS (sms_listing [hello 1, hello 2]) = 2
   \<and> (\<exists>w'. getSMS demo_modem (\<lambda>_. 7) (sms_listing [hello 1, hello 2]) 2 no_sms (demo_line []) = Some (2, delivered_sms (\<lambda>_. 7) (hello 2), w'))"
proof -
  have "\<forall>m\<in>set [hello 1, hello 2]. sms_ok m" "\<forall>n w. fst (malloc demo_modem n w)"
    using hello_ok by (simp_all add: demo_modem_def)
  from sms_listing_roundtrip [OF this, of "\<lambda>_. 7" no_sms "demo_line []"] show ?thesis
    by (auto dest: spec [of _ "1::nat"] simp: numeral_2_eq_2)
qed

subsection \<open>Where reading fails\<close>

text \<open>The array of messages is indexed by multiples of the size of a message on top of the pointer arithmetic: from two messages
  on, the second is copied behind its end.\<close>

theorem second_message_outside:
  assumes "\<forall>m\<in>set ms. sms_ok m" and "\<forall>n w. fst (malloc U n w)" and "2 \<le> length ms" and "length ms \<le> 112"
  shows "fill_messages U mktime (sms_listing ms) [0..<numSMS (sms_listing ms)]
      (replicate (numSMS (sms_listing ms)) no_sms) 0 msg w = None"
proof -
  obtain n where n: "length ms = Suc (Suc n)" using assms(3) by (metis add_2_eq_Suc le_Suc_ex)
  have pre: "\<not> sublist CMGL crlf" "last crlf = LF"
    using sublist_set [of CMGL crlf] CMGL_chars(2) by (auto simp: crlf_def)
  have count: "numSMS (sms_listing ms) = length ms"
    using numSMS_listed [OF pre assms(1)] by (simp add: sms_listing_def)
  have get: "\<exists>w'. getSMS U mktime (sms_listing ms) (Suc k) msg w = Some (Suc k, delivered_sms mktime (ms ! k), w')"
    if "k < length ms" for k msg w
    using find_sms_listed [OF pre assms(1) that] getSMS_entry [of "ms ! k"] assms(1,2) that
    unfolding sms_listing_def by (metis nth_mem)
  obtain w1 where one: "getSMS U mktime (sms_listing ms) (Suc 0) msg w = Some (Suc 0, delivered_sms mktime (ms ! 0), w1)"
    using get [of 0] n by auto
  obtain w2 where two: "getSMS U mktime (sms_listing ms) (Suc (Suc 0)) (delivered_sms mktime (ms ! 0)) w1
      = Some (Suc (Suc 0), delivered_sms mktime (ms ! 1), w2)"
    using get [of 1] n by auto
  have upt: "[0..<length ms] = 0 # 1 # [2..<length ms]" by (simp add: n upt_conv_Cons numeral_2_eq_2)
  show ?thesis
    unfolding count upt
    using one two assms(4) by (simp add: sms_put_def SIZEOF_SMS_def n)
qed

theorem second_message_outside_witness:
  "fill_messages demo_modem (\<lambda>_. 7) (sms_listing [hello 1, hello 2]) [0..<numSMS (sms_listing [hello 1, hello 2])]
     (replicate (numSMS (sms_listing [hello 1, hello 2])) no_sms) 0 no_sms (demo_line []) = None"
  by (rule second_message_outside) (use hello_ok in \<open>simp_all add: demo_modem_def\<close>)

text \<open>Asking for the state of the radio collects the answer; as soon as the modem answers, the terminating zero is stored
  through the wrong pointer, and a long answer makes the library resize an array of the stack.\<close>

theorem radio_query_undefined:
  assumes "gsm_status g = GSM_STATE_IDLE" and "send_command U (Some (''AT+CFUN?'' @ crlf)) (- 1) w = Some w1"
    and "fst (uart_read_bytes U 256 (ticks 2000) w1) \<noteq> []"
  shows "gsm_RFOff U g w = None \<and> gsm_RFOn U g w = None"
proof -
  obtain data w2 where "uart_read_bytes U 256 (ticks 2000) w1 = (data, w2)" "data \<noteq> []"
    using assms(3) by (cases "uart_read_bytes U 256 (ticks 2000) w1") auto
  then have "atCmd_readResponse U (Some (''AT+CFUN?'' @ crlf)) (- 1) 2000 False 63 w = None"
    using assms(2)
    by (subst atCmd_readResponse_def) (auto simp: collect_response.simps store_behind_def Let_def split: prod.split)
  then show ?thesis
    using assms(1) by (simp add: gsm_RFOff_def gsm_RFOn_def switch_radio_def)
qed

theorem radio_query_undefined_witness:
  "gsm_RFOff demo_modem (gsm_start\<lparr>gsm_status := GSM_STATE_IDLE\<rparr>) (demo_line [''OK'']) = None"
proof -
  let ?w = "\<lparr>replies = [''OK''], written = [''AT+CFUN?'' @ crlf]\<rparr>"
  have "send_command demo_modem (Some (''AT+CFUN?'' @ crlf)) (- 1) (demo_line [''OK'']) = Some ?w" by code_simp
  then show ?thesis
    using radio_query_undefined [of "gsm_start\<lparr>gsm_status := GSM_STATE_IDLE\<rparr>" demo_modem "demo_line [''OK'']" ?w]
    by (simp add: demo_modem_def)
qed

end
