(* ===== verification/CloudTask.thy ===== *)
theory CloudTask
  imports MqttYield FirmwareSystem
begin

text \<open>
  The task that talks to AWS IoT (\<open>aws_iot_task\<close> of \<open>main.c\<close>, with the handlers it registers):
  it sets up the client, connects until that succeeds, subscribes to the configuration topic, and
  then lets the client work and publishes one reading and one state message per round.

  The world of the client is a record that holds the state \<open>app\<close> the tasks share. The network and the
  platform act on the rest of it; other tasks run while the platform is called, and may change both.
\<close>

record 'x cloud =
  firmware :: app
  net_state :: 'x

text \<open>Two calls of FreeRTOS: waiting for the bit \<open>CONNECT_BIT\<close>, and \<open>vTaskDelay\<close> with its ticks.\<close>

record 'w cloud_calls =
  wait_connected :: "'w \<Rightarrow> 'w option"
  task_delay :: "nat \<Rightarrow> 'w \<Rightarrow> 'w"

record certificates =
  aws_root_ca_pem :: "u8 list"
  certificate_pem_crt :: "u8 list"
  private_pem_key :: "u8 list"

definition c_str :: "string \<Rightarrow> pointer" where
  "c_str s = Some (cstr (bytes_of s))"

definition string_of :: "u8 list \<Rightarrow> string" where
  "string_of bs = map (\<lambda>b. char_of (unat b)) bs"

definition strlen16 :: "string \<Rightarrow> u16" where
  "strlen16 s = of_nat (length s)"

definition AWS_HOST :: string where
  "AWS_HOST = ''aqhwxv05d6bur-ats.iot.us-east-1.amazonaws.com''"

definition AWS_CLIENT_ID :: string where "AWS_CLIENT_ID = ''ESP32_EXO''"

definition AWS_IOT_MQTT_PORT :: u16 where "AWS_IOT_MQTT_PORT = 8883"

definition STATE_TOPIC :: string where "STATE_TOPIC = ''/states''"
definition DATA_TOPIC :: string where "DATA_TOPIC = ''/data''"
definition CONFIG_TOPIC :: string where "CONFIG_TOPIC = ''/configuration''"

subsection \<open>The handlers\<close>

text \<open>
  The client calls a handler by its number; the task registers one of each kind, and does not look at
  the handler's data. The payload is read in the receive buffer of the client.
\<close>

definition subscribe_callback ::
  "esp_env \<Rightarrow> publish_view \<Rightarrow> 'x cloud st \<Rightarrow> 'x cloud st option"
where
  "subscribe_callback env msg s = do {
     payload \<leftarrow> mem_read (Some (drop (in_payload msg) (readBuf (cl s)))) (unat (in_payloadLen msg));
     a \<leftarrow> iot_subscribe_callback_handler env (string_of payload) (firmware (wd s));
     Some (s\<lparr>wd := (wd s)\<lparr>firmware := a\<rparr>\<rparr>)
   }"

definition disconnectCallbackHandler :: "'w platform \<Rightarrow> 'w st \<Rightarrow> 'w st option" where
  "disconnectCallbackHandler P s =
     (if isAutoReconnectEnabled (cl s) then Some s
      else do {
        (rc, s) \<leftarrow> aws_iot_mqtt_attempt_reconnect P s;
        Some s
      })"

text \<open>The platform with the handlers of the firmware. Reconnecting does not call the second handler, which
  is why it may be given the platform without it.\<close>

definition with_subscriber :: "esp_env \<Rightarrow> 'x cloud platform \<Rightarrow> 'x cloud platform" where
  "with_subscriber env P = P\<lparr>message_handler := \<lambda>_ _ msg s. subscribe_callback env msg s\<rparr>"

definition firmware_platform :: "esp_env \<Rightarrow> 'x cloud platform \<Rightarrow> 'x cloud platform" where
  "firmware_platform env P = (with_subscriber env P)\<lparr>disconnect_handler :=
     \<lambda>_ _ s. disconnectCallbackHandler (with_subscriber env P) s\<rparr>"

subsection \<open>Start-up\<close>

definition iotClientInitParamsDefault :: IoT_Client_Init_Params where
  "iotClientInitParamsDefault =
     \<lparr>enableAutoReconnect = True, pHostURL = None, port = 0, pRootCALocation = None,
      pDeviceCertLocation = None, pDevicePrivateKeyLocation = None, mqttPacketTimeout_ms = 2000,
      mqttCommandTimeout_ms = 20000, tlsHandshakeTimeout_ms = 5000, isSSLHostnameVerify = True,
      init_disconnectHandler = None, init_disconnectHandlerData = 0,
      init_isBlockOnThreadLockEnabled = False\<rparr>"

definition mqttInitParams :: "certificates \<Rightarrow> IoT_Client_Init_Params" where
  "mqttInitParams certs = iotClientInitParamsDefault
     \<lparr>enableAutoReconnect := False,
      pHostURL := c_str AWS_HOST,
      port := AWS_IOT_MQTT_PORT,
      pRootCALocation := Some (aws_root_ca_pem certs),
      pDeviceCertLocation := Some (certificate_pem_crt certs),
      pDevicePrivateKeyLocation := Some (private_pem_key certs),
      mqttCommandTimeout_ms := 20000,
      tlsHandshakeTimeout_ms := 5000,
      isSSLHostnameVerify := True,
      init_disconnectHandler := Some 0,
      init_disconnectHandlerData := 0\<rparr>"

definition connectParams :: IoT_Client_Connect_Params where
  "connectParams = default_connect_params
     \<lparr>keepAliveIntervalInSec := 10,
      isCleanSession := True,
      MQTTVersion := MQTT_3_1_1,
      pClientID := c_str AWS_CLIENT_ID,
      clientIDLen := strlen16 AWS_CLIENT_ID,
      isWillMsgPresent := False\<rparr>"

text \<open>\<open>do ... while (SUCCESS != rc)\<close>: there is no limit to the attempts.\<close>

partial_function (option) connect_loop :: "'w platform \<Rightarrow> 'w cloud_calls \<Rightarrow> 'w st \<Rightarrow> 'w st option" where
  "connect_loop P R s = do {
     (rc, s) \<leftarrow> aws_iot_mqtt_connect P (Some connectParams) s;
     if rc \<noteq> SUCCESS then connect_loop P R (s\<lparr>wd := task_delay R 100 (wd s)\<rparr>)
     else Some s
   }"

text \<open>\<open>Inl\<close> is a call of \<open>abort\<close>, with the result code that is its reason.\<close>

definition aws_iot_start ::
  "'w platform \<Rightarrow> 'w cloud_calls \<Rightarrow> certificates \<Rightarrow> 'w st \<Rightarrow> ((IoT_Error_t + IoT_Error_t) \<times> 'w st) option"
where
  "aws_iot_start P R certs s =
     (let (rc, s) = aws_iot_mqtt_init P (mqttInitParams certs) s in
      if rc \<noteq> SUCCESS then Some (Inl rc, s)
      else do {
        w \<leftarrow> wait_connected R (wd s);
        s \<leftarrow> connect_loop P R (s\<lparr>wd := w\<rparr>);
        let s = upd (autoreconnect_set_status True) s;
        (rc, s) \<leftarrow> aws_iot_mqtt_subscribe P (c_str CONFIG_TOPIC) (strlen16 CONFIG_TOPIC) QOS0 (Some 0) 0 s;
        Some (if rc \<noteq> SUCCESS then Inl rc else Inr rc, s)
      })"

subsection \<open>The main loop\<close>

text \<open>The parameters live in one structure; what the task does not set keeps whatever was on the stack.\<close>

definition set_payload :: "string \<Rightarrow> IoT_Publish_Message_Params \<Rightarrow> IoT_Publish_Message_Params" where
  "set_payload v params = params\<lparr>msg_payload := c_str v, msg_payloadLen := of_nat (length v)\<rparr>"

definition update_firmware :: "(app \<Rightarrow> app) \<Rightarrow> 'x cloud st \<Rightarrow> 'x cloud st" where
  "update_firmware f s = s\<lparr>wd := (wd s)\<lparr>firmware := f (firmware (wd s))\<rparr>\<rparr>"

text \<open>
  The reading is taken from the queue, published and freed. \<open>strlen\<close> of the null pointer, or of a block
  that was never written, is undefined.
\<close>

definition publish_data ::
  "'x cloud platform \<Rightarrow> IoT_Error_t \<times> IoT_Publish_Message_Params \<times> 'x cloud st
     \<Rightarrow> (IoT_Error_t \<times> IoT_Publish_Message_Params \<times> 'x cloud st) option"
where
  "publish_data P = (\<lambda>(rc, params, s).
     case Queue_data (firmware (wd s)) of
       [] \<Rightarrow> Some (rc, params, s)
     | read_value # q \<Rightarrow>
         if \<not> energy (firmware (wd s)) then Some (rc, params, s)
         else (case read_value of
           Text v \<Rightarrow> do {
             let s = update_firmware (\<lambda>a. a\<lparr>Queue_data := q\<rparr>) s;
             let params = set_payload v params;
             (rc, s) \<leftarrow> aws_iot_mqtt_publish P (c_str DATA_TOPIC) (strlen16 DATA_TOPIC) (Some params) s;
             Some (rc, params, s)
           }
         | _ \<Rightarrow> None))"

text \<open>The state message overwrites the result code of the reading.\<close>

definition publish_state ::
  "'x cloud platform \<Rightarrow> IoT_Error_t \<times> IoT_Publish_Message_Params \<times> 'x cloud st
     \<Rightarrow> (IoT_Error_t \<times> IoT_Publish_Message_Params \<times> 'x cloud st) option"
where
  "publish_state P = (\<lambda>(rc, params, s).
     case Queue_state (firmware (wd s)) of
       [] \<Rightarrow> Some (rc, params, s)
     | status # q \<Rightarrow> do {
         let s = update_firmware (\<lambda>a. a\<lparr>Queue_state := q\<rparr>) s;
         let params = set_payload status params;
         (rc, s) \<leftarrow> aws_iot_mqtt_publish P (c_str STATE_TOPIC) (strlen16 STATE_TOPIC) (Some params) s;
         Some (rc, params, s)
       })"

text \<open>\<open>0.5 * RATE_MIN * ONE_SEC\<close>, at one hundred ticks a second.\<close>

definition aws_iot_pass ::
  "'x cloud platform \<Rightarrow> 'x cloud cloud_calls \<Rightarrow> IoT_Publish_Message_Params \<times> 'x cloud st
     \<Rightarrow> (IoT_Error_t \<times> IoT_Publish_Message_Params \<times> 'x cloud st) option"
where
  "aws_iot_pass P R = (\<lambda>(params, s). do {
     (rc, s) \<leftarrow> aws_iot_mqtt_yield P 100 s;
     if rc = NETWORK_ATTEMPTING_RECONNECT then Some (rc, params, s)
     else do {
       x \<leftarrow> publish_data P (rc, params, s);
       (rc, params, s) \<leftarrow> publish_state P x;
       Some (rc, params, s\<lparr>wd := task_delay R 500 (wd s)\<rparr>)
     }
   })"

definition loop_goes_on :: "IoT_Error_t \<Rightarrow> bool" where
  "loop_goes_on rc \<longleftrightarrow> rc = NETWORK_ATTEMPTING_RECONNECT \<or> rc = NETWORK_RECONNECTED \<or> rc = SUCCESS"

partial_function (option) aws_iot_loop ::
  "'x cloud platform \<Rightarrow> 'x cloud cloud_calls \<Rightarrow> IoT_Error_t \<Rightarrow> IoT_Publish_Message_Params \<times> 'x cloud st
     \<Rightarrow> (IoT_Error_t \<times> 'x cloud st) option"
where
  "aws_iot_loop P R rc x =
     (if loop_goes_on rc then do {
        (rc, x) \<leftarrow> aws_iot_pass P R x;
        aws_iot_loop P R rc x
      }
      else Some (rc, snd x))"

text \<open>The whole task: whenever it returns it has called \<open>abort\<close>, for the reason it returns.\<close>

definition aws_iot_task ::
  "esp_env \<Rightarrow> 'x cloud platform \<Rightarrow> 'x cloud cloud_calls \<Rightarrow> certificates \<Rightarrow> IoT_Publish_Message_Params
     \<Rightarrow> 'x cloud st \<Rightarrow> (IoT_Error_t \<times> 'x cloud st) option"
where
  "aws_iot_task env P0 R certs paramsQOS0 s =
     (let P = firmware_platform env P0 in do {
        (r, s) \<leftarrow> aws_iot_start P R certs s;
        case r of
          Inl rc \<Rightarrow> Some (rc, s)
        | Inr rc \<Rightarrow> aws_iot_loop P R rc (paramsQOS0\<lparr>msg_qos := QOS0, msg_isRetained := 0\<rparr>, s)
      })"

declare connect_loop.simps [code] aws_iot_loop.simps [code]

end
