(* ===== verification/CloudSample.thy ===== *)
theory CloudSample
  imports CloudTask Liveness
begin

text \<open>
  A world on which the client task runs: the platform of \<open>MqttSample\<close> below the state the tasks share. The broker's
  answers to the connection and the subscription are on the link before they are asked for.
\<close>

definition on_net :: "('x \<Rightarrow> 'a \<times> 'x) \<Rightarrow> 'x cloud \<Rightarrow> 'a \<times> 'x cloud" where
  "on_net f w = (let (r, x) = f (net_state w) in (r, w\<lparr>net_state := x\<rparr>))"

definition demo_cloud :: "link cloud platform" where
  "demo_cloud =
     \<lparr>get_ticks = on_net (get_ticks steady),
      delay_tick = \<lambda>w. w\<lparr>net_state := delay_tick steady (net_state w)\<rparr>,
      mutex_init = \<lambda>m w. (SUCCESS, w), mutex_lock = \<lambda>m w. (SUCCESS, w),
      mutex_trylock = \<lambda>m w. (SUCCESS, w), mutex_unlock = \<lambda>m w. (SUCCESS, w),
      mutex_destroy = \<lambda>m w. (SUCCESS, w),
      net_init = \<lambda>p w. (SUCCESS, w), net_connect = \<lambda>w. (SUCCESS, w),
      net_read = \<lambda>n t w. map_option (\<lambda>(rc, bs, k, t, x). (rc, bs, k, t, w\<lparr>net_state := x\<rparr>)) (link_read n t (net_state w)),
      net_write = \<lambda>bs t w. map_option (\<lambda>(rc, k, t, x). (rc, k, t, w\<lparr>net_state := x\<rparr>)) (link_write bs t (net_state w)),
      net_disconnect = \<lambda>w. (SUCCESS, w),
      net_is_connected = Some (\<lambda>w. (NETWORK_PHYSICAL_LAYER_CONNECTED, w)),
      net_destroy = \<lambda>w. (SUCCESS, w),
      message_handler = \<lambda>f d msg s. Some s, disconnect_handler = \<lambda>f d s. Some s\<rparr>"

text \<open>The same with a link on which every write fails.\<close>

definition dead_cloud :: "link cloud platform" where
  "dead_cloud = demo_cloud\<lparr>net_write := \<lambda>bs t w. Some (NETWORK_SSL_WRITE_ERROR, 0, t, w)\<rparr>"

definition cloud_demo_calls :: "'w cloud_calls" where
  "cloud_demo_calls = \<lparr>wait_connected = Some, task_delay = \<lambda>n w. w\<rparr>"

definition demo_certs :: certificates where
  "demo_certs = \<lparr>aws_root_ca_pem = [], certificate_pem_crt = [], private_pem_key = []\<rparr>"

definition cloud_state :: "client \<Rightarrow> app \<Rightarrow> u8 list \<Rightarrow> link cloud st" where
  "cloud_state c a received = \<lparr>cl = c, tm = init_timer,
     wd = \<lparr>firmware = a, net_state = \<lparr>clock = 0, incoming = received, outgoing = []\<rparr>\<rparr>\<rparr>"

text \<open>The memory of the client before it is set up; its buffers are no longer than this run needs.\<close>

definition fresh_client :: client where
  "fresh_client = idle_client\<lparr>readBuf := replicate 16 0, writeBuf := replicate 80 0\<rparr>"

definition connack_and_suback :: "u8 list" where
  "connack_and_suback = [0x20, 2, 0, 0, 0x90, 3, 0, 2, 0]"

end
