(* ===== verification/MqttWorldFrame.thy ===== *)
theory MqttWorldFrame
  imports MqttFrame MqttYield
begin

text \<open>
  The operations of the MQTT client touch the world only through the platform. Whatever preorder on worlds the
  routines and handlers of the platform keep, every operation of the client keeps: what other tasks do
  to the shared state while the client runs, or the bytes that have been sent so far.
\<close>

definition platform_keeps :: "('w \<Rightarrow> 'w \<Rightarrow> bool) \<Rightarrow> 'w platform \<Rightarrow> bool" where
  "platform_keeps W P \<longleftrightarrow>
     (\<forall>w. W w (snd (get_ticks P w)) \<and> W w (delay_tick P w))
   \<and> (\<forall>m w. W w (snd (mutex_init P m w)) \<and> W w (snd (mutex_lock P m w)) \<and> W w (snd (mutex_trylock P m w))
        \<and> W w (snd (mutex_unlock P m w)) \<and> W w (snd (mutex_destroy P m w)))
   \<and> (\<forall>p w. W w (snd (net_init P p w)))
   \<and> (\<forall>w. W w (snd (net_connect P w)) \<and> W w (snd (net_disconnect P w)) \<and> W w (snd (net_destroy P w)))
   \<and> (\<forall>n t w rc bs k t' w'. net_read P n t w = Some (rc, bs, k, t', w') \<longrightarrow> W w w')
   \<and> (\<forall>bs t w rc k t' w'. net_write P bs t w = Some (rc, k, t', w') \<longrightarrow> W w w')
   \<and> (\<forall>f w. net_is_connected P = Some f \<longrightarrow> W w (snd (f w)))"

definition subscriber_keeps :: "('w \<Rightarrow> 'w \<Rightarrow> bool) \<Rightarrow> 'w platform \<Rightarrow> bool" where
  "subscriber_keeps W P \<longleftrightarrow>
     (\<forall>f d msg s s'. message_handler P f d msg s = Some s' \<longrightarrow> W (wd s) (wd s'))"

definition disconnecter_keeps :: "('w \<Rightarrow> 'w \<Rightarrow> bool) \<Rightarrow> 'w platform \<Rightarrow> bool" where
  "disconnecter_keeps W P \<longleftrightarrow>
     (\<forall>f d s s'. disconnect_handler P f d s = Some s' \<longrightarrow> W (wd s) (wd s'))"

locale world_order =
  fixes W :: "'w \<Rightarrow> 'w \<Rightarrow> bool"
  assumes W_refl: "W w w"
    and W_trans: "W a b \<Longrightarrow> W b c \<Longrightarrow> W a c"
begin

lemma world_steps:
  assumes "platform_keeps W P"
  shows "W w v \<Longrightarrow> W w (snd (get_ticks P v))" "W w v \<Longrightarrow> W w (delay_tick P v)"
    "W w v \<Longrightarrow> W w (snd (mutex_init P m v))" "W w v \<Longrightarrow> W w (snd (mutex_lock P m v))"
    "W w v \<Longrightarrow> W w (snd (mutex_trylock P m v))" "W w v \<Longrightarrow> W w (snd (mutex_unlock P m v))"
    "W w v \<Longrightarrow> W w (snd (mutex_destroy P m v))" "W w v \<Longrightarrow> W w (snd (net_init P p v))"
    "W w v \<Longrightarrow> W w (snd (net_connect P v))" "W w v \<Longrightarrow> W w (snd (net_disconnect P v))"
    "W w v \<Longrightarrow> W w (snd (net_destroy P v))"
  using assms unfolding platform_keeps_def by (meson W_trans)+

lemma world_calls:
  assumes "platform_keeps W P"
  shows "net_read P n t v = Some (rc, bs, k, t', v') \<Longrightarrow> W w v \<Longrightarrow> W w v'"
    "net_write P bs t v = Some (rc, j, t', v') \<Longrightarrow> W w v \<Longrightarrow> W w v'"
    "net_is_connected P = Some g \<Longrightarrow> W w v \<Longrightarrow> W w (snd (g v))"
  using assms unfolding platform_keeps_def by (meson W_trans)+

lemma handler_steps:
  "subscriber_keeps W P \<Longrightarrow> message_handler P f d msg s = Some s' \<Longrightarrow> W w (wd s) \<Longrightarrow> W w (wd s')"
  "disconnecter_keeps W P \<Longrightarrow> disconnect_handler P f d s = Some s' \<Longrightarrow> W w (wd s) \<Longrightarrow> W w (wd s')"
  unfolding subscriber_keeps_def disconnecter_keeps_def by (meson W_trans)+

lemma poll_timer_world:
  assumes "platform_keeps W P" and "W w v"
  shows "W w (snd (snd (poll_timer P t v)))"
  using world_steps [OF assms(1)] assms(2)
  by (auto simp: poll_timer_def split: prod.splits) (metis snd_conv)+

lemma simple_worlds:
  assumes K: "platform_keeps W P" and w: "W w (wd s)"
  shows "W w (wd (snd (poll_tm P s)))" "W w (wd (snd (arm_ms P ms s)))" "W w (wd (snd (arm_sec P ms s)))"
    "W w (wd (start_tm P ms s))" "W w (wd (snd (client_lock_mutex P m s)))"
    "W w (wd (snd (client_unlock_mutex P m s)))"
    "W w (wd (snd (poll_reconnect_timer P s)))" "W w (wd (snd (poll_ping_req_timer P s)))"
    "W w (wd (snd (poll_ping_resp_timer P s)))"
  using world_steps [OF K w] poll_timer_world [OF K w]
  by (auto simp: poll_tm_def arm_ms_def arm_sec_def start_tm_def client_lock_mutex_def client_unlock_mutex_def
      poll_reconnect_timer_def poll_ping_req_timer_def poll_ping_resp_timer_def on_world_eq
      split: prod.splits) (metis snd_conv)+

lemma set_state_world:
  assumes K: "platform_keeps W P" and w: "W w (wd s)"
  shows "W w (wd (snd (set_client_state P x y s)))"
proof -
  let ?s1 = "snd (client_lock_mutex P state_change_mutex s)"
  have s1: "W w (wd ?s1)" by (rule simple_worlds(5) [OF K w])
  have "W w (wd (snd (client_unlock_mutex P state_change_mutex (upd f ?s1))))" for f
    using simple_worlds(6) [OF K] s1 by (metis upd_simps(3))
  moreover have "W w (wd (snd (client_unlock_mutex P state_change_mutex ?s1)))"
    by (rule simple_worlds(6) [OF K s1])
  ultimately show ?thesis
    using s1 by (auto simp: set_client_state_def split: prod.splits) (metis snd_conv)+
qed

text \<open>The same for results that have been taken apart.\<close>

lemma simple_results:
  assumes K: "platform_keeps W P"
  shows "poll_tm P s = (e, s') \<Longrightarrow> W w (wd s) \<Longrightarrow> W w (wd s')"
    "arm_ms P ms s = (t, s') \<Longrightarrow> W w (wd s) \<Longrightarrow> W w (wd s')"
    "arm_sec P ms s = (t, s') \<Longrightarrow> W w (wd s) \<Longrightarrow> W w (wd s')"
    "client_lock_mutex P m s = (rc, s') \<Longrightarrow> W w (wd s) \<Longrightarrow> W w (wd s')"
    "client_unlock_mutex P m s = (rc, s') \<Longrightarrow> W w (wd s) \<Longrightarrow> W w (wd s')"
    "poll_reconnect_timer P s = (e, s') \<Longrightarrow> W w (wd s) \<Longrightarrow> W w (wd s')"
    "poll_ping_req_timer P s = (e, s') \<Longrightarrow> W w (wd s) \<Longrightarrow> W w (wd s')"
    "poll_ping_resp_timer P s = (e, s') \<Longrightarrow> W w (wd s) \<Longrightarrow> W w (wd s')"
    "set_client_state P x y s = (rc, s') \<Longrightarrow> W w (wd s) \<Longrightarrow> W w (wd s')"
  using simple_worlds [OF K] set_state_world [OF K] by (metis snd_conv)+

subsection \<open>Sending and receiving\<close>

lemma send_loop_world:
  assumes K: "platform_keeps W P"
  shows "send_loop P len sent rc s = Some y \<Longrightarrow> W w (wd s) \<Longrightarrow> W w (wd (snd (snd y)))"
  by (induction rule: send_loop_induct)
    (auto intro: simple_results(1) [OF K] world_calls(2) [OF K])

lemma send_packet_world:
  assumes K: "platform_keeps W P" and run: "send_packet P len s = Some (rc, s')" and w: "W w (wd s)"
  shows "W w (wd s')"
proof -
  obtain e s1 where l: "client_lock_mutex P tls_write_mutex s = (e, s1)"
    by (cases "client_lock_mutex P tls_write_mutex s")
  have s1: "W w (wd s1)" by (rule simple_results(4) [OF K l w])
  show ?thesis
  proof (cases "send_loop P len 0 e s1")
    case None
    then show ?thesis using run w s1 by (auto simp: send_packet_def l split: if_splits)
  next
    case (Some y)
    obtain sent rc2 s2 where y: "y = (sent, rc2, s2)" by (cases y)
    obtain e3 s3 where u: "client_unlock_mutex P tls_write_mutex s2 = (e3, s3)"
      by (cases "client_unlock_mutex P tls_write_mutex s2")
    have "W w (wd s3)"
      using simple_results(5) [OF K u] send_loop_world [OF K Some s1] by (simp add: y)
    then show ?thesis
      using run w s1 Some by (auto simp: send_packet_def l y u split: if_splits)
  qed
qed

lemma readWrapper_world:
  assumes K: "platform_keeps W P" and run: "readWrapper P a b s = Some (rc, l, s')" and w: "W w (wd s)"
  shows "W w (wd s')"
  using run w
  by (auto simp: readWrapper_def Let_def Option.bind_eq_Some_conv split: if_splits intro: world_calls [OF K])

lemma remaining_len_world:
  assumes K: "platform_keeps W P"
  shows "remaining_len_loop P len m r s = Some (v, s') \<Longrightarrow> W w (wd s) \<Longrightarrow> W w (wd s')"
proof (induction "4 - len" arbitrary: len m r s rule: less_induct)
  case less
  show ?case
  proof (cases "len < 4")
    case False
    then show ?thesis using less.prems by (simp add: remaining_len_loop.simps)
  next
    case True
    have "remaining_len_loop P (len + 1) m' r' s1 = Some (v, s') \<Longrightarrow> W w (wd s1) \<Longrightarrow> W w (wd s')" for m' r' s1
      using less.hyps [of "len + 1"] True by simp
    then show ?thesis
      using less.prems
      by (auto simp: remaining_len_step [OF True] Option.bind_eq_Some_conv split: if_splits
          dest: readWrapper_world [OF K])
  qed
qed

lemma discard_world:
  assumes K: "platform_keeps W P"
  shows "discard_loop P rem_len rd to_read read_len s = Some y \<Longrightarrow> W w (wd s) \<Longrightarrow> W w (wd (snd (snd y)))"
  by (induction rule: discard_loop_induct) (auto intro: world_calls(1) [OF K])

lemmas discard_result = discard_world [where y = "(rc, t, s')" for rc t s', simplified]

lemma read_packet_world:
  assumes K: "platform_keeps W P" and run: "read_packet P p s = Some (rc, p', s')" and w: "W w (wd s)"
  shows "W w (wd s')"
proof -
  obtain t s0 where a: "arm_ms P (packetTimeoutMs (cl s)) s = (t, s0)" by (cases "arm_ms P (packetTimeoutMs (cl s)) s")
  have s0: "W w (wd s0)" by (rule simple_results(2) [OF K a w])
  obtain rc1 l s1 where h: "readWrapper P 0 1 s0 = Some (rc1, l, s1)"
    using run by (auto simp: read_packet_def a Option.bind_eq_Some_conv)
  have s1: "W w (wd s1)" by (rule readWrapper_world [OF K h s0])
  show ?thesis
  proof (cases "rc1 = SUCCESS")
    case False
    then show ?thesis using run s1 h by (auto simp: read_packet_def a split: if_splits)
  next
    case True
    then obtain v s2 where r: "remaining_len_loop P 0 1 0 s1 = Some (v, s2)"
      using run h by (auto simp: read_packet_def a Option.bind_eq_Some_conv)
    have s2: "W w (wd s2)" by (rule remaining_len_world [OF K r s1])
    show ?thesis
      using run h r True s2
      by (auto simp: read_packet_def a Option.bind_eq_Some_conv split: sum.splits if_splits)
        (blast intro: readWrapper_world [OF K] discard_result [OF K])+
  qed
qed

lemma deliver_loop_world:
  assumes H: "subscriber_keeps W P"
  shows "deliver_loop P msg is s = Some s' \<Longrightarrow> W w (wd s) \<Longrightarrow> W w (wd s')"
proof (induction "is" arbitrary: s)
  case Nil
  then show ?case by simp
next
  case (Cons i "is")
  let ?h = "messageHandlers (cl s) ! i"
  from Cons.prems(1) obtain s1 where s1: "deliver_loop P msg is s1 = Some s'"
    "s1 = s \<or> (\<exists>f s2. message_handler P f (pApplicationHandlerData ?h) msg s = Some s2 \<and> wd s1 = wd s2)"
    by (fastforce simp: Let_def Option.bind_eq_Some_conv split: option.splits if_splits)
  have "W w (wd s1)" using s1(2) handler_steps(1) [OF H] Cons.prems(2) by auto
  then show ?case by (rule Cons.IH [OF s1(1)])
qed

lemma deliver_world:
  assumes K: "platform_keeps W P" and H: "subscriber_keeps W P"
    and run: "deliver_message P msg s = Some (rc, s')" and w: "W w (wd s)"
  shows "W w (wd s')"
proof -
  let ?wait = "CLIENT_STATE_CONNECTED_WAIT_FOR_CB_RETURN"
  obtain e s1 where s1: "set_client_state P (clientState (cl s)) ?wait s = (e, s1)"
    by (cases "set_client_state P (clientState (cl s)) ?wait s")
  obtain s2 where d: "deliver_loop P msg [0..<AWS_IOT_MQTT_NUM_SUBSCRIBE_HANDLERS] s1 = Some s2"
    "set_client_state P ?wait (clientState (cl s)) s2 = (rc, s')"
    using run by (auto simp: deliver_message_def s1 Option.bind_eq_Some_conv)
  have "W w (wd s2)" by (rule deliver_loop_world [OF H d(1) simple_results(9) [OF K s1 w]])
  then show ?thesis by (rule simple_results(9) [OF K d(2)])
qed

lemma handle_publish_world:
  assumes K: "platform_keeps W P" and H: "subscriber_keeps W P"
    and run: "handle_publish P s = Some (rc, s')" and w: "W w (wd s)"
  shows "W w (wd s')"
proof -
  let ?s1 = "start_tm P (commandTimeoutMs (cl s)) s"
  have s1: "W w (wd ?s1)" by (rule simple_worlds(4) [OF K w])
  obtain r where r: "deserialize_publish (readBuf (cl s)) (readBufSize (cl s)) = Some r"
    using run by (auto simp: handle_publish_def Option.bind_eq_Some_conv)
  show ?thesis
  proof (cases r)
    case (Inl e)
    then show ?thesis using run w r by (simp add: handle_publish_def)
  next
    case (Inr msg)
    obtain s2 where s2: "deliver_message P msg s2 = Some (rc, s')"
      "wd s2 = wd s \<or> wd s2 = wd ?s1
         \<or> (\<exists>bs rc3 s3. send_packet P (length bs) (upd (put_packet bs) ?s1) = Some (rc3, s3) \<and> wd s2 = wd s3)"
    proof (cases "in_qos msg = QOS1")
      case False
      then show ?thesis using run r Inr that [of s] by (simp add: handle_publish_def)
    next
      case True
      then obtain i a where ia: "in_id msg = Some i" "serialize_ack (writeBufSize (cl ?s1)) PUBACK 0 i = Some a"
        using run r Inr by (auto simp: handle_publish_def Let_def Option.bind_eq_Some_conv)
      show ?thesis
      proof (cases a)
        case (Inl e)
        then have "deliver_message P msg (?s1\<lparr>tm := tm s\<rparr>) = Some (rc, s')"
          using run r Inr True ia by (simp add: handle_publish_def Let_def)
        then show ?thesis by (rule that) simp
      next
        case a: (Inr bs)
        then obtain rc3 s3 where s3: "send_packet P (length bs) (upd (put_packet bs) ?s1) = Some (rc3, s3)"
          using run r Inr True ia by (auto simp: handle_publish_def Let_def Option.bind_eq_Some_conv)
        then have "deliver_message P msg (s3\<lparr>tm := tm s\<rparr>) = Some (rc, s')"
          using run r Inr True ia a by (simp add: handle_publish_def Let_def)
        moreover have "wd (s3\<lparr>tm := tm s\<rparr>) = wd s3" by simp
        ultimately show ?thesis using s3 that by metis
      qed
    qed
    have "W w (wd s2)" using s2(2) w s1 send_packet_world [OF K] by fastforce
    then show ?thesis by (rule deliver_world [OF K H s2(1)])
  qed
qed

lemma cycle_read_world:
  assumes K: "platform_keeps W P" and H: "subscriber_keeps W P"
    and run: "cycle_read P p s = Some (rc, p', s')" and w: "W w (wd s)"
  shows "W w (wd s')"
proof -
  obtain e s1 where l: "client_lock_mutex P tls_read_mutex s = (e, s1)"
    by (cases "client_lock_mutex P tls_read_mutex s")
  have s1: "W w (wd s1)" by (rule simple_results(4) [OF K l w])
  show ?thesis
  proof (cases "e = SUCCESS")
    case False
    then show ?thesis using run s1 by (simp add: cycle_read_def l)
  next
    case True
    then obtain rc1 p1 s2 where r: "read_packet P p s1 = Some (rc1, p1, s2)"
      using run by (auto simp: cycle_read_def l Option.bind_eq_Some_conv)
    obtain e2 s3 where u: "client_unlock_mutex P tls_read_mutex s2 = (e2, s3)"
      by (cases "client_unlock_mutex P tls_read_mutex s2")
    have "W w (wd s3)" using simple_results(5) [OF K u] read_packet_world [OF K r s1] .
    then show ?thesis
      using run True
      by (auto simp: cycle_read_def l r u Option.bind_eq_Some_conv split: if_splits
          intro: handle_publish_world [OF K H])
  qed
qed

lemma wait_loop_world:
  assumes K: "platform_keeps W P" and H: "subscriber_keeps W P"
  shows "wait_loop P t p s = Some y \<Longrightarrow> W w (wd s) \<Longrightarrow> W w (wd (snd y))"
  by (induction rule: wait_loop_induct)
    (auto intro: simple_results(1) [OF K] cycle_read_world [OF K H])

subsection \<open>Commands\<close>

lemma await_world:
  assumes K: "platform_keeps W P" and H: "subscriber_keeps W P"
    and run: "await_answer P t dec s = Some (r, s')" and w: "W w (wd s)"
  shows "W w (wd s')"
proof -
  obtain rc s1 where r: "wait_for_read P (msg_code t) s = Some (rc, s1)"
    using run by (auto simp: await_answer_def Option.bind_eq_Some_conv)
  then have "s' = s1" using run by (auto simp: await_answer_def Option.bind_eq_Some_conv split: if_splits)
  then show ?thesis using wait_loop_world [OF K H r [unfolded wait_for_read_def] w] by simp
qed

lemma send_and_await_world:
  assumes K: "platform_keeps W P" and H: "subscriber_keeps W P"
    and run: "send_and_await P len t dec s = Some (r, s')" and w: "W w (wd s)"
  shows "W w (wd s')"
  using run w
  by (auto simp: send_and_await_def Option.bind_eq_Some_conv split: if_splits)
    (blast intro: await_world [OF K H] send_packet_world [OF K])+

lemma exchange_world:
  assumes K: "platform_keeps W P" and H: "subscriber_keeps W P"
    and run: "exchange P packet t dec s = Some (r, s')" and w: "W w (wd s)"
  shows "W w (wd s')"
proof -
  obtain p where p: "packet = Some p" using run by (auto simp: exchange_def Option.bind_eq_Some_conv)
  show ?thesis
  proof (cases p)
    case (Inl e)
    then show ?thesis using run p w by (simp add: exchange_def)
  next
    case (Inr bs)
    then have "send_and_await P (length bs) t dec (upd (put_packet bs) s) = Some (r, s')"
      using run p by (simp add: exchange_def)
    then show ?thesis by (rule send_and_await_world [OF K H]) (simp add: w)
  qed
qed

lemma send_serialized_world:
  assumes K: "platform_keeps W P" and run: "send_serialized P packet s = Some (rc, s')" and w: "W w (wd s)"
  shows "W w (wd s')"
proof -
  obtain p where p: "packet = Some p" using run by (auto simp: send_serialized_def Option.bind_eq_Some_conv)
  show ?thesis
  proof (cases p)
    case (Inl e)
    then show ?thesis using run p w by (simp add: send_serialized_def)
  next
    case (Inr bs)
    then have "send_packet P (length bs) (upd (put_packet bs) s) = Some (rc, s')"
      using run p by (simp add: send_serialized_def)
    then show ?thesis by (rule send_packet_world [OF K]) (simp add: w)
  qed
qed

lemma take_packet_id_world: "take_packet_id s = (i, s') \<Longrightarrow> wd s' = wd s"
  by (auto simp: take_packet_id_def split: prod.splits)

lemma with_timer_world:
  assumes K: "platform_keeps W P" and run: "with_timer P body s = Some (r, s')" and w: "W w (wd s)"
    and body: "\<And>s r s'. body s = Some (r, s') \<Longrightarrow> W w (wd s) \<Longrightarrow> W w (wd s')"
  shows "W w (wd s')"
  using run body [OF _ simple_worlds(4) [OF K w]]
  by (auto simp: with_timer_def Option.bind_eq_Some_conv)

lemma publish_exchange_world:
  assumes K: "platform_keeps W P" and H: "subscriber_keeps W P"
    and run: "publish_exchange P name n params s = Some (r, s')" and w: "W w (wd s)"
  shows "W w (wd s')"
proof -
  obtain params1 s1 where c: "choose_packet_id params s = (params1, s1)" by (cases "choose_packet_id params s")
  have "wd s1 = wd s"
    using c take_packet_id_world by (fastforce simp: choose_packet_id_def split: if_splits prod.splits)
  then show ?thesis
    using run w exchange_world [OF K H, where s = s1] send_serialized_world [OF K, where s = s1]
    by (auto simp: publish_exchange_def c Let_def Option.bind_eq_Some_conv split: if_splits)
qed

lemma enter_operation_world:
  assumes K: "platform_keeps W P" and run: "enter_operation P busy body s = Some (rc, s')" and w: "W w (wd s)"
    and body: "\<And>s r s'. body s = Some (r, s') \<Longrightarrow> W w (wd s) \<Longrightarrow> W w (wd s')"
  shows "W w (wd s')"
proof -
  obtain e s1 where s1: "set_client_state P (clientState (cl s)) busy s = (e, s1)"
    by (cases "set_client_state P (clientState (cl s)) busy s")
  have w1: "W w (wd s1)" by (rule simple_results(9) [OF K s1 w])
  show ?thesis
  proof (cases "e = SUCCESS")
    case False
    then show ?thesis using run w1 by (simp add: enter_operation_def s1)
  next
    case True
    then obtain r s2 where b: "body s1 = Some (r, s2)"
      using run by (auto simp: enter_operation_def s1 Option.bind_eq_Some_conv)
    have "s' = snd (set_client_state P busy (clientState (cl s)) s2)"
      using run True by (auto simp: enter_operation_def s1 b split: prod.splits)
    then show ?thesis using set_state_world [OF K body [OF b w1]] by simp
  qed
qed

lemma publish_world:
  assumes K: "platform_keeps W P" and H: "subscriber_keeps W P"
    and run: "aws_iot_mqtt_publish P name n params s = Some (rc, s')" and w: "W w (wd s)"
  shows "W w (wd s')"
proof -
  have body: "W w (wd s2)"
    if "do { ((rc, _), s) \<leftarrow> internal_publish P name n p s1; Some (rc, s) } = Some (r, s2)" "W w (wd s1)" for p s1 r s2
    using that with_timer_world [OF K _ that(2)] publish_exchange_world [OF K H]
    by (fastforce simp: internal_publish_def Option.bind_eq_Some_conv)
  show ?thesis
    using run w enter_operation_world [OF K _ w] body
    by (auto simp: aws_iot_mqtt_publish_def split: option.splits if_splits)
qed

text \<open>A publish of quality of service 0 waits for no answer, so no handler runs.\<close>

lemma publish0_world:
  assumes K: "platform_keeps W P" and qos: "msg_qos params = QOS0"
    and run: "aws_iot_mqtt_publish P name n (Some params) s = Some (rc, s')" and w: "W w (wd s)"
  shows "W w (wd s')"
proof -
  have exchange: "W w (wd s2)" if "publish_exchange P name n params s1 = Some (r, s2)" "W w (wd s1)" for s1 r s2
    using that qos send_serialized_world [OF K, where s = s1]
    by (auto simp: publish_exchange_def choose_packet_id_def Let_def Option.bind_eq_Some_conv)
  have body: "W w (wd s2)"
    if "do { ((rc, _), s) \<leftarrow> internal_publish P name n params s1; Some (rc, s) } = Some (r, s2)" "W w (wd s1)" for s1 r s2
    using that with_timer_world [OF K _ that(2)] exchange
    by (fastforce simp: internal_publish_def Option.bind_eq_Some_conv)
  show ?thesis
    using run w enter_operation_world [OF K _ w] body
    by (auto simp: aws_iot_mqtt_publish_def split: option.splits if_splits)
qed

lemma subscribe_exchange_world:
  assumes K: "platform_keeps W P" and H: "subscriber_keeps W P"
    and run: "subscribe_exchange P name n q h d s = Some (rc, s')" and w: "W w (wd s)"
  shows "W w (wd s')"
proof -
  obtain i s1 where s1: "take_packet_id s = (i, s1)" by (cases "take_packet_id s")
  have w1: "W w (wd s1)" using take_packet_id_world [OF s1] w by simp
  obtain p where p: "serialize_subscribe (writeBufSize (cl s1)) 0 i [(name, n, q)] = Some p"
    using run by (auto simp: subscribe_exchange_def s1 Option.bind_eq_Some_conv)
  show ?thesis
  proof (cases p)
    case (Inl e)
    then show ?thesis using run p w1 by (simp add: subscribe_exchange_def s1)
  next
    case (Inr bs)
    let ?s2 = "upd (put_packet bs) s1"
    show ?thesis
    proof (cases "AWS_IOT_MQTT_NUM_SUBSCRIBE_HANDLERS \<le> get_free_message_handler_index (cl ?s2)")
      case True
      then show ?thesis using run p Inr w1 by (auto simp: subscribe_exchange_def s1)
    next
      case False
      then obtain r s3 where r: "send_and_await P (length bs) SUBACK granted_one ?s2 = Some (r, s3)"
        using run p Inr by (auto simp: subscribe_exchange_def s1 Let_def Option.bind_eq_Some_conv)
      moreover have "wd s' = wd s3"
        using run p Inr False r by (auto simp: subscribe_exchange_def s1 Let_def split: sum.splits)
      ultimately show ?thesis using send_and_await_world [OF K H r] w1 by simp
    qed
  qed
qed

lemma subscribe_world:
  assumes K: "platform_keeps W P" and H: "subscriber_keeps W P"
    and run: "aws_iot_mqtt_subscribe P name n q h d s = Some (rc, s')" and w: "W w (wd s)"
  shows "W w (wd s')"
proof -
  have body: "W w (wd s2)" if "internal_subscribe P name n q h d s1 = Some (r, s2)" "W w (wd s1)" for s1 r s2
    using with_timer_world [OF K that(1) [unfolded internal_subscribe_def] that(2)] subscribe_exchange_world [OF K H]
    by blast
  show ?thesis
    using run w enter_operation_world [OF K _ w, of _ "internal_subscribe P name n q h d"] body
    by (auto simp: aws_iot_mqtt_subscribe_def split: if_splits)
qed

lemma resubscribe_exchange_world:
  assumes K: "platform_keeps W P" and H: "subscriber_keeps W P"
    and run: "resubscribe_exchange P i s = Some (rc, s')" and w: "W w (wd s)"
  shows "W w (wd s')"
proof -
  obtain k s1 where s1: "take_packet_id s = (k, s1)" by (cases "take_packet_id s")
  have w1: "W w (wd s1)" using take_packet_id_world [OF s1] w by simp
  let ?h = "messageHandlers (cl s1) ! i"
  let ?p = "serialize_subscribe (writeBufSize (cl s1)) 0 k [(topicName ?h, topicNameLen ?h, handler_qos ?h)]"
  obtain r s2 where r: "exchange P ?p SUBACK granted_one s1 = Some (r, s2)"
    using run by (auto simp: resubscribe_exchange_def s1 Let_def Option.bind_eq_Some_conv)
  moreover have "wd s' = wd s2"
    using run r by (auto simp: resubscribe_exchange_def s1 Let_def split: sum.splits)
  ultimately show ?thesis using exchange_world [OF K H _ w1] by simp
qed

lemma resubscribe_loop_world:
  assumes K: "platform_keeps W P" and H: "subscriber_keeps W P"
  shows "resubscribe_loop P is s = Some (rc, s') \<Longrightarrow> W w (wd s) \<Longrightarrow> W w (wd s')"
proof (induction "is" arbitrary: s)
  case Nil
  then show ?case by simp
next
  case (Cons i "is")
  show ?case
  proof (cases "topicName (messageHandlers (cl s) ! i) = None \<or> resubscribed (messageHandlers (cl s) ! i)")
    case True
    then show ?thesis using Cons.prems Cons.IH [of s] by (simp add: Let_def)
  next
    case False
    then obtain r s1 where r: "with_timer P (resubscribe_exchange P i) s = Some (r, s1)"
      using Cons.prems by (auto simp: Option.bind_eq_Some_conv)
    have "W w (wd s1)"
      using with_timer_world [OF K r Cons.prems(2)] resubscribe_exchange_world [OF K H] by blast
    then show ?thesis using Cons.prems Cons.IH [of s1] False r by (auto split: if_splits)
  qed
qed

lemma resubscribe_world:
  assumes K: "platform_keeps W P" and H: "subscriber_keeps W P"
    and run: "aws_iot_mqtt_resubscribe P s = Some (rc, s')" and w: "W w (wd s)"
  shows "W w (wd s')"
proof -
  let ?busy = "CLIENT_STATE_CONNECTED_RESUBSCRIBE_IN_PROGRESS"
  obtain e s1 where s1: "(if clientState (cl s) = CLIENT_STATE_CONNECTED_IDLE
      then set_client_state P CLIENT_STATE_CONNECTED_IDLE ?busy s else (SUCCESS, s)) = (e, s1)"
    by (cases "if clientState (cl s) = CLIENT_STATE_CONNECTED_IDLE
      then set_client_state P CLIENT_STATE_CONNECTED_IDLE ?busy s else (SUCCESS, s)")
  have w1: "W w (wd s1)" using s1 w simple_results(9) [OF K] by (auto split: if_splits)
  consider "s' = s" | "s' = s1"
    | r s2 where "internal_resubscribe P s1 = Some (r, s2)"
        "s' = s2 \<or> s' = snd (set_client_state P ?busy CLIENT_STATE_CONNECTED_IDLE s2)"
    using run by (auto simp: aws_iot_mqtt_resubscribe_def s1 Let_def Option.bind_eq_Some_conv
        split: if_split_asm)
  then show ?thesis
  proof cases
    case (3 r s2)
    then have "W w (wd s2)" using resubscribe_loop_world [OF K H] w1 unfolding internal_resubscribe_def by blast
    then show ?thesis using 3(2) set_state_world [OF K] by auto
  qed (simp_all add: w w1)
qed

subsection \<open>Connecting and disconnecting\<close>

lemma connect_exchange_world:
  assumes K: "platform_keeps W P" and H: "subscriber_keeps W P"
    and run: "connect_exchange P s = Some (rc, s')" and w: "W w (wd s)"
  shows "W w (wd s')"
proof -
  let ?s = "upd (\<lambda>c. c\<lparr>keepAliveInterval := keepAliveIntervalInSec (options c)\<rparr>) s"
  let ?p = "serialize_connect (writeBufSize (cl ?s)) (options (cl ?s))"
  obtain r s1 where r: "exchange P ?p CONNACK deserialize_connack ?s = Some (r, s1)"
    using run by (auto simp: connect_exchange_def Let_def Option.bind_eq_Some_conv)
  have w1: "W w (wd s1)" by (rule exchange_world [OF K H r]) (simp add: w)
  let ?s2 = "upd (isPingOutstanding_update (\<lambda>_. False)) s1"
  have "wd s' = wd s1 \<or> wd s' = wd (snd (arm_sec P (ucast (keepAliveInterval (cl ?s2))) ?s2))"
    using run r by (auto simp: connect_exchange_def Let_def split: sum.splits prod.splits if_splits)
  then show ?thesis using w1 simple_worlds(3) [OF K, of w ?s2] by auto
qed

lemma internal_connect_world:
  assumes K: "platform_keeps W P" and H: "subscriber_keeps W P"
    and run: "internal_connect P p s = Some (rc, s')" and w: "W w (wd s)"
  shows "W w (wd s')"
proof -
  let ?s = "case p of None \<Rightarrow> s | Some p \<Rightarrow> upd (set_connect_params p) s"
  let ?s1 = "?s\<lparr>wd := snd (net_connect P (wd ?s))\<rparr>"
  have "wd ?s = wd s" by (simp split: option.splits)
  then have w1: "W w (wd ?s1)" using world_steps(9) [OF K w] by simp
  have "s' = ?s1 \<or> with_timer P (connect_exchange P) ?s1 = Some (rc, s')"
    using run by (auto simp: internal_connect_def on_world_eq Let_def split: if_splits)
  then show ?thesis
  proof
    assume "with_timer P (connect_exchange P) ?s1 = Some (rc, s')"
    then show ?thesis by (rule with_timer_world [OF K _ w1 connect_exchange_world [OF K H]])
  qed (use w1 in simp)
qed

lemma connect_world:
  assumes K: "platform_keeps W P" and H: "subscriber_keeps W P"
    and run: "aws_iot_mqtt_connect P p s = Some (rc, s')" and w: "W w (wd s)"
  shows "W w (wd s')"
proof -
  define s0 where "s0 = upd flushBuffers s"
  have w0: "W w (wd s0)" by (simp add: s0_def w)
  note run = run [unfolded aws_iot_mqtt_connect_def, folded s0_def]
  show ?thesis
  proof (cases "is_client_state_valid_for_connect (clientState (cl s0))")
    case False
    then show ?thesis using run w0 by (auto simp: Let_def)
  next
    case True
    obtain e s1 where s1: "set_client_state P (clientState (cl s0)) CLIENT_STATE_CONNECTING s0 = (e, s1)"
      by (cases "set_client_state P (clientState (cl s0)) CLIENT_STATE_CONNECTING s0")
    have w1: "W w (wd s1)" by (rule simple_results(9) [OF K s1 w0])
    obtain r s2 where i: "internal_connect P p s1 = Some (r, s2)"
      using run True by (auto simp: s1 Let_def Option.bind_eq_Some_conv)
    have w2: "W w (wd s2)" by (rule internal_connect_world [OF K H i w1])
    let ?s3 = "s2\<lparr>wd := snd (net_disconnect P (wd s2))\<rparr>"
    let ?s4 = "?s3\<lparr>wd := snd (net_destroy P (wd ?s3))\<rparr>"
    have w4: "W w (wd ?s4)" using world_steps(10,11) [OF K] w2 by simp
    have "s' = ?s4 \<or> s' = snd (set_client_state P CLIENT_STATE_CONNECTING CLIENT_STATE_DISCONNECTED_ERROR ?s4)
        \<or> s' = snd (set_client_state P CLIENT_STATE_CONNECTING CLIENT_STATE_CONNECTED_IDLE s2)"
      using run True
      by (auto simp: s1 Let_def i on_world_eq split: if_splits prod.splits)
    then show ?thesis using w4 set_state_world [OF K w4] set_state_world [OF K w2] by blast
  qed
qed

lemma internal_disconnect_world:
  assumes K: "platform_keeps W P" and run: "internal_disconnect P s = Some (rc, s')" and w: "W w (wd s)"
  shows "W w (wd s')"
proof -
  obtain p where p: "serialize_zero (writeBufSize (cl s)) DISCONNECT = Some p"
    using run by (auto simp: internal_disconnect_def Option.bind_eq_Some_conv)
  show ?thesis
  proof (cases p)
    case (Inl e)
    then show ?thesis using run p w by (simp add: internal_disconnect_def)
  next
    case (Inr bs)
    then obtain r s1 where t: "with_timer P (send_packet P (length bs)) (upd (put_packet bs) s) = Some (r, s1)"
      using run p by (auto simp: internal_disconnect_def Option.bind_eq_Some_conv)
    have "W w (wd s1)" by (rule with_timer_world [OF K t]) (auto simp: w intro: send_packet_world [OF K])
    then have "W w (snd (net_destroy P (snd (net_disconnect P (wd s1)))))"
      using world_steps(10,11) [OF K] by blast
    then show ?thesis
      using run p Inr t by (auto simp: internal_disconnect_def on_world_eq)
  qed
qed

lemma disconnect_world:
  assumes K: "platform_keeps W P" and run: "aws_iot_mqtt_disconnect P s = Some (rc, s')" and w: "W w (wd s)"
  shows "W w (wd s')"
proof -
  obtain e s1 where s1: "set_client_state P (clientState (cl s)) CLIENT_STATE_DISCONNECTING s = (e, s1)"
    by (cases "set_client_state P (clientState (cl s)) CLIENT_STATE_DISCONNECTING s")
  have w1: "W w (wd s1)" by (rule simple_results(9) [OF K s1 w])
  consider "s' = s" | "s' = s1" | r s2 where "internal_disconnect P s1 = Some (r, s2)" "wd s' = wd s2"
    using run by (auto simp: aws_iot_mqtt_disconnect_def s1 Let_def Option.bind_eq_Some_conv split: if_split_asm)
  then show ?thesis by cases (auto simp: w w1 internal_disconnect_world [OF K _ w1])
qed

lemma attempt_reconnect_world:
  assumes K: "platform_keeps W P" and H: "subscriber_keeps W P"
    and run: "aws_iot_mqtt_attempt_reconnect P s = Some (rc, s')" and w: "W w (wd s)"
  shows "W w (wd s')"
proof -
  have resub: "W w (wd s2)"
    if "do { (rc, s) \<leftarrow> aws_iot_mqtt_resubscribe P s1;
          Some (if rc \<noteq> SUCCESS then NETWORK_ATTEMPTING_RECONNECT else NETWORK_RECONNECTED, s) } = Some (r, s2)"
      "W w (wd s1)" for s1 r s2
    using that resubscribe_world [OF K H] by (auto simp: Option.bind_eq_Some_conv)
  show ?thesis
  proof (cases "is_client_connected (cl s)")
    case True
    then show ?thesis
      using run w resub [of s] by (simp add: aws_iot_mqtt_attempt_reconnect_def split: if_splits)
  next
    case False
    then obtain r s1 where c: "aws_iot_mqtt_connect P None s = Some (r, s1)"
      using run by (auto simp: aws_iot_mqtt_attempt_reconnect_def Option.bind_eq_Some_conv)
    have w1: "W w (wd s1)" by (rule connect_world [OF K H c w])
    have "W w (wd (snd (set_client_state P x y s1)))" for x y by (rule set_state_world [OF K w1])
    then show ?thesis
      using run False c w1 resub [of s1]
      by (auto simp: aws_iot_mqtt_attempt_reconnect_def split: if_splits prod.splits) (metis snd_conv)
  qed
qed

subsection \<open>The background work\<close>

lemma handle_disconnect_world:
  assumes K: "platform_keeps W P" and D: "disconnecter_keeps W P"
    and run: "handle_disconnect P s = Some (rc, s')" and w: "W w (wd s)"
  shows "W w (wd s')"
proof -
  obtain r s1 where d: "aws_iot_mqtt_disconnect P s = Some (r, s1)"
    using run by (auto simp: handle_disconnect_def Option.bind_eq_Some_conv)
  have w1: "W w (wd s1)" by (rule disconnect_world [OF K d w])
  define s2 where "s2 = upd (clientState_update (\<lambda>_. CLIENT_STATE_DISCONNECTED_ERROR))
    (if r \<noteq> SUCCESS then force_client_disconnect P s1 else s1)"
  have w2: "W w (wd s2)"
    using w1 world_steps(10,11) [OF K] by (simp add: s2_def force_client_disconnect_def on_world_eq)
  note run = run [unfolded handle_disconnect_def d Option.bind.simps prod.case Let_def, folded s2_def]
  show ?thesis
  proof (cases "disconnectHandler (cl s2)")
    case None
    then show ?thesis using run w2 by (auto split: if_splits)
  next
    case (Some h)
    then obtain s3 where h: "disconnect_handler P h (disconnectHandlerData (cl s2)) s2 = Some s3"
      using run by (auto simp: Option.bind_eq_Some_conv)
    then have "wd s' = wd s3" using run Some by (auto split: if_splits)
    then show ?thesis using handler_steps(2) [OF D h w2] by simp
  qed
qed

lemma back_off_world:
  assumes K: "platform_keeps W P" and w: "W w (wd s)"
  shows "W w (wd (snd (back_off P rc s)))"
proof -
  let ?s = "upd (currentReconnectWaitInterval_update (\<lambda>i. i * 2)) s"
  have "W w (wd (snd (arm_ms P (currentReconnectWaitInterval (cl ?s)) ?s)))"
    by (rule simple_worlds(2) [OF K]) (simp add: w)
  then show ?thesis using w by (auto simp: back_off_def Let_def split: prod.splits)
qed

lemma handle_reconnect_world:
  assumes K: "platform_keeps W P" and H: "subscriber_keeps W P"
    and run: "handle_reconnect P s = Some (rc, s')" and w: "W w (wd s)"
  shows "W w (wd s')"
proof -
  obtain e s1 where p: "poll_reconnect_timer P s = (e, s1)" by (cases "poll_reconnect_timer P s")
  have w1: "W w (wd s1)" by (rule simple_results(6) [OF K p w])
  obtain c s2 where c: "(case net_is_connected P of None \<Rightarrow> (NETWORK_PHYSICAL_LAYER_DISCONNECTED, s1)
      | Some f \<Rightarrow> on_world f s1) = (c, s2)"
    by (cases "case net_is_connected P of None \<Rightarrow> (NETWORK_PHYSICAL_LAYER_DISCONNECTED, s1)
      | Some f \<Rightarrow> on_world f s1")
  have w2: "W w (wd s2)"
    using c w1 world_calls(3) [OF K _ w1] by (auto simp: on_world_eq split: option.splits)
  note run = run [unfolded handle_reconnect_def p Let_def prod.case c]
  show ?thesis
  proof (cases "e \<and> c = NETWORK_PHYSICAL_LAYER_CONNECTED")
    case False
    then have "s' = s1 \<or> s' = snd (back_off P c s2)" using run by (auto split: if_splits)
    then show ?thesis using w1 back_off_world [OF K w2] by auto
  next
    case True
    then obtain r s3 where r: "aws_iot_mqtt_attempt_reconnect P s2 = Some (r, s3)"
      using run by (auto simp: Option.bind_eq_Some_conv)
    have w3: "W w (wd s3)" by (rule attempt_reconnect_world [OF K H r w2])
    have "s' = snd (set_client_state P CLIENT_STATE_CONNECTED_IDLE CLIENT_STATE_CONNECTED_YIELD_IN_PROGRESS s3)
        \<or> s' = snd (back_off P r s3)"
      using run True by (auto simp: r split: if_splits prod.splits)
    then show ?thesis using back_off_world [OF K w3] set_state_world [OF K w3] by auto
  qed
qed

lemma keep_alive_world:
  assumes K: "platform_keeps W P" and D: "disconnecter_keeps W P"
    and run: "keep_alive P s = Some (rc, s')" and w: "W w (wd s)"
  shows "W w (wd s')"
proof (cases "keepAliveInterval (cl s) = 0")
  case True
  then show ?thesis using run w by (simp add: keep_alive_def)
next
  case on: False
  show ?thesis
  proof (cases "isPingOutstanding (cl s)")
    case True
    obtain e s1 where p: "poll_ping_resp_timer P s = (e, s1)" by (cases "poll_ping_resp_timer P s")
    have "W w (wd s1)" by (rule simple_results(8) [OF K p w])
    then show ?thesis
      using run on True handle_disconnect_world [OF K D] by (auto simp: keep_alive_def p split: if_splits)
  next
    case False
    obtain e s1 where p: "poll_ping_req_timer P s = (e, s1)" by (cases "poll_ping_req_timer P s")
    have w1: "W w (wd s1)" by (rule simple_results(7) [OF K p w])
    show ?thesis
    proof (cases e)
      case False
      then show ?thesis using run on \<open>\<not> isPingOutstanding (cl s)\<close> w1 by (simp add: keep_alive_def p)
    next
      case True
      define ping where "ping = with_timer P (\<lambda>s. do {
            packet \<leftarrow> serialize_zero (writeBufSize (cl s)) PINGREQ;
            case packet of
              Inl rc \<Rightarrow> Some (Inl rc, s)
            | Inr bs \<Rightarrow> do {
                (rc, s) \<leftarrow> send_packet P (length bs) (upd (put_packet bs) s);
                Some (Inr rc, s)
              }
          }) s1"
      note run = run [unfolded keep_alive_def p Let_def prod.case, folded ping_def]
      obtain r s2 where r: "ping = Some (r, s2)"
        using run on \<open>\<not> isPingOutstanding (cl s)\<close> True by (auto simp: Option.bind_eq_Some_conv)
      have body: "W w (wd s4)" if "do {
            packet \<leftarrow> serialize_zero (writeBufSize (cl s3)) PINGREQ;
            case packet of
              Inl rc \<Rightarrow> Some (Inl rc, s3)
            | Inr bs \<Rightarrow> do {
                (rc, s) \<leftarrow> send_packet P (length bs) (upd (put_packet bs) s3);
                Some (Inr rc, s)
              }
          } = Some (x, s4)" "W w (wd s3)" for x s3 s4
      proof (cases "serialize_zero (writeBufSize (cl s3)) PINGREQ")
        case (Some packet)
        then show ?thesis
          using that send_packet_world [OF K, where s = "upd (put_packet bs) s3" for bs]
          by (cases packet) (auto simp: Option.bind_eq_Some_conv)
      qed (use that in simp)
      have w2: "W w (wd s2)" using with_timer_world [OF K r [unfolded ping_def] w1] body by blast
      define s3 where "s3 = upd (isPingOutstanding_update (\<lambda>_. True)) s2"
      obtain t1 s4 where s4: "arm_sec P (ucast (keepAliveInterval (cl s3))) s3 = (t1, s4)"
        by (cases "arm_sec P (ucast (keepAliveInterval (cl s3))) s3")
      define s5 where "s5 = upd (pingRespTimer_update (\<lambda>_. t1)) s4"
      obtain t2 s6 where s6: "arm_sec P (ucast (keepAliveInterval (cl s5))) s5 = (t2, s6)"
        by (cases "arm_sec P (ucast (keepAliveInterval (cl s5))) s5")
      have "W w (wd s6)"
        using simple_results(3) [OF K s6] simple_results(3) [OF K s4] w2 by (simp add: s3_def s5_def)
      moreover have "wd s' = wd s2 \<or> handle_disconnect P s2 = Some (rc, s') \<or> wd s' = wd s6"
        using run on \<open>\<not> isPingOutstanding (cl s)\<close> True s4 s6
        by (auto simp: r s3_def [symmetric] s5_def split: sum.splits if_splits)
      ultimately show ?thesis using w2 handle_disconnect_world [OF K D _ w2] by auto
    qed
  qed
qed

lemma begin_reconnect_world:
  assumes K: "platform_keeps W P" and run: "begin_reconnect P s = (rc, s')" and w: "W w (wd s)"
  shows "W w (wd s')"
proof -
  obtain e s1 where s1: "set_client_state P CLIENT_STATE_DISCONNECTED_ERROR CLIENT_STATE_PENDING_RECONNECT s = (e, s1)"
    by (cases "set_client_state P CLIENT_STATE_DISCONNECTED_ERROR CLIENT_STATE_PENDING_RECONNECT s")
  have w1: "W w (wd s1)" by (rule simple_results(9) [OF K s1 w])
  define s2 where "s2 = upd (currentReconnectWaitInterval_update (\<lambda>_. AWS_IOT_MQTT_MIN_RECONNECT_WAIT_INTERVAL)) s1"
  obtain t s3 where s3: "arm_ms P (currentReconnectWaitInterval (cl s2)) s2 = (t, s3)"
    by (cases "arm_ms P (currentReconnectWaitInterval (cl s2)) s2")
  have "W w (wd s3)" using simple_results(2) [OF K s3] w1 by (simp add: s2_def)
  then show ?thesis
    using run w1 s3 by (auto simp: begin_reconnect_def s1 s2_def [symmetric] Let_def split: if_splits)
qed

lemma yield_pass_world:
  assumes K: "platform_keeps W P" and H: "subscriber_keeps W P" and D: "disconnecter_keeps W P"
    and run: "yield_pass P p s = Some ((rc, leave, p'), s')" and w: "W w (wd s)"
  shows "W w (wd s')"
proof (cases "clientState (cl s) = CLIENT_STATE_PENDING_RECONNECT
    \<or> clientState (cl s) = CLIENT_STATE_CONNECTED_RESUBSCRIBE_IN_PROGRESS")
  case True
  then have "s' = s \<or> (\<exists>r. handle_reconnect P s = Some (r, s'))"
    using run by (auto simp: yield_pass_def Option.bind_eq_Some_conv split: if_splits)
  then show ?thesis using w handle_reconnect_world [OF K H _ w] by auto
next
  case False
  then obtain r p1 s1 where c: "cycle_read P p s = Some (r, p1, s1)"
    using run by (auto simp: yield_pass_def Option.bind_eq_Some_conv)
  have w1: "W w (wd s1)" by (rule cycle_read_world [OF K H c w])
  obtain r2 s2 where k: "(if r = SUCCESS then keep_alive P s1
        else if r = NETWORK_SSL_READ_ERROR \<or> r = NETWORK_SSL_WRITE_ERROR \<or> r = NETWORK_SSL_WRITE_TIMEOUT_ERROR
        then handle_disconnect P s1 else Some (r, s1)) = Some (r2, s2)"
    using run False by (auto simp: yield_pass_def c Option.bind_eq_Some_conv)
  have w2: "W w (wd s2)"
    using k w1 keep_alive_world [OF K D _ w1] handle_disconnect_world [OF K D _ w1] by (auto split: if_split_asm)
  define s3 where "s3 = upd (counterNetworkDisconnected_update (\<lambda>n. n + 1)) s2"
  have w3: "W w (wd s3)" by (simp add: s3_def w2)
  have "s' = s2 \<or> s' = s3 \<or> s' = snd (begin_reconnect P s3)"
    using run False
    by (auto simp: yield_pass_def c k s3_def [symmetric] Let_def split: if_split_asm prod.split_asm)
  moreover have "W w (wd (snd (begin_reconnect P s3)))"
    using begin_reconnect_world [OF K _ w3] by (metis surjective_pairing)
  ultimately show ?thesis using w2 w3 by auto
qed

lemma yield_loop_world:
  assumes K: "platform_keeps W P" and H: "subscriber_keeps W P" and D: "disconnecter_keeps W P"
    and run: "yield_loop P p s = Some (rc, s')" and w: "W w (wd s)"
  shows "W w (wd s')"
proof -
  let ?Q = "\<lambda>x y. case x of ((P', p), s) \<Rightarrow> P' = P \<longrightarrow> W w (wd s) \<longrightarrow> W w (wd (snd y))"
  have "?Q ((P, p), s) (rc, s')"
  proof (rule yield_loop.raw_induct [where Pa = ?Q, OF _ run])
    fix loop P' p s y
    assume IH: "\<And>a b c y. loop a b c = Some y \<Longrightarrow> ?Q ((a, b), c) y"
      and body: "yield_pass P' p s \<bind> (\<lambda>((rc, leave, ptype), s).
        if leave then Some (rc, s)
        else let (e, s) = poll_tm P' s in if e then Some (rc, s) else loop P' ptype s) = Some y"
    show "?Q ((P', p), s) y"
    proof (clarsimp)
      assume eq: "P' = P" and ws: "W w (wd s)"
      obtain r leave p1 s1 where y: "yield_pass P p s = Some ((r, leave, p1), s1)"
        using body eq by (auto simp: Option.bind_eq_Some_conv)
      have w1: "W w (wd s1)" by (rule yield_pass_world [OF K H D y ws])
      obtain e s2 where p: "poll_tm P s1 = (e, s2)" by (cases "poll_tm P s1")
      have w2: "W w (wd s2)" by (rule simple_results(1) [OF K p w1])
      note body = body [unfolded eq y Option.bind.simps prod.case p Let_def]
      show "W w (wd (snd y))"
        using body w1 w2 IH [of P p1 s2 y] by (auto split: if_splits)
    qed
  qed
  then show ?thesis using w by simp
qed

lemma yield_world:
  assumes K: "platform_keeps W P" and H: "subscriber_keeps W P" and D: "disconnecter_keeps W P"
    and run: "aws_iot_mqtt_yield P ms s = Some (rc, s')" and w: "W w (wd s)"
  shows "W w (wd s')"
proof -
  define run_yield where "run_yield = (\<lambda>s. do {
            (yieldRc, s) \<leftarrow> internal_yield P ms s;
            if yieldRc \<noteq> NETWORK_DISCONNECTED_ERROR \<and> yieldRc \<noteq> NETWORK_ATTEMPTING_RECONNECT then
              let (rc, s) = set_client_state P CLIENT_STATE_CONNECTED_YIELD_IN_PROGRESS CLIENT_STATE_CONNECTED_IDLE s in
              Some (if yieldRc = SUCCESS \<and> rc \<noteq> SUCCESS then rc else yieldRc, s)
            else Some (yieldRc, s)
          })"
  have step: "W w (wd s2)" if st: "run_yield s1 = Some (r, s2)" and ws: "W w (wd s1)" for s1 r s2
  proof -
    obtain r3 s3 where i: "internal_yield P ms s1 = Some (r3, s3)"
      using st by (auto simp: run_yield_def Option.bind_eq_Some_conv)
    obtain r4 s4 where l: "yield_loop P None (start_tm P ms s1) = Some (r4, s4)" and "wd s3 = wd s4"
      using i by (auto simp: internal_yield_def Option.bind_eq_Some_conv)
    then have w3: "W w (wd s3)" using yield_loop_world [OF K H D l] simple_worlds(4) [OF K ws] by simp
    have "s2 = s3 \<or> s2 = snd (set_client_state P CLIENT_STATE_CONNECTED_YIELD_IN_PROGRESS CLIENT_STATE_CONNECTED_IDLE s3)"
      using st by (auto simp: run_yield_def i split: if_splits prod.splits)
    then show ?thesis using w3 set_state_world [OF K w3] by auto
  qed
  obtain e s1 where s1: "set_client_state P CLIENT_STATE_CONNECTED_IDLE CLIENT_STATE_CONNECTED_YIELD_IN_PROGRESS s = (e, s1)"
    by (cases "set_client_state P CLIENT_STATE_CONNECTED_IDLE CLIENT_STATE_CONNECTED_YIELD_IN_PROGRESS s")
  have w1: "W w (wd s1)" by (rule simple_results(9) [OF K s1 w])
  have "s' = s \<or> s' = s1 \<or> run_yield s = Some (rc, s') \<or> run_yield s1 = Some (rc, s')"
    using run by (auto simp: aws_iot_mqtt_yield_def run_yield_def Let_def s1 split: if_split_asm)
  then show ?thesis using w w1 step by blast
qed

subsection \<open>Set-up\<close>

lemma destroy_mutexes_world:
  assumes K: "platform_keeps W P"
  shows "W w (wd s) \<Longrightarrow> W w (wd (destroy_mutexes P ms s))"
  unfolding destroy_mutexes_def
  by (induction ms arbitrary: s) (simp_all add: on_world_eq world_steps(7) [OF K])

lemma init_mutexes_world:
  assumes K: "platform_keeps W P" and w: "W w (wd s)"
  shows "W w (wd (snd (init_mutexes P s)))"
  using w by (auto simp: init_mutexes_def on_world_eq Let_def
      intro!: destroy_mutexes_world [OF K] world_steps(3) [OF K])

lemma init_world:
  assumes K: "platform_keeps W P" and run: "aws_iot_mqtt_init P p s = (rc, s')" and w: "W w (wd s)"
  shows "W w (wd s')"
proof -
  define f where "f = (\<lambda>c. set_connect_params default_connect_params (c\<lparr>
              messageHandlers := map cleared_handler (messageHandlers c),
              packetTimeoutMs := mqttPacketTimeout_ms p,
              commandTimeoutMs := mqttCommandTimeout_ms p,
              writeBufSize := AWS_IOT_MQTT_TX_BUF_LEN,
              readBufSize := AWS_IOT_MQTT_RX_BUF_LEN,
              counterNetworkDisconnected := 0,
              disconnectHandler := init_disconnectHandler p,
              disconnectHandlerData := init_disconnectHandlerData p,
              nextPacketId := 1\<rparr>))"
  define s2 where "s2 = upd (isBlockOnThreadLockEnabled_update (\<lambda>_. init_isBlockOnThreadLockEnabled p)) (upd f s)"
  obtain e s3 where m: "init_mutexes P s2 = (e, s3)" by (cases "init_mutexes P s2")
  have "W w (wd (snd (init_mutexes P s2)))" by (rule init_mutexes_world [OF K]) (simp add: s2_def w)
  then have w3: "W w (wd s3)" by (simp add: m)
  define s4 where "s4 = upd (\<lambda>c. c\<lparr>isPingOutstanding := False, isAutoReconnectEnabled := enableAutoReconnect p\<rparr>) s3"
  define s5 where "s5 = s4\<lparr>wd := snd (net_init P p (wd s4))\<rparr>"
  have w5: "W w (wd s5)" using w3 world_steps(8) [OF K] by (simp add: s4_def s5_def)
  have "wd s' = wd s \<or> wd s' = wd s3 \<or> wd s' = wd s5
      \<or> wd s' = wd (destroy_mutexes P [tls_read_mutex, state_change_mutex, tls_write_mutex] s5)"
    using run unfolding aws_iot_mqtt_init_def Let_def f_def [symmetric] s2_def [symmetric] m prod.case
      s4_def [symmetric] on_world_eq s5_def [symmetric]
    by (auto split: if_splits)
  then show ?thesis using w w3 w5 destroy_mutexes_world [OF K w5] by auto
qed

end

end
