(* ===== verification/CloudProperties.thy ===== *)
theory CloudProperties
  imports CloudSample MqttWorldFrame MqttCodecLemmas FirmwareProperties MqttClientProperties
begin

text \<open>
  The client task refines the system of interleaved tasks: seen through the state the tasks share, everything it does is a
  run of deliveries, readings taken while the supply is connected, and state messages taken. What it publishes
  reaches the network byte for byte when the network works, and is lost without a trace when it does not.
\<close>

subsection \<open>The task as a part of the system\<close>

text \<open>The shared state with the flash store and the local variable of the connector task, which are kept in
  the part of the world that the client does not know.\<close>

definition shared_state :: "('x \<Rightarrow> 'n \<times> nat) \<Rightarrow> 'x cloud \<Rightarrow> 'n sys" where
  "shared_state rest w = (firmware w, rest (net_state w))"

text \<open>What happens to the shared state between two worlds is a run of the system.\<close>

definition tasks_run ::
  "'n nvs_api \<Rightarrow> esp_env \<Rightarrow> ('x \<Rightarrow> 'n \<times> nat) \<Rightarrow> 'x cloud \<Rightarrow> 'x cloud \<Rightarrow> bool"
where
  "tasks_run api env rest w w' \<longleftrightarrow> (sys_step api env)\<^sup>*\<^sup>* (shared_state rest w) (shared_state rest w')"

interpretation tasks: world_order "tasks_run api env rest" for api env rest
  by unfold_locales (auto simp: tasks_run_def)

lemma tasks_run_step:
  assumes "tasks_run api env rest w v" and "sys_step api env (shared_state rest v) (shared_state rest v')"
  shows "tasks_run api env rest w v'"
  using assms unfolding tasks_run_def by (rule rtranclp.rtrancl_into_rtrancl)

text \<open>The platform, with the network, waiting and sleeping: other tasks may run meanwhile, nothing else happens
  to the shared state.\<close>

definition rtos_keeps :: "('w \<Rightarrow> 'w \<Rightarrow> bool) \<Rightarrow> 'w cloud_calls \<Rightarrow> bool" where
  "rtos_keeps W R \<longleftrightarrow> (\<forall>w w'. wait_connected R w = Some w' \<longrightarrow> W w w') \<and> (\<forall>n w. W w (task_delay R n w))"

lemma delay_runs:
  assumes "rtos_keeps (tasks_run api env rest) R" and "tasks_run api env rest w v"
  shows "tasks_run api env rest w (task_delay R n v)"
  using tasks.W_trans [OF assms(2)] assms(1) by (simp add: rtos_keeps_def)

lemma platform_of_firmware:
  "platform_keeps W (firmware_platform env P) = platform_keeps W P"
  "platform_keeps W (with_subscriber env P) = platform_keeps W P"
  "subscriber_keeps W (firmware_platform env P) = subscriber_keeps W (with_subscriber env P)"
  by (simp_all add: platform_keeps_def subscriber_keeps_def firmware_platform_def with_subscriber_def)

lemma subscriber_runs: "subscriber_keeps (tasks_run api env rest) (with_subscriber env P)"
proof -
  have "tasks_run api env rest (wd s) (wd s')" if call: "subscribe_callback env msg s = Some s'" for msg s s'
  proof -
    obtain p a where "iot_subscribe_callback_handler env p (firmware (wd s)) = Some a"
      and "wd s' = (wd s)\<lparr>firmware := a\<rparr>"
      using call by (auto simp: subscribe_callback_def Option.bind_eq_Some_conv)
    moreover obtain n z where "rest (net_state (wd s)) = (n, z)" by (cases "rest (net_state (wd s))")
    ultimately show ?thesis
      by (intro tasks_run_step [OF tasks.W_refl]) (simp add: shared_state_def sys_step.other other_step.message)
  qed
  then show ?thesis by (simp add: subscriber_keeps_def with_subscriber_def)
qed

lemma disconnecter_runs:
  assumes "platform_keeps (tasks_run api env rest) P"
  shows "disconnecter_keeps (tasks_run api env rest) (firmware_platform env P)"
proof -
  let ?P = "with_subscriber env P"
  have "tasks_run api env rest (wd s) (wd s')" if run: "disconnectCallbackHandler ?P s = Some s'" for s s'
  proof (cases "isAutoReconnectEnabled (cl s)")
    case True
    then show ?thesis using run tasks.W_refl by (simp add: disconnectCallbackHandler_def)
  next
    case False
    then obtain rc where "aws_iot_mqtt_attempt_reconnect ?P s = Some (rc, s')"
      using run by (auto simp: disconnectCallbackHandler_def Option.bind_eq_Some_conv)
    moreover have "platform_keeps (tasks_run api env rest) ?P" using assms by (simp add: platform_of_firmware)
    ultimately show ?thesis
      using tasks.attempt_reconnect_world [OF _ subscriber_runs] tasks.W_refl by blast
  qed
  then show ?thesis by (simp add: disconnecter_keeps_def firmware_platform_def)
qed

lemmas firmware_world =
  platform_of_firmware(1) [THEN iffD2] platform_of_firmware(3) [THEN iffD2, OF subscriber_runs] disconnecter_runs

subsection \<open>Taking messages from the queues\<close>

lemma publish_data_runs:
  assumes K: "platform_keeps (tasks_run api env rest) P"
    and run: "publish_data (firmware_platform env P) (rc, params, s) = Some (rc', params', s')"
    and w: "tasks_run api env rest w (wd s)"
  shows "tasks_run api env rest w (wd s')"
proof (cases "Queue_data (firmware (wd s)) = [] \<or> \<not> energy (firmware (wd s))")
  case True
  then show ?thesis using run w by (auto simp: publish_data_def split: list.splits)
next
  case False
  then obtain v q where q: "Queue_data (firmware (wd s)) = v # q" and on: "energy (firmware (wd s))"
    by (auto simp: neq_Nil_conv)
  obtain t where t: "v = Text t" using run q on by (auto simp: publish_data_def split: heap_str.splits)
  let ?s1 = "update_firmware (\<lambda>a. a\<lparr>Queue_data := q\<rparr>) s"
  obtain n z where nz: "rest (net_state (wd s)) = (n, z)" by (cases "rest (net_state (wd s))")
  have "sys_step api env (shared_state rest (wd s)) (shared_state rest (wd ?s1))"
    using sys_step.other [OF other_step.take_data [OF q on]] nz by (simp add: shared_state_def update_firmware_def)
  from tasks_run_step [OF w this] have w1: "tasks_run api env rest w (wd ?s1)" .
  have "aws_iot_mqtt_publish (firmware_platform env P) (c_str DATA_TOPIC) (strlen16 DATA_TOPIC)
      (Some (set_payload t params)) ?s1 = Some (rc', s')"
    using run by (auto simp: publish_data_def q on t Let_def Option.bind_eq_Some_conv)
  from tasks.publish_world [OF firmware_world(1) [OF K] firmware_world(2) this w1] show ?thesis .
qed

lemma publish_state_runs:
  assumes K: "platform_keeps (tasks_run api env rest) P"
    and run: "publish_state (firmware_platform env P) (rc, params, s) = Some (rc', params', s')"
    and w: "tasks_run api env rest w (wd s)"
  shows "tasks_run api env rest w (wd s')"
proof (cases "Queue_state (firmware (wd s))")
  case Nil
  then show ?thesis using run w by (simp add: publish_state_def)
next
  case (Cons status q)
  let ?s1 = "update_firmware (\<lambda>a. a\<lparr>Queue_state := q\<rparr>) s"
  obtain n z where nz: "rest (net_state (wd s)) = (n, z)" by (cases "rest (net_state (wd s))")
  have "sys_step api env (shared_state rest (wd s)) (shared_state rest (wd ?s1))"
    using sys_step.other [OF other_step.take_state [OF Cons]] nz by (simp add: shared_state_def update_firmware_def)
  from tasks_run_step [OF w this] have w1: "tasks_run api env rest w (wd ?s1)" .
  have "aws_iot_mqtt_publish (firmware_platform env P) (c_str STATE_TOPIC) (strlen16 STATE_TOPIC)
      (Some (set_payload status params)) ?s1 = Some (rc', s')"
    using run by (auto simp: publish_state_def Cons Let_def Option.bind_eq_Some_conv)
  from tasks.publish_world [OF firmware_world(1) [OF K] firmware_world(2) this w1] show ?thesis .
qed

lemma pass_runs:
  assumes K: "platform_keeps (tasks_run api env rest) P" and R: "rtos_keeps (tasks_run api env rest) R"
    and run: "aws_iot_pass (firmware_platform env P) R (params, s) = Some (rc, params', s')"
  shows "tasks_run api env rest (wd s) (wd s')"
proof -
  let ?P = "firmware_platform env P"
  obtain rc1 s1 where y: "aws_iot_mqtt_yield ?P 100 s = Some (rc1, s1)"
    using run by (auto simp: aws_iot_pass_def Option.bind_eq_Some_conv)
  have w1: "tasks_run api env rest (wd s) (wd s1)"
    by (rule tasks.yield_world [OF firmware_world(1) [OF K] firmware_world(2) firmware_world(3) [OF K] y tasks.W_refl])
  show ?thesis
  proof (cases "rc1 = NETWORK_ATTEMPTING_RECONNECT")
    case True
    then show ?thesis using run w1 by (auto simp: aws_iot_pass_def y)
  next
    case False
    then obtain rc2 params2 s2 s3 where d: "publish_data ?P (rc1, params, s1) = Some (rc2, params2, s2)"
      and st: "publish_state ?P (rc2, params2, s2) = Some (rc, params', s3)"
      and "s' = s3\<lparr>wd := task_delay R 500 (wd s3)\<rparr>"
      using run by (auto simp: aws_iot_pass_def y Option.bind_eq_Some_conv)
    moreover have "tasks_run api env rest (wd s) (wd s3)"
      by (rule publish_state_runs [OF K st publish_data_runs [OF K d w1]])
    ultimately show ?thesis using delay_runs [OF R] by simp
  qed
qed

subsection \<open>Start-up and the main loop\<close>

lemma connect_loop_runs:
  assumes K: "platform_keeps (tasks_run api env rest) P" and R: "rtos_keeps (tasks_run api env rest) R"
    and run: "connect_loop (firmware_platform env P) R s = Some s'" and w: "tasks_run api env rest w (wd s)"
  shows "tasks_run api env rest w (wd s')"
proof -
  let ?P = "firmware_platform env P" and ?T = "tasks_run api env rest"
  let ?Q = "\<lambda>x y. case x of ((P', R'), s) \<Rightarrow> P' = ?P \<longrightarrow> R' = R \<longrightarrow> ?T w (wd s) \<longrightarrow> ?T w (wd y)"
  have "?Q ((?P, R), s) s'"
  proof (rule connect_loop.raw_induct [where Pa = ?Q, OF _ run])
    fix loop P' R' s y
    assume IH: "\<And>a b c y. loop a b c = Some y \<Longrightarrow> ?Q ((a, b), c) y"
      and body: "aws_iot_mqtt_connect P' (Some connectParams) s \<bind> (\<lambda>(rc, s).
        if rc \<noteq> SUCCESS then loop P' R' (s\<lparr>wd := task_delay R' 100 (wd s)\<rparr>) else Some s) = Some y"
    show "?Q ((P', R'), s) y"
    proof (clarsimp)
      assume eq: "P' = ?P" "R' = R" and ws: "?T w (wd s)"
      obtain rc s1 where c: "aws_iot_mqtt_connect ?P (Some connectParams) s = Some (rc, s1)"
        using body eq by (auto simp: Option.bind_eq_Some_conv)
      have w1: "?T w (wd s1)" by (rule tasks.connect_world [OF firmware_world(1) [OF K] firmware_world(2) c ws])
      then have w2: "?T w (task_delay R 100 (wd s1))"
        by (rule delay_runs [OF R])
      show "?T w (wd y)"
        using body [unfolded eq c Option.bind.simps prod.case] w1 w2
          IH [of ?P R "s1\<lparr>wd := task_delay R 100 (wd s1)\<rparr>" y]
        by (auto split: if_splits)
    qed
  qed
  then show ?thesis using w by simp
qed

lemma start_runs:
  assumes K: "platform_keeps (tasks_run api env rest) P" and R: "rtos_keeps (tasks_run api env rest) R"
    and run: "aws_iot_start (firmware_platform env P) R certs s = Some (r, s')"
  shows "tasks_run api env rest (wd s) (wd s')"
proof -
  let ?P = "firmware_platform env P"
  note K' = firmware_world(1) [OF K]
  obtain rc s1 where i: "aws_iot_mqtt_init ?P (mqttInitParams certs) s = (rc, s1)"
    by (cases "aws_iot_mqtt_init ?P (mqttInitParams certs) s")
  have w1: "tasks_run api env rest (wd s) (wd s1)" by (rule tasks.init_world [OF K' i tasks.W_refl])
  show ?thesis
  proof (cases "rc = SUCCESS")
    case False
    then show ?thesis using run w1 by (auto simp: aws_iot_start_def i)
  next
    case True
    then obtain w s2 where b: "wait_connected R (wd s1) = Some w"
      and c: "connect_loop ?P R (s1\<lparr>wd := w\<rparr>) = Some s2"
      using run by (auto simp: aws_iot_start_def i Option.bind_eq_Some_conv)
    have "tasks_run api env rest (wd s) w"
      using w1 b R tasks.W_trans unfolding rtos_keeps_def by blast
    then have "tasks_run api env rest (wd s) (wd s2)" by (intro connect_loop_runs [OF K R c]) simp
    then have w2: "tasks_run api env rest (wd s) (wd (upd (autoreconnect_set_status True) s2))" by simp
    obtain rc2 where "aws_iot_mqtt_subscribe ?P (c_str CONFIG_TOPIC) (strlen16 CONFIG_TOPIC) QOS0 (Some 0) 0
        (upd (autoreconnect_set_status True) s2) = Some (rc2, s')"
      using run True by (auto simp: aws_iot_start_def i b c Option.bind_eq_Some_conv)
    from tasks.subscribe_world [OF K' firmware_world(2) this w2] show ?thesis .
  qed
qed

text \<open>The heads of the main loop: the result code that decides whether it goes on, the publish parameters and the state.\<close>

inductive loop_step ::
  "'x cloud platform \<Rightarrow> 'x cloud cloud_calls \<Rightarrow> IoT_Error_t \<times> IoT_Publish_Message_Params \<times> 'x cloud st
     \<Rightarrow> IoT_Error_t \<times> IoT_Publish_Message_Params \<times> 'x cloud st \<Rightarrow> bool"
  for P R where
  pass: "loop_goes_on rc \<Longrightarrow> aws_iot_pass P R x = Some y \<Longrightarrow> loop_step P R (rc, x) y"

inductive_cases loop_stepE: "loop_step P R (rc, x) y"

lemma loop_runs:
  assumes K: "platform_keeps (tasks_run api env rest) P" and R: "rtos_keeps (tasks_run api env rest) R"
  shows "(loop_step (firmware_platform env P) R)\<^sup>*\<^sup>* x y \<Longrightarrow>
    tasks_run api env rest (wd (snd (snd x))) (wd (snd (snd y)))"
proof (induction rule: rtranclp_induct)
  case base
  show ?case by (rule tasks.W_refl)
next
  case (step y z)
  obtain rc params s where y: "y = (rc, params, s)" by (cases y)
  obtain rc' params' s' where z: "z = (rc', params', s')" by (cases z)
  from step(2) have "tasks_run api env rest (wd s) (wd s')"
    unfolding y z by (elim loop_stepE) (rule pass_runs [OF K R])
  with step.IH show ?case unfolding y z by (auto intro: tasks.W_trans)
qed

lemma reach_steps: "reach init step s \<Longrightarrow> step\<^sup>*\<^sup>* s t \<Longrightarrow> reach init step t"
  by (rotate_tac, induction rule: rtranclp_induct) (auto intro: reach.move)

text \<open>(C3) The client task refines its abstraction in the system of tasks: from start-up on, at every head of its main
  loop, whatever the network did and however other tasks ran meanwhile, the shared state is one that the system reaches.
  So its queues are bounded, and the state messages it is about to publish never carry a temperature alert.\<close>

theorem cloud_task_refines:
  assumes platform: "platform_keeps (tasks_run api env rest) P" "rtos_keeps (tasks_run api env rest) R"
    and init: "reach sys_init (sys_step api env) (shared_state rest (wd s0))"
    and start: "aws_iot_start (firmware_platform env P) R certs s0 = Some (Inr rc1, s1)"
    and loop: "(loop_step (firmware_platform env P) R)\<^sup>*\<^sup>* (rc1, params1, s1) (rc, params, s)"
  shows "reach sys_init (sys_step api env) (shared_state rest (wd s)) \<and> app_inv (firmware (wd s))"
proof -
  have "tasks_run api env rest (wd s0) (wd s)"
    using tasks.W_trans [OF start_runs [OF platform start]] loop_runs [OF platform loop] by simp
  then have r: "reach sys_init (sys_step api env) (shared_state rest (wd s))"
    using reach_steps [OF init] unfolding tasks_run_def by blast
  then show ?thesis using firmware.reach_inv [OF r] by (simp add: shared_state_def)
qed

lemma demo_cloud_runs:
  assumes "\<And>x. rest x = r"
  shows "platform_keeps (tasks_run api env rest) demo_cloud" "rtos_keeps (tasks_run api env rest) cloud_demo_calls"
  using assms
  by (auto simp: platform_keeps_def rtos_keeps_def cloud_demo_calls_def demo_cloud_def on_net_def tasks_run_def shared_state_def
      split: prod.splits)

theorem cloud_task_refines_witness:
  "\<exists>rc1 s1 rc params s. aws_iot_start (firmware_platform quiet_env demo_cloud) cloud_demo_calls demo_certs
      (cloud_state fresh_client start_app connack_and_suback) = Some (Inr rc1, s1)
    \<and> loop_step (firmware_platform quiet_env demo_cloud) cloud_demo_calls (rc1, demo_message, s1) (rc, params, s)
    \<and> app_inv (firmware (wd s))"
proof -
  let ?P = "firmware_platform quiet_env demo_cloud" and ?s0 = "cloud_state fresh_client start_app connack_and_suback"
  let ?rest = "\<lambda>_. (blank_flash, 0)"
  have "map_option (\<lambda>(r, s1). (r, map_option (\<lambda>_. ()) (aws_iot_pass ?P cloud_demo_calls (demo_message, s1))))
      (aws_iot_start ?P cloud_demo_calls demo_certs ?s0) = Some (Inr SUCCESS, Some ())"
    by code_simp
  then obtain s1 y where start: "aws_iot_start ?P cloud_demo_calls demo_certs ?s0 = Some (Inr SUCCESS, s1)"
    and pass: "aws_iot_pass ?P cloud_demo_calls (demo_message, s1) = Some y"
    by auto
  obtain rc params s where y: "y = (rc, params, s)" by (cases y)
  have step: "loop_step ?P cloud_demo_calls (SUCCESS, demo_message, s1) (rc, params, s)"
    using loop_step.pass [OF _ pass] by (simp add: y loop_goes_on_def)
  have init: "reach sys_init (sys_step flash_api quiet_env) (shared_state ?rest (wd ?s0))"
    by (rule reach.start) (auto simp: sys_init_def shared_state_def cloud_state_def start_app_def)
  show ?thesis
    using cloud_task_refines [OF demo_cloud_runs init start r_into_rtranclp [of "loop_step ?P cloud_demo_calls", OF step]]
      start step by auto
qed

subsection \<open>A network that works\<close>

text \<open>
  What has been sent is a function of the world, and so is a part of it that nothing changes. Writing takes everything at
  once, no other routine sends, and neither reading the clock nor taking a lock takes longer than a second.
\<close>

definition no_write :: "'w platform \<Rightarrow> 'w platform" where
  "no_write P = P\<lparr>net_write := \<lambda>_ _ _. None\<rparr>"

definition prompt :: "('w \<Rightarrow> nat) \<Rightarrow> 'w \<Rightarrow> 'w \<Rightarrow> bool" where
  "prompt time w w' \<longleftrightarrow> time w \<le> time w' \<and> time w' \<le> time w + 100"

definition link_up :: "'w platform \<Rightarrow> ('w \<Rightarrow> nat) \<Rightarrow> ('w \<Rightarrow> u8 list) \<Rightarrow> ('w \<Rightarrow> 'a) \<Rightarrow> bool" where
  "link_up P time sent kept \<longleftrightarrow> mutexes_work P
     \<and> platform_keeps (\<lambda>w w'. (sent w', kept w') = (sent w, kept w)) (no_write P)
     \<and> (\<forall>bs t w. \<exists>t' w'. net_write P bs t w = Some (SUCCESS, length bs, t', w') \<and> sent w' = sent w @ bs
          \<and> kept w' = kept w)
     \<and> (\<forall>w. fst (get_ticks P w) = of_nat (time w) \<and> prompt time w (snd (get_ticks P w)))
     \<and> (\<forall>m w. prompt time w (snd (mutex_lock P m w)) \<and> prompt time w (snd (mutex_trylock P m w)))"

interpretation sending: world_order "\<lambda>w w'. (f w', g w') = (f w, g w)" for f :: "'w \<Rightarrow> 'a" and g :: "'w \<Rightarrow> 'b"
  by unfold_locales auto

lemma no_write_fields [simp]:
  "get_ticks (no_write P) = get_ticks P" "delay_tick (no_write P) = delay_tick P"
  "mutex_lock (no_write P) = mutex_lock P" "mutex_trylock (no_write P) = mutex_trylock P"
  "mutex_unlock (no_write P) = mutex_unlock P"
  by (simp_all add: no_write_def)

lemma no_write_locks [simp]:
  "poll_timer (no_write P) = poll_timer P" "client_lock_mutex (no_write P) = client_lock_mutex P"
  "client_unlock_mutex (no_write P) = client_unlock_mutex P"
  by (simp_all add: fun_eq_iff poll_timer_def client_lock_mutex_def client_unlock_mutex_def split: prod.split)

lemma no_write_simps [simp]:
  "poll_tm (no_write P) = poll_tm P" "set_client_state (no_write P) = set_client_state P"
  "start_tm (no_write P) = start_tm P"
  unfolding fun_eq_iff poll_tm_def set_client_state_def start_tm_def arm_ms_def no_write_locks no_write_fields
  by simp_all

lemma link_upD:
  assumes "link_up P time sent kept"
  shows "mutexes_work P" "platform_keeps (\<lambda>w w'. (sent w', kept w') = (sent w, kept w)) (no_write P)"
    "fst (get_ticks P w) = of_nat (time w)" "prompt time w (snd (get_ticks P w))"
    "prompt time (wd s) (wd (snd (client_lock_mutex P m s)))"
    "\<exists>t' w'. net_write P bs t w = Some (SUCCESS, length bs, t', w') \<and> sent w' = sent w @ bs \<and> kept w' = kept w"
  using assms by (auto simp: link_up_def client_lock_mutex_def on_world_eq prod_eq_iff)

lemma set_state_quiet:
  assumes up: "link_up P time sent kept" and "clientState (cl s) = x"
  obtains w where "set_client_state P x y s = (SUCCESS, s\<lparr>cl := (cl s)\<lparr>clientState := y\<rparr>, wd := w\<rparr>)"
    "sent w = sent (wd s)" "kept w = kept (wd s)"
proof -
  obtain w where w: "set_client_state P x y s = (SUCCESS, s\<lparr>cl := (cl s)\<lparr>clientState := y\<rparr>, wd := w\<rparr>)"
    using set_state_hit [OF link_upD(1) [OF up] assms(2)] .
  moreover have "(sent (wd (snd (set_client_state (no_write P) x y s))), kept (wd (snd (set_client_state (no_write P) x y s))))
      = (sent (wd s), kept (wd s))"
    by (rule sending.set_state_world [OF link_upD(2) [OF up]]) (rule refl)
  ultimately show ?thesis by (intro that [of w]) (simp_all add: w)
qed

text \<open>A packet leaves in one write, if the first poll finds the timer running.\<close>

lemma send_loop_delivers:
  assumes up: "link_up P time sent kept" and armed: "armed s0 T (tm s)" "s0 \<le> time (wd s)" "time (wd s) < s0 + T"
    and len: "0 < len" "len \<le> length (writeBuf (cl s))"
  obtains t w where "send_loop P len 0 rc s = Some (len, SUCCESS, s\<lparr>tm := t, wd := w\<rparr>)"
    "sent w = sent (wd s) @ take len (writeBuf (cl s))" "kept w = kept (wd s)"
proof -
  obtain e s1 where p: "poll_tm P s = (e, s1)" by (cases "poll_tm P s")
  have T: "T \<le> 2 ^ 30" using armed(1) by (simp add: armed_def)
  have "\<not> expired (of_nat (time (wd s))) (tm s)"
    using expired_exactly [OF armed(1,2)] armed(3) T by simp
  then have e: "\<not> e" using p link_upD(3) [OF up, of "wd s"]
    by (auto simp: poll_tm_def poll_timer_def has_timer_expired_def case_prod_beta)
  have c: "cl s1 = cl s" by (rule poll_cl [OF p])
  have q: "sent (wd s1) = sent (wd s)" "kept (wd s1) = kept (wd s)"
    using sending.simple_results(1) [OF link_upD(2) [OF up], of s e s1 "wd s"] p by simp_all
  have "length (take len (writeBuf (cl s))) = len" using len(2) by simp
  then obtain t w where wr: "net_write P (take len (writeBuf (cl s))) (tm s1) (wd s1) = Some (SUCCESS, len, t, w)"
    and sent: "sent w = sent (wd s1) @ take len (writeBuf (cl s))" "kept w = kept (wd s1)"
    using link_upD(6) [OF up, of "take len (writeBuf (cl s))" "tm s1" "wd s1"] by auto
  have "send_loop P len 0 rc s = send_loop P len len SUCCESS (s1\<lparr>tm := t, wd := w\<rparr>)"
    using len e wr by (subst send_loop.simps) (simp add: p c Let_def)
  also have "\<dots> = Some (len, SUCCESS, s1\<lparr>tm := t, wd := w\<rparr>)"
    by (subst send_loop.simps) simp
  also have "s1\<lparr>tm := t, wd := w\<rparr> = s\<lparr>tm := t, wd := w\<rparr>" using c by simp
  finally show ?thesis using that sent q by simp
qed

definition client_ready :: "client \<Rightarrow> bool" where
  "client_ready c \<longleftrightarrow> may_start c \<and> writeBufSize c = 512 \<and> length (writeBuf c) = 512 \<and> 5000 \<le> commandTimeoutMs c"

lemma send_packet_delivers:
  assumes up: "link_up P time sent kept" and c: "writeBufSize (cl s) = 512" "length (writeBuf (cl s)) = 512"
    and ms: "5000 \<le> ms" and bs: "bs \<noteq> []" "length bs < 512"
  obtains t w where "send_packet P (length bs) (upd (put_packet bs) (start_tm P ms s))
      = Some (SUCCESS, s\<lparr>cl := put_packet bs (cl s), tm := t, wd := w\<rparr>)" "sent w = sent (wd s) @ bs" "kept w = kept (wd s)"
proof -
  let ?s0 = "start_tm P ms s" and ?len = "length bs"
  let ?s1 = "upd (put_packet bs) ?s0"
  obtain w1 where l: "client_lock_mutex P tls_write_mutex ?s1 = (SUCCESS, ?s1\<lparr>wd := w1\<rparr>)"
    using client_lockE [OF link_upD(1) [OF up]] .
  have tm: "tm ?s0 = countdown_ms (of_nat (time (wd s))) ms" and wd: "wd ?s0 = snd (get_ticks P (wd s))"
    by (simp_all add: start_tm_def arm_ms_def on_world_eq link_upD(3) [OF up])
  let ?T = "unat ms div 10"
  have "unat (5000 :: u32) \<le> unat ms" using ms by (simp add: word_le_nat_alt)
  then have T: "500 \<le> ?T" by simp
  have time: "time (wd s) \<le> time w1" "time w1 \<le> time (wd s) + 200"
    using link_upD(4) [OF up, of "wd s"] link_upD(5) [OF up, of ?s1 tls_write_mutex]
    by (simp_all add: l prompt_def wd)
  have same: "sent (wd ?s0) = sent (wd s)" "sent w1 = sent (wd ?s0)" "kept (wd ?s0) = kept (wd s)" "kept w1 = kept (wd ?s0)"
    using sending.simple_worlds(4) [OF link_upD(2) [OF up], where w = "wd s" and s = s and ms = ms]
      sending.simple_worlds(5) [OF link_upD(2) [OF up], where w = "wd ?s1" and s = ?s1 and m = tls_write_mutex] by (simp_all add: l)
  have buf: "take ?len (writeBuf (cl ?s1)) = bs" "?len \<le> length (writeBuf (cl ?s1))"
    using bs c by (simp_all add: put_packet_def)
  obtain t w where loop: "send_loop P ?len 0 SUCCESS (?s1\<lparr>wd := w1\<rparr>)
      = Some (?len, SUCCESS, ?s1\<lparr>tm := t, wd := w\<rparr>)" and sent: "sent w = sent w1 @ bs" "kept w = kept w1"
    by (rule send_loop_delivers [OF up, of "time (wd s)" ?T "?s1\<lparr>wd := w1\<rparr>" ?len SUCCESS])
      (use armed_countdown [of "time (wd s)" ms] time T bs(1) buf in \<open>simp_all add: tm\<close>)
  let ?s2 = "?s1\<lparr>tm := t, wd := w\<rparr>"
  obtain w2 where u: "client_unlock_mutex P tls_write_mutex ?s2 = (SUCCESS, ?s2\<lparr>wd := w2\<rparr>)"
    using client_unlockE [OF link_upD(1) [OF up]] .
  have "sent w2 = sent w \<and> kept w2 = kept w"
    using sending.simple_worlds(6) [OF link_upD(2) [OF up], where w = "wd ?s2" and s = ?s2 and m = tls_write_mutex] by (simp add: u)
  moreover have "send_packet P ?len ?s1 = Some (SUCCESS, ?s2\<lparr>wd := w2\<rparr>)"
    using c bs(2) by (simp add: send_packet_def put_packet_def [of bs] l loop u)
  ultimately show ?thesis
    using sent same by (intro that [of w2 t]) (simp_all add: upd_def)
qed

lemma publish_delivers:
  assumes up: "link_up P time sent kept" and ready: "client_ready (cl s)" and qos: "msg_qos params = QOS0"
    and topic: "name \<noteq> None" "n \<noteq> 0"
    and packet: "serialize_publish 512 0 QOS0 (msg_isRetained params) (msg_id params) name n
      (msg_payload params) (msg_payloadLen params) = Some (Inr bs)"
    and bs: "bs \<noteq> []" "length bs < 512"
  obtains w where "aws_iot_mqtt_publish P name n (Some params) s
      = Some (SUCCESS, s\<lparr>cl := put_packet bs (cl s), wd := w\<rparr>)" "sent w = sent (wd s) @ bs" "kept w = kept (wd s)"
proof -
  let ?busy = "CLIENT_STATE_CONNECTED_PUBLISH_IN_PROGRESS"
  let ?body = "\<lambda>s. do { ((rc, _), s) \<leftarrow> internal_publish P name n params s; Some (rc, s) }"
  have c: "may_start (cl s)" "writeBufSize (cl s) = 512" "length (writeBuf (cl s)) = 512"
    "5000 \<le> commandTimeoutMs (cl s)"
    using ready by (simp_all add: client_ready_def)
  obtain w1 where s1: "set_client_state P (clientState (cl s)) ?busy s
      = (SUCCESS, s\<lparr>cl := (cl s)\<lparr>clientState := ?busy\<rparr>, wd := w1\<rparr>)" and w1: "sent w1 = sent (wd s)" "kept w1 = kept (wd s)"
    using set_state_quiet [OF up, of s "clientState (cl s)" ?busy] by blast
  let ?s1 = "s\<lparr>cl := (cl s)\<lparr>clientState := ?busy\<rparr>, wd := w1\<rparr>"
  obtain t w2 where send: "send_packet P (length bs) (upd (put_packet bs) (start_tm P (commandTimeoutMs (cl ?s1)) ?s1))
      = Some (SUCCESS, ?s1\<lparr>cl := put_packet bs (cl ?s1), tm := t, wd := w2\<rparr>)" and w2: "sent w2 = sent (wd ?s1) @ bs" "kept w2 = kept (wd ?s1)"
    by (rule send_packet_delivers [OF up, of ?s1 "commandTimeoutMs (cl ?s1)" bs]) (use c bs in simp_all)
  let ?s2 = "?s1\<lparr>cl := put_packet bs (cl ?s1), wd := w2\<rparr>"
  have "publish_exchange P name n params (start_tm P (commandTimeoutMs (cl ?s1)) ?s1)
      = Some ((SUCCESS, params), ?s1\<lparr>cl := put_packet bs (cl ?s1), tm := t, wd := w2\<rparr>)"
    using send packet qos c(2) by (simp add: publish_exchange_def choose_packet_id_def send_serialized_def)
  then have body: "?body ?s1 = Some (SUCCESS, ?s2)"
    by (simp add: internal_publish_def with_timer_def)
  have "clientState (cl ?s2) = ?busy" by (simp add: put_packet_def)
  from set_state_quiet [OF up this] obtain w3 where s3: "set_client_state P ?busy (clientState (cl s)) ?s2
      = (SUCCESS, ?s2\<lparr>cl := (cl ?s2)\<lparr>clientState := clientState (cl s)\<rparr>, wd := w3\<rparr>)" and w3: "sent w3 = sent (wd ?s2)" "kept w3 = kept (wd ?s2)"
    by blast
  have "aws_iot_mqtt_publish P name n (Some params) s = enter_operation P ?busy ?body s"
    using c(1) topic by (auto simp: aws_iot_mqtt_publish_def may_start_def is_client_connected_def)
  also have "\<dots> = Some (SUCCESS, s\<lparr>cl := put_packet bs (cl s), wd := w3\<rparr>)"
    unfolding enter_operation_def Let_def s1 prod.case body Option.bind.simps s3
    by (simp add: put_packet_def)
  finally show ?thesis using w1 w2 w3 by (intro that [of w3]) simp_all
qed

subsection \<open>What a round publishes\<close>

text \<open>A message of quality of service 0 as the protocol has it: the fixed header, the topic with its length, the text.\<close>

definition wire_message :: "string \<times> string \<Rightarrow> u8 list" where
  "wire_message = (\<lambda>(topic, v). frame 48 (write_uint_16 (strlen16 topic) @ bytes_of topic @ bytes_of v))"

lemma length_bytes_of [simp]: "length (bytes_of s) = length s"
  by (simp add: bytes_of_def)

lemma mem_read_c_str: "mem_read (c_str s) (length s) = Some (bytes_of s)"
  using mem_read_prefix [of "bytes_of s" "[0]"] by (simp add: c_str_def cstr_def)

lemma unat_strlen16: "length s < 65536 \<Longrightarrow> unat (strlen16 s) = length s"
  by (simp add: strlen16_def unat_of_nat)

lemma serialize_message:
  assumes "length topic \<le> 20" "length v \<le> 400"
  shows "serialize_publish 512 0 QOS0 0 i (c_str topic) (strlen16 topic) (c_str v) (of_nat (length v))
      = Some (Inr (wire_message (topic, v)))" and "length (wire_message (topic, v)) < 512"
proof -
  let ?body = "write_uint_16 (strlen16 topic) @ bytes_of topic @ bytes_of v"
  let ?r = "publish_remaining QOS0 (strlen16 topic) (of_nat (length v))"
  have n: "unat (strlen16 topic) = length topic" "unat (of_nat (length v) :: u32) = length v"
    using assms by (simp_all add: unat_strlen16 unat_of_nat_small)
  have body: "publish_body QOS0 i (strlen16 topic) (bytes_of topic) (bytes_of v) = ?body"
    by (simp add: publish_body_def)
  have r: "?r = of_nat (length ?body)"
    using length_publish_body [of "bytes_of topic" "strlen16 topic" "bytes_of v" "of_nat (length v)" QOS0 i] n
    by (simp add: body)
  have b: "length ?body \<le> 430" using assms by (simp add: write_uint_16_def)
  then have len: "length ?body < 268435456" by simp
  from unat_of_nat_small [OF this] have small: "unat ?r \<le> 430" unfolding r using b by simp
  have "?r + 1 < 16384" "unat (?r + 1) \<le> 431"
    using small by (auto simp: word_less_nat_alt unat_word_ariths)
  then have "get_final_packet_length ?r \<le> 500"
    using small by (auto simp: get_final_packet_length_def Let_def word_le_nat_alt unat_word_ariths)
  then have final: "get_final_packet_length ?r \<le> 500" "\<not> 512 < get_final_packet_length ?r"
    by (auto simp: word_le_nat_alt word_less_nat_alt)
  have "emit 500 (48 # write_len_to_buffer ?r @ ?body) = Some (Inr (wire_message (topic, v)))"
    using checked_frame_fits [OF final(1) r len] by (simp add: wire_message_def)
  then have e: "48 # write_len_to_buffer ?r @ ?body = wire_message (topic, v)"
    and l: "length (wire_message (topic, v)) \<le> 500"
    by (auto simp: emit_Some)
  then show "length (wire_message (topic, v)) < 512" by simp
  have "emit 512 (48 # write_len_to_buffer ?r @ ?body) = Some (Inr (wire_message (topic, v)))"
    unfolding e using l by (simp add: emit_Some)
  moreover have "init_header PUBLISH QOS0 0 0 = Inr 48" by (simp add: init_header_def)
  moreover have "write_utf8_string (c_str topic) (strlen16 topic) = Some (write_uint_16 (strlen16 topic) @ bytes_of topic)"
    by (simp add: write_utf8_string_Some n mem_read_c_str)
  ultimately show "serialize_publish 512 0 QOS0 0 i (c_str topic) (strlen16 topic) (c_str v) (of_nat (length v))
      = Some (Inr (wire_message (topic, v)))"
    using final(2) by (simp add: serialize_publish_def Let_def n mem_read_c_str) (simp add: c_str_def)
qed

text \<open>A receiver reads the topic and the text from it.\<close>

definition receiver_reads :: "u8 list \<Rightarrow> string \<times> string \<Rightarrow> bool" where
  "receiver_reads bs m \<longleftrightarrow> (\<exists>v. deserialize_publish bs 512 = Some (Inr v)
     \<and> take (unat (in_topicLen v)) (drop (in_topic v) bs) = bytes_of (fst m)
     \<and> take (unat (in_payloadLen v)) (drop (in_payload v) bs) = bytes_of (snd m))"

lemma wire_message_read:
  assumes "length (fst m) \<le> 20" "length (snd m) \<le> 400"
  shows "receiver_reads (wire_message m @ rest) m"
proof -
  obtain topic v where m: "m = (topic, v)" by (cases m)
  have n: "unat (strlen16 topic) = length topic" "unat (of_nat (length v) :: u32) = length v"
    using assms by (simp_all add: m unat_strlen16 unat_of_nat_small)
  have h: "header_type 48 = msg_code PUBLISH" "header_qos 48 = 0"
    by (simp_all add: header_type_def header_qos_def)
  have body: "publish_body (ucast (header_qos 48)) i (strlen16 topic) (bytes_of topic) (bytes_of v)
      = write_uint_16 (strlen16 topic) @ bytes_of topic @ bytes_of v" for i
    by (simp add: publish_body_def h(2))
  have "length (publish_body (ucast (header_qos 48)) 0 (strlen16 topic) (bytes_of topic) (bytes_of v)) < 268435456"
    using assms by (simp add: body m write_uint_16_def)
  from deserialize_publish_frame [OF h(1) _ _ this, of 512 rest] obtain x where
    "deserialize_publish (wire_message m @ rest) 512 = Some (Inr x)"
    "in_topicLen x = strlen16 topic" "in_payloadLen x = of_nat (length v)"
    "take (length topic) (drop (in_topic x) (wire_message m @ rest)) = bytes_of topic"
    "take (length v) (drop (in_payload x) (wire_message m @ rest)) = bytes_of v"
    by (auto simp: n body wire_message_def m)
  then show ?thesis by (auto simp: receiver_reads_def m n)
qed

text \<open>The messages a round owes: at most one reading, only on external supply, then at most one state message.\<close>

definition due_reading :: "app \<Rightarrow> string list" where
  "due_reading a = (case Queue_data a of Text v # q \<Rightarrow> if energy a then [v] else [] | _ \<Rightarrow> [])"

definition due :: "app \<Rightarrow> (string \<times> string) list" where
  "due a = map (Pair DATA_TOPIC) (due_reading a) @ map (Pair STATE_TOPIC) (take 1 (Queue_state a))"

definition after_round :: "app \<Rightarrow> app" where
  "after_round a = a\<lparr>Queue_data := drop (length (due_reading a)) (Queue_data a), Queue_state := drop 1 (Queue_state a)\<rparr>"

text \<open>The reading at the head of the queue, if any, is a string: the connector found it in the store.\<close>

definition head_readable :: "app \<Rightarrow> bool" where
  "head_readable a \<longleftrightarrow> (case Queue_data a of [] \<Rightarrow> True | x # q \<Rightarrow> energy a \<longrightarrow> (\<exists>v. x = Text v))"

lemma put_ready: "client_ready c \<Longrightarrow> length bs < 512 \<Longrightarrow> client_ready (put_packet bs c)"
  by (simp add: client_ready_def put_packet_def may_start_def)

lemma c_str_not_None [simp]: "c_str s \<noteq> None"
  by (simp add: c_str_def)

lemma wire_message_nonempty [simp]: "wire_message m \<noteq> []"
  by (simp add: wire_message_def frame_def split: prod.split)

text \<open>A working network under the firmware: what is on the wire is a part of the world the tasks do not share.\<close>

definition cloud_up :: "'x cloud platform \<Rightarrow> ('x cloud \<Rightarrow> nat) \<Rightarrow> ('x \<Rightarrow> u8 list) \<Rightarrow> bool" where
  "cloud_up P time wire \<longleftrightarrow> link_up P time (\<lambda>w. wire (net_state w)) firmware"

lemma cloud_up_firmware: "cloud_up (firmware_platform env P) time wire = cloud_up P time wire"
  by (simp add: cloud_up_def link_up_def mutexes_work_def firmware_platform_def with_subscriber_def
      platform_keeps_def no_write_def)

text \<open>Publishing one text: what the two branches of the loop have in common.\<close>

lemma text_published:
  assumes up: "cloud_up P time wire" and ready: "client_ready (cl s)"
    and topic: "length topic \<le> 20" "strlen16 topic \<noteq> 0" and v: "length v \<le> 400"
    and params: "msg_qos params = QOS0" "msg_isRetained params = 0"
  obtains s' where "aws_iot_mqtt_publish P (c_str topic) (strlen16 topic) (Some (set_payload v params)) s = Some (SUCCESS, s')"
    "wire (net_state (wd s')) = wire (net_state (wd s)) @ wire_message (topic, v)" "client_ready (cl s')"
    "firmware (wd s') = firmware (wd s)"
proof -
  let ?m = "wire_message (topic, v)"
  obtain w where "aws_iot_mqtt_publish P (c_str topic) (strlen16 topic) (Some (set_payload v params)) s
      = Some (SUCCESS, s\<lparr>cl := put_packet ?m (cl s), wd := w\<rparr>)"
    "wire (net_state w) = wire (net_state (wd s)) @ ?m" "firmware w = firmware (wd s)"
    by (rule publish_delivers [OF up [unfolded cloud_up_def] ready, of "set_payload v params" "c_str topic" "strlen16 topic" ?m])
      (use serialize_message [OF topic(1) v] topic(2) params in \<open>simp_all add: set_payload_def\<close>)
  then show ?thesis
    using put_ready [OF ready serialize_message(2) [OF topic(1) v]]
    by (intro that [of "s\<lparr>cl := put_packet ?m (cl s), wd := w\<rparr>"]) simp_all
qed

lemma update_firmware_simps [simp]:
  "cl (update_firmware f s) = cl s" "net_state (wd (update_firmware f s)) = net_state (wd s)"
  "firmware (wd (update_firmware f s)) = f (firmware (wd s))"
  by (simp_all add: update_firmware_def)

lemma set_payload_simps [simp]:
  "msg_qos (set_payload v p) = msg_qos p" "msg_isRetained (set_payload v p) = msg_isRetained p"
  by (simp_all add: set_payload_def)

lemma topic_sizes:
  "length DATA_TOPIC \<le> 20" "strlen16 DATA_TOPIC \<noteq> 0" "length STATE_TOPIC \<le> 20" "strlen16 STATE_TOPIC \<noteq> 0"
  by (simp_all add: DATA_TOPIC_def STATE_TOPIC_def strlen16_def)

lemma data_published:
  assumes up: "cloud_up P time wire" and ready: "client_ready (cl s)"
    and params: "msg_qos params = QOS0" "msg_isRetained params = 0" and rc: "loop_goes_on rc"
    and texts: "head_readable (firmware (wd s))" "\<forall>v \<in> set (due_reading (firmware (wd s))). length v \<le> 400"
  obtains rc' params' s' where "publish_data P (rc, params, s) = Some (rc', params', s')" "loop_goes_on rc'"
    "msg_qos params' = QOS0" "msg_isRetained params' = 0" "client_ready (cl s')"
    "wire (net_state (wd s')) = wire (net_state (wd s))
       @ concat (map wire_message (map (Pair DATA_TOPIC) (due_reading (firmware (wd s)))))"
    "firmware (wd s') = (firmware (wd s))
       \<lparr>Queue_data := drop (length (due_reading (firmware (wd s)))) (Queue_data (firmware (wd s)))\<rparr>"
proof (cases "Queue_data (firmware (wd s)) = [] \<or> \<not> energy (firmware (wd s))")
  case True
  then have "due_reading (firmware (wd s)) = []" "publish_data P (rc, params, s) = Some (rc, params, s)"
    by (auto simp: due_reading_def publish_data_def split: list.split heap_str.split)
  then show ?thesis using ready params rc by (intro that [of rc params s]) simp_all
next
  case False
  then obtain v q where q: "Queue_data (firmware (wd s)) = Text v # q" and on: "energy (firmware (wd s))"
    using texts(1) by (cases "Queue_data (firmware (wd s))") (auto simp: head_readable_def)
  then have dr: "due_reading (firmware (wd s)) = [v]" by (simp add: due_reading_def)
  let ?s = "update_firmware (\<lambda>a. a\<lparr>Queue_data := q\<rparr>) s"
  have "client_ready (cl ?s)" "length v \<le> 400" using ready texts(2) dr by simp_all
  from text_published [OF up this(1) topic_sizes(1,2) this(2) params] obtain s' where
    "aws_iot_mqtt_publish P (c_str DATA_TOPIC) (strlen16 DATA_TOPIC) (Some (set_payload v params)) ?s = Some (SUCCESS, s')"
    "wire (net_state (wd s')) = wire (net_state (wd ?s)) @ wire_message (DATA_TOPIC, v)" "client_ready (cl s')"
    "firmware (wd s') = firmware (wd ?s)"
    by blast
  then show ?thesis
    using q on dr params by (intro that [of SUCCESS "set_payload v params" s'])
      (simp_all add: publish_data_def Let_def loop_goes_on_def)
qed

lemma state_published:
  assumes up: "cloud_up P time wire" and ready: "client_ready (cl s)"
    and params: "msg_qos params = QOS0" "msg_isRetained params = 0" and rc: "loop_goes_on rc"
    and texts: "\<forall>v \<in> set (take 1 (Queue_state (firmware (wd s)))). length v \<le> 400"
  obtains rc' params' s' where "publish_state P (rc, params, s) = Some (rc', params', s')" "loop_goes_on rc'"
    "wire (net_state (wd s')) = wire (net_state (wd s))
       @ concat (map wire_message (map (Pair STATE_TOPIC) (take 1 (Queue_state (firmware (wd s))))))"
    "firmware (wd s') = (firmware (wd s))\<lparr>Queue_state := drop 1 (Queue_state (firmware (wd s)))\<rparr>"
proof (cases "Queue_state (firmware (wd s))")
  case Nil
  then show ?thesis using rc by (intro that [of rc params s]) (simp_all add: publish_state_def)
next
  case (Cons v q)
  let ?s = "update_firmware (\<lambda>a. a\<lparr>Queue_state := q\<rparr>) s"
  have "client_ready (cl ?s)" "length v \<le> 400" using ready texts Cons by simp_all
  from text_published [OF up this(1) topic_sizes(3,4) this(2) params] obtain s' where
    "aws_iot_mqtt_publish P (c_str STATE_TOPIC) (strlen16 STATE_TOPIC) (Some (set_payload v params)) ?s = Some (SUCCESS, s')"
    "wire (net_state (wd s')) = wire (net_state (wd ?s)) @ wire_message (STATE_TOPIC, v)"
    "firmware (wd s') = firmware (wd ?s)"
    by blast
  then show ?thesis
    using Cons by (intro that [of SUCCESS "set_payload v params" s'])
      (simp_all add: publish_state_def Let_def loop_goes_on_def)
qed

text \<open>(C4) A round of the task on a working network puts on the wire exactly the messages that are due once the client
  has done its background work, in the protocol's format, so that a receiver reads the topics and the texts; it takes them
  off the queues, and the loop goes on.\<close>

theorem round_publishes_due:
  assumes up: "cloud_up P time wire"
    and yield: "aws_iot_mqtt_yield (firmware_platform env P) 100 s = Some (rc1, s1)" "rc1 = SUCCESS \<or> rc1 = NETWORK_RECONNECTED"
    and ready: "client_ready (cl s1)" and params: "msg_qos params = QOS0" "msg_isRetained params = 0"
    and texts: "head_readable (firmware (wd s1))" "\<forall>m \<in> set (due (firmware (wd s1))). length (snd m) \<le> 400"
  shows "\<exists>rc params' s' w. aws_iot_pass (firmware_platform env P) R (params, s) = Some (rc, params', s') \<and> loop_goes_on rc
    \<and> wd s' = task_delay R 500 w \<and> firmware w = after_round (firmware (wd s1))
    \<and> wire (net_state w) = wire (net_state (wd s1)) @ concat (map wire_message (due (firmware (wd s1))))
    \<and> (\<forall>m \<in> set (due (firmware (wd s1))). \<forall>rest. receiver_reads (wire_message m @ rest) m)"
proof -
  let ?P = "firmware_platform env P" and ?a = "firmware (wd s1)"
  have up': "cloud_up ?P time wire" using up by (simp add: cloud_up_firmware)
  have goes: "loop_goes_on rc1" "rc1 \<noteq> NETWORK_ATTEMPTING_RECONNECT" using yield(2) by (auto simp: loop_goes_on_def)
  have small: "\<forall>v \<in> set (due_reading ?a). length v \<le> 400" "\<forall>v \<in> set (take 1 (Queue_state ?a)). length v \<le> 400"
    using texts(2) by (simp_all add: due_def ball_Un)
  from data_published [OF up' ready params goes(1) texts(1) small(1)] obtain rc2 params2 s2 where
    d: "publish_data ?P (rc1, params, s1) = Some (rc2, params2, s2)" "loop_goes_on rc2"
      "msg_qos params2 = QOS0" "msg_isRetained params2 = 0" "client_ready (cl s2)"
      "wire (net_state (wd s2)) = wire (net_state (wd s1)) @ concat (map wire_message (map (Pair DATA_TOPIC) (due_reading ?a)))"
      "firmware (wd s2) = ?a\<lparr>Queue_data := drop (length (due_reading ?a)) (Queue_data ?a)\<rparr>" .
  have "\<forall>v \<in> set (take 1 (Queue_state (firmware (wd s2)))). length v \<le> 400" using small(2) d(7) by simp
  from state_published [OF up' d(5,3,4,2) this] obtain rc3 params3 s3 where
    st: "publish_state ?P (rc2, params2, s2) = Some (rc3, params3, s3)" "loop_goes_on rc3"
      "wire (net_state (wd s3)) = wire (net_state (wd s2))
         @ concat (map wire_message (map (Pair STATE_TOPIC) (take 1 (Queue_state (firmware (wd s2))))))"
      "firmware (wd s3) = (firmware (wd s2))\<lparr>Queue_state := drop 1 (Queue_state (firmware (wd s2)))\<rparr>" .
  have "aws_iot_pass ?P R (params, s)
      = Some (rc3, params3, s3\<lparr>wd := task_delay R 500 (wd s3)\<rparr>)"
    using yield(1) goes(2) d(1) st(1) by (simp add: aws_iot_pass_def)
  moreover have "\<forall>m \<in> set (due ?a). \<forall>rest. receiver_reads (wire_message m @ rest) m"
    using texts(2) topic_sizes by (auto simp: due_def intro!: wire_message_read)
  ultimately show ?thesis
    using st d
    by (intro exI [of _ rc3] exI [of _ params3] exI [of _ "s3\<lparr>wd := task_delay R 500 (wd s3)\<rparr>"] exI [of _ "wd s3"]) (simp add: due_def after_round_def)
qed

lemma demo_cloud_up: "cloud_up demo_cloud (\<lambda>w. nat (clock (net_state w))) outgoing"
  unfolding cloud_up_def link_up_def
  by (auto simp: mutexes_work_def platform_keeps_def demo_cloud_def no_write_def on_net_def prompt_def
      steady_def demo_def link_read_def link_write_def split: if_splits)

definition busy_app :: app where
  "busy_app = start_app\<lparr>energy := True, Queue_data := [Text ''abc'', Text ''def''], Queue_state := [''xy'']\<rparr>"

theorem round_publishes_due_witness:
  "\<exists>rc params s w. aws_iot_pass (firmware_platform quiet_env demo_cloud) cloud_demo_calls (demo_message, cloud_state idle_client busy_app [])
      = Some (rc, params, s) \<and> wd s = w \<and> Queue_data (firmware w) = [Text ''def''] \<and> Queue_state (firmware w) = []
    \<and> (\<exists>pre. outgoing (net_state w) = pre @ wire_message (DATA_TOPIC, ''abc'') @ wire_message (STATE_TOPIC, ''xy''))"
proof -
  let ?P = "firmware_platform quiet_env demo_cloud" and ?s = "cloud_state idle_client busy_app []"
  have "map_option (\<lambda>(rc, s). (rc, clientState (cl s), writeBufSize (cl s), length (writeBuf (cl s)), commandTimeoutMs (cl s),
        energy (firmware (wd s)), Queue_data (firmware (wd s)), Queue_state (firmware (wd s)))) (aws_iot_mqtt_yield ?P 100 ?s)
      = Some (SUCCESS, CLIENT_STATE_CONNECTED_IDLE, 512, 512, 20000, True, [Text ''abc'', Text ''def''], [''xy''])"
    by code_simp
  then obtain s1 where yield: "aws_iot_mqtt_yield ?P 100 ?s = Some (SUCCESS, s1)"
    and c: "clientState (cl s1) = CLIENT_STATE_CONNECTED_IDLE" "writeBufSize (cl s1) = 512" "length (writeBuf (cl s1)) = 512"
      "commandTimeoutMs (cl s1) = 20000"
    and a: "energy (firmware (wd s1))" "Queue_data (firmware (wd s1)) = [Text ''abc'', Text ''def'']"
      "Queue_state (firmware (wd s1)) = [''xy'']"
    by auto
  have due: "due (firmware (wd s1)) = [(DATA_TOPIC, ''abc''), (STATE_TOPIC, ''xy'')]"
    by (simp add: due_def due_reading_def a)
  have "\<exists>rc params' s' w. aws_iot_pass ?P cloud_demo_calls (demo_message, ?s) = Some (rc, params', s') \<and> loop_goes_on rc
    \<and> wd s' = task_delay cloud_demo_calls 500 w \<and> firmware w = after_round (firmware (wd s1))
    \<and> outgoing (net_state w) = outgoing (net_state (wd s1)) @ concat (map wire_message (due (firmware (wd s1))))
    \<and> (\<forall>m \<in> set (due (firmware (wd s1))). \<forall>rest. receiver_reads (wire_message m @ rest) m)"
    by (rule round_publishes_due [OF demo_cloud_up yield])
      (use c a in \<open>simp_all add: client_ready_def may_start_def demo_message_def head_readable_def due\<close>)
  then show ?thesis using a by (auto simp: due cloud_demo_calls_def after_round_def due_reading_def)
qed

text \<open>(C39) Whatever the network does to it, a reading the task takes from the queue counts as sent: on a platform with
  working mutexes publishing it reports success, so the loop goes on, and the reading is gone from the queue.\<close>

theorem failed_transmission_loses_reading:
  assumes works: "mutexes_work P" and still: "platform_keeps (\<lambda>w w'. firmware w' = firmware w) P"
    and ready: "client_ready (cl s)" and params: "msg_qos params = QOS0" "msg_isRetained params = 0"
    and reading: "Queue_data (firmware (wd s)) = Text v # q" "energy (firmware (wd s))" "length v \<le> 400"
    and run: "publish_data (firmware_platform env P) (rc, params, s) = Some (rc', params', s')"
  shows "rc' = SUCCESS \<and> loop_goes_on rc' \<and> Queue_data (firmware (wd s')) = q"
proof -
  let ?P = "firmware_platform env P" and ?s = "update_firmware (\<lambda>a. a\<lparr>Queue_data := q\<rparr>) s"
  have publish: "aws_iot_mqtt_publish ?P (c_str DATA_TOPIC) (strlen16 DATA_TOPIC) (Some (set_payload v params)) ?s = Some (rc', s')"
    using run reading by (auto simp: publish_data_def Let_def Option.bind_eq_Some_conv)
  have "mutexes_work ?P" using works by (simp add: mutexes_work_def firmware_platform_def with_subscriber_def)
  then have "rc' = SUCCESS"
    by (rule publish_hides_send_failure [OF _ _ _ _ _ _ _ publish])
      (use ready params topic_sizes(2) serialize_message [OF topic_sizes(1) reading(3)] in
        \<open>simp_all add: client_ready_def set_payload_def\<close>)
  moreover have "platform_keeps (\<lambda>w w'. (firmware w', ()) = (firmware w, ())) ?P"
    using still by (simp add: platform_of_firmware)
  from sending.publish0_world [OF this _ publish, of "wd ?s"] params
  have "firmware (wd s') = firmware (wd ?s)" by simp
  ultimately show ?thesis by (simp add: loop_goes_on_def)
qed

theorem failed_transmission_loses_reading_witness:
  "case publish_data (firmware_platform quiet_env dead_cloud) (SUCCESS, demo_message, cloud_state idle_client busy_app []) of
     None \<Rightarrow> False
   | Some (rc, params, s) \<Rightarrow> rc = SUCCESS \<and> Queue_data (firmware (wd s)) = [Text ''def''] \<and> outgoing (net_state (wd s)) = []"
proof -
  let ?P = "firmware_platform quiet_env dead_cloud" and ?s = "cloud_state idle_client busy_app []"
  have "map_option (\<lambda>(rc, params, s). outgoing (net_state (wd s))) (publish_data ?P (SUCCESS, demo_message, ?s)) = Some []"
    by code_simp
  then obtain rc params s where run: "publish_data ?P (SUCCESS, demo_message, ?s) = Some (rc, params, s)"
    and unsent: "outgoing (net_state (wd s)) = []"
    by auto
  have "mutexes_work dead_cloud" "platform_keeps (\<lambda>w w'. firmware w' = firmware w) dead_cloud"
    by (auto simp: dead_cloud_def mutexes_work_def platform_keeps_def demo_cloud_def on_net_def split: prod.splits)
  from failed_transmission_loses_reading [OF this _ _ _ _ _ _ run, of "''abc''" "[Text ''def'']"]
  show ?thesis using run unsent
    by (simp add: cloud_state_def idle_client_def client_ready_def may_start_def demo_message_def busy_app_def
        AWS_IOT_MQTT_TX_BUF_LEN_def)
qed

end
