(* ===== verification/Jsmn.thy ===== *)
theory Jsmn
  imports Prelude
begin

text \<open>
  The JSON tokenizer (\<open>jsmn.c\<close>), compiled without parent links and not in strict mode. The text is a
  string of which the parser may read \<open>len\<close> characters, less if there is a zero character before; the
  tokens are the caller's array, or \<^term>\<open>None\<close> where the caller passes \<open>NULL\<close> to have the tokens counted only.
  Positions are natural numbers; in a token they are \<open>int\<close>s, and -1 is a bound not yet known.
  \<^term>\<open>None\<close> is a read or write outside the text or the array.
\<close>

datatype jsmntype_t = JSMN_UNDEFINED | JSMN_OBJECT | JSMN_ARRAY | JSMN_STRING | JSMN_PRIMITIVE

record jsmntok_t =
  tok_type :: jsmntype_t
  tok_start :: int
  tok_end :: int
  tok_size :: int

record jsmn_parser =
  pos :: nat
  toknext :: nat
  toksuper :: int

definition JSMN_ERROR_NOMEM :: int where "JSMN_ERROR_NOMEM = -1"
definition JSMN_ERROR_INVAL :: int where "JSMN_ERROR_INVAL = -2"
definition JSMN_ERROR_PART :: int where "JSMN_ERROR_PART = -3"

definition jsmn_init :: jsmn_parser where
  "jsmn_init = \<lparr>pos = 0, toknext = 0, toksuper = -1\<rparr>"

subsection \<open>Reading the text\<close>

text \<open>\<open>js[k]\<close>, and the loop condition \<open>k < len && js[k] != '\0'\<close> with the character it lets through.\<close>

definition char_at :: "string \<Rightarrow> nat \<Rightarrow> char option" where
  "char_at js k = (if k < length js then Some (js ! k) else None)"

definition next_char :: "string \<Rightarrow> nat \<Rightarrow> nat \<Rightarrow> char option option" where
  "next_char js len k =
     (if k < len then do { c \<leftarrow> char_at js k; Some (if c = NUL then None else Some c) } else Some None)"

abbreviation DQUOTE :: char where "DQUOTE \<equiv> CHR 0x22"
abbreviation BACKSLASH :: char where "BACKSLASH \<equiv> CHR 0x5C"

definition white :: "char \<Rightarrow> bool" where
  "white c \<longleftrightarrow> c = CHR 0x09 \<or> c = CHR 0x0D \<or> c = CHR 0x0A \<or> c = CHR '' ''"

definition ends_primitive :: "char \<Rightarrow> bool" where
  "ends_primitive c \<longleftrightarrow> c = CHR '':'' \<or> white c \<or> c = CHR '','' \<or> c = CHR '']'' \<or> c = CHR ''}''"

definition json_char :: "char \<Rightarrow> bool" where
  "json_char c \<longleftrightarrow> 32 \<le> (of_char c :: nat) \<and> (of_char c :: nat) < 127"

definition hex_digit :: "char \<Rightarrow> bool" where
  "hex_digit c \<longleftrightarrow> (let k = (of_char c :: nat) in 48 \<le> k \<and> k \<le> 57 \<or> 65 \<le> k \<and> k \<le> 70 \<or> 97 \<le> k \<and> k \<le> 102)"

subsection \<open>The array of tokens\<close>

definition tok_at :: "jsmntok_t list \<Rightarrow> nat \<Rightarrow> jsmntok_t option" where
  "tok_at ts i = (if i < length ts then Some (ts ! i) else None)"

text \<open>The token taken is returned by its index; \<open>NULL\<close> is the inner \<^term>\<open>None\<close>.\<close>

definition jsmn_alloc_token ::
  "jsmn_parser \<Rightarrow> jsmntok_t list \<Rightarrow> nat \<Rightarrow> (nat option \<times> jsmn_parser \<times> jsmntok_t list) option"
where
  "jsmn_alloc_token p ts num_tokens =
     (if num_tokens \<le> toknext p then Some (None, p, ts)
      else do {
        t \<leftarrow> tok_at ts (toknext p);
        Some (Some (toknext p), p\<lparr>toknext := toknext p + 1\<rparr>,
              ts[toknext p := t\<lparr>tok_start := -1, tok_end := -1, tok_size := 0\<rparr>])
      })"

definition jsmn_fill_token :: "jsmntok_t \<Rightarrow> jsmntype_t \<Rightarrow> int \<Rightarrow> int \<Rightarrow> jsmntok_t" where
  "jsmn_fill_token t ty a b = t\<lparr>tok_type := ty, tok_start := a, tok_end := b, tok_size := 0\<rparr>"

text \<open>\<open>if (toksuper != -1) tokens[toksuper].size++\<close>\<close>

definition count_child :: "jsmn_parser \<Rightarrow> jsmntok_t list \<Rightarrow> jsmntok_t list option" where
  "count_child p ts =
     (if toksuper p = -1 then Some ts
      else if toksuper p < 0 then None
      else do {
        t \<leftarrow> tok_at ts (nat (toksuper p));
        Some (ts[nat (toksuper p) := t\<lparr>tok_size := tok_size t + 1\<rparr>])
      })"

definition is_open :: "jsmntok_t \<Rightarrow> bool" where
  "is_open t \<longleftrightarrow> tok_start t \<noteq> -1 \<and> tok_end t = -1"

definition is_container :: "jsmntok_t \<Rightarrow> bool" where
  "is_container t \<longleftrightarrow> tok_type t = JSMN_ARRAY \<or> tok_type t = JSMN_OBJECT"

text \<open>The loops \<open>for (i = n - 1; i >= 0; i--)\<close> that end at the first token with a property.\<close>

fun last_token :: "(jsmntok_t \<Rightarrow> bool) \<Rightarrow> jsmntok_t list \<Rightarrow> nat \<Rightarrow> nat option option" where
  "last_token Q ts 0 = Some None"
| "last_token Q ts (Suc i) = do {
     t \<leftarrow> tok_at ts i;
     if Q t then Some (Some i) else last_token Q ts i
   }"

subsection \<open>Primitives and strings\<close>

text \<open>How far a primitive reaches; \<open>Inl\<close> is a character that may not be in one.\<close>

function primitive_end :: "string \<Rightarrow> nat \<Rightarrow> nat \<Rightarrow> (unit + nat) option" where
  "primitive_end js len k = do {
     c \<leftarrow> next_char js len k;
     case c of
       None \<Rightarrow> Some (Inr k)
     | Some c \<Rightarrow>
         if ends_primitive c then Some (Inr k)
         else if \<not> json_char c then Some (Inl ())
         else primitive_end js len (k + 1)
   }"
  by pat_completeness auto
termination
  by (relation "measure (\<lambda>(js, len, k). len - k)") (auto simp: next_char_def split: if_splits)

text \<open>
  The result of the two functions below: the \<open>int\<close> they return, the parser and the tokens. After success the position
  is that of the last character of the token; after an error it is that of the first.
\<close>

definition jsmn_parse_primitive ::
  "jsmn_parser \<Rightarrow> string \<Rightarrow> nat \<Rightarrow> jsmntok_t list option \<Rightarrow> nat \<Rightarrow> (int \<times> jsmn_parser \<times> jsmntok_t list option) option"
where
  "jsmn_parse_primitive p js len tokens num_tokens = do {
     r \<leftarrow> primitive_end js len (pos p);
     case r of
       Inl _ \<Rightarrow> Some (JSMN_ERROR_INVAL, p, tokens)
     | Inr k \<Rightarrow>
         (case tokens of
            None \<Rightarrow> Some (0, p\<lparr>pos := k - 1\<rparr>, None)
          | Some ts \<Rightarrow> do {
              (tok, p', ts) \<leftarrow> jsmn_alloc_token p ts num_tokens;
              case tok of
                None \<Rightarrow> Some (JSMN_ERROR_NOMEM, p', Some ts)
              | Some i \<Rightarrow> Some (0, p'\<lparr>pos := k - 1\<rparr>,
                  Some (ts[i := jsmn_fill_token (ts ! i) JSMN_PRIMITIVE (int (pos p)) (int k)]))
            })
   }"

text \<open>The four characters behind \<open>\u\<close>, fewer at the end of the text: the position behind them.\<close>

fun hex_end :: "string \<Rightarrow> nat \<Rightarrow> nat \<Rightarrow> nat \<Rightarrow> (unit + nat) option" where
  "hex_end js len 0 k = Some (Inr k)"
| "hex_end js len (Suc n) k = do {
     c \<leftarrow> next_char js len k;
     case c of
       None \<Rightarrow> Some (Inr k)
     | Some c \<Rightarrow> if \<not> hex_digit c then Some (Inl ()) else hex_end js len n (k + 1)
   }"

text \<open>The position of the last character of an escape whose backslash is at \<open>k\<close>.\<close>

definition escape_end :: "string \<Rightarrow> nat \<Rightarrow> nat \<Rightarrow> (unit + nat) option" where
  "escape_end js len k = do {
     c \<leftarrow> char_at js (k + 1);
     if c \<in> {DQUOTE, CHR ''/'', BACKSLASH, CHR ''b'', CHR ''f'', CHR ''r'', CHR ''n'', CHR ''t''} then Some (Inr (k + 1))
     else if c = CHR ''u'' then do {
       r \<leftarrow> hex_end js len 4 (k + 2);
       Some (case r of Inl _ \<Rightarrow> Inl () | Inr j \<Rightarrow> Inr (j - 1))
     }
     else Some (Inl ())
   }"

lemma hex_end_behind: "hex_end js len n k = Some (Inr j) \<Longrightarrow> k \<le> j"
  by (induction js len n k rule: hex_end.induct)
    (auto simp: Option.bind_eq_Some_conv split: option.splits if_splits)

lemma escape_end_behind:
  assumes "escape_end js len k = Some (Inr j)"
  shows "k < j"
proof -
  from assms consider "j = k + 1" | i where "hex_end js len 4 (k + 2) = Some (Inr i)" "j = i - 1"
    by (cases "hex_end js len 4 (k + 2)")
      (auto simp: escape_end_def Option.bind_eq_Some_conv split: if_splits sum.split_asm)
  then show ?thesis by cases (auto dest: hex_end_behind)
qed

text \<open>The position of the closing quote, or the error.\<close>

function string_end :: "string \<Rightarrow> nat \<Rightarrow> nat \<Rightarrow> (int + nat) option" where
  "string_end js len k = do {
     c \<leftarrow> next_char js len k;
     case c of
       None \<Rightarrow> Some (Inl JSMN_ERROR_PART)
     | Some c \<Rightarrow>
         if c = DQUOTE then Some (Inr k)
         else if c = BACKSLASH \<and> k + 1 < len then do {
           e \<leftarrow> escape_end js len k;
           case e of
             Inl _ \<Rightarrow> Some (Inl JSMN_ERROR_INVAL)
           | Inr j \<Rightarrow> string_end js len (j + 1)
         }
         else string_end js len (k + 1)
   }"
  by pat_completeness auto
termination
  by (relation "measure (\<lambda>(js, len, k). len - k)")
    (auto simp: next_char_def dest!: escape_end_behind split: if_splits)

definition jsmn_parse_string ::
  "jsmn_parser \<Rightarrow> string \<Rightarrow> nat \<Rightarrow> jsmntok_t list option \<Rightarrow> nat \<Rightarrow> (int \<times> jsmn_parser \<times> jsmntok_t list option) option"
where
  "jsmn_parse_string p js len tokens num_tokens = do {
     r \<leftarrow> string_end js len (pos p + 1);
     case r of
       Inl e \<Rightarrow> Some (e, p, tokens)
     | Inr k \<Rightarrow>
         (case tokens of
            None \<Rightarrow> Some (0, p\<lparr>pos := k\<rparr>, None)
          | Some ts \<Rightarrow> do {
              (tok, p', ts) \<leftarrow> jsmn_alloc_token p ts num_tokens;
              case tok of
                None \<Rightarrow> Some (JSMN_ERROR_NOMEM, p', Some ts)
              | Some i \<Rightarrow> Some (0, p'\<lparr>pos := k\<rparr>,
                  Some (ts[i := jsmn_fill_token (ts ! i) JSMN_STRING (int (pos p) + 1) (int k)]))
            })
   }"

declare primitive_end.simps [simp del] string_end.simps [simp del]

subsection \<open>The parser\<close>

text \<open>
  One pass of the loop in \<open>jsmn_parse\<close> on the character \<open>c\<close> at the parser's position: an error code to be
  returned, or the new count and state; the parser moves on by one character afterwards.
\<close>

definition type_of_bracket :: "char \<Rightarrow> jsmntype_t" where
  "type_of_bracket c = (if c = CHR ''{'' \<or> c = CHR ''}'' then JSMN_OBJECT else JSMN_ARRAY)"

type_synonym jsmn_result = "(int + int) \<times> jsmn_parser \<times> jsmntok_t list option"

definition open_bracket ::
  "char \<Rightarrow> int \<Rightarrow> jsmn_parser \<Rightarrow> jsmntok_t list option \<Rightarrow> nat \<Rightarrow> jsmn_result option"
where
  "open_bracket c cnt p tokens num_tokens =
     (case tokens of
        None \<Rightarrow> Some (Inr (cnt + 1), p, None)
      | Some ts \<Rightarrow> do {
          (tok, p', ts) \<leftarrow> jsmn_alloc_token p ts num_tokens;
          case tok of
            None \<Rightarrow> Some (Inl JSMN_ERROR_NOMEM, p', Some ts)
          | Some i \<Rightarrow> do {
              ts \<leftarrow> count_child p' ts;
              let ts = ts[i := (ts ! i)\<lparr>tok_type := type_of_bracket c, tok_start := int (pos p)\<rparr>];
              Some (Inr (cnt + 1), p'\<lparr>toksuper := int (toknext p') - 1\<rparr>, Some ts)
            }
        })"

text \<open>The innermost open token is closed, and the one around it becomes the superior.\<close>

definition close_bracket ::
  "char \<Rightarrow> int \<Rightarrow> jsmn_parser \<Rightarrow> jsmntok_t list option \<Rightarrow> jsmn_result option"
where
  "close_bracket c cnt p tokens =
     (case tokens of
        None \<Rightarrow> Some (Inr cnt, p, None)
      | Some ts \<Rightarrow> do {
          r \<leftarrow> last_token is_open ts (toknext p);
          case r of
            None \<Rightarrow> Some (Inl JSMN_ERROR_INVAL, p, Some ts)
          | Some i \<Rightarrow>
              if tok_type (ts ! i) \<noteq> type_of_bracket c then Some (Inl JSMN_ERROR_INVAL, p, Some ts)
              else do {
                let ts = ts[i := (ts ! i)\<lparr>tok_end := int (pos p) + 1\<rparr>];
                j \<leftarrow> last_token is_open ts (i + 1);
                Some (Inr cnt, p\<lparr>toksuper := (case j of None \<Rightarrow> -1 | Some j \<Rightarrow> int j)\<rparr>, Some ts)
              }
        })"

text \<open>After a comma the superior is no longer the key of the last value but the object around it.\<close>

definition comma :: "int \<Rightarrow> jsmn_parser \<Rightarrow> jsmntok_t list option \<Rightarrow> jsmn_result option" where
  "comma cnt p tokens =
     (case tokens of
        None \<Rightarrow> Some (Inr cnt, p, None)
      | Some ts \<Rightarrow>
          if toksuper p = -1 then Some (Inr cnt, p, Some ts)
          else if toksuper p < 0 then None
          else do {
            t \<leftarrow> tok_at ts (nat (toksuper p));
            if is_container t then Some (Inr cnt, p, Some ts)
            else do {
              r \<leftarrow> last_token (\<lambda>t. is_container t \<and> is_open t) ts (toknext p);
              Some (Inr cnt, (case r of None \<Rightarrow> p | Some i \<Rightarrow> p\<lparr>toksuper := int i\<rparr>), Some ts)
            }
          })"

text \<open>What follows a string or primitive: an error is returned, success counts the token.\<close>

definition count_token ::
  "int \<Rightarrow> int \<times> jsmn_parser \<times> jsmntok_t list option \<Rightarrow> jsmn_result option"
where
  "count_token cnt = (\<lambda>(r, p, tokens).
     if r < 0 then Some (Inl r, p, tokens)
     else case tokens of
       None \<Rightarrow> Some (Inr (cnt + 1), p, None)
     | Some ts \<Rightarrow> do { ts \<leftarrow> count_child p ts; Some (Inr (cnt + 1), p, Some ts) })"

definition parse_step ::
  "char \<Rightarrow> string \<Rightarrow> nat \<Rightarrow> nat \<Rightarrow> int \<Rightarrow> jsmn_parser \<Rightarrow> jsmntok_t list option \<Rightarrow> jsmn_result option"
where
  "parse_step c js len num_tokens cnt p tokens =
     (if c = CHR ''{'' \<or> c = CHR ''['' then open_bracket c cnt p tokens num_tokens
      else if c = CHR ''}'' \<or> c = CHR '']'' then close_bracket c cnt p tokens
      else if c = DQUOTE then do { r \<leftarrow> jsmn_parse_string p js len tokens num_tokens; count_token cnt r }
      else if white c then Some (Inr cnt, p, tokens)
      else if c = CHR '':'' then Some (Inr cnt, p\<lparr>toksuper := int (toknext p) - 1\<rparr>, tokens)
      else if c = CHR '','' then comma cnt p tokens
      else do { r \<leftarrow> jsmn_parse_primitive p js len tokens num_tokens; count_token cnt r })"

text \<open>A pass never moves backwards.\<close>

lemma primitive_end_from: "primitive_end js len k = Some (Inr j) \<Longrightarrow> k \<le> j"
proof (induction js len k rule: primitive_end.induct)
  case (1 js len k)
  then show ?case
    by (subst (asm) (2) primitive_end.simps)
      (fastforce simp: Option.bind_eq_Some_conv split: option.splits if_splits)
qed

lemma primitive_end_behind:
  assumes "primitive_end js len k = Some (Inr j)" and "next_char js len k = Some (Some c)" and "\<not> ends_primitive c"
  shows "k < j"
proof -
  have "primitive_end js len (k + 1) = Some (Inr j)"
    using assms by (subst (asm) primitive_end.simps) (auto split: if_splits)
  from primitive_end_from [OF this] show ?thesis by simp
qed

lemma string_end_from: "string_end js len k = Some (Inr j) \<Longrightarrow> k \<le> j"
proof (induction js len k rule: string_end.induct)
  case (1 js len k)
  note run = "1.prems" [unfolded string_end.simps [of js len k]]
  obtain c where c: "next_char js len k = Some (Some c)"
    using run by (auto simp: Option.bind_eq_Some_conv split: option.splits)
  note run = run [unfolded c, simplified]
  show ?case
  proof (cases "c = BACKSLASH \<and> k + 1 < len")
    case True
    then obtain e where e: "escape_end js len k = Some e"
      using run by (auto simp: Option.bind_eq_Some_conv)
    then obtain i where i: "escape_end js len k = Some (Inr i)" "string_end js len (i + 1) = Some (Inr j)"
      using run True by (cases e) auto
    have "i + 1 \<le> j" using "1.IH"(1) [OF c _ _ True i(1)] True i by auto
    then show ?thesis using escape_end_behind [OF i(1)] by simp
  next
    case False
    show ?thesis
    proof (cases "c = DQUOTE")
      case True
      then show ?thesis using run by simp
    next
      case other: False
      then have "string_end js len (k + 1) = Some (Inr j)" using run False by (auto split: if_splits)
      then show ?thesis using "1.IH"(2) [OF c refl other False] by simp
    qed
  qed
qed

lemma alloc_pos: "jsmn_alloc_token p ts n = Some (r, p', ts') \<Longrightarrow> pos p' = pos p"
  by (auto simp: jsmn_alloc_token_def Option.bind_eq_Some_conv split: if_splits)

lemma count_token_pos: "count_token cnt (r, p, tokens) = Some (q, p', tokens') \<Longrightarrow> p' = p"
  by (auto simp: count_token_def Option.bind_eq_Some_conv split: if_splits option.splits)

lemma parse_primitive_pos:
  assumes "jsmn_parse_primitive p js len tokens n = Some (r, p', tokens')"
    and "next_char js len (pos p) = Some (Some c)" and "\<not> ends_primitive c"
  shows "pos p \<le> pos p'"
proof -
  from assms(1) obtain e where e: "primitive_end js len (pos p) = Some e"
    by (auto simp: jsmn_parse_primitive_def Option.bind_eq_Some_conv)
  show ?thesis
  proof (cases e)
    case (Inl _)
    then show ?thesis using assms(1) e by (simp add: jsmn_parse_primitive_def)
  next
    case (Inr k)
    have "pos p < k" using primitive_end_behind [OF e [unfolded Inr] assms(2,3)] .
    then show ?thesis using assms(1) e Inr
      by (auto simp: jsmn_parse_primitive_def Option.bind_eq_Some_conv dest!: alloc_pos split: option.splits)
  qed
qed

lemma parse_string_pos:
  assumes "jsmn_parse_string p js len tokens n = Some (r, p', tokens')"
  shows "pos p \<le> pos p'"
proof -
  from assms obtain e where e: "string_end js len (pos p + 1) = Some e"
    by (auto simp: jsmn_parse_string_def Option.bind_eq_Some_conv)
  show ?thesis
  proof (cases e)
    case (Inl _)
    then show ?thesis using assms e by (simp add: jsmn_parse_string_def)
  next
    case (Inr k)
    have "pos p + 1 \<le> k" using string_end_from [OF e [unfolded Inr]] .
    then show ?thesis using assms e Inr
      by (auto simp: jsmn_parse_string_def Option.bind_eq_Some_conv dest!: alloc_pos split: option.splits)
  qed
qed

lemma close_bracket_pos:
  assumes "close_bracket c cnt p tokens = Some (r, p', tokens')"
  shows "pos p' = pos p"
proof (cases tokens)
  case None
  then show ?thesis using assms by (simp add: close_bracket_def)
next
  case (Some ts)
  then obtain l where l: "last_token is_open ts (toknext p) = Some l"
    using assms by (auto simp: close_bracket_def Option.bind_eq_Some_conv simp del: last_token.simps)
  show ?thesis
  proof (cases l)
    case None
    then show ?thesis using assms Some l by (simp add: close_bracket_def)
  next
    case (Some i)
    then show ?thesis using assms \<open>tokens = Some ts\<close> l
      by (auto simp: close_bracket_def Option.bind_eq_Some_conv Let_def split: if_split_asm
          simp del: last_token.simps)
  qed
qed

lemma comma_pos: "comma cnt p tokens = Some (r, p', tokens') \<Longrightarrow> pos p' = pos p"
  by (cases tokens)
    (auto simp: comma_def Option.bind_eq_Some_conv split: if_split_asm option.splits simp del: last_token.simps)

lemma parse_step_pos:
  assumes "parse_step c js len n cnt p tokens = Some (r, p', tokens')" and "next_char js len (pos p) = Some (Some c)"
  shows "pos p \<le> pos p'"
proof -
  consider "c = CHR ''{'' \<or> c = CHR ''[''" | "c = CHR ''}'' \<or> c = CHR '']''" | "c = DQUOTE"
    | "white c \<or> c = CHR '':''" | "c = CHR '',''"
    | q where "jsmn_parse_primitive p js len tokens n = Some q" "count_token cnt q = Some (r, p', tokens')"
        "\<not> ends_primitive c"
    using assms(1) by (auto simp: parse_step_def ends_primitive_def Option.bind_eq_Some_conv split: if_splits)
  then show ?thesis
  proof cases
    case 1
    then show ?thesis using assms(1)
      by (auto simp: parse_step_def open_bracket_def Option.bind_eq_Some_conv Let_def dest!: alloc_pos
          split: option.split_asm)
  next
    case 2
    then have "close_bracket c cnt p tokens = Some (r, p', tokens')" using assms(1) by (auto simp: parse_step_def)
    then show ?thesis by (simp add: close_bracket_pos)
  next
    case 3
    then obtain q where q: "jsmn_parse_string p js len tokens n = Some q" "count_token cnt q = Some (r, p', tokens')"
      using assms(1) by (auto simp: parse_step_def Option.bind_eq_Some_conv white_def)
    then show ?thesis by (cases q) (auto dest: count_token_pos parse_string_pos)
  next
    case 4
    then show ?thesis using assms(1) by (auto simp: parse_step_def white_def)
  next
    case 5
    then have "comma cnt p tokens = Some (r, p', tokens')" using assms(1) by (auto simp: parse_step_def white_def)
    then show ?thesis by (simp add: comma_pos)
  next
    case 6
    then show ?thesis using assms(2)
      by (cases q) (auto dest: count_token_pos parse_primitive_pos)
  qed
qed

function jsmn_loop ::
  "string \<Rightarrow> nat \<Rightarrow> nat \<Rightarrow> int \<Rightarrow> jsmn_parser \<Rightarrow> jsmntok_t list option \<Rightarrow> jsmn_result option"
where
  "jsmn_loop js len num_tokens cnt p tokens = do {
     c \<leftarrow> next_char js len (pos p);
     case c of
       None \<Rightarrow> Some (Inr cnt, p, tokens)
     | Some c \<Rightarrow> do {
         (r, p', tokens') \<leftarrow> parse_step c js len num_tokens cnt p tokens;
         case r of
           Inl e \<Rightarrow> Some (Inl e, p', tokens')
         | Inr cnt' \<Rightarrow> jsmn_loop js len num_tokens cnt' (p'\<lparr>pos := pos p' + 1\<rparr>) tokens'
       }
   }"
  by pat_completeness auto
termination
  by (relation "measure (\<lambda>(js, len, n, cnt, p, tokens). len - pos p)")
    (auto simp: next_char_def dest!: parse_step_pos split: if_splits)

declare jsmn_loop.simps [simp del]

text \<open>The value returned, the parser and the tokens.\<close>

definition jsmn_parse ::
  "jsmn_parser \<Rightarrow> string \<Rightarrow> nat \<Rightarrow> jsmntok_t list option \<Rightarrow> nat \<Rightarrow> (int \<times> jsmn_parser \<times> jsmntok_t list option) option"
where
  "jsmn_parse p js len tokens num_tokens = do {
     (r, p, tokens) \<leftarrow> jsmn_loop js len num_tokens (int (toknext p)) p tokens;
     case r of
       Inl e \<Rightarrow> Some (e, p, tokens)
     | Inr cnt \<Rightarrow>
         (case tokens of
            None \<Rightarrow> Some (cnt, p, None)
          | Some ts \<Rightarrow> do {
              unmatched \<leftarrow> last_token is_open ts (toknext p);
              Some (if unmatched = None then cnt else JSMN_ERROR_PART, p, Some ts)
            })
   }"

end
