(* ===== verification/JsonUtils.thy ===== *)
theory JsonUtils
  imports MqttTypes Jsmn
begin

text \<open>
  The JSON helpers of the SDK (\<open>aws_iot_json_utils.c\<close>): comparing a token with a key, reading the value of a token,
  and finding the value of a key. A document is the memory from its first character on, the terminator included;
  \<^term>\<open>None\<close> is a read outside of it or of the array of tokens, or a number \<open>sscanf\<close> cannot represent, which the
  C standard leaves undefined. A function that stores a value returns it with the code; no value is stored where it
  returns \<^term>\<open>None\<close> as its value.
\<close>

subsection \<open>Strings in the document\<close>

definition doc_char :: "string \<Rightarrow> int \<Rightarrow> char option" where
  "doc_char js k = (if k < 0 then None else char_at js (nat k))"

text \<open>The C string that begins at a position.\<close>

definition doc_string :: "string \<Rightarrow> int \<Rightarrow> string option" where
  "doc_string js k = (if k < 0 then None else text_in (drop (nat k) js))"

text \<open>\<open>strncmp(json + k, s, strlen(s)) == 0\<close>, which stops at the first difference.\<close>

fun json_strncmp :: "string \<Rightarrow> int \<Rightarrow> string \<Rightarrow> bool option" where
  "json_strncmp js k [] = Some True"
| "json_strncmp js k (c # cs) = do {
     d \<leftarrow> doc_char js k;
     if d = c then json_strncmp js (k + 1) cs else Some False
   }"

definition jsoneq :: "string \<Rightarrow> jsmntok_t \<Rightarrow> string \<Rightarrow> bool option" where
  "jsoneq json tok s =
     (if tok_type tok = JSMN_STRING \<and> int (length s) = tok_end tok - tok_start tok
      then json_strncmp json (tok_start tok) s else Some False)"

subsection \<open>\<open>sscanf\<close>\<close>

text \<open>The digits of a base, and the number they stand for.\<close>

definition digit_of :: "nat \<Rightarrow> char \<Rightarrow> nat option" where
  "digit_of base c = (let k = (of_char c :: nat);
       d = (if 48 \<le> k \<and> k \<le> 57 then k - 48 else if 97 \<le> k \<and> k \<le> 102 then k - 87
            else if 65 \<le> k \<and> k \<le> 70 then k - 55 else 16)
     in if d < base then Some d else None)"

definition digits :: "nat \<Rightarrow> string \<Rightarrow> string" where
  "digits base s = takeWhile (\<lambda>c. digit_of base c \<noteq> None) s"

definition number :: "nat \<Rightarrow> string \<Rightarrow> int" where
  "number base s = foldl (\<lambda>a c. int base * a + int (the (digit_of base c))) 0 s"

text \<open>White space and an optional sign; the rest, and whether the sign was a minus.\<close>

definition scan_sign :: "string \<Rightarrow> bool \<times> string" where
  "scan_sign s = (case dropWhile is_space s of
     [] \<Rightarrow> (False, [])
   | c # cs \<Rightarrow> if c = CHR ''-'' then (True, cs) else if c = CHR ''+'' then (False, cs) else (False, c # cs))"

text \<open>
  \<open>%u\<close> and \<open>%hu\<close>, for a type whose greatest value is \<open>limit\<close>; the inner \<^term>\<open>None\<close> is a matching failure.
\<close>

definition scan_unsigned :: "int \<Rightarrow> string \<Rightarrow> int option option" where
  "scan_unsigned limit s = (let (neg, t) = scan_sign s; ds = digits 10 t; v = number 10 ds in
     if ds = [] then Some None
     else if limit < v then None
     else Some (Some (if neg then (- v) mod (limit + 1) else v)))"

text \<open>\<open>%i\<close>: the prefix gives the base, \<open>0x\<close> sixteen and \<open>0\<close> eight.\<close>

definition scan_integer :: "string \<Rightarrow> int option option" where
  "scan_integer s = (let (neg, t) = scan_sign s;
       (base, u) = (case t of
          c # x # r \<Rightarrow> if c = CHR ''0'' \<and> (x = CHR ''x'' \<or> x = CHR ''X'') then (16, r)
            else if c = CHR ''0'' then (8, t) else (10, t)
        | _ \<Rightarrow> (10, t));
       ds = digits base u; v = (if neg then - number base ds else number base ds) in
     if ds = [] then Some None
     else if v < INT_MIN \<or> INT_MAX < v then None
     else Some (Some v))"

subsection \<open>Values\<close>

type_synonym 'a parsed = "(IoT_Error_t \<times> 'a option) option"

definition UINT32_MAX :: int where "UINT32_MAX = 4294967295"
definition UINT16_MAX :: int where "UINT16_MAX = 65535"

text \<open>
  The three unsigned parsers: a minus sign is refused. \<open>parseUnsignedInteger8Value\<close> reads 32 bits and checks the
  range; the other two leave it to \<open>sscanf\<close>.
\<close>

definition scan_token_unsigned :: "int \<Rightarrow> string \<Rightarrow> jsmntok_t \<Rightarrow> int option option" where
  "scan_token_unsigned limit js token = do {
     c \<leftarrow> doc_char js (tok_start token);
     if c = CHR ''-'' then Some None
     else do { s \<leftarrow> doc_string js (tok_start token); scan_unsigned limit s }
   }"

definition parseUnsignedInteger32Value :: "string \<Rightarrow> jsmntok_t \<Rightarrow> u32 parsed" where
  "parseUnsignedInteger32Value js token =
     (if tok_type token \<noteq> JSMN_PRIMITIVE then Some (JSON_PARSE_ERROR, None)
      else do {
        r \<leftarrow> scan_token_unsigned UINT32_MAX js token;
        Some (case r of None \<Rightarrow> (JSON_PARSE_ERROR, None) | Some v \<Rightarrow> (SUCCESS, Some (word_of_int v)))
      })"

definition parseUnsignedInteger16Value :: "string \<Rightarrow> jsmntok_t \<Rightarrow> u16 parsed" where
  "parseUnsignedInteger16Value js token =
     (if tok_type token \<noteq> JSMN_PRIMITIVE then Some (JSON_PARSE_ERROR, None)
      else do {
        r \<leftarrow> scan_token_unsigned UINT16_MAX js token;
        Some (case r of None \<Rightarrow> (JSON_PARSE_ERROR, None) | Some v \<Rightarrow> (SUCCESS, Some (word_of_int v)))
      })"

definition parseUnsignedInteger8Value :: "string \<Rightarrow> jsmntok_t \<Rightarrow> u8 parsed" where
  "parseUnsignedInteger8Value js token =
     (if tok_type token \<noteq> JSMN_PRIMITIVE then Some (JSON_PARSE_ERROR, None)
      else do {
        r \<leftarrow> scan_token_unsigned UINT32_MAX js token;
        Some (case r of
            None \<Rightarrow> (JSON_PARSE_ERROR, None)
          | Some v \<Rightarrow> if 255 < v then (JSON_PARSE_ERROR, None) else (SUCCESS, Some (word_of_int v)))
      })"

text \<open>The signed ones; the value is an \<open>int\<close> in the range of the type.\<close>

definition parseInteger32Value :: "string \<Rightarrow> jsmntok_t \<Rightarrow> int parsed" where
  "parseInteger32Value js token =
     (if tok_type token \<noteq> JSMN_PRIMITIVE then Some (JSON_PARSE_ERROR, None)
      else do {
        s \<leftarrow> doc_string js (tok_start token);
        r \<leftarrow> scan_integer s;
        Some (case r of None \<Rightarrow> (JSON_PARSE_ERROR, None) | Some v \<Rightarrow> (SUCCESS, Some v))
      })"

definition parseInteger16Value :: "string \<Rightarrow> jsmntok_t \<Rightarrow> int parsed" where
  "parseInteger16Value js token =
     (if tok_type token \<noteq> JSMN_PRIMITIVE then Some (JSON_PARSE_ERROR, None)
      else do {
        s \<leftarrow> doc_string js (tok_start token);
        r \<leftarrow> scan_integer s;
        Some (case r of
            None \<Rightarrow> (JSON_PARSE_ERROR, None)
          | Some v \<Rightarrow> if v < -32768 \<or> 32767 < v then (JSON_PARSE_ERROR, None) else (SUCCESS, Some v))
      })"

definition parseInteger8Value :: "string \<Rightarrow> jsmntok_t \<Rightarrow> int parsed" where
  "parseInteger8Value js token =
     (if tok_type token \<noteq> JSMN_PRIMITIVE then Some (JSON_PARSE_ERROR, None)
      else do {
        s \<leftarrow> doc_string js (tok_start token);
        r \<leftarrow> scan_integer s;
        Some (case r of
            None \<Rightarrow> (JSON_PARSE_ERROR, None)
          | Some v \<Rightarrow> if v < -128 \<or> 127 < v then (JSON_PARSE_ERROR, None) else (SUCCESS, Some v))
      })"

text \<open>
  \<open>parseFloatValue\<close> and \<open>parseDoubleValue\<close>, which differ in the conversion \<open>sscanf\<close> makes; the conversion of a
  decimal text to the floating-point type is the argument \<open>conv\<close>, \<^term>\<open>None\<close> where it does not match.
\<close>

definition parseFloatValue :: "(string \<Rightarrow> 'f option) \<Rightarrow> string \<Rightarrow> jsmntok_t \<Rightarrow> 'f parsed" where
  "parseFloatValue conv js token =
     (if tok_type token \<noteq> JSMN_PRIMITIVE then Some (JSON_PARSE_ERROR, None)
      else do {
        s \<leftarrow> doc_string js (tok_start token);
        Some (case conv s of None \<Rightarrow> (JSON_PARSE_ERROR, None) | Some f \<Rightarrow> (SUCCESS, Some f))
      })"

definition parseDoubleValue :: "(string \<Rightarrow> 'f option) \<Rightarrow> string \<Rightarrow> jsmntok_t \<Rightarrow> 'f parsed" where
  "parseDoubleValue conv js token =
     (if tok_type token \<noteq> JSMN_PRIMITIVE then Some (JSON_PARSE_ERROR, None)
      else do {
        s \<leftarrow> doc_string js (tok_start token);
        Some (case conv s of None \<Rightarrow> (JSON_PARSE_ERROR, None) | Some f \<Rightarrow> (SUCCESS, Some f))
      })"

definition parseBooleanValue :: "string \<Rightarrow> jsmntok_t \<Rightarrow> bool parsed" where
  "parseBooleanValue js token =
     (if tok_type token \<noteq> JSMN_PRIMITIVE then Some (JSON_PARSE_ERROR, None)
      else do {
        t \<leftarrow> json_strncmp js (tok_start token) ''true'';
        if t then Some (SUCCESS, Some True)
        else do {
          f \<leftarrow> json_strncmp js (tok_start token) ''false'';
          Some (if f then (SUCCESS, Some False) else (JSON_PARSE_ERROR, None))
        }
      })"

text \<open>
  The text between the quotes, escapes as they are, copied into a buffer of \<open>bufLen\<close> bytes. The length is a
  \<open>size_t\<close>: one of -1 passes the test of the size, since adding one gives zero, and the copy then runs away.
\<close>

definition copy_chars :: "string \<Rightarrow> int \<Rightarrow> nat \<Rightarrow> string option" where
  "copy_chars js k n =
     (if k < 0 then None
      else let s = take n (drop (nat k) js) in
        if length s < n \<and> NUL \<notin> set s then None else Some (takeWhile (\<lambda>c. c \<noteq> NUL) s))"

definition parseStringValue :: "nat \<Rightarrow> string \<Rightarrow> jsmntok_t \<Rightarrow> string parsed" where
  "parseStringValue bufLen js token = (let n = tok_end token - tok_start token in
     if tok_type token \<noteq> JSMN_STRING then Some (JSON_PARSE_ERROR, None)
     else if n = -1 then None
     else if n < 0 \<or> int bufLen < n + 1 then Some (SHADOW_JSON_ERROR, None)
     else do { s \<leftarrow> copy_chars js (tok_start token) (nat n); Some (SUCCESS, Some s) })"

subsection \<open>Finding a key\<close>

text \<open>\<open>while (result->start < propertyEnd) result++\<close>\<close>

function skip_property :: "jsmntok_t list \<Rightarrow> int \<Rightarrow> nat \<Rightarrow> nat option" where
  "skip_property ts propertyEnd r = do {
     t \<leftarrow> tok_at ts r;
     if tok_start t < propertyEnd then skip_property ts propertyEnd (r + 1) else Some r
   }"
  by pat_completeness auto
termination
  by (relation "measure (\<lambda>(ts, e, r). length ts - r)") (auto simp: tok_at_def split: if_splits)

declare skip_property.simps [simp del]

fun find_key :: "string \<Rightarrow> string \<Rightarrow> jsmntok_t list \<Rightarrow> nat \<Rightarrow> nat \<Rightarrow> nat option option" where
  "find_key key js ts 0 r = Some None"
| "find_key key js ts (Suc n) r = do {
     t \<leftarrow> tok_at ts r;
     eq \<leftarrow> jsoneq js t key;
     if eq then Some (Some (r + 1))
     else do {
       v \<leftarrow> tok_at ts (r + 1);
       r' \<leftarrow> skip_property ts (tok_end v) (r + 2);
       find_key key js ts n r'
     }
   }"

definition findToken :: "string \<Rightarrow> string \<Rightarrow> jsmntok_t list \<Rightarrow> nat \<Rightarrow> nat option option" where
  "findToken key js ts token = do {
     t \<leftarrow> tok_at ts token;
     if tok_type t \<noteq> JSMN_OBJECT \<or> tok_size t = 0 then Some None
     else find_key key js ts (nat (tok_size t)) (token + 1)
   }"

end
