(* ===== verification/JsmnLemmas.thy ===== *)
theory JsmnLemmas
  imports Jsmn
begin

text \<open>
  What the routines of the JSON tokenizer do when the text and the array are as long as the caller says: they never
  read or write outside, and one pass of the parser keeps the tokens well formed.
\<close>

subsection \<open>The routines are defined\<close>

lemma next_char_within:
  "len \<le> length js \<Longrightarrow> next_char js len k = Some (if k < len \<and> js ! k \<noteq> NUL then Some (js ! k) else None)"
  by (auto simp: next_char_def char_at_def)

lemma next_char_SomeD: "next_char js len k = Some (Some c) \<Longrightarrow> k < len"
  by (auto simp: next_char_def split: if_splits)

lemma primitive_end_defined:
  "len \<le> length js \<Longrightarrow> k \<le> len \<Longrightarrow> \<exists>r. primitive_end js len k = Some r \<and> (\<forall>j. r = Inr j \<longrightarrow> j \<le> len)"
proof (induction js len k rule: primitive_end.induct)
  case (1 js len k)
  show ?case
  proof (cases "next_char js len k = Some None")
    case True
    then show ?thesis using "1.prems" by (simp add: primitive_end.simps [of js len k])
  next
    case False
    then obtain c where c: "next_char js len k = Some (Some c)"
      using next_char_within [OF "1.prems"(1), of k] by (auto split: if_splits)
    show ?thesis
    proof (cases "ends_primitive c \<or> \<not> json_char c")
      case True
      then show ?thesis using c "1.prems" by (auto simp: primitive_end.simps [of js len k])
    next
      case False
      then show ?thesis
        using c "1.IH" [OF c refl] "1.prems" next_char_SomeD [OF c] by (simp add: primitive_end.simps [of js len k])
    qed
  qed
qed

lemma hex_end_defined:
  "len \<le> length js \<Longrightarrow> k \<le> len \<Longrightarrow> \<exists>r. hex_end js len n k = Some r \<and> (\<forall>j. r = Inr j \<longrightarrow> j \<le> len)"
  by (induction js len n k rule: hex_end.induct) (auto simp: next_char_within)

lemma escape_end_defined:
  assumes "len \<le> length js" and "k + 1 < len"
  shows "\<exists>r. escape_end js len k = Some r \<and> (\<forall>j. r = Inr j \<longrightarrow> j < len)"
proof -
  obtain r where r: "hex_end js len 4 (k + 2) = Some r" "\<forall>j. r = Inr j \<longrightarrow> j \<le> len"
    using hex_end_defined [OF assms(1), of "k + 2" 4] assms(2) by auto
  have "k + 2 \<le> j" if "r = Inr j" for j using hex_end_behind r(1) that by blast
  then show ?thesis using assms r by (cases r) (fastforce simp: escape_end_def char_at_def)+
qed

lemma string_end_defined:
  "len \<le> length js \<Longrightarrow> k \<le> len \<Longrightarrow>
   \<exists>r. string_end js len k = Some r \<and> (\<forall>j. r = Inr j \<longrightarrow> j < len) \<and>
     (\<forall>e. r = Inl e \<longrightarrow> e = JSMN_ERROR_PART \<or> e = JSMN_ERROR_INVAL)"
proof (induction js len k rule: string_end.induct)
  case (1 js len k)
  show ?case
  proof (cases "next_char js len k = Some None")
    case True
    then show ?thesis by (simp add: string_end.simps [of js len k])
  next
    case False
    then obtain c where c: "next_char js len k = Some (Some c)"
      using next_char_within [OF "1.prems"(1), of k] by (auto split: if_splits)
    note k = next_char_SomeD [OF c]
    show ?thesis
    proof (cases "c = BACKSLASH \<and> k + 1 < len")
      case True
      then obtain e where e: "escape_end js len k = Some e" "\<forall>j. e = Inr j \<longrightarrow> j < len"
        using escape_end_defined [OF "1.prems"(1)] by blast
      then show ?thesis
        using c True "1.IH"(1) [OF c refl _ True, of e] "1.prems" by (cases e) (auto simp: string_end.simps [of js len k])
    next
      case plain: False
      show ?thesis
      proof (cases "c = DQUOTE")
        case True
        then show ?thesis using c k by (simp add: string_end.simps [of js len k])
      next
        case False
        then have "string_end js len k = string_end js len (k + 1)"
          using c plain by (auto simp: string_end.simps [of js len k])
        then show ?thesis using "1.IH"(2) [OF c refl False plain] "1.prems" k by simp
      qed
    qed
  qed
qed

lemma last_token_spec:
  "n \<le> length ts \<Longrightarrow> \<exists>r. last_token Q ts n = Some r \<and>
     (case r of None \<Rightarrow> \<forall>i < n. \<not> Q (ts ! i) | Some i \<Rightarrow> i < n \<and> Q (ts ! i) \<and> (\<forall>j < n. i < j \<longrightarrow> \<not> Q (ts ! j)))"
proof (induction n)
  case 0
  then show ?case by simp
next
  case (Suc n)
  then obtain r where r: "last_token Q ts n = Some r"
    "case r of None \<Rightarrow> \<forall>i < n. \<not> Q (ts ! i) | Some i \<Rightarrow> i < n \<and> Q (ts ! i) \<and> (\<forall>j < n. i < j \<longrightarrow> \<not> Q (ts ! j))"
    by auto
  show ?case
  proof (cases "Q (ts ! n)")
    case True
    then show ?thesis using Suc.prems by (simp add: tok_at_def)
  next
    case False
    then show ?thesis using r Suc.prems by (auto simp: tok_at_def less_Suc_eq split: option.splits)
  qed
qed

declare last_token.simps [simp del]

subsection \<open>Well-formed tokens\<close>

text \<open>
  A token has one of the four types and lies in the text; one whose end is not known is an object or an array, and
  the end of the others is behind their start.
\<close>

definition tok_ok :: "nat \<Rightarrow> jsmntok_t \<Rightarrow> bool" where
  "tok_ok q t \<longleftrightarrow> tok_type t \<noteq> JSMN_UNDEFINED \<and> 0 \<le> tok_start t \<and> 0 \<le> tok_size t \<and>
     (if tok_end t = -1 then is_container t \<and> tok_start t < int q
      else tok_start t \<le> tok_end t \<and> tok_end t \<le> int q)"

definition parser_ok :: "nat \<Rightarrow> nat \<Rightarrow> jsmn_parser \<Rightarrow> jsmntok_t list \<Rightarrow> bool" where
  "parser_ok len num_tokens p ts \<longleftrightarrow>
     pos p \<le> len \<and> toknext p \<le> num_tokens \<and> num_tokens \<le> length ts \<and>
     -1 \<le> toksuper p \<and> toksuper p < int (toknext p) \<and> (\<forall>i < toknext p. tok_ok (pos p) (ts ! i))"

lemma tok_ok_later: "tok_ok q t \<Longrightarrow> q \<le> q' \<Longrightarrow> tok_ok q' t"
  by (auto simp: tok_ok_def split: if_splits)

lemma tok_ok_counted: "tok_ok q t \<Longrightarrow> tok_ok q (t\<lparr>tok_size := tok_size t + 1\<rparr>)"
  by (auto simp: tok_ok_def is_container_def split: if_splits)

lemma is_open_ok: "tok_ok q t \<Longrightarrow> is_open t \<longleftrightarrow> tok_end t = -1"
  by (auto simp: tok_ok_def is_open_def)

text \<open>The tokens behind the last one taken are as they were.\<close>

definition only_taken :: "nat \<Rightarrow> jsmntok_t list \<Rightarrow> jsmntok_t list \<Rightarrow> bool" where
  "only_taken n ts ts' \<longleftrightarrow> length ts' = length ts \<and> (\<forall>i < length ts. n \<le> i \<longrightarrow> ts' ! i = ts ! i)"

lemma only_taken_refl [simp, intro]: "only_taken n ts ts"
  by (simp add: only_taken_def)

lemma only_taken_trans: "only_taken m ts us \<Longrightarrow> only_taken n us vs \<Longrightarrow> m \<le> n \<Longrightarrow> only_taken n ts vs"
  by (simp add: only_taken_def)

lemma only_taken_update [intro]: "i < n \<Longrightarrow> only_taken n ts us \<Longrightarrow> only_taken n ts (us[i := t])"
  by (simp add: only_taken_def)

text \<open>What a pass returns in a well-formed state: an error and the state unchanged, or one more well formed.\<close>

definition pass_ok :: "nat \<Rightarrow> nat \<Rightarrow> int \<Rightarrow> jsmn_parser \<Rightarrow> jsmntok_t list \<Rightarrow> jsmn_result \<Rightarrow> bool" where
  "pass_ok len num_tokens cnt p ts = (\<lambda>(r, p', tokens').
     case r of
       Inl e \<Rightarrow> e \<in> {JSMN_ERROR_NOMEM, JSMN_ERROR_INVAL, JSMN_ERROR_PART} \<and> p' = p \<and> tokens' = Some ts
     | Inr cnt' \<Rightarrow> pos p \<le> pos p' \<and> toknext p \<le> toknext p' \<and>
         cnt' - int (toknext p') = cnt - int (toknext p) \<and>
         (\<exists>ts'. tokens' = Some ts' \<and> only_taken (toknext p') ts ts' \<and>
            parser_ok len num_tokens (p'\<lparr>pos := pos p' + 1\<rparr>) ts'))"

lemma count_child_ok:
  assumes "-1 \<le> toksuper p" and "toksuper p < int (length ts)"
  shows "count_child p ts =
    Some (if toksuper p = -1 then ts
          else ts[nat (toksuper p) := (ts ! nat (toksuper p))\<lparr>tok_size := tok_size (ts ! nat (toksuper p)) + 1\<rparr>])"
  using assms by (auto simp: count_child_def tok_at_def)

text \<open>Taking a token and counting it in its superior keeps the array well formed.\<close>

lemma alloc_ok:
  assumes "parser_ok len n p ts"
  shows "jsmn_alloc_token p ts n =
    (if n \<le> toknext p then Some (None, p, ts)
     else Some (Some (toknext p), p\<lparr>toknext := toknext p + 1\<rparr>,
       ts[toknext p := (ts ! toknext p)\<lparr>tok_start := -1, tok_end := -1, tok_size := 0\<rparr>]))"
  using assms by (simp add: jsmn_alloc_token_def tok_at_def parser_ok_def)

lemma new_token_ok:
  assumes ok: "parser_ok len n p ts" and room: "toknext p < n"
    and q: "pos p \<le> q" "q < len" and new: "tok_ok (q + 1) t" and sup: "s = toksuper p \<or> s = int (toknext p)"
    and us: "us = ts[toknext p := t]" "count_child (p\<lparr>toknext := toknext p + 1\<rparr>) us = Some us'"
  shows "parser_ok len n \<lparr>pos = q + 1, toknext = toknext p + 1, toksuper = s\<rparr> us'"
    and "only_taken (toknext p + 1) ts us'"
proof -
  define k where "k = toknext p"
  have len: "k < length ts" using ok room by (simp add: parser_ok_def k_def)
  have us': "us' = (if toksuper p = -1 then us
      else us[nat (toksuper p) := (us ! nat (toksuper p))\<lparr>tok_size := tok_size (us ! nat (toksuper p)) + 1\<rparr>])"
    using ok len us by (auto simp: count_child_def tok_at_def parser_ok_def k_def split: if_splits)
  have inside: "nat (toksuper p) < length us" if "toksuper p \<noteq> -1"
    using ok us(1) that len by (auto simp: parser_ok_def k_def)
  have old: "tok_ok (q + 1) (us ! i)" if "i < k + 1" for i
  proof (cases "i = k")
    case True
    then show ?thesis using us(1) len new by (simp add: k_def)
  next
    case False
    then have "tok_ok (pos p) (ts ! i)" using that ok by (simp add: parser_ok_def k_def)
    then show ?thesis using us(1) False q by (auto simp: k_def intro: tok_ok_later)
  qed
  have "tok_ok (q + 1) (us' ! i)" if "i < k + 1" for i
    using old [OF that] old [of "nat (toksuper p)"] inside by (auto simp: us' nth_list_update [of "nat (toksuper p)"] tok_ok_counted)
  then show "parser_ok len n \<lparr>pos = q + 1, toknext = toknext p + 1, toksuper = s\<rparr> us'"
    using ok room q sup us(1) us' by (auto simp: parser_ok_def k_def)
  show "only_taken (toknext p + 1) ts us'"
    using ok us(1) us' by (auto simp: only_taken_def parser_ok_def nth_list_update)
qed

lemma record_forms:
  "p\<lparr>toknext := a, pos := b\<rparr> = \<lparr>pos = b, toknext = a, toksuper = toksuper p\<rparr>"
  "p\<lparr>toknext := a, toksuper := c, pos := b\<rparr> = \<lparr>pos = b, toknext = a, toksuper = c\<rparr>"
  by (cases p; simp)+

lemma parser_ok_later:
  "parser_ok len n p ts \<Longrightarrow> pos p \<le> q \<Longrightarrow> q \<le> len \<Longrightarrow> parser_ok len n (p\<lparr>pos := q\<rparr>) ts"
  by (auto simp: parser_ok_def intro: tok_ok_later)

lemma count_child_defined:
  assumes "parser_ok len n p ts" and "length us = length ts"
  shows "\<exists>us'. count_child (p\<lparr>toknext := k\<rparr>) us = Some us'"
  using assms by (auto simp: count_child_def tok_at_def parser_ok_def)

lemma open_bracket_ok:
  assumes ok: "parser_ok len n p ts" and at: "pos p < len"
  shows "\<exists>r. open_bracket c cnt p (Some ts) n = Some r \<and> pass_ok len n cnt p ts r"
proof (cases "n \<le> toknext p")
  case True
  then show ?thesis by (simp add: open_bracket_def alloc_ok [OF ok] pass_ok_def)
next
  case False
  define k where "k = toknext p"
  define us where "us = ts[k := (ts ! k)\<lparr>tok_start := -1, tok_end := -1, tok_size := 0\<rparr>]"
  define t where "t = (us ! k)\<lparr>tok_type := type_of_bracket c, tok_start := int (pos p)\<rparr>"
  have k: "k < length ts" using ok False by (simp add: parser_ok_def k_def)
  have t: "tok_ok (pos p + 1) t"
    using k by (auto simp: t_def us_def tok_ok_def is_container_def type_of_bracket_def)
  obtain us' where us': "count_child (p\<lparr>toknext := k + 1\<rparr>) us = Some us'"
    using count_child_defined [OF ok, of us] by (auto simp: us_def)
  have sup: "toksuper p = -1 \<or> nat (toksuper p) < k" using ok by (auto simp: parser_ok_def k_def)
  have same: "us' ! k = us ! k"
    using us' sup by (auto simp: count_child_def Option.bind_eq_Some_conv split: if_splits)
  have upd: "count_child (p\<lparr>toknext := k + 1\<rparr>) (ts[k := t]) = Some (us'[k := t])"
    using us' sup k by (auto simp: count_child_def tok_at_def us_def list_update_swap split: if_splits)
  note new = new_token_ok [OF ok _ order_refl at t _ refl upd [unfolded k_def], of "int k", folded k_def]
  show ?thesis
    using False us' new same
    by (simp add: record_forms open_bracket_def alloc_ok [OF ok] pass_ok_def Let_def t_def k_def us_def)
qed

lemma token_pass_ok:
  assumes ok: "parser_ok len n p ts" and q: "pos p \<le> q" "q < len"
    and t: "\<And>u. tok_ok (q + 1) (jsmn_fill_token u ty a b)"
  shows "\<exists>r. do {
      (tok, p', ts) \<leftarrow> jsmn_alloc_token p ts n;
      r \<leftarrow> (case tok of
        None \<Rightarrow> Some (JSMN_ERROR_NOMEM, p', Some ts)
      | Some i \<Rightarrow> Some (0, p'\<lparr>pos := q\<rparr>, Some (ts[i := jsmn_fill_token (ts ! i) ty a b])));
      count_token cnt r } = Some r \<and> pass_ok len n cnt p ts r"
proof (cases "n \<le> toknext p")
  case True
  then show ?thesis by (simp add: alloc_ok [OF ok] count_token_def pass_ok_def JSMN_ERROR_NOMEM_def)
next
  case False
  define k where "k = toknext p"
  define u where "u = jsmn_fill_token ((ts ! k)\<lparr>tok_start := -1, tok_end := -1, tok_size := 0\<rparr>) ty a b"
  have k: "k < length ts" using ok False by (simp add: parser_ok_def k_def)
  obtain us' where us': "count_child (p\<lparr>toknext := k + 1\<rparr>) (ts[k := u]) = Some us'"
    using count_child_defined [OF ok, of "ts[k := u]"] by auto
  then have pos: "count_child (p\<lparr>toknext := k + 1, pos := q\<rparr>) (ts[k := u]) = Some us'"
    by (simp add: count_child_def split: if_splits)
  note new = new_token_ok [OF ok _ q, of u "toksuper p", OF _ _ _ refl us' [unfolded k_def], folded k_def]
  have u: "tok_ok (q + 1) u" unfolding u_def by (rule t)
  show ?thesis
    using False us' pos new u k q
    by (simp add: record_forms alloc_ok [OF ok] count_token_def pass_ok_def k_def u_def)
qed

lemma last_token_ok:
  assumes "parser_ok len n p ts"
  obtains r where "last_token Q ts (toknext p) = Some r"
    and "\<And>i. r = Some i \<Longrightarrow> i < toknext p \<and> Q (ts ! i) \<and> tok_ok (pos p) (ts ! i)"
proof -
  have "toknext p \<le> length ts" using assms by (simp add: parser_ok_def)
  from last_token_spec [OF this, of Q] obtain r where "last_token Q ts (toknext p) = Some r"
    "case r of None \<Rightarrow> \<forall>i < toknext p. \<not> Q (ts ! i)
     | Some i \<Rightarrow> i < toknext p \<and> Q (ts ! i) \<and> (\<forall>j < toknext p. i < j \<longrightarrow> \<not> Q (ts ! j))"
    by blast
  then show ?thesis using assms by (intro that [of r]) (auto simp: parser_ok_def)
qed

lemma close_bracket_ok:
  assumes ok: "parser_ok len n p ts" and at: "pos p < len"
  shows "\<exists>r. close_bracket c cnt p (Some ts) = Some r \<and> pass_ok len n cnt p ts r"
proof -
  obtain r where r: "last_token is_open ts (toknext p) = Some r"
    "\<And>i. r = Some i \<Longrightarrow> i < toknext p \<and> is_open (ts ! i) \<and> tok_ok (pos p) (ts ! i)"
    using last_token_ok [OF ok] by blast
  show ?thesis
  proof (cases r)
    case None
    then show ?thesis using r by (simp add: close_bracket_def pass_ok_def)
  next
    case (Some i)
    note i = r(2) [OF Some]
    define us where "us = ts[i := (ts ! i)\<lparr>tok_end := int (pos p) + 1\<rparr>]"
    have "tok_ok (pos p + 1) (us ! j)" if "j < toknext p" for j
    proof (cases "j = i")
      case True
      then show ?thesis using i ok
        by (auto simp: us_def tok_ok_def is_open_def parser_ok_def split: if_splits)
    next
      case False
      then show ?thesis using ok that by (auto simp: us_def parser_ok_def intro: tok_ok_later)
    qed
    then have "parser_ok len n (p\<lparr>pos := pos p + 1\<rparr>) us" using ok at by (simp add: parser_ok_def us_def)
    moreover obtain l where "last_token is_open us (i + 1) = Some l" "\<And>j. l = Some j \<Longrightarrow> j < i + 1"
      using last_token_spec [of "i + 1" us is_open] i ok
      by (fastforce simp: us_def parser_ok_def split: option.splits)
    moreover have "only_taken (toknext p) ts us" using i unfolding us_def by blast
    ultimately show ?thesis using r Some i ok
      by (auto simp: close_bracket_def pass_ok_def Let_def us_def [symmetric] parser_ok_def split: option.splits)
  qed
qed

lemma comma_ok:
  assumes ok: "parser_ok len n p ts" and at: "pos p < len"
  shows "\<exists>r. comma cnt p (Some ts) = Some r \<and> pass_ok len n cnt p ts r"
proof -
  have later: "parser_ok len n (p\<lparr>pos := Suc (pos p)\<rparr>) ts" using parser_ok_later [OF ok] at by simp
  obtain r where r: "last_token (\<lambda>t. is_container t \<and> is_open t) ts (toknext p) = Some r"
    "\<And>i. r = Some i \<Longrightarrow> i < toknext p"
    using last_token_ok [OF ok] by blast
  have "parser_ok len n (p\<lparr>toksuper := int i, pos := Suc (pos p)\<rparr>) ts" if "r = Some i" for i
    using later r(2) [OF that] by (simp add: parser_ok_def)
  then show ?thesis using r later ok
    by (cases r) (auto simp: comma_def tok_at_def pass_ok_def parser_ok_def)
qed

lemma string_token_ok: "0 \<le> a \<Longrightarrow> a \<le> b \<Longrightarrow> b \<le> int q \<Longrightarrow> ty \<noteq> JSMN_UNDEFINED \<Longrightarrow> tok_ok q (jsmn_fill_token u ty a b)"
  by (simp add: tok_ok_def jsmn_fill_token_def)

lemma parse_string_ok:
  assumes ok: "parser_ok len n p ts" and len: "len \<le> length js" and at: "pos p < len"
  shows "\<exists>r. do { r \<leftarrow> jsmn_parse_string p js len (Some ts) n; count_token cnt r } = Some r \<and> pass_ok len n cnt p ts r"
proof -
  obtain e where e: "string_end js len (pos p + 1) = Some e" "\<And>j. e = Inr j \<Longrightarrow> j < len"
      "\<And>x. e = Inl x \<Longrightarrow> x = JSMN_ERROR_PART \<or> x = JSMN_ERROR_INVAL"
    using string_end_defined [OF len, of "pos p + 1"] at by auto
  show ?thesis
  proof (cases e)
    case (Inl x)
    then show ?thesis using e(1) e(3) [OF Inl]
      by (auto simp: jsmn_parse_string_def count_token_def pass_ok_def JSMN_ERROR_PART_def JSMN_ERROR_INVAL_def)
  next
    case (Inr k)
    have k: "pos p + 1 \<le> k" "k < len" using string_end_from e(1) e(2) Inr by blast+
    have "tok_ok (k + 1) (jsmn_fill_token u JSMN_STRING (int (pos p) + 1) (int k))" for u
      using k by (intro string_token_ok) auto
    from token_pass_ok [OF ok _ k(2) this, of cnt] show ?thesis using e(1) k Inr
      by (simp add: jsmn_parse_string_def case_prod_unfold)
  qed
qed

lemma parse_primitive_ok:
  assumes ok: "parser_ok len n p ts" and len: "len \<le> length js"
    and c: "next_char js len (pos p) = Some (Some c)" "\<not> ends_primitive c"
  shows "\<exists>r. do { r \<leftarrow> jsmn_parse_primitive p js len (Some ts) n; count_token cnt r } = Some r \<and> pass_ok len n cnt p ts r"
proof -
  note at = next_char_SomeD [OF c(1)]
  obtain e where e: "primitive_end js len (pos p) = Some e" "\<And>j. e = Inr j \<Longrightarrow> j \<le> len"
    using primitive_end_defined [OF len, of "pos p"] at by auto
  show ?thesis
  proof (cases e)
    case (Inl x)
    then show ?thesis using e(1)
      by (auto simp: jsmn_parse_primitive_def count_token_def pass_ok_def JSMN_ERROR_INVAL_def)
  next
    case (Inr k)
    have k: "pos p < k" "k \<le> len" using primitive_end_behind [OF _ c] e(1) e(2) Inr by blast+
    have "tok_ok (k - 1 + 1) (jsmn_fill_token u JSMN_PRIMITIVE (int (pos p)) (int k))" for u
      using k by (intro string_token_ok) auto
    from token_pass_ok [OF ok _ _ this, of cnt] show ?thesis using e(1) k Inr
      by (simp add: jsmn_parse_primitive_def case_prod_unfold le_diff_conv2 less_diff_conv2)
  qed
qed

lemma parse_step_ok:
  assumes ok: "parser_ok len n p ts" and len: "len \<le> length js" and c: "next_char js len (pos p) = Some (Some c)"
  shows "\<exists>r. parse_step c js len n cnt p (Some ts) = Some r \<and> pass_ok len n cnt p ts r"
proof -
  note at = next_char_SomeD [OF c]
  have later: "parser_ok len n (p\<lparr>pos := Suc (pos p)\<rparr>) ts" using parser_ok_later [OF ok] at by simp
  then have "parser_ok len n (p\<lparr>toksuper := int (toknext p) - 1, pos := Suc (pos p)\<rparr>) ts"
    by (simp add: parser_ok_def)
  then show ?thesis
    using open_bracket_ok [OF ok at] close_bracket_ok [OF ok at] comma_ok [OF ok at] later
      parse_string_ok [OF ok len at, of cnt] parse_primitive_ok [OF ok len c, of cnt]
    by (auto simp: parse_step_def ends_primitive_def pass_ok_def)
qed

text \<open>The whole loop, and the function.\<close>

lemma jsmn_loop_ok:
  assumes "len \<le> length js"
  shows "parser_ok len n p ts \<Longrightarrow> \<exists>r p' ts'. jsmn_loop js len n cnt p (Some ts) = Some (r, p', Some ts') \<and>
    parser_ok len n p' ts' \<and> only_taken (toknext p') ts ts' \<and> toknext p \<le> toknext p' \<and>
    (case r of Inl e \<Rightarrow> e \<in> {JSMN_ERROR_NOMEM, JSMN_ERROR_INVAL, JSMN_ERROR_PART}
     | Inr cnt' \<Rightarrow> cnt' - int (toknext p') = cnt - int (toknext p))"
proof (induction "len - pos p" arbitrary: cnt p ts rule: less_induct)
  case less
  note run = jsmn_loop.simps [of js len n cnt p "Some ts"]
  show ?case
  proof (cases "next_char js len (pos p) = Some None")
    case True
    then show ?thesis using less.prems by (simp add: run)
  next
    case False
    then obtain c where c: "next_char js len (pos p) = Some (Some c)"
      using next_char_within [OF assms, of "pos p"] by (auto split: if_splits)
    obtain r p' tokens' where step: "parse_step c js len n cnt p (Some ts) = Some (r, p', tokens')"
      and pass: "pass_ok len n cnt p ts (r, p', tokens')"
      using parse_step_ok [OF less.prems assms c, of cnt] by auto
    show ?thesis
    proof (cases r)
      case (Inl e)
      then show ?thesis using pass less.prems by (simp add: run c step pass_ok_def)
    next
      case (Inr cnt')
      then obtain ts' where ts': "tokens' = Some ts'" "only_taken (toknext p') ts ts'"
        "parser_ok len n (p'\<lparr>pos := pos p' + 1\<rparr>) ts'" and later: "pos p \<le> pos p'" "toknext p \<le> toknext p'"
        and cnt': "cnt' - int (toknext p') = cnt - int (toknext p)"
        using pass by (auto simp: pass_ok_def)
      have "len - pos (p'\<lparr>pos := pos p' + 1\<rparr>) < len - pos p" using later next_char_SomeD [OF c] by simp
      from less.hyps [OF this ts'(3), of cnt'] obtain z q us where
        rest: "jsmn_loop js len n cnt' (p'\<lparr>pos := pos p' + 1\<rparr>) (Some ts') = Some (z, q, Some us)"
        "parser_ok len n q us" "only_taken (toknext q) ts' us" "toknext (p'\<lparr>pos := pos p' + 1\<rparr>) \<le> toknext q"
        "case z of Inl e \<Rightarrow> e \<in> {JSMN_ERROR_NOMEM, JSMN_ERROR_INVAL, JSMN_ERROR_PART}
         | Inr cnt'' \<Rightarrow> cnt'' - int (toknext q) = cnt' - int (toknext (p'\<lparr>pos := pos p' + 1\<rparr>))"
        by blast
      have "only_taken (toknext q) ts us" using only_taken_trans [OF ts'(2) rest(3)] rest(4) by simp
      then show ?thesis using rest ts'(1) cnt' later(2) by (cases z) (simp_all add: run c step Inr)
    qed
  qed
qed

subsection \<open>Counting only\<close>

text \<open>Without an array a pass reads as far and counts as much as a successful one with an array.\<close>

lemma count_token_SomeD:
  "count_token cnt (r, p, Some ts) = Some (Inr cnt', p', tokens') \<Longrightarrow> cnt' = cnt + 1 \<and> p' = p \<and> 0 \<le> r"
  by (auto simp: count_token_def Option.bind_eq_Some_conv split: if_splits)

lemma string_end_error: "string_end js len k = Some (Inl x) \<Longrightarrow> x < 0"
proof (induction js len k rule: string_end.induct)
  case (1 js len k)
  note run = "1.prems" [unfolded string_end.simps [of js len k]]
  show ?case
  proof (cases "next_char js len k")
    case None
    then show ?thesis using run by simp
  next
    case (Some r)
    show ?thesis
    proof (cases r)
      case None
      then show ?thesis using run Some by (simp add: JSMN_ERROR_PART_def)
    next
      case c: (Some c)
      show ?thesis
      proof (cases "c = DQUOTE \<or> \<not> (c = BACKSLASH \<and> k + 1 < len)")
        case True
        then show ?thesis using run Some c "1.IH"(2) [OF Some c] by (auto split: if_splits)
      next
        case False
        then have esc: "c = BACKSLASH \<and> k + 1 < len" by simp
        then obtain e where "escape_end js len k = Some e"
          using run Some c by (auto simp: Option.bind_eq_Some_conv)
        then show ?thesis using run Some c False "1.IH"(1) [OF Some c _ esc, of e]
          by (cases e) (auto simp: JSMN_ERROR_INVAL_def)
      qed
    qed
  qed
qed

lemma alloc_Some: "jsmn_alloc_token p ts n = Some (Some i, p', ts') \<Longrightarrow> p' = p\<lparr>toknext := toknext p + 1\<rparr>"
  by (auto simp: jsmn_alloc_token_def Option.bind_eq_Some_conv split: if_splits)

lemma parse_string_counts:
  assumes run: "jsmn_parse_string p js len (Some ts) n = Some (r, p', tokens')" and "0 \<le> r" and "pos q = pos p"
  shows "jsmn_parse_string q js len None m = Some (0, q\<lparr>pos := pos p'\<rparr>, None) \<and> (\<exists>ts'. tokens' = Some ts')"
proof -
  from run obtain e where e: "string_end js len (pos p + 1) = Some e"
    by (auto simp: jsmn_parse_string_def Option.bind_eq_Some_conv)
  show ?thesis
  proof (cases e)
    case (Inl x)
    then show ?thesis using run e assms(2) string_end_error by (fastforce simp: jsmn_parse_string_def)
  next
    case (Inr k)
    then show ?thesis using run e assms(2,3)
      by (auto simp: jsmn_parse_string_def Option.bind_eq_Some_conv JSMN_ERROR_NOMEM_def split: option.splits)
  qed
qed

lemma parse_primitive_counts:
  assumes run: "jsmn_parse_primitive p js len (Some ts) n = Some (r, p', tokens')" and "0 \<le> r" and "pos q = pos p"
  shows "jsmn_parse_primitive q js len None m = Some (0, q\<lparr>pos := pos p'\<rparr>, None) \<and> (\<exists>ts'. tokens' = Some ts')"
proof -
  from run obtain e where e: "primitive_end js len (pos p) = Some e"
    by (auto simp: jsmn_parse_primitive_def Option.bind_eq_Some_conv)
  show ?thesis
  proof (cases e)
    case (Inl x)
    then show ?thesis using run e assms(2) by (auto simp: jsmn_parse_primitive_def JSMN_ERROR_INVAL_def)
  next
    case (Inr k)
    then show ?thesis using run e assms(2,3)
      by (auto simp: jsmn_parse_primitive_def Option.bind_eq_Some_conv JSMN_ERROR_NOMEM_def split: option.splits)
  qed
qed

lemma open_bracket_counts:
  assumes "parser_ok len n p ts" and "open_bracket c cnt p (Some ts) n = Some (Inr cnt', p', tokens')"
  shows "cnt' = cnt + 1 \<and> pos p' = pos p \<and> (\<exists>ts'. tokens' = Some ts')"
  using assms(2) alloc_ok [OF assms(1)]
  by (auto simp: open_bracket_def Option.bind_eq_Some_conv Let_def split: if_splits)

lemma close_bracket_counts:
  assumes "parser_ok len n p ts" and "close_bracket c cnt p (Some ts) = Some (Inr cnt', p', tokens')"
  shows "cnt' = cnt \<and> pos p' = pos p"
proof -
  obtain r where "last_token is_open ts (toknext p) = Some r" using last_token_ok [OF assms(1)] by blast
  then show ?thesis using assms(2)
    by (cases r) (auto simp: close_bracket_def Option.bind_eq_Some_conv Let_def split: if_splits)
qed

lemma comma_counts:
  assumes "comma cnt p (Some ts) = Some (Inr cnt', p', tokens')"
  shows "cnt' = cnt \<and> pos p' = pos p"
  using assms by (auto simp: comma_def Option.bind_eq_Some_conv split: if_split_asm option.splits)

lemma parse_step_counts:
  assumes run: "parse_step c js len n cnt p (Some ts) = Some (Inr cnt', p', tokens')" and q: "pos q = pos p"
    and c: "next_char js len (pos p) = Some (Some c)" and ok: "parser_ok len n p ts"
  shows "\<exists>q'. parse_step c js len m cnt q None = Some (Inr cnt', q', None) \<and> pos q' = pos p'"
proof -
  consider "c = CHR ''{'' \<or> c = CHR ''[''" | "c = CHR ''}'' \<or> c = CHR '']''" | "c = DQUOTE"
    | "white c \<or> c = CHR '':''" | "c = CHR '',''"
    | "c \<notin> {CHR ''{'', CHR ''['', CHR ''}'', CHR '']'', DQUOTE, CHR '':'', CHR '',''}" "\<not> white c"
    by blast
  then show ?thesis
  proof cases
    case 1
    then show ?thesis using open_bracket_counts [OF ok, of c cnt cnt' p' tokens'] run q
      by (auto simp: parse_step_def open_bracket_def)
  next
    case 2
    then show ?thesis using close_bracket_counts [OF ok, of c cnt cnt' p' tokens'] run q
      by (auto simp: parse_step_def close_bracket_def)
  next
    case 3
    then have step: "parse_step c js len k x y z = do { r \<leftarrow> jsmn_parse_string y js len z k; count_token x r }" for k x y z
      by (simp add: parse_step_def)
    from run obtain r u t where r: "jsmn_parse_string p js len (Some ts) n = Some (r, u, t)"
      "count_token cnt (r, u, t) = Some (Inr cnt', p', tokens')"
      by (auto simp: step Option.bind_eq_Some_conv)
    from r(2) have "0 \<le> r" by (auto simp: count_token_def split: if_splits)
    note counts = parse_string_counts [OF r(1) this q, of m]
    then obtain us where "t = Some us" by blast
    from count_token_SomeD [OF r(2) [unfolded this]] counts show ?thesis by (simp add: step count_token_def)
  next
    case 4
    then show ?thesis using q run by (auto simp: parse_step_def white_def)
  next
    case 5
    then show ?thesis using comma_counts [of cnt p ts cnt' p' tokens'] run q
      by (auto simp: parse_step_def white_def comma_def)
  next
    case 6
    then have step: "parse_step c js len k x y z = do { r \<leftarrow> jsmn_parse_primitive y js len z k; count_token x r }" for k x y z
      by (simp add: parse_step_def)
    from run obtain r u t where r: "jsmn_parse_primitive p js len (Some ts) n = Some (r, u, t)"
      "count_token cnt (r, u, t) = Some (Inr cnt', p', tokens')"
      by (auto simp: step Option.bind_eq_Some_conv)
    from r(2) have "0 \<le> r" by (auto simp: count_token_def split: if_splits)
    note counts = parse_primitive_counts [OF r(1) this q, of m]
    then obtain us where "t = Some us" by blast
    from count_token_SomeD [OF r(2) [unfolded this]] counts show ?thesis by (simp add: step count_token_def)
  qed
qed

lemma jsmn_loop_counts:
  assumes "len \<le> length js"
  shows "parser_ok len n p ts \<Longrightarrow> jsmn_loop js len n cnt p (Some ts) = Some (Inr cnt', p', tokens') \<Longrightarrow> pos q = pos p \<Longrightarrow>
    \<exists>q'. jsmn_loop js len m cnt q None = Some (Inr cnt', q', None) \<and> pos q' = pos p'"
proof (induction "len - pos p" arbitrary: cnt p ts q rule: less_induct)
  case less
  note run = jsmn_loop.simps [of js len n cnt p "Some ts"] jsmn_loop.simps [of js len m cnt q None]
  show ?case
  proof (cases "next_char js len (pos p) = Some None")
    case True
    have "cnt' = cnt \<and> p' = p" using less.prems(2) True by (simp add: run)
    moreover have "jsmn_loop js len m cnt q None = Some (Inr cnt, q, None)"
      using True less.prems(3) by (simp add: run)
    ultimately show ?thesis using less.prems(3) by simp
  next
    case False
    then obtain c where c: "next_char js len (pos p) = Some (Some c)"
      using next_char_within [OF assms, of "pos p"] by (auto split: if_splits)
    obtain r u t where step: "parse_step c js len n cnt p (Some ts) = Some (r, u, t)"
      and pass: "pass_ok len n cnt p ts (r, u, t)"
      using parse_step_ok [OF less.prems(1) assms c, of cnt] by auto
    obtain cnt1 where Inr: "r = Inr cnt1" using less.prems(2) c step by (cases r) (simp_all add: run)
    obtain us where us: "t = Some us" "parser_ok len n (u\<lparr>pos := pos u + 1\<rparr>) us" "pos p \<le> pos u"
      using pass Inr by (auto simp: pass_ok_def)
    obtain v where v: "parse_step c js len m cnt q None = Some (Inr cnt1, v, None)" "pos v = pos u"
      using parse_step_counts [OF step [unfolded Inr] less.prems(3) c less.prems(1), of m] by blast
    have "len - pos (u\<lparr>pos := pos u + 1\<rparr>) < len - pos p" using us next_char_SomeD [OF c] by simp
    from less.hyps [OF this us(2), of cnt1 "v\<lparr>pos := pos v + 1\<rparr>"] less.prems(2,3) v us(1) Inr show ?thesis
      by (simp add: run c step)
  qed
qed

end
