(* ===== verification/JsmnText.thy ===== *)
theory JsmnText
  imports JsmnLemmas
begin

text \<open>
  JSON values, the text written for them, and the tokens that describe this text: what the tokenizer is expected to
  find. A value carries the white space of its text: behind the opening bracket, in front of and behind a key, and in
  front of and behind a value. Strings and keys are the characters between the quotes, escapes included.
\<close>

datatype json = JObject string members | JArray string elements | JString string | JPrimitive string
  and members = MNil | MCons string string string string json string members
  and elements = ENil | ECons string json string elements

subsection \<open>Text\<close>

definition json_quoted :: "string \<Rightarrow> string" where
  "json_quoted s = DQUOTE # s @ [DQUOTE]"

text \<open>The first argument is the separator in front of the next member or element.\<close>

fun render :: "json \<Rightarrow> string"
  and render_members :: "string \<Rightarrow> members \<Rightarrow> string"
  and render_elements :: "string \<Rightarrow> elements \<Rightarrow> string"
where
  "render (JObject w ms) = CHR ''{'' # w @ render_members [] ms @ ''}''"
| "render (JArray w es) = CHR ''['' # w @ render_elements [] es @ '']''"
| "render (JString s) = json_quoted s"
| "render (JPrimitive s) = s"
| "render_members sep MNil = []"
| "render_members sep (MCons w1 k w2 w3 v w4 ms) =
     sep @ w1 @ json_quoted k @ w2 @ CHR '':'' # w3 @ render v @ w4 @ render_members '','' ms"
| "render_elements sep ENil = []"
| "render_elements sep (ECons w1 v w2 es) = sep @ w1 @ render v @ w2 @ render_elements '','' es"

subsection \<open>Tokens\<close>

primrec member_count :: "members \<Rightarrow> int" where
  "member_count MNil = 0"
| "member_count (MCons w1 k w2 w3 v w4 ms) = 1 + member_count ms"

primrec element_count :: "elements \<Rightarrow> int" where
  "element_count ENil = 0"
| "element_count (ECons w1 v w2 es) = 1 + element_count es"

definition mk_token :: "jsmntype_t \<Rightarrow> nat \<Rightarrow> nat \<Rightarrow> int \<Rightarrow> jsmntok_t" where
  "mk_token ty a n k = \<lparr>tok_type = ty, tok_start = int a, tok_end = int a + int n, tok_size = k\<rparr>"

text \<open>The tokens of a value whose text begins at position \<open>a\<close>: an object counts its keys, a key its value.\<close>

fun tokens_of :: "nat \<Rightarrow> json \<Rightarrow> jsmntok_t list"
  and member_tokens :: "nat \<Rightarrow> string \<Rightarrow> members \<Rightarrow> jsmntok_t list"
  and element_tokens :: "nat \<Rightarrow> string \<Rightarrow> elements \<Rightarrow> jsmntok_t list"
where
  "tokens_of a (JObject w ms) =
     mk_token JSMN_OBJECT a (length (render (JObject w ms))) (member_count ms) # member_tokens (a + 1 + length w) [] ms"
| "tokens_of a (JArray w es) =
     mk_token JSMN_ARRAY a (length (render (JArray w es))) (element_count es) # element_tokens (a + 1 + length w) [] es"
| "tokens_of a (JString s) = [mk_token JSMN_STRING (a + 1) (length s) 0]"
| "tokens_of a (JPrimitive s) = [mk_token JSMN_PRIMITIVE a (length s) 0]"
| "member_tokens a sep MNil = []"
| "member_tokens a sep (MCons w1 k w2 w3 v w4 ms) =
     (let b = a + length sep + length w1; c = b + length k + length w2 + length w3 + 3 in
      mk_token JSMN_STRING (b + 1) (length k) 1 # tokens_of c v @ member_tokens (c + length (render v) + length w4) '','' ms)"
| "element_tokens a sep ENil = []"
| "element_tokens a sep (ECons w1 v w2 es) = (let b = a + length sep + length w1 in
     tokens_of b v @ element_tokens (b + length (render v) + length w2) '','' es)"

fun token_count :: "json \<Rightarrow> nat" and member_token_count :: "members \<Rightarrow> nat" and element_token_count :: "elements \<Rightarrow> nat"
where
  "token_count (JObject w ms) = 1 + member_token_count ms"
| "token_count (JArray w es) = 1 + element_token_count es"
| "token_count (JString s) = 1"
| "token_count (JPrimitive s) = 1"
| "member_token_count MNil = 0"
| "member_token_count (MCons w1 k w2 w3 v w4 ms) = 1 + token_count v + member_token_count ms"
| "element_token_count ENil = 0"
| "element_token_count (ECons w1 v w2 es) = token_count v + element_token_count es"

lemma length_tokens [simp]:
  "length (tokens_of a v) = token_count v"
  "length (member_tokens b sep ms) = member_token_count ms"
  "length (element_tokens c sep' es) = element_token_count es"
  by (induction a v and b sep ms and c sep' es rule: tokens_of_member_tokens_element_tokens.induct)
    (simp_all add: Let_def)

text \<open>None of them is open.\<close>

lemma token_closed [simp]: "\<not> is_open (mk_token ty a n k)"
  by (simp add: mk_token_def is_open_def)

lemma tokens_closed [simp]:
  "t \<in> set (tokens_of a v) \<Longrightarrow> \<not> is_open t"
  "t \<in> set (member_tokens b sep ms) \<Longrightarrow> \<not> is_open t"
  "t \<in> set (element_tokens c sep' es) \<Longrightarrow> \<not> is_open t"
  by (induction a v and b sep ms and c sep' es rule: tokens_of_member_tokens_element_tokens.induct)
    (auto simp: Let_def)

subsection \<open>What may be written\<close>

definition simple_escape :: "char \<Rightarrow> bool" where
  "simple_escape c \<longleftrightarrow>
     c \<in> {DQUOTE, CHR ''/'', BACKSLASH, CHR ''b'', CHR ''f'', CHR ''r'', CHR ''n'', CHR ''t''}"

text \<open>The inside of a string: no quote and no zero character, and escapes that are complete.\<close>

fun string_text :: "string \<Rightarrow> bool" where
  "string_text [] = True"
| "string_text (c # cs) =
     (if c = BACKSLASH then
        (case cs of
           [] \<Rightarrow> False
         | e # r \<Rightarrow>
             if simple_escape e then string_text r
             else e = CHR ''u'' \<and> 4 \<le> length r \<and> list_all hex_digit (take 4 r) \<and> string_text (drop 4 r))
      else c \<noteq> DQUOTE \<and> c \<noteq> NUL \<and> string_text cs)"

text \<open>A number, \<open>true\<close>, \<open>false\<close> or \<open>null\<close>, and whatever else the tokenizer takes for one.\<close>

definition primitive_text :: "string \<Rightarrow> bool" where
  "primitive_text s \<longleftrightarrow> s \<noteq> [] \<and> hd s \<notin> {DQUOTE, CHR ''{'', CHR ''[''} \<and>
     list_all (\<lambda>c. json_char c \<and> \<not> ends_primitive c) s"

primrec json_ok :: "json \<Rightarrow> bool" and members_ok :: "members \<Rightarrow> bool" and elements_ok :: "elements \<Rightarrow> bool" where
  "json_ok (JObject w ms) = (list_all white w \<and> members_ok ms)"
| "json_ok (JArray w es) = (list_all white w \<and> elements_ok es)"
| "json_ok (JString s) = string_text s"
| "json_ok (JPrimitive s) = primitive_text s"
| "members_ok MNil = True"
| "members_ok (MCons w1 k w2 w3 v w4 ms) =
     (list_all white (w1 @ w2 @ w3 @ w4) \<and> string_text k \<and> json_ok v \<and> members_ok ms)"
| "elements_ok ENil = True"
| "elements_ok (ECons w1 v w2 es) = (list_all white (w1 @ w2) \<and> json_ok v \<and> elements_ok es)"

subsection \<open>Where strings and primitives end\<close>

lemma next_char_end: "next_char (pre @ post) (length (pre @ post)) (length pre) =
    Some (case post of [] \<Rightarrow> None | c # _ \<Rightarrow> if c = NUL then None else Some c)"
  by (cases post) (simp_all add: next_char_def char_at_def)

lemma next_char_mid: "js = pre @ c # post \<Longrightarrow> c \<noteq> NUL \<Longrightarrow> next_char js (length js) (length pre) = Some (Some c)"
  by (simp add: next_char_def char_at_def)

definition ends_here :: "string \<Rightarrow> bool" where
  "ends_here post \<longleftrightarrow> post = [] \<or> hd post = NUL \<or> ends_primitive (hd post)"

lemma primitive_end_text:
  assumes "ends_here post"
  shows "list_all (\<lambda>c. json_char c \<and> \<not> ends_primitive c) s \<Longrightarrow> js = pre @ s @ post \<Longrightarrow>
    primitive_end js (length js) (length pre) = Some (Inr (length pre + length s))"
proof (induction s arbitrary: pre)
  case Nil
  have "next_char js (length js) (length pre) =
      Some (case post of [] \<Rightarrow> None | c # _ \<Rightarrow> if c = NUL then None else Some c)"
    using next_char_end [of pre post] Nil(2) by simp
  then show ?case using assms
    by (cases post) (auto simp: primitive_end.simps [of js "length js" "length pre"] ends_here_def)
next
  case (Cons c s)
  have c: "json_char c" "\<not> ends_primitive c" using Cons.prems(1) by simp_all
  then have "c \<noteq> NUL" by (auto simp: json_char_def)
  then have "next_char js (length js) (length pre) = Some (Some c)"
    using Cons.prems(2) by (intro next_char_mid [of js pre c "s @ post"]) simp_all
  moreover have "primitive_end js (length js) (length (pre @ [c])) = Some (Inr (length (pre @ [c]) + length s))"
    using Cons.prems by (intro Cons.IH) simp_all
  ultimately show ?case using c by (simp add: primitive_end.simps [of js "length js" "length pre"])
qed

lemma hex_end_text:
  "list_all hex_digit s \<Longrightarrow> js = pre @ s @ post \<Longrightarrow>
    hex_end js (length js) (length s) (length pre) = Some (Inr (length pre + length s))"
proof (induction s arbitrary: pre)
  case Nil
  then show ?case by simp
next
  case (Cons c s)
  have "c \<noteq> NUL" using Cons.prems(1) by (auto simp: hex_digit_def Let_def)
  then have "next_char js (length js) (length pre) = Some (Some c)"
    using Cons.prems(2) by (intro next_char_mid [of js pre c "s @ post"]) simp_all
  moreover have "hex_end js (length js) (length s) (length (pre @ [c])) = Some (Inr (length (pre @ [c]) + length s))"
    using Cons.prems by (intro Cons.IH) simp_all
  ultimately show ?case using Cons.prems(1) by simp
qed

lemma string_end_text:
  "string_text s \<Longrightarrow> js = pre @ s @ DQUOTE # post \<Longrightarrow>
    string_end js (length js) (length pre) = Some (Inr (length pre + length s))"
proof (induction s arbitrary: pre rule: length_induct)
  case (1 s)
  note unf = string_end.simps [of js "length js" "length pre"]
  show ?case
  proof (cases s)
    case Nil
    have "next_char js (length js) (length pre) = Some (Some DQUOTE)"
      using "1.prems" Nil by (intro next_char_mid [of js pre DQUOTE post]) simp_all
    then show ?thesis by (simp add: unf Nil)
  next
    case (Cons c cs)
    have nz: "c \<noteq> NUL" using "1.prems" Cons by (auto split: if_splits)
    have c: "next_char js (length js) (length pre) = Some (Some c)"
      using "1.prems"(2) Cons nz by (intro next_char_mid [of js pre c "cs @ DQUOTE # post"]) simp_all
    show ?thesis
    proof (cases "c = BACKSLASH")
      case False
      have "string_end js (length js) (length (pre @ [c])) = Some (Inr (length (pre @ [c]) + length cs))"
        using "1.prems" Cons False by (intro "1.IH" [rule_format]) (auto split: if_splits)
      then show ?thesis using False c Cons "1.prems"(1) by (simp add: unf)
    next
      case True
      then obtain e r where cs: "cs = e # r" using "1.prems"(1) Cons by (auto split: list.splits)
      have e: "char_at js (length pre + 1) = Some e"
        using "1.prems"(2) Cons cs by (simp add: char_at_def nth_append)
      have len: "length pre + 1 < length js" using "1.prems"(2) Cons cs by simp
      show ?thesis
      proof (cases "simple_escape e")
        case simple: True
        have "string_end js (length js) (length (pre @ [c, e])) = Some (Inr (length (pre @ [c, e]) + length r))"
          using "1.prems" Cons cs True simple by (intro "1.IH" [rule_format]) auto
        moreover have "escape_end js (length js) (length pre) = Some (Inr (length pre + 1))"
          using e simple by (auto simp: escape_end_def simple_escape_def)
        ultimately show ?thesis using True c len Cons cs by (simp add: unf)
      next
        case False
        then have u: "e = CHR ''u''" "4 \<le> length r" "list_all hex_digit (take 4 r)" "string_text (drop 4 r)"
          using "1.prems"(1) Cons cs True by auto
        have split: "js = (pre @ [c, e]) @ take 4 r @ drop 4 r @ DQUOTE # post"
          using "1.prems"(2) Cons cs by simp
        have four: "length (take 4 r) = 4" using u(2) by simp
        have "hex_end js (length js) 4 (length pre + 2) = Some (Inr (length pre + 6))"
          using hex_end_text [OF u(3) split] unfolding four by simp
        then have esc: "escape_end js (length js) (length pre) = Some (Inr (length pre + 5))"
          using e u(1) by (simp add: escape_end_def)
        have "string_end js (length js) (length (pre @ c # e # take 4 r)) =
            Some (Inr (length (pre @ c # e # take 4 r) + length (drop 4 r)))"
          using u(4) split Cons cs by (intro "1.IH" [rule_format]) auto
        then show ?thesis using True c len Cons cs esc u(2) by (simp add: unf add.commute)
      qed
    qed
  qed
qed

end
