(* ===== verification/JsmnRun.thy ===== *)
theory JsmnRun
  imports JsmnText
begin

text \<open>
  The run of the tokenizer over the text of a JSON value: what each character does to the tokens, and by induction
  on the value that the tokens found are those expected.
\<close>

subsection \<open>The innermost open token\<close>

lemma last_token_cong:
  "length us = length ts \<Longrightarrow> (\<And>i. i < n \<Longrightarrow> i < length ts \<Longrightarrow> Q (ts ! i) \<longleftrightarrow> R (us ! i)) \<Longrightarrow> last_token Q ts n = last_token R us n"
  by (induction n) (auto simp: last_token.simps tok_at_def)

lemma last_token_append: "n \<le> length ts \<Longrightarrow> last_token Q (ts @ us) n = last_token Q ts n"
  by (induction n) (auto simp: last_token.simps tok_at_def nth_append)

lemma last_token_skip:
  "(\<And>t. t \<in> set us \<Longrightarrow> \<not> Q t) \<Longrightarrow> last_token Q (ts @ us @ vs) (length ts + length us) = last_token Q ts (length ts)"
proof (induction us arbitrary: vs rule: rev_induct)
  case Nil
  then show ?case by (simp add: last_token_append)
next
  case (snoc u us)
  from snoc.IH [of "u # vs"] snoc.prems show ?case by (simp add: last_token.simps tok_at_def nth_append)
qed

lemma last_token_here: "Q t \<Longrightarrow> last_token Q (ts @ t # us) (Suc (length ts)) = Some (Some (length ts))"
  by (simp add: last_token.simps tok_at_def)

definition innermost :: "jsmntok_t list \<Rightarrow> int" where
  "innermost ts = (case last_token is_open ts (length ts) of Some (Some i) \<Rightarrow> int i | _ \<Rightarrow> -1)"

lemma innermost_Nil [simp]: "innermost [] = -1"
  by (simp add: innermost_def last_token.simps)

lemma innermost_open: "is_open t \<Longrightarrow> innermost (ts @ [t]) = int (length ts)"
  using last_token_here [of is_open t ts "[]"] by (simp add: innermost_def)

lemma innermost_closed: "(\<And>t. t \<in> set us \<Longrightarrow> \<not> is_open t) \<Longrightarrow> innermost (ts @ us) = innermost ts"
  using last_token_skip [of us is_open ts "[]"] by (simp add: innermost_def)

lemma innermost_cases:
  obtains "last_token is_open ts (length ts) = Some None" "innermost ts = -1"
  | i where "last_token is_open ts (length ts) = Some (Some i)" "innermost ts = int i" "i < length ts" "is_open (ts ! i)"
proof -
  obtain r where r: "last_token is_open ts (length ts) = Some r"
    "case r of None \<Rightarrow> \<forall>i < length ts. \<not> is_open (ts ! i)
     | Some i \<Rightarrow> i < length ts \<and> is_open (ts ! i) \<and> (\<forall>j < length ts. i < j \<longrightarrow> \<not> is_open (ts ! j))"
    using last_token_spec [of "length ts" ts is_open] by blast
  then show ?thesis using that by (cases r) (auto simp: innermost_def)
qed

lemma innermost_last: "last_token is_open ts (length ts) = Some (if innermost ts = -1 then None else Some (nat (innermost ts)))"
  by (rule innermost_cases [of ts]) simp_all

lemma innermost_range: "-1 \<le> innermost ts \<and> innermost ts < int (length ts)"
  by (rule innermost_cases [of ts]) simp_all

lemma innermost_is_open: "innermost ts \<noteq> -1 \<Longrightarrow> is_open (ts ! nat (innermost ts))"
  by (rule innermost_cases [of ts]) simp_all

subsection \<open>Counting children\<close>

text \<open>The superior is a token already taken, or -1.\<close>

definition superior_ok :: "int \<Rightarrow> jsmntok_t list \<Rightarrow> bool" where
  "superior_ok s ts \<longleftrightarrow> -1 \<le> s \<and> s < int (length ts)"

definition bump :: "int \<Rightarrow> int \<Rightarrow> jsmntok_t list \<Rightarrow> jsmntok_t list" where
  "bump n s ts =
     (if s = -1 then ts else ts[nat s := (ts ! nat s)\<lparr>tok_size := tok_size (ts ! nat s) + n\<rparr>])"

lemma length_bump [simp]: "length (bump n s ts) = length ts"
  by (simp add: bump_def)

lemma bump_0 [simp]: "bump 0 s ts = ts"
  by (simp add: bump_def)

lemma bump_bump: "superior_ok s ts \<Longrightarrow> bump n s (bump m s ts) = bump (m + n) s ts"
  by (auto simp: bump_def superior_ok_def nat_less_iff add.assoc)

lemma bump_append: "superior_ok s ts \<Longrightarrow> bump n s (ts @ us) = bump n s ts @ us"
  by (auto simp: bump_def superior_ok_def list_update_append nth_append nat_less_iff)

lemma bump_last: "bump n (int (length ts)) (ts @ t # us) = ts @ t\<lparr>tok_size := tok_size t + n\<rparr> # us"
  by (simp add: bump_def)

lemma superior_ok_append: "superior_ok s ts \<Longrightarrow> superior_ok s (ts @ us)"
  by (simp add: superior_ok_def)

lemma superior_ok_bump [simp]: "superior_ok s (bump n s' ts) = superior_ok s ts"
  by (simp add: superior_ok_def)

lemma bump_update: "(bump n s ts @ x # st)[length ts := y] = bump n s ts @ y # st"
  using list_update_length [of "bump n s ts"] by simp

lemma bump_nth: "(bump n s ts @ x # st) ! length ts = x"
  using nth_append_length [of "bump n s ts"] by simp

lemma bump_same:
  "is_open (bump n s ts ! i) = is_open (ts ! i)" "is_container (bump n s ts ! i) = is_container (ts ! i)"
proof -
  have "bump n s ts ! i = ts ! i \<or> bump n s ts ! i = (ts ! i)\<lparr>tok_size := tok_size (ts ! i) + n\<rparr>"
    by (cases "nat s < length ts") (auto simp: bump_def nth_list_update list_update_beyond)
  then show "is_open (bump n s ts ! i) = is_open (ts ! i)" "is_container (bump n s ts ! i) = is_container (ts ! i)"
    by (auto simp: is_open_def is_container_def)
qed

lemma innermost_bump [simp]: "innermost (bump n s ts) = innermost ts"
  using last_token_cong [of "bump n s ts" ts "length ts" is_open is_open]
  by (simp add: innermost_def bump_same)

text \<open>Only objects and arrays are open.\<close>

definition open_containers :: "jsmntok_t list \<Rightarrow> bool" where
  "open_containers ts \<longleftrightarrow> (\<forall>i < length ts. is_open (ts ! i) \<longrightarrow> is_container (ts ! i))"

lemma open_containers_bump [simp]: "open_containers (bump n s ts) = open_containers ts"
  by (simp add: open_containers_def bump_same)

lemma open_containers_append:
  "open_containers ts \<Longrightarrow> (\<And>t. t \<in> set us \<Longrightarrow> is_open t \<Longrightarrow> is_container t) \<Longrightarrow> open_containers (ts @ us)"
  by (auto simp: open_containers_def nth_append)

lemma count_child_bump:
  "superior_ok s ts \<Longrightarrow> count_child \<lparr>pos = a, toknext = m, toksuper = s\<rparr> (ts @ us) = Some (bump 1 s ts @ us)"
  by (auto simp: superior_ok_def count_child_def tok_at_def bump_def list_update_append nth_append)

subsection \<open>One character\<close>

text \<open>The parser at position \<open>a\<close> with the tokens \<open>ts\<close> taken and \<open>st\<close> left.\<close>

definition run :: "string \<Rightarrow> nat \<Rightarrow> int \<Rightarrow> nat \<Rightarrow> int \<Rightarrow> jsmntok_t list \<Rightarrow> jsmntok_t list \<Rightarrow> jsmn_result option" where
  "run js n cnt a s ts st =
     jsmn_loop js (length js) n cnt \<lparr>pos = a, toknext = length ts, toksuper = s\<rparr> (Some (ts @ st))"

lemma run_step:
  assumes "js = pre @ c # post" and "c \<noteq> NUL"
  shows "run js n cnt (length pre) s ts st = do {
      (r, p', tokens') \<leftarrow> parse_step c js (length js) n cnt
         \<lparr>pos = length pre, toknext = length ts, toksuper = s\<rparr> (Some (ts @ st));
      case r of
        Inl e \<Rightarrow> Some (Inl e, p', tokens')
      | Inr cnt' \<Rightarrow> jsmn_loop js (length js) n cnt' (p'\<lparr>pos := pos p' + 1\<rparr>) tokens' }"
  using next_char_mid [OF assms] by (subst (1) run_def) (simp add: jsmn_loop.simps [of js "length js"])

text \<open>The end of the text: the end of the buffer or a zero character.\<close>

definition text_ends :: "string \<Rightarrow> bool" where
  "text_ends rest \<longleftrightarrow> rest = [] \<or> hd rest = NUL"

lemma run_end: "js = pre @ rest \<Longrightarrow> text_ends rest \<Longrightarrow> run js n cnt (length pre) s ts st =
    Some (Inr cnt, \<lparr>pos = length pre, toknext = length ts, toksuper = s\<rparr>, Some (ts @ st))"
proof -
  assume js: "js = pre @ rest" and rest: "text_ends rest"
  have "next_char js (length js) (length pre) = Some None"
    using next_char_end [of pre rest] rest by (cases rest) (simp_all add: js text_ends_def)
  then show ?thesis by (simp add: run_def jsmn_loop.simps [of js "length js"])
qed

lemma token_form:
  "x\<lparr>tok_end := e, tok_size := k, tok_type := ty, tok_start := b\<rparr> = \<lparr>tok_type = ty, tok_start = b, tok_end = e, tok_size = k\<rparr>"
  "x\<lparr>tok_type := ty, tok_start := b, tok_end := e, tok_size := k\<rparr> = \<lparr>tok_type = ty, tok_start = b, tok_end = e, tok_size = k\<rparr>"
  for x :: jsmntok_t
  by (cases x; simp)+

lemma run_open:
  assumes "js = pre @ c # post" and "c = CHR ''{'' \<or> c = CHR ''[''" and "superior_ok s ts" and "length ts < n"
  shows "run js n cnt (length pre) s ts (x # st) =
    run js n (cnt + 1) (length pre + 1) (int (length ts))
      (bump 1 s ts @ [\<lparr>tok_type = type_of_bracket c, tok_start = int (length pre), tok_end = -1, tok_size = 0\<rparr>]) st"
  using assms(2-) count_child_bump [OF assms(3)]
  by (subst run_step [OF assms(1)])
    (auto simp: parse_step_def open_bracket_def jsmn_alloc_token_def tok_at_def Let_def run_def nth_append bump_update bump_nth token_form)

lemma alloc_room:
  "length ts < n \<Longrightarrow> jsmn_alloc_token \<lparr>pos = a, toknext = length ts, toksuper = s\<rparr> (ts @ x # st) n =
    Some (Some (length ts), \<lparr>pos = a, toknext = length ts + 1, toksuper = s\<rparr>,
      ts @ x\<lparr>tok_start := -1, tok_end := -1, tok_size := 0\<rparr> # st)"
  by (simp add: jsmn_alloc_token_def tok_at_def)

lemma count_token_bump:
  "superior_ok s ts \<Longrightarrow> count_token cnt (0, \<lparr>pos = a, toknext = m, toksuper = s\<rparr>, Some (ts @ st)) =
    Some (Inr (cnt + 1), \<lparr>pos = a, toknext = m, toksuper = s\<rparr>, Some (bump 1 s ts @ st))"
  by (simp add: count_token_def count_child_bump)

lemma run_string:
  assumes js: "js = pre @ json_quoted k @ post" and "string_text k" and ok: "superior_ok s ts" "length ts < n"
  shows "run js n cnt (length pre) s ts (x # st) =
    run js n (cnt + 1) (length pre + length k + 2) s (bump 1 s ts @ [mk_token JSMN_STRING (length pre + 1) (length k) 0]) st"
proof -
  have first: "js = pre @ DQUOTE # (k @ DQUOTE # post)" using js by (simp add: json_quoted_def)
  have "string_end js (length js) (length (pre @ [DQUOTE])) = Some (Inr (length (pre @ [DQUOTE]) + length k))"
    using assms(2) first by (intro string_end_text [of _ _ _ post]) simp_all
  then have "jsmn_parse_string \<lparr>pos = length pre, toknext = length ts, toksuper = s\<rparr> js (length js) (Some (ts @ x # st)) n =
      Some (0, \<lparr>pos = length pre + length k + 1, toknext = length ts + 1, toksuper = s\<rparr>,
        Some (ts @ mk_token JSMN_STRING (length pre + 1) (length k) 0 # st))"
    using ok(2) by (simp add: jsmn_parse_string_def alloc_room jsmn_fill_token_def mk_token_def token_form)
  then show ?thesis
    by (subst run_step [OF first]) (simp_all add: parse_step_def count_token_bump [OF ok(1)] run_def)
qed

lemma run_primitive:
  assumes js: "js = pre @ k @ post" and k: "primitive_text k" and post: "ends_here post"
    and ok: "superior_ok s ts" "length ts < n"
  shows "run js n cnt (length pre) s ts (x # st) =
    run js n (cnt + 1) (length pre + length k) s (bump 1 s ts @ [mk_token JSMN_PRIMITIVE (length pre) (length k) 0]) st"
proof -
  obtain c r where cr: "k = c # r" using k by (cases k) (auto simp: primitive_text_def)
  have all: "list_all (\<lambda>c. json_char c \<and> \<not> ends_primitive c) k" using k by (simp add: primitive_text_def)
  have c: "json_char c" "\<not> ends_primitive c" "c \<notin> {DQUOTE, CHR ''{'', CHR ''[''}"
    using k cr by (auto simp: primitive_text_def)
  have nz: "c \<noteq> NUL" using c(1) by (auto simp: json_char_def)
  have step: "parse_step c js len n cnt p t = do { r \<leftarrow> jsmn_parse_primitive p js len t n; count_token cnt r }" for len p t
    using c by (auto simp: parse_step_def ends_primitive_def)
  have first: "js = pre @ c # (r @ post)" using js cr by simp
  have "jsmn_parse_primitive \<lparr>pos = length pre, toknext = length ts, toksuper = s\<rparr> js (length js) (Some (ts @ x # st)) n =
      Some (0, \<lparr>pos = length pre + length k - 1, toknext = length ts + 1, toksuper = s\<rparr>,
        Some (ts @ mk_token JSMN_PRIMITIVE (length pre) (length k) 0 # st))"
    using ok(2) primitive_end_text [OF post all js]
    by (simp add: jsmn_parse_primitive_def alloc_room jsmn_fill_token_def mk_token_def token_form)
  then show ?thesis
    by (subst run_step [OF first nz]) (simp add: step count_token_bump [OF ok(1)] run_def cr)
qed

lemma run_colon:
  assumes js: "js = pre @ CHR '':'' # post"
  shows "run js n cnt (length pre) s ts st = run js n cnt (length pre + 1) (int (length ts) - 1) ts st"
  by (subst run_step [OF js]) (simp_all add: parse_step_def white_def run_def)

lemma run_comma_container:
  assumes js: "js = pre @ CHR '','' # post" and "superior_ok s ts" "s \<noteq> -1" "is_container (ts ! nat s)"
  shows "run js n cnt (length pre) s ts st = run js n cnt (length pre + 1) s ts st"
  using assms(2-)
  by (subst run_step [OF js])
    (auto simp: parse_step_def white_def run_def comma_def tok_at_def superior_ok_def nth_append)

lemma run_comma_key:
  assumes js: "js = pre @ CHR '','' # post" and s: "superior_ok s ts" "s \<noteq> -1" "\<not> is_container (ts ! nat s)"
    and ts: "open_containers ts" "innermost ts \<noteq> -1"
  shows "run js n cnt (length pre) s ts st = run js n cnt (length pre + 1) (innermost ts) ts st"
proof -
  have "last_token (\<lambda>t. is_container t \<and> is_open t) (ts @ st) (length ts) = last_token is_open ts (length ts)"
    using ts(1) by (subst last_token_append) (auto intro!: last_token_cong simp: open_containers_def)
  then have "last_token (\<lambda>t. is_container t \<and> is_open t) (ts @ st) (length ts) = Some (Some (nat (innermost ts)))"
    using innermost_last [of ts] ts(2) by simp
  then show ?thesis using s innermost_range [of ts] ts(2)
    by (subst run_step [OF js])
      (auto simp: parse_step_def white_def run_def comma_def tok_at_def superior_ok_def nth_append)
qed

lemma run_white:
  "list_all white w \<Longrightarrow> js = pre @ w @ post \<Longrightarrow>
    run js n cnt (length pre) s ts st = run js n cnt (length pre + length w) s ts st"
proof (induction w arbitrary: pre)
  case (Cons c w)
  have c: "white c" "c \<noteq> NUL" using Cons.prems(1) by (auto simp: white_def)
  have js: "js = pre @ c # (w @ post)" using Cons.prems(2) by simp
  have "run js n cnt (length pre) s ts st = run js n cnt (length (pre @ [c])) s ts st"
    using c(1) by (subst run_step [OF js c(2)]) (auto simp: parse_step_def white_def run_def)
  also have "\<dots> = run js n cnt (length (pre @ [c]) + length w) s ts st"
    using Cons.prems by (intro Cons.IH) simp_all
  finally show ?case by simp
qed simp

text \<open>The closing bracket of the container whose token is \<open>t\<close>, with the closed tokens \<open>us\<close> of what it contains.\<close>

lemma run_close:
  assumes js: "js = pre @ c # post" and c: "c = CHR ''}'' \<or> c = CHR '']''"
    and t: "is_open t" "tok_type t = type_of_bracket c" and us: "\<And>u. u \<in> set us \<Longrightarrow> \<not> is_open u"
  shows "run js n cnt (length pre) s (ts @ t # us) st =
    run js n cnt (length pre + 1) (innermost ts) (ts @ t\<lparr>tok_end := int (length pre) + 1\<rparr> # us) st"
proof -
  define t' where "t' = t\<lparr>tok_end := int (length pre) + 1\<rparr>"
  have closed: "\<not> is_open t'" by (simp add: t'_def is_open_def)
  have "last_token is_open (ts @ t # us @ st) (length ts + 1 + length us) = Some (Some (length ts))"
    using last_token_skip [of us is_open "ts @ [t]" st] us last_token_here [of is_open t ts "[]"] t(1) by simp
  moreover have "last_token is_open (ts @ t' # us @ st) (length ts + 1) =
      Some (if innermost ts = -1 then None else Some (nat (innermost ts)))"
    using last_token_skip [of "[t']" is_open ts "us @ st"] closed innermost_last [of ts] by simp
  moreover have "c \<noteq> NUL" using c by auto
  ultimately show ?thesis using c t innermost_range [of ts]
    by (subst run_step [OF js])
      (auto simp: parse_step_def close_bracket_def run_def t'_def [symmetric] Let_def)
qed

subsection \<open>Whole values\<close>

text \<open>
  Over the text of a value the run finds its tokens and counts it in its superior; behind an object or array the
  superior is the innermost open token.
\<close>

definition superior_after :: "json \<Rightarrow> int \<Rightarrow> jsmntok_t list \<Rightarrow> int" where
  "superior_after v s ts = (case v of JObject _ _ \<Rightarrow> innermost ts | JArray _ _ \<Rightarrow> innermost ts | _ \<Rightarrow> s)"

definition reads_value :: "string \<Rightarrow> nat \<Rightarrow> json \<Rightarrow> bool" where
  "reads_value js n v \<longleftrightarrow> (\<forall>pre post cnt s ts st.
     js = pre @ render v @ post \<longrightarrow> json_ok v \<longrightarrow> ends_here post \<longrightarrow> superior_ok s ts \<longrightarrow> open_containers ts \<longrightarrow>
     length ts + token_count v \<le> n \<longrightarrow> token_count v \<le> length st \<longrightarrow>
     run js n cnt (length pre) s ts st =
       run js n (cnt + int (token_count v)) (length pre + length (render v)) (superior_after v s ts)
         (bump 1 s ts @ tokens_of (length pre) v) (drop (token_count v) st))"

text \<open>In front of a comma the superior is the container or one of its keys.\<close>

definition comma_ok :: "string \<Rightarrow> int \<Rightarrow> jsmntok_t list \<Rightarrow> bool" where
  "comma_ok sep s ts \<longleftrightarrow> innermost ts \<noteq> -1 \<and>
     (sep = [] \<and> s = innermost ts \<or>
      sep = '','' \<and> superior_ok s ts \<and> (s = innermost ts \<or> s \<noteq> -1 \<and> \<not> is_container (ts ! nat s)))"

definition reads_members :: "string \<Rightarrow> nat \<Rightarrow> members \<Rightarrow> bool" where
  "reads_members js n ms \<longleftrightarrow> (\<forall>sep pre post cnt s ts st.
     js = pre @ render_members sep ms @ post \<longrightarrow> members_ok ms \<longrightarrow> ends_here post \<longrightarrow> comma_ok sep s ts \<longrightarrow>
     open_containers ts \<longrightarrow> length ts + member_token_count ms \<le> n \<longrightarrow> member_token_count ms \<le> length st \<longrightarrow>
     (\<exists>s'. run js n cnt (length pre) s ts st =
       run js n (cnt + int (member_token_count ms)) (length pre + length (render_members sep ms)) s'
         (bump (member_count ms) (innermost ts) ts @ member_tokens (length pre) sep ms)
         (drop (member_token_count ms) st)))"

definition reads_elements :: "string \<Rightarrow> nat \<Rightarrow> elements \<Rightarrow> bool" where
  "reads_elements js n es \<longleftrightarrow> (\<forall>sep pre post cnt s ts st.
     js = pre @ render_elements sep es @ post \<longrightarrow> elements_ok es \<longrightarrow> ends_here post \<longrightarrow> comma_ok sep s ts \<longrightarrow>
     open_containers ts \<longrightarrow> length ts + element_token_count es \<le> n \<longrightarrow> element_token_count es \<le> length st \<longrightarrow>
     (\<exists>s'. run js n cnt (length pre) s ts st =
       run js n (cnt + int (element_token_count es)) (length pre + length (render_elements sep es)) s'
         (bump (element_count es) (innermost ts) ts @ element_tokens (length pre) sep es)
         (drop (element_token_count es) st)))"

lemma reads_string: "reads_value js n (JString k)"
  unfolding reads_value_def
proof (intro allI impI)
  fix pre post cnt s ts and st :: "jsmntok_t list"
  assume js: "js = pre @ render (JString k) @ post" and "json_ok (JString k)" "superior_ok s ts"
    and "length ts + token_count (JString k) \<le> n" and st: "token_count (JString k) \<le> length st"
  moreover from st obtain x st' where "st = x # st'" by (cases st) auto
  ultimately show "run js n cnt (length pre) s ts st = run js n (cnt + int (token_count (JString k)))
      (length pre + length (render (JString k))) (superior_after (JString k) s ts)
      (bump 1 s ts @ tokens_of (length pre) (JString k)) (drop (token_count (JString k)) st)"
    using run_string [of js pre k post s ts n cnt x st'] by (simp add: superior_after_def json_quoted_def)
qed

lemma reads_primitive: "reads_value js n (JPrimitive k)"
  unfolding reads_value_def
proof (intro allI impI)
  fix pre post cnt s ts and st :: "jsmntok_t list"
  assume js: "js = pre @ render (JPrimitive k) @ post" and "json_ok (JPrimitive k)" "superior_ok s ts" "ends_here post"
    and "length ts + token_count (JPrimitive k) \<le> n" and st: "token_count (JPrimitive k) \<le> length st"
  moreover from st obtain x st' where "st = x # st'" by (cases st) auto
  ultimately show "run js n cnt (length pre) s ts st = run js n (cnt + int (token_count (JPrimitive k)))
      (length pre + length (render (JPrimitive k))) (superior_after (JPrimitive k) s ts)
      (bump 1 s ts @ tokens_of (length pre) (JPrimitive k)) (drop (token_count (JPrimitive k)) st)"
    using run_primitive [of js pre k post s ts n cnt x st'] by (simp add: superior_after_def)
qed

lemma innermost_superior: "superior_ok (innermost ts) ts"
  using innermost_range [of ts] by (simp add: superior_ok_def)

text \<open>The separator in front of a member or element.\<close>

lemma run_separator:
  assumes js: "js = pre @ sep @ post" and sep: "comma_ok sep s ts" and ts: "open_containers ts"
  shows "run js n cnt (length pre) s ts st = run js n cnt (length (pre @ sep)) (innermost ts) ts st"
proof (cases "sep = []")
  case True
  then show ?thesis using sep by (simp add: comma_ok_def)
next
  case False
  then have comma: "js = pre @ CHR '','' # post" and s: "sep = '',''" "superior_ok s ts" "innermost ts \<noteq> -1"
      "s = innermost ts \<or> s \<noteq> -1 \<and> \<not> is_container (ts ! nat s)"
    using sep js by (auto simp: comma_ok_def)
  have "is_container (ts ! nat (innermost ts))"
    using innermost_is_open [OF s(3)] innermost_range [of ts] s(3) ts by (simp add: open_containers_def nat_less_iff)
  then show ?thesis
    using s run_comma_container [OF comma s(2)] run_comma_key [OF comma s(2) _ _ ts s(3)] by auto
qed

lemma reads_no_members: "reads_members js n MNil"
  by (auto simp: reads_members_def)

lemma reads_no_elements: "reads_elements js n ENil"
  by (auto simp: reads_elements_def)

lemma ends_here_white: "list_all white w \<Longrightarrow> ends_here post \<Longrightarrow> ends_here (w @ post)"
  by (cases w) (auto simp: ends_here_def ends_primitive_def)

lemma ends_here_next:
  assumes "list_all white w" and "ends_here post"
  shows "ends_here (w @ render_members '','' ms @ post)" and "ends_here (w @ render_elements '','' es @ post)"
proof -
  have "ends_here (render_members '','' ms @ post)"
    using assms(2) by (cases ms) (simp_all add: ends_here_def ends_primitive_def)
  moreover have "ends_here (render_elements '','' es @ post)"
    using assms(2) by (cases es) (simp_all add: ends_here_def ends_primitive_def)
  ultimately show "ends_here (w @ render_members '','' ms @ post)" "ends_here (w @ render_elements '','' es @ post)"
    using assms(1) by (simp_all add: ends_here_white)
qed

text \<open>The key and the colon of a member; the key becomes the superior.\<close>

lemma run_key:
  assumes js: "js = pre @ sep @ w1 @ json_quoted k @ w2 @ CHR '':'' # w3 @ post" and k: "string_text k"
    and w: "list_all white w1" "list_all white w2" "list_all white w3"
    and sep: "comma_ok sep s ts" and ts: "open_containers ts" and n: "length ts < n"
  shows "run js n cnt (length pre) s ts (x # st) =
    run js n (cnt + 1) (length (pre @ sep @ w1 @ json_quoted k @ w2 @ CHR '':'' # w3)) (int (length ts))
      (bump 1 (innermost ts) ts @ [mk_token JSMN_STRING (length (pre @ sep @ w1) + 1) (length k) 0]) st"
proof -
  let ?k = "mk_token JSMN_STRING (length (pre @ sep @ w1) + 1) (length k) 0"
  let ?ts = "bump 1 (innermost ts) ts @ [?k]"
  have "run js n cnt (length pre) s ts (x # st) = run js n cnt (length (pre @ sep)) (innermost ts) ts (x # st)"
    using js sep ts by (intro run_separator [of _ _ _ "w1 @ json_quoted k @ w2 @ CHR '':'' # w3 @ post"]) simp_all
  also have "\<dots> = run js n cnt (length (pre @ sep @ w1)) (innermost ts) ts (x # st)"
    using run_white [OF w(1), of js "pre @ sep" "json_quoted k @ w2 @ CHR '':'' # w3 @ post"] js by (simp add: add.assoc)
  also have "\<dots> = run js n (cnt + 1) (length (pre @ sep @ w1 @ json_quoted k)) (innermost ts) ?ts st"
    using run_string [of js "pre @ sep @ w1" k "w2 @ CHR '':'' # w3 @ post" "innermost ts" ts n cnt x st]
      js k n innermost_superior
    by (simp add: json_quoted_def add.assoc)
  also have "\<dots> = run js n (cnt + 1) (length (pre @ sep @ w1 @ json_quoted k @ w2)) (innermost ts) ?ts st"
    using run_white [OF w(2), of js "pre @ sep @ w1 @ json_quoted k" "CHR '':'' # w3 @ post"] js by (simp add: add.assoc)
  also have "\<dots> = run js n (cnt + 1) (length (pre @ sep @ w1 @ json_quoted k @ w2 @ '':'')) (int (length ts)) ?ts st"
    using js by (subst run_colon [of _ "pre @ sep @ w1 @ json_quoted k @ w2" "w3 @ post"]) simp_all
  also have "\<dots> = run js n (cnt + 1) (length (pre @ sep @ w1 @ json_quoted k @ w2 @ CHR '':'' # w3)) (int (length ts)) ?ts st"
    using run_white [OF w(3), of js "pre @ sep @ w1 @ json_quoted k @ w2 @ '':''" post] js by (simp add: add.assoc)
  finally show ?thesis .
qed

text \<open>A value and the white space behind it, in front of the rest of the members or elements.\<close>

lemma run_value:
  assumes v: "reads_value js n v" and js: "js = pre @ render v @ w @ post"
    and ok: "json_ok v" "list_all white w" "ends_here (w @ post)" "superior_ok s ts" "open_containers ts"
    and n: "length ts + token_count v \<le> n" "token_count v \<le> length st"
  shows "run js n cnt (length pre) s ts st = run js n (cnt + int (token_count v)) (length (pre @ render v @ w))
    (superior_after v s ts) (bump 1 s ts @ tokens_of (length pre) v) (drop (token_count v) st)"
proof -
  have "run js n cnt (length pre) s ts st = run js n (cnt + int (token_count v)) (length (pre @ render v))
      (superior_after v s ts) (bump 1 s ts @ tokens_of (length pre) v) (drop (token_count v) st)"
    using v [unfolded reads_value_def, rule_format, OF js ok(1,3,4,5) n, of cnt] by simp
  also have "\<dots> = run js n (cnt + int (token_count v)) (length (pre @ render v) + length w)
      (superior_after v s ts) (bump 1 s ts @ tokens_of (length pre) v) (drop (token_count v) st)"
    using js by (intro run_white [OF ok(2), of _ _ post]) simp
  finally show ?thesis by (simp add: add.assoc)
qed

lemma reads_member:
  assumes v: "reads_value js n v" and ms: "reads_members js n ms"
  shows "reads_members js n (MCons w1 k w2 w3 v w4 ms)"
  unfolding reads_members_def
proof (intro allI impI)
  let ?ms = "MCons w1 k w2 w3 v w4 ms"
  fix sep pre post cnt s ts and st :: "jsmntok_t list"
  assume js: "js = pre @ render_members sep ?ms @ post" and ok: "members_ok ?ms"
    and post: "ends_here post" and sep: "comma_ok sep s ts" and ts: "open_containers ts"
    and n: "length ts + member_token_count ?ms \<le> n" and st: "member_token_count ?ms \<le> length st"
  have w: "list_all white w1" "list_all white w2" "list_all white w3" "list_all white w4" and k: "string_text k"
    and v_ok: "json_ok v" and ms_ok: "members_ok ms"
    using ok by simp_all
  define a where "a = length pre + length sep + length w1"
  define key where "key = pre @ sep @ w1 @ json_quoted k @ w2 @ CHR '':'' # w3"
  have key: "length key = a + length k + length w2 + length w3 + 3" by (simp add: key_def json_quoted_def a_def)
  obtain x st' where x: "st = x # st'" using st by (cases st) auto
  let ?o = "innermost ts"
  define ts1 where "ts1 = bump 1 ?o ts @ [mk_token JSMN_STRING (a + 1) (length k) 0]"
  define ts2 where "ts2 = bump 1 ?o ts @ mk_token JSMN_STRING (a + 1) (length k) 1 # tokens_of (length key) v"
  have inner: "innermost ts2 = ?o" "innermost ts1 = ?o" "length ts2 = length ts + 1 + token_count v"
    by (auto simp: ts1_def ts2_def intro!: innermost_closed [THEN trans])
  have oc: "open_containers ts1" "open_containers ts2"
    unfolding ts1_def ts2_def using ts by (auto intro!: open_containers_append)
  have "run js n cnt (length pre) s ts st = run js n (cnt + 1) (length key) (int (length ts)) ts1 st'"
    using run_key [of js pre sep w1 k w2 w3 "render v @ w4 @ render_members '','' ms @ post" s ts n cnt x st'] js k w sep ts n
    by (simp add: x ts1_def a_def key_def add.assoc)
  also have "\<dots> = run js n (cnt + 1 + int (token_count v)) (length (key @ render v @ w4))
      (superior_after v (int (length ts)) ts1)
      (bump 1 (int (length ts)) ts1 @ tokens_of (length key) v) (drop (token_count v) st')"
  proof (rule run_value [OF v])
    show "js = key @ render v @ w4 @ render_members '','' ms @ post" using js by (simp add: key_def)
    show "ends_here (w4 @ render_members '','' ms @ post)" using ends_here_next(1) [OF w(4) post] .
  qed (use v_ok w(4) oc(1) n st x in \<open>auto simp: ts1_def superior_ok_def\<close>)
  also have "bump 1 (int (length ts)) ts1 @ tokens_of (length key) v = ts2"
    using bump_last [of 1 "bump 1 ?o ts" _ "[]"] by (simp add: ts1_def ts2_def mk_token_def)
  finally have upto: "run js n cnt (length pre) s ts st = run js n (cnt + 1 + int (token_count v))
      (length (key @ render v @ w4)) (superior_after v (int (length ts)) ts1) ts2 (drop (token_count v) st')" .
  have left: "member_token_count ms \<le> length (drop (token_count v) st')" using st x by simp
  have "\<not> is_container (ts2 ! length ts)"
    using bump_nth [of 1 ?o ts] by (simp add: ts2_def is_container_def mk_token_def)
  then have "comma_ok '','' (superior_after v (int (length ts)) ts1) ts2"
    using sep inner innermost_superior [of ts2] by (cases v) (auto simp: superior_after_def comma_ok_def superior_ok_def ts2_def)
  then obtain s' where "run js n (cnt + 1 + int (token_count v)) (length (key @ render v @ w4))
        (superior_after v (int (length ts)) ts1) ts2 (drop (token_count v) st') =
      run js n (cnt + 1 + int (token_count v) + int (member_token_count ms))
        (length (key @ render v @ w4) + length (render_members '','' ms)) s'
        (bump (member_count ms) ?o ts2 @ member_tokens (length (key @ render v @ w4)) '','' ms)
        (drop (member_token_count ms) (drop (token_count v) st'))"
    using ms [unfolded reads_members_def, rule_format, where pre = "key @ render v @ w4" and sep = "'',''" and post = post
      and cnt = "cnt + 1 + int (token_count v)" and s = "superior_after v (int (length ts)) ts1" and ts = ts2
      and st = "drop (token_count v) st'"] js ms_ok post n inner left oc(2)
    by (auto simp: key_def)
  moreover have "bump (member_count ms) ?o ts2 @ member_tokens (length (key @ render v @ w4)) '','' ms =
      bump (member_count ?ms) ?o ts @ member_tokens (length pre) sep ?ms"
    using innermost_superior [of ts]
    by (simp add: ts2_def bump_append bump_bump key Let_def a_def add.assoc)
  moreover have "cnt + 1 + int (token_count v) + int (member_token_count ms) = cnt + int (member_token_count ?ms)"
    by simp
  moreover have "length (key @ render v @ w4) + length (render_members '','' ms) = length pre + length (render_members sep ?ms)"
    by (simp add: key_def json_quoted_def)
  moreover have "drop (member_token_count ms) (drop (token_count v) st') = drop (member_token_count ?ms) st"
    by (simp add: x add.commute)
  ultimately have "run js n cnt (length pre) s ts st =
      run js n (cnt + int (member_token_count ?ms)) (length pre + length (render_members sep ?ms)) s'
        (bump (member_count ?ms) ?o ts @ member_tokens (length pre) sep ?ms) (drop (member_token_count ?ms) st)"
    by (simp only: upto)
  then show "\<exists>s'. run js n cnt (length pre) s ts st =
       run js n (cnt + int (member_token_count ?ms)) (length pre + length (render_members sep ?ms)) s'
         (bump (member_count ?ms) ?o ts @ member_tokens (length pre) sep ?ms) (drop (member_token_count ?ms) st)" ..
qed

lemma reads_element:
  assumes v: "reads_value js n v" and es: "reads_elements js n es"
  shows "reads_elements js n (ECons w1 v w2 es)"
  unfolding reads_elements_def
proof (intro allI impI)
  let ?es = "ECons w1 v w2 es"
  fix sep pre post cnt s ts and st :: "jsmntok_t list"
  assume js: "js = pre @ render_elements sep ?es @ post" and ok: "elements_ok ?es"
    and post: "ends_here post" and sep: "comma_ok sep s ts" and ts: "open_containers ts"
    and n: "length ts + element_token_count ?es \<le> n" and st: "element_token_count ?es \<le> length st"
  have w: "list_all white w1" "list_all white w2" and v_ok: "json_ok v" and es_ok: "elements_ok es"
    using ok by simp_all
  define b where "b = pre @ sep @ w1"
  let ?o = "innermost ts"
  define ts2 where "ts2 = bump 1 ?o ts @ tokens_of (length b) v"
  have inner: "innermost ts2 = ?o" "length ts2 = length ts + token_count v"
    by (simp_all add: ts2_def innermost_closed)
  have "run js n cnt (length pre) s ts st = run js n cnt (length (pre @ sep)) ?o ts st"
    using js sep ts
    by (intro run_separator [of _ _ _ "w1 @ render v @ w2 @ render_elements '','' es @ post"]) simp_all
  also have "\<dots> = run js n cnt (length b) ?o ts st"
    using run_white [OF w(1), of js "pre @ sep" "render v @ w2 @ render_elements '','' es @ post"] js
    by (simp add: b_def add.assoc)
  also have "\<dots> = run js n (cnt + int (token_count v)) (length (b @ render v @ w2)) (superior_after v ?o ts)
      (bump 1 ?o ts @ tokens_of (length b) v) (drop (token_count v) st)"
  proof (rule run_value [OF v])
    show "js = b @ render v @ w2 @ render_elements '','' es @ post" using js by (simp add: b_def)
    show "ends_here (w2 @ render_elements '','' es @ post)" using ends_here_next(2) [OF w(2) post] .
  qed (use v_ok w(2) n st ts innermost_superior in auto)
  finally have upto: "run js n cnt (length pre) s ts st = run js n (cnt + int (token_count v))
      (length (b @ render v @ w2)) (superior_after v ?o ts) ts2 (drop (token_count v) st)"
    by (simp only: ts2_def)
  have left: "element_token_count es \<le> length (drop (token_count v) st)" using st by simp
  have "superior_after v ?o ts = ?o" by (cases v) (simp_all add: superior_after_def)
  then have "comma_ok '','' (superior_after v ?o ts) ts2"
    using sep inner innermost_superior [of ts2] by (simp add: comma_ok_def)
  moreover have "open_containers ts2" unfolding ts2_def using ts by (intro open_containers_append) auto
  ultimately obtain s' where "run js n (cnt + int (token_count v)) (length (b @ render v @ w2))
        (superior_after v ?o ts) ts2 (drop (token_count v) st) =
      run js n (cnt + int (token_count v) + int (element_token_count es))
        (length (b @ render v @ w2) + length (render_elements '','' es)) s'
        (bump (element_count es) ?o ts2 @ element_tokens (length (b @ render v @ w2)) '','' es)
        (drop (element_token_count es) (drop (token_count v) st))"
    using es [unfolded reads_elements_def, rule_format, where pre = "b @ render v @ w2" and sep = "'',''" and post = post
      and cnt = "cnt + int (token_count v)" and s = "superior_after v ?o ts" and ts = ts2 and st = "drop (token_count v) st"]
      js es_ok post n inner left
    by (auto simp: b_def)
  moreover have "bump (element_count es) ?o ts2 @ element_tokens (length (b @ render v @ w2)) '','' es =
      bump (element_count ?es) ?o ts @ element_tokens (length pre) sep ?es"
    using innermost_superior [of ts]
    by (simp add: ts2_def bump_append bump_bump Let_def b_def add.assoc)
  ultimately show "\<exists>s'. run js n cnt (length pre) s ts st =
       run js n (cnt + int (element_token_count ?es)) (length pre + length (render_elements sep ?es)) s'
         (bump (element_count ?es) (innermost ts) ts @ element_tokens (length pre) sep ?es)
         (drop (element_token_count ?es) st)"
    using upto by (intro exI [of _ s']) (simp add: b_def add.assoc add.commute add.left_commute)
qed

text \<open>A container: its bracket, what is inside, and the closing bracket.\<close>

lemma run_container:
  assumes js: "js = pre @ c # inside @ c' # post"
    and c: "c = CHR ''{'' \<and> c' = CHR ''}'' \<or> c = CHR ''['' \<and> c' = CHR '']''"
    and s: "superior_ok s ts" and n: "length ts < n" and us: "\<And>u. u \<in> set us \<Longrightarrow> \<not> is_open u"
    and inner: "\<And>t. t = \<lparr>tok_type = type_of_bracket c, tok_start = int (length pre), tok_end = -1, tok_size = 0\<rparr> \<Longrightarrow>
      \<exists>s'. run js n (cnt + 1) (length (pre @ [c])) (int (length ts)) (bump 1 s ts @ [t]) st =
        run js n (cnt + 1 + k) (length (pre @ c # inside)) s' (bump 1 s ts @ t\<lparr>tok_size := m\<rparr> # us) st'"
  shows "run js n cnt (length pre) s ts (x # st) =
    run js n (cnt + 1 + k) (length (pre @ c # inside @ [c'])) (innermost ts)
      (bump 1 s ts @ mk_token (type_of_bracket c) (length pre) (length inside + 2) m # us) st'"
proof -
  define t where "t = \<lparr>tok_type = type_of_bracket c, tok_start = int (length pre), tok_end = -1, tok_size = 0\<rparr>"
  obtain s' where "run js n (cnt + 1) (length (pre @ [c])) (int (length ts)) (bump 1 s ts @ [t]) st =
      run js n (cnt + 1 + k) (length (pre @ c # inside)) s' (bump 1 s ts @ t\<lparr>tok_size := m\<rparr> # us) st'"
    using inner [OF t_def] by blast
  moreover have "run js n cnt (length pre) s ts (x # st) =
      run js n (cnt + 1) (length (pre @ [c])) (int (length ts)) (bump 1 s ts @ [t]) st"
    using run_open [OF js _ s n, of cnt x st] c by (auto simp: t_def)
  moreover have "run js n (cnt + 1 + k) (length (pre @ c # inside)) s' (bump 1 s ts @ t\<lparr>tok_size := m\<rparr> # us) st' =
      run js n (cnt + 1 + k) (length (pre @ c # inside) + 1) (innermost (bump 1 s ts))
        (bump 1 s ts @ t\<lparr>tok_size := m, tok_end := int (length (pre @ c # inside)) + 1\<rparr> # us) st'"
    using js c us by (intro run_close [of _ "pre @ c # inside" c' post]) (auto simp: t_def is_open_def type_of_bracket_def)
  ultimately show ?thesis by (simp add: t_def mk_token_def algebra_simps)
qed

lemma comma_ok_inside:
  "is_open t \<Longrightarrow> comma_ok [] (int (length ts)) (bump 1 s ts @ [t])"
  using innermost_open [of t "bump 1 s ts"] by (simp add: comma_ok_def)

lemma reads_object:
  assumes ms: "reads_members js n ms"
  shows "reads_value js n (JObject w ms)"
  unfolding reads_value_def
proof (intro allI impI)
  fix pre post cnt s ts and st :: "jsmntok_t list"
  assume js: "js = pre @ render (JObject w ms) @ post" and ok: "json_ok (JObject w ms)"
    and s: "superior_ok s ts" and ts: "open_containers ts"
    and n: "length ts + token_count (JObject w ms) \<le> n" and st: "token_count (JObject w ms) \<le> length st"
  obtain x st' where x: "st = x # st'" using st by (cases st) auto
  have "run js n cnt (length pre) s ts (x # st') =
    run js n (cnt + 1 + int (member_token_count ms)) (length (pre @ CHR ''{'' # (w @ render_members [] ms) @ ''}''))
      (innermost ts) (bump 1 s ts @ mk_token (type_of_bracket CHR ''{'') (length pre) (length (w @ render_members [] ms) + 2)
        (member_count ms) # member_tokens (length pre + 1 + length w) [] ms) (drop (member_token_count ms) st')"
  proof (rule run_container [where post = post])
    fix t
    assume t: "t = \<lparr>tok_type = type_of_bracket CHR ''{'', tok_start = int (length pre), tok_end = -1, tok_size = 0\<rparr>"
    then have op: "is_open t" "is_container t" by (simp_all add: is_open_def is_container_def type_of_bracket_def)
    let ?ts = "bump 1 s ts @ [t]"
    have "bump (member_count ms) (int (length ts)) ?ts = bump 1 s ts @ [t\<lparr>tok_size := member_count ms\<rparr>]"
      using bump_last [of "member_count ms" "bump 1 s ts" t "[]"] t by simp
    moreover have "open_containers ?ts" using ts op by (intro open_containers_append) auto
    ultimately show "\<exists>s'. run js n (cnt + 1) (length (pre @ ''{'')) (int (length ts)) ?ts st' =
        run js n (cnt + 1 + int (member_token_count ms)) (length (pre @ CHR ''{'' # w @ render_members [] ms)) s'
          (bump 1 s ts @ t\<lparr>tok_size := member_count ms\<rparr> # member_tokens (length pre + 1 + length w) [] ms)
          (drop (member_token_count ms) st')"
      using ms [unfolded reads_members_def, rule_format, where pre = "pre @ ''{'' @ w" and sep = "[]" and ts = ?ts
          and post = "CHR ''}'' # post" and s = "int (length ts)" and cnt = "cnt + 1" and st = st']
        js ok n st x op(1) comma_ok_inside [OF op(1), of ts s] innermost_open [OF op(1), of "bump 1 s ts"]
        run_white [of w js "pre @ ''{''" "render_members [] ms @ CHR ''}'' # post" n "cnt + 1" "int (length ts)" ?ts st']
      by (auto simp: ends_here_def ends_primitive_def add.assoc)
  qed (use js s n in \<open>auto simp: type_of_bracket_def\<close>)
  then show "run js n cnt (length pre) s ts st =
      run js n (cnt + int (token_count (JObject w ms))) (length pre + length (render (JObject w ms)))
        (superior_after (JObject w ms) s ts) (bump 1 s ts @ tokens_of (length pre) (JObject w ms))
        (drop (token_count (JObject w ms)) st)"
    using x by (simp add: superior_after_def type_of_bracket_def add.assoc)
qed

lemma reads_array:
  assumes es: "reads_elements js n es"
  shows "reads_value js n (JArray w es)"
  unfolding reads_value_def
proof (intro allI impI)
  fix pre post cnt s ts and st :: "jsmntok_t list"
  assume js: "js = pre @ render (JArray w es) @ post" and ok: "json_ok (JArray w es)"
    and s: "superior_ok s ts" and ts: "open_containers ts"
    and n: "length ts + token_count (JArray w es) \<le> n" and st: "token_count (JArray w es) \<le> length st"
  obtain x st' where x: "st = x # st'" using st by (cases st) auto
  have "run js n cnt (length pre) s ts (x # st') =
    run js n (cnt + 1 + int (element_token_count es)) (length (pre @ CHR ''['' # (w @ render_elements [] es) @ '']''))
      (innermost ts) (bump 1 s ts @ mk_token (type_of_bracket CHR ''['') (length pre) (length (w @ render_elements [] es) + 2)
        (element_count es) # element_tokens (length pre + 1 + length w) [] es) (drop (element_token_count es) st')"
  proof (rule run_container [where post = post])
    fix t
    assume t: "t = \<lparr>tok_type = type_of_bracket CHR ''['', tok_start = int (length pre), tok_end = -1, tok_size = 0\<rparr>"
    then have op: "is_open t" "is_container t" by (simp_all add: is_open_def is_container_def type_of_bracket_def)
    let ?ts = "bump 1 s ts @ [t]"
    have "bump (element_count es) (int (length ts)) ?ts = bump 1 s ts @ [t\<lparr>tok_size := element_count es\<rparr>]"
      using bump_last [of "element_count es" "bump 1 s ts" t "[]"] t by simp
    moreover have "open_containers ?ts" using ts op by (intro open_containers_append) auto
    ultimately show "\<exists>s'. run js n (cnt + 1) (length (pre @ ''['')) (int (length ts)) ?ts st' =
        run js n (cnt + 1 + int (element_token_count es)) (length (pre @ CHR ''['' # w @ render_elements [] es)) s'
          (bump 1 s ts @ t\<lparr>tok_size := element_count es\<rparr> # element_tokens (length pre + 1 + length w) [] es)
          (drop (element_token_count es) st')"
      using es [unfolded reads_elements_def, rule_format, where pre = "pre @ ''['' @ w" and sep = "[]" and ts = ?ts
          and post = "CHR '']'' # post" and s = "int (length ts)" and cnt = "cnt + 1" and st = st']
        js ok n st x op(1) comma_ok_inside [OF op(1), of ts s] innermost_open [OF op(1), of "bump 1 s ts"]
        run_white [of w js "pre @ ''[''" "render_elements [] es @ CHR '']'' # post" n "cnt + 1" "int (length ts)" ?ts st']
      by (auto simp: ends_here_def ends_primitive_def add.assoc)
  qed (use js s n in \<open>auto simp: type_of_bracket_def\<close>)
  then show "run js n cnt (length pre) s ts st =
      run js n (cnt + int (token_count (JArray w es))) (length pre + length (render (JArray w es)))
        (superior_after (JArray w es) s ts) (bump 1 s ts @ tokens_of (length pre) (JArray w es))
        (drop (token_count (JArray w es)) st)"
    using x by (simp add: superior_after_def type_of_bracket_def add.assoc)
qed

lemma reads_all: "reads_value js n v" and "reads_members js n ms" and "reads_elements js n es"
  by (induction v and ms and es)
    (simp_all add: reads_object reads_array reads_string reads_primitive reads_no_members reads_member
      reads_no_elements reads_element)

end
