(* ===== verification/JsmnProperties.thy ===== *)
theory JsmnProperties
  imports JsmnRun
begin

text \<open>
  What the JSON tokenizer promises its callers, from the initial state of the parser: it stays inside the text and the
  array, every token it hands out is well formed, the tokens of a JSON text are those of the value, and counting without
  an array agrees with parsing into one.
\<close>

lemma parser_ok_init: "n \<le> length ts \<Longrightarrow> parser_ok len n jsmn_init ts"
  by (simp add: parser_ok_def jsmn_init_def)

lemma no_open_token:
  assumes "parser_ok len n p ts"
  shows "\<exists>r. last_token is_open ts (toknext p) = Some r \<and> (r = None \<longrightarrow> (\<forall>i < toknext p. tok_end (ts ! i) \<noteq> -1))"
proof -
  have "toknext p \<le> length ts" using assms by (simp add: parser_ok_def)
  from last_token_spec [OF this, of is_open] obtain r where "last_token is_open ts (toknext p) = Some r"
    "r = None \<longrightarrow> (\<forall>i < toknext p. \<not> is_open (ts ! i))"
    by (auto split: option.splits)
  then show ?thesis using assms is_open_ok by (auto simp: parser_ok_def)
qed

lemma jsmn_parse_ok:
  assumes "len \<le> length js" and ok: "parser_ok len n p ts"
  shows "\<exists>r p' ts'. jsmn_parse p js len (Some ts) n = Some (r, p', Some ts') \<and> parser_ok len n p' ts' \<and>
    only_taken (toknext p') ts ts' \<and>
    (r \<in> {JSMN_ERROR_NOMEM, JSMN_ERROR_INVAL, JSMN_ERROR_PART} \<or>
     r = int (toknext p') \<and> (\<forall>i < toknext p'. tok_end (ts' ! i) \<noteq> -1))"
proof -
  obtain r p' ts' where run: "jsmn_loop js len n (int (toknext p)) p (Some ts) = Some (r, p', Some ts')"
    "parser_ok len n p' ts'" "only_taken (toknext p') ts ts'"
    "case r of Inl e \<Rightarrow> e \<in> {JSMN_ERROR_NOMEM, JSMN_ERROR_INVAL, JSMN_ERROR_PART}
     | Inr cnt \<Rightarrow> cnt - int (toknext p') = int (toknext p) - int (toknext p)"
    using jsmn_loop_ok [OF assms, of "int (toknext p)"] by blast
  from no_open_token [OF run(2)] show ?thesis
    using run by (cases r) (auto simp: jsmn_parse_def)
qed

text \<open>(C9) The tokenizer is total and type safe. For every text of at least \<open>len\<close> characters and every array of at
  least \<open>num_tokens\<close> tokens the call returns without reading or writing outside; what it returns is one of the three
  error codes or the number of tokens taken. Each token taken is an object, an array, a string or a primitive, its
  start and end lie in the text in this order, and only an object or array can be without an end, none after success;
  the tokens behind them are not touched.\<close>

theorem jsmn_parse_typed:
  assumes "len \<le> length js" and "num_tokens \<le> length ts"
  shows "\<exists>r p' ts'. jsmn_parse jsmn_init js len (Some ts) num_tokens = Some (r, p', Some ts') \<and>
    toknext p' \<le> num_tokens \<and> pos p' \<le> len \<and> -1 \<le> toksuper p' \<and> toksuper p' < int (toknext p') \<and>
    (\<forall>i < toknext p'. tok_ok len (ts' ! i)) \<and> only_taken (toknext p') ts ts' \<and>
    (r \<in> {JSMN_ERROR_NOMEM, JSMN_ERROR_INVAL, JSMN_ERROR_PART} \<or>
     r = int (toknext p') \<and> (\<forall>i < toknext p'. tok_end (ts' ! i) \<noteq> -1))"
proof -
  obtain r p' ts' where run: "jsmn_parse jsmn_init js len (Some ts) num_tokens = Some (r, p', Some ts')"
    "parser_ok len num_tokens p' ts'" "only_taken (toknext p') ts ts'"
    "r \<in> {JSMN_ERROR_NOMEM, JSMN_ERROR_INVAL, JSMN_ERROR_PART} \<or>
     r = int (toknext p') \<and> (\<forall>i < toknext p'. tok_end (ts' ! i) \<noteq> -1)"
    using jsmn_parse_ok [OF assms(1) parser_ok_init [OF assms(2)]] by blast
  moreover have "\<forall>i < toknext p'. tok_ok len (ts' ! i)"
    using run(2) by (auto simp: parser_ok_def intro: tok_ok_later)
  ultimately show ?thesis unfolding parser_ok_def by blast
qed

text \<open>A truncated text: the object is open, its key and value are tokens, and the code is the one for a text that ends early.\<close>

definition blank_token :: jsmntok_t where
  "blank_token = \<lparr>tok_type = JSMN_UNDEFINED, tok_start = 0, tok_end = 0, tok_size = 0\<rparr>"

definition cut_text :: string where
  "cut_text = ''{'' @ json_quoted ''a'' @ '':[1''"

theorem jsmn_parse_typed_witness:
  "\<exists>p' ts'. jsmn_parse jsmn_init cut_text 7 (Some (replicate 5 blank_token)) 5 = Some (JSMN_ERROR_PART, p', Some ts') \<and>
     toknext p' = 4 \<and> (\<forall>i < 4. tok_ok 7 (ts' ! i)) \<and> only_taken 4 (replicate 5 blank_token) ts'"
proof -
  have len: "7 \<le> length cut_text" "5 \<le> length (replicate 5 blank_token)" by (simp_all add: cut_text_def json_quoted_def)
  have "map_option (\<lambda>(r, p', t). (r, toknext p')) (jsmn_parse jsmn_init cut_text 7 (Some (replicate 5 blank_token)) 5) =
      Some (JSMN_ERROR_PART, 4)"
    by code_simp
  with jsmn_parse_typed [OF len] show ?thesis by auto
qed

text \<open>The run over the text, and the check at its end that no container is left open.\<close>

lemma jsmn_parse_value:
  assumes js: "js = w @ render v @ w' @ rest" and v: "json_ok v" and white: "list_all white w" "list_all white w'"
    and rest: "text_ends rest" and room: "token_count v \<le> num_tokens" "num_tokens \<le> length ts"
  shows "jsmn_parse jsmn_init js (length js) (Some ts) num_tokens =
    Some (int (token_count v), \<lparr>pos = length (w @ render v @ w'), toknext = token_count v, toksuper = -1\<rparr>,
      Some (tokens_of (length w) v @ drop (token_count v) ts))"
proof -
  have ends: "ends_here (w' @ rest)"
    using white(2) rest by (intro ends_here_white) (auto simp: text_ends_def ends_here_def)
  have "run js num_tokens 0 (length []) (-1) [] ts = run js num_tokens 0 (length w) (-1) [] ts"
    using run_white [OF white(1), of js "[]" "render v @ w' @ rest"] js by simp
  also have "\<dots> = run js num_tokens (int (token_count v)) (length (w @ render v @ w')) (superior_after v (-1) [])
      (tokens_of (length w) v) (drop (token_count v) ts)"
    using run_value [OF reads_all(1) js v white(2) ends, of "-1" "[]" num_tokens ts 0] room
    by (simp add: superior_ok_def open_containers_def bump_def)
  also have "\<dots> = Some (Inr (int (token_count v)),
      \<lparr>pos = length (w @ render v @ w'), toknext = token_count v, toksuper = superior_after v (-1) []\<rparr>,
      Some (tokens_of (length w) v @ drop (token_count v) ts))"
    using js rest by (subst run_end [of _ "w @ render v @ w'" rest]) simp_all
  also have "superior_after v (-1) [] = -1" by (cases v) (simp_all add: superior_after_def)
  finally have "run js num_tokens 0 (length []) (-1) [] ts = Some (Inr (int (token_count v)),
      \<lparr>pos = length (w @ render v @ w'), toknext = token_count v, toksuper = -1\<rparr>,
      Some (tokens_of (length w) v @ drop (token_count v) ts))" .
  moreover have "last_token is_open (tokens_of (length w) v @ drop (token_count v) ts) (token_count v) = Some None"
    using last_token_skip [of "tokens_of (length w) v" is_open "[]"] by (simp add: last_token.simps)
  ultimately show ?thesis by (simp add: jsmn_parse_def jsmn_init_def run_def)
qed

text \<open>(C8) The tokens of a JSON text are the value's. For every JSON value written out with any white space, followed by
  the end of the buffer or a zero character, the tokenizer finds as many tokens as the value has, in order, with the type,
  the bounds and the number of children of each, whatever was in the array before; the parser stops behind the text with
  no object open.\<close>

theorem jsmn_finds_tokens:
  assumes js: "js = w @ render v @ w' @ rest" and v: "json_ok v" and white: "list_all white w" "list_all white w'"
    and rest: "text_ends rest" and room: "token_count v \<le> num_tokens" "num_tokens \<le> length ts"
  shows "jsmn_parse jsmn_init js (length js) (Some ts) num_tokens =
    Some (int (token_count v), \<lparr>pos = length (w @ render v @ w'), toknext = token_count v, toksuper = -1\<rparr>,
      Some (tokens_of (length w) v @ drop (token_count v) ts))"
  by (rule jsmn_parse_value [OF assms])

text \<open>An object with an array, an escape, an empty object and white space; the array of tokens holds old values.\<close>

definition sample_json :: json where
  "sample_json = JObject [] (MCons [] ''a'' [] []
       (JArray [] (ECons [] (JPrimitive ''1'') [] (ECons [] (JString [BACKSLASH, DQUOTE]) [] ENil))) []
     (MCons '' '' ''b'' [] [] (JObject [] MNil) [] MNil))"

theorem jsmn_finds_tokens_witness:
  "map_option (\<lambda>(r, p, t). (r, pos p)) (jsmn_parse jsmn_init ('' '' @ render sample_json @ [] @ [NUL]) 24
       (Some (replicate 9 blank_token)) 8) = Some (7, 23) \<and>
   map tok_size (tokens_of 1 sample_json) = [2, 1, 2, 0, 0, 1, 0]"
proof -
  have ok: "json_ok sample_json" "list_all white '' ''" "list_all white []" "text_ends [NUL]"
    "token_count sample_json \<le> 8" "8 \<le> length (replicate 9 blank_token)"
    by code_simp+
  have count: "token_count sample_json = 7" and len: "length (render sample_json) = 22"
    and sizes: "map tok_size (tokens_of 1 sample_json) = [2, 1, 2, 0, 0, 1, 0]"
    by code_simp+
  show ?thesis using jsmn_finds_tokens [OF refl ok] sizes by (simp add: count len)
qed

text \<open>(C36) Counting and parsing agree. Whenever the text is parsed into an array without error, the number returned
  is at most the size of the array, and the call without an array, which the caller makes to learn how many tokens it
  needs, returns the same number from the same place. So a text that counts to more tokens than there is room for is
  refused.\<close>

theorem jsmn_counts:
  assumes "len \<le> length js" and "num_tokens \<le> length ts"
    and "jsmn_parse jsmn_init js len (Some ts) num_tokens = Some (r, p, t)" and "0 \<le> r"
  shows "r \<le> int num_tokens \<and> (\<exists>q. jsmn_parse jsmn_init js len None m = Some (r, q, None) \<and> pos q = pos p)"
proof -
  note ok = parser_ok_init [OF assms(2), of len]
  obtain z q us where loop: "jsmn_loop js len num_tokens (int (toknext jsmn_init)) jsmn_init (Some ts) = Some (z, q, Some us)"
    "parser_ok len num_tokens q us"
    "case z of Inl e \<Rightarrow> e \<in> {JSMN_ERROR_NOMEM, JSMN_ERROR_INVAL, JSMN_ERROR_PART}
     | Inr cnt \<Rightarrow> cnt - int (toknext q) = int (toknext jsmn_init) - int (toknext jsmn_init)"
    using jsmn_loop_ok [OF assms(1) ok, of "int (toknext jsmn_init)"] by blast
  have neg: "JSMN_ERROR_NOMEM < 0" "JSMN_ERROR_INVAL < 0" "JSMN_ERROR_PART < 0"
    by (simp_all add: JSMN_ERROR_NOMEM_def JSMN_ERROR_INVAL_def JSMN_ERROR_PART_def)
  show ?thesis
  proof (cases z)
    case (Inl e)
    then have "r < 0" using loop assms(3) neg by (auto simp: jsmn_parse_def)
    then show ?thesis using assms(4) by simp
  next
    case (Inr cnt)
    then have "r = cnt \<and> p = q"
      using loop assms(3,4) neg by (auto simp: jsmn_parse_def Option.bind_eq_Some_conv split: if_splits)
    moreover have "cnt \<le> int num_tokens" using loop(2,3) Inr by (simp add: parser_ok_def)
    ultimately show ?thesis
      using jsmn_loop_counts [OF assms(1) ok loop(1) [unfolded Inr] refl, of m] by (auto simp: jsmn_parse_def)
  qed
qed

theorem jsmn_counts_witness:
  "map_option fst (jsmn_parse jsmn_init (render sample_json) 22 None 0) = Some 7"
proof -
  have "map_option (\<lambda>(r, p, t). (r, pos p)) (jsmn_parse jsmn_init (render sample_json) 22 (Some (replicate 9 blank_token)) 8) =
     Some (7, 22)"
    by code_simp
  then obtain p t where run: "jsmn_parse jsmn_init (render sample_json) 22 (Some (replicate 9 blank_token)) 8 = Some (7, p, t)"
    by auto
  have "22 \<le> length (render sample_json)" "8 \<le> length (replicate 9 blank_token)" by code_simp+
  from jsmn_counts [OF this run, of 0] show ?thesis by auto
qed

end
