(* ===== verification/JsonUtilsProperties.thy ===== *)
theory JsonUtilsProperties
  imports JsonUtils JsmnProperties
begin

text \<open>
  What the JSON helpers promise on the tokens of a JSON text: the numbers written by \<open>printf\<close> are read back, and the
  value of a key is found.
\<close>

subsection \<open>Numbers\<close>

lemma digit_of_digit: "d < base \<Longrightarrow> d < 10 \<Longrightarrow> digit_of base (digit d) = Some d"
  by (simp add: digit_of_def of_char_digit)

lemma digit_of_is_digit: "is_digit c \<Longrightarrow> digit_of 10 c = Some (digit_val c)"
  by (auto simp: digit_of_def is_digit_def digit_val_def Let_def)

lemma digit_of_other: "\<not> is_digit c \<Longrightarrow> digit_of 10 c = None \<and> digit_of 8 c = None"
  by (auto simp: digit_of_def is_digit_def Let_def)

lemma digits_all: "(\<And>c. c \<in> set s \<Longrightarrow> is_digit c) \<Longrightarrow> rest = [] \<or> \<not> is_digit (hd rest) \<Longrightarrow> digits 10 (s @ rest) = s"
  unfolding digits_def
  by (cases rest) (auto simp: digit_of_is_digit digit_of_other)

lemma number_atoi: "(\<And>c. c \<in> set s \<Longrightarrow> is_digit c) \<Longrightarrow> foldl (\<lambda>a c. int 10 * a + int (the (digit_of 10 c))) k s = atoi_digits k s"
  by (induction s arbitrary: k) (simp_all add: digit_of_is_digit)

lemma number_show_nat [simp]: "number 10 (show_nat n) = int n"
  using number_atoi [of "show_nat n" 0] by (simp add: number_def show_nat_digits atoi_digits_show_nat)

text \<open>What may follow a number for \<open>sscanf\<close> to read it as written.\<close>

definition number_ends :: "string \<Rightarrow> bool" where
  "number_ends rest \<longleftrightarrow> rest = [] \<or> \<not> is_digit (hd rest) \<and> hd rest \<noteq> CHR ''x'' \<and> hd rest \<noteq> CHR ''X''"

lemma digits_show_nat: "number_ends rest \<Longrightarrow> digits 10 (show_nat n @ rest) = show_nat n"
  by (rule digits_all) (auto simp: number_ends_def show_nat_digits)

lemma show_nat_leading_zero: "show_nat n = CHR ''0'' # cs \<Longrightarrow> n = 0 \<and> cs = []"
proof (induction n arbitrary: cs rule: show_nat.induct)
  case (1 n)
  show ?case
  proof (cases "n < 10")
    case True
    have "digit 0 = CHR ''0''" by code_simp
    then have "digit n = digit 0" using 1(2) True by (simp add: show_nat_small)
    then show ?thesis using True digit_inj [of n 0] 1(2) by (simp add: show_nat_small)
  next
    case False
    then obtain c ds where hd: "show_nat (n div 10) = c # ds" using show_nat_nonempty by (cases "show_nat (n div 10)") auto
    then have "n div 10 = 0" using 1 False by (simp add: show_nat_step)
    then show ?thesis using False by simp
  qed
qed

lemma scan_sign_show_nat: "scan_sign (show_nat n @ rest) = (False, show_nat n @ rest)"
proof -
  obtain c cs where c: "show_nat n = c # cs" using show_nat_nonempty by (cases "show_nat n") auto
  have "is_digit c" using c show_nat_digits [of c n] by simp
  then show ?thesis using is_digit_not_special [of c] by (simp add: scan_sign_def c)
qed

lemma scan_sign_show_int: "scan_sign (show_int z @ rest) = (z < 0, show_nat (nat \<bar>z\<bar>) @ rest)"
  using scan_sign_show_nat [of "nat z" rest] by (simp add: show_int_def scan_sign_def is_space_def)

lemma scan_unsigned_show: 
  assumes "int n \<le> limit" and "number_ends rest"
  shows "scan_unsigned limit (show_nat n @ rest) = Some (Some (int n))"
  using assms by (simp add: scan_unsigned_def scan_sign_show_nat digits_show_nat)

lemma scan_integer_any:
  assumes rest: "number_ends rest"
  shows "scan_integer (show_int z @ rest) = (if z < INT_MIN \<or> INT_MAX < z then None else Some (Some z))"
proof -
  let ?t = "show_nat (nat \<bar>z\<bar>) @ rest"
  define base where "base = (case ?t of c # x # r \<Rightarrow> if c = CHR ''0'' then 8 else 10 | _ \<Rightarrow> (10 :: nat))"
  have prefix: "(case ?t of
          c # x # r \<Rightarrow> if c = CHR ''0'' \<and> (x = CHR ''x'' \<or> x = CHR ''X'') then (16, r)
            else if c = CHR ''0'' then (8, ?t) else (10, ?t)
        | _ \<Rightarrow> (10, ?t)) = (base, ?t)"
  proof (cases "show_nat (nat \<bar>z\<bar>)")
    case (Cons c cs)
    have "\<not> (c = CHR ''0'' \<and> (x = CHR ''x'' \<or> x = CHR ''X''))" if "cs @ rest = x # r" for x r
      using show_nat_leading_zero [of "nat \<bar>z\<bar>" cs] Cons rest that by (auto simp: number_ends_def)
    then show ?thesis by (cases "cs @ rest") (auto simp: Cons base_def)
  qed simp
  have digits: "digits base ?t = show_nat (nat \<bar>z\<bar>) \<and> number base (show_nat (nat \<bar>z\<bar>)) = \<bar>z\<bar>"
  proof (cases "base = 10")
    case True
    then show ?thesis using digits_show_nat [OF rest] by simp
  next
    case False
    then obtain cs where cs: "show_nat (nat \<bar>z\<bar>) = CHR ''0'' # cs" "base = 8"
      by (cases "show_nat (nat \<bar>z\<bar>)") (auto simp: base_def split: list.splits if_splits)
    then have z: "z = 0" "cs = []" using show_nat_leading_zero [of "nat \<bar>z\<bar>" cs] by auto
    have "digits 8 (CHR ''0'' # rest) = ''0''"
      using rest by (cases rest) (auto simp: digits_def digit_of_def number_ends_def dest: digit_of_other)
    then show ?thesis using cs z by (simp add: number_def digit_of_def)
  qed
  show ?thesis
    unfolding scan_integer_def scan_sign_show_int Let_def prod.case prefix
    using digits assms by auto
qed

lemma scan_integer_show:
  "INT_MIN \<le> z \<Longrightarrow> z \<le> INT_MAX \<Longrightarrow> number_ends rest \<Longrightarrow> scan_integer (show_int z @ rest) = Some (Some z)"
  by (simp add: scan_integer_any)

subsection \<open>Keys\<close>

lemma json_strncmp_text:
  "js = u @ k @ w \<Longrightarrow> length s = length k \<Longrightarrow> json_strncmp js (int (length u)) s = Some (k = s)"
proof (induction s arbitrary: u k)
  case Nil
  then show ?case by simp
next
  case (Cons c cs)
  then obtain d ds where k: "k = d # ds" by (cases k) auto
  have d: "doc_char js (int (length u)) = Some d" using Cons.prems(1) k by (simp add: doc_char_def char_at_def)
  show ?case
  proof (cases "d = c")
    case True
    have "json_strncmp js (int (length (u @ [d]))) cs = Some (ds = cs)"
      using Cons.prems k by (intro Cons.IH) simp_all
    then show ?thesis using d k True by (simp add: add.commute)
  next
    case False
    then show ?thesis using d k by simp
  qed
qed

lemma jsoneq_string:
  assumes "js = u @ k @ w"
  shows "jsoneq js (mk_token JSMN_STRING (length u) (length k) n) s = Some (k = s)"
  using json_strncmp_text [OF assms, of s] by (auto simp: jsoneq_def mk_token_def)

text \<open>
  Where the value of a key is: how many tokens behind the first key, at which position, and the value; the first member
  with the key counts.
\<close>

fun member_place :: "string \<Rightarrow> nat \<Rightarrow> string \<Rightarrow> members \<Rightarrow> (nat \<times> nat \<times> json) option" where
  "member_place key a sep MNil = None"
| "member_place key a sep (MCons w1 k w2 w3 v w4 ms) =
     (let c = a + length sep + length w1 + length k + length w2 + length w3 + 3 in
      if k = key then Some (1, c, v)
      else map_option (\<lambda>(d, c, w). (1 + token_count v + d, c, w))
        (member_place key (c + length (render v) + length w4) '','' ms))"

lemma tokens_of_bounds:
  "json_ok v \<Longrightarrow> t \<in> set (tokens_of a v) \<Longrightarrow> tok_start t < int (a + length (render v))"
  "members_ok ms \<Longrightarrow> t \<in> set (member_tokens b sep ms) \<Longrightarrow> tok_start t < int (b + length (render_members sep ms))"
  "elements_ok es \<Longrightarrow> t \<in> set (element_tokens c sep' es) \<Longrightarrow> tok_start t < int (c + length (render_elements sep' es))"
proof (induction a v and b sep ms and c sep' es rule: tokens_of_member_tokens_element_tokens.induct)
  case (4 a s)
  then show ?case by (cases s) (auto simp: mk_token_def primitive_text_def)
next
  case (6 a sep w1 k w2 w3 v w4 ms)
  then show ?case by (fastforce simp: mk_token_def Let_def json_quoted_def)
next
  case (8 a sep w1 v w2 es)
  then show ?case by (fastforce simp: Let_def)
qed (fastforce simp: mk_token_def json_quoted_def)+

text \<open>The first token of a value ends in its text, behind the start of all others.\<close>

lemma value_tokens:
  assumes "json_ok v"
  obtains t us where "tokens_of a v = t # us" and "int a \<le> tok_end t" and "tok_end t \<le> int (a + length (render v))"
    and "\<And>u. u \<in> set us \<Longrightarrow> tok_start u < tok_end t"
proof (cases v)
  case (JObject w ms)
  have "tok_start u < int (a + 1 + length w + length (render_members [] ms))" if "u \<in> set (member_tokens (a + 1 + length w) [] ms)" for u
    using tokens_of_bounds(2) [of ms u "a + 1 + length w" "[]"] assms JObject that by simp
  then show ?thesis using that JObject by (fastforce simp: mk_token_def)
next
  case (JArray w es)
  have "tok_start u < int (a + 1 + length w + length (render_elements [] es))" if "u \<in> set (element_tokens (a + 1 + length w) [] es)" for u
    using tokens_of_bounds(3) [of es u "a + 1 + length w" "[]"] assms JArray that by simp
  then show ?thesis using that JArray by (fastforce simp: mk_token_def)
next
  case (JString s)
  then show ?thesis using that by (simp add: mk_token_def json_quoted_def)
next
  case (JPrimitive s)
  then show ?thesis using that by (simp add: mk_token_def)
qed

lemma skip_property_inside:
  "(\<And>t. t \<in> set xs \<Longrightarrow> tok_start t < e) \<Longrightarrow>
    skip_property (pre @ xs @ post) e (length pre) = skip_property (pre @ xs @ post) e (length pre + length xs)"
proof (induction xs arbitrary: pre)
  case (Cons x xs)
  have "skip_property (pre @ (x # xs) @ post) e (length pre) = skip_property ((pre @ [x]) @ xs @ post) e (length (pre @ [x]))"
    using Cons.prems by (subst skip_property.simps) (simp add: tok_at_def)
  also have "\<dots> = skip_property ((pre @ [x]) @ xs @ post) e (length (pre @ [x]) + length xs)"
    using Cons.prems by (intro Cons.IH) simp
  finally show ?case by simp
qed simp

text \<open>One round of the search: over a member with another key to the first key of the rest.\<close>

definition value_at :: "nat \<Rightarrow> string \<Rightarrow> string \<Rightarrow> string \<Rightarrow> string \<Rightarrow> string \<Rightarrow> nat" where
  "value_at a sep w1 k w2 w3 = a + length sep + length w1 + length k + length w2 + length w3 + 3"

lemma member_tokens_at:
  "member_tokens a sep (MCons w1 k w2 w3 v w4 ms) =
     mk_token JSMN_STRING (a + length sep + length w1 + 1) (length k) 1 # tokens_of (value_at a sep w1 k w2 w3) v @
     member_tokens (value_at a sep w1 k w2 w3 + length (render v) + length w4) '','' ms"
  by (simp add: value_at_def Let_def)

lemma jsoneq_key:
  assumes "js = p @ render_members sep (MCons w1 k w2 w3 v w4 ms) @ q"
  shows "jsoneq js (mk_token JSMN_STRING (length p + length sep + length w1 + 1) (length k) 1) key = Some (k = key)"
  using jsoneq_string [of js "p @ sep @ w1 @ [DQUOTE]" k _ 1 key] assms by (simp add: json_quoted_def add.assoc)

lemma find_key_skips:
  assumes js: "js = p @ render_members sep (MCons w1 k w2 w3 v w4 ms) @ q" and v: "json_ok v" and other: "k \<noteq> key"
  obtains e where "0 < e" and "e \<le> int (value_at (length p) sep w1 k w2 w3 + length (render v))"
    and "find_key key js (pre @ member_tokens (length p) sep (MCons w1 k w2 w3 v w4 ms) @ post) (Suc n) (length pre) = do {
      r \<leftarrow> skip_property (pre @ member_tokens (length p) sep (MCons w1 k w2 w3 v w4 ms) @ post) e
        (length pre + 1 + token_count v);
      find_key key js (pre @ member_tokens (length p) sep (MCons w1 k w2 w3 v w4 ms) @ post) n r }"
proof -
  define c where "c = value_at (length p) sep w1 k w2 w3"
  obtain t us where t: "tokens_of c v = t # us" "int c \<le> tok_end t" "tok_end t \<le> int (c + length (render v))"
    "\<And>u. u \<in> set us \<Longrightarrow> tok_start u < tok_end t"
    by (rule value_tokens [OF v, of c]) (rule that)
  define ts where "ts = pre @ member_tokens (length p) sep (MCons w1 k w2 w3 v w4 ms) @ post"
  define rest where "rest = member_tokens (c + length (render v) + length w4) '','' ms @ post"
  define kt where "kt = mk_token JSMN_STRING (length p + length sep + length w1 + 1) (length k) 1"
  have ts: "ts = (pre @ [kt, t]) @ us @ rest"
    unfolding ts_def rest_def kt_def member_tokens_at c_def [symmetric] t(1) by simp
  have "find_key key js ts (Suc n) (length pre) = do {
      r \<leftarrow> skip_property ts (tok_end t) (length (pre @ [kt, t]));
      find_key key js ts n r }"
    using jsoneq_key [OF js, of key] other by (simp add: ts kt_def tok_at_def nth_append)
  also have "skip_property ts (tok_end t) (length (pre @ [kt, t])) =
      skip_property ts (tok_end t) (length (pre @ [kt, t]) + length us)"
    unfolding ts using t(4) by (rule skip_property_inside)
  also have "length (pre @ [kt, t]) + length us = length pre + 1 + token_count v"
    using t(1) length_tokens(1) [of c v] by simp
  finally show ?thesis using that [of "tok_end t"] t(2,3) by (simp add: ts_def c_def value_at_def)
qed

lemma members_list_induct [case_names MNil MCons]:
  "P MNil \<Longrightarrow> (\<And>w1 k w2 w3 v w4 ms. P ms \<Longrightarrow> P (MCons w1 k w2 w3 v w4 ms)) \<Longrightarrow> P ms"
  by (rule members.induct [where ?P2.0 = P and ?P1.0 = "\<lambda>_. True" and ?P3.0 = "\<lambda>_. True"]) simp_all

lemma member_count_nonneg: "0 \<le> member_count ms"
  by (induction ms rule: members_list_induct) simp_all

lemma member_count_pos: "ms \<noteq> MNil \<Longrightarrow> 0 < member_count ms"
  by (cases ms) (simp_all add: add_pos_nonneg member_count_nonneg)

text \<open>In front of another member the round ends at its key.\<close>

lemma find_key_next:
  assumes js: "js = p @ render_members sep (MCons w1 k w2 w3 v w4 ms) @ q" and v: "json_ok v" and other: "k \<noteq> key"
    and ms: "ms \<noteq> MNil" and ts: "ts = pre @ member_tokens (length p) sep (MCons w1 k w2 w3 v w4 ms) @ post"
  obtains p' pre' where "js = p' @ render_members '','' ms @ q"
    and "length p' = value_at (length p) sep w1 k w2 w3 + length (render v) + length w4"
    and "length pre' = length pre + 1 + token_count v" and "ts = pre' @ member_tokens (length p') '','' ms @ post"
    and "find_key key js ts (Suc n) (length pre) = find_key key js ts n (length pre')"
proof -
  define b where "b = value_at (length p) sep w1 k w2 w3"
  obtain u1 k2 u2 u3 v2 u4 ms2 where ms2: "ms = MCons u1 k2 u2 u3 v2 u4 ms2" using ms by (cases ms) auto
  obtain e where e: "e \<le> int (b + length (render v))" "find_key key js ts (Suc n) (length pre) =
      do { r \<leftarrow> skip_property ts e (length pre + 1 + token_count v); find_key key js ts n r }"
    using find_key_skips [OF js v other, of pre post n] unfolding ts b_def by metis
  define p' where "p' = p @ sep @ w1 @ json_quoted k @ w2 @ CHR '':'' # w3 @ render v @ w4"
  define pre' where "pre' = pre @ mk_token JSMN_STRING (length p + length sep + length w1 + 1) (length k) 1 # tokens_of b v"
  have len: "length p' = b + length (render v) + length w4" "length pre' = length pre + 1 + token_count v"
    by (simp_all add: p'_def pre'_def b_def value_at_def json_quoted_def)
  have ts': "ts = pre' @ member_tokens (length p') '','' ms @ post"
    unfolding ts pre'_def len member_tokens_at b_def [symmetric] by simp
  have "tok_start (ts ! length pre') \<ge> e"
    using e(1) unfolding ts' ms2 member_tokens_at by (simp add: nth_append mk_token_def len)
  then have "skip_property ts e (length pre') = Some (length pre')"
    unfolding ts' ms2 member_tokens_at by (subst skip_property.simps) (simp add: tok_at_def)
  then have "skip_property ts e (length pre + 1 + token_count v) = Some (length pre')" by (simp only: len(2))
  moreover have "js = p' @ render_members '','' ms @ q" using js by (simp add: p'_def)
  ultimately show ?thesis using e(2) len ts' by (intro that [of p' pre']) (simp_all add: b_def)
qed

lemma find_key_member:
  "js = p @ render_members sep ms @ q \<Longrightarrow> members_ok ms \<Longrightarrow> member_place key (length p) sep ms = Some (d, c, v) \<Longrightarrow>
   member_count ms \<le> int n \<Longrightarrow> ts = pre @ member_tokens (length p) sep ms @ post \<Longrightarrow>
   find_key key js ts n (length pre) = Some (Some (length pre + d)) \<and>
   ts ! (length pre + d) = hd (tokens_of c v) \<and> take (length (render v)) (drop c js) = render v"
proof (induction ms arbitrary: sep p pre d n rule: members_list_induct)
  case (MCons w1 k w2 w3 v' w4 ms)
  define b where "b = value_at (length p) sep w1 k w2 w3"
  obtain n' where n: "n = Suc n'" using MCons.prems(4) member_count_nonneg [of ms] by (cases n) auto
  have v': "json_ok v'" and ms_ok: "members_ok ms" using MCons.prems(2) by simp_all
  show ?case
  proof (cases "k = key")
    case True
    then have d: "d = 1" "c = b" "v = v'" using MCons.prems(3) by (simp_all add: b_def value_at_def Let_def)
    obtain t us where t: "tokens_of b v' = t # us" using value_tokens [OF v', of b] by metis
    have "drop b js = render v' @ w4 @ render_members '','' ms @ q"
      using MCons.prems(1) by (simp add: b_def value_at_def json_quoted_def numeral_3_eq_3)
    moreover have "ts = pre @ mk_token JSMN_STRING (length p + length sep + length w1 + 1) (length k) 1 # t # us @
        member_tokens (b + length (render v') + length w4) '','' ms @ post"
      unfolding MCons.prems(5) member_tokens_at b_def [symmetric] t by simp
    ultimately show ?thesis
      using jsoneq_key [OF MCons.prems(1), of key] True n d t by (simp add: tok_at_def nth_append)
  next
    case False
    then obtain d' where d: "member_place key (b + length (render v') + length w4) '','' ms = Some (d', c, v)"
      "d = 1 + token_count v' + d'"
      using MCons.prems(3) by (auto simp: b_def value_at_def Let_def)
    then have "ms \<noteq> MNil" by auto
    then obtain p' pre' where nx: "js = p' @ render_members '','' ms @ q"
      "length p' = value_at (length p) sep w1 k w2 w3 + length (render v') + length w4"
      "length pre' = length pre + 1 + token_count v'" "ts = pre' @ member_tokens (length p') '','' ms @ post"
      "find_key key js ts (Suc n') (length pre) = find_key key js ts n' (length pre')"
      by (rule find_key_next [OF MCons.prems(1) v' False _ MCons.prems(5), where n = n']) (rule that)
    from MCons.IH [OF nx(1) ms_ok d(1) [unfolded b_def, folded nx(2)] _ nx(4), of n'] MCons.prems(4) n nx(3,5) d(2)
    show ?thesis by (simp add: add.assoc)
  qed
qed simp

text \<open>Without the key, and with cleared tokens behind the object, the search leaves the array.\<close>

lemma find_key_missing:
  assumes cleared: "\<And>t. t \<in> set post \<Longrightarrow> tok_start t = 0"
  shows "js = p @ render_members sep ms @ q \<Longrightarrow> members_ok ms \<Longrightarrow> member_place key (length p) sep ms = None \<Longrightarrow>
    ms \<noteq> MNil \<Longrightarrow> member_count ms \<le> int n \<Longrightarrow> ts = pre @ member_tokens (length p) sep ms @ post \<Longrightarrow>
    find_key key js ts n (length pre) = None"
proof (induction ms arbitrary: sep p pre n rule: members_list_induct)
  case (MCons w1 k w2 w3 v w4 ms)
  obtain n' where n: "n = Suc n'" using MCons.prems(5) member_count_nonneg [of ms] by (cases n) auto
  have v: "json_ok v" and ms_ok: "members_ok ms" using MCons.prems(2) by simp_all
  have other: "k \<noteq> key"
    "member_place key (value_at (length p) sep w1 k w2 w3 + length (render v) + length w4) '','' ms = None"
    using MCons.prems(3) by (auto simp: value_at_def Let_def split: if_splits)
  show ?case
  proof (cases "ms = MNil")
    case True
    obtain e where e: "0 < e" "find_key key js ts (Suc n') (length pre) =
        do { r \<leftarrow> skip_property ts e (length pre + 1 + token_count v); find_key key js ts n' r }"
      using find_key_skips [OF MCons.prems(1) v other(1), of pre post n'] unfolding MCons.prems(6) by metis
    define pre' where "pre' = pre @ member_tokens (length p) sep (MCons w1 k w2 w3 v w4 MNil)"
    have "skip_property (pre' @ post @ []) e (length pre') = skip_property (pre' @ post @ []) e (length pre' + length post)"
      using cleared e(1) by (intro skip_property_inside) simp
    also have "\<dots> = None" by (subst skip_property.simps) (simp add: tok_at_def)
    finally show ?thesis using e(2) n True by (simp add: pre'_def MCons.prems(6) Let_def)
  next
    case False
    obtain p' pre' where nx: "js = p' @ render_members '','' ms @ q"
      "length p' = value_at (length p) sep w1 k w2 w3 + length (render v) + length w4"
      "length pre' = length pre + 1 + token_count v" "ts = pre' @ member_tokens (length p') '','' ms @ post"
      "find_key key js ts (Suc n') (length pre) = find_key key js ts n' (length pre')"
      by (rule find_key_next [OF MCons.prems(1) v other(1) False MCons.prems(6), where n = n']) (rule that)
    from MCons.IH [OF nx(1) ms_ok other(2) [folded nx(2)] False _ nx(4), of n'] MCons.prems(5) n nx(5)
    show ?thesis by simp
  qed
qed simp

lemma findToken_search:
  assumes "ms \<noteq> MNil"
  shows "findToken key js (pre @ tokens_of a (JObject w ms) @ post) (length pre) =
    find_key key js ((pre @ [mk_token JSMN_OBJECT a (length (render (JObject w ms))) (member_count ms)]) @
      member_tokens (a + 1 + length w) [] ms @ post) (nat (member_count ms)) (length pre + 1)"
  using member_count_pos [OF assms] by (simp add: findToken_def tok_at_def mk_token_def nth_append)

lemma findToken_member:
  assumes js: "js = p @ render (JObject w ms) @ q" and ok: "members_ok ms"
    and key: "member_place key (length p + 1 + length w) [] ms = Some (d, c, v)"
  shows "findToken key js (pre @ tokens_of (length p) (JObject w ms) @ post) (length pre) = Some (Some (length pre + 1 + d)) \<and>
    (pre @ tokens_of (length p) (JObject w ms) @ post) ! (length pre + 1 + d) = hd (tokens_of c v) \<and>
    take (length (render v)) (drop c js) = render v"
proof -
  define ts where "ts = (pre @ [mk_token JSMN_OBJECT (length p) (length (render (JObject w ms))) (member_count ms)]) @
    member_tokens (length (p @ CHR ''{'' # w)) [] ms @ post"
  have "ms \<noteq> MNil" using key by auto
  from findToken_search [OF this, of key js pre "length p" w post]
  have "findToken key js ts (length pre) = find_key key js ts (nat (member_count ms)) (length pre + 1)"
    by (simp add: ts_def)
  moreover have "pre @ tokens_of (length p) (JObject w ms) @ post = ts" by (simp add: ts_def)
  moreover note find_key_member [where p = "p @ CHR ''{'' # w" and n = "nat (member_count ms)", OF _ ok _ _ ts_def]
  ultimately show ?thesis using js key member_count_nonneg [of ms] by simp
qed

text \<open>(C34) A key is found by its value. In the array with the tokens of a JSON object, wherever they stand and
  whatever follows, \<open>findToken\<close> with a key the object has returns the first token of the value of the first member
  with this key, and the text there is the value's: keys inside nested objects, which have the same name, are skipped.\<close>

theorem findToken_present:
  assumes js: "js = p @ render (JObject w ms) @ q" and ok: "members_ok ms"
    and key: "member_place key (length p + 1 + length w) [] ms = Some (d, c, v)"
  shows "findToken key js (pre @ tokens_of (length p) (JObject w ms) @ post) (length pre) = Some (Some (length pre + 1 + d)) \<and>
    (pre @ tokens_of (length p) (JObject w ms) @ post) ! (length pre + 1 + d) = hd (tokens_of c v) \<and>
    take (length (render v)) (drop c js) = render v"
  by (rule findToken_member [OF assms])

text \<open>The members of the sample object of the tokenizer.\<close>

definition sample_members :: members where
  "sample_members = (case sample_json of JObject w ms \<Rightarrow> ms | _ \<Rightarrow> MNil)"

lemma sample_members: "sample_json = JObject [] sample_members"
  by (simp add: sample_json_def sample_members_def)

theorem findToken_present_witness:
  "findToken ''b'' (render sample_json @ [NUL]) (tokens_of 0 sample_json) 0 = Some (Some 6)"
proof -
  have ok: "members_ok sample_members"
    "member_place ''b'' (length ([] :: string) + 1 + length ([] :: string)) [] sample_members = Some (5, 19, JObject [] MNil)"
    by code_simp+
  show ?thesis
    using findToken_present [OF refl ok, of "[NUL]" "[]" "[]"] by (simp add: sample_members)
qed

text \<open>A missing key is not reported. When the object has members but none with the key, the search goes on behind
  its last value; over tokens that are cleared, as those of a fresh array are, it never stops inside the array, and the
  result is undefined where the caller expects \<open>NULL\<close>.\<close>

theorem findToken_missing_overruns:
  assumes js: "js = p @ render (JObject w ms) @ q" and ok: "members_ok ms" and ms: "ms \<noteq> MNil"
    and key: "member_place key (length p + 1 + length w) [] ms = None" and cleared: "\<And>t. t \<in> set post \<Longrightarrow> tok_start t = 0"
  shows "findToken key js (pre @ tokens_of (length p) (JObject w ms) @ post) (length pre) = None"
proof -
  define ts where "ts = (pre @ [mk_token JSMN_OBJECT (length p) (length (render (JObject w ms))) (member_count ms)]) @
    member_tokens (length (p @ CHR ''{'' # w)) [] ms @ post"
  have "find_key key js ts (nat (member_count ms)) (length (pre @ [mk_token JSMN_OBJECT (length p)
      (length (render (JObject w ms))) (member_count ms)])) = None"
    using js ok ms key cleared member_count_nonneg [of ms]
    by (intro find_key_missing [where p = "p @ CHR ''{'' # w" and sep = "[]" and q = "''}'' @ q", OF _ _ _ _ _ _ ts_def]) simp_all
  then show ?thesis unfolding findToken_search [OF ms] by (simp add: ts_def)
qed

theorem findToken_missing_overruns_witness:
  "findToken ''version'' (render sample_json @ [NUL]) (tokens_of 0 sample_json @ replicate 113 blank_token) 0 = None"
proof -
  have ok: "members_ok sample_members" "sample_members \<noteq> MNil"
    "member_place ''version'' (length ([] :: string) + 1 + length ([] :: string)) [] sample_members = None"
    by code_simp+
  have "tok_start t = 0" if "t \<in> set (replicate 113 blank_token)" for t using that by (simp add: blank_token_def)
  from findToken_missing_overruns [OF refl ok this, of "replicate 113 blank_token" "[NUL]" "[]"] show ?thesis
    by (simp add: sample_members)
qed

subsection \<open>Numbers in a document\<close>

lemma doc_string_at:
  assumes "js = p @ s @ rest" and "NUL \<notin> set s" and "NUL \<in> set rest"
  shows "doc_string js (int (length p)) = Some (s @ takeWhile (\<lambda>c. c \<noteq> NUL) rest)"
proof -
  have "takeWhile (\<lambda>c. c \<noteq> NUL) (s @ rest) = s @ takeWhile (\<lambda>c. c \<noteq> NUL) rest"
    using assms(2) by (induction s) auto
  then show ?thesis using assms by (simp add: doc_string_def text_in_def)
qed

lemma number_ends_before: "number_ends rest \<Longrightarrow> number_ends (takeWhile (\<lambda>c. c \<noteq> NUL) rest)"
  by (cases rest) (auto simp: number_ends_def)

lemma show_int_chars: "c \<in> set (show_int z) \<Longrightarrow> c = CHR ''-'' \<or> is_digit c"
  by (auto simp: show_int_def show_nat_digits split: if_splits)

lemma show_int_no_nul: "NUL \<notin> set (show_int z)"
  using show_int_chars [of NUL z] by (auto simp: is_digit_def)

lemma show_int_head: "show_int z = c # cs \<Longrightarrow> c = CHR ''-'' \<longleftrightarrow> z < 0"
proof (cases "z < 0")
  case False
  assume "show_int z = c # cs"
  then have "show_nat (nat z) = c # cs" using False by (simp add: show_int_def)
  then have "is_digit c" using show_nat_digits [of c "nat z"] by simp
  then show ?thesis using is_digit_not_special [of c] False by simp
qed (simp add: show_int_def)

lemma scan_integer_token:
  assumes "js = p @ show_int z @ rest" and "NUL \<in> set rest" and "number_ends rest" and "INT_MIN \<le> z" and "z \<le> INT_MAX"
  shows "do { s \<leftarrow> doc_string js (int (length p)); scan_integer s } = Some (Some z)"
  using doc_string_at [OF assms(1) show_int_no_nul assms(2)] scan_integer_show [OF assms(4,5) number_ends_before [OF assms(3)]]
  by simp

lemma scan_token_unsigned_show:
  assumes js: "js = p @ show_int z @ rest" and "NUL \<in> set rest" and rest: "number_ends rest" and t: "tok_start t = int (length p)"
  shows "scan_token_unsigned limit js t = (if z < 0 then Some None else if limit < z then None else Some (Some z))"
proof -
  obtain c cs where c: "show_int z = c # cs" by (cases "show_int z") (auto simp: show_int_def split: if_splits)
  have first: "doc_char js (int (length p)) = Some c" using js c by (simp add: doc_char_def char_at_def)
  show ?thesis
  proof (cases "z < 0")
    case True
    then show ?thesis using first show_int_head [OF c] t by (simp add: scan_token_unsigned_def)
  next
    case False
    have s: "doc_string js (int (length p)) = Some (show_nat (nat z) @ takeWhile (\<lambda>c. c \<noteq> NUL) rest)"
      using doc_string_at [OF js show_int_no_nul assms(2)] False by (simp add: show_int_def)
    have "scan_unsigned limit (show_nat (nat z) @ takeWhile (\<lambda>c. c \<noteq> NUL) rest) = (if limit < z then None else Some (Some z))"
      using scan_unsigned_show [OF _ number_ends_before [OF rest], of "nat z" limit] False
        digits_show_nat [OF number_ends_before [OF rest], of "nat z"]
      by (auto simp: scan_unsigned_def scan_sign_show_nat)
    then show ?thesis using first show_int_head [OF c] False s t by (simp add: scan_token_unsigned_def)
  qed
qed

lemma string_text_no_nul: "string_text s \<Longrightarrow> NUL \<notin> set s"
proof (induction s rule: string_text.induct)
  case (2 c cs)
  show ?case
  proof (cases "c = BACKSLASH")
    case True
    then obtain e r where cs: "cs = e # r" using "2.prems" by (cases cs) auto
    show ?thesis
    proof (cases "simple_escape e")
      case True
      then show ?thesis using "2.IH"(1) [OF \<open>c = BACKSLASH\<close> cs True] "2.prems" cs \<open>c = BACKSLASH\<close>
        by (auto simp: simple_escape_def)
    next
      case False
      then have h: "e = CHR ''u''" "list_all hex_digit (take 4 r)" "string_text (drop 4 r)"
        using "2.prems" cs \<open>c = BACKSLASH\<close> by simp_all
      have "NUL \<notin> set (take 4 r)" using h(2) by (auto simp: list_all_iff hex_digit_def)
      moreover have "NUL \<notin> set (drop 4 r)" by (rule "2.IH"(2) [OF \<open>c = BACKSLASH\<close> cs False h(3)])
      ultimately have "NUL \<notin> set r" by (metis Un_iff append_take_drop_id set_append)
      then show ?thesis using h(1) cs \<open>c = BACKSLASH\<close> by simp
    qed
  qed (use 2 in auto)
qed simp

lemma parse_string_value:
  assumes js: "take (length (json_quoted x)) (drop c js) = json_quoted x" and x: "string_text x" and n: "length x < n"
  shows "parseStringValue n js (hd (tokens_of c (JString x))) = Some (SUCCESS, Some x)"
proof -
  obtain z where "drop c js = json_quoted x @ z"
    using append_take_drop_id [of "length (json_quoted x)" "drop c js"] js by metis
  then have "tl (drop c js) = x @ DQUOTE # z" by (simp add: json_quoted_def)
  then have "drop (Suc c) js = x @ DQUOTE # z" by (simp add: drop_Suc tl_drop)
  then have "take (length x) (drop (c + 1) js) = x" by simp
  moreover have "takeWhile (\<lambda>c. c \<noteq> NUL) x = x"
    using string_text_no_nul [OF x] by (intro takeWhile_eq_all_conv [THEN iffD2]) auto
  ultimately show ?thesis
    using n by (simp add: parseStringValue_def mk_token_def copy_chars_def nat_add_distrib Let_def)
qed

text \<open>The six integer parsers on the decimal text of an integer.\<close>

lemma integers_any:
  assumes js: "js = p @ show_int z @ rest" and nul: "NUL \<in> set rest" and rest: "number_ends rest"
    and t: "t = mk_token JSMN_PRIMITIVE (length p) (length (show_int z)) 0"
  shows "parseInteger32Value js t = (if INT_MIN \<le> z \<and> z \<le> INT_MAX then Some (SUCCESS, Some z) else None) \<and>
    parseInteger16Value js t = (if z < INT_MIN \<or> INT_MAX < z then None
      else Some (if -32768 \<le> z \<and> z \<le> 32767 then (SUCCESS, Some z) else (JSON_PARSE_ERROR, None))) \<and>
    parseInteger8Value js t = (if z < INT_MIN \<or> INT_MAX < z then None
      else Some (if -128 \<le> z \<and> z \<le> 127 then (SUCCESS, Some z) else (JSON_PARSE_ERROR, None))) \<and>
    parseUnsignedInteger32Value js t = (if z < 0 then Some (JSON_PARSE_ERROR, None)
      else if z \<le> 4294967295 then Some (SUCCESS, Some (word_of_int z)) else None) \<and>
    parseUnsignedInteger16Value js t = (if z < 0 then Some (JSON_PARSE_ERROR, None)
      else if z \<le> 65535 then Some (SUCCESS, Some (word_of_int z)) else None) \<and>
    parseUnsignedInteger8Value js t = (if z < 0 then Some (JSON_PARSE_ERROR, None)
      else if z \<le> 255 then Some (SUCCESS, Some (word_of_int z))
      else if z \<le> 4294967295 then Some (JSON_PARSE_ERROR, None) else None)"
proof -
  have t': "tok_type t = JSMN_PRIMITIVE" "tok_start t = int (length p)" by (simp_all add: t mk_token_def)
  note uscan = scan_token_unsigned_show [OF js nul rest t'(2)]
  obtain s where s: "doc_string js (int (length p)) = Some s"
    "scan_integer s = (if z < INT_MIN \<or> INT_MAX < z then None else Some (Some z))"
    using doc_string_at [OF js show_int_no_nul nul] scan_integer_any [OF number_ends_before [OF rest]] by simp
  have "parseInteger32Value js t = (if INT_MIN \<le> z \<and> z \<le> INT_MAX then Some (SUCCESS, Some z) else None)"
    "parseInteger16Value js t = (if z < INT_MIN \<or> INT_MAX < z then None
      else Some (if -32768 \<le> z \<and> z \<le> 32767 then (SUCCESS, Some z) else (JSON_PARSE_ERROR, None)))"
    "parseInteger8Value js t = (if z < INT_MIN \<or> INT_MAX < z then None
      else Some (if -128 \<le> z \<and> z \<le> 127 then (SUCCESS, Some z) else (JSON_PARSE_ERROR, None)))"
    using s t' by (auto simp: parseInteger32Value_def parseInteger16Value_def parseInteger8Value_def)
  moreover have "parseUnsignedInteger32Value js t = (if z < 0 then Some (JSON_PARSE_ERROR, None)
      else if z \<le> 4294967295 then Some (SUCCESS, Some (word_of_int z)) else None)"
    "parseUnsignedInteger16Value js t = (if z < 0 then Some (JSON_PARSE_ERROR, None)
      else if z \<le> 65535 then Some (SUCCESS, Some (word_of_int z)) else None)"
    "parseUnsignedInteger8Value js t = (if z < 0 then Some (JSON_PARSE_ERROR, None)
      else if z \<le> 255 then Some (SUCCESS, Some (word_of_int z))
      else if z \<le> 4294967295 then Some (JSON_PARSE_ERROR, None) else None)"
    using t' uscan by (auto simp: parseUnsignedInteger32Value_def parseUnsignedInteger8Value_def
      parseUnsignedInteger16Value_def UINT32_MAX_def UINT16_MAX_def)
  ultimately show ?thesis by blast
qed

text \<open>(C35) Decimal integers are read back. A token on the decimal text of an integer, however large, gives this
  number if it is in the range of the type asked for. What happens outside of the range depends on the parser: the
  unsigned ones refuse every minus sign; those for 16 and 8 signed bits and for 8 unsigned bits read 32 bits first and
  refuse a number these can hold; and a number the conversion of \<open>sscanf\<close> cannot hold, which for 16 unsigned bits is
  one from 65536 on, is undefined.\<close>

theorem integers_read_back:
  assumes js: "js = p @ show_int z @ rest" and nul: "NUL \<in> set rest" and rest: "number_ends rest"
    and t: "t = mk_token JSMN_PRIMITIVE (length p) (length (show_int z)) 0"
  shows "parseInteger32Value js t = (if INT_MIN \<le> z \<and> z \<le> INT_MAX then Some (SUCCESS, Some z) else None) \<and>
    parseInteger16Value js t = (if z < INT_MIN \<or> INT_MAX < z then None
      else Some (if -32768 \<le> z \<and> z \<le> 32767 then (SUCCESS, Some z) else (JSON_PARSE_ERROR, None))) \<and>
    parseInteger8Value js t = (if z < INT_MIN \<or> INT_MAX < z then None
      else Some (if -128 \<le> z \<and> z \<le> 127 then (SUCCESS, Some z) else (JSON_PARSE_ERROR, None))) \<and>
    parseUnsignedInteger32Value js t = (if z < 0 then Some (JSON_PARSE_ERROR, None)
      else if z \<le> 4294967295 then Some (SUCCESS, Some (word_of_int z)) else None) \<and>
    parseUnsignedInteger16Value js t = (if z < 0 then Some (JSON_PARSE_ERROR, None)
      else if z \<le> 65535 then Some (SUCCESS, Some (word_of_int z)) else None) \<and>
    parseUnsignedInteger8Value js t = (if z < 0 then Some (JSON_PARSE_ERROR, None)
      else if z \<le> 255 then Some (SUCCESS, Some (word_of_int z))
      else if z \<le> 4294967295 then Some (JSON_PARSE_ERROR, None) else None)"
  by (rule integers_any [OF assms])

text \<open>A number of 33 bits is undefined even for 8 bits, where 70000 is refused; as 16 unsigned bits that is undefined too.\<close>

theorem integers_read_back_witness:
  "parseUnsignedInteger16Value (''{'' @ show_int 70000 @ [CHR ''}'', NUL]) (mk_token JSMN_PRIMITIVE 1 5 0) = None \<and>
   parseUnsignedInteger8Value (''{'' @ show_int 70000 @ [CHR ''}'', NUL]) (mk_token JSMN_PRIMITIVE 1 5 0) = Some (JSON_PARSE_ERROR, None) \<and>
   parseUnsignedInteger8Value (''{'' @ show_int 5000000000 @ [CHR ''}'', NUL]) (mk_token JSMN_PRIMITIVE 1 10 0) = None \<and>
   parseInteger8Value (''{'' @ show_int (-7) @ [CHR ''}'', NUL]) (mk_token JSMN_PRIMITIVE 1 2 0) = Some (SUCCESS, Some (-7))"
proof -
  have len: "length (show_int 70000) = 5" "length (show_int (-7)) = 2" "length (show_int 5000000000) = 10" "length ''{'' = 1"
    by (simp_all add: show_int_def show_nat_step show_nat_small)
  have ends: "NUL \<in> set [CHR ''}'', NUL]" "number_ends [CHR ''}'', NUL]" by code_simp+
  note read = integers_read_back [OF refl ends refl, of "''{''"]
  have "parseUnsignedInteger16Value (''{'' @ show_int 70000 @ [CHR ''}'', NUL]) (mk_token JSMN_PRIMITIVE 1 5 0) =
      (if 70000 < (0 :: int) then Some (JSON_PARSE_ERROR, None)
       else if 70000 \<le> (65535 :: int) then Some (SUCCESS, Some (word_of_int 70000)) else None)"
    using read [of 70000, unfolded len] by blast
  moreover have u8: "parseUnsignedInteger8Value (''{'' @ show_int z @ [CHR ''}'', NUL]) (mk_token JSMN_PRIMITIVE 1 k 0) =
      (if z < 0 then Some (JSON_PARSE_ERROR, None) else if z \<le> 255 then Some (SUCCESS, Some (word_of_int z))
       else if z \<le> 4294967295 then Some (JSON_PARSE_ERROR, None) else None)" if "length (show_int z) = k" for z k
    using read [of z] unfolding that len(4) by blast
  moreover have "parseInteger8Value (''{'' @ show_int (-7) @ [CHR ''}'', NUL]) (mk_token JSMN_PRIMITIVE 1 2 0) =
      (if (-7 :: int) < INT_MIN \<or> INT_MAX < (-7 :: int) then None
       else Some (if - 128 \<le> (-7 :: int) \<and> - 7 \<le> (127 :: int) then (SUCCESS, Some (-7)) else (JSON_PARSE_ERROR, None)))"
    using read [of "-7", unfolded len] by blast
  ultimately show ?thesis using u8 [OF len(1)] u8 [OF len(3)] by (simp add: INT_MIN_def INT_MAX_def)
qed

end
