(* ===== verification/ShadowJson.thy ===== *)
theory ShadowJson
  imports JsonUtils
begin

text \<open>
  The JSON documents of the device shadow (\<open>aws_iot_shadow_json.c\<close>): building a request in a buffer, and taking keys,
  values, the client token and the version out of a received one. A buffer is the C string in it, with the size of its
  memory as an argument: a write behind this size is undefined, \<^term>\<open>None\<close>, whatever size the caller has claimed.
  Document pointers are never null: with a null pointer the functions return an error and touch nothing.
\<close>

subsection \<open>Data\<close>

datatype JsonPrimitiveType =
    SHADOW_JSON_INT32 | SHADOW_JSON_INT16 | SHADOW_JSON_INT8 | SHADOW_JSON_UINT32 | SHADOW_JSON_UINT16
  | SHADOW_JSON_UINT8 | SHADOW_JSON_FLOAT | SHADOW_JSON_DOUBLE | SHADOW_JSON_BOOL | SHADOW_JSON_STRING
  | SHADOW_JSON_OBJECT

text \<open>A variable of the application, and the record that describes it: \<open>pData\<close> is its address.\<close>

datatype json_data =
    Data_int32 int | Data_int16 int | Data_int8 int | Data_uint32 u32 | Data_uint16 u16 | Data_uint8 u8
  | Data_float u32 | Data_double "64 word" | Data_bool bool | Data_string string

record jsonStruct =
  pKey :: "string option"
  pData :: "nat option"
  dataLength :: nat
  data_type :: JsonPrimitiveType
  cb :: "nat option"

text \<open>The conversions of floating-point numbers in the C library; a number is its bits.\<close>

record float_lib =
  promote :: "u32 \<Rightarrow> 64 word"
  print_f :: "64 word \<Rightarrow> string"
  scan_f :: "string \<Rightarrow> u32 option"
  scan_lf :: "string \<Rightarrow> 64 word option"

definition MAX_JSON_TOKEN_EXPECTED :: nat where
  "MAX_JSON_TOKEN_EXPECTED = 120"

subsection \<open>Printing into a buffer\<close>

text \<open>\<open>snprintf(buffer + off, n, ...)\<close> of a text into a buffer of \<open>cap\<close> bytes that holds a string.\<close>

definition snprintf_at :: "nat \<Rightarrow> string \<Rightarrow> nat \<Rightarrow> nat \<Rightarrow> string \<Rightarrow> (int \<times> string) option" where
  "snprintf_at cap doc off n txt =
     (if n = 0 then Some (int (length txt), doc)
      else let w = take (n - 1) txt in
        if cap < off + length w + 1 then None else Some (int (length txt), take off doc @ w))"

definition checkReturnValueOfSnPrintf :: "int \<Rightarrow> nat \<Rightarrow> IoT_Error_t" where
  "checkReturnValueOfSnPrintf r n =
     (if r < 0 then SHADOW_JSON_ERROR else if int n \<le> r then SHADOW_JSON_BUFFER_TRUNCATED else SUCCESS)"

text \<open>\<open>maxSizeOfJsonDocument - strlen(pJsonDocument)\<close>, a \<open>size_t\<close>.\<close>

definition room :: "nat \<Rightarrow> string \<Rightarrow> nat" where
  "room maxSize doc = (if length doc \<le> maxSize then maxSize - length doc else 2 ^ 32 - (length doc - maxSize))"

definition print_checked :: "nat \<Rightarrow> string \<Rightarrow> nat \<Rightarrow> nat \<Rightarrow> string \<Rightarrow> (IoT_Error_t \<times> string) option" where
  "print_checked cap doc off n txt = do {
     (r, doc) \<leftarrow> snprintf_at cap doc off n txt;
     Some (checkReturnValueOfSnPrintf r n, doc)
   }"

subsection \<open>Building a document\<close>

definition aws_iot_shadow_init_json_document :: "nat \<Rightarrow> nat \<Rightarrow> string \<Rightarrow> (IoT_Error_t \<times> string) option" where
  "aws_iot_shadow_init_json_document cap maxSize doc =
     print_checked cap doc 0 maxSize (CHR ''{'' # DQUOTE # ''state'' @ DQUOTE # '':{'')"

text \<open>The text of a value; the type says how the variable is read. A comma is printed behind it.\<close>

definition value_text :: "float_lib \<Rightarrow> JsonPrimitiveType \<Rightarrow> json_data \<Rightarrow> string option" where
  "value_text F ty d = (case ty of
       SHADOW_JSON_INT32 \<Rightarrow> (case d of Data_int32 z \<Rightarrow> Some (show_int z) | _ \<Rightarrow> None)
     | SHADOW_JSON_INT16 \<Rightarrow> (case d of Data_int16 z \<Rightarrow> Some (show_int z) | _ \<Rightarrow> None)
     | SHADOW_JSON_INT8 \<Rightarrow> (case d of Data_int8 z \<Rightarrow> Some (show_int z) | _ \<Rightarrow> None)
     | SHADOW_JSON_UINT32 \<Rightarrow> (case d of Data_uint32 w \<Rightarrow> Some (show_nat (unat w)) | _ \<Rightarrow> None)
     | SHADOW_JSON_UINT16 \<Rightarrow> (case d of Data_uint16 w \<Rightarrow> Some (show_nat (unat w)) | _ \<Rightarrow> None)
     | SHADOW_JSON_UINT8 \<Rightarrow> (case d of Data_uint8 w \<Rightarrow> Some (show_nat (unat w)) | _ \<Rightarrow> None)
     | SHADOW_JSON_FLOAT \<Rightarrow> (case d of Data_float f \<Rightarrow> Some (print_f F (promote F f)) | _ \<Rightarrow> None)
     | SHADOW_JSON_DOUBLE \<Rightarrow> (case d of Data_double f \<Rightarrow> Some (print_f F f) | _ \<Rightarrow> None)
     | SHADOW_JSON_BOOL \<Rightarrow> (case d of Data_bool b \<Rightarrow> Some (if b then ''true'' else ''false'') | _ \<Rightarrow> None)
     | SHADOW_JSON_STRING \<Rightarrow> (case d of Data_string s \<Rightarrow> Some (DQUOTE # s @ [DQUOTE]) | _ \<Rightarrow> None)
     | SHADOW_JSON_OBJECT \<Rightarrow> (case d of Data_string s \<Rightarrow> Some (s) | _ \<Rightarrow> None))"

definition convertDataToString ::
  "float_lib \<Rightarrow> nat \<Rightarrow> string \<Rightarrow> nat \<Rightarrow> JsonPrimitiveType \<Rightarrow> json_data \<Rightarrow> (IoT_Error_t \<times> string) option"
where
  "convertDataToString F cap doc maxSize ty d =
     (if maxSize = 0 then Some (SHADOW_JSON_ERROR, doc)
      else do { t \<leftarrow> value_text F ty d; print_checked cap doc (length doc) maxSize (t @ '','') })"

text \<open>
  The loop over the records of the caller, null pointers among them, with the room left at the last check. A null key is
  printed before it is compared with null. The room is not computed again between the key and the value.
\<close>

fun add_items ::
  "float_lib \<Rightarrow> (nat \<Rightarrow> json_data) \<Rightarrow> nat \<Rightarrow> nat \<Rightarrow> jsonStruct option list \<Rightarrow> string \<Rightarrow> nat \<Rightarrow>
   (IoT_Error_t \<times> string \<times> nat) option"
where
  "add_items F m cap maxSize [] doc left = Some (SUCCESS, doc, left)"
| "add_items F m cap maxSize (item # items) doc left =
     (let left' = room maxSize doc in
      if left' \<le> 1 then Some (SHADOW_JSON_ERROR, doc, left)
      else case item of
        None \<Rightarrow> Some (NULL_VALUE_ERROR, doc, left')
      | Some j \<Rightarrow> do {
          k \<leftarrow> pKey j;
          (rc, doc) \<leftarrow> print_checked cap doc (length doc) left' (DQUOTE # k @ DQUOTE # '':'');
          if rc \<noteq> SUCCESS then Some (rc, doc, left')
          else case pData j of
            None \<Rightarrow> Some (NULL_VALUE_ERROR, doc, left')
          | Some a \<Rightarrow> do {
              (rc, doc) \<leftarrow> convertDataToString F cap doc left' (data_type j) (m a);
              if rc \<noteq> SUCCESS then Some (rc, doc, left')
              else add_items F m cap maxSize items doc left'
            }
        })"

text \<open>
  The counter of the loop is an \<open>int8_t\<close>: with 128 records or more it becomes negative behind the 128th, and the loop
  reads arguments that are not there. The last character is replaced by the closing bracket.
\<close>

definition add_section ::
  "string \<Rightarrow> float_lib \<Rightarrow> (nat \<Rightarrow> json_data) \<Rightarrow> nat \<Rightarrow> nat \<Rightarrow> jsonStruct option list \<Rightarrow> string \<Rightarrow> (IoT_Error_t \<times> string) option"
where
  "add_section name F m cap maxSize items doc =
     (let left = room maxSize doc in
      if left \<le> 1 then Some (SHADOW_JSON_ERROR, doc)
      else do {
        (rc, doc) \<leftarrow> print_checked cap doc (length doc) left (DQUOTE # name @ DQUOTE # '':{'');
        if rc \<noteq> SUCCESS then Some (rc, doc)
        else do {
          (rc, doc, left) \<leftarrow> add_items F m cap maxSize items doc left;
          if rc \<noteq> SUCCESS then Some (rc, doc)
          else if 128 \<le> length items then None
          else print_checked cap doc (length doc - 1) left ''},''
        }
      })"

definition aws_iot_shadow_add_desired ::
  "float_lib \<Rightarrow> (nat \<Rightarrow> json_data) \<Rightarrow> nat \<Rightarrow> nat \<Rightarrow> jsonStruct option list \<Rightarrow> string \<Rightarrow> (IoT_Error_t \<times> string) option"
where
  "aws_iot_shadow_add_desired = add_section ''desired''"

definition aws_iot_shadow_add_reported ::
  "float_lib \<Rightarrow> (nat \<Rightarrow> json_data) \<Rightarrow> nat \<Rightarrow> nat \<Rightarrow> jsonStruct option list \<Rightarrow> string \<Rightarrow> (IoT_Error_t \<times> string) option"
where
  "aws_iot_shadow_add_reported = add_section ''reported''"

subsection \<open>Client tokens\<close>

text \<open>The next token: the client identifier and the running number, printed as an \<open>int\<close>.\<close>

definition client_token :: "string \<Rightarrow> u32 \<Rightarrow> string" where
  "client_token clientID num = clientID @ CHR ''-'' # show_int (sint num)"

definition FillWithClientTokenSize ::
  "string \<Rightarrow> u32 \<Rightarrow> nat \<Rightarrow> string \<Rightarrow> nat \<Rightarrow> nat \<Rightarrow> (int \<times> string \<times> u32) option"
where
  "FillWithClientTokenSize clientID num cap doc off n = do {
     (r, doc) \<leftarrow> snprintf_at cap doc off n (client_token clientID num);
     Some (r, doc, num + 1)
   }"

definition aws_iot_fill_with_client_token ::
  "string \<Rightarrow> u32 \<Rightarrow> nat \<Rightarrow> string \<Rightarrow> nat \<Rightarrow> (IoT_Error_t \<times> string \<times> u32) option"
where
  "aws_iot_fill_with_client_token clientID num cap doc maxSize = do {
     (r, doc, num) \<leftarrow> FillWithClientTokenSize clientID num cap doc 0 maxSize;
     Some (checkReturnValueOfSnPrintf r maxSize, doc, num)
   }"

definition SHADOW_CLIENT_TOKEN_STRING :: string where
  "SHADOW_CLIENT_TOKEN_STRING = ''clientToken''"

definition SHADOW_VERSION_STRING :: string where
  "SHADOW_VERSION_STRING = ''version''"

text \<open>Closing the document: the bracket takes the place of the last comma, behind it come the token and the end.\<close>

definition aws_iot_finalize_json_document ::
  "string \<Rightarrow> u32 \<Rightarrow> nat \<Rightarrow> nat \<Rightarrow> string \<Rightarrow> (IoT_Error_t \<times> string \<times> u32) option"
where
  "aws_iot_finalize_json_document clientID num cap maxSize doc =
     (let left = room maxSize doc in
      if left \<le> 1 then Some (SHADOW_JSON_ERROR, doc, num)
      else if doc = [] then None
      else do {
        (rc, doc) \<leftarrow> print_checked cap doc (length doc - 1) left
          (''}, '' @ DQUOTE # SHADOW_CLIENT_TOKEN_STRING @ DQUOTE # CHR '':'' # [DQUOTE]);
        let left = room maxSize doc;
        if rc \<noteq> SUCCESS then Some (rc, doc, num)
        else if left \<le> 1 then Some (SHADOW_JSON_ERROR, doc, num)
        else do {
          (r, doc, num) \<leftarrow> FillWithClientTokenSize clientID num cap doc (length doc) left;
          let rc = checkReturnValueOfSnPrintf r left;
          let left = room maxSize doc;
          if rc \<noteq> SUCCESS then Some (rc, doc, num)
          else if left \<le> 1 then Some (SHADOW_JSON_ERROR, doc, num)
          else do {
            (rc, doc) \<leftarrow> print_checked cap doc (length doc) left (DQUOTE # ''}'');
            Some (rc, doc, num)
          }
        }
      })"

text \<open>The document of a get or delete request, which holds the token only. The last test lets a truncation pass.\<close>

definition emptyJsonWithClientToken ::
  "string \<Rightarrow> u32 \<Rightarrow> nat \<Rightarrow> nat \<Rightarrow> string \<Rightarrow> (IoT_Error_t \<times> string \<times> u32) option"
where
  "emptyJsonWithClientToken clientID num cap bufferSize doc = do {
     (r, doc) \<leftarrow> snprintf_at cap doc 0 bufferSize (CHR ''{'' # DQUOTE # ''clientToken'' @ DQUOTE # CHR '':'' # [DQUOTE]);
     let len = nat r;
     if bufferSize \<le> len then Some (FAILURE, doc, num)
     else do {
       (r, doc, num) \<leftarrow> FillWithClientTokenSize clientID num cap doc len (bufferSize - len);
       let len = len + nat r;
       if bufferSize \<le> len then Some (FAILURE, doc, num)
       else do {
         (r, doc) \<leftarrow> snprintf_at cap doc len (bufferSize - len) (DQUOTE # ''}'');
         Some (if bufferSize < len + nat r then FAILURE else SUCCESS, doc, num)
       }
     }
   }"

definition aws_iot_shadow_internal_get_request_json ::
  "string \<Rightarrow> u32 \<Rightarrow> nat \<Rightarrow> nat \<Rightarrow> string \<Rightarrow> (IoT_Error_t \<times> string \<times> u32) option"
where
  "aws_iot_shadow_internal_get_request_json = emptyJsonWithClientToken"

definition aws_iot_shadow_internal_delete_request_json ::
  "string \<Rightarrow> u32 \<Rightarrow> nat \<Rightarrow> nat \<Rightarrow> string \<Rightarrow> (IoT_Error_t \<times> string \<times> u32) option"
where
  "aws_iot_shadow_internal_delete_request_json = emptyJsonWithClientToken"

subsection \<open>Parsing a document\<close>

text \<open>
  The token array is a static variable: what an earlier document left in it stays there. The result of a parse is the
  number of tokens, if the document is an object.
\<close>

definition parse_document :: "string \<Rightarrow> nat \<Rightarrow> jsmntok_t list \<Rightarrow> (int option \<times> jsmntok_t list) option" where
  "parse_document js jsonSize ts = do {
     (tokenCount, _, ts) \<leftarrow> jsmn_parse jsmn_init js jsonSize (Some ts) MAX_JSON_TOKEN_EXPECTED;
     ts \<leftarrow> ts;
     if tokenCount < 1 then Some (None, ts)
     else do {
       t \<leftarrow> tok_at ts 0;
       Some (if tok_type t \<noteq> JSMN_OBJECT then None else Some tokenCount, ts)
     }
   }"

definition isJsonValidAndParse :: "string \<Rightarrow> nat \<Rightarrow> jsmntok_t list \<Rightarrow> (int option \<times> jsmntok_t list) option" where
  "isJsonValidAndParse js jsonSize ts = parse_document js jsonSize ts"

definition isReceivedJsonValid :: "string \<Rightarrow> nat \<Rightarrow> jsmntok_t list \<Rightarrow> (bool \<times> jsmntok_t list) option" where
  "isReceivedJsonValid js jsonSize ts = do {
     (r, ts) \<leftarrow> parse_document js jsonSize ts;
     Some (r \<noteq> None, ts)
   }"

subsection \<open>Values of registered keys\<close>

definition stored :: "('a \<Rightarrow> json_data) \<Rightarrow> 'a parsed \<Rightarrow> json_data parsed" where
  "stored f r = map_option (\<lambda>(rc, v). (rc, map_option f v)) r"

definition parse_value ::
  "float_lib \<Rightarrow> JsonPrimitiveType \<Rightarrow> nat \<Rightarrow> string \<Rightarrow> jsmntok_t \<Rightarrow> json_data parsed"
where
  "parse_value F ty len js t = (case ty of
       SHADOW_JSON_BOOL \<Rightarrow> stored Data_bool (parseBooleanValue js t)
     | SHADOW_JSON_INT32 \<Rightarrow> stored Data_int32 (parseInteger32Value js t)
     | SHADOW_JSON_INT16 \<Rightarrow> stored Data_int16 (parseInteger16Value js t)
     | SHADOW_JSON_INT8 \<Rightarrow> stored Data_int8 (parseInteger8Value js t)
     | SHADOW_JSON_UINT32 \<Rightarrow> stored Data_uint32 (parseUnsignedInteger32Value js t)
     | SHADOW_JSON_UINT16 \<Rightarrow> stored Data_uint16 (parseUnsignedInteger16Value js t)
     | SHADOW_JSON_UINT8 \<Rightarrow> stored Data_uint8 (parseUnsignedInteger8Value js t)
     | SHADOW_JSON_FLOAT \<Rightarrow> stored Data_float (parseFloatValue (scan_f F) js t)
     | SHADOW_JSON_DOUBLE \<Rightarrow> stored Data_double (parseDoubleValue (scan_lf F) js t)
     | SHADOW_JSON_STRING \<Rightarrow> stored Data_string (parseStringValue len js t)
     | SHADOW_JSON_OBJECT \<Rightarrow> Some (SHADOW_JSON_ERROR, None))"

text \<open>\<open>sizeof\<close> the variable of a type; strings are bounded by their own length.\<close>

definition type_size :: "JsonPrimitiveType \<Rightarrow> nat" where
  "type_size ty = (case ty of
       SHADOW_JSON_BOOL \<Rightarrow> 1 | SHADOW_JSON_INT8 \<Rightarrow> 1 | SHADOW_JSON_UINT8 \<Rightarrow> 1
     | SHADOW_JSON_INT16 \<Rightarrow> 2 | SHADOW_JSON_UINT16 \<Rightarrow> 2
     | SHADOW_JSON_INT32 \<Rightarrow> 4 | SHADOW_JSON_UINT32 \<Rightarrow> 4 | SHADOW_JSON_FLOAT \<Rightarrow> 4 | SHADOW_JSON_DOUBLE \<Rightarrow> 8
     | _ \<Rightarrow> 0)"

text \<open>The value is stored through \<open>pData\<close>; where there is no variable and a value to store, the result is undefined.\<close>

definition UpdateValueIfNoObject ::
  "float_lib \<Rightarrow> string \<Rightarrow> jsonStruct \<Rightarrow> jsmntok_t \<Rightarrow> (nat \<Rightarrow> json_data) \<Rightarrow> (IoT_Error_t \<times> (nat \<Rightarrow> json_data)) option"
where
  "UpdateValueIfNoObject F js j t m =
     (if dataLength j < type_size (data_type j) then Some (SHADOW_JSON_ERROR, m)
      else do {
        (rc, v) \<leftarrow> parse_value F (data_type j) (dataLength j) js t;
        case v of
          None \<Rightarrow> Some (rc, m)
        | Some d \<Rightarrow> do { a \<leftarrow> pData j; Some (rc, m(a := d)) }
      })"

text \<open>\<open>while (jsonTokenStruct[i].end < metadataEnd) i++\<close>\<close>

function skip_metadata :: "jsmntok_t list \<Rightarrow> int \<Rightarrow> nat \<Rightarrow> nat option" where
  "skip_metadata ts metadataEnd i = do {
     t \<leftarrow> tok_at ts i;
     if tok_end t < metadataEnd then skip_metadata ts metadataEnd (i + 1) else Some i
   }"
  by pat_completeness auto
termination
  by (relation "measure (\<lambda>(ts, e, i). length ts - i)") (auto simp: tok_at_def split: if_splits)

declare skip_metadata.simps [simp del]

lemma skip_metadata_forward: "skip_metadata ts e i = Some j \<Longrightarrow> i \<le> j"
proof (induction ts e i rule: skip_metadata.induct)
  case (1 ts e i)
  then show ?case
    by (subst (asm) (2) skip_metadata.simps) (fastforce simp: Option.bind_eq_Some_conv split: if_splits)
qed

text \<open>
  The first token that is a string with the text of the key, metadata apart. Keys and values are not told apart. The
  inner \<^term>\<open>None\<close> is no match.
\<close>

function find_shadow_key ::
  "string \<Rightarrow> jsmntok_t list \<Rightarrow> int \<Rightarrow> string \<Rightarrow> nat \<Rightarrow> nat option option"
where
  "find_shadow_key js ts tokenCount key i =
     (if tokenCount \<le> int i then Some None
      else do {
        t \<leftarrow> tok_at ts i;
        eq \<leftarrow> jsoneq js t key;
        if eq then Some (Some i)
        else do {
          meta \<leftarrow> jsoneq js t ''metadata'';
          if \<not> meta then find_shadow_key js ts tokenCount key (i + 1)
          else if tokenCount - 2 \<le> int i then Some None
          else do {
            m \<leftarrow> tok_at ts (i + 1);
            j \<leftarrow> skip_metadata ts (tok_end m) (i + 2);
            find_shadow_key js ts tokenCount key j
          }
        }
      })"
  by pat_completeness auto
termination
  by (relation "measure (\<lambda>(js, ts, n, key, i). nat (n - int i))")
    (auto dest!: skip_metadata_forward)

declare find_shadow_key.simps [simp del]

text \<open>The position and length of the value, if the key matches, and the variables after the update.\<close>

definition isJsonKeyMatchingAndUpdateValue ::
  "float_lib \<Rightarrow> string \<Rightarrow> jsmntok_t list \<Rightarrow> int \<Rightarrow> jsonStruct \<Rightarrow> (nat \<Rightarrow> json_data) \<Rightarrow>
   ((int \<times> u32) option \<times> (nat \<Rightarrow> json_data)) option"
where
  "isJsonKeyMatchingAndUpdateValue F js ts tokenCount j m = do {
     key \<leftarrow> pKey j;
     r \<leftarrow> find_shadow_key js ts tokenCount key 1;
     case r of
       None \<Rightarrow> Some (None, m)
     | Some i \<Rightarrow> do {
         dataToken \<leftarrow> tok_at ts (i + 1);
         (rc, m) \<leftarrow> UpdateValueIfNoObject F js j dataToken m;
         Some (Some (tok_start dataToken, word_of_int (tok_end dataToken - tok_start dataToken)), m)
       }
   }"

subsection \<open>Client token and version\<close>

fun first_key :: "string \<Rightarrow> jsmntok_t list \<Rightarrow> string \<Rightarrow> nat list \<Rightarrow> nat option option" where
  "first_key js ts key [] = Some None"
| "first_key js ts key (i # is) = do {
     t \<leftarrow> tok_at ts i;
     eq \<leftarrow> jsoneq js t key;
     if eq then Some (Some i) else first_key js ts key is
   }"

text \<open>The token copied into a buffer of \<open>clientTokenSize\<close> bytes; the length is a \<open>size_t\<close>.\<close>

definition copy_client_token :: "string \<Rightarrow> jsmntok_t \<Rightarrow> nat \<Rightarrow> string option option" where
  "copy_client_token js t clientTokenSize = (let n = tok_end t - tok_start t in
     if n = -1 then None
     else if n < 0 \<or> int clientTokenSize < n + 1 then Some None
     else do { s \<leftarrow> copy_chars js (tok_start t) (nat n); Some (Some s) })"

definition extractClientToken ::
  "string \<Rightarrow> nat \<Rightarrow> jsmntok_t list \<Rightarrow> nat \<Rightarrow> (string option \<times> jsmntok_t list) option"
where
  "extractClientToken js jsonSize ts clientTokenSize = do {
     (r, ts) \<leftarrow> parse_document js jsonSize ts;
     case r of
       None \<Rightarrow> Some (None, ts)
     | Some tokenCount \<Rightarrow> do {
         i \<leftarrow> first_key js ts SHADOW_CLIENT_TOKEN_STRING [1..<nat tokenCount];
         case i of
           None \<Rightarrow> Some (None, ts)
         | Some i \<Rightarrow> do {
             t \<leftarrow> tok_at ts (i + 1);
             s \<leftarrow> copy_client_token js t clientTokenSize;
             Some (s, ts)
           }
       }
   }"

text \<open>A version that is not a number is passed over.\<close>

fun version_loop :: "string \<Rightarrow> jsmntok_t list \<Rightarrow> nat list \<Rightarrow> u32 option option" where
  "version_loop js ts [] = Some None"
| "version_loop js ts (i # is) = do {
     t \<leftarrow> tok_at ts i;
     eq \<leftarrow> jsoneq js t SHADOW_VERSION_STRING;
     if \<not> eq then version_loop js ts is
     else do {
       v \<leftarrow> tok_at ts (i + 1);
       (rc, w) \<leftarrow> parseUnsignedInteger32Value js v;
       case w of None \<Rightarrow> version_loop js ts is | Some w \<Rightarrow> Some (Some w)
     }
   }"

definition extractVersionNumber :: "string \<Rightarrow> jsmntok_t list \<Rightarrow> int \<Rightarrow> u32 option option" where
  "extractVersionNumber js ts tokenCount = version_loop js ts [1..<nat tokenCount]"

end
