(* ===== verification/JsmnWindow.thy ===== *)
theory JsmnWindow
  imports Jsmn
begin

text \<open>
  The tokenizer reads no character behind the length it is given: a caller that passes the length of the text, without
  the terminator, gets what a buffer of this length would give.
\<close>

lemma next_char_take: "next_char (take len js) len k = next_char js len k"
  by (simp add: next_char_def char_at_def)

lemma char_at_take: "k < len \<Longrightarrow> char_at (take len js) k = char_at js k"
  by (simp add: char_at_def)

lemma primitive_end_take: "primitive_end (take len js) len k = primitive_end js len k"
proof (induction js len k rule: primitive_end.induct)
  case (1 js len k)
  show ?case
    by (subst (1 2) primitive_end.simps) (auto simp: next_char_take intro!: Option.bind_cong 1 [simplified] split: option.splits)
qed

lemma hex_end_take: "hex_end (take len js) len n k = hex_end js len n k"
  by (induction js len n k rule: hex_end.induct) (auto simp: next_char_take intro!: Option.bind_cong split: option.splits)

lemma escape_end_take: "k + 1 < len \<Longrightarrow> escape_end (take len js) len k = escape_end js len k"
  by (simp add: escape_end_def char_at_take hex_end_take cong: if_cong)

lemma string_end_take: "string_end (take len js) len k = string_end js len k"
proof (induction js len k rule: string_end.induct)
  case (1 js len k)
  show ?case
    by (subst (1 2) string_end.simps)
      (auto simp: next_char_take escape_end_take intro!: Option.bind_cong 1 [simplified] split: option.splits sum.splits)
qed

lemma parse_step_take: "parse_step c (take len js) len n cnt p ts = parse_step c js len n cnt p ts"
  by (simp add: parse_step_def jsmn_parse_string_def jsmn_parse_primitive_def string_end_take primitive_end_take cong: if_cong)

lemma jsmn_loop_take: "jsmn_loop (take len js) len n cnt p ts = jsmn_loop js len n cnt p ts"
proof (induction js len n cnt p ts rule: jsmn_loop.induct)
  case (1 js len n cnt p ts)
  show ?case
    by (subst (1 2) jsmn_loop.simps)
      (auto simp: next_char_take parse_step_take intro!: Option.bind_cong 1 [simplified] split: option.splits sum.splits)
qed

lemma jsmn_parse_take: "jsmn_parse p js len ts n = jsmn_parse p (take len js) len ts n"
  by (simp add: jsmn_parse_def jsmn_loop_take)

text \<open>The array of tokens keeps its size, whatever the text and the length.\<close>

definition same_room :: "'a list option \<Rightarrow> 'a list option \<Rightarrow> bool" where
  "same_room a b \<longleftrightarrow> map_option length a = map_option length b"

lemma same_room_refl [simp]: "same_room a a"
  by (simp add: same_room_def)

lemma same_room_trans: "same_room a b \<Longrightarrow> same_room b c \<Longrightarrow> same_room a c"
  by (simp add: same_room_def)

lemma allocated_room: "jsmn_alloc_token p ts n = Some (r, p', ts') \<Longrightarrow> length ts' = length ts"
  by (auto simp: jsmn_alloc_token_def Option.bind_eq_Some_conv split: if_splits)

lemma count_child_room: "count_child p ts = Some ts' \<Longrightarrow> length ts' = length ts"
  by (auto simp: count_child_def Option.bind_eq_Some_conv split: if_splits)

lemma string_room:
  assumes "jsmn_parse_string p js len ts n = Some (r, p', ts')"
  shows "same_room ts ts'"
proof -
  obtain e where e: "string_end js len (pos p + 1) = Some e"
    using assms by (auto simp: jsmn_parse_string_def Option.bind_eq_Some_conv)
  show ?thesis
  proof (cases e)
    case (Inr k)
    show ?thesis
    proof (cases ts)
      case None
      then show ?thesis using assms e Inr by (simp add: jsmn_parse_string_def)
    next
      case (Some us)
      then obtain tok q vs where a: "jsmn_alloc_token p us n = Some (tok, q, vs)"
        using assms e Inr by (auto simp: jsmn_parse_string_def Option.bind_eq_Some_conv)
      then show ?thesis using assms e Inr Some allocated_room [OF a]
        by (cases tok) (auto simp: jsmn_parse_string_def same_room_def)
    qed
  qed (use assms e in \<open>simp add: jsmn_parse_string_def same_room_def\<close>)
qed

lemma primitive_room:
  assumes "jsmn_parse_primitive p js len ts n = Some (r, p', ts')"
  shows "same_room ts ts'"
proof -
  obtain e where e: "primitive_end js len (pos p) = Some e"
    using assms by (auto simp: jsmn_parse_primitive_def Option.bind_eq_Some_conv)
  show ?thesis
  proof (cases e)
    case (Inr k)
    show ?thesis
    proof (cases ts)
      case None
      then show ?thesis using assms e Inr by (simp add: jsmn_parse_primitive_def)
    next
      case (Some us)
      then obtain tok q vs where a: "jsmn_alloc_token p us n = Some (tok, q, vs)"
        using assms e Inr by (auto simp: jsmn_parse_primitive_def Option.bind_eq_Some_conv)
      then show ?thesis using assms e Inr Some allocated_room [OF a]
        by (cases tok) (auto simp: jsmn_parse_primitive_def same_room_def)
    qed
  qed (use assms e in \<open>simp add: jsmn_parse_primitive_def same_room_def\<close>)
qed

lemma count_token_room: "count_token cnt (r, p, ts) = Some (q, p', ts') \<Longrightarrow> same_room ts ts'"
  by (auto simp: count_token_def same_room_def Option.bind_eq_Some_conv dest!: count_child_room
      split: if_splits option.split_asm)

lemma open_bracket_room: "open_bracket c cnt p ts n = Some (r, p', ts') \<Longrightarrow> same_room ts ts'"
  by (auto simp: open_bracket_def same_room_def Option.bind_eq_Some_conv Let_def dest!: allocated_room count_child_room
      split: option.split_asm)

lemma close_bracket_room:
  assumes "close_bracket c cnt p ts = Some (r, p', ts')"
  shows "same_room ts ts'"
proof (cases ts)
  case None
  then show ?thesis using assms by (simp add: close_bracket_def)
next
  case (Some us)
  then obtain l where l: "last_token is_open us (toknext p) = Some l"
    using assms by (auto simp: close_bracket_def Option.bind_eq_Some_conv simp del: last_token.simps)
  then show ?thesis using assms Some
    by (cases l) (auto simp: close_bracket_def same_room_def Option.bind_eq_Some_conv Let_def
        simp del: last_token.simps split: if_split_asm)
qed

lemma comma_room: "comma cnt p ts = Some (r, p', ts') \<Longrightarrow> same_room ts ts'"
  by (cases ts) (auto simp: comma_def same_room_def Option.bind_eq_Some_conv simp del: last_token.simps
      split: option.split_asm if_splits)

lemma parse_step_room:
  assumes "parse_step c js len n cnt p ts = Some (r, p', ts')"
  shows "same_room ts ts'"
  using assms
  by (auto simp: parse_step_def Option.bind_eq_Some_conv intro: open_bracket_room close_bracket_room
      comma_room same_room_trans [OF string_room count_token_room] same_room_trans [OF primitive_room count_token_room]
      split: if_splits)

lemma jsmn_loop_room: "jsmn_loop js len n cnt p ts = Some (r, p', ts') \<Longrightarrow> same_room ts ts'"
proof (induction js len n cnt p ts arbitrary: r p' ts' rule: jsmn_loop.induct)
  case (1 js len n cnt p ts)
  note run = "1.prems" [unfolded jsmn_loop.simps [of js len n cnt p ts]]
  obtain c where c: "next_char js len (pos p) = Some c" using run by (auto simp: Option.bind_eq_Some_conv)
  show ?case
  proof (cases c)
    case None
    then show ?thesis using run c by (simp add: same_room_def)
  next
    case (Some c')
    then obtain q p1 ts1 where s: "parse_step c' js len n cnt p ts = Some (q, p1, ts1)"
      using run c by (auto simp: Option.bind_eq_Some_conv)
    have k: "same_room ts ts1" by (rule parse_step_room [OF s])
    show ?thesis
    proof (cases q)
      case (Inl e)
      then show ?thesis using run c Some s k by simp
    next
      case (Inr cnt')
      then have "same_room ts1 ts'" using run c Some s 1(1) [OF c Some s refl refl Inr] by simp
      then show ?thesis using k by (rule same_room_trans [rotated])
    qed
  qed
qed

lemma jsmn_parse_room:
  assumes "jsmn_parse p js len ts n = Some (r, p', ts')"
  shows "same_room ts ts'"
proof -
  obtain q p1 us where l: "jsmn_loop js len n (int (toknext p)) p ts = Some (q, p1, us)"
    using assms by (auto simp: jsmn_parse_def Option.bind_eq_Some_conv)
  have "us = ts'"
    using assms l by (cases q; cases us) (auto simp: jsmn_parse_def Option.bind_eq_Some_conv simp del: last_token.simps)
  then show ?thesis using jsmn_loop_room [OF l] by simp
qed

end
