(* ===== verification/ShadowDocuments.thy ===== *)
theory ShadowDocuments
  imports ShadowJson JsonUtilsProperties JsmnWindow
begin

text \<open>
  The documents of the device shadow as JSON values: what the builders write into a buffer that has room for it, which
  strings a search over the tokens meets, and the two searches for a key.
\<close>

subsection \<open>Printing where there is room\<close>

lemma print_checked_fits:
  "length txt < n \<Longrightarrow> off + length txt < cap \<Longrightarrow> print_checked cap doc off n txt = Some (SUCCESS, take off doc @ txt)"
  by (simp add: print_checked_def snprintf_at_def Let_def checkReturnValueOfSnPrintf_def)

lemma room_fits: "length doc \<le> maxSize \<Longrightarrow> room maxSize doc = maxSize - length doc"
  by (simp add: room_def)

text \<open>A record of the application describes a key with a value: its variable prints as the text of the value.\<close>

definition describes :: "float_lib \<Rightarrow> (nat \<Rightarrow> json_data) \<Rightarrow> jsonStruct option \<Rightarrow> string \<times> json \<Rightarrow> bool" where
  "describes F m item kv = (case item of None \<Rightarrow> False | Some j \<Rightarrow>
     pKey j = Some (fst kv) \<and>
     (case pData j of None \<Rightarrow> False | Some a \<Rightarrow> value_text F (data_type j) (m a) = Some (render (snd kv))))"

primrec items_text :: "(string \<times> json) list \<Rightarrow> string" where
  "items_text [] = []"
| "items_text (kv # kvs) = json_quoted (fst kv) @ CHR '':'' # render (snd kv) @ CHR '','' # items_text kvs"

primrec report_members :: "(string \<times> json) list \<Rightarrow> members" where
  "report_members [] = MNil"
| "report_members (kv # kvs) = MCons [] (fst kv) [] [] (snd kv) [] (report_members kvs)"

lemma items_text_members:
  "kvs \<noteq> [] \<Longrightarrow> sep @ items_text kvs = render_members sep (report_members kvs) @ '',''"
proof (induction kvs arbitrary: sep)
  case (Cons kv kvs)
  show ?case
  proof (cases kvs)
    case (Cons kv' kvs')
    then have "'','' @ items_text kvs = render_members '','' (report_members kvs) @ '',''" by (intro Cons.IH) simp
    then show ?thesis by simp
  qed simp
qed simp

lemma add_items_text:
  assumes "list_all2 (describes F m) items kvs" and "length (doc @ items_text kvs) < maxSize" and "maxSize \<le> cap"
    and "2 < left"
  obtains left' where "add_items F m cap maxSize items doc left = Some (SUCCESS, doc @ items_text kvs, left')" and "2 < left'"
  using assms
proof (induction items kvs arbitrary: doc left thesis rule: list_all2_induct)
  case Nil
  then show ?case by simp
next
  case (Cons item items kv kvs)
  obtain j a where j: "item = Some j" "pKey j = Some (fst kv)" "pData j = Some a"
    "value_text F (data_type j) (m a) = Some (render (snd kv))"
    using Cons.hyps(1) by (auto simp: describes_def split: option.splits)
  define key where "key = json_quoted (fst kv) @ '':''"
  define val where "val = render (snd kv) @ '',''"
  have key: "DQUOTE # fst kv @ DQUOTE # '':'' = key" by (simp add: key_def json_quoted_def)
  have whole: "doc @ items_text (kv # kvs) = ((doc @ key) @ val) @ items_text kvs" by (simp add: key_def val_def)
  have len: "length doc + length key + length val + length (items_text kvs) < maxSize"
    using Cons.prems(2) unfolding whole by simp
  have big: "3 \<le> length key" "1 \<le> length val" by (simp_all add: key_def val_def json_quoted_def)
  define l where "l = maxSize - length doc"
  have l: "room maxSize doc = l" "4 < l" using len big by (simp_all add: l_def room_fits)
  have p1: "print_checked cap doc (length doc) l key = Some (SUCCESS, doc @ key)"
    using print_checked_fits [of key l "length doc" cap doc] len Cons.prems(3) big by (simp add: l_def)
  have p2: "convertDataToString F cap (doc @ key) l (data_type j) (m a) = Some (SUCCESS, (doc @ key) @ val)"
    using print_checked_fits [of val l "length (doc @ key)" cap "doc @ key"] len Cons.prems(3) big j(4) l(2)
    by (simp add: convertDataToString_def l_def val_def)
  have l2: "2 < l" using l(2) by simp
  obtain left' where left': "add_items F m cap maxSize items ((doc @ key) @ val) l =
      Some (SUCCESS, ((doc @ key) @ val) @ items_text kvs, left')" "2 < left'"
    using Cons.IH [OF _ Cons.prems(2) [unfolded whole] Cons.prems(3) l2] by metis
  have "add_items F m cap maxSize (item # items) doc left = Some (SUCCESS, doc @ items_text (kv # kvs), left')"
    unfolding add_items.simps Let_def l(1) whole using j l(2) p1 p2 left'(1) by (simp add: key)
  then show ?case using Cons.prems(1) left'(2) by blast
qed

text \<open>A section, with a comma behind it.\<close>

lemma add_section_text:
  assumes items: "list_all2 (describes F m) items kvs" "kvs \<noteq> []" "length items < 128"
    and written: "doc' = doc @ json_quoted name @ '':'' @ render (JObject [] (report_members kvs)) @ '',''"
    and fits: "length doc' < maxSize" "maxSize \<le> cap"
  shows "add_section name F m cap maxSize items doc = Some (SUCCESS, doc')"
proof -
  define start where "start = json_quoted name @ '':{''"
  have start: "DQUOTE # name @ DQUOTE # '':{'' = start" by (simp add: start_def json_quoted_def)
  have body: "items_text kvs = render_members [] (report_members kvs) @ '',''"
    using items_text_members [OF items(2), of "[]"] by simp
  have doc': "doc' = doc @ start @ render_members [] (report_members kvs) @ ''},''"
    by (simp add: written start_def)
  define left where "left = room maxSize doc"
  have len: "length doc + length start + length (items_text kvs) + 1 < maxSize" "4 \<le> length start"
    using fits(1) body by (simp_all add: doc' start_def json_quoted_def)
  have left: "left = maxSize - length doc" "4 < left" using len by (simp_all add: left_def room_fits)
  have p1: "print_checked cap doc (length doc) left start = Some (SUCCESS, doc @ start)"
    using print_checked_fits [of start left "length doc" cap doc] len fits(2) by (simp add: left(1))
  have l2: "2 < left" and room: "length ((doc @ start) @ items_text kvs) < maxSize" using left(2) len by simp_all
  obtain left' where left': "add_items F m cap maxSize items (doc @ start) left =
      Some (SUCCESS, (doc @ start) @ items_text kvs, left')" "2 < left'"
    by (rule add_items_text [OF items(1) room fits(2) l2]) (rule that)
  define d where "d = (doc @ start) @ items_text kvs"
  have d: "take (length d - 1) d @ ''},'' = doc'" by (simp add: d_def body doc')
  have p2: "print_checked cap d (length d - 1) left' ''},'' = Some (SUCCESS, doc')"
    using print_checked_fits [of "''},''" left' "length d - 1" cap d] left'(2) len fits(2)
    unfolding d by (simp add: d_def)
  show ?thesis
    unfolding add_section_def left_def [symmetric] start Let_def
    using left(2) p1 left'(1) p2 items(3) by (simp add: d_def)
qed

text \<open>The document of a report, as the server gets it; a space stands in front of the token's key.\<close>

definition update_document :: "members \<Rightarrow> string \<Rightarrow> json" where
  "update_document state token = JObject [] (MCons [] ''state'' [] [] (JObject [] state) []
     (MCons '' '' SHADOW_CLIENT_TOKEN_STRING [] [] (JString token) [] MNil))"

lemma init_document_text:
  "10 < maxSize \<Longrightarrow> maxSize \<le> cap \<Longrightarrow>
     aws_iot_shadow_init_json_document cap maxSize doc = Some (SUCCESS, CHR ''{'' # DQUOTE # ''state'' @ DQUOTE # '':{'')"
  by (simp add: aws_iot_shadow_init_json_document_def print_checked_fits)

lemma finalize_text:
  assumes written: "doc = front @ '',''"
    and final: "doc' = front @ ''}, '' @ json_quoted SHADOW_CLIENT_TOKEN_STRING @ '':'' @ json_quoted (client_token clientID num) @ ''}''"
    and fits: "length doc' < maxSize" "maxSize \<le> cap"
  shows "aws_iot_finalize_json_document clientID num cap maxSize doc = Some (SUCCESS, doc', num + 1)"
proof -
  define mid where "mid = ''}, '' @ DQUOTE # SHADOW_CLIENT_TOKEN_STRING @ DQUOTE # CHR '':'' # [DQUOTE]"
  define token where "token = client_token clientID num"
  define d1 where "d1 = front @ mid"
  have mid: "length mid = 18" by (simp add: mid_def SHADOW_CLIENT_TOKEN_STRING_def)
  have doc': "doc' = (d1 @ token) @ DQUOTE # ''}''" by (simp add: final d1_def mid_def token_def json_quoted_def)
  have len: "length front + 18 + length token + 2 < maxSize" using fits(1) mid by (simp add: doc' d1_def)
  have r0: "room maxSize doc = maxSize - length doc" "18 < room maxSize doc" "doc \<noteq> []"
    using len by (simp_all add: written room_fits)
  have p1: "print_checked cap doc (length doc - 1) (room maxSize doc) mid = Some (SUCCESS, d1)"
    using print_checked_fits [of mid "room maxSize doc" "length doc - 1" cap doc] len mid fits(2) r0
    by (simp add: written d1_def)
  have r1: "room maxSize d1 = maxSize - length d1" "length token + 1 < room maxSize d1"
    using len mid by (simp_all add: d1_def room_fits)
  have p2: "FillWithClientTokenSize clientID num cap d1 (length d1) (room maxSize d1) =
      Some (int (length token), d1 @ token, num + 1)"
    using len mid fits(2) r1 by (simp add: FillWithClientTokenSize_def snprintf_at_def token_def [symmetric] d1_def)
  have c2: "checkReturnValueOfSnPrintf (int (length token)) (room maxSize d1) = SUCCESS"
    using r1(2) by (simp add: checkReturnValueOfSnPrintf_def)
  have r2: "room maxSize (d1 @ token) = maxSize - length (d1 @ token)" "2 < room maxSize (d1 @ token)"
    using len mid by (simp_all add: d1_def room_fits)
  have p3: "print_checked cap (d1 @ token) (length (d1 @ token)) (room maxSize (d1 @ token)) (DQUOTE # ''}'') =
      Some (SUCCESS, doc')"
    using print_checked_fits [of "DQUOTE # ''}''" "room maxSize (d1 @ token)" "length (d1 @ token)" cap "d1 @ token"]
      len mid fits(2) r2 unfolding doc' by (simp add: d1_def)
  have go: "\<not> room maxSize doc \<le> 1" "\<not> room maxSize d1 \<le> 1" "\<not> room maxSize (d1 @ token) \<le> 1"
    using r0 r1 r2 by simp_all
  show ?thesis
    unfolding aws_iot_finalize_json_document_def mid_def [symmetric] Let_def
    using r0(3) go p1 p2 p3 c2 by (simp del: length_append)
qed

subsection \<open>The strings a search meets\<close>

text \<open>Keys and strings alike, in the order of their tokens.\<close>

fun strings_of :: "json \<Rightarrow> string list" and member_strings :: "members \<Rightarrow> string list"
  and element_strings :: "elements \<Rightarrow> string list"
where
  "strings_of (JObject w ms) = member_strings ms"
| "strings_of (JArray w es) = element_strings es"
| "strings_of (JString s) = [s]"
| "strings_of (JPrimitive s) = []"
| "member_strings MNil = []"
| "member_strings (MCons w1 k w2 w3 v w4 ms) = k # strings_of v @ member_strings ms"
| "element_strings ENil = []"
| "element_strings (ECons w1 v w2 es) = strings_of v @ element_strings es"

lemma jsoneq_other_type: "ty \<noteq> JSMN_STRING \<Longrightarrow> jsoneq js (mk_token ty a n k) key = Some False"
  by (simp add: jsoneq_def mk_token_def)

lemma jsoneq_value_string: "js = p @ json_quoted s @ q \<Longrightarrow> jsoneq js (mk_token JSMN_STRING (Suc (length p)) (length s) n) key = Some (s = key)"
  using jsoneq_string [of js "p @ [DQUOTE]" s "DQUOTE # q" n key] by (simp add: json_quoted_def)

lemma jsoneq_tokens:
  "js = p @ render v @ q \<Longrightarrow> key \<notin> set (strings_of v) \<Longrightarrow> t \<in> set (tokens_of (length p) v) \<Longrightarrow> jsoneq js t key = Some False"
  "js = p @ render_members sep ms @ q \<Longrightarrow> key \<notin> set (member_strings ms) \<Longrightarrow> t \<in> set (member_tokens (length p) sep ms) \<Longrightarrow>
     jsoneq js t key = Some False"
  "js = p @ render_elements sep es @ q \<Longrightarrow> key \<notin> set (element_strings es) \<Longrightarrow> t \<in> set (element_tokens (length p) sep es) \<Longrightarrow>
     jsoneq js t key = Some False"
proof (induction v and ms and es arbitrary: p q and p q sep and p q sep)
  case (JObject w ms)
  have "jsoneq js t key = Some False" if "t \<in> set (member_tokens (length (p @ CHR ''{'' # w)) [] ms)"
    using JObject.prems that by (intro JObject.IH [of "p @ CHR ''{'' # w" "[]" "''}'' @ q"]) simp_all
  then show ?case using JObject.prems(3) by (auto simp: jsoneq_other_type)
next
  case (JArray w es)
  have "jsoneq js t key = Some False" if "t \<in> set (element_tokens (length (p @ CHR ''['' # w)) [] es)"
    using JArray.prems that by (intro JArray.IH [of "p @ CHR ''['' # w" "[]" "'']'' @ q"]) simp_all
  then show ?case using JArray.prems(3) by (auto simp: jsoneq_other_type)
next
  case (JString s)
  then show ?case using jsoneq_value_string [of js p s q 0 key] by auto
next
  case (JPrimitive s)
  then show ?case by (simp add: jsoneq_other_type)
next
  case MNil
  then show ?case by simp
next
  case (MCons w1 k w2 w3 v w4 ms)
  define b where "b = p @ sep @ w1 @ json_quoted k @ w2 @ CHR '':'' # w3"
  have b: "length b = value_at (length p) sep w1 k w2 w3" by (simp add: b_def value_at_def json_quoted_def)
  have l2: "value_at (length p) sep w1 k w2 w3 + length (render v) + length w4 = length (b @ render v @ w4)"
    by (simp add: b)
  have t: "t = mk_token JSMN_STRING (length p + length sep + length w1 + 1) (length k) 1 \<or> t \<in> set (tokens_of (length b) v) \<or>
      t \<in> set (member_tokens (length (b @ render v @ w4)) '','' ms)"
    using MCons.prems(3) unfolding member_tokens_at l2 b [symmetric] by (simp add: add.assoc)
  have js: "js = b @ render v @ w4 @ render_members '','' ms @ q" using MCons.prems(1) by (simp add: b_def)
  consider "t = mk_token JSMN_STRING (length p + length sep + length w1 + 1) (length k) 1" | "t \<in> set (tokens_of (length b) v)"
    | "t \<in> set (member_tokens (length (b @ render v @ w4)) '','' ms)"
    using t by blast
  then show ?case
  proof cases
    case 1
    then show ?thesis using jsoneq_key [OF MCons.prems(1), of key] MCons.prems(2) by auto
  next
    case 2
    then show ?thesis using js MCons.prems(2) by (intro MCons.IH(1) [of b "w4 @ render_members '','' ms @ q"]) simp_all
  next
    case 3
    then show ?thesis using js MCons.prems(2) by (intro MCons.IH(2) [of "b @ render v @ w4" "'',''" q]) simp_all
  qed
next
  case ENil
  then show ?case by simp
next
  case (ECons w1 v w2 es)
  define b where "b = p @ sep @ w1"
  have js: "js = b @ render v @ w2 @ render_elements '','' es @ q" using ECons.prems(1) by (simp add: b_def)
  have t: "t \<in> set (tokens_of (length b) v) \<or> t \<in> set (element_tokens (length (b @ render v @ w2)) '','' es)"
    using ECons.prems(3) by (simp add: b_def Let_def add.assoc)
  then show ?case
  proof
    assume "t \<in> set (tokens_of (length b) v)"
    then show ?thesis using js ECons.prems(2) by (intro ECons.IH(1) [of b "w2 @ render_elements '','' es @ q"]) simp_all
  next
    assume "t \<in> set (element_tokens (length (b @ render v @ w2)) '','' es)"
    then show ?thesis using js ECons.prems(2) by (intro ECons.IH(2) [of "b @ render v @ w2" "'',''" q]) simp_all
  qed
qed

subsection \<open>Searches\<close>

lemma first_key_found:
  "(\<And>t. t \<in> set pre \<Longrightarrow> jsoneq js t key = Some False) \<Longrightarrow> jsoneq js t key = Some True \<Longrightarrow> j + length pre < n \<Longrightarrow>
     length old = j \<Longrightarrow> first_key js (old @ pre @ t # post) key [j..<n] = Some (Some (j + length pre))"
proof (induction pre arbitrary: old j)
  case Nil
  then have "[j..<n] = j # [Suc j..<n]" by (simp add: upt_rec)
  then show ?case using Nil by (auto simp: tok_at_def nth_append)
next
  case (Cons x pre)
  then have "[j..<n] = j # [Suc j..<n]" by (simp add: upt_rec)
  moreover have "first_key js ((old @ [x]) @ pre @ t # post) key [Suc j..<n] = Some (Some (Suc j + length pre))"
    using Cons.prems by (intro Cons.IH) simp_all
  ultimately show ?case using Cons.prems by (simp add: tok_at_def nth_append)
qed

end
