(* ===== verification/JsonSeek.thy ===== *)
theory JsonSeek
  imports ShadowDocuments
begin

text \<open>
  What a search over the tokens of a document finds, read off the JSON value: the searches of the device shadow take
  the first token that is a string and reads like the key, whether it is a key or a value, at any depth. The value of
  the first member with the key is found if no string in front of it reads like the key, or like another string the
  search stops at.
\<close>

datatype seek_result = Absent | Found json | Blocked

fun seek :: "string list \<Rightarrow> string \<Rightarrow> json \<Rightarrow> seek_result"
  and seek_members :: "string list \<Rightarrow> string \<Rightarrow> members \<Rightarrow> seek_result"
  and seek_elements :: "string list \<Rightarrow> string \<Rightarrow> elements \<Rightarrow> seek_result"
where
  "seek avoid key (JObject w ms) = seek_members avoid key ms"
| "seek avoid key (JArray w es) = seek_elements avoid key es"
| "seek avoid key (JString s) = (if s \<in> set (key # avoid) then Blocked else Absent)"
| "seek avoid key (JPrimitive s) = Absent"
| "seek_members avoid key MNil = Absent"
| "seek_members avoid key (MCons w1 k w2 w3 v w4 ms) =
     (if k = key then Found v else if k \<in> set avoid then Blocked
      else case seek avoid key v of Absent \<Rightarrow> seek_members avoid key ms | r \<Rightarrow> r)"
| "seek_elements avoid key ENil = Absent"
| "seek_elements avoid key (ECons w1 v w2 es) =
     (case seek avoid key v of Absent \<Rightarrow> seek_elements avoid key es | r \<Rightarrow> r)"

lemma seek_absent:
  "seek avoid key v = Absent \<Longrightarrow> x \<in> set (key # avoid) \<Longrightarrow> x \<notin> set (strings_of v)"
  "seek_members avoid key ms = Absent \<Longrightarrow> x \<in> set (key # avoid) \<Longrightarrow> x \<notin> set (member_strings ms)"
  "seek_elements avoid key es = Absent \<Longrightarrow> x \<in> set (key # avoid) \<Longrightarrow> x \<notin> set (element_strings es)"
proof (induction v and ms and es)
  case (MCons w1 k w2 w3 v w4 ms)
  then show ?case by (cases "seek avoid key v") (auto split: if_splits)
next
  case (ECons w1 v w2 es)
  then show ?case by (cases "seek avoid key v") auto
qed (auto split: if_splits)

text \<open>The tokens around the one that is found, in a text \<open>js\<close> that ends in \<open>q\<close>.\<close>

definition found_in :: "string list \<Rightarrow> string \<Rightarrow> string \<Rightarrow> string \<Rightarrow> json \<Rightarrow> jsmntok_t list \<Rightarrow> bool" where
  "found_in avoid key js q x ts \<longleftrightarrow> (\<exists>pre kt u z post. ts = pre @ kt # tokens_of (length u) x @ post \<and>
     (\<forall>t \<in> set pre. \<forall>k \<in> set (key # avoid). jsoneq js t k = Some False) \<and> jsoneq js kt key = Some True \<and>
     js = u @ render x @ z @ q \<and> z \<noteq> [] \<and> ends_primitive (hd z) \<and> json_ok x)"

lemma found_in_wrap:
  assumes "found_in avoid key js q x ts" and "\<And>t k. t \<in> set pre \<Longrightarrow> k \<in> set (key # avoid) \<Longrightarrow> jsoneq js t k = Some False"
  shows "found_in avoid key js q x (pre @ ts @ post)"
proof -
  obtain pre' kt u z post' where f: "ts = pre' @ kt # tokens_of (length u) x @ post'"
    "\<forall>t \<in> set pre'. \<forall>k \<in> set (key # avoid). jsoneq js t k = Some False" "jsoneq js kt key = Some True"
    "js = u @ render x @ z @ q" "z \<noteq> []" "ends_primitive (hd z)" "json_ok x"
    using assms(1) unfolding found_in_def by blast
  have "pre @ ts @ post = (pre @ pre') @ kt # tokens_of (length u) x @ (post' @ post)" by (simp add: f(1))
  moreover have "\<forall>t \<in> set (pre @ pre'). \<forall>k \<in> set (key # avoid). jsoneq js t k = Some False" using assms(2) f(2) by auto
  ultimately show ?thesis using f(3-) unfolding found_in_def by blast
qed

lemma found_in_suffix: "found_in avoid key js (a @ q) x ts \<Longrightarrow> found_in avoid key js q x ts"
  unfolding found_in_def by (metis append.assoc append_is_Nil_conv hd_append2)

lemma ends_primitive_chars [simp]: "ends_primitive CHR ''}''" "ends_primitive CHR '',''" "ends_primitive CHR '']''"
  by (simp_all add: ends_primitive_def)

lemma ends_primitive_white: "list_all white w \<Longrightarrow> rest \<noteq> [] \<Longrightarrow> ends_primitive (hd rest) \<Longrightarrow> ends_primitive (hd (w @ rest))"
  by (cases w) (auto simp: ends_primitive_def)

lemma members_end: "ends_primitive (hd (render_members '','' ms @ ''}''))" "render_members '','' ms @ ''}'' \<noteq> []"
  by (cases ms; simp)+

lemma seek_found:
  "js = p @ render v @ q \<Longrightarrow> json_ok v \<Longrightarrow> seek avoid key v = Found x \<Longrightarrow> found_in avoid key js q x (tokens_of (length p) v)"
  "js = p @ render_members sep ms @ ''}'' @ q \<Longrightarrow> members_ok ms \<Longrightarrow> seek_members avoid key ms = Found x \<Longrightarrow>
     found_in avoid key js q x (member_tokens (length p) sep ms)"
  "js = p @ render_elements sep es @ '']'' @ q \<Longrightarrow> elements_ok es \<Longrightarrow> seek_elements avoid key es = Found x \<Longrightarrow>
     found_in avoid key js q x (element_tokens (length p) sep es)"
proof (induction v and ms and es arbitrary: p q and p q sep and p q sep)
  case (JObject w ms)
  have "found_in avoid key js q x (member_tokens (length (p @ CHR ''{'' # w)) [] ms)"
    using JObject.prems by (intro JObject.IH [of "p @ CHR ''{'' # w" "[]" q]) simp_all
  from found_in_wrap [OF this, of "[mk_token JSMN_OBJECT (length p) (length (render (JObject w ms))) (member_count ms)]" "[]"]
  show ?case by (simp add: jsoneq_other_type)
next
  case (JArray w es)
  have "found_in avoid key js q x (element_tokens (length (p @ CHR ''['' # w)) [] es)"
    using JArray.prems by (intro JArray.IH [of "p @ CHR ''['' # w" "[]" q]) simp_all
  from found_in_wrap [OF this, of "[mk_token JSMN_ARRAY (length p) (length (render (JArray w es))) (element_count es)]" "[]"]
  show ?case by (simp add: jsoneq_other_type)
next
  case (JString s)
  then show ?case by (simp split: if_splits)
next
  case (JPrimitive s)
  then show ?case by simp
next
  case MNil
  then show ?case by simp
next
  case (MCons w1 k w2 w3 v w4 ms)
  define b where "b = p @ sep @ w1 @ json_quoted k @ w2 @ CHR '':'' # w3"
  define kt where "kt = mk_token JSMN_STRING (length p + length sep + length w1 + 1) (length k) 1"
  have b: "length b = value_at (length p) sep w1 k w2 w3" by (simp add: b_def value_at_def json_quoted_def)
  have js: "js = b @ render v @ w4 @ render_members '','' ms @ ''}'' @ q" using MCons.prems(1) by (simp add: b_def)
  have ts: "member_tokens (length p) sep (MCons w1 k w2 w3 v w4 ms) =
      kt # tokens_of (length b) v @ member_tokens (length (b @ render v @ w4)) '','' ms"
    unfolding member_tokens_at kt_def b [symmetric] by (simp add: add.assoc)
  have jk: "jsoneq js kt y = Some (k = y)" for y unfolding kt_def by (rule jsoneq_key) (use MCons.prems(1) in simp)
  have ok: "json_ok v" "members_ok ms" "list_all white w4" using MCons.prems(2) by simp_all
  show ?case
  proof (cases "k = key")
    case True
    then have x: "x = v" using MCons.prems(3) by simp
    have "ends_primitive (hd (w4 @ render_members '','' ms @ ''}''))" "w4 @ render_members '','' ms @ ''}'' \<noteq> []"
      using members_end ends_primitive_white [OF ok(3)] by simp_all
    then show ?thesis unfolding found_in_def ts x
      using js ok(1) jk True
      by (intro exI [of _ "[]"] exI [of _ kt] exI [of _ b] exI [of _ "w4 @ render_members '','' ms @ ''}''"] exI) auto
  next
    case False
    then have other: "k \<notin> set avoid" using MCons.prems(3) by (auto split: if_splits)
    have before: "jsoneq js t y = Some False" if "t \<in> set [kt]" "y \<in> set (key # avoid)" for t y
      using that jk False other by auto
    show ?thesis
    proof (cases "seek avoid key v")
      case Absent
      then have "seek_members avoid key ms = Found x" using MCons.prems(3) False other by simp
      then have f: "found_in avoid key js q x (member_tokens (length (b @ render v @ w4)) '','' ms)"
        using js ok by (intro MCons.IH(2) [of "b @ render v @ w4" "'',''" q]) simp_all
      have "jsoneq js t y = Some False" if "t \<in> set (kt # tokens_of (length b) v)" "y \<in> set (key # avoid)" for t y
        using that before jsoneq_tokens(1) [OF js seek_absent(1) [OF Absent that(2)]] by auto
      then have "found_in avoid key js q x ((kt # tokens_of (length b) v) @ member_tokens (length (b @ render v @ w4)) '','' ms @ [])"
        by (rule found_in_wrap [OF f])
      then show ?thesis unfolding ts by simp
    next
      case (Found y)
      then have "seek avoid key v = Found x" using MCons.prems(3) False other by simp
      then have "found_in avoid key js ((w4 @ render_members '','' ms @ ''}'') @ q) x (tokens_of (length b) v)"
        using js ok by (intro MCons.IH(1)) simp_all
      from found_in_suffix [OF this] have "found_in avoid key js q x (tokens_of (length b) v)" .
      then have "found_in avoid key js q x ([kt] @ tokens_of (length b) v @ member_tokens (length (b @ render v @ w4)) '','' ms)"
        by (rule found_in_wrap) (rule before)
      then show ?thesis unfolding ts by simp
    next
      case Blocked
      then show ?thesis using MCons.prems(3) False other by simp
    qed
  qed
next
  case ENil
  then show ?case by simp
next
  case (ECons w1 v w2 es)
  define b where "b = p @ sep @ w1"
  have js: "js = b @ render v @ w2 @ render_elements '','' es @ '']'' @ q" using ECons.prems(1) by (simp add: b_def)
  have ts: "element_tokens (length p) sep (ECons w1 v w2 es) =
      tokens_of (length b) v @ element_tokens (length (b @ render v @ w2)) '','' es"
    by (simp add: b_def Let_def add.assoc)
  show ?case
  proof (cases "seek avoid key v")
    case Absent
    then have "seek_elements avoid key es = Found x" using ECons.prems(3) by simp
    then have f: "found_in avoid key js q x (element_tokens (length (b @ render v @ w2)) '','' es)"
      using js ECons.prems(2) by (intro ECons.IH(2) [of "b @ render v @ w2" "'',''" q]) simp_all
    have "jsoneq js t y = Some False" if "t \<in> set (tokens_of (length b) v)" "y \<in> set (key # avoid)" for t y
      using that jsoneq_tokens(1) [OF js seek_absent(1) [OF Absent that(2)]] by auto
    then have "found_in avoid key js q x (tokens_of (length b) v @ element_tokens (length (b @ render v @ w2)) '','' es @ [])"
      by (rule found_in_wrap [OF f])
    then show ?thesis unfolding ts by simp
  next
    case (Found y)
    then have "found_in avoid key js ((w2 @ render_elements '','' es @ '']'') @ q) x (tokens_of (length b) v)"
      using js ECons.prems(2,3) by (intro ECons.IH(1)) simp_all
    from found_in_wrap [OF found_in_suffix [OF this], of "[]" "element_tokens (length (b @ render v @ w2)) '','' es"] show ?thesis unfolding ts by simp
  next
    case Blocked
    then show ?thesis using ECons.prems(3) by simp
  qed
qed

end
