(* ===== verification/ShadowRecords.thy ===== *)
theory ShadowRecords
  imports ShadowJson MqttYield
begin

text \<open>
  The records of the device shadow (\<open>aws_iot_shadow_records.c\<close>): the requests that wait for an answer, the topics
  subscribed for the answers, and the keys registered for delta messages. The static variables are a record in
  the world of the MQTT client, beside the variables of the application and the rest of the world, so that the
  two callbacks the library installs can be handlers of the client. Callbacks of the application are arguments. A name
  passed by pointer is the array it stands in; the strings the library prints are the text, without what an earlier one
  left behind the terminator. A topic is handed to the client as the text it has at this time.
\<close>

subsection \<open>Variables\<close>

definition MAX_SIZE_OF_UNIQUE_CLIENT_ID_BYTES :: nat where "MAX_SIZE_OF_UNIQUE_CLIENT_ID_BYTES = 80"
definition MAX_SIZE_CLIENT_ID_WITH_SEQUENCE :: nat where "MAX_SIZE_CLIENT_ID_WITH_SEQUENCE = 90"
definition MAX_SIZE_CLIENT_TOKEN_CLIENT_SEQUENCE :: nat where "MAX_SIZE_CLIENT_TOKEN_CLIENT_SEQUENCE = 110"
definition MAX_SIZE_OF_THING_NAME :: nat where "MAX_SIZE_OF_THING_NAME = 20"
definition MAX_SHADOW_TOPIC_LENGTH_BYTES :: nat where "MAX_SHADOW_TOPIC_LENGTH_BYTES = 80"
definition SHADOW_MAX_SIZE_OF_RX_BUFFER :: nat where "SHADOW_MAX_SIZE_OF_RX_BUFFER = 513"
definition MAX_ACKS_TO_COMEIN_AT_ANY_GIVEN_TIME :: nat where "MAX_ACKS_TO_COMEIN_AT_ANY_GIVEN_TIME = 10"
definition MAX_TOPICS_AT_ANY_GIVEN_TIME :: nat where "MAX_TOPICS_AT_ANY_GIVEN_TIME = 20"
definition SUBSCRIBE_SETTLING_TIME :: u32 where "SUBSCRIBE_SETTLING_TIME = 2"

datatype ShadowActions_t = SHADOW_GET | SHADOW_UPDATE | SHADOW_DELETE
datatype Shadow_Ack_Status_t = SHADOW_ACK_TIMEOUT | SHADOW_ACK_REJECTED | SHADOW_ACK_ACCEPTED
datatype ShadowAckTopicTypes_t = SHADOW_ACCEPTED | SHADOW_REJECTED | SHADOW_ACTION

record ToBeReceivedAckRecord_t =
  clientTokenID :: string
  ack_thingName :: string
  ack_action :: ShadowActions_t
  ack_callback :: "nat option"
  pCallbackContext :: nat
  ack_isFree :: bool
  ack_timer :: Timer

record SubscriptionRecord_t =
  Topic :: string
  sub_count :: u8
  sub_isFree :: bool
  isSticky :: bool

record JsonTokenTable_t =
  token_pStruct :: nat
  token_callback :: "nat option"
  token_isFree :: bool

record shadow_vars =
  AckWaitList :: "ToBeReceivedAckRecord_t list"
  SubscriptionList :: "SubscriptionRecord_t list"
  pMqttClient_set :: bool
  myThingName :: string
  mqttClientID :: string
  shadowDeltaTopic :: string
  deleteAcceptedTopic :: string
  shadowRxBuf :: string
  tokenTable :: "JsonTokenTable_t list"
  tokenTableIndex :: nat
  deltaTopicSubscribedFlag :: bool
  shadowJsonVersionNum :: u32
  shadowDiscardOldDeltaFlag :: bool
  clientTokenNum :: u32
  jsonTokenStruct :: "jsmntok_t list"

record 'w shadow_world =
  shadow :: shadow_vars
  app_structs :: "nat \<Rightarrow> jsonStruct"
  app_memory :: "nat \<Rightarrow> json_data"
  rest_of_world :: 'w

type_synonym 'w shadow_st = "'w shadow_world st"

record 'w shadow_app =
  action_callback ::
    "nat \<Rightarrow> string \<Rightarrow> ShadowActions_t \<Rightarrow> Shadow_Ack_Status_t \<Rightarrow> string \<Rightarrow> nat \<Rightarrow> 'w shadow_st \<Rightarrow> 'w shadow_st option"
  delta_callback :: "nat \<Rightarrow> string \<Rightarrow> u32 \<Rightarrow> nat \<Rightarrow> 'w shadow_st \<Rightarrow> 'w shadow_st option"
  floats :: float_lib

abbreviation sh :: "'w shadow_st \<Rightarrow> shadow_vars" where
  "sh s \<equiv> shadow (wd s)"

definition upd_shadow :: "(shadow_vars \<Rightarrow> shadow_vars) \<Rightarrow> 'w shadow_st \<Rightarrow> 'w shadow_st" where
  "upd_shadow f s = s\<lparr>wd := (wd s)\<lparr>shadow := f (shadow (wd s))\<rparr>\<rparr>"

lemma upd_shadow_simps [simp]:
  "cl (upd_shadow f s) = cl s" "tm (upd_shadow f s) = tm s" "sh (upd_shadow f s) = f (sh s)"
  "app_structs (wd (upd_shadow f s)) = app_structs (wd s)" "app_memory (wd (upd_shadow f s)) = app_memory (wd s)"
  "rest_of_world (wd (upd_shadow f s)) = rest_of_world (wd s)"
  by (simp_all add: upd_shadow_def)

definition upd_ack :: "nat \<Rightarrow> (ToBeReceivedAckRecord_t \<Rightarrow> ToBeReceivedAckRecord_t) \<Rightarrow> shadow_vars \<Rightarrow> shadow_vars" where
  "upd_ack i f v = v\<lparr>AckWaitList := (AckWaitList v)[i := f (AckWaitList v ! i)]\<rparr>"

definition upd_sub :: "nat \<Rightarrow> (SubscriptionRecord_t \<Rightarrow> SubscriptionRecord_t) \<Rightarrow> shadow_vars \<Rightarrow> shadow_vars" where
  "upd_sub i f v = v\<lparr>SubscriptionList := (SubscriptionList v)[i := f (SubscriptionList v ! i)]\<rparr>"

subsection \<open>Topics\<close>

definition action_text :: "ShadowActions_t \<Rightarrow> string" where
  "action_text a = (case a of SHADOW_GET \<Rightarrow> ''get'' | SHADOW_UPDATE \<Rightarrow> ''update'' | SHADOW_DELETE \<Rightarrow> ''delete'')"

definition ack_text :: "ShadowAckTopicTypes_t \<Rightarrow> string" where
  "ack_text t = (case t of SHADOW_ACCEPTED \<Rightarrow> ''/accepted'' | SHADOW_REJECTED \<Rightarrow> ''/rejected'' | SHADOW_ACTION \<Rightarrow> [])"

definition topicNameFromThingAndAction :: "string \<Rightarrow> ShadowActions_t \<Rightarrow> ShadowAckTopicTypes_t \<Rightarrow> string" where
  "topicNameFromThingAndAction pThingName action ackType = take (MAX_SHADOW_TOPIC_LENGTH_BYTES - 1)
     (''$aws/things/'' @ pThingName @ ''/shadow/'' @ action_text action @ ack_text ackType)"

definition chars_of :: "u8 list \<Rightarrow> string" where
  "chars_of bs = map (\<lambda>b. char_of (unat b)) bs"

text \<open>
  The handlers of the client the library installs, by number, and its calls of the client, which need the pointer stored
  when the shadow was connected.
\<close>

definition AckStatusCallback_id :: nat where "AckStatusCallback_id = 0"
definition shadow_delta_callback_id :: nat where "shadow_delta_callback_id = 1"

definition shadow_subscribe :: "'w shadow_world platform \<Rightarrow> string \<Rightarrow> nat \<Rightarrow> 'w shadow_st \<Rightarrow> (IoT_Error_t \<times> 'w shadow_st) option" where
  "shadow_subscribe P topic handler s =
     (if pMqttClient_set (sh s)
      then aws_iot_mqtt_subscribe P (Some (cstr (bytes_of topic))) (of_nat (length topic)) QOS0 (Some handler) 0 s
      else Some (NULL_VALUE_ERROR, s))"

definition shadow_unsubscribe :: "'w shadow_world platform \<Rightarrow> string \<Rightarrow> 'w shadow_st \<Rightarrow> (IoT_Error_t \<times> 'w shadow_st) option" where
  "shadow_unsubscribe P topic s =
     (if pMqttClient_set (sh s) then aws_iot_mqtt_unsubscribe P (Some (cstr (bytes_of topic))) (of_nat (length topic)) s
      else Some (NULL_VALUE_ERROR, s))"

subsection \<open>Registered keys\<close>

definition initDeltaTokens :: "shadow_vars \<Rightarrow> shadow_vars" where
  "initDeltaTokens v = v\<lparr>tokenTable := map (token_isFree_update (\<lambda>_. True)) (tokenTable v),
     tokenTableIndex := 0, deltaTopicSubscribedFlag := False\<rparr>"

definition delta_topic :: "string \<Rightarrow> string" where
  "delta_topic thing = take (MAX_SHADOW_TOPIC_LENGTH_BYTES - 1) (''$aws/things/'' @ thing @ ''/shadow/update/delta'')"

text \<open>The flag is set whatever the subscription returns.\<close>

definition subscribe_delta :: "'w shadow_world platform \<Rightarrow> 'w shadow_st \<Rightarrow> (IoT_Error_t \<times> 'w shadow_st) option" where
  "subscribe_delta P s =
     (if deltaTopicSubscribedFlag (sh s) then Some (SUCCESS, s)
      else let s = upd_shadow (\<lambda>v. v\<lparr>shadowDeltaTopic := delta_topic (myThingName v)\<rparr>) s in do {
        (rc, s) \<leftarrow> shadow_subscribe P (shadowDeltaTopic (sh s)) shadow_delta_callback_id s;
        Some (rc, upd_shadow (deltaTopicSubscribedFlag_update (\<lambda>_. True)) s)
      })"

definition register_token :: "nat \<Rightarrow> nat option \<Rightarrow> shadow_vars \<Rightarrow> shadow_vars" where
  "register_token a f v = v\<lparr>tokenTable := (tokenTable v)[tokenTableIndex v :=
       \<lparr>token_pStruct = a, token_callback = f, token_isFree = False\<rparr>], tokenTableIndex := tokenTableIndex v + 1\<rparr>"

definition registerJsonTokenOnDelta :: "'w shadow_world platform \<Rightarrow> nat \<Rightarrow> 'w shadow_st \<Rightarrow> (IoT_Error_t \<times> 'w shadow_st) option" where
  "registerJsonTokenOnDelta P pStruct s = do {
     (rc, s) \<leftarrow> subscribe_delta P s;
     if MAX_JSON_TOKEN_EXPECTED \<le> tokenTableIndex (sh s) then Some (FAILURE, s)
     else Some (rc, upd_shadow (register_token pStruct (cb (app_structs (wd s) pStruct))) s)
   }"

subsection \<open>Subscriptions\<close>

definition getNextFreeIndexOfSubscriptionList :: "'w shadow_st \<Rightarrow> nat option \<times> 'w shadow_st" where
  "getNextFreeIndexOfSubscriptionList s =
     (let i = length (takeWhile (\<lambda>r. \<not> sub_isFree r) (SubscriptionList (sh s))) in
      if i < MAX_TOPICS_AT_ANY_GIVEN_TIME then (Some i, upd_shadow (upd_sub i (sub_isFree_update (\<lambda>_. False))) s)
      else (None, s))"

definition subscribed :: "string \<Rightarrow> SubscriptionRecord_t \<Rightarrow> bool" where
  "subscribed topic r \<longleftrightarrow> \<not> sub_isFree r \<and> Topic r = topic"

definition findIndexOfSubscriptionList :: "string \<Rightarrow> shadow_vars \<Rightarrow> nat option" where
  "findIndexOfSubscriptionList topic v =
     (let i = length (takeWhile (\<lambda>r. \<not> subscribed topic r) (SubscriptionList v)) in
      if i < MAX_TOPICS_AT_ANY_GIVEN_TIME then Some i else None)"

definition isSubscriptionPresent :: "string \<Rightarrow> ShadowActions_t \<Rightarrow> shadow_vars \<Rightarrow> bool" where
  "isSubscriptionPresent thing action v =
     (list_ex (subscribed (topicNameFromThingAndAction thing action SHADOW_ACCEPTED)) (SubscriptionList v)
      \<and> list_ex (\<lambda>r. subscribed (topicNameFromThingAndAction thing action SHADOW_REJECTED) r
           \<and> Topic r \<noteq> topicNameFromThingAndAction thing action SHADOW_ACCEPTED) (SubscriptionList v))"

definition incrementSubscriptionCnt :: "string \<Rightarrow> ShadowActions_t \<Rightarrow> bool \<Rightarrow> shadow_vars \<Rightarrow> shadow_vars" where
  "incrementSubscriptionCnt thing action sticky v = v\<lparr>SubscriptionList := map (\<lambda>r.
     if subscribed (topicNameFromThingAndAction thing action SHADOW_ACCEPTED) r
        \<or> subscribed (topicNameFromThingAndAction thing action SHADOW_REJECTED) r
     then r\<lparr>sub_count := sub_count r + 1, isSticky := sticky\<rparr> else r) (SubscriptionList v)\<rparr>"

text \<open>The wait for the subscriptions to take effect polls a timer.\<close>

partial_function (option) settle :: "'w platform \<Rightarrow> Timer \<Rightarrow> 'w \<Rightarrow> 'w option" where
  "settle P t w = (let (e, t, w) = poll_timer P t w in if e then Some w else settle P t w)"

definition settle_subscriptions :: "'w platform \<Rightarrow> 'w st \<Rightarrow> 'w st option" where
  "settle_subscriptions P s = (let (t, s) = arm_sec P SUBSCRIBE_SETTLING_TIME s in do {
     w \<leftarrow> settle P t (wd s);
     Some (s\<lparr>wd := w\<rparr>)
   })"

text \<open>One topic of a pair: its name is stored, then subscribed; after success its count is one.\<close>

definition subscribe_slot ::
  "'w shadow_world platform \<Rightarrow> nat \<Rightarrow> string \<Rightarrow> bool \<Rightarrow> 'w shadow_st \<Rightarrow> (IoT_Error_t \<times> 'w shadow_st) option"
where
  "subscribe_slot P i topic sticky s = (let s = upd_shadow (upd_sub i (Topic_update (\<lambda>_. topic))) s in do {
     (rc, s) \<leftarrow> shadow_subscribe P (Topic (SubscriptionList (sh s) ! i)) AckStatusCallback_id s;
     Some (rc, if rc = SUCCESS then upd_shadow (upd_sub i (\<lambda>r. r\<lparr>sub_count := 1, isSticky := sticky\<rparr>)) s else s)
   })"

text \<open>
  After a failure both entries are freed. Whether the first topic is unsubscribed depends on a count that an earlier
  use of the entry may have left there. When only one entry is free the result stays \<open>SUCCESS\<close>.
\<close>

definition clear_entries :: "'w shadow_world platform \<Rightarrow> nat option \<Rightarrow> nat option \<Rightarrow> 'w shadow_st \<Rightarrow> 'w shadow_st option" where
  "clear_entries P accepted rejected s = do {
     s \<leftarrow> (case accepted of None \<Rightarrow> Some s | Some i \<Rightarrow>
        let s = upd_shadow (upd_sub i (sub_isFree_update (\<lambda>_. True))) s in
        if sub_count (SubscriptionList (sh s) ! i) = 1
        then map_option snd (shadow_unsubscribe P (Topic (SubscriptionList (sh s) ! i)) s) else Some s);
     Some (case rejected of None \<Rightarrow> s | Some j \<Rightarrow> upd_shadow (upd_sub j (sub_isFree_update (\<lambda>_. True))) s)
   }"

definition subscribe_pair ::
  "'w shadow_world platform \<Rightarrow> string \<Rightarrow> ShadowActions_t \<Rightarrow> bool \<Rightarrow> nat \<Rightarrow> nat \<Rightarrow> 'w shadow_st
     \<Rightarrow> (IoT_Error_t \<times> bool \<times> 'w shadow_st) option"
where
  "subscribe_pair P thing action sticky i j s = do {
     (rc, s) \<leftarrow> subscribe_slot P i (topicNameFromThingAndAction thing action SHADOW_ACCEPTED) sticky s;
     if rc \<noteq> SUCCESS then Some (rc, True, s)
     else do {
       (rc, s) \<leftarrow> subscribe_slot P j (topicNameFromThingAndAction thing action SHADOW_REJECTED) sticky s;
       if rc \<noteq> SUCCESS then Some (rc, True, s)
       else do { s \<leftarrow> settle_subscriptions P s; Some (rc, False, s) }
     }
   }"

definition subscribeToShadowActionAcks ::
  "'w shadow_world platform \<Rightarrow> string \<Rightarrow> ShadowActions_t \<Rightarrow> bool \<Rightarrow> 'w shadow_st \<Rightarrow> (IoT_Error_t \<times> 'w shadow_st) option"
where
  "subscribeToShadowActionAcks P thing action sticky s =
     (let (accepted, s) = getNextFreeIndexOfSubscriptionList s;
          (rejected, s) = getNextFreeIndexOfSubscriptionList s
      in do {
        (rc, clearBoth, s) \<leftarrow> (case (accepted, rejected) of
            (Some i, Some j) \<Rightarrow> subscribe_pair P thing action sticky i j s
          | _ \<Rightarrow> Some (SUCCESS, True, s));
        s \<leftarrow> (if clearBoth then clear_entries P accepted rejected s else Some s);
        Some (rc, s)
      })"

text \<open>One use of a topic less: the last one unsubscribes it, unless it is sticky.\<close>

definition release_topic :: "'w shadow_world platform \<Rightarrow> string \<Rightarrow> 'w shadow_st \<Rightarrow> 'w shadow_st option" where
  "release_topic P topic s = (case findIndexOfSubscriptionList topic (sh s) of
       None \<Rightarrow> Some s
     | Some k \<Rightarrow> let r = SubscriptionList (sh s) ! k in
         if \<not> isSticky r \<and> sub_count r = 1 then do {
           (rc, s) \<leftarrow> shadow_unsubscribe P topic s;
           Some (if rc = SUCCESS then upd_shadow (upd_sub k (sub_isFree_update (\<lambda>_. True))) s else s)
         }
         else if 1 < sub_count r then Some (upd_shadow (upd_sub k (\<lambda>r. r\<lparr>sub_count := sub_count r - 1\<rparr>)) s)
         else Some s)"

definition unsubscribeFromAcceptedAndRejected :: "'w shadow_world platform \<Rightarrow> nat \<Rightarrow> 'w shadow_st \<Rightarrow> 'w shadow_st option" where
  "unsubscribeFromAcceptedAndRejected P index s = (let r = AckWaitList (sh s) ! index in do {
     thing \<leftarrow> text_in (ack_thingName r);
     s \<leftarrow> release_topic P (topicNameFromThingAndAction thing (ack_action r) SHADOW_ACCEPTED) s;
     release_topic P (topicNameFromThingAndAction thing (ack_action r) SHADOW_REJECTED) s
   })"

definition initializeRecords :: "shadow_vars \<Rightarrow> shadow_vars" where
  "initializeRecords v = v\<lparr>
     AckWaitList := map (ack_isFree_update (\<lambda>_. True)) (AckWaitList v),
     SubscriptionList := map (\<lambda>r. r\<lparr>sub_isFree := True, sub_count := 0, isSticky := False\<rparr>) (SubscriptionList v),
     pMqttClient_set := True\<rparr>"

subsection \<open>Requests\<close>

text \<open>The fields of the message the code leaves uninitialised, which a publication without acknowledgement does not read,
  are zero.\<close>

definition publishToShadowAction ::
  "'w shadow_world platform \<Rightarrow> string \<Rightarrow> ShadowActions_t \<Rightarrow> string \<Rightarrow> 'w shadow_st \<Rightarrow> (IoT_Error_t \<times> 'w shadow_st) option"
where
  "publishToShadowAction P thing action doc s =
     (let topic = topicNameFromThingAndAction thing action SHADOW_ACTION in
      if pMqttClient_set (sh s)
      then aws_iot_mqtt_publish P (Some (cstr (bytes_of topic))) (of_nat (length topic))
        (Some \<lparr>msg_qos = QOS0, msg_isRetained = 0, msg_isDup = 0, msg_id = 0,
          msg_payload = Some (cstr (bytes_of doc)), msg_payloadLen = of_nat (length doc)\<rparr>) s
      else Some (NULL_VALUE_ERROR, s))"

definition getNextFreeIndexOfAckWaitList :: "shadow_vars \<Rightarrow> nat option" where
  "getNextFreeIndexOfAckWaitList v =
     (let i = length (takeWhile (\<lambda>r. \<not> ack_isFree r) (AckWaitList v)) in
      if i < MAX_ACKS_TO_COMEIN_AT_ANY_GIVEN_TIME then Some i else None)"

text \<open>The name is copied with the size of the entry, whatever the size of the array it stands in.\<close>

definition addToAckWaitList ::
  "'w shadow_world platform \<Rightarrow> nat \<Rightarrow> string \<Rightarrow> ShadowActions_t \<Rightarrow> string \<Rightarrow> nat option \<Rightarrow> nat \<Rightarrow> u32 \<Rightarrow>
   'w shadow_st \<Rightarrow> 'w shadow_st option"
where
  "addToAckWaitList P index pThingName action token callback ctx timeout s =
     (if length pThingName < MAX_SIZE_OF_THING_NAME then None
      else let (t, s) = arm_sec P timeout s in
        Some (upd_shadow (upd_ack index (\<lambda>_.
          \<lparr>clientTokenID = token, ack_thingName = take MAX_SIZE_OF_THING_NAME pThingName, ack_action = action,
           ack_callback = callback, pCallbackContext = ctx, ack_isFree = False, ack_timer = t\<rparr>)) s))"

text \<open>The callback of a request, on the timer of nobody.\<close>

definition run_action_callback ::
  "'w shadow_app \<Rightarrow> nat \<Rightarrow> Shadow_Ack_Status_t \<Rightarrow> 'w shadow_st \<Rightarrow> 'w shadow_st option"
where
  "run_action_callback A i status s = (let r = AckWaitList (sh s) ! i in
     case ack_callback r of
       None \<Rightarrow> Some s
     | Some f \<Rightarrow> do {
         s' \<leftarrow> action_callback A f (ack_thingName r) (ack_action r) status (shadowRxBuf (sh s)) (pCallbackContext r) s;
         Some (s'\<lparr>tm := tm s\<rparr>)
       })"

definition poll_ack_timer :: "'w shadow_world platform \<Rightarrow> nat \<Rightarrow> 'w shadow_st \<Rightarrow> bool \<times> 'w shadow_st" where
  "poll_ack_timer P i s =
     (let (e, t, w) = poll_timer P (ack_timer (AckWaitList (sh s) ! i)) (wd s) in
      (e, upd_shadow (upd_ack i (ack_timer_update (\<lambda>_. t))) (s\<lparr>wd := w\<rparr>)))"

fun expire_loop :: "'w shadow_world platform \<Rightarrow> 'w shadow_app \<Rightarrow> nat list \<Rightarrow> 'w shadow_st \<Rightarrow> 'w shadow_st option" where
  "expire_loop P A [] s = Some s"
| "expire_loop P A (i # is) s =
     (if ack_isFree (AckWaitList (sh s) ! i) then expire_loop P A is s
      else let (e, s) = poll_ack_timer P i s in
        if \<not> e then expire_loop P A is s
        else do {
          s \<leftarrow> run_action_callback A i SHADOW_ACK_TIMEOUT s;
          s \<leftarrow> unsubscribeFromAcceptedAndRejected P i (upd_shadow (upd_ack i (ack_isFree_update (\<lambda>_. True))) s);
          expire_loop P A is s
        })"

definition HandleExpiredResponseCallbacks :: "'w shadow_world platform \<Rightarrow> 'w shadow_app \<Rightarrow> 'w shadow_st \<Rightarrow> 'w shadow_st option" where
  "HandleExpiredResponseCallbacks P A s = expire_loop P A [0..<MAX_ACKS_TO_COMEIN_AT_ANY_GIVEN_TIME] s"

subsection \<open>Received documents\<close>

text \<open>
  The topic is passed as a pointer into the receive buffer, without a terminator: the string that begins there goes on
  into the payload.
\<close>

definition topic_text :: "publish_view \<Rightarrow> 'w shadow_st \<Rightarrow> string option" where
  "topic_text msg s = text_in (chars_of (drop (in_topic msg) (readBuf (cl s))))"

definition isValidShadowVersionUpdate :: "string \<Rightarrow> string \<Rightarrow> bool" where
  "isValidShadowVersionUpdate thing topic \<longleftrightarrow>
     strstr topic thing \<noteq> None \<and> (strstr topic ''get/accepted'' \<noteq> None \<or> strstr topic ''delta'' \<noteq> None)"

text \<open>The start of both callbacks: copy the payload, terminate and parse it.\<close>

definition receive_document :: "publish_view \<Rightarrow> 'w shadow_st \<Rightarrow> (int option \<times> 'w shadow_st) option" where
  "receive_document msg s =
     (let n = unat (in_payloadLen msg) in
      if SHADOW_MAX_SIZE_OF_RX_BUFFER \<le> n then Some (None, s)
      else do {
        bs \<leftarrow> mem_read (Some (drop (in_payload msg) (readBuf (cl s)))) n;
        let s = upd_shadow (\<lambda>v. v\<lparr>shadowRxBuf := chars_of bs @ NUL # drop (n + 1) (shadowRxBuf v)\<rparr>) s;
        (r, ts) \<leftarrow> isJsonValidAndParse (shadowRxBuf (sh s)) SHADOW_MAX_SIZE_OF_RX_BUFFER (jsonTokenStruct (sh s));
        Some (r, upd_shadow (jsonTokenStruct_update (\<lambda>_. ts)) s)
      })"

fun complete_request ::
  "'w shadow_world platform \<Rightarrow> 'w shadow_app \<Rightarrow> publish_view \<Rightarrow> string \<Rightarrow> nat list \<Rightarrow> 'w shadow_st \<Rightarrow> 'w shadow_st option"
where
  "complete_request P A msg token [] s = Some s"
| "complete_request P A msg token (i # is) s =
     (let r = AckWaitList (sh s) ! i in
      if ack_isFree r \<or> clientTokenID r \<noteq> token then complete_request P A msg token is s
      else do {
        topic \<leftarrow> topic_text msg s;
        s \<leftarrow> run_action_callback A i
               (if strstr topic ''accepted'' \<noteq> None then SHADOW_ACK_ACCEPTED else SHADOW_ACK_REJECTED) s;
        s \<leftarrow> unsubscribeFromAcceptedAndRejected P i s;
        Some (upd_shadow (upd_ack i (ack_isFree_update (\<lambda>_. True))) s)
      })"

text \<open>An accepted get also carries a version, kept if it is newer.\<close>

definition update_version :: "int \<Rightarrow> 'w shadow_st \<Rightarrow> 'w shadow_st option" where
  "update_version tokenCount s = do {
     v \<leftarrow> extractVersionNumber (shadowRxBuf (sh s)) (jsonTokenStruct (sh s)) tokenCount;
     Some (case v of
         None \<Rightarrow> s
       | Some v \<Rightarrow> if shadowJsonVersionNum (sh s) < v then upd_shadow (shadowJsonVersionNum_update (\<lambda>_. v)) s else s)
   }"

definition AckStatusCallback ::
  "'w shadow_world platform \<Rightarrow> 'w shadow_app \<Rightarrow> publish_view \<Rightarrow> 'w shadow_st \<Rightarrow> 'w shadow_st option"
where
  "AckStatusCallback P A msg s = do {
     (tokenCount, s) \<leftarrow> receive_document msg s;
     case tokenCount of
       None \<Rightarrow> Some s
     | Some tokenCount \<Rightarrow> do {
         topic \<leftarrow> topic_text msg s;
         s \<leftarrow> (if isValidShadowVersionUpdate (myThingName (sh s)) topic then update_version tokenCount s else Some s);
         (token, ts) \<leftarrow> extractClientToken (shadowRxBuf (sh s)) SHADOW_MAX_SIZE_OF_RX_BUFFER (jsonTokenStruct (sh s))
                          MAX_SIZE_CLIENT_TOKEN_CLIENT_SEQUENCE;
         let s = upd_shadow (jsonTokenStruct_update (\<lambda>_. ts)) s;
         case token of
           None \<Rightarrow> Some s
         | Some token \<Rightarrow> complete_request P A msg token [0..<MAX_ACKS_TO_COMEIN_AT_ANY_GIVEN_TIME] s
       }
   }"

text \<open>The keys registered, in order; a callback may register more.\<close>

definition deliver_key :: "'w shadow_app \<Rightarrow> int \<Rightarrow> JsonTokenTable_t \<Rightarrow> 'w shadow_st \<Rightarrow> 'w shadow_st option" where
  "deliver_key A tokenCount e s = do {
     (r, m) \<leftarrow> isJsonKeyMatchingAndUpdateValue (floats A) (shadowRxBuf (sh s)) (jsonTokenStruct (sh s)) tokenCount
                 (app_structs (wd s) (token_pStruct e)) (app_memory (wd s));
     let s = s\<lparr>wd := (wd s)\<lparr>app_memory := m\<rparr>\<rparr>;
     case r of
       None \<Rightarrow> Some s
     | Some (position, len) \<Rightarrow> (case token_callback e of
           None \<Rightarrow> Some s
         | Some f \<Rightarrow> if position < 0 then None
             else do {
               s' \<leftarrow> delta_callback A f (drop (nat position) (shadowRxBuf (sh s))) len (token_pStruct e) s;
               Some (s'\<lparr>tm := tm s\<rparr>)
             })
   }"

function delta_loop :: "'w shadow_app \<Rightarrow> int \<Rightarrow> nat \<Rightarrow> 'w shadow_st \<Rightarrow> 'w shadow_st option" where
  "delta_loop A tokenCount i s =
     (if tokenTableIndex (sh s) \<le> i then Some s
      else if MAX_JSON_TOKEN_EXPECTED \<le> i then None
      else let e = tokenTable (sh s) ! i in do {
        s \<leftarrow> (if token_isFree e then Some s else deliver_key A tokenCount e s);
        delta_loop A tokenCount (i + 1) s
      })"
  by pat_completeness auto
termination
  by (relation "measure (\<lambda>(A, n, i, s). MAX_JSON_TOKEN_EXPECTED - i)") auto

declare delta_loop.simps [simp del]

text \<open>Whether the message is to be used, after the version has been compared.\<close>

definition accept_delta :: "int \<Rightarrow> 'w shadow_st \<Rightarrow> (bool \<times> 'w shadow_st) option" where
  "accept_delta tokenCount s =
     (if \<not> shadowDiscardOldDeltaFlag (sh s) then Some (True, s)
      else do {
        v \<leftarrow> extractVersionNumber (shadowRxBuf (sh s)) (jsonTokenStruct (sh s)) tokenCount;
        Some (case v of
            None \<Rightarrow> (True, s)
          | Some v \<Rightarrow> if shadowJsonVersionNum (sh s) < v
              then (True, upd_shadow (shadowJsonVersionNum_update (\<lambda>_. v)) s) else (False, s))
      })"

definition shadow_delta_callback :: "'w shadow_app \<Rightarrow> publish_view \<Rightarrow> 'w shadow_st \<Rightarrow> 'w shadow_st option" where
  "shadow_delta_callback A msg s = do {
     (tokenCount, s) \<leftarrow> receive_document msg s;
     case tokenCount of
       None \<Rightarrow> Some s
     | Some tokenCount \<Rightarrow> do {
         (newer, s) \<leftarrow> accept_delta tokenCount s;
         if newer then delta_loop A tokenCount 0 s else Some s
       }
   }"

end
