(* ===== verification/Shadow.thy ===== *)
theory Shadow
  imports ShadowRecords
begin

text \<open>
  The calls of the device shadow (\<open>aws_iot_shadow.c\<close>, \<open>aws_iot_shadow_actions.c\<close>), and the platform of a client that
  has the library's callbacks installed. The client pointer is never null.
\<close>

subsection \<open>Versions\<close>

definition aws_iot_shadow_reset_last_received_version :: "shadow_vars \<Rightarrow> shadow_vars" where
  "aws_iot_shadow_reset_last_received_version v = v\<lparr>shadowJsonVersionNum := 0\<rparr>"

definition aws_iot_shadow_get_last_received_version :: "shadow_vars \<Rightarrow> u32" where
  "aws_iot_shadow_get_last_received_version v = shadowJsonVersionNum v"

definition aws_iot_shadow_enable_discard_old_delta_msgs :: "shadow_vars \<Rightarrow> shadow_vars" where
  "aws_iot_shadow_enable_discard_old_delta_msgs v = v\<lparr>shadowDiscardOldDeltaFlag := True\<rparr>"

definition aws_iot_shadow_disable_discard_old_delta_msgs :: "shadow_vars \<Rightarrow> shadow_vars" where
  "aws_iot_shadow_disable_discard_old_delta_msgs v = v\<lparr>shadowDiscardOldDeltaFlag := False\<rparr>"

definition resetClientTokenSequenceNum :: "shadow_vars \<Rightarrow> shadow_vars" where
  "resetClientTokenSequenceNum v = v\<lparr>clientTokenNum := 0\<rparr>"

subsection \<open>Life cycle\<close>

record ShadowInitParameters_t =
  pHost :: pointer
  shadow_port :: u16
  pRootCA :: pointer
  pClientCRT :: pointer
  pClientKey :: pointer
  shadow_enableAutoReconnect :: bool
  shadow_disconnectHandler :: "nat option"

definition shadow_mqtt_init_params :: "ShadowInitParameters_t \<Rightarrow> IoT_Client_Init_Params" where
  "shadow_mqtt_init_params p =
     \<lparr>enableAutoReconnect = shadow_enableAutoReconnect p, pHostURL = pHost p, port = shadow_port p,
      pRootCALocation = pRootCA p, pDeviceCertLocation = pClientCRT p, pDevicePrivateKeyLocation = pClientKey p,
      mqttPacketTimeout_ms = 5000, mqttCommandTimeout_ms = 20000, tlsHandshakeTimeout_ms = 5000,
      isSSLHostnameVerify = True, init_disconnectHandler = shadow_disconnectHandler p, init_disconnectHandlerData = 0,
      init_isBlockOnThreadLockEnabled = False\<rparr>"

definition aws_iot_shadow_init ::
  "'w shadow_world platform \<Rightarrow> ShadowInitParameters_t option \<Rightarrow> 'w shadow_st \<Rightarrow> IoT_Error_t \<times> 'w shadow_st"
where
  "aws_iot_shadow_init P pParams s = (case pParams of
       None \<Rightarrow> (NULL_VALUE_ERROR, s)
     | Some p \<Rightarrow> let (rc, s) = aws_iot_mqtt_init P (shadow_mqtt_init_params p) s in
         if rc \<noteq> SUCCESS then (rc, s)
         else (SUCCESS, upd_shadow
           (initDeltaTokens \<circ> aws_iot_shadow_reset_last_received_version \<circ> resetClientTokenSequenceNum) s))"

definition aws_iot_shadow_free :: "'w shadow_world platform \<Rightarrow> 'w shadow_st \<Rightarrow> IoT_Error_t \<times> 'w shadow_st" where
  "aws_iot_shadow_free P s = aws_iot_mqtt_free P s"

record ShadowConnectParameters_t =
  pMyThingName :: "string option"
  pMqttClientId :: "string option"
  mqttClientIdLen :: u16
  deleteActionHandler :: "nat option"

text \<open>The handler of deletions is called with the address of the name of the thing, numbered here.\<close>

definition myThingName_address :: nat where "myThingName_address = 1"

definition delete_accepted_topic :: "string \<Rightarrow> string" where
  "delete_accepted_topic thing =
     take (MAX_SHADOW_TOPIC_LENGTH_BYTES - 1) (''$aws/things/'' @ thing @ ''/shadow/delete/accepted'')"

definition shadow_connect_params :: "string \<Rightarrow> u16 \<Rightarrow> IoT_Client_Connect_Params" where
  "shadow_connect_params clientId len = default_connect_params
     \<lparr>keepAliveIntervalInSec := 600, MQTTVersion := MQTT_3_1_1, isCleanSession := True, isWillMsgPresent := False,
      pClientID := Some (bytes_of clientId), clientIDLen := len, pPassword := None, pUsername := None\<rparr>"

definition aws_iot_shadow_connect ::
  "'w shadow_world platform \<Rightarrow> ShadowConnectParameters_t option \<Rightarrow> 'w shadow_st \<Rightarrow> (IoT_Error_t \<times> 'w shadow_st) option"
where
  "aws_iot_shadow_connect P pParams s = (case pParams of
       None \<Rightarrow> Some (NULL_VALUE_ERROR, s)
     | Some p \<Rightarrow> (case pMqttClientId p of
         None \<Rightarrow> Some (NULL_VALUE_ERROR, s)
       | Some clientId \<Rightarrow> do {
           thing \<leftarrow> Option.bind (pMyThingName p) text_in;
           ident \<leftarrow> text_in clientId;
           let s = upd_shadow (\<lambda>v. v\<lparr>myThingName := take (MAX_SIZE_OF_THING_NAME - 1) thing,
                       mqttClientID := take (MAX_SIZE_OF_UNIQUE_CLIENT_ID_BYTES - 1) ident\<rparr>) s;
           (rc, s) \<leftarrow> aws_iot_mqtt_connect P (Some (shadow_connect_params clientId (mqttClientIdLen p))) s;
           if rc \<noteq> SUCCESS then Some (rc, s)
           else let s = upd_shadow initializeRecords s in
             if deleteActionHandler p = None then Some (rc, s)
             else let s = upd_shadow (\<lambda>v. v\<lparr>deleteAcceptedTopic := delete_accepted_topic (myThingName v)\<rparr>) s;
                      topic = deleteAcceptedTopic (sh s)
               in aws_iot_mqtt_subscribe P (Some (cstr (bytes_of topic))) (of_nat (length topic)) QOS1
                    (deleteActionHandler p) myThingName_address s
         }))"

definition aws_iot_shadow_register_delta ::
  "'w shadow_world platform \<Rightarrow> nat option \<Rightarrow> 'w shadow_st \<Rightarrow> (IoT_Error_t \<times> 'w shadow_st) option"
where
  "aws_iot_shadow_register_delta P pStruct s = (case pStruct of
       None \<Rightarrow> Some (NULL_VALUE_ERROR, s)
     | Some a \<Rightarrow> if \<not> is_client_connected (cl s) then Some (MQTT_CONNECTION_ERROR, s)
         else registerJsonTokenOnDelta P a s)"

definition aws_iot_shadow_yield ::
  "'w shadow_world platform \<Rightarrow> 'w shadow_app \<Rightarrow> u32 \<Rightarrow> 'w shadow_st \<Rightarrow> (IoT_Error_t \<times> 'w shadow_st) option"
where
  "aws_iot_shadow_yield P A timeout s = do {
     s \<leftarrow> HandleExpiredResponseCallbacks P A s;
     aws_iot_mqtt_yield P timeout s
   }"

definition aws_iot_shadow_disconnect :: "'w shadow_world platform \<Rightarrow> 'w shadow_st \<Rightarrow> (IoT_Error_t \<times> 'w shadow_st) option" where
  "aws_iot_shadow_disconnect P s = aws_iot_mqtt_disconnect P s"

definition aws_iot_shadow_set_autoreconnect_status :: "bool \<Rightarrow> 'w shadow_st \<Rightarrow> IoT_Error_t \<times> 'w shadow_st" where
  "aws_iot_shadow_set_autoreconnect_status newStatus s = (SUCCESS, upd (autoreconnect_set_status newStatus) s)"

subsection \<open>Requests\<close>

text \<open>The subscription of a request with a token and a callback, and the place in the list of those that wait.\<close>

definition prepare_answer ::
  "'w shadow_world platform \<Rightarrow> string \<Rightarrow> ShadowActions_t \<Rightarrow> bool \<Rightarrow> 'w shadow_st \<Rightarrow>
   (IoT_Error_t \<times> nat option \<times> 'w shadow_st) option"
where
  "prepare_answer P pThingName action sticky s = (case getNextFreeIndexOfAckWaitList (sh s) of
       None \<Rightarrow> Some (FAILURE, None, s)
     | Some i \<Rightarrow> do {
         thing \<leftarrow> text_in pThingName;
         if \<not> isSubscriptionPresent thing action (sh s) then do {
           (rc, s) \<leftarrow> subscribeToShadowActionAcks P thing action sticky s;
           Some (rc, Some i, s)
         }
         else Some (SUCCESS, Some i, upd_shadow (incrementSubscriptionCnt thing action sticky) s)
       })"

text \<open>The document is the array it stands in; the code goes on with the index found before subscribing.\<close>

definition aws_iot_shadow_internal_action ::
  "'w shadow_world platform \<Rightarrow> string option \<Rightarrow> ShadowActions_t \<Rightarrow> string option \<Rightarrow> nat \<Rightarrow> nat option \<Rightarrow> nat \<Rightarrow> u32 \<Rightarrow>
   bool \<Rightarrow> 'w shadow_st \<Rightarrow> (IoT_Error_t \<times> 'w shadow_st) option"
where
  "aws_iot_shadow_internal_action P pThingName action pJson jsonSize callback ctx timeout sticky s =
     (case (pThingName, pJson) of
        (Some name, Some js) \<Rightarrow> do {
          (token, ts) \<leftarrow> extractClientToken js jsonSize (jsonTokenStruct (sh s)) MAX_SIZE_CLIENT_ID_WITH_SEQUENCE;
          let s = upd_shadow (jsonTokenStruct_update (\<lambda>_. ts)) s;
          (rc, index, s) \<leftarrow> (if token \<noteq> None \<and> callback \<noteq> None then prepare_answer P name action sticky s
                             else Some (SUCCESS, None, s));
          if rc \<noteq> SUCCESS then Some (rc, s)
          else do {
            thing \<leftarrow> text_in name;
            doc \<leftarrow> text_in js;
            (rc, s) \<leftarrow> publishToShadowAction P thing action doc s;
            if rc \<noteq> SUCCESS then Some (rc, s)
            else case (token, index) of
              (Some token, Some i) \<Rightarrow> do {
                s \<leftarrow> addToAckWaitList P i name action token callback ctx timeout s;
                Some (SUCCESS, s)
              }
            | _ \<Rightarrow> Some (SUCCESS, s)
          }
        }
      | _ \<Rightarrow> Some (NULL_VALUE_ERROR, s))"

text \<open>The document of an update is the caller's. Its length is taken first, so it may not be null.\<close>

definition aws_iot_shadow_update ::
  "'w shadow_world platform \<Rightarrow> string option \<Rightarrow> string option \<Rightarrow> nat option \<Rightarrow> nat \<Rightarrow> u8 \<Rightarrow> bool \<Rightarrow> 'w shadow_st \<Rightarrow>
   (IoT_Error_t \<times> 'w shadow_st) option"
where
  "aws_iot_shadow_update P pThingName pJsonString callback ctx timeout_seconds persistent s =
     (if \<not> is_client_connected (cl s) then Some (MQTT_CONNECTION_ERROR, s)
      else do {
        doc \<leftarrow> Option.bind pJsonString text_in;
        aws_iot_shadow_internal_action P pThingName SHADOW_UPDATE pJsonString (length doc) callback ctx
          (ucast timeout_seconds) persistent s
      })"

text \<open>
  A get or delete request builds its document in an array on the stack. What stands in the array behind the terminator
  is never looked at; here it is zero.
\<close>

definition request_with_token ::
  "(string \<Rightarrow> u32 \<Rightarrow> nat \<Rightarrow> nat \<Rightarrow> string \<Rightarrow> (IoT_Error_t \<times> string \<times> u32) option) \<Rightarrow> ShadowActions_t \<Rightarrow>
   'w shadow_world platform \<Rightarrow> string option \<Rightarrow> nat option \<Rightarrow> nat \<Rightarrow> u8 \<Rightarrow> bool \<Rightarrow> 'w shadow_st \<Rightarrow>
   (IoT_Error_t \<times> 'w shadow_st) option"
where
  "request_with_token build action P pThingName callback ctx timeout_seconds persistent s =
     (if \<not> is_client_connected (cl s) then Some (MQTT_CONNECTION_ERROR, s)
      else do {
        (rc, doc, num) \<leftarrow> build (mqttClientID (sh s)) (clientTokenNum (sh s)) MAX_SIZE_CLIENT_TOKEN_CLIENT_SEQUENCE
                            MAX_SIZE_CLIENT_TOKEN_CLIENT_SEQUENCE [];
        let s = upd_shadow (clientTokenNum_update (\<lambda>_. num)) s;
        if rc \<noteq> SUCCESS then Some (rc, s)
        else aws_iot_shadow_internal_action P pThingName action
               (Some (doc @ replicate (MAX_SIZE_CLIENT_TOKEN_CLIENT_SEQUENCE - length doc) NUL))
               MAX_SIZE_CLIENT_TOKEN_CLIENT_SEQUENCE callback ctx (ucast timeout_seconds) persistent s
      })"

definition aws_iot_shadow_get ::
  "'w shadow_world platform \<Rightarrow> string option \<Rightarrow> nat option \<Rightarrow> nat \<Rightarrow> u8 \<Rightarrow> bool \<Rightarrow> 'w shadow_st \<Rightarrow>
   (IoT_Error_t \<times> 'w shadow_st) option"
where
  "aws_iot_shadow_get = request_with_token aws_iot_shadow_internal_get_request_json SHADOW_GET"

definition aws_iot_shadow_delete ::
  "'w shadow_world platform \<Rightarrow> string option \<Rightarrow> nat option \<Rightarrow> nat \<Rightarrow> u8 \<Rightarrow> bool \<Rightarrow> 'w shadow_st \<Rightarrow>
   (IoT_Error_t \<times> 'w shadow_st) option"
where
  "aws_iot_shadow_delete = request_with_token aws_iot_shadow_internal_delete_request_json SHADOW_DELETE"

subsection \<open>The callbacks as handlers\<close>

text \<open>
  The client calls the library's callbacks by their numbers. While one waits for the answer to an unsubscription, the
  client may deliver the next message, so they nest; the number bounds the depth of the stack, behind which the
  result is undefined.
\<close>

fun with_shadow :: "nat \<Rightarrow> 'w shadow_app \<Rightarrow> 'w shadow_world platform \<Rightarrow> 'w shadow_world platform" where
  "with_shadow 0 A P = P\<lparr>message_handler := (\<lambda>f d msg s.
     if f = AckStatusCallback_id \<or> f = shadow_delta_callback_id then None else message_handler P f d msg s)\<rparr>"
| "with_shadow (Suc n) A P = P\<lparr>message_handler := (\<lambda>f d msg s.
     if f = AckStatusCallback_id then AckStatusCallback (with_shadow n A P) A msg s
     else if f = shadow_delta_callback_id then shadow_delta_callback A msg s
     else message_handler P f d msg s)\<rparr>"

end
