(* ===== verification/ShadowProperties.thy ===== *)
theory ShadowProperties
  imports ShadowDocuments Shadow JsmnProperties
begin

text \<open>
  What the device shadow does with documents: the ones it builds are the JSON text intended and give back their
  client token, received ones update the variables registered, and the version only grows.
\<close>

subsection \<open>Parsing\<close>

lemma parse_document_object:
  assumes js: "take len js = render (JObject w ms) @ rest" "len \<le> length js" and ok: "json_ok (JObject w ms)"
    and rest: "text_ends rest" and few: "token_count (JObject w ms) \<le> MAX_JSON_TOKEN_EXPECTED"
    and ts: "length ts = MAX_JSON_TOKEN_EXPECTED"
  shows "parse_document js len ts = Some (Some (int (token_count (JObject w ms))),
    tokens_of 0 (JObject w ms) @ drop (token_count (JObject w ms)) ts)"
proof -
  define v where "v = JObject w ms"
  have t: "take len js = [] @ render v @ [] @ rest" using js by (simp add: v_def)
  have len: "length (take len js) = len" using js(2) by simp
  have "jsmn_parse jsmn_init (take len js) (length (take len js)) (Some ts) MAX_JSON_TOKEN_EXPECTED =
      Some (int (token_count v), \<lparr>pos = length ([] @ render v @ []), toknext = token_count v, toksuper = -1\<rparr>,
        Some (tokens_of (length ([] :: string)) v @ drop (token_count v) ts))"
    by (rule jsmn_parse_value [OF t]) (use ok rest few ts in \<open>simp_all add: v_def\<close>)
  then have "jsmn_parse jsmn_init js len (Some ts) MAX_JSON_TOKEN_EXPECTED =
      Some (int (token_count v), \<lparr>pos = length (render v), toknext = token_count v, toksuper = -1\<rparr>,
        Some (tokens_of 0 v @ drop (token_count v) ts))"
    unfolding len by (subst jsmn_parse_take) simp
  then show ?thesis unfolding v_def [symmetric] by (simp add: parse_document_def tok_at_def v_def mk_token_def)
qed

definition unescaped :: "string \<Rightarrow> bool" where
  "unescaped s \<longleftrightarrow> (\<forall>c \<in> set s. c \<noteq> BACKSLASH \<and> c \<noteq> DQUOTE \<and> c \<noteq> NUL)"

lemma plain_string_text: "unescaped s \<Longrightarrow> string_text s"
  by (induction s) (auto simp: unescaped_def)

lemma plain_append [simp]: "unescaped (s @ t) \<longleftrightarrow> unescaped s \<and> unescaped t"
  by (auto simp: unescaped_def)

lemma plain_show_int: "unescaped (show_int z)"
  using show_int_chars [of _ z] by (fastforce simp: unescaped_def is_digit_def)

lemma plain_client_token: "unescaped clientID \<Longrightarrow> unescaped (client_token clientID num)"
  using plain_show_int [of "sint num"] by (auto simp: client_token_def unescaped_def)

lemma length_client_token: "length (client_token clientID num) \<le> length clientID + 12"
proof -
  have "- (2 ^ 31) \<le> sint num" "sint num < 2 ^ 31" using sint_greater_eq [of num] sint_less [of num] by simp_all
  then have "nat \<bar>sint num\<bar> < 10 ^ 10" by (auto simp: abs_if)
  then have "length (show_nat (nat \<bar>sint num\<bar>)) \<le> 10" by (rule length_show_nat) simp
  then show ?thesis by (auto simp: client_token_def show_int_def abs_if split: if_splits)
qed

text \<open>A token that is a string is copied if it fits with its terminator.\<close>

lemma copy_client_token_string:
  assumes "js = p @ s @ q" and "unescaped s" and "0 < bound"
  shows "copy_client_token js (mk_token JSMN_STRING (length p) (length s) k) bound = Some (if length s < bound then Some s else None)"
proof -
  have "NUL \<notin> set s" using assms(2) by (auto simp: unescaped_def)
  then have "takeWhile (\<lambda>c. c \<noteq> NUL) s = s" by (intro takeWhile_eq_all_conv [THEN iffD2]) auto
  then show ?thesis using assms(1) by (auto simp: copy_client_token_def mk_token_def copy_chars_def Let_def)
qed

lemma extractClientToken_found:
  assumes parse: "parse_document js len ts = Some (Some (int n), t0 # pre @ kt # vt # post)"
    and before: "\<And>t. t \<in> set pre \<Longrightarrow> jsoneq js t SHADOW_CLIENT_TOKEN_STRING = Some False"
    and key: "jsoneq js kt SHADOW_CLIENT_TOKEN_STRING = Some True" and n: "1 + length pre < n"
    and copy: "copy_client_token js vt bound = Some r"
  shows "extractClientToken js len ts bound = Some (r, t0 # pre @ kt # vt # post)"
proof -
  have "first_key js ([t0] @ pre @ kt # vt # post) SHADOW_CLIENT_TOKEN_STRING [1..<n] = Some (Some (1 + length pre))"
    by (rule first_key_found) (use before key n in simp_all)
  then show ?thesis using copy by (simp add: extractClientToken_def parse tok_at_def nth_append)
qed

subsection \<open>Documents that are built\<close>

definition request_document :: "string \<Rightarrow> json" where
  "request_document token = JObject [] (MCons [] SHADOW_CLIENT_TOKEN_STRING [] [] (JString token) [] MNil)"

lemma empty_json_text:
  assumes "length clientID < MAX_SIZE_OF_UNIQUE_CLIENT_ID_BYTES"
  shows "emptyJsonWithClientToken clientID num MAX_SIZE_CLIENT_TOKEN_CLIENT_SEQUENCE MAX_SIZE_CLIENT_TOKEN_CLIENT_SEQUENCE old =
    Some (SUCCESS, render (request_document (client_token clientID num)), num + 1)"
proof -
  define token where "token = client_token clientID num"
  define start where "start = CHR ''{'' # DQUOTE # ''clientToken'' @ DQUOTE # CHR '':'' # [DQUOTE]"
  have len: "length token < 92" and l: "length start = 16"
    using length_client_token [of clientID num] assms by (simp_all add: token_def start_def MAX_SIZE_OF_UNIQUE_CLIENT_ID_BYTES_def)
  have r: "render (request_document token) = (start @ token) @ DQUOTE # ''}''"
    by (simp add: request_document_def start_def json_quoted_def SHADOW_CLIENT_TOKEN_STRING_def)
  have s1: "snprintf_at 110 old 0 110 start = Some (16, start)"
    using l by (simp add: snprintf_at_def Let_def)
  have s2: "FillWithClientTokenSize clientID num 110 start 16 94 = Some (int (length token), start @ token, num + 1)"
    using len l by (simp add: FillWithClientTokenSize_def snprintf_at_def Let_def token_def [symmetric])
  have s3: "snprintf_at 110 (start @ token) (16 + length token) (110 - (16 + length token)) (DQUOTE # ''}'') =
      Some (2, render (request_document token))"
    using len l unfolding r by (simp add: snprintf_at_def Let_def)
  show ?thesis
    unfolding emptyJsonWithClientToken_def start_def [symmetric] MAX_SIZE_CLIENT_TOKEN_CLIENT_SEQUENCE_def
    using s1 s2 s3 len by (simp add: Let_def token_def)
qed

text \<open>(C31) The document of a get or delete request. For a client identifier as the library keeps it, of at most 79
  characters without quotes, the array on the stack has room for it: it is the JSON object with the next client token
  as its only member, and the number of the next token goes up. The request that sends it reads the token back from
  it, if the token has fewer than 90 characters; a longer one, which an identifier of 79 characters can have, is
  not found, and the answer is then not waited for.\<close>

theorem request_document_token:
  assumes "unescaped clientID" and "length clientID < MAX_SIZE_OF_UNIQUE_CLIENT_ID_BYTES"
    and "length ts = MAX_JSON_TOKEN_EXPECTED"
    and "doc = render (request_document (client_token clientID num))"
  shows "aws_iot_shadow_internal_get_request_json clientID num MAX_SIZE_CLIENT_TOKEN_CLIENT_SEQUENCE
      MAX_SIZE_CLIENT_TOKEN_CLIENT_SEQUENCE old = Some (SUCCESS, doc, num + 1) \<and>
    map_option fst (extractClientToken (doc @ replicate (MAX_SIZE_CLIENT_TOKEN_CLIENT_SEQUENCE - length doc) NUL)
      MAX_SIZE_CLIENT_TOKEN_CLIENT_SEQUENCE ts MAX_SIZE_CLIENT_ID_WITH_SEQUENCE) =
    Some (if length (client_token clientID num) < 90 then Some (client_token clientID num) else None)"
proof -
  define token where "token = client_token clientID num"
  define v where "v = request_document token"
  define p where "p = CHR ''{'' # json_quoted SHADOW_CLIENT_TOKEN_STRING @ '':'' @ [DQUOTE]"
  define pad where "pad = replicate (MAX_SIZE_CLIENT_TOKEN_CLIENT_SEQUENCE - length doc) NUL"
  have p: "length p = 16" by (simp add: p_def json_quoted_def SHADOW_CLIENT_TOKEN_STRING_def)
  have doc: "doc = p @ token @ DQUOTE # ''}''"
    by (simp add: assms(4) p_def request_document_def json_quoted_def token_def)
  have len: "length doc < 110"
    using length_client_token [of clientID num] assms(2) p
    by (simp add: doc token_def MAX_SIZE_OF_UNIQUE_CLIENT_ID_BYTES_def)
  have tok: "unescaped token" unfolding token_def by (rule plain_client_token [OF assms(1)])
  define js where "js = doc @ pad"
  have js110: "length js = 110" using len by (simp add: js_def pad_def MAX_SIZE_CLIENT_TOKEN_CLIENT_SEQUENCE_def)
  have ends: "text_ends pad" using len by (simp add: pad_def text_ends_def MAX_SIZE_CLIENT_TOKEN_CLIENT_SEQUENCE_def)
  have "parse_document js 110 ts = Some (Some (int 3), tokens_of 0 v @ drop 3 ts)"
    using parse_document_object [of 110 js "[]" "MCons [] SHADOW_CLIENT_TOKEN_STRING [] [] (JString token) [] MNil" pad ts]
      js110 ends assms(3,4) plain_string_text [OF tok]
    by (simp add: js_def v_def request_document_def token_def MAX_JSON_TOKEN_EXPECTED_def SHADOW_CLIENT_TOKEN_STRING_def
        numeral_3_eq_3)
  moreover define t0 where "t0 = hd (tokens_of 0 v)"
  define kt where "kt = mk_token JSMN_STRING (Suc (length ''{'')) (length SHADOW_CLIENT_TOKEN_STRING) 1"
  define vt where "vt = mk_token JSMN_STRING (length p) (length token) 0"
  moreover have "tokens_of 0 v = t0 # [] @ kt # vt # []"
    by (simp add: v_def request_document_def t0_def kt_def vt_def p SHADOW_CLIENT_TOKEN_STRING_def)
  ultimately have parse: "parse_document js 110 ts = Some (Some (int 3), t0 # [] @ kt # vt # drop 3 ts)" by simp
  have key: "jsoneq js kt SHADOW_CLIENT_TOKEN_STRING = Some True"
    unfolding kt_def
    by (subst jsoneq_value_string [where q = "'':'' @ DQUOTE # token @ DQUOTE # ''}'' @ pad"]) (simp_all add: js_def doc p_def)
  have copy: "copy_client_token js vt 90 = Some (if length token < 90 then Some token else None)"
    unfolding vt_def using tok by (rule copy_client_token_string [rotated]) (simp_all add: js_def doc)
  have "extractClientToken js 110 ts 90 = Some (if length token < 90 then Some token else None, t0 # [] @ kt # vt # drop 3 ts)"
    by (rule extractClientToken_found [OF parse _ key _ copy]) simp_all
  then show ?thesis
    using empty_json_text [OF assms(2), of num old]
    by (simp add: aws_iot_shadow_internal_get_request_json_def assms(4) token_def js_def pad_def
        MAX_SIZE_CLIENT_TOKEN_CLIENT_SEQUENCE_def MAX_SIZE_CLIENT_ID_WITH_SEQUENCE_def)
qed

theorem request_document_token_witness:
  "map_option fst (extractClientToken (render (request_document ''ESP32-7'') @ replicate 85 NUL) 110 (replicate 120 blank_token) 90) =
     Some (Some ''ESP32-7'')"
proof -
  have t: "client_token ''ESP32'' 7 = ''ESP32-7''" by code_simp
  have l: "length (render (request_document ''ESP32-7'')) = 25" by code_simp
  show ?thesis
    using request_document_token [of "''ESP32''" "replicate 120 blank_token" _ 7 "[]", OF _ _ _ refl]
    by (simp add: t l unescaped_def MAX_SIZE_OF_UNIQUE_CLIENT_ID_BYTES_def MAX_JSON_TOKEN_EXPECTED_def
        MAX_SIZE_CLIENT_TOKEN_CLIENT_SEQUENCE_def MAX_SIZE_CLIENT_ID_WITH_SEQUENCE_def)
qed

text \<open>The client token of a document built for an update, whatever the state in it, unless a string of it reads the same.\<close>

lemma update_document_token:
  assumes js: "take len js = render (update_document ms token) @ rest" "len \<le> length js" and rest: "text_ends rest"
    and ok: "members_ok ms" "unescaped token" and few: "token_count (update_document ms token) \<le> MAX_JSON_TOKEN_EXPECTED"
    and ts: "length ts = MAX_JSON_TOKEN_EXPECTED" and other: "SHADOW_CLIENT_TOKEN_STRING \<notin> set (member_strings ms)"
    and bound: "0 < bound"
  shows "map_option fst (extractClientToken js len ts bound) = Some (if length token < bound then Some token else None)"
proof -
  define rest' where "rest' = rest @ drop len js"
  have js': "js = render (update_document ms token) @ rest'"
    using js(1) by (metis append.assoc append_take_drop_id rest'_def)
  define s where "s = CHR ''{'' # json_quoted ''state'' @ '':''"
  define p where "p = s @ render (JObject [] ms) @ '', ''"
  define q where "q = p @ json_quoted SHADOW_CLIENT_TOKEN_STRING @ '':'' @ [DQUOTE]"
  have jsq: "js = q @ token @ DQUOTE # ''}'' @ rest'" and jsp: "js = p @ json_quoted SHADOW_CLIENT_TOKEN_STRING @ '':'' @ json_quoted token @ ''}'' @ rest'"
    and jss: "js = s @ render (JObject [] ms) @ '', '' @ json_quoted SHADOW_CLIENT_TOKEN_STRING @ '':'' @ json_quoted token @ ''}'' @ rest'"
    by (simp_all add: js' q_def p_def s_def update_document_def json_quoted_def)
  have lens: "length s = 9" by (simp add: s_def json_quoted_def)
  define t0 where "t0 = hd (tokens_of 0 (update_document ms token))"
  define st where "st = mk_token JSMN_STRING (Suc (length ''{'')) (length ''state'') 1"
  define kt where "kt = mk_token JSMN_STRING (Suc (length p)) (length SHADOW_CLIENT_TOKEN_STRING) 1"
  define vt where "vt = mk_token JSMN_STRING (length q) (length token) 0"
  define pre where "pre = st # tokens_of (length s) (JObject [] ms)"
  define n where "n = token_count (update_document ms token)"
  have tokens: "tokens_of 0 (update_document ms token) = t0 # pre @ kt # vt # []"
    by (simp add: update_document_def t0_def pre_def st_def kt_def vt_def p_def q_def lens json_quoted_def
        SHADOW_CLIENT_TOKEN_STRING_def Let_def)
  have "json_ok (update_document ms token)"
    using ok plain_string_text [OF ok(2)] by (simp add: update_document_def SHADOW_CLIENT_TOKEN_STRING_def white_def)
  then have "parse_document js len ts = Some (Some (int n), tokens_of 0 (update_document ms token) @ drop n ts)"
    using parse_document_object [OF js [unfolded update_document_def] _ rest few [unfolded update_document_def] ts]
    unfolding n_def update_document_def by blast
  then have parse: "parse_document js len ts = Some (Some (int n), t0 # pre @ kt # vt # drop n ts)"
    unfolding tokens by simp
  have before: "jsoneq js t SHADOW_CLIENT_TOKEN_STRING = Some False" if "t \<in> set pre" for t
  proof -
    have "jsoneq js st SHADOW_CLIENT_TOKEN_STRING = Some (''state'' = SHADOW_CLIENT_TOKEN_STRING)"
      unfolding st_def by (rule jsoneq_value_string) (simp add: jss s_def)
    moreover have "jsoneq js t SHADOW_CLIENT_TOKEN_STRING = Some False" if "t \<in> set (tokens_of (length s) (JObject [] ms))"
      using that other by (intro jsoneq_tokens(1) [OF jss]) simp_all
    ultimately show ?thesis using that by (auto simp: pre_def SHADOW_CLIENT_TOKEN_STRING_def)
  qed
  have key: "jsoneq js kt SHADOW_CLIENT_TOKEN_STRING = Some True"
    unfolding kt_def by (subst jsoneq_value_string [OF jsp]) simp
  have n: "1 + length pre < n" by (simp add: n_def pre_def update_document_def)
  note copy = copy_client_token_string [OF jsq ok(2) bound, of 0, folded vt_def]
  show ?thesis by (subst extractClientToken_found [OF parse before key n copy]) simp_all
qed

text \<open>(C21) A reported state. The three calls that build an update document write, into a buffer with room for it, the
  JSON object whose state is what the records of the application describe, key by key and in their order, with the next
  client token behind it. Sending it, with its length, finds the token again, unless it is too long, whatever the
  strings reported, if none of them is the key of the token itself.\<close>

theorem reported_document:
  assumes items: "list_all2 (describes F m) items kvs" "kvs \<noteq> []" "length items < 128"
    and doc: "doc = update_document (MCons [] ''reported'' [] [] (JObject [] (report_members kvs)) [] MNil) (client_token clientID num)"
    and fits: "length (render doc) < maxSize" "maxSize \<le> cap"
    and ok: "members_ok (report_members kvs)" "unescaped clientID" "SHADOW_CLIENT_TOKEN_STRING \<notin> set (member_strings (report_members kvs))"
    and few: "token_count doc \<le> MAX_JSON_TOKEN_EXPECTED" "length ts = MAX_JSON_TOKEN_EXPECTED"
  shows "do {
      (rc1, d) \<leftarrow> aws_iot_shadow_init_json_document cap maxSize old;
      (rc2, d) \<leftarrow> aws_iot_shadow_add_reported F m cap maxSize items d;
      (rc3, d, num') \<leftarrow> aws_iot_finalize_json_document clientID num cap maxSize d;
      Some ([rc1, rc2, rc3], d, num')
    } = Some ([SUCCESS, SUCCESS, SUCCESS], render doc, num + 1) \<and>
    map_option fst (extractClientToken (render doc @ NUL # rest) (length (render doc)) ts MAX_SIZE_CLIENT_ID_WITH_SEQUENCE) =
      Some (if length (client_token clientID num) < 90 then Some (client_token clientID num) else None)"
proof
  define start where "start = CHR ''{'' # DQUOTE # ''state'' @ DQUOTE # '':{''"
  define front where "front = start @ json_quoted ''reported'' @ '':'' @ render (JObject [] (report_members kvs))"
  have r: "render doc = front @ ''}, '' @ json_quoted SHADOW_CLIENT_TOKEN_STRING @ '':'' @ json_quoted (client_token clientID num) @ ''}''"
    by (simp add: doc update_document_def front_def start_def json_quoted_def)
  have room: "10 < maxSize" "length (front @ '','') < maxSize" using fits(1) unfolding r by (simp_all add: front_def start_def)
  have "aws_iot_shadow_init_json_document cap maxSize old = Some (SUCCESS, start)"
    unfolding start_def by (rule init_document_text [OF room(1) fits(2)])
  moreover have "aws_iot_shadow_add_reported F m cap maxSize items start = Some (SUCCESS, front @ '','')"
    unfolding aws_iot_shadow_add_reported_def
    by (rule add_section_text [OF items _ room(2) fits(2)]) (simp add: front_def)
  moreover have "aws_iot_finalize_json_document clientID num cap maxSize (front @ '','') = Some (SUCCESS, render doc, num + 1)"
    by (rule finalize_text [OF refl r fits])
  ultimately show "do {
      (rc1, d) \<leftarrow> aws_iot_shadow_init_json_document cap maxSize old;
      (rc2, d) \<leftarrow> aws_iot_shadow_add_reported F m cap maxSize items d;
      (rc3, d, num') \<leftarrow> aws_iot_finalize_json_document clientID num cap maxSize d;
      Some ([rc1, rc2, rc3], d, num')
    } = Some ([SUCCESS, SUCCESS, SUCCESS], render doc, num + 1)"
    by simp
next
  show "map_option fst (extractClientToken (render doc @ NUL # rest) (length (render doc)) ts MAX_SIZE_CLIENT_ID_WITH_SEQUENCE) =
      Some (if length (client_token clientID num) < 90 then Some (client_token clientID num) else None)"
    unfolding MAX_SIZE_CLIENT_ID_WITH_SEQUENCE_def doc
    by (rule update_document_token [where rest = "[]" and ms = "MCons [] ''reported'' [] [] (JObject [] (report_members kvs)) [] MNil"])
      (use ok few plain_client_token [OF ok(2)] in \<open>simp_all add: doc text_ends_def SHADOW_CLIENT_TOKEN_STRING_def\<close>)
qed

text \<open>A temperature and a switch.\<close>

definition sample_memory :: "nat \<Rightarrow> json_data" where
  "sample_memory a = (if a = 0 then Data_int32 (-7) else Data_bool True)"

definition sample_item :: "string \<Rightarrow> nat \<Rightarrow> JsonPrimitiveType \<Rightarrow> jsonStruct" where
  "sample_item key a ty = \<lparr>pKey = Some key, pData = Some a, dataLength = 4, data_type = ty, cb = None\<rparr>"

definition sample_report :: json where
  "sample_report = update_document (MCons [] ''reported'' [] [] (JObject [] (report_members
     [(''temp'', JPrimitive ''-7''), (''on'', JPrimitive ''true'')])) [] MNil) ''ESP32-3''"

definition no_floats :: float_lib where
  "no_floats = \<lparr>promote = ucast, print_f = (\<lambda>_. []), scan_f = (\<lambda>_. None), scan_lf = (\<lambda>_. None)\<rparr>"

theorem reported_document_witness:
  "map_option fst (extractClientToken (render sample_report @ [NUL]) (length (render sample_report)) (replicate 120 blank_token) 90) =
     Some (Some ''ESP32-3'')"
proof -
  let ?items = "[Some (sample_item ''temp'' 0 SHADOW_JSON_INT32), Some (sample_item ''on'' 1 SHADOW_JSON_BOOL)]"
  let ?kvs = "[(''temp'', JPrimitive ''-7''), (''on'', JPrimitive ''true'')]"
  have t: "client_token ''ESP32'' 3 = ''ESP32-3''" and i: "show_int (-7) = ''-7''" by code_simp+
  have d: "list_all2 (describes no_floats sample_memory) ?items ?kvs"
    by (simp add: describes_def sample_item_def sample_memory_def value_text_def i)
  have doc: "sample_report = update_document (MCons [] ''reported'' [] [] (JObject [] (report_members ?kvs)) [] MNil)
      (client_token ''ESP32'' 3)"
    by (simp add: sample_report_def t)
  have "length (render sample_report) < 200" "members_ok (report_members ?kvs)" "unescaped ''ESP32''"
    "SHADOW_CLIENT_TOKEN_STRING \<notin> set (member_strings (report_members ?kvs))" "token_count sample_report \<le> MAX_JSON_TOKEN_EXPECTED"
    "length (replicate 120 blank_token) = MAX_JSON_TOKEN_EXPECTED" "?kvs \<noteq> []" "length ?items < 128"
    by code_simp+
  from reported_document [OF d this(7,8) doc this(1) order_refl this(2-6), of "[]" "[]"] show ?thesis
    by (simp add: t MAX_SIZE_CLIENT_ID_WITH_SEQUENCE_def)
qed

end
