(* ===== verification/ShadowWorld.thy ===== *)
theory ShadowWorld
  imports Shadow JsmnWindow MqttWorldFrame
begin

text \<open>
  What every call of the device shadow keeps of the library's variables, while the client below it waits, delivers
  messages to the library's own callbacks, and these call the application: the tables keep their sizes, the
  registered keys fit in their table, and the version of the last document never goes back.
\<close>

context world_order
begin

lemma unsubscribe_exchange_world:
  assumes K: "platform_keeps W P" and H: "subscriber_keeps W P"
    and run: "unsubscribe_exchange P name n s = Some (rc, s')" and w: "W w (wd s)"
  shows "W w (wd s')"
proof -
  obtain i s1 where s1: "take_packet_id s = (i, s1)" by (cases "take_packet_id s")
  have w1: "W w (wd s1)" using take_packet_id_world [OF s1] w by simp
  obtain r s2 where r: "exchange P (serialize_unsubscribe (writeBufSize (cl s1)) 0 i [(Some name, n)]) UNSUBACK
      deserialize_unsuback s1 = Some (r, s2)"
    using run by (auto simp: unsubscribe_exchange_def s1 Option.bind_eq_Some_conv)
  have "wd s' = wd s2"
    using run r by (cases r) (auto simp: unsubscribe_exchange_def s1 Option.bind_eq_Some_conv)
  then show ?thesis using exchange_world [OF K H r w1] by simp
qed

lemma unsubscribe_world:
  assumes K: "platform_keeps W P" and H: "subscriber_keeps W P"
    and run: "aws_iot_mqtt_unsubscribe P name n s = Some (rc, s')" and w: "W w (wd s)"
  shows "W w (wd s')"
proof -
  have body: "W w (wd s2)" if "internal_unsubscribe P f n s1 = Some (r, s2)" "W w (wd s1)" for f s1 r s2
    using that with_timer_world [OF K _ that(2), of "unsubscribe_exchange P f n"] unsubscribe_exchange_world [OF K H]
    by (auto simp: internal_unsubscribe_def Option.bind_eq_Some_conv split: if_splits)
  let ?busy = "CLIENT_STATE_CONNECTED_UNSUBSCRIBE_IN_PROGRESS" and ?state = "clientState (cl s)"
  show ?thesis
  proof (cases "name = None \<or> \<not> is_client_connected (cl s) \<or> \<not> may_start (cl s)")
    case True
    then have "s' = s" using run by (auto simp: aws_iot_mqtt_unsubscribe_def split: option.split_asm if_split_asm)
    then show ?thesis using w by simp
  next
    case False
    then obtain f where f: "name = Some f" and ok: "is_client_connected (cl s)" "may_start (cl s)" by auto
    obtain e s1 where s1: "set_client_state P ?state ?busy s = (e, s1)" by (cases "set_client_state P ?state ?busy s")
    have w1: "W w (wd s1)" by (rule simple_results(9) [OF K s1 w])
    note run = run [unfolded aws_iot_mqtt_unsubscribe_def f option.case Let_def s1 prod.case]
    show ?thesis
    proof (cases "e = SUCCESS")
      case False
      then have "s' = snd (set_client_state P ?busy ?state s1)" using run ok by simp
      then show ?thesis using set_state_world [OF K w1] by simp
    next
      case True
      then obtain r s2 where b: "internal_unsubscribe P f n s1 = Some (r, s2)"
        using run ok by (auto simp: Option.bind_eq_Some_conv)
      have "s' = snd (set_client_state P ?busy ?state s2)" using run ok True b by (auto split: prod.split_asm)
      then show ?thesis using set_state_world [OF K body [OF b w1]] by simp
    qed
  qed
qed

lemma settle_world:
  assumes K: "platform_keeps W P" and run: "settle P t v = Some v'" and w: "W w v"
  shows "W w v'"
proof -
  let ?Q = "\<lambda>x y. case x of ((P', t), u) \<Rightarrow> P' = P \<longrightarrow> W w u \<longrightarrow> W w y"
  have "?Q ((P, t), v) v'"
  proof (rule settle.raw_induct [where Pa = ?Q, OF _ run])
    fix loop P' t u y
    assume IH: "\<And>a b c y. loop a b c = Some y \<Longrightarrow> ?Q ((a, b), c) y"
      and body: "(let (e, t, u) = poll_timer P' t u in if e then Some u else loop P' t u) = Some y"
    show "?Q ((P', t), u) y"
    proof (clarsimp)
      assume eq: "P' = P" and u: "W w u"
      obtain e t1 u1 where p: "poll_timer P t u = (e, t1, u1)" by (cases "poll_timer P t u")
      have "W w u1" using poll_timer_world [OF K u, of t] p by simp
      then show "W w y" using body IH [of P t1 u1 y] by (auto simp: eq p split: if_splits)
    qed
  qed
  then show ?thesis using w by simp
qed

end

subsection \<open>The order on the variables\<close>

definition vars_le :: "shadow_vars \<Rightarrow> shadow_vars \<Rightarrow> bool" where
  "vars_le v v' \<longleftrightarrow> length (AckWaitList v') = length (AckWaitList v) \<and>
     length (SubscriptionList v') = length (SubscriptionList v) \<and> length (tokenTable v') = length (tokenTable v) \<and>
     length (jsonTokenStruct v') = length (jsonTokenStruct v) \<and>
     (length (shadowRxBuf v) = SHADOW_MAX_SIZE_OF_RX_BUFFER \<longrightarrow> length (shadowRxBuf v') = SHADOW_MAX_SIZE_OF_RX_BUFFER) \<and>
     (tokenTableIndex v \<le> MAX_JSON_TOKEN_EXPECTED \<longrightarrow> tokenTableIndex v' \<le> MAX_JSON_TOKEN_EXPECTED) \<and>
     shadowJsonVersionNum v \<le> shadowJsonVersionNum v'"

definition shadow_le :: "'w shadow_world \<Rightarrow> 'w shadow_world \<Rightarrow> bool" where
  "shadow_le w w' \<longleftrightarrow> vars_le (shadow w) (shadow w')"

interpretation shadow_order: world_order shadow_le
  by unfold_locales (auto simp: shadow_le_def vars_le_def)

lemma vars_le_refl [simp]: "vars_le v v"
  by (simp add: vars_le_def)

lemma vars_le_trans: "vars_le a b \<Longrightarrow> vars_le b c \<Longrightarrow> vars_le a c"
  by (auto simp: vars_le_def)

text \<open>The assignments of the library.\<close>

lemma vars_le_ack [simp]: "vars_le v (upd_ack i f v)"
  by (simp add: vars_le_def upd_ack_def)

lemma vars_le_sub [simp]: "vars_le v (upd_sub i f v)"
  by (simp add: vars_le_def upd_sub_def)

lemma vars_le_assign [simp]:
  "vars_le v (shadowDeltaTopic_update f v)" "vars_le v (deltaTopicSubscribedFlag_update g v)"
  "vars_le v (deleteAcceptedTopic_update f v)" "vars_le v (clientTokenNum_update h v)"
  "vars_le v (v\<lparr>myThingName := t, mqttClientID := c\<rparr>)" "vars_le v (initializeRecords v)"
  "vars_le v (incrementSubscriptionCnt thing action sticky v)"
  by (simp_all add: vars_le_def initializeRecords_def incrementSubscriptionCnt_def)

lemma vars_le_register: "tokenTableIndex v < MAX_JSON_TOKEN_EXPECTED \<Longrightarrow> vars_le v (register_token a f v)"
  by (simp add: vars_le_def register_token_def)

lemma vars_le_version: "shadowJsonVersionNum v < n \<Longrightarrow> vars_le v (shadowJsonVersionNum_update (\<lambda>_. n) v)"
  by (simp add: vars_le_def)

lemma vars_le_tokens: "length ts = length (jsonTokenStruct v) \<Longrightarrow> vars_le v (jsonTokenStruct_update (\<lambda>_. ts) v)"
  by (simp add: vars_le_def)

lemma vars_le_rx:
  "length bs < SHADOW_MAX_SIZE_OF_RX_BUFFER \<Longrightarrow> vars_le v (v\<lparr>shadowRxBuf := chars_of bs @ NUL # drop (Suc (length bs)) (shadowRxBuf v)\<rparr>)"
  by (simp add: vars_le_def chars_of_def)

lemma shadow_le_upd: "vars_le (sh s) (f (sh s)) \<Longrightarrow> shadow_le w (wd s) \<Longrightarrow> shadow_le w (wd (upd_shadow f s))"
  unfolding shadow_le_def upd_shadow_simps by (rule vars_le_trans)

lemma shadow_le_memory [simp]: "shadow_le w (wd s\<lparr>app_memory := m\<rparr>) = shadow_le w (wd s)"
  by (simp add: shadow_le_def)

lemma parse_document_room: "parse_document js len ts = Some (r, ts') \<Longrightarrow> length ts' = length ts"
  by (auto simp: parse_document_def Option.bind_eq_Some_conv same_room_def dest!: jsmn_parse_room split: if_splits)

lemma extract_token_room: "extractClientToken js len ts n = Some (r, ts') \<Longrightarrow> length ts' = length ts"
  by (auto simp: extractClientToken_def Option.bind_eq_Some_conv dest!: parse_document_room split: option.split_asm)

text \<open>The application's callbacks keep the order as well.\<close>

definition app_keeps :: "'w shadow_app \<Rightarrow> bool" where
  "app_keeps A \<longleftrightarrow>
     (\<forall>f thing a st rx ctx s s'. action_callback A f thing a st rx ctx s = Some s' \<longrightarrow> shadow_le (wd s) (wd s')) \<and>
     (\<forall>f txt n a s s'. delta_callback A f txt n a s = Some s' \<longrightarrow> shadow_le (wd s) (wd s'))"

lemma app_steps:
  "app_keeps A \<Longrightarrow> action_callback A f thing a st rx ctx s = Some s' \<Longrightarrow> shadow_le w (wd s) \<Longrightarrow> shadow_le w (wd s')"
  "app_keeps A \<Longrightarrow> delta_callback A f txt n a' s = Some s' \<Longrightarrow> shadow_le w (wd s) \<Longrightarrow> shadow_le w (wd s')"
  unfolding app_keeps_def by (meson shadow_order.W_trans)+

subsection \<open>Records\<close>

lemma shadow_subscribe_le:
  assumes K: "platform_keeps shadow_le P" and H: "subscriber_keeps shadow_le P"
  shows "shadow_subscribe P topic h s = Some (rc, s') \<Longrightarrow> shadow_le w (wd s) \<Longrightarrow> shadow_le w (wd s')"
  by (auto simp: shadow_subscribe_def split: if_splits intro: shadow_order.subscribe_world [OF K H])

lemma shadow_unsubscribe_le:
  assumes K: "platform_keeps shadow_le P" and H: "subscriber_keeps shadow_le P"
  shows "shadow_unsubscribe P topic s = Some (rc, s') \<Longrightarrow> shadow_le w (wd s) \<Longrightarrow> shadow_le w (wd s')"
  by (auto simp: shadow_unsubscribe_def split: if_splits intro: shadow_order.unsubscribe_world [OF K H])

lemma publish_action_le:
  assumes K: "platform_keeps shadow_le P" and H: "subscriber_keeps shadow_le P"
  shows "publishToShadowAction P thing action doc s = Some (rc, s') \<Longrightarrow> shadow_le w (wd s) \<Longrightarrow> shadow_le w (wd s')"
  by (auto simp: publishToShadowAction_def Let_def split: if_splits intro: shadow_order.publish_world [OF K H])

lemma register_delta_le:
  assumes K: "platform_keeps shadow_le P" and H: "subscriber_keeps shadow_le P"
    and run: "registerJsonTokenOnDelta P a s = Some (rc, s')" and w: "shadow_le w (wd s)"
  shows "shadow_le w (wd s')"
proof -
  obtain r s1 where s1: "subscribe_delta P s = Some (r, s1)"
    using run by (auto simp: registerJsonTokenOnDelta_def Option.bind_eq_Some_conv)
  have w1: "shadow_le w (wd s1)"
  proof (cases "deltaTopicSubscribedFlag (sh s)")
    case True
    then show ?thesis using s1 w by (simp add: subscribe_delta_def)
  next
    case False
    define s2 where "s2 = upd_shadow (\<lambda>v. v\<lparr>shadowDeltaTopic := delta_topic (myThingName v)\<rparr>) s"
    have w2: "shadow_le w (wd s2)" unfolding s2_def using w by (intro shadow_le_upd) simp_all
    obtain s3 where s3: "shadow_subscribe P (shadowDeltaTopic (sh s2)) shadow_delta_callback_id s2 = Some (r, s3)"
      "s1 = upd_shadow (deltaTopicSubscribedFlag_update (\<lambda>_. True)) s3"
      using s1 False by (auto simp: subscribe_delta_def s2_def Let_def Option.bind_eq_Some_conv)
    have "shadow_le w (wd s3)" by (rule shadow_subscribe_le [OF K H s3(1) w2])
    then show ?thesis unfolding s3(2) by (intro shadow_le_upd) simp_all
  qed
  show ?thesis
    using run s1 w1 by (auto simp: registerJsonTokenOnDelta_def split: if_splits intro!: shadow_le_upd vars_le_register)
qed

lemma subscribe_slot_le:
  assumes K: "platform_keeps shadow_le P" and H: "subscriber_keeps shadow_le P"
    and run: "subscribe_slot P i topic sticky s = Some (rc, s')" and w: "shadow_le w (wd s)"
  shows "shadow_le w (wd s')"
proof -
  define s1 where "s1 = upd_shadow (upd_sub i (Topic_update (\<lambda>_. topic))) s"
  have w1: "shadow_le w (wd s1)" unfolding s1_def using w by (intro shadow_le_upd) simp_all
  obtain s2 where s2: "shadow_subscribe P (Topic (SubscriptionList (sh s1) ! i)) AckStatusCallback_id s1 = Some (rc, s2)"
    "s' = (if rc = SUCCESS then upd_shadow (upd_sub i (\<lambda>r. r\<lparr>sub_count := 1, isSticky := sticky\<rparr>)) s2 else s2)"
    using run by (auto simp: subscribe_slot_def s1_def Let_def Option.bind_eq_Some_conv)
  have w2: "shadow_le w (wd s2)" by (rule shadow_subscribe_le [OF K H s2(1) w1])
  then have "shadow_le w (wd (upd_shadow (upd_sub i (\<lambda>r. r\<lparr>sub_count := 1, isSticky := sticky\<rparr>)) s2))"
    by (intro shadow_le_upd) simp_all
  then show ?thesis unfolding s2(2) using w2 by simp
qed

lemma settle_subscriptions_le:
  assumes K: "platform_keeps shadow_le P" and run: "settle_subscriptions P s = Some s'" and w: "shadow_le w (wd s)"
  shows "shadow_le w (wd s')"
proof -
  obtain t s1 where a: "arm_sec P SUBSCRIBE_SETTLING_TIME s = (t, s1)" by (cases "arm_sec P SUBSCRIBE_SETTLING_TIME s")
  have "shadow_le w (wd s1)" by (rule shadow_order.simple_results(3) [OF K a w])
  then show ?thesis
    using run by (auto simp: settle_subscriptions_def a Option.bind_eq_Some_conv intro: shadow_order.settle_world [OF K])
qed

lemma subscribe_pair_le:
  assumes K: "platform_keeps shadow_le P" and H: "subscriber_keeps shadow_le P"
    and run: "subscribe_pair P thing action sticky i j s = Some (rc, c, s')" and w: "shadow_le w (wd s)"
  shows "shadow_le w (wd s')"
proof -
  obtain r1 s1 where s1: "subscribe_slot P i (topicNameFromThingAndAction thing action SHADOW_ACCEPTED) sticky s = Some (r1, s1)"
    using run by (auto simp: subscribe_pair_def Option.bind_eq_Some_conv)
  have w1: "shadow_le w (wd s1)" by (rule subscribe_slot_le [OF K H s1 w])
  show ?thesis
  proof (cases "r1 = SUCCESS")
    case False
    then show ?thesis using run s1 w1 by (simp add: subscribe_pair_def)
  next
    case True
    then obtain r2 s2 where s2: "subscribe_slot P j (topicNameFromThingAndAction thing action SHADOW_REJECTED) sticky s1 = Some (r2, s2)"
      using run s1 by (auto simp: subscribe_pair_def Option.bind_eq_Some_conv)
    have "shadow_le w (wd s2)" by (rule subscribe_slot_le [OF K H s2 w1])
    then show ?thesis
      using run s1 s2 True by (auto simp: subscribe_pair_def Option.bind_eq_Some_conv split: if_splits
          intro: settle_subscriptions_le [OF K])
  qed
qed

lemma clear_entries_le:
  assumes K: "platform_keeps shadow_le P" and H: "subscriber_keeps shadow_le P"
    and run: "clear_entries P a b s = Some s'" and w: "shadow_le w (wd s)"
  shows "shadow_le w (wd s')"
proof -
  obtain s1 where s1: "(case a of None \<Rightarrow> Some s | Some i \<Rightarrow>
        let s = upd_shadow (upd_sub i (sub_isFree_update (\<lambda>_. True))) s in
        if sub_count (SubscriptionList (sh s) ! i) = 1
        then map_option snd (shadow_unsubscribe P (Topic (SubscriptionList (sh s) ! i)) s) else Some s) = Some s1"
    "s' = (case b of None \<Rightarrow> s1 | Some j \<Rightarrow> upd_shadow (upd_sub j (sub_isFree_update (\<lambda>_. True))) s1)"
    using run by (auto simp: clear_entries_def Option.bind_eq_Some_conv)
  have "shadow_le w (wd (upd_shadow (upd_sub i f) s))" for i f using w by (simp add: shadow_le_upd)
  then have "shadow_le w (wd s1)"
    using s1(1) w shadow_unsubscribe_le [OF K H] by (auto simp: Let_def split: option.split_asm if_split_asm)
  then show ?thesis unfolding s1(2) by (auto split: option.split intro: shadow_le_upd)
qed

lemma next_entry_le: "getNextFreeIndexOfSubscriptionList s = (i, s') \<Longrightarrow> shadow_le w (wd s) \<Longrightarrow> shadow_le w (wd s')"
  by (auto simp: getNextFreeIndexOfSubscriptionList_def Let_def intro!: shadow_le_upd split: if_splits)

lemma subscribe_acks_le:
  assumes K: "platform_keeps shadow_le P" and H: "subscriber_keeps shadow_le P"
    and run: "subscribeToShadowActionAcks P thing action sticky s = Some (rc, s')" and w: "shadow_le w (wd s)"
  shows "shadow_le w (wd s')"
proof -
  obtain a s1 where s1: "getNextFreeIndexOfSubscriptionList s = (a, s1)" by (cases "getNextFreeIndexOfSubscriptionList s")
  obtain b s2 where s2: "getNextFreeIndexOfSubscriptionList s1 = (b, s2)" by (cases "getNextFreeIndexOfSubscriptionList s1")
  have w2: "shadow_le w (wd s2)" by (rule next_entry_le [OF s2 next_entry_le [OF s1 w]])
  obtain r c s3 where s3: "(case (a, b) of (Some i, Some j) \<Rightarrow> subscribe_pair P thing action sticky i j s2
      | _ \<Rightarrow> Some (SUCCESS, True, s2)) = Some (r, c, s3)"
    and fin: "(if c then clear_entries P a b s3 else Some s3) = Some s'"
    using run unfolding subscribeToShadowActionAcks_def s1 Let_def prod.case s2
    by (auto simp: Option.bind_eq_Some_conv)
  have "shadow_le w (wd s3)"
    using s3 w2 by (auto split: option.split_asm intro: subscribe_pair_le [OF K H])
  then show ?thesis using fin by (auto split: if_splits intro: clear_entries_le [OF K H])
qed

lemma release_topic_le:
  assumes K: "platform_keeps shadow_le P" and H: "subscriber_keeps shadow_le P"
    and run: "release_topic P topic s = Some s'" and w: "shadow_le w (wd s)"
  shows "shadow_le w (wd s')"
  using run w
  by (auto simp: release_topic_def Let_def Option.bind_eq_Some_conv split: option.split_asm if_split_asm
      intro!: shadow_le_upd intro: shadow_unsubscribe_le [OF K H])

lemma release_topics_le:
  assumes K: "platform_keeps shadow_le P" and H: "subscriber_keeps shadow_le P"
    and run: "unsubscribeFromAcceptedAndRejected P i s = Some s'" and w: "shadow_le w (wd s)"
  shows "shadow_le w (wd s')"
  using run w by (auto simp: unsubscribeFromAcceptedAndRejected_def Let_def Option.bind_eq_Some_conv
      intro: release_topic_le [OF K H])

subsection \<open>Callbacks\<close>

lemma run_action_le:
  "app_keeps A \<Longrightarrow> run_action_callback A i st s = Some s' \<Longrightarrow> shadow_le w (wd s) \<Longrightarrow> shadow_le w (wd s')"
  by (auto simp: run_action_callback_def Let_def Option.bind_eq_Some_conv split: option.split_asm dest: app_steps(1))

lemma receive_document_le:
  assumes run: "receive_document msg s = Some (r, s')" and w: "shadow_le w (wd s)"
  shows "shadow_le w (wd s')"
proof (cases "SHADOW_MAX_SIZE_OF_RX_BUFFER \<le> unat (in_payloadLen msg)")
  case True
  then show ?thesis using run w by (simp add: receive_document_def Let_def)
next
  case False
  let ?n = "unat (in_payloadLen msg)"
  obtain bs where bs: "mem_read (Some (drop (in_payload msg) (readBuf (cl s)))) ?n = Some bs"
    using run False by (auto simp: receive_document_def Let_def Option.bind_eq_Some_conv)
  have len: "length bs = ?n" by (rule mem_read_length [OF bs])
  define s1 where "s1 = upd_shadow (\<lambda>v. v\<lparr>shadowRxBuf := chars_of bs @ NUL # drop (?n + 1) (shadowRxBuf v)\<rparr>) s"
  have w1: "shadow_le w (wd s1)"
    unfolding s1_def using w False vars_le_rx [of bs] by (intro shadow_le_upd) (simp_all add: len)
  obtain ts where ts: "isJsonValidAndParse (shadowRxBuf (sh s1)) SHADOW_MAX_SIZE_OF_RX_BUFFER (jsonTokenStruct (sh s1)) = Some (r, ts)"
    "s' = upd_shadow (jsonTokenStruct_update (\<lambda>_. ts)) s1"
    using run False bs by (auto simp: receive_document_def Let_def s1_def Option.bind_eq_Some_conv)
  have "length ts = length (jsonTokenStruct (sh s1))"
    by (rule parse_document_room [OF ts(1) [unfolded isJsonValidAndParse_def]])
  then show ?thesis unfolding ts(2) using w1 by (intro shadow_le_upd vars_le_tokens)
qed

lemma update_version_le:
  "update_version n s = Some s' \<Longrightarrow> shadow_le w (wd s) \<Longrightarrow> shadow_le w (wd s')"
  by (auto simp: update_version_def Option.bind_eq_Some_conv split: option.split_asm if_splits
      intro!: shadow_le_upd vars_le_version)

lemma accept_delta_le:
  "accept_delta n s = Some (b, s') \<Longrightarrow> shadow_le w (wd s) \<Longrightarrow> shadow_le w (wd s')"
  by (auto simp: accept_delta_def Option.bind_eq_Some_conv split: option.split_asm if_splits
      intro!: shadow_le_upd vars_le_version)

lemma complete_request_le:
  assumes K: "platform_keeps shadow_le P" and H: "subscriber_keeps shadow_le P" and A: "app_keeps A"
  shows "complete_request P A msg token is s = Some s' \<Longrightarrow> shadow_le w (wd s) \<Longrightarrow> shadow_le w (wd s')"
proof (induction "is" arbitrary: s)
  case (Cons i "is")
  show ?case
  proof (cases "ack_isFree (AckWaitList (sh s) ! i) \<or> clientTokenID (AckWaitList (sh s) ! i) \<noteq> token")
    case True
    then have "complete_request P A msg token is s = Some s'" using Cons.prems(1) by (auto simp: Let_def)
    then show ?thesis using Cons.IH Cons.prems(2) by blast
  next
    case False
    then obtain st s1 s2 where s1: "run_action_callback A i st s = Some s1" "unsubscribeFromAcceptedAndRejected P i s1 = Some s2"
      and s': "s' = upd_shadow (upd_ack i (ack_isFree_update (\<lambda>_. True))) s2"
      using Cons.prems(1) by (auto simp: Let_def Option.bind_eq_Some_conv)
    have "shadow_le w (wd s2)" by (rule release_topics_le [OF K H s1(2) run_action_le [OF A s1(1) Cons.prems(2)]])
    then show ?thesis unfolding s' by (intro shadow_le_upd) simp_all
  qed
qed simp

lemma ack_callback_le:
  assumes K: "platform_keeps shadow_le P" and H: "subscriber_keeps shadow_le P" and A: "app_keeps A"
    and run: "AckStatusCallback P A msg s = Some s'" and w: "shadow_le w (wd s)"
  shows "shadow_le w (wd s')"
proof -
  obtain r s1 where s1: "receive_document msg s = Some (r, s1)"
    using run by (auto simp: AckStatusCallback_def Option.bind_eq_Some_conv)
  have w1: "shadow_le w (wd s1)" by (rule receive_document_le [OF s1 w])
  show ?thesis
  proof (cases r)
    case None
    then show ?thesis using run s1 w1 by (simp add: AckStatusCallback_def)
  next
    case (Some n)
    then obtain topic s2 tok ts where topic: "topic_text msg s1 = Some topic"
      and s2: "(if isValidShadowVersionUpdate (myThingName (sh s1)) topic then update_version n s1 else Some s1) = Some s2"
      and tok: "extractClientToken (shadowRxBuf (sh s2)) SHADOW_MAX_SIZE_OF_RX_BUFFER (jsonTokenStruct (sh s2))
          MAX_SIZE_CLIENT_TOKEN_CLIENT_SEQUENCE = Some (tok, ts)"
      and rest: "(case tok of None \<Rightarrow> Some (upd_shadow (jsonTokenStruct_update (\<lambda>_. ts)) s2)
        | Some t \<Rightarrow> complete_request P A msg t [0..<MAX_ACKS_TO_COMEIN_AT_ANY_GIVEN_TIME] (upd_shadow (jsonTokenStruct_update (\<lambda>_. ts)) s2)) = Some s'"
      using run s1 by (auto simp: AckStatusCallback_def Let_def Option.bind_eq_Some_conv)
    have "shadow_le w (wd s2)" using s2 w1 by (auto split: if_splits intro: update_version_le)
    then have "shadow_le w (wd (upd_shadow (jsonTokenStruct_update (\<lambda>_. ts)) s2))"
      using extract_token_room [OF tok] by (intro shadow_le_upd vars_le_tokens)
    then show ?thesis using rest complete_request_le [OF K H A] by (cases tok) auto
  qed
qed

lemma deliver_key_le:
  assumes A: "app_keeps A" and run: "deliver_key A n e s = Some s'" and w: "shadow_le w (wd s)"
  shows "shadow_le w (wd s')"
proof -
  obtain r m where r: "isJsonKeyMatchingAndUpdateValue (floats A) (shadowRxBuf (sh s)) (jsonTokenStruct (sh s)) n
      (app_structs (wd s) (token_pStruct e)) (app_memory (wd s)) = Some (r, m)"
    using run by (auto simp: deliver_key_def Option.bind_eq_Some_conv)
  define s1 where "s1 = s\<lparr>wd := (wd s)\<lparr>app_memory := m\<rparr>\<rparr>"
  have w1: "shadow_le w (wd s1)" using w by (simp add: s1_def)
  show ?thesis
    using run w1 by (auto simp: deliver_key_def r Let_def s1_def [symmetric] Option.bind_eq_Some_conv
        split: option.split_asm if_splits) (rule app_steps(2) [OF A])
qed

lemma delta_loop_le:
  "app_keeps A \<Longrightarrow> delta_loop A n i s = Some s' \<Longrightarrow> shadow_le w (wd s) \<Longrightarrow> shadow_le w (wd s')"
proof (induction A n i s rule: delta_loop.induct)
  case (1 A n i s)
  show ?case
  proof (cases "tokenTableIndex (sh s) \<le> i")
    case True
    then show ?thesis using "1.prems" by (simp add: delta_loop.simps [of A n i s])
  next
    case False
    then have i: "\<not> MAX_JSON_TOKEN_EXPECTED \<le> i"
      using "1.prems"(2) by (auto simp: delta_loop.simps [of A n i s] split: if_splits)
    let ?e = "tokenTable (sh s) ! i"
    obtain s1 where s1: "(if token_isFree ?e then Some s else deliver_key A n ?e s) = Some s1" "delta_loop A n (i + 1) s1 = Some s'"
      using "1.prems"(2) False i by (auto simp: delta_loop.simps [of A n i s] Let_def Option.bind_eq_Some_conv)
    have "shadow_le w (wd s1)"
      using s1(1) "1.prems"(3) by (auto split: if_splits intro: deliver_key_le [OF "1.prems"(1)])
    then show ?thesis using "1.IH" [OF False i refl s1(1) "1.prems"(1) s1(2)] by blast
  qed
qed

lemma delta_callback_le:
  assumes A: "app_keeps A" and run: "shadow_delta_callback A msg s = Some s'" and w: "shadow_le w (wd s)"
  shows "shadow_le w (wd s')"
proof -
  obtain r s1 where s1: "receive_document msg s = Some (r, s1)"
    using run by (auto simp: shadow_delta_callback_def Option.bind_eq_Some_conv)
  have w1: "shadow_le w (wd s1)" by (rule receive_document_le [OF s1 w])
  show ?thesis
  proof (cases r)
    case None
    then show ?thesis using run s1 w1 by (simp add: shadow_delta_callback_def)
  next
    case (Some n)
    then obtain b s2 where s2: "accept_delta n s1 = Some (b, s2)" "(if b then delta_loop A n 0 s2 else Some s2) = Some s'"
      using run s1 by (auto simp: shadow_delta_callback_def Option.bind_eq_Some_conv)
    have "shadow_le w (wd s2)" by (rule accept_delta_le [OF s2(1) w1])
    then show ?thesis using s2(2) by (auto split: if_splits intro: delta_loop_le [OF A])
  qed
qed

text \<open>The platform with the library's callbacks, at any depth of nesting.\<close>

lemma with_shadow_platform: "platform_keeps shadow_le P \<Longrightarrow> platform_keeps shadow_le (with_shadow n A P)"
  by (cases n) (simp_all add: platform_keeps_def)

lemma with_shadow_disconnecter: "disconnecter_keeps shadow_le P \<Longrightarrow> disconnecter_keeps shadow_le (with_shadow n A P)"
  by (cases n) (simp_all add: disconnecter_keeps_def)

lemma with_shadow_subscriber:
  assumes K: "platform_keeps shadow_le P" and H: "subscriber_keeps shadow_le P" and A: "app_keeps A"
  shows "subscriber_keeps shadow_le (with_shadow n A P)"
proof (induction n)
  case 0
  then show ?case using H by (simp add: subscriber_keeps_def)
next
  case (Suc n)
  have "shadow_le (wd s) (wd s')" if "AckStatusCallback (with_shadow n A P) A msg s = Some s'" for msg s s'
    by (rule ack_callback_le [OF with_shadow_platform [OF K] Suc.IH A that shadow_order.W_refl])
  moreover have "shadow_le (wd s) (wd s')" if "shadow_delta_callback A msg s = Some s'" for msg s s'
    by (rule delta_callback_le [OF A that shadow_order.W_refl])
  ultimately show ?case using H by (simp add: subscriber_keeps_def)
qed

subsection \<open>Calls\<close>

lemma expire_loop_le:
  assumes K: "platform_keeps shadow_le P" and H: "subscriber_keeps shadow_le P" and A: "app_keeps A"
  shows "expire_loop P A is s = Some s' \<Longrightarrow> shadow_le w (wd s) \<Longrightarrow> shadow_le w (wd s')"
proof (induction "is" arbitrary: s)
  case (Cons i "is")
  show ?case
  proof (cases "ack_isFree (AckWaitList (sh s) ! i)")
    case True
    then show ?thesis using Cons by simp
  next
    case False
    obtain e s1 where s1: "poll_ack_timer P i s = (e, s1)" by (cases "poll_ack_timer P i s")
    have w1: "shadow_le w (wd s1)"
      using s1 shadow_order.poll_timer_world [OF K Cons.prems(2), of "ack_timer (AckWaitList (sh s) ! i)"]
      by (auto simp: poll_ack_timer_def split: prod.split_asm intro!: shadow_le_upd)
    show ?thesis
    proof (cases e)
      case False
      then show ?thesis using Cons.IH [OF _ w1] Cons.prems(1) \<open>\<not> ack_isFree _\<close> s1 by simp
    next
      case True
      then obtain s2 s3 where s2: "run_action_callback A i SHADOW_ACK_TIMEOUT s1 = Some s2"
        and s3: "unsubscribeFromAcceptedAndRejected P i (upd_shadow (upd_ack i (ack_isFree_update (\<lambda>_. True))) s2) = Some s3"
        and rest: "expire_loop P A is s3 = Some s'"
        using Cons.prems(1) False s1 by (auto simp: Option.bind_eq_Some_conv)
      have "shadow_le w (wd (upd_shadow (upd_ack i (ack_isFree_update (\<lambda>_. True))) s2))"
        using run_action_le [OF A s2 w1] by (intro shadow_le_upd) simp_all
      then show ?thesis using Cons.IH [OF rest] release_topics_le [OF K H s3] by blast
    qed
  qed
qed simp

lemma prepare_answer_le:
  assumes K: "platform_keeps shadow_le P" and H: "subscriber_keeps shadow_le P"
    and run: "prepare_answer P thing action sticky s = Some (rc, i, s')" and w: "shadow_le w (wd s)"
  shows "shadow_le w (wd s')"
  using run w by (auto simp: prepare_answer_def Option.bind_eq_Some_conv split: option.split_asm if_split_asm
      intro!: shadow_le_upd intro: subscribe_acks_le [OF K H])

lemma add_ack_le:
  assumes K: "platform_keeps shadow_le P"
    and run: "addToAckWaitList P i name action token f ctx ms s = Some s'" and w: "shadow_le w (wd s)"
  shows "shadow_le w (wd s')"
proof -
  obtain t s1 where a: "arm_sec P ms s = (t, s1)" by (cases "arm_sec P ms s")
  have "shadow_le w (wd s1)" by (rule shadow_order.simple_results(3) [OF K a w])
  then show ?thesis using run by (auto simp: addToAckWaitList_def a split: if_splits intro!: shadow_le_upd)
qed

lemma internal_action_le:
  assumes K: "platform_keeps shadow_le P" and H: "subscriber_keeps shadow_le P"
    and run: "aws_iot_shadow_internal_action P name action js n f ctx ms sticky s = Some (rc, s')" and w: "shadow_le w (wd s)"
  shows "shadow_le w (wd s')"
proof (cases "name = None \<or> js = None")
  case True
  then show ?thesis using run w by (auto simp: aws_iot_shadow_internal_action_def split: option.split_asm)
next
  case False
  then obtain nm doc where n: "name = Some nm" "js = Some doc" by auto
  obtain tok ts where tok: "extractClientToken doc n (jsonTokenStruct (sh s)) MAX_SIZE_CLIENT_ID_WITH_SEQUENCE = Some (tok, ts)"
    using run n by (auto simp: aws_iot_shadow_internal_action_def Option.bind_eq_Some_conv)
  define s1 where "s1 = upd_shadow (jsonTokenStruct_update (\<lambda>_. ts)) s"
  have w1: "shadow_le w (wd s1)"
    unfolding s1_def using extract_token_room [OF tok] w by (intro shadow_le_upd vars_le_tokens)
  obtain r i s2 where s2: "(if tok \<noteq> None \<and> f \<noteq> None then prepare_answer P nm action sticky s1 else Some (SUCCESS, None, s1)) = Some (r, i, s2)"
    using run tok n unfolding s1_def by (fastforce simp: aws_iot_shadow_internal_action_def Let_def Option.bind_eq_Some_conv)
  have w2: "shadow_le w (wd s2)" using s2 w1 by (auto split: if_splits intro: prepare_answer_le [OF K H])
  note run = run [unfolded aws_iot_shadow_internal_action_def n prod.case option.case tok Option.bind.simps Let_def
      s1_def [symmetric] s2]
  show ?thesis
  proof (cases "r = SUCCESS")
    case False
    then show ?thesis using run w2 by simp
  next
    case True
    then obtain thing d r3 s3 where s3: "publishToShadowAction P thing action d s2 = Some (r3, s3)"
      and fin: "(if r3 \<noteq> SUCCESS then Some (r3, s3) else case (tok, i) of (Some token, Some i) \<Rightarrow> do {
            s \<leftarrow> addToAckWaitList P i nm action token f ctx ms s3; Some (SUCCESS, s) }
          | _ \<Rightarrow> Some (SUCCESS, s3)) = Some (rc, s')"
      using run by (auto simp: Option.bind_eq_Some_conv)
    have w3: "shadow_le w (wd s3)" by (rule publish_action_le [OF K H s3 w2])
    show ?thesis
    proof (cases "r3 = SUCCESS \<and> tok \<noteq> None \<and> i \<noteq> None")
      case False
      then have "s' = s3" using fin by (cases tok; cases i) (auto split: if_splits)
      then show ?thesis using w3 by simp
    next
      case True
      then show ?thesis using fin add_ack_le [OF K _ w3] by (auto simp: Option.bind_eq_Some_conv)
    qed
  qed
qed

end
