(* ===== verification/ShadowMessages.thy ===== *)
theory ShadowMessages
  imports JsonSeek ShadowProperties ShadowWorld
begin

text \<open>
  Received documents of the device shadow: what the callbacks read from a message whose payload is the text of a JSON
  object.
\<close>

subsection \<open>Reading a parsed object\<close>

lemma object_found:
  assumes doc: "doc = JObject w ms" and js: "js = render doc @ q" and ok: "json_ok doc" and seek: "seek avoid key doc = Found x"
  obtains t0 pre kt u z post where "tokens_of 0 doc = t0 # pre @ kt # tokens_of (length u) x @ post"
    "\<And>t k. t \<in> set pre \<Longrightarrow> k \<in> set (key # avoid) \<Longrightarrow> jsoneq js t k = Some False" "jsoneq js kt key = Some True"
    "js = u @ render x @ z @ q" "z \<noteq> []" "ends_primitive (hd z)" "json_ok x"
proof -
  have "found_in avoid key js q x (member_tokens (length (CHR ''{'' # w)) [] ms)"
    by (rule seek_found(2)) (use doc js ok seek in simp_all)
  then obtain pre kt u z post where f: "member_tokens (length (CHR ''{'' # w)) [] ms = pre @ kt # tokens_of (length u) x @ post"
    "\<forall>t \<in> set pre. \<forall>k \<in> set (key # avoid). jsoneq js t k = Some False" "jsoneq js kt key = Some True"
    "js = u @ render x @ z @ q" "z \<noteq> []" "ends_primitive (hd z)" "json_ok x"
    unfolding found_in_def by blast
  show ?thesis
    by (rule that [of "mk_token JSMN_OBJECT 0 (length (render doc)) (member_count ms)" pre kt u post z]) (use f doc in auto)
qed

lemma found_count: "tokens_of 0 doc = t0 # pre @ kt # tokens_of a x @ post \<Longrightarrow> 1 + length pre < token_count doc"
  using length_tokens(1) [of 0 doc] by simp

lemma number_ends_primitive: "z \<noteq> [] \<Longrightarrow> ends_primitive (hd z) \<Longrightarrow> number_ends (z @ q)"
  by (cases z) (auto simp: number_ends_def ends_primitive_def white_def is_digit_def)

text \<open>The version.\<close>

lemma version_skip:
  "(\<And>t. t \<in> set pre \<Longrightarrow> jsoneq js t SHADOW_VERSION_STRING = Some False) \<Longrightarrow> length old = j \<Longrightarrow> j + length pre \<le> n \<Longrightarrow>
     version_loop js (old @ pre @ post) [j..<n] = version_loop js (old @ pre @ post) [j + length pre..<n]"
proof (induction pre arbitrary: old j)
  case (Cons x pre)
  then have "[j..<n] = j # [Suc j..<n]" by (simp add: upt_rec)
  moreover have "version_loop js ((old @ [x]) @ pre @ post) [Suc j..<n] = version_loop js ((old @ [x]) @ pre @ post) [Suc j + length pre..<n]"
    using Cons.prems by (intro Cons.IH) simp_all
  ultimately show ?case using Cons.prems by (simp add: tok_at_def nth_append)
qed simp

lemma extract_version_found:
  assumes doc: "doc = JObject w ms" and js: "js = render doc @ q" and ok: "json_ok doc" and nul: "NUL \<in> set q"
    and seek: "seek [] SHADOW_VERSION_STRING doc = Found (JPrimitive (show_nat n))" and n: "n < 2 ^ 32"
  shows "extractVersionNumber js (tokens_of 0 doc @ old) (int (token_count doc)) = Some (Some (of_nat n))"
proof -
  obtain t0 pre kt u z post where f: "tokens_of 0 doc = t0 # pre @ kt # tokens_of (length u) (JPrimitive (show_nat n)) @ post"
    "\<And>t k. t \<in> set pre \<Longrightarrow> k \<in> set [SHADOW_VERSION_STRING] \<Longrightarrow> jsoneq js t k = Some False"
    "jsoneq js kt SHADOW_VERSION_STRING = Some True" "js = u @ render (JPrimitive (show_nat n)) @ z @ q" "z \<noteq> []" "ends_primitive (hd z)"
    by (rule object_found [OF doc js ok seek]) (rule that)
  define vt where "vt = mk_token JSMN_PRIMITIVE (length u) (length (show_nat n)) 0"
  define ts where "ts = [t0] @ pre @ kt # vt # post @ old"
  have ts: "tokens_of 0 doc @ old = ts" by (simp add: f(1) ts_def vt_def)
  have si: "show_int (int n) = show_nat n" by (simp add: show_int_def)
  have js': "js = u @ show_int (int n) @ (z @ q)" using f(4) by (simp add: si)
  have "int n \<le> UINT32_MAX" using n by (simp add: UINT32_MAX_def)
  then have "scan_token_unsigned UINT32_MAX js vt = Some (Some (int n))"
    using scan_token_unsigned_show [OF js' _ number_ends_primitive [OF f(5,6)], of vt UINT32_MAX] nul
    by (simp add: vt_def mk_token_def)
  then have v: "parseUnsignedInteger32Value js vt = Some (SUCCESS, Some (of_nat n))"
    by (simp add: parseUnsignedInteger32Value_def vt_def mk_token_def)
  have cnt: "1 + length pre < token_count doc" by (rule found_count [OF f(1)])
  have "version_loop js ts [1..<token_count doc] = version_loop js ts [1 + length pre..<token_count doc]"
    unfolding ts_def by (rule version_skip) (use f(2) cnt in simp_all)
  also have "[1 + length pre..<token_count doc] = (1 + length pre) # [2 + length pre..<token_count doc]"
    using cnt by (simp add: upt_rec)
  finally show ?thesis using f(3) v unfolding ts extractVersionNumber_def
    by (simp add: ts_def tok_at_def nth_append)
qed

text \<open>The client token.\<close>

lemma extract_token_found:
  assumes doc: "doc = JObject w ms" and js: "js = render doc @ q" and ok: "json_ok doc" and ends: "text_ends q"
    and few: "token_count doc \<le> MAX_JSON_TOKEN_EXPECTED" and ts: "length ts = MAX_JSON_TOKEN_EXPECTED"
    and seek: "seek [] SHADOW_CLIENT_TOKEN_STRING doc = Found (JString token)" and tok: "unescaped token" and bound: "length token < bound"
  shows "extractClientToken js (length js) ts bound = Some (Some token, tokens_of 0 doc @ drop (token_count doc) ts)"
proof -
  obtain t0 pre kt u z post where f: "tokens_of 0 doc = t0 # pre @ kt # tokens_of (length u) (JString token) @ post"
    "\<And>t k. t \<in> set pre \<Longrightarrow> k \<in> set [SHADOW_CLIENT_TOKEN_STRING] \<Longrightarrow> jsoneq js t k = Some False"
    "jsoneq js kt SHADOW_CLIENT_TOKEN_STRING = Some True" "js = u @ render (JString token) @ z @ q"
    by (rule object_found [OF doc js ok seek]) (rule that)
  define vt where "vt = mk_token JSMN_STRING (length (u @ [DQUOTE])) (length token) 0"
  define rest where "rest = post @ drop (token_count doc) ts"
  have all: "tokens_of 0 doc @ drop (token_count doc) ts = t0 # pre @ kt # vt # rest" by (simp add: f(1) vt_def rest_def)
  have parse: "parse_document js (length js) ts = Some (Some (int (token_count doc)), t0 # pre @ kt # vt # rest)"
    using parse_document_object [of "length js" js w ms q ts] doc js ok ends few ts unfolding all [symmetric] by simp
  have copy: "copy_client_token js vt bound = Some (Some token)"
    unfolding vt_def by (subst copy_client_token_string [of js "u @ [DQUOTE]" token "DQUOTE # z @ q"])
      (use f(4) tok bound in \<open>auto simp: json_quoted_def\<close>)
  show ?thesis unfolding all
    by (rule extractClientToken_found [OF parse _ f(3) found_count [OF f(1)] copy]) (use f(2) in simp)
qed

subsection \<open>Messages\<close>

lemma chars_of_bytes [simp]: "chars_of (bytes_of s) = s"
proof -
  have "unat (of_char c :: u8) = of_char c" for c
  proof -
    have "(of_char c :: nat) = of_char c mod 256" using of_char_of [of "of_char c :: nat"] by simp
    moreover have "unat (of_nat (of_char c) :: u8) = of_char c mod 256" by (simp add: unat_of_nat take_bit_eq_mod)
    ultimately show ?thesis by (simp add: of_nat_of_char)
  qed
  then show ?thesis by (induction s) (simp_all add: chars_of_def bytes_of_def)
qed

text \<open>The payload of a message is a text.\<close>

definition carries :: "publish_view \<Rightarrow> string \<Rightarrow> 'w shadow_st \<Rightarrow> bool" where
  "carries msg txt s \<longleftrightarrow> length txt < SHADOW_MAX_SIZE_OF_RX_BUFFER \<and> unat (in_payloadLen msg) = length txt \<and>
     mem_read (Some (drop (in_payload msg) (readBuf (cl s)))) (length txt) = Some (bytes_of txt)"

definition received :: "json \<Rightarrow> 'w shadow_st \<Rightarrow> 'w shadow_st" where
  "received doc s = upd_shadow (\<lambda>v. v\<lparr>
     shadowRxBuf := render doc @ NUL # drop (length (render doc) + 1) (shadowRxBuf v),
     jsonTokenStruct := tokens_of 0 doc @ drop (token_count doc) (jsonTokenStruct v)\<rparr>) s"

definition buffers_ok :: "shadow_vars \<Rightarrow> bool" where
  "buffers_ok v \<longleftrightarrow> length (shadowRxBuf v) = SHADOW_MAX_SIZE_OF_RX_BUFFER \<and> length (jsonTokenStruct v) = MAX_JSON_TOKEN_EXPECTED"

lemma receive_document_object:
  assumes doc: "doc = JObject w ms" and ok: "json_ok doc" and few: "token_count doc \<le> MAX_JSON_TOKEN_EXPECTED"
    and msg: "carries msg (render doc) s" and bufs: "buffers_ok (sh s)"
  shows "receive_document msg s = Some (Some (int (token_count doc)), received doc s)"
proof -
  let ?n = "length (render doc)" and ?v = "sh s"
  have n: "unat (in_payloadLen msg) = ?n" "\<not> SHADOW_MAX_SIZE_OF_RX_BUFFER \<le> ?n"
    "mem_read (Some (drop (in_payload msg) (readBuf (cl s)))) ?n = Some (bytes_of (render doc))"
    using msg by (simp_all add: carries_def)
  define rx where "rx = render doc @ NUL # drop (?n + 1) (shadowRxBuf ?v)"
  have len: "length rx = SHADOW_MAX_SIZE_OF_RX_BUFFER" using n(2) bufs by (simp add: rx_def buffers_ok_def)
  have "parse_document rx SHADOW_MAX_SIZE_OF_RX_BUFFER (jsonTokenStruct ?v) =
      Some (Some (int (token_count doc)), tokens_of 0 doc @ drop (token_count doc) (jsonTokenStruct ?v))"
    unfolding doc by (rule parse_document_object [where rest = "NUL # drop (?n + 1) (shadowRxBuf ?v)"])
      (use len ok few bufs doc in \<open>simp_all add: rx_def text_ends_def buffers_ok_def\<close>)
  then show ?thesis
    unfolding receive_document_def Let_def n(1) using n(2,3)
    by (simp add: isJsonValidAndParse_def rx_def received_def upd_shadow_def)
qed

lemma received_simps [simp]:
  "shadowRxBuf (sh (received doc s)) = render doc @ NUL # drop (length (render doc) + 1) (shadowRxBuf (sh s))"
  "jsonTokenStruct (sh (received doc s)) = tokens_of 0 doc @ drop (token_count doc) (jsonTokenStruct (sh s))"
  "AckWaitList (sh (received doc s)) = AckWaitList (sh s)" "SubscriptionList (sh (received doc s)) = SubscriptionList (sh s)"
  "shadowJsonVersionNum (sh (received doc s)) = shadowJsonVersionNum (sh s)" "tokenTable (sh (received doc s)) = tokenTable (sh s)"
  "tokenTableIndex (sh (received doc s)) = tokenTableIndex (sh s)" "myThingName (sh (received doc s)) = myThingName (sh s)"
  "shadowDiscardOldDeltaFlag (sh (received doc s)) = shadowDiscardOldDeltaFlag (sh s)"
  "app_structs (wd (received doc s)) = app_structs (wd s)" "app_memory (wd (received doc s)) = app_memory (wd s)"
  "cl (received doc s) = cl s" "tm (received doc s) = tm s"
  by (simp_all add: received_def)

lemma received_buffers: "carries msg (render doc) s \<Longrightarrow> token_count doc \<le> MAX_JSON_TOKEN_EXPECTED \<Longrightarrow> buffers_ok (sh s) \<Longrightarrow>
    buffers_ok (sh (received doc s))"
  by (simp add: buffers_ok_def carries_def)

end
