(* ===== verification/ShadowDelta.thy ===== *)
theory ShadowDelta
  imports ShadowMessages
begin

text \<open>
  Delta messages of the device shadow, on the level of JSON values: what a received document says of a key and of the
  version, what is stored in the variable of a registered key, and that the callback of the library, which works on
  tokens, does this for every entry of the table.
\<close>

subsection \<open>The value of a key\<close>

text \<open>
  The search takes the first member with the key, at any depth, and passes over the value of a member \<open>metadata\<close> if
  something follows it in the document, which the first argument says of the value searched. It is not described where a
  string in front of the key reads like the key or like \<open>metadata\<close>, or where \<open>metadata\<close> comes last: then the
  code goes on behind the tokens of the document. A value is found with the position of its text.
\<close>

datatype key_result = Missing | At nat json | Unclear

fun key_value :: "bool \<Rightarrow> string \<Rightarrow> nat \<Rightarrow> json \<Rightarrow> key_result"
  and key_members :: "bool \<Rightarrow> string \<Rightarrow> nat \<Rightarrow> string \<Rightarrow> members \<Rightarrow> key_result"
  and key_elements :: "bool \<Rightarrow> string \<Rightarrow> nat \<Rightarrow> string \<Rightarrow> elements \<Rightarrow> key_result"
where
  "key_value behind key a (JObject w ms) = key_members behind key (a + 1 + length w) [] ms"
| "key_value behind key a (JArray w es) = key_elements behind key (a + 1 + length w) [] es"
| "key_value behind key a (JString s) = (if s = key \<or> s = ''metadata'' then Unclear else Missing)"
| "key_value behind key a (JPrimitive s) = Missing"
| "key_members behind key a sep MNil = Missing"
| "key_members behind key a sep (MCons w1 k w2 w3 v w4 ms) =
     (let c = value_at a sep w1 k w2 w3; follows = (behind \<or> ms \<noteq> MNil);
          rest = key_members behind key (c + length (render v) + length w4) '','' ms
      in if k = key then At c v
      else if k = ''metadata'' then (if follows then rest else Unclear)
      else case key_value follows key c v of Missing \<Rightarrow> rest | r \<Rightarrow> r)"
| "key_elements behind key a sep ENil = Missing"
| "key_elements behind key a sep (ECons w1 v w2 es) =
     (let c = a + length sep + length w1 in
      case key_value (behind \<or> es \<noteq> ENil) key c v of
        Missing \<Rightarrow> key_elements behind key (c + length (render v) + length w2) '','' es
      | r \<Rightarrow> r)"

subsection \<open>The search over the tokens\<close>

lemma token_ends:
  "json_ok v \<Longrightarrow> t \<in> set (tokens_of a v) \<Longrightarrow> tok_end t \<le> int (a + length (render v))"
  "members_ok ms \<Longrightarrow> t \<in> set (member_tokens b sep ms) \<Longrightarrow> tok_end t \<le> int (b + length (render_members sep ms))"
  "elements_ok es \<Longrightarrow> t \<in> set (element_tokens c sep' es) \<Longrightarrow> tok_end t \<le> int (c + length (render_elements sep' es))"
proof (induction a v and b sep ms and c sep' es rule: tokens_of_member_tokens_element_tokens.induct)
  case (6 a sep w1 k w2 w3 v w4 ms)
  then show ?case by (fastforce simp: mk_token_def Let_def json_quoted_def)
next
  case (8 a sep w1 v w2 es)
  then show ?case by (fastforce simp: Let_def)
qed (fastforce simp: mk_token_def json_quoted_def)+

lemma inner_token_ends:
  assumes "json_ok v" and "tokens_of a v = t # us" and "u \<in> set us"
  shows "tok_end u < tok_end t"
proof (cases v)
  case (JObject w ms)
  then show ?thesis using assms token_ends(2) [of ms u "a + 1 + length w" "[]"] by (fastforce simp: mk_token_def)
next
  case (JArray w es)
  then show ?thesis using assms token_ends(3) [of es u "a + 1 + length w" "[]"] by (fastforce simp: mk_token_def)
qed (use assms in simp_all)

lemma skip_metadata_inside:
  "(\<And>t. t \<in> set xs \<Longrightarrow> tok_end t < e) \<Longrightarrow> tok_at (pre @ xs @ post) (length pre + length xs) = Some t \<Longrightarrow> e \<le> tok_end t \<Longrightarrow>
    skip_metadata (pre @ xs @ post) e (length pre) = Some (length pre + length xs)"
proof (induction xs arbitrary: pre)
  case Nil
  then show ?case by (subst skip_metadata.simps) simp
next
  case (Cons x xs)
  have "skip_metadata (pre @ (x # xs) @ post) e (length pre) = skip_metadata ((pre @ [x]) @ xs @ post) e (length (pre @ [x]))"
    using Cons.prems(1) by (subst skip_metadata.simps) (simp add: tok_at_def)
  also have "\<dots> = Some (length (pre @ [x]) + length xs)"
    using Cons.prems by (intro Cons.IH) simp_all
  finally show ?case by simp
qed

text \<open>One token that is neither the key nor \<open>metadata\<close>.\<close>

lemma search_step:
  assumes "jsoneq js t key = Some False" and "jsoneq js t ''metadata'' = Some False" and "int (length pre) < N"
  shows "find_shadow_key js (pre @ t # post) N key (length pre) = find_shadow_key js (pre @ t # post) N key (Suc (length pre))"
  using assms by (subst find_shadow_key.simps) (simp add: tok_at_def)

text \<open>What follows a value, if something does: a token of the document that ends behind it.\<close>

definition goes_on :: "bool \<Rightarrow> nat \<Rightarrow> nat \<Rightarrow> jsmntok_t list \<Rightarrow> bool" where
  "goes_on behind n e post \<longleftrightarrow> (behind \<longrightarrow> 0 < n \<and> (\<exists>t us. post = t # us \<and> int e \<le> tok_end t))"

lemma search_skips_metadata:
  assumes v: "json_ok v" and kt: "jsoneq js kt key = Some False" "jsoneq js kt ''metadata'' = Some True"
    and next_one: "post = t # us" "int (a + length (render v)) \<le> tok_end t"
    and room: "int (length pre + 1 + token_count v) < N"
  shows "find_shadow_key js (pre @ kt # tokens_of a v @ post) N key (length pre) =
    find_shadow_key js (pre @ kt # tokens_of a v @ post) N key (length pre + 1 + token_count v)"
proof -
  obtain m ins where m: "tokens_of a v = m # ins" "tok_end m \<le> int (a + length (render v))"
    by (rule value_tokens [OF v, of a]) (rule that)
  define ts where "ts = (pre @ [kt, m]) @ ins @ post"
  have ts: "pre @ kt # tokens_of a v @ post = ts" by (simp add: ts_def m(1))
  have n: "token_count v = Suc (length ins)" using m(1) length_tokens(1) [of a v] by simp
  have "skip_metadata ts (tok_end m) (length (pre @ [kt, m])) = Some (length (pre @ [kt, m]) + length ins)"
    unfolding ts_def
    by (rule skip_metadata_inside [where t = t])
      (use inner_token_ends [OF v m(1)] next_one m(2) in \<open>simp_all add: tok_at_def nth_append\<close>)
  then show ?thesis unfolding ts
    using kt room n by (subst find_shadow_key.simps) (simp add: ts_def tok_at_def nth_append)
qed

text \<open>The value that is found: its first token and its text.\<close>

definition hits :: "string \<Rightarrow> string \<Rightarrow> jsmntok_t list \<Rightarrow> int \<Rightarrow> string \<Rightarrow> nat \<Rightarrow> nat \<Rightarrow> json \<Rightarrow> bool" where
  "hits js q ts N key i c x \<longleftrightarrow> (\<exists>j u z. find_shadow_key js ts N key i = Some (Some j) \<and>
     tok_at ts (j + 1) = Some (hd (tokens_of c x)) \<and> js = u @ render x @ z @ q \<and> length u = c \<and>
     z \<noteq> [] \<and> ends_primitive (hd z) \<and> json_ok x)"

lemma hits_suffix: "hits js (a @ q) ts N key i c x \<Longrightarrow> hits js q ts N key i c x"
  unfolding hits_def by (metis append.assoc append_is_Nil_conv hd_append2)

lemma hits_later: "find_shadow_key js ts N key i = find_shadow_key js ts N key k \<Longrightarrow> hits js q ts N key k c x \<Longrightarrow> hits js q ts N key i c x"
  by (simp add: hits_def)

definition walks :: "string \<Rightarrow> string \<Rightarrow> jsmntok_t list \<Rightarrow> int \<Rightarrow> string \<Rightarrow> nat \<Rightarrow> nat \<Rightarrow> key_result \<Rightarrow> bool" where
  "walks js q ts N key i n r \<longleftrightarrow> (case r of
       Missing \<Rightarrow> find_shadow_key js ts N key i = find_shadow_key js ts N key (i + n)
     | At c x \<Rightarrow> hits js q ts N key i c x
     | Unclear \<Rightarrow> True)"

lemma walks_later:
  "find_shadow_key js ts N key i = find_shadow_key js ts N key k \<Longrightarrow> walks js q ts N key k n r \<Longrightarrow> i + m = k + n \<Longrightarrow>
     walks js q ts N key i m r"
  by (cases r) (simp_all add: walks_def hits_later)

lemma walks_suffix: "walks js (a @ q) ts N key i n r \<Longrightarrow> walks js q ts N key i n r"
  by (cases r) (auto simp: walks_def intro: hits_suffix)

lemma goes_on_mono: "goes_on behind n e post \<Longrightarrow> d \<le> e \<Longrightarrow> goes_on behind n d post"
  by (fastforce simp: goes_on_def)

lemma goes_on_members:
  assumes "goes_on behind n (b + length (render_members sep ms)) post" and "e \<le> b"
  shows "goes_on (behind \<or> ms \<noteq> MNil) (member_token_count ms + n) e (member_tokens b sep ms @ post)"
proof (cases ms)
  case MNil
  then show ?thesis using goes_on_mono [OF assms(1), of e] assms(2) by simp
next
  case (MCons w1 k w2 w3 v w4 ms')
  then show ?thesis using assms(2) by (simp add: goes_on_def mk_token_def Let_def)
qed

lemma goes_on_elements:
  assumes "goes_on behind n (b + length (render_elements sep es)) post" and "e \<le> b" and "elements_ok es"
  shows "goes_on (behind \<or> es \<noteq> ENil) (element_token_count es + n) e (element_tokens b sep es @ post)"
proof (cases es)
  case ENil
  then show ?thesis using goes_on_mono [OF assms(1), of e] assms(2) by simp
next
  case (ECons w1 v w2 es')
  then obtain t us where t: "tokens_of (b + length sep + length w1) v = t # us" "int (b + length sep + length w1) \<le> tok_end t"
    using assms(3) value_tokens [of v "b + length sep + length w1"] by auto metis
  have "0 < token_count v" using t(1) length_tokens(1) [of "b + length sep + length w1" v] by (metis length_greater_0_conv list.distinct(1))
  then show ?thesis using ECons t assms(2) by (simp add: goes_on_def Let_def)
qed

lemma key_walk:
  "js = p @ render v @ q \<Longrightarrow> json_ok v \<Longrightarrow> ts = pre @ tokens_of (length p) v @ post \<Longrightarrow>
     N = int (length pre + token_count v + n) \<Longrightarrow> goes_on behind n (length p + length (render v)) post \<Longrightarrow>
     walks js q ts N key (length pre) (token_count v) (key_value behind key (length p) v)"
  "js = p @ render_members sep ms @ ''}'' @ q \<Longrightarrow> members_ok ms \<Longrightarrow> ts = pre @ member_tokens (length p) sep ms @ post \<Longrightarrow>
     N = int (length pre + member_token_count ms + n) \<Longrightarrow> goes_on behind n (length p + length (render_members sep ms)) post \<Longrightarrow>
     walks js q ts N key (length pre) (member_token_count ms) (key_members behind key (length p) sep ms)"
  "js = p @ render_elements sep es @ '']'' @ q \<Longrightarrow> elements_ok es \<Longrightarrow> ts = pre @ element_tokens (length p) sep es @ post \<Longrightarrow>
     N = int (length pre + element_token_count es + n) \<Longrightarrow> goes_on behind n (length p + length (render_elements sep es)) post \<Longrightarrow>
     walks js q ts N key (length pre) (element_token_count es) (key_elements behind key (length p) sep es)"
proof (induction v and ms and es arbitrary: p q pre post n behind and p q sep pre post n behind and p q sep pre post n behind)
  case (JObject w ms)
  define t where "t = mk_token JSMN_OBJECT (length p) (length (render (JObject w ms))) (member_count ms)"
  have ts: "ts = (pre @ [t]) @ member_tokens (length (p @ CHR ''{'' # w)) [] ms @ post" using JObject.prems(3) by (simp add: t_def)
  have w: "walks js q ts N key (length (pre @ [t])) (member_token_count ms) (key_members behind key (length (p @ CHR ''{'' # w)) [] ms)"
    using JObject.prems by (intro JObject.IH [where n = n, OF _ _ ts]) (auto intro: goes_on_mono)
  have step: "find_shadow_key js ts N key (length pre) = find_shadow_key js ts N key (length (pre @ [t]))"
    using search_step [of js t key pre N] JObject.prems(4) unfolding ts by (simp add: t_def jsoneq_other_type)
  show ?case using walks_later [OF step w, of "1 + member_token_count ms"] by simp
next
  case (JArray w es)
  define t where "t = mk_token JSMN_ARRAY (length p) (length (render (JArray w es))) (element_count es)"
  have ts: "ts = (pre @ [t]) @ element_tokens (length (p @ CHR ''['' # w)) [] es @ post" using JArray.prems(3) by (simp add: t_def)
  have w: "walks js q ts N key (length (pre @ [t])) (element_token_count es) (key_elements behind key (length (p @ CHR ''['' # w)) [] es)"
    using JArray.prems by (intro JArray.IH [where n = n, OF _ _ ts]) (auto intro: goes_on_mono)
  have step: "find_shadow_key js ts N key (length pre) = find_shadow_key js ts N key (length (pre @ [t]))"
    using search_step [of js t key pre N] JArray.prems(4) unfolding ts by (simp add: t_def jsoneq_other_type)
  show ?case using walks_later [OF step w, of "1 + element_token_count es"] by simp
next
  case (JString s)
  then show ?case using search_step [of js "mk_token JSMN_STRING (length p + 1) (length s) 0" key pre N post]
    jsoneq_value_string [of js p s q 0] by (simp add: walks_def)
next
  case (JPrimitive s)
  then show ?case using search_step [of js "mk_token JSMN_PRIMITIVE (length p) (length s) 0" key pre N post]
    by (simp add: walks_def jsoneq_other_type)
next
  case MNil
  then show ?case by (simp add: walks_def)
next
  case (MCons w1 k w2 w3 v w4 ms)
  define b where "b = p @ sep @ w1 @ json_quoted k @ w2 @ CHR '':'' # w3"
  define kt where "kt = mk_token JSMN_STRING (length p + length sep + length w1 + 1) (length k) 1"
  define d where "d = b @ render v @ w4"
  define rest where "rest = member_tokens (length d) '','' ms @ post"
  define follows where "follows = (behind \<or> ms \<noteq> MNil)"
  have b: "length b = value_at (length p) sep w1 k w2 w3" by (simp add: b_def value_at_def json_quoted_def)
  have ld: "length b + length (render v) + length w4 = length d" by (simp add: d_def)
  have js: "js = b @ render v @ (w4 @ render_members '','' ms @ ''}'') @ q" and js2: "js = d @ render_members '','' ms @ ''}'' @ q"
    using MCons.prems(1) by (simp_all add: b_def d_def)
  have ts: "ts = pre @ kt # tokens_of (length b) v @ rest"
    unfolding MCons.prems(3) member_tokens_at kt_def rest_def d_def b [symmetric] by (simp add: add.assoc)
  define pre2 where "pre2 = pre @ kt # tokens_of (length b) v"
  have ts2: "ts = pre2 @ member_tokens (length d) '','' ms @ post" and pre2: "length pre2 = length pre + 1 + token_count v"
    by (simp_all add: ts pre2_def rest_def)
  have jk: "jsoneq js kt y = Some (k = y)" for y unfolding kt_def by (rule jsoneq_key) (use MCons.prems(1) in simp)
  have ok: "json_ok v" "members_ok ms" "list_all white w4" using MCons.prems(2) by simp_all
  have N: "N = int (length pre + 1 + token_count v + (member_token_count ms + n))" using MCons.prems(4) by simp
  have last: "goes_on behind n (length d + length (render_members '','' ms)) post"
    using MCons.prems(5) by (simp add: d_def b_def add.assoc)
  have behind_v: "goes_on follows (member_token_count ms + n) (length b + length (render v)) rest"
    unfolding follows_def rest_def by (rule goes_on_members [OF last]) (simp add: d_def)
  have others: "walks js q ts N key (length pre2) (member_token_count ms) (key_members behind key (length d) '','' ms)"
    by (rule MCons.IH(2) [OF js2 ok(2) ts2 _ last]) (simp add: N pre2)
  have res: "key_members behind key (length p) sep (MCons w1 k w2 w3 v w4 ms) =
      (if k = key then At (length b) v else if k = ''metadata'' then (if follows then key_members behind key (length d) '','' ms else Unclear)
       else case key_value follows key (length b) v of Missing \<Rightarrow> key_members behind key (length d) '','' ms | r \<Rightarrow> r)"
    unfolding key_members.simps Let_def b [symmetric] follows_def [symmetric] ld ..
  have cnt: "member_token_count (MCons w1 k w2 w3 v w4 ms) = 1 + token_count v + member_token_count ms" by simp
  consider "k = key" | "k \<noteq> key" "k = ''metadata''" | "k \<noteq> key" "k \<noteq> ''metadata''" by blast
  then show ?case
  proof cases
    case 1
    obtain t us where t: "tokens_of (length b) v = t # us" by (rule value_tokens [OF ok(1), of "length b"]) (rule that)
    have "find_shadow_key js ts N key (length pre) = Some (Some (length pre))"
      using jk [of key] 1 N by (subst find_shadow_key.simps) (simp add: ts tok_at_def)
    moreover have "tok_at ts (length pre + 1) = Some (hd (tokens_of (length b) v))" by (simp add: ts t tok_at_def nth_append)
    moreover have "ends_primitive (hd (w4 @ render_members '','' ms @ ''}''))" "w4 @ render_members '','' ms @ ''}'' \<noteq> []"
      using members_end ends_primitive_white [OF ok(3)] by simp_all
    ultimately have "hits js q ts N key (length pre) (length b) v"
      unfolding hits_def using js ok(1) by blast
    then show ?thesis unfolding res using 1 by (simp add: walks_def)
  next
    case 2
    show ?thesis
    proof (cases follows)
      case True
      then obtain t us where t: "rest = t # us" "int (length b + length (render v)) \<le> tok_end t" "0 < member_token_count ms + n"
        using behind_v by (auto simp: goes_on_def)
      have "find_shadow_key js ts N key (length pre) = find_shadow_key js ts N key (length pre2)"
        unfolding ts pre2
        by (rule search_skips_metadata [OF ok(1) _ _ t(1,2)]) (use jk 2 t(3) N in auto)
      from walks_later [OF this others, of "1 + token_count v + member_token_count ms"] show ?thesis
        unfolding res cnt using 2 True by (simp add: pre2)
    next
      case False
      then show ?thesis unfolding res using 2 by (simp add: walks_def)
    qed
  next
    case 3
    have step: "find_shadow_key js ts N key (length pre) = find_shadow_key js ts N key (length (pre @ [kt]))"
      unfolding ts using search_step [of js kt key pre N] jk 3 N by simp
    have "walks js ((w4 @ render_members '','' ms @ ''}'') @ q) ts N key (length (pre @ [kt])) (token_count v) (key_value follows key (length b) v)"
      by (rule MCons.IH(1) [OF _ ok(1) _ _ behind_v]) (use js ts N in simp_all)
    from walks_suffix [OF this]
    have v: "walks js q ts N key (length (pre @ [kt])) (token_count v) (key_value follows key (length b) v)" .
    show ?thesis
    proof (cases "key_value follows key (length b) v")
      case Missing
      then have "find_shadow_key js ts N key (length pre) = find_shadow_key js ts N key (length pre2)"
        using v step by (simp add: walks_def pre2)
      from walks_later [OF this others, of "1 + token_count v + member_token_count ms"] show ?thesis
        unfolding res cnt using 3 Missing by (simp add: pre2)
    next
      case (At c x)
      then have "walks js q ts N key (length pre) m (At c x)" for m using v step by (simp add: walks_def hits_later)
      then show ?thesis unfolding res using 3 At by simp
    next
      case Unclear
      then show ?thesis unfolding res using 3 by (simp add: walks_def)
    qed
  qed
next
  case ENil
  then show ?case by (simp add: walks_def)
next
  case (ECons w1 v w2 es)
  define b where "b = p @ sep @ w1"
  define d where "d = b @ render v @ w2"
  define rest where "rest = element_tokens (length d) '','' es @ post"
  define follows where "follows = (behind \<or> es \<noteq> ENil)"
  have b: "length b = length p + length sep + length w1" by (simp add: b_def)
  have ld: "length b + length (render v) + length w2 = length d" by (simp add: d_def)
  have js: "js = b @ render v @ (w2 @ render_elements '','' es @ '']'') @ q" and js2: "js = d @ render_elements '','' es @ '']'' @ q"
    using ECons.prems(1) by (simp_all add: b_def d_def)
  have ts: "ts = pre @ tokens_of (length b) v @ rest"
    using ECons.prems(3) by (simp add: rest_def d_def b_def Let_def add.assoc)
  define pre2 where "pre2 = pre @ tokens_of (length b) v"
  have ts2: "ts = pre2 @ element_tokens (length d) '','' es @ post" and pre2: "length pre2 = length pre + token_count v"
    by (simp_all add: ts pre2_def rest_def)
  have ok: "json_ok v" "elements_ok es" using ECons.prems(2) by simp_all
  have N: "N = int (length pre + token_count v + (element_token_count es + n))" using ECons.prems(4) by simp
  have last: "goes_on behind n (length d + length (render_elements '','' es)) post"
    using ECons.prems(5) by (simp add: d_def b_def add.assoc)
  have behind_v: "goes_on follows (element_token_count es + n) (length b + length (render v)) rest"
    unfolding follows_def rest_def by (rule goes_on_elements [OF last _ ok(2)]) (simp add: d_def)
  have others: "walks js q ts N key (length pre2) (element_token_count es) (key_elements behind key (length d) '','' es)"
    by (rule ECons.IH(2) [OF js2 ok(2) ts2 _ last]) (simp add: N pre2)
  have "walks js ((w2 @ render_elements '','' es @ '']'') @ q) ts N key (length pre) (token_count v) (key_value follows key (length b) v)"
    by (rule ECons.IH(1) [OF _ ok(1) _ _ behind_v]) (use js ts N in simp_all)
  from walks_suffix [OF this] have v: "walks js q ts N key (length pre) (token_count v) (key_value follows key (length b) v)" .
  have res: "key_elements behind key (length p) sep (ECons w1 v w2 es) =
      (case key_value follows key (length b) v of Missing \<Rightarrow> key_elements behind key (length d) '','' es | r \<Rightarrow> r)"
    unfolding key_elements.simps Let_def b [symmetric] follows_def [symmetric] ld ..
  have cnt: "element_token_count (ECons w1 v w2 es) = token_count v + element_token_count es" by simp
  show ?case
  proof (cases "key_value follows key (length b) v")
    case Missing
    then have "find_shadow_key js ts N key (length pre) = find_shadow_key js ts N key (length pre2)"
      using v by (simp add: walks_def pre2)
    from walks_later [OF this others, of "token_count v + element_token_count es"] show ?thesis
      unfolding res cnt using Missing by (simp add: pre2)
  next
    case (At c x)
    then show ?thesis unfolding res using v by (simp add: walks_def)
  next
    case Unclear
    then show ?thesis unfolding res by (simp add: walks_def)
  qed
qed

subsection \<open>The variable of a key\<close>

text \<open>The integer a text is the decimal notation of.\<close>

definition decimal :: "string \<Rightarrow> int option" where
  "decimal s = (let z = (case s of [] \<Rightarrow> 0 | c # cs \<Rightarrow> if c = CHR ''-'' then - atoi_digits 0 cs else atoi_digits 0 s)
     in if show_int z = s then Some z else None)"

lemma decimal_text: "decimal s = Some z \<Longrightarrow> s = show_int z"
  by (auto simp: decimal_def Let_def split: if_splits)

lemma decimal_show_int [simp]: "decimal (show_int z) = Some z"
proof (cases "z < 0")
  case True
  then show ?thesis by (simp add: decimal_def show_int_def atoi_digits_show_nat)
next
  case False
  obtain c cs where c: "show_nat (nat z) = c # cs" using show_nat_nonempty by (cases "show_nat (nat z)") auto
  have "is_digit c" using c show_nat_digits [of c "nat z"] by simp
  then have "c \<noteq> CHR ''-''" using is_digit_not_special [of c] by simp
  then show ?thesis using False c atoi_digits_show_nat [of "nat z"] by (simp add: decimal_def show_int_def)
qed

text \<open>
  What a decimal integer leaves in a variable: the number if the type has it, and nothing if the code refuses it. The
  outer \<^term>\<open>None\<close> is a number for which the conversion of \<open>sscanf\<close> is undefined.
\<close>

definition integer_value :: "JsonPrimitiveType \<Rightarrow> int \<Rightarrow> json_data option option" where
  "integer_value ty z = (case ty of
       SHADOW_JSON_INT32 \<Rightarrow> if INT_MIN \<le> z \<and> z \<le> INT_MAX then Some (Some (Data_int32 z)) else None
     | SHADOW_JSON_INT16 \<Rightarrow> if INT_MIN \<le> z \<and> z \<le> INT_MAX
         then Some (if -32768 \<le> z \<and> z \<le> 32767 then Some (Data_int16 z) else None) else None
     | SHADOW_JSON_INT8 \<Rightarrow> if INT_MIN \<le> z \<and> z \<le> INT_MAX
         then Some (if -128 \<le> z \<and> z \<le> 127 then Some (Data_int8 z) else None) else None
     | SHADOW_JSON_UINT32 \<Rightarrow> if z < 0 then Some None
         else if z \<le> 4294967295 then Some (Some (Data_uint32 (word_of_int z))) else None
     | SHADOW_JSON_UINT16 \<Rightarrow> if z < 0 then Some None
         else if z \<le> 65535 then Some (Some (Data_uint16 (word_of_int z))) else None
     | SHADOW_JSON_UINT8 \<Rightarrow> if z < 0 then Some None
         else if z \<le> 255 then Some (Some (Data_uint8 (word_of_int z))) else if z \<le> 4294967295 then Some None else None
     | _ \<Rightarrow> None)"

text \<open>
  What a JSON value leaves in a variable: strings that fit with their end go into strings, the other primitive values
  into Booleans and numbers; a floating-point number is what the conversion reads in the rest of the text. Nothing is
  stored where the kinds differ or the variable is too small. A number for an integer variable that is not written in
  decimal is not described.
\<close>

definition document_value :: "float_lib \<Rightarrow> jsonStruct \<Rightarrow> json \<Rightarrow> string \<Rightarrow> json_data option option" where
  "document_value F j x txt =
     (if dataLength j < type_size (data_type j) then Some None
      else case x of
        JString s \<Rightarrow> Some (if data_type j = SHADOW_JSON_STRING \<and> length s < dataLength j then Some (Data_string s) else None)
      | JPrimitive s \<Rightarrow> (case data_type j of
            SHADOW_JSON_STRING \<Rightarrow> Some None
          | SHADOW_JSON_OBJECT \<Rightarrow> Some None
          | SHADOW_JSON_BOOL \<Rightarrow> Some (if take 4 s = ''true'' then Some (Data_bool True)
              else if take 5 s = ''false'' then Some (Data_bool False) else None)
          | SHADOW_JSON_FLOAT \<Rightarrow> Some (map_option Data_float (scan_f F txt))
          | SHADOW_JSON_DOUBLE \<Rightarrow> Some (map_option Data_double (scan_lf F txt))
          | ty \<Rightarrow> Option.bind (decimal s) (integer_value ty))
      | _ \<Rightarrow> Some None)"

text \<open>Position and length of a value for the application: without the quotes of a string.\<close>

definition value_start :: "nat \<Rightarrow> json \<Rightarrow> nat" where
  "value_start c x = (case x of JString s \<Rightarrow> c + 1 | _ \<Rightarrow> c)"

definition value_length :: "json \<Rightarrow> nat" where
  "value_length x = (case x of JString s \<Rightarrow> length s | _ \<Rightarrow> length (render x))"

lemma first_token:
  "tok_start (hd (tokens_of c x)) = int (value_start c x)"
  "tok_end (hd (tokens_of c x)) = int (value_start c x) + int (value_length x)"
  "tok_type (hd (tokens_of c x)) = (case x of JObject w ms \<Rightarrow> JSMN_OBJECT | JArray w es \<Rightarrow> JSMN_ARRAY
     | JString s \<Rightarrow> JSMN_STRING | JPrimitive s \<Rightarrow> JSMN_PRIMITIVE)"
  by (cases x; simp add: value_start_def value_length_def mk_token_def)+

text \<open>A word inside a text, compared by \<open>strncmp\<close>.\<close>

lemma strncmp_prefix:
  "js = u @ s @ z @ q \<Longrightarrow> z \<noteq> [] \<Longrightarrow> ends_primitive (hd z) \<Longrightarrow> list_all (\<lambda>c. \<not> ends_primitive c) word \<Longrightarrow>
     json_strncmp js (int (length u)) word = Some (take (length word) s = word)"
proof (induction word arbitrary: u s)
  case Nil
  then show ?case by simp
next
  case (Cons c cs)
  show ?case
  proof (cases s)
    case Nil
    obtain d ds where z: "z = d # ds" using Cons.prems(2) by (cases z) auto
    have "d \<noteq> c" using Cons.prems(3,4) z by auto
    then show ?thesis using Cons.prems(1) Nil z by (simp add: doc_char_def char_at_def)
  next
    case (Cons d ds)
    have "json_strncmp js (int (length (u @ [d]))) cs = Some (take (length cs) ds = cs)"
      using Cons.prems Cons by (intro Cons.IH [of "u @ [d]" ds]) simp_all
    then show ?thesis using Cons.prems(1) Cons by (auto simp: doc_char_def char_at_def add.commute)
  qed
qed

text \<open>The parser of a type stores this value, or nothing.\<close>

definition parses_to :: "json_data parsed \<Rightarrow> json_data option \<Rightarrow> bool" where
  "parses_to p v \<longleftrightarrow> (\<exists>rc. p = Some (rc, v))"

lemma parses_to_stored [simp]: "parses_to (stored f (Some (rc, v))) (map_option f v)"
  by (simp add: parses_to_def stored_def)

lemma parse_other_type:
  assumes "tok_type t \<noteq> JSMN_PRIMITIVE" and "ty = SHADOW_JSON_STRING \<longrightarrow> tok_type t \<noteq> JSMN_STRING"
  shows "parses_to (parse_value F ty n js t) None"
  using assms
  by (cases ty) (simp_all add: parses_to_def stored_def parse_value_def parseBooleanValue_def parseInteger32Value_def
      parseInteger16Value_def parseInteger8Value_def parseUnsignedInteger32Value_def parseUnsignedInteger16Value_def
      parseUnsignedInteger8Value_def parseFloatValue_def parseDoubleValue_def parseStringValue_def Let_def)

lemma parse_boolean_text:
  assumes js: "js = u @ s @ z @ q" and ends: "z \<noteq> []" "ends_primitive (hd z)"
    and t: "tok_type t = JSMN_PRIMITIVE" "tok_start t = int (length u)"
  shows "parses_to (stored Data_bool (parseBooleanValue js t)) (if take 4 s = ''true'' then Some (Data_bool True)
    else if take 5 s = ''false'' then Some (Data_bool False) else None)"
proof -
  have words: "list_all (\<lambda>c. \<not> ends_primitive c) ''true''" "list_all (\<lambda>c. \<not> ends_primitive c) ''false''" by code_simp+
  have "json_strncmp js (tok_start t) ''true'' = Some (take 4 s = ''true'')"
    "json_strncmp js (tok_start t) ''false'' = Some (take 5 s = ''false'')"
    using strncmp_prefix [OF js ends words(1)] strncmp_prefix [OF js ends words(2)] t(2) by (simp_all add: numeral_eq_Suc)
  then show ?thesis using t(1) by (auto simp: parseBooleanValue_def parses_to_def stored_def simp del: json_strncmp.simps)
qed

lemma parse_integer_text:
  assumes js: "js = u @ show_int z @ rest" and nul: "NUL \<in> set rest" and rest: "number_ends rest"
    and t: "t = mk_token JSMN_PRIMITIVE (length u) (length (show_int z)) 0" and v: "integer_value ty z = Some v"
  shows "parses_to (parse_value F ty n js t) v"
  using v integers_any [OF js nul rest t]
  by (cases ty) (auto simp: integer_value_def parses_to_def stored_def parse_value_def split: if_splits)

lemma update_value:
  assumes js: "js = u @ render x @ z @ q" and ends: "z \<noteq> []" "ends_primitive (hd z)" and nul: "NUL \<in> set q" and x: "json_ok x"
    and v: "document_value F j x (takeWhile (\<lambda>c. c \<noteq> NUL) (drop (value_start (length u) x) js)) = Some v"
  shows "\<exists>rc. UpdateValueIfNoObject F js j (hd (tokens_of (length u) x)) m = (case v of
      None \<Rightarrow> Some (rc, m) | Some d \<Rightarrow> do { a \<leftarrow> pData j; Some (rc, m(a := d)) })"
proof (cases "dataLength j < type_size (data_type j)")
  case True
  then show ?thesis using v by (auto simp: document_value_def UpdateValueIfNoObject_def)
next
  case False
  let ?t = "hd (tokens_of (length u) x)"
  have "parses_to (parse_value F (data_type j) (dataLength j) js ?t) v"
  proof (cases x)
    case (JString s)
    have "take (length (json_quoted s)) (drop (length u) js) = json_quoted s" using js JString by simp
    from parse_string_value [OF this, of "dataLength j"] show ?thesis
      using v False JString x parse_other_type [of ?t "data_type j" F "dataLength j" js] first_token(3) [of "length u" x]
      by (cases "data_type j = SHADOW_JSON_STRING"; cases "length s < dataLength j")
        (auto simp: document_value_def parse_value_def parses_to_def stored_def parseStringValue_def Let_def mk_token_def)
  next
    case (JPrimitive s)
    have t: "?t = mk_token JSMN_PRIMITIVE (length u) (length s) 0" by (simp add: JPrimitive)
    have tt: "tok_type ?t = JSMN_PRIMITIVE" "tok_start ?t = int (length u)" by (simp_all add: t mk_token_def)
    have js': "js = u @ s @ z @ q" using js JPrimitive by simp
    have here: "doc_string js (int (length u)) = Some (takeWhile (\<lambda>c. c \<noteq> NUL) (drop (length u) js))"
      using nul js by (simp add: doc_string_def text_in_def)
    have num: "parses_to (parse_value F (data_type j) (dataLength j) js ?t) v" if "Option.bind (decimal s) (integer_value (data_type j)) = Some v"
    proof -
      obtain k where k: "decimal s = Some k" "integer_value (data_type j) k = Some v" using \<open>Option.bind _ _ = _\<close> by (auto simp: Option.bind_eq_Some_conv)
      have s: "s = show_int k" by (rule decimal_text [OF k(1)])
      show ?thesis
        by (rule parse_integer_text [OF _ _ number_ends_primitive [OF ends] _ k(2)]) (use js' nul t s in auto)
    qed
    have bool: "parses_to (stored Data_bool (parseBooleanValue js ?t)) (if take 4 s = ''true'' then Some (Data_bool True)
        else if take 5 s = ''false'' then Some (Data_bool False) else None)"
      by (rule parse_boolean_text [OF js' ends tt])
    show ?thesis
    proof (cases "data_type j")
      case SHADOW_JSON_BOOL
      then show ?thesis using v False bool by (simp add: document_value_def JPrimitive parse_value_def)
    next
      case SHADOW_JSON_FLOAT
      then show ?thesis using v False here tt
        by (auto simp: document_value_def JPrimitive parse_value_def parseFloatValue_def parses_to_def stored_def value_start_def
          split: option.splits)
    next
      case SHADOW_JSON_DOUBLE
      then show ?thesis using v False here tt
        by (auto simp: document_value_def JPrimitive parse_value_def parseDoubleValue_def parses_to_def stored_def value_start_def
          split: option.splits)
    next
      case SHADOW_JSON_STRING
      then show ?thesis using v False tt
        by (simp add: document_value_def JPrimitive parse_value_def parses_to_def stored_def parseStringValue_def Let_def)
    next
      case SHADOW_JSON_OBJECT
      then show ?thesis using v False by (simp add: document_value_def JPrimitive parse_value_def parses_to_def)
    qed (use v False num in \<open>simp_all add: document_value_def JPrimitive\<close>)
  qed (use v False parse_other_type [of ?t "data_type j" F "dataLength j" js] first_token(3) [of "length u" x]
      in \<open>simp_all add: document_value_def\<close>)
  then show ?thesis using False
    by (auto simp: UpdateValueIfNoObject_def parses_to_def Option.bind_eq_Some_conv split: option.splits)
qed

subsection \<open>The table\<close>

text \<open>
  One entry of the table on the document. Where the document has the key, the variable gets the value and the callback
  the rest of the receive buffer from the value on, with the length of the value and the address of the record.
\<close>

definition deliver_value ::
  "'w shadow_app \<Rightarrow> JsonTokenTable_t \<Rightarrow> nat \<Rightarrow> json \<Rightarrow> 'w shadow_st \<Rightarrow> 'w shadow_st option"
where
  "deliver_value A e c x s =
     (let j = app_structs (wd s) (token_pStruct e); from_value = drop (value_start c x) (shadowRxBuf (sh s)) in do {
        v \<leftarrow> document_value (floats A) j x (takeWhile (\<lambda>c. c \<noteq> NUL) from_value);
        m \<leftarrow> (case v of None \<Rightarrow> Some (app_memory (wd s)) | Some d \<Rightarrow> map_option (\<lambda>a. (app_memory (wd s))(a := d)) (pData j));
        let s = s\<lparr>wd := (wd s)\<lparr>app_memory := m\<rparr>\<rparr>;
        case token_callback e of
          None \<Rightarrow> Some s
        | Some f \<Rightarrow> do {
            s' \<leftarrow> delta_callback A f from_value (of_nat (value_length x)) (token_pStruct e) s;
            Some (s'\<lparr>tm := tm s\<rparr>)
          }
      })"

definition deliver_entry :: "'w shadow_app \<Rightarrow> json \<Rightarrow> JsonTokenTable_t \<Rightarrow> 'w shadow_st \<Rightarrow> 'w shadow_st option" where
  "deliver_entry A doc e s =
     (if token_isFree e then Some s
      else do {
        key \<leftarrow> pKey (app_structs (wd s) (token_pStruct e));
        case key_value False key 0 doc of
          Missing \<Rightarrow> Some s
        | At c x \<Rightarrow> deliver_value A e c x s
        | Unclear \<Rightarrow> None
      })"

text \<open>All entries in the order of their registration, each in the state the last callback left.\<close>

fun deliver_all :: "'w shadow_app \<Rightarrow> json \<Rightarrow> JsonTokenTable_t list \<Rightarrow> 'w shadow_st \<Rightarrow> 'w shadow_st option" where
  "deliver_all A doc [] s = Some s"
| "deliver_all A doc (e # es) s = do { s \<leftarrow> deliver_entry A doc e s; deliver_all A doc es s }"

text \<open>What the callbacks of the application leave alone: the table, the receive buffer and the tokens.\<close>

definition same_registry :: "shadow_vars \<Rightarrow> shadow_vars \<Rightarrow> bool" where
  "same_registry v v' \<longleftrightarrow> tokenTable v' = tokenTable v \<and> tokenTableIndex v' = tokenTableIndex v \<and>
     shadowRxBuf v' = shadowRxBuf v \<and> jsonTokenStruct v' = jsonTokenStruct v"

definition keeps_registry :: "'w shadow_app \<Rightarrow> bool" where
  "keeps_registry A \<longleftrightarrow> (\<forall>f txt n a s s'. delta_callback A f txt n a s = Some s' \<longrightarrow> same_registry (sh s) (sh s'))"

lemma same_registry_refl [simp]: "same_registry v v"
  by (simp add: same_registry_def)

lemma same_registry_trans: "same_registry a b \<Longrightarrow> same_registry b c \<Longrightarrow> same_registry a c"
  by (simp add: same_registry_def)

lemma deliver_entry_registry:
  assumes "keeps_registry A" and "deliver_entry A doc e s = Some s'"
  shows "same_registry (sh s) (sh s')"
proof -
  have "same_registry (sh s) (sh s')" if "deliver_value A e c x s = Some s'" for c x
    using that assms(1)
    by (fastforce simp: deliver_value_def keeps_registry_def Let_def Option.bind_eq_Some_conv split: option.splits)
  note kept = this
  show ?thesis
  proof (cases "token_isFree e")
    case False
    then obtain key where "(case key_value False key 0 doc of Missing \<Rightarrow> Some s | At c x \<Rightarrow> deliver_value A e c x s | Unclear \<Rightarrow> None) = Some s'"
      using assms(2) by (auto simp: deliver_entry_def Option.bind_eq_Some_conv)
    then show ?thesis using kept by (cases "key_value False key 0 doc") simp_all
  qed (use assms(2) in \<open>simp add: deliver_entry_def\<close>)
qed

text \<open>The tokens and the text of the document are in place.\<close>

definition holds_document :: "json \<Rightarrow> shadow_vars \<Rightarrow> bool" where
  "holds_document doc v \<longleftrightarrow> (\<exists>q old. shadowRxBuf v = render doc @ q \<and> NUL \<in> set q \<and> jsonTokenStruct v = tokens_of 0 doc @ old)"

lemma holds_received [simp]: "holds_document doc (sh (received doc s))"
  by (auto simp: holds_document_def)

lemma same_registry_holds: "same_registry v v' \<Longrightarrow> holds_document doc v \<Longrightarrow> holds_document doc v'"
  by (simp add: same_registry_def holds_document_def)

lemma find_key_document:
  assumes doc: "doc = JObject w ms" "json_ok doc"
  shows "(case key_value False key 0 doc of
      Missing \<Rightarrow> find_shadow_key (render doc @ q) (tokens_of 0 doc @ old) (int (token_count doc)) key 1 = Some None
    | At c x \<Rightarrow> hits (render doc @ q) q (tokens_of 0 doc @ old) (int (token_count doc)) key 1 c x
    | Unclear \<Rightarrow> True)"
proof -
  define t0 where "t0 = mk_token JSMN_OBJECT 0 (length (render doc)) (member_count ms)"
  have "walks (render doc @ q) q (tokens_of 0 doc @ old) (int (token_count doc)) key (length [t0]) (member_token_count ms)
      (key_members False key (length (CHR ''{'' # w)) [] ms)"
    by (rule key_walk(2) [where n = 0 and post = old]) (use doc in \<open>simp_all add: t0_def goes_on_def\<close>)
  then have "walks (render doc @ q) q (tokens_of 0 doc @ old) (int (token_count doc)) key 1 (member_token_count ms) (key_value False key 0 doc)"
    using doc(1) by simp
  moreover have "find_shadow_key js ts (int (token_count doc)) key (1 + member_token_count ms) = Some None" for js ts
    using doc(1) by (subst find_shadow_key.simps) simp
  ultimately show ?thesis by (auto simp: walks_def split: key_result.splits)
qed

lemma deliver_key_entry:
  assumes doc: "doc = JObject w ms" "json_ok doc" and held: "holds_document doc (sh s)"
    and entry: "\<not> token_isFree e" "deliver_entry A doc e s = Some s'"
  shows "deliver_key A (int (token_count doc)) e s = Some s'"
proof -
  define j where "j = app_structs (wd s) (token_pStruct e)"
  obtain q old where q: "shadowRxBuf (sh s) = render doc @ q" "NUL \<in> set q" "jsonTokenStruct (sh s) = tokens_of 0 doc @ old"
    using held by (auto simp: holds_document_def)
  obtain key where key: "pKey j = Some key" using entry by (auto simp: deliver_entry_def j_def Option.bind_eq_Some_conv)
  note search = find_key_document [OF doc, where key = key and q = q and old = old]
  show ?thesis
  proof (cases "key_value False key 0 doc")
    case Missing
    then show ?thesis using search key entry q
      by (simp add: deliver_entry_def deliver_key_def isJsonKeyMatchingAndUpdateValue_def j_def)
  next
    case (At c x)
    then have hit: "hits (render doc @ q) q (tokens_of 0 doc @ old) (int (token_count doc)) key 1 c x" using search by simp
    then obtain i u z where h: "find_shadow_key (render doc @ q) (tokens_of 0 doc @ old) (int (token_count doc)) key 1 = Some (Some i)"
      "tok_at (tokens_of 0 doc @ old) (i + 1) = Some (hd (tokens_of c x))" "render doc @ q = u @ render x @ z @ q" "length u = c"
      "z \<noteq> []" "ends_primitive (hd z)" "json_ok x"
      unfolding hits_def by blast
    have run: "deliver_value A e c x s = Some s'" using entry At key by (simp add: deliver_entry_def j_def)
    then obtain v where v: "document_value (floats A) j x (takeWhile (\<lambda>c. c \<noteq> NUL) (drop (value_start c x) (render doc @ q))) = Some v"
      by (auto simp: deliver_value_def Let_def Option.bind_eq_Some_conv j_def q(1))
    obtain rc where up: "UpdateValueIfNoObject (floats A) (render doc @ q) j (hd (tokens_of c x)) (app_memory (wd s)) = (case v of
        None \<Rightarrow> Some (rc, app_memory (wd s)) | Some d \<Rightarrow> do { a \<leftarrow> pData j; Some (rc, (app_memory (wd s))(a := d)) })"
      using update_value [OF h(3,5,6) q(2) h(7), of "floats A" j v "app_memory (wd s)"] v h(4) by auto
    have match: "isJsonKeyMatchingAndUpdateValue (floats A) (render doc @ q) (tokens_of 0 doc @ old) (int (token_count doc)) j (app_memory (wd s)) =
        map_option (\<lambda>m. (Some (int (value_start c x), of_nat (value_length x)), m))
          (case v of None \<Rightarrow> Some (app_memory (wd s)) | Some d \<Rightarrow> map_option (\<lambda>a. (app_memory (wd s))(a := d)) (pData j))"
      using key h(1,2) up
      by (cases v; cases "pData j") (simp_all add: isJsonKeyMatchingAndUpdateValue_def first_token)
    show ?thesis
      using run unfolding deliver_value_def deliver_key_def j_def [symmetric] q(1,3) Let_def match v Option.bind.simps
      by (cases v; cases "pData j"; cases "token_callback e") (simp_all add: q(1) del: drop_append)
  next
    case Unclear
    then show ?thesis using entry key by (simp add: deliver_entry_def j_def)
  qed
qed

lemma delta_loop_all:
  assumes doc: "doc = JObject w ms" "json_ok doc" and app: "keeps_registry A"
  shows "holds_document doc (sh s) \<Longrightarrow> tokenTableIndex (sh s) = n \<Longrightarrow> n \<le> length (tokenTable (sh s)) \<Longrightarrow>
    n \<le> MAX_JSON_TOKEN_EXPECTED \<Longrightarrow> i \<le> n \<Longrightarrow> deliver_all A doc (drop i (take n (tokenTable (sh s)))) s = Some s' \<Longrightarrow>
    delta_loop A (int (token_count doc)) i s = Some s'"
proof (induction "n - i" arbitrary: i s)
  case 0
  then show ?case by (subst delta_loop.simps) simp
next
  case (Suc k)
  let ?e = "tokenTable (sh s) ! i"
  have i: "i < n" using Suc.hyps(2) by simp
  then have "drop i (take n (tokenTable (sh s))) = ?e # drop (Suc i) (take n (tokenTable (sh s)))"
    using Suc.prems(3) Cons_nth_drop_Suc [of i "take n (tokenTable (sh s))"] by simp
  then obtain s1 where s1: "deliver_entry A doc ?e s = Some s1" "deliver_all A doc (drop (Suc i) (take n (tokenTable (sh s)))) s1 = Some s'"
    using Suc.prems(6) by (auto simp: Option.bind_eq_Some_conv)
  have same: "same_registry (sh s) (sh s1)" by (rule deliver_entry_registry [OF app s1(1)])
  have "delta_loop A (int (token_count doc)) (Suc i) s1 = Some s'"
    by (rule Suc.hyps(1)) (use Suc same i s1(2) same_registry_holds [OF same] in \<open>simp_all add: same_registry_def\<close>)
  moreover have "(if token_isFree ?e then Some s else deliver_key A (int (token_count doc)) ?e s) = Some s1"
    using s1(1) deliver_key_entry [OF doc Suc.prems(1) _ s1(1)] by (auto simp: deliver_entry_def)
  ultimately show ?case using i Suc.prems(2,4) by (subst delta_loop.simps) (simp add: Let_def)
qed

subsection \<open>The version\<close>

text \<open>
  The version of a document, if it has one: the first string that reads so is a key, and its value is a number of 32
  bits. The outer \<^term>\<open>None\<close> is a document where this is not so.
\<close>

definition version_of :: "json \<Rightarrow> nat option option" where
  "version_of doc = (case seek [] SHADOW_VERSION_STRING doc of
       Absent \<Rightarrow> Some None
     | Found (JPrimitive s) \<Rightarrow> (case decimal s of Some z \<Rightarrow> if 0 \<le> z \<and> z < 2 ^ 32 then Some (Some (nat z)) else None | None \<Rightarrow> None)
     | _ \<Rightarrow> None)"

lemma extract_version_of:
  assumes doc: "doc = JObject w ms" "json_ok doc" and nul: "NUL \<in> set q" and version: "version_of doc = Some ver"
  shows "extractVersionNumber (render doc @ q) (tokens_of 0 doc @ old) (int (token_count doc)) = Some (map_option of_nat ver)"
proof (cases "seek [] SHADOW_VERSION_STRING doc")
  case Absent
  obtain t0 ts where ts: "tokens_of 0 doc = t0 # ts" using doc(1) by simp
  then have n: "token_count doc = Suc (length ts)" using length_tokens(1) [of 0 doc] by simp
  have none: "jsoneq (render doc @ q) t SHADOW_VERSION_STRING = Some False" if "t \<in> set ts" for t
    using jsoneq_tokens(1) [where p = "[]" and v = doc and t = t and q = q, OF _ seek_absent(1) [OF Absent]] ts that by simp
  have "version_loop (render doc @ q) ([t0] @ ts @ old) [1..<Suc (length ts)] =
      version_loop (render doc @ q) ([t0] @ ts @ old) [1 + length ts..<Suc (length ts)]"
    by (rule version_skip) (use none in simp_all)
  then have "version_loop (render doc @ q) ((t0 # ts) @ old) [1..<Suc (length ts)] = Some None" by (simp del: upt_Suc)
  then show ?thesis using version Absent unfolding extractVersionNumber_def ts n nat_int by (auto simp: version_of_def simp del: upt_Suc)
next
  case (Found x)
  then obtain s z where s: "x = JPrimitive s" "decimal s = Some z" "0 \<le> z" "z < 2 ^ 32" "ver = Some (nat z)"
    using version by (auto simp: version_of_def split: json.split_asm option.split_asm if_split_asm)
  have "s = show_nat (nat z)" using decimal_text [OF s(2)] s(3) by (simp add: show_int_def)
  then have "seek [] SHADOW_VERSION_STRING doc = Found (JPrimitive (show_nat (nat z)))" using Found s(1) by simp
  from extract_version_found [OF doc(1) refl doc(2) nul this, of old] show ?thesis using s(4,5) by (simp add: nat_less_iff s(3))
qed (use version in \<open>simp add: version_of_def\<close>)

definition set_version :: "nat \<Rightarrow> 'w shadow_st \<Rightarrow> 'w shadow_st" where
  "set_version n s = upd_shadow (shadowJsonVersionNum_update (\<lambda>_. of_nat n)) s"

lemma set_version_simps [simp]:
  "cl (set_version n s) = cl s" "tm (set_version n s) = tm s" "shadowJsonVersionNum (sh (set_version n s)) = of_nat n"
  "AckWaitList (sh (set_version n s)) = AckWaitList (sh s)" "SubscriptionList (sh (set_version n s)) = SubscriptionList (sh s)"
  "tokenTable (sh (set_version n s)) = tokenTable (sh s)" "tokenTableIndex (sh (set_version n s)) = tokenTableIndex (sh s)"
  "shadowRxBuf (sh (set_version n s)) = shadowRxBuf (sh s)" "jsonTokenStruct (sh (set_version n s)) = jsonTokenStruct (sh s)"
  "myThingName (sh (set_version n s)) = myThingName (sh s)"
  by (simp_all add: set_version_def)

lemma holds_set_version [simp]: "holds_document doc (sh (set_version n s)) = holds_document doc (sh s)"
  by (simp add: holds_document_def)

text \<open>An answer notes a version that is newer than the last.\<close>

definition raise_version :: "nat option \<Rightarrow> 'w shadow_st \<Rightarrow> 'w shadow_st" where
  "raise_version ver s = (case ver of None \<Rightarrow> s | Some n \<Rightarrow> if shadowJsonVersionNum (sh s) < of_nat n then set_version n s else s)"

lemma raise_version_simps [simp]:
  "cl (raise_version ver s) = cl s" "tm (raise_version ver s) = tm s"
  "AckWaitList (sh (raise_version ver s)) = AckWaitList (sh s)"
  "shadowRxBuf (sh (raise_version ver s)) = shadowRxBuf (sh s)" "jsonTokenStruct (sh (raise_version ver s)) = jsonTokenStruct (sh s)"
  "myThingName (sh (raise_version ver s)) = myThingName (sh s)"
  by (simp_all add: raise_version_def split: option.splits)

lemma update_version_received:
  assumes "doc = JObject w ms" "json_ok doc" and "version_of doc = Some ver"
  shows "update_version (int (token_count doc)) (received doc s) = Some (raise_version ver (received doc s))"
  using extract_version_of [OF assms(1,2) _ assms(3), of "NUL # drop (length (render doc) + 1) (shadowRxBuf (sh s))"]
  by (cases ver) (auto simp: update_version_def raise_version_def set_version_def)

subsection \<open>The callback\<close>

text \<open>
  What a delta message does: the document is taken into the buffers; where old messages are discarded, one with a
  version is dropped unless it is newer than the last, and then its version is noted; then the table is gone through.
\<close>

definition delta_outcome :: "'w shadow_app \<Rightarrow> json \<Rightarrow> 'w shadow_st \<Rightarrow> 'w shadow_st option" where
  "delta_outcome A doc s =
     (let r = received doc s; entries = take (tokenTableIndex (sh s)) (tokenTable (sh s)) in
      if \<not> shadowDiscardOldDeltaFlag (sh s) then deliver_all A doc entries r
      else do {
        ver \<leftarrow> version_of doc;
        case ver of
          None \<Rightarrow> deliver_all A doc entries r
        | Some n \<Rightarrow> if of_nat n \<le> shadowJsonVersionNum (sh s) then Some r else deliver_all A doc entries (set_version n r)
      })"

lemma accept_delta_received:
  assumes doc: "doc = JObject w ms" "json_ok doc" and version: "version_of doc = Some ver" and flag: "shadowDiscardOldDeltaFlag (sh s)"
  shows "accept_delta (int (token_count doc)) (received doc s) = Some (case ver of
      None \<Rightarrow> (True, received doc s)
    | Some n \<Rightarrow> if of_nat n \<le> shadowJsonVersionNum (sh s) then (False, received doc s) else (True, set_version n (received doc s)))"
  using flag extract_version_of [OF doc _ version, of "NUL # drop (length (render doc) + 1) (shadowRxBuf (sh s))"]
  by (cases ver) (auto simp: accept_delta_def set_version_def)

lemma delta_callback_outcome:
  assumes doc: "doc = JObject w ms" "json_ok doc" "token_count doc \<le> MAX_JSON_TOKEN_EXPECTED"
    and msg: "carries msg (render doc) s" "buffers_ok (sh s)" and app: "keeps_registry A"
    and table: "tokenTableIndex (sh s) \<le> MAX_JSON_TOKEN_EXPECTED" "length (tokenTable (sh s)) = MAX_JSON_TOKEN_EXPECTED"
    and outcome: "delta_outcome A doc s = Some s'"
  shows "shadow_delta_callback A msg s = Some s'"
proof -
  let ?r = "received doc s" and ?cnt = "int (token_count doc)" and ?es = "take (tokenTableIndex (sh s)) (tokenTable (sh s))"
  have all: "delta_loop A ?cnt 0 t = Some s'"
    if "deliver_all A doc ?es t = Some s'" "t = ?r \<or> t = set_version n ?r" for t n
    by (rule delta_loop_all [OF doc(1,2) app, where n = "tokenTableIndex (sh s)"]) (use that table in auto)
  have rec: "receive_document msg s = Some (Some ?cnt, ?r)" by (rule receive_document_object [OF doc msg])
  show ?thesis
  proof (cases "shadowDiscardOldDeltaFlag (sh s)")
    case False
    then show ?thesis using rec outcome all
      by (simp add: delta_outcome_def shadow_delta_callback_def accept_delta_def)
  next
    case True
    then obtain ver where ver: "version_of doc = Some ver"
      using outcome by (auto simp: delta_outcome_def Let_def Option.bind_eq_Some_conv)
    show ?thesis using rec outcome True ver accept_delta_received [OF doc(1,2) ver True] all
      by (cases ver) (auto simp: delta_outcome_def shadow_delta_callback_def split: if_split_asm)
  qed
qed

end
