(* ===== verification/ShadowRequests.thy ===== *)
theory ShadowRequests
  imports ShadowRecordsProperties
begin

text \<open>
  The properties of the device shadow's requests: what a successful one leaves in the tables, and what the code does
  when the table of subscriptions is full or the request cannot be published.
\<close>

subsection \<open>Stages of a request\<close>

text \<open>A request with a token and a callback.\<close>

lemma internal_action_stages:
  assumes tok: "extractClientToken js n (jsonTokenStruct (sh s)) MAX_SIZE_CLIENT_ID_WITH_SEQUENCE = Some (Some token, ts)"
  shows "aws_iot_shadow_internal_action P (Some name) action (Some js) n (Some f) ctx sec sticky s = do {
      (rc, index, s) \<leftarrow> prepare_answer P name action sticky (upd_shadow (jsonTokenStruct_update (\<lambda>_. ts)) s);
      if rc \<noteq> SUCCESS then Some (rc, s)
      else do {
        thing \<leftarrow> text_in name;
        doc \<leftarrow> text_in js;
        (rc, s) \<leftarrow> publishToShadowAction P thing action doc s;
        if rc \<noteq> SUCCESS then Some (rc, s)
        else case index of
          Some i \<Rightarrow> do {
            s \<leftarrow> addToAckWaitList P i name action token (Some f) ctx sec s;
            Some (SUCCESS, s)
          }
        | None \<Rightarrow> Some (SUCCESS, s)
      }
    }"
  by (simp add: aws_iot_shadow_internal_action_def tok Let_def cong: if_cong option.case_cong)

lemma prepare_answer_index:
  assumes "prepare_answer P name action sticky s = Some (rc, i, s')"
  shows "i = getNextFreeIndexOfAckWaitList (sh s) \<and> (i = None \<longrightarrow> rc = FAILURE)"
  using assms by (auto simp: prepare_answer_def Option.bind_eq_Some_conv split: option.split_asm if_split_asm)

text \<open>(C30) A request that waits. When a request with a client token and a callback succeeds, its entry is the first one
  that was free, with the token, the callback, and the name of the thing as an array of its own size: the call is not
  defined unless the caller's array has this size, however short the name in it is.\<close>

theorem request_waits:
  assumes K: "platform_keeps shadow_le P" and H: "subscriber_keeps shadow_le P"
    and tok: "extractClientToken js n (jsonTokenStruct (sh s)) MAX_SIZE_CLIENT_ID_WITH_SEQUENCE = Some (Some token, ts)"
    and run: "aws_iot_shadow_internal_action P (Some name) action (Some js) n (Some f) ctx sec sticky s = Some (SUCCESS, s')"
    and table: "length (AckWaitList (sh s)) = MAX_ACKS_TO_COMEIN_AT_ANY_GIVEN_TIME"
  shows "\<exists>i t. getNextFreeIndexOfAckWaitList (sh s) = Some i \<and> i < 10 \<and> 20 \<le> length name \<and>
    AckWaitList (sh s') ! i = \<lparr>clientTokenID = token, ack_thingName = take 20 name, ack_action = action,
      ack_callback = Some f, pCallbackContext = ctx, ack_isFree = False, ack_timer = t\<rparr>"
proof -
  define s1 where "s1 = upd_shadow (jsonTokenStruct_update (\<lambda>_. ts)) s"
  have w1: "shadow_le (wd s) (wd s1)"
    unfolding s1_def using extract_token_room [OF tok] by (intro shadow_le_upd vars_le_tokens shadow_order.W_refl)
  note run = run [unfolded internal_action_stages [OF tok], folded s1_def]
  obtain rc i s2 where s2: "prepare_answer P name action sticky s1 = Some (rc, i, s2)"
    using run by (auto simp: Option.bind_eq_Some_conv)
  have i: "i = getNextFreeIndexOfAckWaitList (sh s)" "i = None \<longrightarrow> rc = FAILURE"
    using prepare_answer_index [OF s2] by (simp_all add: s1_def getNextFreeIndexOfAckWaitList_def)
  have w2: "shadow_le (wd s) (wd s2)" by (rule prepare_answer_le [OF K H s2 w1])
  have rc: "rc = SUCCESS" using run s2 by (cases "rc = SUCCESS") simp_all
  then obtain k where k: "i = Some k" using i(2) by (cases i) simp_all
  obtain thing doc rc3 s3 where s3: "publishToShadowAction P thing action doc s2 = Some (rc3, s3)"
    and fin: "(if rc3 \<noteq> SUCCESS then Some (rc3, s3) else case i of
        Some i \<Rightarrow> do { s \<leftarrow> addToAckWaitList P i name action token (Some f) ctx sec s3; Some (SUCCESS, s) }
      | None \<Rightarrow> Some (SUCCESS, s3)) = Some (SUCCESS, s')"
    using run s2 rc by (auto simp: Option.bind_eq_Some_conv)
  have w3: "shadow_le (wd s) (wd s3)" by (rule publish_action_le [OF K H s3 w2])
  have a: "addToAckWaitList P k name action token (Some f) ctx sec s3 = Some s'"
    using fin k by (auto simp: Option.bind_eq_Some_conv split: if_splits)
  obtain t s4 where t: "arm_sec P sec s3 = (t, s4)" by (cases "arm_sec P sec s3")
  have w4: "shadow_le (wd s) (wd s4)" by (rule shadow_order.simple_results(3) [OF K t w3])
  have len: "length (AckWaitList (sh s4)) = 10"
    using w4 table by (simp add: shadow_le_def vars_le_def MAX_ACKS_TO_COMEIN_AT_ANY_GIVEN_TIME_def)
  have k10: "k < 10"
    using i(1) k by (auto simp: getNextFreeIndexOfAckWaitList_def Let_def MAX_ACKS_TO_COMEIN_AT_ANY_GIVEN_TIME_def split: if_splits)
  have "20 \<le> length name" "AckWaitList (sh s') ! k = \<lparr>clientTokenID = token, ack_thingName = take 20 name, ack_action = action,
      ack_callback = Some f, pCallbackContext = ctx, ack_isFree = False, ack_timer = t\<rparr>"
    using a t len k10 by (auto simp: addToAckWaitList_def MAX_SIZE_OF_THING_NAME_def upd_ack_def split: if_splits)
  then show ?thesis using i(1) k k10 by (intro exI [of _ k] exI [of _ t]) simp
qed

text \<open>A request of a connected client that has already subscribed to the answers.\<close>

definition answers_to :: "string \<Rightarrow> ShadowAckTopicTypes_t \<Rightarrow> SubscriptionRecord_t" where
  "answers_to thing ack = \<lparr>Topic = topicNameFromThingAndAction thing SHADOW_UPDATE ack, sub_count = 1, sub_isFree = False, isSticky = False\<rparr>"

definition subscribed_vars :: shadow_vars where
  "subscribed_vars = connected_vars\<lparr>SubscriptionList :=
     answers_to ''ESP32'' SHADOW_ACCEPTED # answers_to ''ESP32'' SHADOW_REJECTED # replicate 18 free_sub\<rparr>"

definition request_json :: string where
  "request_json = render (request_document ''ESP32-0'') @ [NUL]"

definition thing_array :: string where "thing_array = ''ESP32'' @ replicate 15 NUL"

theorem request_waits_witness:
  "case aws_iot_shadow_internal_action demo_shadow (Some thing_array) SHADOW_UPDATE (Some request_json) 25 (Some 4) 0 5000 False
       (shadow_state idle_client subscribed_vars []) of
     None \<Rightarrow> False
   | Some (rc, s) \<Rightarrow> rc = SUCCESS \<and> clientTokenID (AckWaitList (sh s) ! 0) = ''ESP32-0''"
proof -
  let ?s = "shadow_state idle_client subscribed_vars []"
  let ?run = "aws_iot_shadow_internal_action demo_shadow (Some thing_array) SHADOW_UPDATE (Some request_json) 25 (Some 4) 0 5000 False ?s"
  have "(case ?run of None \<Rightarrow> False | Some (rc, s) \<Rightarrow> rc = SUCCESS)" by code_simp
  then obtain s' where run: "?run = Some (SUCCESS, s')" by (auto split: option.splits)
  have "map_option fst (extractClientToken request_json 25 (jsonTokenStruct (sh ?s)) MAX_SIZE_CLIENT_ID_WITH_SEQUENCE) = Some (Some ''ESP32-0'')"
    by code_simp
  then obtain ts where tok: "extractClientToken request_json 25 (jsonTokenStruct (sh ?s)) MAX_SIZE_CLIENT_ID_WITH_SEQUENCE = Some (Some ''ESP32-0'', ts)"
    by auto
  have table: "length (AckWaitList (sh ?s)) = MAX_ACKS_TO_COMEIN_AT_ANY_GIVEN_TIME" by code_simp
  have free: "getNextFreeIndexOfAckWaitList (sh ?s) = Some 0" by code_simp
  show ?thesis
    using request_waits [OF demo_shadow_keeps(1,2) tok run table] free run by auto
qed

subsection \<open>A full table\<close>

lemma no_free_entry: "list_all (\<lambda>r. \<not> sub_isFree r) (SubscriptionList (sh s)) \<Longrightarrow>
    length (SubscriptionList (sh s)) = MAX_TOPICS_AT_ANY_GIVEN_TIME \<Longrightarrow> getNextFreeIndexOfSubscriptionList s = (None, s)"
  by (simp add: getNextFreeIndexOfSubscriptionList_def list_all_iff Let_def takeWhile_eq_all_conv [THEN iffD2])

text \<open>Without a free entry for its topics, a request is sent all the same. It subscribes to nothing and goes on as
  after a subscription: it is published, and if that succeeds the caller gets \<open>SUCCESS\<close> and waits for an answer to which
  the client has not subscribed.\<close>

theorem full_table_request:
  assumes tok: "extractClientToken js n (jsonTokenStruct (sh s)) MAX_SIZE_CLIENT_ID_WITH_SEQUENCE = Some (Some token, ts)"
    and full: "list_all (\<lambda>r. \<not> sub_isFree r) (SubscriptionList (sh s))"
      "length (SubscriptionList (sh s)) = MAX_TOPICS_AT_ANY_GIVEN_TIME"
    and texts: "text_in name = Some thing" "text_in js = Some doc"
    and other: "\<not> isSubscriptionPresent thing action (sh s)" and free: "getNextFreeIndexOfAckWaitList (sh s) = Some i"
  shows "aws_iot_shadow_internal_action P (Some name) action (Some js) n (Some f) ctx sec sticky s = do {
      (rc, s) \<leftarrow> publishToShadowAction P thing action doc (upd_shadow (jsonTokenStruct_update (\<lambda>_. ts)) s);
      if rc = SUCCESS then do {
        s \<leftarrow> addToAckWaitList P i name action token (Some f) ctx sec s;
        Some (SUCCESS, s)
      }
      else Some (rc, s)
    }"
proof -
  define s1 where "s1 = upd_shadow (jsonTokenStruct_update (\<lambda>_. ts)) s"
  have f: "getNextFreeIndexOfSubscriptionList s1 = (None, s1)"
    by (rule no_free_entry) (use full in \<open>simp_all add: s1_def\<close>)
  have "prepare_answer P name action sticky s1 = Some (SUCCESS, Some i, s1)"
  proof -
    have "subscribeToShadowActionAcks P thing action sticky s1 = Some (SUCCESS, s1)"
      by (simp add: subscribeToShadowActionAcks_def f clear_entries_def)
    moreover have "\<not> isSubscriptionPresent thing action (sh s1)" "getNextFreeIndexOfAckWaitList (sh s1) = Some i"
      using other free by (simp_all add: s1_def getNextFreeIndexOfAckWaitList_def isSubscriptionPresent_def)
    ultimately show ?thesis using texts(1) by (simp add: prepare_answer_def)
  qed
  then show ?thesis
    unfolding internal_action_stages [OF tok] s1_def [symmetric]
    by (simp add: texts) (auto intro!: Option.bind_cong)
qed

text \<open>All entries hold topics of another thing.\<close>

definition full_vars :: shadow_vars where
  "full_vars = connected_vars\<lparr>SubscriptionList := replicate 20 (answers_to ''other'' SHADOW_ACCEPTED)\<rparr>"

theorem full_table_request_witness:
  "case aws_iot_shadow_internal_action demo_shadow (Some thing_array) SHADOW_UPDATE (Some request_json) 25 (Some 4) 0 5000 False
       (shadow_state idle_client full_vars []) of
     None \<Rightarrow> False
   | Some (rc, s) \<Rightarrow> rc = SUCCESS \<and> \<not> isSubscriptionPresent ''ESP32'' SHADOW_UPDATE (sh s) \<and> \<not> ack_isFree (AckWaitList (sh s) ! 0)"
proof -
  let ?s = "shadow_state idle_client full_vars []"
  have "map_option fst (extractClientToken request_json 25 (jsonTokenStruct (sh ?s)) MAX_SIZE_CLIENT_ID_WITH_SEQUENCE) = Some (Some ''ESP32-0'')"
    by code_simp
  then obtain ts where tok: "extractClientToken request_json 25 (jsonTokenStruct (sh ?s)) MAX_SIZE_CLIENT_ID_WITH_SEQUENCE = Some (Some ''ESP32-0'', ts)"
    by auto
  have full: "list_all (\<lambda>r. \<not> sub_isFree r) (SubscriptionList (sh ?s))" "length (SubscriptionList (sh ?s)) = MAX_TOPICS_AT_ANY_GIVEN_TIME"
    by (simp_all add: shadow_state_def full_vars_def connected_vars_def answers_to_def list_all_iff MAX_TOPICS_AT_ANY_GIVEN_TIME_def)
  have texts: "text_in thing_array = Some ''ESP32''" "text_in request_json = Some (render (request_document ''ESP32-0''))" by code_simp+
  have other: "\<not> isSubscriptionPresent ''ESP32'' SHADOW_UPDATE (sh ?s)" by code_simp
  have free: "getNextFreeIndexOfAckWaitList (sh ?s) = Some 0" by code_simp
  have "case publishToShadowAction demo_shadow ''ESP32'' SHADOW_UPDATE (render (request_document ''ESP32-0''))
        (upd_shadow (jsonTokenStruct_update (\<lambda>_. ts)) ?s) of None \<Rightarrow> False | Some (rc, s) \<Rightarrow> rc = SUCCESS \<and>
        (case addToAckWaitList demo_shadow 0 thing_array SHADOW_UPDATE ''ESP32-0'' (Some 4) 0 5000 s of None \<Rightarrow> False
         | Some s \<Rightarrow> \<not> isSubscriptionPresent ''ESP32'' SHADOW_UPDATE (sh s) \<and> \<not> ack_isFree (AckWaitList (sh s) ! 0))"
    by code_simp
  then show ?thesis
    unfolding full_table_request [OF tok full texts other free, of demo_shadow 4 0 5000 False] by (auto split: option.splits)
qed

subsection \<open>A request that cannot be published\<close>

definition same_tables :: "'w shadow_world \<Rightarrow> 'w shadow_world \<Rightarrow> bool" where
  "same_tables w w' \<longleftrightarrow> SubscriptionList (shadow w') = SubscriptionList (shadow w) \<and> AckWaitList (shadow w') = AckWaitList (shadow w)"

interpretation tables_order: world_order same_tables
  by unfold_locales (auto simp: same_tables_def)

text \<open>A request that fails after its topics are counted leaves them counted. When the topics of the answer are already
  subscribed and the publication fails, each of them has one use more and no request waits: the count does not come
  back to one, so that the last answer no longer unsubscribes them.\<close>

theorem failed_request_keeps_count:
  assumes K: "platform_keeps same_tables P"
    and tok: "extractClientToken js n (jsonTokenStruct (sh s)) MAX_SIZE_CLIENT_ID_WITH_SEQUENCE = Some (Some token, ts)"
    and thing: "text_in name = Some thing" and present: "isSubscriptionPresent thing action (sh s)"
    and free: "getNextFreeIndexOfAckWaitList (sh s) = Some i"
    and run: "aws_iot_shadow_internal_action P (Some name) action (Some js) n (Some f) ctx sec sticky s = Some (rc, s')" "rc \<noteq> SUCCESS"
  shows "SubscriptionList (sh s') = SubscriptionList (incrementSubscriptionCnt thing action sticky (sh s)) \<and>
    AckWaitList (sh s') = AckWaitList (sh s)"
proof -
  define s1 where "s1 = upd_shadow (jsonTokenStruct_update (\<lambda>_. ts)) s"
  define s2 where "s2 = upd_shadow (incrementSubscriptionCnt thing action sticky) s1"
  have "prepare_answer P name action sticky s1 = Some (SUCCESS, Some i, s2)"
    using thing present free
    by (simp add: prepare_answer_def s2_def s1_def getNextFreeIndexOfAckWaitList_def isSubscriptionPresent_def)
  note run1 = run(1) [unfolded internal_action_stages [OF tok], folded s1_def, unfolded this Option.bind.simps prod.case option.case]
  obtain doc rc3 s3 where s3: "publishToShadowAction P thing action doc s2 = Some (rc3, s3)"
    and fin: "(if rc3 \<noteq> SUCCESS then Some (rc3, s3) else do {
        s \<leftarrow> addToAckWaitList P i name action token (Some f) ctx sec s3; Some (SUCCESS, s) }) = Some (rc, s')"
    using run1 thing by (auto simp: Option.bind_eq_Some_conv)
  have "s' = s3" using fin run(2) by (auto simp: Option.bind_eq_Some_conv split: if_splits)
  moreover have "same_tables (wd s2) (wd s3)"
  proof (cases "pMqttClient_set (sh s2)")
    case True
    note run2 = s3 [unfolded publishToShadowAction_def Let_def if_P [OF True]]
    show ?thesis by (rule tables_order.publish0_world [OF K _ run2 tables_order.W_refl]) simp
  next
    case False
    then show ?thesis using s3 by (simp add: publishToShadowAction_def Let_def tables_order.W_refl)
  qed
  ultimately show ?thesis by (simp add: same_tables_def s2_def s1_def incrementSubscriptionCnt_def)
qed

text \<open>A transmit buffer too short for the packet.\<close>

lemma same_tables_demo: "platform_keeps same_tables demo_shadow"
  by (auto simp: platform_keeps_def demo_shadow_def on_rest_def same_tables_def split: prod.splits)

theorem failed_request_keeps_count_witness:
  "case aws_iot_shadow_internal_action demo_shadow (Some thing_array) SHADOW_UPDATE (Some request_json) 25 (Some 4) 0 5000 False
       (shadow_state (idle_client\<lparr>writeBufSize := 20\<rparr>) subscribed_vars []) of
     None \<Rightarrow> False
   | Some (rc, s) \<Rightarrow> rc \<noteq> SUCCESS \<and> sub_count (SubscriptionList (sh s) ! 0) = 2 \<and> ack_isFree (AckWaitList (sh s) ! 0)"
proof -
  let ?s = "shadow_state (idle_client\<lparr>writeBufSize := 20\<rparr>) subscribed_vars []"
  let ?run = "aws_iot_shadow_internal_action demo_shadow (Some thing_array) SHADOW_UPDATE (Some request_json) 25 (Some 4) 0 5000 False ?s"
  have "(case ?run of None \<Rightarrow> False | Some (rc, s) \<Rightarrow> rc \<noteq> SUCCESS)" by code_simp
  then obtain rc s' where run: "?run = Some (rc, s')" "rc \<noteq> SUCCESS" by (auto split: option.splits)
  have "map_option fst (extractClientToken request_json 25 (jsonTokenStruct (sh ?s)) MAX_SIZE_CLIENT_ID_WITH_SEQUENCE) = Some (Some ''ESP32-0'')"
    by code_simp
  then obtain ts where tok: "extractClientToken request_json 25 (jsonTokenStruct (sh ?s)) MAX_SIZE_CLIENT_ID_WITH_SEQUENCE = Some (Some ''ESP32-0'', ts)"
    by auto
  have thing: "text_in thing_array = Some ''ESP32''" by code_simp
  have present: "isSubscriptionPresent ''ESP32'' SHADOW_UPDATE (sh ?s)" by code_simp
  have free: "getNextFreeIndexOfAckWaitList (sh ?s) = Some 0" by code_simp
  have count: "sub_count (SubscriptionList (incrementSubscriptionCnt ''ESP32'' SHADOW_UPDATE False (sh ?s)) ! 0) = 2" by code_simp
  have "ack_isFree (AckWaitList (sh ?s) ! 0)" by code_simp
  then show ?thesis
    using failed_request_keeps_count [OF same_tables_demo tok thing present free run] count run by simp
qed

end
