(* ===== verification/ShadowSystem.thy ===== *)
theory ShadowSystem
  imports ShadowRequests
begin

text \<open>
  The calls of the device shadow in any order, as the steps of a relation, on a client that has the library's callbacks
  installed. And the wait after a subscription, which ends.
\<close>

subsection \<open>Calls in any order\<close>

text \<open>A call starts the shadow anew if it sets the version to zero: the reset, and an initialisation that succeeds.\<close>

inductive shadow_call ::
  "'w shadow_world platform \<Rightarrow> 'w shadow_app \<Rightarrow> bool \<Rightarrow> 'w shadow_st \<Rightarrow> 'w shadow_st \<Rightarrow> bool" for P A
where
  initialise: "aws_iot_shadow_init P p s = (rc, s') \<Longrightarrow> shadow_call P A (rc = SUCCESS) s s'"
| reset: "shadow_call P A True s (upd_shadow aws_iot_shadow_reset_last_received_version s)"
| connect: "aws_iot_shadow_connect P c s = Some (rc, s') \<Longrightarrow> shadow_call P A False s s'"
| background: "aws_iot_shadow_yield P A ms s = Some (rc, s') \<Longrightarrow> shadow_call P A False s s'"
| update: "aws_iot_shadow_update P name doc f ctx sec sticky s = Some (rc, s') \<Longrightarrow> shadow_call P A False s s'"
| get: "aws_iot_shadow_get P name f ctx sec sticky s = Some (rc, s') \<Longrightarrow> shadow_call P A False s s'"
| delete: "aws_iot_shadow_delete P name f ctx sec sticky s = Some (rc, s') \<Longrightarrow> shadow_call P A False s s'"
| register: "aws_iot_shadow_register_delta P a s = Some (rc, s') \<Longrightarrow> shadow_call P A False s s'"
| discard: "shadow_call P A False s (upd_shadow aws_iot_shadow_enable_discard_old_delta_msgs s)"
| keep: "shadow_call P A False s (upd_shadow aws_iot_shadow_disable_discard_old_delta_msgs s)"
| reconnecting: "aws_iot_shadow_set_autoreconnect_status on s = (rc, s') \<Longrightarrow> shadow_call P A False s s'"
| hang_up: "aws_iot_shadow_disconnect P s = Some (rc, s') \<Longrightarrow> shadow_call P A False s s'"
| release: "aws_iot_shadow_free P s = (rc, s') \<Longrightarrow> shadow_call P A False s s'"

text \<open>A sequence of calls, and whether one of them started anew.\<close>

inductive shadow_run ::
  "'w shadow_world platform \<Rightarrow> 'w shadow_app \<Rightarrow> 'w shadow_st \<Rightarrow> bool \<Rightarrow> 'w shadow_st \<Rightarrow> bool" for P A s
where
  start: "shadow_run P A s False s"
| call: "shadow_run P A s b s1 \<Longrightarrow> shadow_call P A c s1 s2 \<Longrightarrow> shadow_run P A s (b \<or> c) s2"

lemma request_with_token_le:
  assumes K: "platform_keeps shadow_le P" and H: "subscriber_keeps shadow_le P"
    and run: "request_with_token build action P name f ctx sec sticky s = Some (rc, s')" and w: "shadow_le w (wd s)"
  shows "shadow_le w (wd s')"
proof (cases "is_client_connected (cl s)")
  case False
  then show ?thesis using run w by (simp add: request_with_token_def)
next
  case True
  then obtain r doc num where b: "build (mqttClientID (sh s)) (clientTokenNum (sh s)) MAX_SIZE_CLIENT_TOKEN_CLIENT_SEQUENCE
      MAX_SIZE_CLIENT_TOKEN_CLIENT_SEQUENCE [] = Some (r, doc, num)"
    using run by (auto simp: request_with_token_def Option.bind_eq_Some_conv)
  define s1 where "s1 = upd_shadow (clientTokenNum_update (\<lambda>_. num)) s"
  have w1: "shadow_le w (wd s1)" unfolding s1_def using w by (intro shadow_le_upd) simp_all
  show ?thesis
    using run True b w1 internal_action_le [OF K H _ w1] by (auto simp: request_with_token_def s1_def [symmetric] Let_def split: if_splits)
qed

lemma connect_le:
  assumes K: "platform_keeps shadow_le P" and H: "subscriber_keeps shadow_le P"
    and run: "aws_iot_shadow_connect P p s = Some (rc, s')" and w: "shadow_le w (wd s)"
  shows "shadow_le w (wd s')"
proof (cases "p = None \<or> pMqttClientId (the p) = None")
  case True
  then have "s' = s" using run by (auto simp: aws_iot_shadow_connect_def split: option.split_asm)
  then show ?thesis using w by simp
next
  case False
  then obtain q c where q: "p = Some q" "pMqttClientId q = Some c" by auto
  obtain thing ident where names: "Option.bind (pMyThingName q) text_in = Some thing" "text_in c = Some ident"
    using run q by (auto simp: aws_iot_shadow_connect_def Option.bind_eq_Some_conv)
  define s1 where "s1 = upd_shadow (\<lambda>v. v\<lparr>myThingName := take (MAX_SIZE_OF_THING_NAME - 1) thing,
    mqttClientID := take (MAX_SIZE_OF_UNIQUE_CLIENT_ID_BYTES - 1) ident\<rparr>) s"
  have w1: "shadow_le w (wd s1)" unfolding s1_def using w by (intro shadow_le_upd) simp_all
  note run = run [unfolded aws_iot_shadow_connect_def q option.case names Option.bind.simps Let_def, folded s1_def]
  obtain r s2 where s2: "aws_iot_mqtt_connect P (Some (shadow_connect_params c (mqttClientIdLen q))) s1 = Some (r, s2)"
    using run by (auto simp: Option.bind_eq_Some_conv)
  have w2: "shadow_le w (wd s2)" by (rule shadow_order.connect_world [OF K H s2 w1])
  define s3 where "s3 = upd_shadow initializeRecords s2"
  define s4 where "s4 = upd_shadow (\<lambda>v. v\<lparr>deleteAcceptedTopic := delete_accepted_topic (myThingName v)\<rparr>) s3"
  have w3: "shadow_le w (wd s3)" unfolding s3_def using w2 by (intro shadow_le_upd) simp_all
  have w4: "shadow_le w (wd s4)" unfolding s4_def using w3 by (intro shadow_le_upd) (simp_all add: vars_le_def)
  show ?thesis
    using run s2 w2 w3 shadow_order.subscribe_world [OF K H _ w4]
    by (auto simp: s3_def [symmetric] s4_def [symmetric] split: if_splits)
qed

lemma free_le:
  assumes K: "platform_keeps shadow_le P" and w: "shadow_le w (wd s)"
  shows "shadow_le w (wd (snd (aws_iot_shadow_free P s)))"
  using w by (simp add: aws_iot_shadow_free_def aws_iot_mqtt_free_def on_world_eq Let_def shadow_order.world_steps(7) [OF K])

lemma init_le:
  assumes K: "platform_keeps shadow_le P" and run: "aws_iot_shadow_init P p s = (rc, s')" and failed: "rc \<noteq> SUCCESS"
    and w: "shadow_le w (wd s)"
  shows "shadow_le w (wd s')"
  using run failed w shadow_order.init_world [OF K _ w]
  by (auto simp: aws_iot_shadow_init_def split: option.split_asm prod.split_asm if_splits)

lemma shadow_call_le:
  assumes K: "platform_keeps shadow_le P" and H: "subscriber_keeps shadow_le P" and D: "disconnecter_keeps shadow_le P"
    and A: "app_keeps A" and step: "shadow_call P A b s s'" and on: "\<not> b" and w: "shadow_le w (wd s)"
  shows "shadow_le w (wd s')"
  using step
proof cases
  case (initialise p rc)
  then show ?thesis using init_le [OF K initialise(2) _ w] on by simp
next
  case (connect c rc)
  show ?thesis by (rule connect_le [OF K H connect(2) w])
next
  case (background ms rc)
  then obtain s1 where s1: "expire_loop P A [0..<MAX_ACKS_TO_COMEIN_AT_ANY_GIVEN_TIME] s = Some s1"
    and y: "aws_iot_mqtt_yield P ms s1 = Some (rc, s')"
    by (auto simp: aws_iot_shadow_yield_def HandleExpiredResponseCallbacks_def Option.bind_eq_Some_conv)
  show ?thesis by (rule shadow_order.yield_world [OF K H D y expire_loop_le [OF K H A s1 w]])
next
  case (update name doc f ctx sec sticky rc)
  then show ?thesis using w internal_action_le [OF K H _ w]
    by (auto simp: aws_iot_shadow_update_def Option.bind_eq_Some_conv split: if_splits)
next
  case (get name f ctx sec sticky rc)
  show ?thesis by (rule request_with_token_le [OF K H get(2) [unfolded aws_iot_shadow_get_def] w])
next
  case (delete name f ctx sec sticky rc)
  show ?thesis by (rule request_with_token_le [OF K H delete(2) [unfolded aws_iot_shadow_delete_def] w])
next
  case (register a rc)
  then show ?thesis using w register_delta_le [OF K H _ w]
    by (auto simp: aws_iot_shadow_register_delta_def split: option.split_asm if_splits)
next
  case (hang_up rc)
  then show ?thesis using shadow_order.disconnect_world [OF K _ w] by (simp add: aws_iot_shadow_disconnect_def)
next
  case (release rc)
  then show ?thesis using free_le [OF K w] by simp
qed (use on w in \<open>auto simp: aws_iot_shadow_enable_discard_old_delta_msgs_def aws_iot_shadow_disable_discard_old_delta_msgs_def
    aws_iot_shadow_set_autoreconnect_status_def vars_le_def intro!: shadow_le_upd\<close>)

text \<open>A call that starts anew: the tables keep their sizes, the registered keys are within their table, and the version is
  zero.\<close>

definition tables_kept :: "shadow_vars \<Rightarrow> shadow_vars \<Rightarrow> bool" where
  "tables_kept v v' \<longleftrightarrow> length (AckWaitList v') = length (AckWaitList v) \<and>
     length (SubscriptionList v') = length (SubscriptionList v) \<and> length (tokenTable v') = length (tokenTable v) \<and>
     (tokenTableIndex v \<le> MAX_JSON_TOKEN_EXPECTED \<longrightarrow> tokenTableIndex v' \<le> MAX_JSON_TOKEN_EXPECTED)"

lemma tables_kept_trans: "tables_kept a b \<Longrightarrow> tables_kept b c \<Longrightarrow> tables_kept a c"
  by (simp add: tables_kept_def)

lemma tables_kept_le: "shadow_le w w' \<Longrightarrow> tables_kept (shadow w) (shadow w')"
  by (simp add: shadow_le_def vars_le_def tables_kept_def)

lemma shadow_call_anew:
  assumes K: "platform_keeps shadow_le P" and step: "shadow_call P A b s s'" and anew: "b"
  shows "tables_kept (sh s) (sh s') \<and> shadowJsonVersionNum (sh s') = 0"
  using step
proof cases
  case (initialise p rc)
  then obtain q s1 where q: "p = Some q" "aws_iot_mqtt_init P (shadow_mqtt_init_params q) s = (SUCCESS, s1)"
    "s' = upd_shadow (initDeltaTokens \<circ> aws_iot_shadow_reset_last_received_version \<circ> resetClientTokenSequenceNum) s1"
    using anew by (auto simp: aws_iot_shadow_init_def split: option.split_asm prod.split_asm if_splits)
  have "tables_kept (sh s) (sh s1)"
    by (rule tables_kept_le) (rule shadow_order.init_world [OF K q(2) shadow_order.W_refl])
  then show ?thesis
    by (simp add: q(3) tables_kept_def initDeltaTokens_def aws_iot_shadow_reset_last_received_version_def
        resetClientTokenSequenceNum_def)
qed (use anew in \<open>auto simp: tables_kept_def aws_iot_shadow_reset_last_received_version_def\<close>)

lemma shadow_run_le:
  assumes K: "platform_keeps shadow_le P" and H: "subscriber_keeps shadow_le P" and D: "disconnecter_keeps shadow_le P"
    and A: "app_keeps A"
  shows "shadow_run P A s b s' \<Longrightarrow> tables_kept (sh s) (sh s') \<and> (\<not> b \<longrightarrow> shadowJsonVersionNum (sh s) \<le> shadowJsonVersionNum (sh s'))"
proof (induction rule: shadow_run.induct)
  case start
  show ?case by (simp add: tables_kept_def)
next
  case (call b s1 c s2)
  show ?case
  proof (cases c)
    case True
    then show ?thesis using call.IH tables_kept_trans shadow_call_anew [OF K call.hyps(2)] by blast
  next
    case False
    have le: "shadow_le (wd s1) (wd s2)"
      by (rule shadow_call_le [OF K H D A call.hyps(2) False shadow_order.W_refl])
    then have "shadowJsonVersionNum (sh s1) \<le> shadowJsonVersionNum (sh s2)" by (simp add: shadow_le_def vars_le_def)
    then show ?thesis using call.IH tables_kept_trans [OF _ tables_kept_le [OF le]] by auto
  qed
qed

text \<open>(C13) The version never goes back unless the shadow is started anew. Over any sequence of calls of the shadow, from
  the initialisation to the release, with the library's callbacks nested to any depth and an application whose callbacks
  keep the order themselves, the tables keep their sizes and the keys registered stay within their table; without a
  reset and a successful initialisation among the calls the version never decreases, and each of these two sets it to
  zero.\<close>

theorem version_never_decreases:
  assumes keeps: "platform_keeps shadow_le P" "subscriber_keeps shadow_le P" "disconnecter_keeps shadow_le P" "app_keeps A"
    and calls: "shadow_run (with_shadow n A P) A s anew s'" and start: "tokenTableIndex (sh s) \<le> MAX_JSON_TOKEN_EXPECTED"
  shows "(\<not> anew \<longrightarrow> aws_iot_shadow_get_last_received_version (sh s) \<le> aws_iot_shadow_get_last_received_version (sh s')) \<and>
    length (AckWaitList (sh s')) = length (AckWaitList (sh s)) \<and>
    length (SubscriptionList (sh s')) = length (SubscriptionList (sh s)) \<and> tokenTableIndex (sh s') \<le> MAX_JSON_TOKEN_EXPECTED \<and>
    (\<forall>s2. shadow_call (with_shadow n A P) A True s' s2 \<longrightarrow> aws_iot_shadow_get_last_received_version (sh s2) = 0)"
  using shadow_run_le [OF with_shadow_platform [OF keeps(1)] with_shadow_subscriber [OF keeps(1,2,4)]
      with_shadow_disconnecter [OF keeps(3)] keeps(4) calls] start
    shadow_call_anew [OF with_shadow_platform [OF keeps(1)]]
  by (auto simp: tables_kept_def aws_iot_shadow_get_last_received_version_def)

text \<open>An update with version seven in memory, then the reset.\<close>

theorem version_never_decreases_witness:
  "case aws_iot_shadow_update (with_shadow 1 demo_app demo_shadow) (Some thing_array) (Some request_json) (Some 4) 0 5 False
       (shadow_state idle_client (subscribed_vars\<lparr>shadowJsonVersionNum := 7\<rparr>) []) of
     None \<Rightarrow> False
   | Some (rc, s) \<Rightarrow> rc = SUCCESS \<and> 7 \<le> shadowJsonVersionNum (sh s) \<and>
       shadowJsonVersionNum (sh (upd_shadow aws_iot_shadow_reset_last_received_version s)) = 0"
proof -
  let ?P = "with_shadow 1 demo_app demo_shadow" and ?s = "shadow_state idle_client (subscribed_vars\<lparr>shadowJsonVersionNum := 7\<rparr>) []"
  let ?run = "aws_iot_shadow_update ?P (Some thing_array) (Some request_json) (Some 4) 0 5 False ?s"
  have "(case ?run of None \<Rightarrow> False | Some (rc, s) \<Rightarrow> rc = SUCCESS)" by code_simp
  then obtain s' where run: "?run = Some (SUCCESS, s')" by (auto split: option.splits)
  have calls: "shadow_run ?P demo_app ?s (False \<or> False) s'"
    by (rule shadow_run.call [OF shadow_run.start shadow_call.update [OF run]])
  have start: "tokenTableIndex (sh ?s) \<le> MAX_JSON_TOKEN_EXPECTED" "shadowJsonVersionNum (sh ?s) = 7"
    by (simp_all add: shadow_state_def subscribed_vars_def connected_vars_def)
  have reset: "shadow_call ?P demo_app True s' (upd_shadow aws_iot_shadow_reset_last_received_version s')"
    by (rule shadow_call.reset)
  show ?thesis
    using version_never_decreases [OF demo_shadow_keeps demo_app_keeps calls start(1)] reset start(2) run
    by (simp add: aws_iot_shadow_get_last_received_version_def del: with_shadow.simps upd_shadow_simps)
qed

subsection \<open>The wait after a subscription\<close>

lemma settle_returns:
  assumes C: "clock_runs P time"
  shows "armed s0 T t \<Longrightarrow> s0 \<le> time w \<Longrightarrow> time w \<le> s0 + T + 2 * MAX_STEP \<Longrightarrow>
    \<exists>w'. settle P t w = Some w' \<and> s0 + T \<le> time w' \<and> time w' \<le> s0 + T + 4 * MAX_STEP"
proof (induction "polls_left s0 T t (time w)" arbitrary: t w rule: less_induct)
  case less
  obtain e t1 w1 where p: "poll_timer P t w = (e, t1, w1)" by (cases "poll_timer P t w")
  have "time w < s0 + 2 ^ 32" using less.prems(1,3) by (simp add: armed_def MAX_STEP_def)
  note poll = poll_progress [OF C less.prems(1,2) this p]
  show ?case
  proof (cases e)
    case True
    then have "settle P t w = Some w1" by (subst settle.simps) (simp add: p)
    moreover have "s0 + T \<le> time w1" "time w1 \<le> s0 + T + 4 * MAX_STEP" using poll(2,3,4) True less.prems(3) by simp_all
    ultimately show ?thesis by blast
  next
    case False
    have "settle P t w = settle P t1 w1" using False by (subst settle.simps) (simp add: p)
    moreover have "\<exists>w'. settle P t1 w1 = Some w' \<and> s0 + T \<le> time w' \<and> time w' \<le> s0 + T + 4 * MAX_STEP"
    proof (rule less.hyps)
      show "polls_left s0 T t1 (time w1) < polls_left s0 T t (time w)" by (rule poll(5) [OF False]) simp
      show "armed s0 T t1" by (rule poll(1))
      show "s0 \<le> time w1" using poll(2) less.prems(2) by simp
      show "time w1 \<le> s0 + T + 2 * MAX_STEP" using poll(3,4) False by simp
    qed
    ultimately show ?thesis by simp
  qed
qed

text \<open>The wait for a subscription to take effect ends. If the clock runs, the call returns, not before two seconds and
  with a bounded delay; the client is left alone meanwhile: no message is read and no keep-alive is sent.\<close>

theorem settling_returns:
  assumes "clock_runs P time"
  shows "\<exists>s'. settle_subscriptions P s = Some s' \<and> cl s' = cl s \<and> tm s' = tm s \<and>
    time (wd s) + 200 \<le> time (wd s') \<and> time (wd s') \<le> time (wd s) + 200 + 4 * MAX_STEP"
proof -
  obtain now w1 where g: "get_ticks P (wd s) = (now, w1)" by (cases "get_ticks P (wd s)")
  have now: "now = of_nat (time (wd s))" "time (wd s) \<le> time w1" "time w1 \<le> time (wd s) + MAX_STEP"
    using assms g by (auto simp: clock_runs_def short_call_def dest: spec [of _ "wd s"])
  have "armed (time (wd s)) 200 (countdown_sec now SUBSCRIBE_SETTLING_TIME)"
    using armed_countdown [of "time (wd s)" 2000] by (simp add: countdown_sec_def now(1) SUBSCRIBE_SETTLING_TIME_def)
  from settle_returns [OF assms this now(2)] now(3) obtain w' where w':
    "settle P (countdown_sec now SUBSCRIBE_SETTLING_TIME) w1 = Some w'" "time (wd s) + 200 \<le> time w'"
    "time w' \<le> time (wd s) + 200 + 4 * MAX_STEP"
    by auto
  then show ?thesis by (simp add: settle_subscriptions_def arm_sec_def on_world_def g)
qed

theorem settling_returns_witness:
  "\<exists>s'. settle_subscriptions steady (idle_state []) = Some s' \<and> 200 \<le> clock (wd s')"
  using settling_returns [OF steady_clock, of "idle_state []"] by (auto simp: idle_state_def)

end
