(* ===== verification/Jobs.thy ===== *)
theory Jobs
  imports ShadowJson MqttYield
begin

text \<open>
  The client of the job service (\<open>aws_iot_jobs_types.c\<close>, \<open>aws_iot_jobs_topics.c\<close>, \<open>aws_iot_jobs_json.c\<close>,
  \<open>aws_iot_jobs_interface.c\<close>): the names of topics, the documents of requests, and the calls that subscribe to answers
  and publish requests. A buffer of the caller is the memory it points to, \<^term>\<open>None\<close> for a null pointer; a write
  behind this memory or through a null pointer is undefined. Strings passed in are their text.
\<close>

subsection \<open>Types\<close>

datatype JobExecutionStatus =
    JOB_EXECUTION_STATUS_NOT_SET | JOB_EXECUTION_QUEUED | JOB_EXECUTION_IN_PROGRESS | JOB_EXECUTION_FAILED
  | JOB_EXECUTION_SUCCEEDED | JOB_EXECUTION_CANCELED | JOB_EXECUTION_REJECTED | JOB_EXECUTION_UNKNOWN_STATUS

definition aws_iot_jobs_map_string_to_job_status :: "string option \<Rightarrow> JobExecutionStatus" where
  "aws_iot_jobs_map_string_to_job_status str =
     (if str = None \<or> str = Some [] then JOB_EXECUTION_STATUS_NOT_SET
      else if str = Some ''QUEUED'' then JOB_EXECUTION_QUEUED
      else if str = Some ''IN_PROGRESS'' then JOB_EXECUTION_IN_PROGRESS
      else if str = Some ''FAILED'' then JOB_EXECUTION_FAILED
      else if str = Some ''SUCCEEDED'' then JOB_EXECUTION_SUCCEEDED
      else if str = Some ''CANCELED'' then JOB_EXECUTION_CANCELED
      else if str = Some ''REJECTED'' then JOB_EXECUTION_REJECTED
      else JOB_EXECUTION_UNKNOWN_STATUS)"

definition aws_iot_jobs_map_status_to_string :: "JobExecutionStatus \<Rightarrow> string option" where
  "aws_iot_jobs_map_status_to_string status = (case status of
       JOB_EXECUTION_QUEUED \<Rightarrow> Some ''QUEUED''
     | JOB_EXECUTION_IN_PROGRESS \<Rightarrow> Some ''IN_PROGRESS''
     | JOB_EXECUTION_FAILED \<Rightarrow> Some ''FAILED''
     | JOB_EXECUTION_SUCCEEDED \<Rightarrow> Some ''SUCCEEDED''
     | JOB_EXECUTION_CANCELED \<Rightarrow> Some ''CANCELED''
     | JOB_EXECUTION_REJECTED \<Rightarrow> Some ''REJECTED''
     | JOB_EXECUTION_STATUS_NOT_SET \<Rightarrow> None
     | JOB_EXECUTION_UNKNOWN_STATUS \<Rightarrow> None)"

record AwsIotJobExecutionUpdateRequest =
  expectedVersion :: "64 word"
  executionNumber :: "64 word"
  job_status :: JobExecutionStatus
  statusDetails :: "string option"
  includeJobExecutionState :: bool
  includeJobDocument :: bool
  update_clientToken :: "string option"

record AwsIotDescribeJobExecutionRequest =
  describe_executionNumber :: "64 word"
  describe_includeJobDocument :: bool
  describe_clientToken :: "string option"

record AwsIotStartNextPendingJobExecutionRequest =
  start_statusDetails :: "string option"
  start_clientToken :: "string option"

subsection \<open>Topics\<close>

datatype AwsIotJobExecutionTopicType =
    JOB_UNRECOGNIZED_TOPIC | JOB_GET_PENDING_TOPIC | JOB_START_NEXT_TOPIC | JOB_DESCRIBE_TOPIC | JOB_UPDATE_TOPIC
  | JOB_NOTIFY_TOPIC | JOB_NOTIFY_NEXT_TOPIC | JOB_WILDCARD_TOPIC

datatype AwsIotJobExecutionTopicReplyType =
    JOB_UNRECOGNIZED_TOPIC_TYPE | JOB_REQUEST_TYPE | JOB_ACCEPTED_REPLY_TYPE | JOB_REJECTED_REPLY_TYPE
  | JOB_WILDCARD_REPLY_TYPE

definition get_operation_for_base_topic :: "AwsIotJobExecutionTopicType \<Rightarrow> string option" where
  "get_operation_for_base_topic ty = (case ty of
       JOB_UPDATE_TOPIC \<Rightarrow> Some ''update''
     | JOB_NOTIFY_TOPIC \<Rightarrow> Some ''notify''
     | JOB_NOTIFY_NEXT_TOPIC \<Rightarrow> Some ''notify-next''
     | JOB_GET_PENDING_TOPIC \<Rightarrow> Some ''get''
     | JOB_DESCRIBE_TOPIC \<Rightarrow> Some ''get''
     | JOB_START_NEXT_TOPIC \<Rightarrow> Some ''start-next''
     | JOB_WILDCARD_TOPIC \<Rightarrow> Some ''+''
     | JOB_UNRECOGNIZED_TOPIC \<Rightarrow> None)"

definition base_topic_requires_job_id :: "AwsIotJobExecutionTopicType \<Rightarrow> bool" where
  "base_topic_requires_job_id ty \<longleftrightarrow> ty = JOB_UPDATE_TOPIC \<or> ty = JOB_DESCRIBE_TOPIC"

definition get_suffix_for_topic_type :: "AwsIotJobExecutionTopicReplyType \<Rightarrow> string option" where
  "get_suffix_for_topic_type ty = (case ty of
       JOB_REQUEST_TYPE \<Rightarrow> Some []
     | JOB_ACCEPTED_REPLY_TYPE \<Rightarrow> Some ''/accepted''
     | JOB_REJECTED_REPLY_TYPE \<Rightarrow> Some ''/rejected''
     | JOB_WILDCARD_REPLY_TYPE \<Rightarrow> Some ''/+''
     | JOB_UNRECOGNIZED_TOPIC_TYPE \<Rightarrow> None)"

text \<open>
  \<open>vsnprintf\<close> at an offset of the memory: with a size of zero nothing is written. A text longer than an \<open>int\<close> can
  count is reported as an error.
\<close>

definition vsnprintf :: "string option \<Rightarrow> nat \<Rightarrow> nat \<Rightarrow> string \<Rightarrow> (int \<times> string option) option" where
  "vsnprintf mem off n txt = (let r = (if INT_MAX < int (length txt) then -1 else int (length txt)) in
     if n = 0 then Some (r, mem)
     else case mem of
         None \<Rightarrow> None
       | Some m \<Rightarrow> let w = take (n - 1) txt @ [NUL] in
           if length m < off + length w then None else Some (r, Some (take off m @ w @ drop (off + length w) m)))"

text \<open>A suffix that is a null pointer is printed like any other.\<close>

definition aws_iot_jobs_get_api_topic ::
  "string option \<Rightarrow> nat \<Rightarrow> AwsIotJobExecutionTopicType \<Rightarrow> AwsIotJobExecutionTopicReplyType \<Rightarrow> string option \<Rightarrow>
   string option \<Rightarrow> (int \<times> string option) option"
where
  "aws_iot_jobs_get_api_topic buffer bufferSize topicType replyType thingName jobId = (case thingName of
       None \<Rightarrow> Some (-1, buffer)
     | Some thing \<Rightarrow>
         if (topicType = JOB_NOTIFY_TOPIC \<or> topicType = JOB_NOTIFY_NEXT_TOPIC) \<and> replyType \<noteq> JOB_REQUEST_TYPE
         then Some (-1, buffer)
         else if jobId = None \<and> base_topic_requires_job_id topicType then Some (-1, buffer)
         else (case get_operation_for_base_topic topicType of
             None \<Rightarrow> Some (-1, buffer)
           | Some operation \<Rightarrow> let front = ''$aws/things/'' @ thing @ ''/jobs/'' in
               if base_topic_requires_job_id topicType \<or> topicType = JOB_WILDCARD_TOPIC \<and> jobId \<noteq> None then do {
                 job \<leftarrow> jobId;
                 suffix \<leftarrow> get_suffix_for_topic_type replyType;
                 vsnprintf buffer 0 bufferSize (front @ job @ ''/'' @ operation @ suffix)
               }
               else if topicType = JOB_WILDCARD_TOPIC then vsnprintf buffer 0 bufferSize (front @ ''#'')
               else do {
                 suffix \<leftarrow> get_suffix_for_topic_type replyType;
                 vsnprintf buffer 0 bufferSize (front @ operation @ suffix)
               }))"

subsection \<open>Printing a document\<close>

text \<open>The state of the printer, with the memory \<open>nextPtr\<close> points into.\<close>

record SerializeState =
  totalSize :: int
  nextPtr :: "nat option"
  remaingSize :: nat
  requestBuffer :: "string option"

definition printToBuffer :: "string \<Rightarrow> SerializeState \<Rightarrow> SerializeState option" where
  "printToBuffer txt st =
     (if totalSize st = -1 then Some st
      else do {
        (len, mem) \<leftarrow> (case nextPtr st of
            None \<Rightarrow> vsnprintf None 0 (remaingSize st) txt
          | Some p \<Rightarrow> vsnprintf (requestBuffer st) p (remaingSize st) txt);
        let st = (if nextPtr st = None then st else st\<lparr>requestBuffer := mem\<rparr>);
        if len < 0 then Some (st\<lparr>totalSize := -1\<rparr>)
        else if INT_MAX < totalSize st + len then None
        else let st = st\<lparr>totalSize := totalSize st + len\<rparr> in
          Some (case nextPtr st of
              None \<Rightarrow> st
            | Some p \<Rightarrow> if len < int (remaingSize st)
                then st\<lparr>remaingSize := remaingSize st - nat len, nextPtr := Some (p + nat len)\<rparr>
                else st\<lparr>remaingSize := 0, nextPtr := None\<rparr>)
      })"

definition printKey :: "bool \<Rightarrow> string \<Rightarrow> SerializeState \<Rightarrow> SerializeState option" where
  "printKey isFirst key st = printToBuffer ((if isFirst then ''{'' else '','') @ DQUOTE # key @ DQUOTE # '':'') st"

definition printStringValue :: "string option \<Rightarrow> SerializeState \<Rightarrow> SerializeState option" where
  "printStringValue value st = (case value of
       None \<Rightarrow> printToBuffer ''null'' st
     | Some v \<Rightarrow> printToBuffer (DQUOTE # v @ [DQUOTE]) st)"

definition printLongValue :: "64 word \<Rightarrow> SerializeState \<Rightarrow> SerializeState option" where
  "printLongValue value st = printToBuffer (show_int (sint value)) st"

definition printBooleanValue :: "bool \<Rightarrow> SerializeState \<Rightarrow> SerializeState option" where
  "printBooleanValue value st = printToBuffer (if value then ''true'' else ''false'') st"

definition start_state :: "string option \<Rightarrow> nat \<Rightarrow> SerializeState" where
  "start_state mem n = \<lparr>totalSize = 0, nextPtr = map_option (\<lambda>_. 0) mem, remaingSize = n, requestBuffer = mem\<rparr>"

definition printed :: "SerializeState \<Rightarrow> int \<times> string option" where
  "printed st = (totalSize st, requestBuffer st)"

subsection \<open>Requests\<close>

text \<open>The details are a document of their own, printed as they are.\<close>

definition aws_iot_jobs_json_serialize_update_job_execution_request ::
  "string option \<Rightarrow> nat \<Rightarrow> AwsIotJobExecutionUpdateRequest \<Rightarrow> (int \<times> string option) option"
where
  "aws_iot_jobs_json_serialize_update_job_execution_request mem bufferSize request =
     (case aws_iot_jobs_map_status_to_string (job_status request) of
        None \<Rightarrow> Some (-1, mem)
      | Some statusStr \<Rightarrow> do {
          st \<leftarrow> printKey True ''status'' (start_state mem (if mem = None then 0 else bufferSize));
          st \<leftarrow> printStringValue (Some statusStr) st;
          st \<leftarrow> (case statusDetails request of None \<Rightarrow> Some st
                 | Some d \<Rightarrow> do { st \<leftarrow> printKey False ''statusDetails'' st; printToBuffer d st });
          st \<leftarrow> (if executionNumber request = 0 then Some st
                 else do { st \<leftarrow> printKey False ''executionNumber'' st; printLongValue (executionNumber request) st });
          st \<leftarrow> (if expectedVersion request = 0 then Some st
                 else do { st \<leftarrow> printKey False ''expectedVersion'' st; printLongValue (expectedVersion request) st });
          st \<leftarrow> (if \<not> includeJobExecutionState request then Some st
                 else do { st \<leftarrow> printKey False ''includeJobExecutionState'' st;
                           printBooleanValue (includeJobExecutionState request) st });
          st \<leftarrow> (if \<not> includeJobDocument request then Some st
                 else do { st \<leftarrow> printKey False ''includeJobDocument'' st;
                           printBooleanValue (includeJobDocument request) st });
          st \<leftarrow> (case update_clientToken request of None \<Rightarrow> Some st
                 | Some t \<Rightarrow> do { st \<leftarrow> printKey False ''clientToken'' st; printStringValue (Some t) st });
          st \<leftarrow> printToBuffer ''}'' st;
          Some (printed st)
        })"

definition aws_iot_jobs_json_serialize_client_token_only_request ::
  "string option \<Rightarrow> nat \<Rightarrow> string option \<Rightarrow> (int \<times> string option) option"
where
  "aws_iot_jobs_json_serialize_client_token_only_request mem bufferSize clientToken = do {
     st \<leftarrow> printKey True ''clientToken'' (start_state mem bufferSize);
     st \<leftarrow> printStringValue clientToken st;
     st \<leftarrow> printToBuffer ''}'' st;
     Some (printed st)
   }"

text \<open>The opening bracket is printed with the first key only.\<close>

definition aws_iot_jobs_json_serialize_describe_job_execution_request ::
  "string option \<Rightarrow> nat \<Rightarrow> AwsIotDescribeJobExecutionRequest \<Rightarrow> (int \<times> string option) option"
where
  "aws_iot_jobs_json_serialize_describe_job_execution_request mem bufferSize request =
     (if mem = None then Some (0, mem)
      else do {
        (isFirst, st) \<leftarrow> (case describe_clientToken request of None \<Rightarrow> Some (True, start_state mem bufferSize)
          | Some t \<Rightarrow> do { st \<leftarrow> printKey True ''clientToken'' (start_state mem bufferSize);
                          st \<leftarrow> printStringValue (Some t) st; Some (False, st) });
        (isFirst, st) \<leftarrow> (if describe_executionNumber request = 0 then Some (isFirst, st)
          else do { st \<leftarrow> printKey isFirst ''executionNumber'' st;
                    st \<leftarrow> printLongValue (describe_executionNumber request) st; Some (False, st) });
        st \<leftarrow> (if \<not> describe_includeJobDocument request then Some st
          else do { st \<leftarrow> printKey isFirst ''includeJobDocument'' st;
                    printBooleanValue (describe_includeJobDocument request) st });
        st \<leftarrow> printToBuffer ''}'' st;
        Some (printed st)
      })"

definition aws_iot_jobs_json_serialize_start_next_job_execution_request ::
  "string option \<Rightarrow> nat \<Rightarrow> AwsIotStartNextPendingJobExecutionRequest \<Rightarrow> (int \<times> string option) option"
where
  "aws_iot_jobs_json_serialize_start_next_job_execution_request mem bufferSize request = do {
     let st = start_state mem (if mem = None then 0 else bufferSize);
     st \<leftarrow> (case start_statusDetails request of None \<Rightarrow> Some st
            | Some d \<Rightarrow> do { st \<leftarrow> printKey True ''statusDetails'' st; printToBuffer d st });
     st \<leftarrow> (case start_clientToken request of None \<Rightarrow> Some st
            | Some t \<Rightarrow> do { st \<leftarrow> printKey (start_statusDetails request = None) ''clientToken'' st;
                            printStringValue (Some t) st });
     st \<leftarrow> (if start_clientToken request = None \<and> start_statusDetails request = None
            then printToBuffer ''{'' st else Some st);
     st \<leftarrow> printToBuffer ''}'' st;
     Some (printed st)
   }"

subsection \<open>Calls\<close>

text \<open>What a call leaves in the buffers of the caller is part of its result.\<close>

definition CHECK_GENERATE_STRING_RESULT :: "int \<Rightarrow> nat \<Rightarrow> IoT_Error_t" where
  "CHECK_GENERATE_STRING_RESULT result bufferSize =
     (if result < 0 then FAILURE else if int bufferSize \<le> result then LIMIT_EXCEEDED_ERROR else SUCCESS)"

definition buffer_pointer :: "string option \<Rightarrow> pointer" where
  "buffer_pointer mem = map_option bytes_of mem"

definition aws_iot_jobs_subscribe_to_job_messages ::
  "'w platform \<Rightarrow> QoS \<Rightarrow> string option \<Rightarrow> string option \<Rightarrow> AwsIotJobExecutionTopicType \<Rightarrow>
   AwsIotJobExecutionTopicReplyType \<Rightarrow> nat option \<Rightarrow> nat \<Rightarrow> string option \<Rightarrow> u16 \<Rightarrow> 'w st \<Rightarrow>
   (IoT_Error_t \<times> string option \<times> 'w st) option"
where
  "aws_iot_jobs_subscribe_to_job_messages P qos thingName jobId topicType replyType handler handlerData topicBuffer
     topicBufferSize s = do {
     (requiredSize, topicBuffer) \<leftarrow>
       aws_iot_jobs_get_api_topic topicBuffer (unat topicBufferSize) topicType replyType thingName jobId;
     let rc = CHECK_GENERATE_STRING_RESULT requiredSize (unat topicBufferSize);
     if rc \<noteq> SUCCESS then Some (rc, topicBuffer, s)
     else do {
       topic \<leftarrow> Option.bind topicBuffer text_in;
       (rc, s) \<leftarrow> aws_iot_mqtt_subscribe P (buffer_pointer topicBuffer) (of_nat (length topic)) qos handler handlerData s;
       Some (rc, topicBuffer, s)
     }
   }"

definition aws_iot_jobs_subscribe_to_all_job_messages ::
  "'w platform \<Rightarrow> QoS \<Rightarrow> string option \<Rightarrow> nat option \<Rightarrow> nat \<Rightarrow> string option \<Rightarrow> u16 \<Rightarrow> 'w st \<Rightarrow>
   (IoT_Error_t \<times> string option \<times> 'w st) option"
where
  "aws_iot_jobs_subscribe_to_all_job_messages P qos thingName handler handlerData topicBuffer topicBufferSize s =
     aws_iot_jobs_subscribe_to_job_messages P qos thingName None JOB_WILDCARD_TOPIC JOB_WILDCARD_REPLY_TYPE handler
       handlerData topicBuffer topicBufferSize s"

definition aws_iot_jobs_unsubscribe_from_job_messages ::
  "'w platform \<Rightarrow> string option \<Rightarrow> 'w st \<Rightarrow> (IoT_Error_t \<times> 'w st) option"
where
  "aws_iot_jobs_unsubscribe_from_job_messages P topicBuffer s = do {
     topic \<leftarrow> Option.bind topicBuffer text_in;
     aws_iot_mqtt_unsubscribe P (buffer_pointer topicBuffer) (of_nat (length topic)) s
   }"

text \<open>The end of every request: the topic, the document, and the publication of what the two buffers hold.\<close>

definition publish_request ::
  "'w platform \<Rightarrow> QoS \<Rightarrow> string option \<Rightarrow> u16 \<Rightarrow> string option \<Rightarrow> nat \<Rightarrow> 'w st \<Rightarrow>
   (IoT_Error_t \<times> string option \<times> string option \<times> 'w st) option"
where
  "publish_request P qos topicBuffer topicSize messageBuffer messageLength s = do {
     (rc, s) \<leftarrow> aws_iot_mqtt_publish P (buffer_pointer topicBuffer) topicSize
       (Some \<lparr>msg_qos = qos, msg_isRetained = 0, msg_isDup = 0, msg_id = 0,
         msg_payload = (case messageBuffer of None \<Rightarrow> Some [0] | Some m \<Rightarrow> Some (bytes_of m)),
         msg_payloadLen = of_nat messageLength\<rparr>) s;
     Some (rc, topicBuffer, messageBuffer, s)
   }"

text \<open>
  The common course of the requests. The document is built by an argument; \<^term>\<open>None\<close> stands for a request without one,
  whose payload is the empty buffer on the stack.
\<close>

definition send_request ::
  "'w platform \<Rightarrow> QoS \<Rightarrow> string option \<Rightarrow> string option \<Rightarrow> AwsIotJobExecutionTopicType \<Rightarrow> string option \<Rightarrow> u16 \<Rightarrow>
   string option \<Rightarrow> nat \<Rightarrow> (string option \<Rightarrow> nat \<Rightarrow> (int \<times> string option) option) option \<Rightarrow> 'w st \<Rightarrow>
   (IoT_Error_t \<times> string option \<times> string option \<times> 'w st) option"
where
  "send_request P qos thingName jobId topicType topicBuffer topicBufferSize messageBuffer messageBufferSize build s = do {
     (neededSize, topicBuffer) \<leftarrow>
       aws_iot_jobs_get_api_topic topicBuffer (unat topicBufferSize) topicType JOB_REQUEST_TYPE thingName jobId;
     let rc = CHECK_GENERATE_STRING_RESULT neededSize (unat topicBufferSize);
     if rc \<noteq> SUCCESS then Some (rc, topicBuffer, messageBuffer, s)
     else case build of
         None \<Rightarrow> do {
           (rc, topicBuffer, _, s) \<leftarrow> publish_request P qos topicBuffer (word_of_int neededSize) None 0 s;
           Some (rc, topicBuffer, messageBuffer, s)
         }
       | Some serialize \<Rightarrow> do {
           (serializeResult, messageBuffer) \<leftarrow> serialize messageBuffer messageBufferSize;
           let rc = CHECK_GENERATE_STRING_RESULT serializeResult messageBufferSize;
           if rc \<noteq> SUCCESS then Some (rc, topicBuffer, messageBuffer, s)
           else publish_request P qos topicBuffer (word_of_int neededSize) messageBuffer (nat serializeResult) s
         }
   }"

definition aws_iot_jobs_send_query ::
  "'w platform \<Rightarrow> QoS \<Rightarrow> string option \<Rightarrow> string option \<Rightarrow> string option \<Rightarrow> string option \<Rightarrow> u16 \<Rightarrow> string option \<Rightarrow> nat \<Rightarrow>
   AwsIotJobExecutionTopicType \<Rightarrow> 'w st \<Rightarrow> (IoT_Error_t \<times> string option \<times> string option \<times> 'w st) option"
where
  "aws_iot_jobs_send_query P qos thingName jobId clientToken topicBuffer topicBufferSize messageBuffer messageBufferSize
     topicType s =
     (if thingName = None \<or> topicBuffer = None \<or> clientToken \<noteq> None \<and> messageBuffer = None
      then Some (NULL_VALUE_ERROR, topicBuffer, messageBuffer, s)
      else send_request P qos thingName jobId topicType topicBuffer topicBufferSize messageBuffer messageBufferSize
        (if clientToken = None then None
         else Some (\<lambda>mem n. aws_iot_jobs_json_serialize_client_token_only_request mem n clientToken)) s)"

definition aws_iot_jobs_start_next ::
  "'w platform \<Rightarrow> QoS \<Rightarrow> string option \<Rightarrow> AwsIotStartNextPendingJobExecutionRequest option \<Rightarrow> string option \<Rightarrow> u16 \<Rightarrow>
   string option \<Rightarrow> nat \<Rightarrow> 'w st \<Rightarrow> (IoT_Error_t \<times> string option \<times> string option \<times> 'w st) option"
where
  "aws_iot_jobs_start_next P qos thingName startNextRequest topicBuffer topicBufferSize messageBuffer messageBufferSize s =
     (case startNextRequest of
        None \<Rightarrow> Some (NULL_VALUE_ERROR, topicBuffer, messageBuffer, s)
      | Some request \<Rightarrow>
          if thingName = None \<or> topicBuffer = None then Some (NULL_VALUE_ERROR, topicBuffer, messageBuffer, s)
          else send_request P qos thingName None JOB_START_NEXT_TOPIC topicBuffer topicBufferSize messageBuffer
            messageBufferSize (Some (\<lambda>mem n. aws_iot_jobs_json_serialize_start_next_job_execution_request mem n request)) s)"

definition aws_iot_jobs_describe ::
  "'w platform \<Rightarrow> QoS \<Rightarrow> string option \<Rightarrow> string option \<Rightarrow> AwsIotDescribeJobExecutionRequest option \<Rightarrow> string option \<Rightarrow>
   u16 \<Rightarrow> string option \<Rightarrow> nat \<Rightarrow> 'w st \<Rightarrow> (IoT_Error_t \<times> string option \<times> string option \<times> 'w st) option"
where
  "aws_iot_jobs_describe P qos thingName jobId describeRequest topicBuffer topicBufferSize messageBuffer
     messageBufferSize s =
     (case describeRequest of
        None \<Rightarrow> Some (NULL_VALUE_ERROR, topicBuffer, messageBuffer, s)
      | Some request \<Rightarrow>
          if thingName = None \<or> topicBuffer = None then Some (NULL_VALUE_ERROR, topicBuffer, messageBuffer, s)
          else send_request P qos thingName jobId JOB_DESCRIBE_TOPIC topicBuffer topicBufferSize messageBuffer
            messageBufferSize (if messageBuffer = None then None
              else Some (\<lambda>mem n. aws_iot_jobs_json_serialize_describe_job_execution_request mem n request)) s)"

definition aws_iot_jobs_send_update ::
  "'w platform \<Rightarrow> QoS \<Rightarrow> string option \<Rightarrow> string option \<Rightarrow> AwsIotJobExecutionUpdateRequest option \<Rightarrow> string option \<Rightarrow>
   u16 \<Rightarrow> string option \<Rightarrow> nat \<Rightarrow> 'w st \<Rightarrow> (IoT_Error_t \<times> string option \<times> string option \<times> 'w st) option"
where
  "aws_iot_jobs_send_update P qos thingName jobId updateRequest topicBuffer topicBufferSize messageBuffer
     messageBufferSize s =
     (case updateRequest of
        None \<Rightarrow> Some (NULL_VALUE_ERROR, topicBuffer, messageBuffer, s)
      | Some request \<Rightarrow>
          if thingName = None \<or> topicBuffer = None \<or> jobId = None
          then Some (NULL_VALUE_ERROR, topicBuffer, messageBuffer, s)
          else send_request P qos thingName jobId JOB_UPDATE_TOPIC topicBuffer topicBufferSize messageBuffer
            messageBufferSize (Some (\<lambda>mem n. aws_iot_jobs_json_serialize_update_job_execution_request mem n request)) s)"

end
