(* ===== verification/JobsDocuments.thy ===== *)
theory JobsDocuments
  imports Jobs ShadowDocuments
begin

text \<open>
  The documents of the job service: however many prints a document is made of, they leave in the buffer, and return,
  what a single print of the whole text does, cut off at the size of the buffer; and the text is that of a JSON object.
\<close>

subsection \<open>Prints in a row\<close>

text \<open>What a buffer of a given size holds after the print of a text.\<close>

definition in_buffer :: "string \<Rightarrow> nat \<Rightarrow> string \<Rightarrow> string" where
  "in_buffer m n t = (if n = 0 then m else take (n - 1) t @ NUL # drop (length (take (n - 1) t) + 1) m)"

definition buffer_fits :: "string option \<Rightarrow> nat \<Rightarrow> bool" where
  "buffer_fits mem n \<longleftrightarrow> (case mem of None \<Rightarrow> n = 0 | Some m \<Rightarrow> n \<le> length m)"

lemma vsnprintf_whole:
  assumes "buffer_fits mem n" and "int (length t) \<le> INT_MAX"
  shows "vsnprintf mem 0 n t = Some (int (length t), map_option (\<lambda>m. in_buffer m n t) mem)"
  using assms by (cases mem) (auto simp: vsnprintf_def buffer_fits_def in_buffer_def Let_def)

definition state_after :: "string option \<Rightarrow> nat \<Rightarrow> string \<Rightarrow> SerializeState" where
  "state_after mem n t = \<lparr>totalSize = int (length t),
     nextPtr = (if mem = None \<or> t \<noteq> [] \<and> n \<le> length t then None else Some (length t)),
     remaingSize = (if mem = None then n else n - length t),
     requestBuffer = (if t = [] then mem else map_option (\<lambda>m. in_buffer m n t) mem)\<rparr>"

lemma start_state_after: "start_state mem n = state_after mem n []"
  by (cases mem) (simp_all add: start_state_def state_after_def)

text \<open>In the middle of a buffer.\<close>

lemma in_buffer_more:
  assumes "length t < n" and "n \<le> length m"
  shows "take (length t) (in_buffer m n t) @ (take (n - length t - 1) u @ [NUL]) @
    drop (length t + length (take (n - length t - 1) u @ [NUL])) (in_buffer m n t) = in_buffer m n (t @ u)"
proof -
  define w where "w = take (n - length t - 1) u"
  have b: "in_buffer m n t = t @ NUL # drop (length t + 1) m" using assms by (simp add: in_buffer_def)
  have w: "take (n - 1) (t @ u) = t @ w" using assms by (simp add: w_def)
  have "in_buffer m n (t @ u) = (t @ w) @ NUL # drop (length (t @ w) + 1) m"
    using assms w by (simp add: in_buffer_def)
  then show ?thesis unfolding b w_def by (simp add: add.commute)
qed

lemma print_more:
  assumes ok: "buffer_fits mem n" and len: "int (length (t @ u)) \<le> INT_MAX" and some: "t @ u \<noteq> []"
  shows "printToBuffer u (state_after mem n t) = Some (state_after mem n (t @ u))"
proof (cases mem)
  case None
  then show ?thesis using ok len some
    by (simp add: printToBuffer_def state_after_def buffer_fits_def vsnprintf_def Let_def)
next
  case (Some m)
  then have n: "n \<le> length m" using ok by (simp add: buffer_fits_def)
  have u: "int (length u) \<le> INT_MAX" using len by simp
  consider (start) "t = []" | (full) "t \<noteq> []" "n \<le> length t" | (more) "t \<noteq> []" "length t < n" by linarith
  then show ?thesis
  proof cases
    case start
    have "vsnprintf (Some m) 0 n u = Some (int (length u), Some (in_buffer m n u))"
      using vsnprintf_whole [OF ok u] Some by simp
    then show ?thesis using start some u Some
      by (simp add: printToBuffer_def state_after_def Let_def)
  next
    case full
    have "in_buffer m n (t @ u) = in_buffer m n t" using full by (simp add: in_buffer_def)
    then show ?thesis using full u len Some by (simp add: printToBuffer_def state_after_def vsnprintf_def Let_def)
  next
    case more
    have b: "length (in_buffer m n t) = length m" using more n by (simp add: in_buffer_def)
    have "vsnprintf (Some (in_buffer m n t)) (length t) (n - length t) u =
        Some (int (length u), Some (in_buffer m n (t @ u)))"
      using in_buffer_more [OF more(2) n, of u] more n u by (simp add: vsnprintf_def Let_def b)
    then show ?thesis using more u len Some by (auto simp: printToBuffer_def state_after_def Let_def)
  qed
qed

lemma printed_after: "t \<noteq> [] \<Longrightarrow> buffer_fits mem n \<Longrightarrow> int (length t) \<le> INT_MAX \<Longrightarrow> Some (printed (state_after mem n t)) = vsnprintf mem 0 n t"
  by (simp add: vsnprintf_whole printed_def state_after_def)

subsection \<open>Fields\<close>

text \<open>The members of a document, as keys and texts.\<close>

fun fields_text :: "string \<Rightarrow> (string \<times> string) list \<Rightarrow> string" where
  "fields_text sep [] = []"
| "fields_text sep ((k, v) # fs) = sep @ json_quoted k @ CHR '':'' # v @ fields_text '','' fs"

definition object_text :: "(string \<times> string) list \<Rightarrow> string" where
  "object_text fs = CHR ''{'' # fields_text [] fs @ ''}''"

lemma fields_text_append: "fields_text '','' (fs @ gs) = fields_text '','' fs @ fields_text '','' gs"
  by (induction fs) (auto simp: json_quoted_def)

lemma fields_text_members: "fields_text sep (map (\<lambda>(k, v). (k, render v)) kvs) = render_members sep (report_members kvs)"
  by (induction kvs arbitrary: sep) auto

lemma object_text_render: "object_text (map (\<lambda>(k, v). (k, render v)) kvs) = render (JObject [] (report_members kvs))"
  by (simp add: object_text_def fields_text_members)

text \<open>Printing one field behind others, or as the first, or not at all.\<close>

definition print_field :: "bool \<Rightarrow> (string \<times> string) option \<Rightarrow> SerializeState \<Rightarrow> SerializeState option" where
  "print_field isFirst f st = (case f of None \<Rightarrow> Some st
     | Some (k, v) \<Rightarrow> do { st \<leftarrow> printKey isFirst k st; printToBuffer v st })"

definition opt_list :: "'a option \<Rightarrow> 'a list" where
  "opt_list f = (case f of None \<Rightarrow> [] | Some x \<Rightarrow> [x])"

lemma opt_list_simps [simp]: "opt_list None = []" "opt_list (Some x) = [x]"
  by (simp_all add: opt_list_def)

lemma print_field_more:
  assumes "buffer_fits mem n" and "t \<noteq> []" and "int (length (t @ fields_text '','' (opt_list f))) \<le> INT_MAX"
  shows "print_field False f (state_after mem n t) = Some (state_after mem n (t @ fields_text '','' (opt_list f)))"
proof (cases f)
  case (Some kv)
  obtain k v where kv: "kv = (k, v)" by (cases kv)
  show ?thesis
    using assms print_more [OF assms(1), of t "CHR '','' # DQUOTE # k @ DQUOTE # '':''"]
      print_more [OF assms(1), of "t @ CHR '','' # DQUOTE # k @ DQUOTE # '':''" v]
    by (simp add: Some kv print_field_def printKey_def json_quoted_def)
qed (use assms in \<open>simp add: print_field_def\<close>)

lemma print_field_start:
  assumes "buffer_fits mem n" and "int (length (CHR ''{'' # fields_text [] [(k, v)])) \<le> INT_MAX"
  shows "print_field True (Some (k, v)) (start_state mem n) = Some (state_after mem n (CHR ''{'' # fields_text [] [(k, v)]))"
  using assms print_more [OF assms(1), of "[]" "CHR ''{'' # DQUOTE # k @ DQUOTE # '':''"]
    print_more [OF assms(1), of "CHR ''{'' # DQUOTE # k @ DQUOTE # '':''" v]
  by (simp add: print_field_def printKey_def json_quoted_def start_state_after)

text \<open>A first field, then optional ones, then the bracket.\<close>

fun print_fields :: "(string \<times> string) option list \<Rightarrow> SerializeState \<Rightarrow> SerializeState option" where
  "print_fields [] st = Some st"
| "print_fields (f # fs) st = do { st \<leftarrow> print_field False f st; print_fields fs st }"

lemma print_fields_more:
  assumes "buffer_fits mem n"
  shows "t \<noteq> [] \<Longrightarrow> int (length (t @ fields_text '','' (concat (map opt_list fs)))) \<le> INT_MAX \<Longrightarrow>
    print_fields fs (state_after mem n t) = Some (state_after mem n (t @ fields_text '','' (concat (map opt_list fs))))"
proof (induction fs arbitrary: t)
  case (Cons f fs)
  have "print_field False f (state_after mem n t) = Some (state_after mem n (t @ fields_text '','' (opt_list f)))"
    using Cons.prems by (intro print_field_more [OF assms]) (simp_all add: fields_text_append)
  then show ?case using Cons.IH [of "t @ fields_text '','' (opt_list f)"] Cons.prems by (simp add: fields_text_append)
qed simp

lemma print_object:
  assumes ok: "buffer_fits mem n" and len: "int (length (object_text ((k, v) # concat (map opt_list fs)))) \<le> INT_MAX"
  shows "do { st \<leftarrow> print_field True (Some (k, v)) (start_state mem n); st \<leftarrow> print_fields fs st; st \<leftarrow> printToBuffer ''}'' st;
      Some (printed st) } = vsnprintf mem 0 n (object_text ((k, v) # concat (map opt_list fs)))"
proof -
  define t where "t = CHR ''{'' # fields_text [] [(k, v)]"
  define u where "u = t @ fields_text '','' (concat (map opt_list fs))"
  have o: "object_text ((k, v) # concat (map opt_list fs)) = u @ ''}''" by (simp add: object_text_def u_def t_def)
  have "print_field True (Some (k, v)) (start_state mem n) = Some (state_after mem n t)"
    unfolding t_def by (rule print_field_start [OF ok]) (use len in \<open>simp add: o u_def t_def\<close>)
  moreover have "print_fields fs (state_after mem n t) = Some (state_after mem n u)"
    unfolding u_def by (rule print_fields_more [OF ok]) (use len in \<open>simp_all add: o u_def t_def\<close>)
  moreover have "printToBuffer ''}'' (state_after mem n u) = Some (state_after mem n (u @ ''}''))"
    by (rule print_more [OF ok]) (use len in \<open>simp_all add: o\<close>)
  ultimately show ?thesis using printed_after [OF _ ok, of "u @ ''}''"] len by (simp add: o)
qed

end
