(* ===== verification/JobsProperties.thy ===== *)
theory JobsProperties
  imports JobsDocuments JsmnProperties JsonUtilsProperties MqttTopic MqttSample
begin

text \<open>
  The promises of the job service's client: a request is the text of a JSON object, which the SDK's own tokenizer reads
  back; its topics are those the wildcard subscription matches; and what a call publishes and returns.
\<close>

subsection \<open>Texts of requests\<close>

definition update_fields :: "AwsIotJobExecutionUpdateRequest \<Rightarrow> (string \<times> string) option list" where
  "update_fields r =
     [map_option (\<lambda>d. (''statusDetails'', d)) (statusDetails r),
      if executionNumber r = 0 then None else Some (''executionNumber'', show_int (sint (executionNumber r))),
      if expectedVersion r = 0 then None else Some (''expectedVersion'', show_int (sint (expectedVersion r))),
      if includeJobExecutionState r then Some (''includeJobExecutionState'', ''true'') else None,
      if includeJobDocument r then Some (''includeJobDocument'', ''true'') else None,
      map_option (\<lambda>t. (''clientToken'', json_quoted t)) (update_clientToken r)]"

definition update_text :: "string \<Rightarrow> AwsIotJobExecutionUpdateRequest \<Rightarrow> string" where
  "update_text st r = object_text ((''status'', json_quoted st) # concat (map opt_list (update_fields r)))"

definition describe_fields :: "AwsIotDescribeJobExecutionRequest \<Rightarrow> (string \<times> string) list" where
  "describe_fields r = concat (map opt_list
     [map_option (\<lambda>t. (''clientToken'', json_quoted t)) (describe_clientToken r),
      if describe_executionNumber r = 0 then None else Some (''executionNumber'', show_int (sint (describe_executionNumber r))),
      if describe_includeJobDocument r then Some (''includeJobDocument'', ''true'') else None])"

definition start_next_text :: "AwsIotStartNextPendingJobExecutionRequest \<Rightarrow> string" where
  "start_next_text r = object_text (concat (map opt_list
     [map_option (\<lambda>d. (''statusDetails'', d)) (start_statusDetails r),
      map_option (\<lambda>t. (''clientToken'', json_quoted t)) (start_clientToken r)]))"

lemma print_values:
  "printStringValue (Some v) = printToBuffer (json_quoted v)" "printStringValue None = printToBuffer ''null''"
  "printLongValue w = printToBuffer (show_int (sint w))" "printBooleanValue b = printToBuffer (if b then ''true'' else ''false'')"
  by (simp_all add: fun_eq_iff printStringValue_def printLongValue_def printBooleanValue_def json_quoted_def)

lemma field_stages:
  "(case d of None \<Rightarrow> Some st | Some d \<Rightarrow> do { st \<leftarrow> printKey isFirst k st; printToBuffer d st }) =
     print_field isFirst (map_option (\<lambda>d. (k, d)) d) st"
  "(if z then Some st else do { st \<leftarrow> printKey isFirst k st; printLongValue w st }) =
     print_field isFirst (if z then None else Some (k, show_int (sint w))) st"
  "(if \<not> b then Some st else do { st \<leftarrow> printKey isFirst k st; printBooleanValue b st }) =
     print_field isFirst (if b then Some (k, ''true'') else None) st"
  "(case t of None \<Rightarrow> Some st | Some t \<Rightarrow> do { st \<leftarrow> printKey isFirst k st; printStringValue (Some t) st }) =
     print_field isFirst (map_option (\<lambda>t. (k, json_quoted t)) t) st"
  by (auto simp: print_field_def print_values split: option.splits)

lemma value_stages:
  "do { st \<leftarrow> printKey isFirst k st; st \<leftarrow> printStringValue (Some t) st; g st } =
     do { st \<leftarrow> print_field isFirst (Some (k, json_quoted t)) st; g st }"
  by (simp add: print_field_def print_values)

lemma update_printed:
  assumes st: "aws_iot_jobs_map_status_to_string (job_status r) = Some st"
    and ok: "buffer_fits mem (if mem = None then 0 else n)" and len: "int (length (update_text st r)) \<le> INT_MAX"
  shows "aws_iot_jobs_json_serialize_update_job_execution_request mem n r =
    vsnprintf mem 0 (if mem = None then 0 else n) (update_text st r)"
proof -
  define k where "k = (if mem = None then 0 else n)"
  have "aws_iot_jobs_json_serialize_update_job_execution_request mem n r =
      do { st \<leftarrow> print_field True (Some (''status'', json_quoted st)) (start_state mem k);
           st \<leftarrow> print_fields (update_fields r) st; st \<leftarrow> printToBuffer ''}'' st; Some (printed st) }"
    unfolding aws_iot_jobs_json_serialize_update_job_execution_request_def st option.case k_def [symmetric]
      field_stages value_stages
    by (simp add: update_fields_def)
  also have "\<dots> = vsnprintf mem 0 k (update_text st r)"
    unfolding update_text_def
    by (rule print_object [OF ok [folded k_def] len [unfolded update_text_def]])
  finally show ?thesis by (simp add: k_def)
qed

lemma describe_printed:
  assumes ok: "buffer_fits (Some m) n" and len: "int (length (object_text (describe_fields r))) \<le> INT_MAX"
  shows "aws_iot_jobs_json_serialize_describe_job_execution_request (Some m) n r =
    vsnprintf (Some m) 0 n (if describe_fields r = [] then ''}'' else object_text (describe_fields r))"
proof -
  let ?ser = "aws_iot_jobs_json_serialize_describe_job_execution_request (Some m) n r"
  define d :: "(string \<times> string) option" where "d = (if describe_includeJobDocument r then Some (''includeJobDocument'', ''true'') else None)"
  define e where "e = (if describe_executionNumber r = 0 then None else Some (''executionNumber'', show_int (sint (describe_executionNumber r))))"
  have fs: "describe_fields r = opt_list (map_option (\<lambda>t. (''clientToken'', json_quoted t)) (describe_clientToken r)) @ opt_list e @ opt_list d"
    by (simp add: describe_fields_def d_def e_def)
  note unf = aws_iot_jobs_json_serialize_describe_job_execution_request_def field_stages
  show ?thesis
  proof (cases "describe_clientToken r")
    case (Some t)
    have "?ser = do { st \<leftarrow> print_field True (Some (''clientToken'', json_quoted t)) (start_state (Some m) n);
        st \<leftarrow> print_fields [e, d] st; st \<leftarrow> printToBuffer ''}'' st; Some (printed st) }"
      unfolding unf by (simp add: Some value_stages d_def e_def) (simp add: print_field_def print_values)
    then show ?thesis
      using print_object [OF ok, of "''clientToken''" "json_quoted t" "[e, d]"] len by (simp add: fs Some)
  next
    case None
    show ?thesis
    proof (cases e)
      case (Some kv)
      then have "?ser = do { st \<leftarrow> print_field True (Some kv) (start_state (Some m) n);
          st \<leftarrow> print_fields [d] st; st \<leftarrow> printToBuffer ''}'' st; Some (printed st) }"
        unfolding unf using None
        by (auto simp: d_def e_def print_field_def print_values split: if_splits)
      then show ?thesis
        using print_object [OF ok, of "fst kv" "snd kv" "[d]"] len by (simp add: fs None Some)
    next
      case e: None
      then have z: "describe_executionNumber r = 0" by (simp add: e_def split: if_splits)
      show ?thesis
      proof (cases d)
        case (Some kv)
        then have "?ser = do { st \<leftarrow> print_field True (Some kv) (start_state (Some m) n);
            st \<leftarrow> print_fields [] st; st \<leftarrow> printToBuffer ''}'' st; Some (printed st) }"
          unfolding unf using None z by (simp add: d_def)
        then show ?thesis
          using print_object [OF ok, of "fst kv" "snd kv" "[]"] len by (simp add: fs None Some e)
      next
        case d: None
        then have "?ser = do { st \<leftarrow> printToBuffer ''}'' (start_state (Some m) n); Some (printed st) }"
          unfolding unf using None z by (simp add: d_def print_field_def split: if_splits)
        then show ?thesis
          using print_more [OF ok, of "[]" "''}''"] printed_after [OF _ ok, of "''}''"]
          by (simp add: fs None e d start_state_after INT_MAX_def)
      qed
    qed
  qed
qed

lemma start_next_printed:
  assumes ok: "buffer_fits mem (if mem = None then 0 else n)" and len: "int (length (start_next_text r)) \<le> INT_MAX"
  shows "aws_iot_jobs_json_serialize_start_next_job_execution_request mem n r =
    vsnprintf mem 0 (if mem = None then 0 else n) (start_next_text r)"
proof -
  define k where "k = (if mem = None then 0 else n)"
  note ok = ok [folded k_def]
  note unf = aws_iot_jobs_json_serialize_start_next_job_execution_request_def Let_def field_stages k_def [symmetric]
  define t where "t = map_option (\<lambda>t. (''clientToken'', json_quoted t)) (start_clientToken r)"
  have "aws_iot_jobs_json_serialize_start_next_job_execution_request mem n r = vsnprintf mem 0 k (start_next_text r)"
  proof (cases "start_statusDetails r")
    case (Some d)
    have "aws_iot_jobs_json_serialize_start_next_job_execution_request mem n r =
        do { st \<leftarrow> print_field True (Some (''statusDetails'', d)) (start_state mem k);
             st \<leftarrow> print_fields [t] st; st \<leftarrow> printToBuffer ''}'' st; Some (printed st) }"
      unfolding unf by (simp add: Some t_def)
    then show ?thesis
      using print_object [OF ok, of "''statusDetails''" d "[t]"] len by (simp add: start_next_text_def Some t_def)
  next
    case d: None
    show ?thesis
    proof (cases "start_clientToken r")
      case (Some x)
      have "aws_iot_jobs_json_serialize_start_next_job_execution_request mem n r =
          do { st \<leftarrow> print_field True (Some (''clientToken'', json_quoted x)) (start_state mem k);
               st \<leftarrow> print_fields [] st; st \<leftarrow> printToBuffer ''}'' st; Some (printed st) }"
        unfolding unf by (simp add: Some d) (simp add: print_field_def)
      then show ?thesis
        using print_object [OF ok, of "''clientToken''" "json_quoted x" "[]"] len by (simp add: start_next_text_def Some d)
    next
      case None
      have "aws_iot_jobs_json_serialize_start_next_job_execution_request mem n r =
          do { st \<leftarrow> printToBuffer ''{'' (start_state mem k); st \<leftarrow> printToBuffer ''}'' st; Some (printed st) }"
        unfolding unf by (simp add: None d) (simp add: print_field_def)
      then show ?thesis
        using print_more [OF ok, of "[]" "''{''"] print_more [OF ok, of "''{''" "''}''"] printed_after [OF _ ok, of "''{}''"]
        by (simp add: start_next_text_def object_text_def None d start_state_after INT_MAX_def)
    qed
  qed
  then show ?thesis by (simp add: k_def)
qed

lemma token_printed:
  assumes ok: "buffer_fits mem n" and len: "int (length (object_text [(''clientToken'', v)])) \<le> INT_MAX"
    and v: "v = (case t of None \<Rightarrow> ''null'' | Some t \<Rightarrow> json_quoted t)"
  shows "aws_iot_jobs_json_serialize_client_token_only_request mem n t = vsnprintf mem 0 n (object_text [(''clientToken'', v)])"
proof -
  have "aws_iot_jobs_json_serialize_client_token_only_request mem n t =
      do { st \<leftarrow> print_field True (Some (''clientToken'', v)) (start_state mem n);
           st \<leftarrow> print_fields [] st; st \<leftarrow> printToBuffer ''}'' st; Some (printed st) }"
    by (cases t) (simp_all add: aws_iot_jobs_json_serialize_client_token_only_request_def v print_field_def print_values)
  then show ?thesis using print_object [OF ok, of "''clientToken''" v "[]"] len by simp
qed

lemma token_without_buffer:
  "n \<noteq> 0 \<Longrightarrow> aws_iot_jobs_json_serialize_client_token_only_request None n t = None"
  by (simp add: aws_iot_jobs_json_serialize_client_token_only_request_def printKey_def printToBuffer_def start_state_def
      vsnprintf_def Let_def)

text \<open>(C20) A document is printed as if at once. However many prints one of the four requests is made of, the call returns
  the length of the whole text, and the buffer holds as much of it as fits, with a terminator, and is untouched behind it,
  exactly as after one \<open>snprintf\<close> of it. The text is the JSON object of the fields that are set, except that a request
  to describe a job with none of them is a closing bracket alone; a status that has no name is an error. Without a buffer
  the requests to update and to start a job give the length; the one to describe a job gives 0, and the one with the token
  only is undefined for any size but 0.\<close>

theorem requests_printed:
  assumes room: "\<And>m. mem = Some m \<Longrightarrow> n \<le> length m" and k: "k = (if mem = None then 0 else n)"
    and sizes: "\<And>st. aws_iot_jobs_map_status_to_string (job_status u) = Some st \<Longrightarrow> int (length (update_text st u)) \<le> INT_MAX"
      "int (length (start_next_text r)) \<le> INT_MAX" "int (length (object_text (describe_fields d))) \<le> INT_MAX"
      "int (length (object_text [(''clientToken'', v)])) \<le> INT_MAX"
    and v: "v = (case t of None \<Rightarrow> ''null'' | Some t \<Rightarrow> json_quoted t)"
    and bare: "bare \<longleftrightarrow> describe_clientToken d = None \<and> describe_executionNumber d = 0 \<and> \<not> describe_includeJobDocument d"
  shows "aws_iot_jobs_json_serialize_update_job_execution_request mem n u =
      (case aws_iot_jobs_map_status_to_string (job_status u) of
         None \<Rightarrow> Some (-1, mem) | Some st \<Rightarrow> vsnprintf mem 0 k (update_text st u)) \<and>
    aws_iot_jobs_json_serialize_start_next_job_execution_request mem n r = vsnprintf mem 0 k (start_next_text r) \<and>
    aws_iot_jobs_json_serialize_describe_job_execution_request mem n d =
      (if mem = None then Some (0, None)
       else vsnprintf mem 0 n (if bare then ''}'' else object_text (describe_fields d))) \<and>
    aws_iot_jobs_json_serialize_client_token_only_request mem n t =
      (if mem = None \<and> n \<noteq> 0 then None else vsnprintf mem 0 n (object_text [(''clientToken'', v)]))"
proof -
  have ok: "buffer_fits mem (if mem = None then 0 else n)" using room by (cases mem) (simp_all add: buffer_fits_def)
  have "aws_iot_jobs_json_serialize_update_job_execution_request mem n u =
      (case aws_iot_jobs_map_status_to_string (job_status u) of
         None \<Rightarrow> Some (-1, mem) | Some st \<Rightarrow> vsnprintf mem 0 k (update_text st u))"
    using update_printed [OF _ ok sizes(1)]
    by (cases "aws_iot_jobs_map_status_to_string (job_status u)")
      (simp_all add: k aws_iot_jobs_json_serialize_update_job_execution_request_def)
  moreover have "aws_iot_jobs_json_serialize_describe_job_execution_request mem n d =
      (if mem = None then Some (0, None) else vsnprintf mem 0 n (if bare then ''}'' else object_text (describe_fields d)))"
  proof (cases mem)
    case None
    then show ?thesis by (simp add: aws_iot_jobs_json_serialize_describe_job_execution_request_def)
  next
    case (Some m)
    have "describe_fields d = [] \<longleftrightarrow> bare" by (cases "describe_clientToken d") (auto simp: describe_fields_def bare)
    then show ?thesis using describe_printed [OF _ sizes(3), of m n] ok Some by simp
  qed
  moreover have "aws_iot_jobs_json_serialize_client_token_only_request mem n t =
      (if mem = None \<and> n \<noteq> 0 then None else vsnprintf mem 0 n (object_text [(''clientToken'', v)]))"
    using token_printed [OF _ sizes(4) v, of mem n] ok token_without_buffer [of n t] by (auto split: if_splits)
  ultimately show ?thesis using start_next_printed [OF ok sizes(2)] by (simp add: k)
qed

definition sample_update :: AwsIotJobExecutionUpdateRequest where
  "sample_update = \<lparr>expectedVersion = 0, executionNumber = 7, job_status = JOB_EXECUTION_IN_PROGRESS,
     statusDetails = Some (render (JObject [] (MCons [] ''step'' [] [] (JString ''1'') [] MNil))),
     includeJobExecutionState = False, includeJobDocument = True, update_clientToken = Some ''ab''\<rparr>"

text \<open>A buffer that is too small: the length is the whole, what it holds is cut off.\<close>

theorem requests_printed_witness:
  "aws_iot_jobs_json_serialize_update_job_execution_request (Some (replicate 30 CHR ''x'')) 25 sample_update =
     Some (118, Some (CHR ''{'' # json_quoted ''status'' @ '':'' @ json_quoted ''IN_PROGRESS'' @ '','' @ NUL # ''xxxxx'')) \<and>
   aws_iot_jobs_json_serialize_describe_job_execution_request (Some (replicate 30 CHR ''x'')) 25
     \<lparr>describe_executionNumber = 0, describe_includeJobDocument = False, describe_clientToken = None\<rparr> =
     Some (1, Some (''}'' @ NUL # replicate 28 CHR ''x''))"
proof -
  let ?d = "\<lparr>describe_executionNumber = 0, describe_includeJobDocument = False, describe_clientToken = None\<rparr>"
  have status: "aws_iot_jobs_map_status_to_string (job_status sample_update) = Some ''IN_PROGRESS''" by code_simp
  let ?t = "update_text ''IN_PROGRESS'' sample_update" and ?mem = "Some (replicate 30 CHR ''x'')"
  have len: "int (length ?t) \<le> INT_MAX" by code_simp
  have update: "int (length (update_text st sample_update)) \<le> INT_MAX"
    if "aws_iot_jobs_map_status_to_string (job_status sample_update) = Some st" for st
    using that len unfolding status by simp
  have sizes: "int (length (start_next_text \<lparr>start_statusDetails = None, start_clientToken = None\<rparr>)) \<le> INT_MAX"
    "int (length (object_text (describe_fields ?d))) \<le> INT_MAX" "int (length (object_text [(''clientToken'', ''null'')])) \<le> INT_MAX"
    by code_simp+
  have v: "''null'' = (case (None :: string option) of None \<Rightarrow> ''null'' | Some t \<Rightarrow> json_quoted t)" by simp
  have room: "25 \<le> length m" if "?mem = Some m" for m using that by auto
  note p = requests_printed [of ?mem 25, OF room refl update sizes v refl]
  have "vsnprintf ?mem 0 25 ?t =
      Some (118, Some (CHR ''{'' # json_quoted ''status'' @ '':'' @ json_quoted ''IN_PROGRESS'' @ '','' @ NUL # ''xxxxx''))"
    "vsnprintf ?mem 0 25 ''}'' = Some (1, Some (''}'' @ NUL # replicate 28 CHR ''x''))"
    by code_simp+
  then show ?thesis using p by (simp add: status)
qed

subsection \<open>Reading a request back\<close>

definition update_members :: "string \<Rightarrow> AwsIotJobExecutionUpdateRequest \<Rightarrow> json option \<Rightarrow> (string \<times> json) list" where
  "update_members st r details = (''status'', JString st) # concat (map opt_list
     [map_option (\<lambda>d. (''statusDetails'', d)) details,
      if executionNumber r = 0 then None else Some (''executionNumber'', JPrimitive (show_int (sint (executionNumber r)))),
      if expectedVersion r = 0 then None else Some (''expectedVersion'', JPrimitive (show_int (sint (expectedVersion r)))),
      if includeJobExecutionState r then Some (''includeJobExecutionState'', JPrimitive ''true'') else None,
      if includeJobDocument r then Some (''includeJobDocument'', JPrimitive ''true'') else None,
      map_option (\<lambda>t. (''clientToken'', JString t)) (update_clientToken r)])"

lemma update_text_render:
  assumes "statusDetails r = map_option render details"
  shows "update_text st r = render (JObject [] (report_members (update_members st r details)))"
proof -
  have "(''status'', json_quoted st) # concat (map opt_list (update_fields r)) =
      map (\<lambda>(k, v). (k, render v)) (update_members st r details)"
    using assms by (cases details; cases "update_clientToken r") (simp_all add: update_fields_def update_members_def)
  then show ?thesis unfolding update_text_def by (simp only: object_text_render)
qed

lemma report_members_ok: "members_ok (report_members kvs) \<longleftrightarrow> (\<forall>(k, v) \<in> set kvs. string_text k \<and> json_ok v)"
  by (induction kvs) auto

lemma report_member_place:
  "distinct (map fst kvs) \<Longrightarrow> (k, v) \<in> set kvs \<Longrightarrow> \<exists>d c. member_place k a sep (report_members kvs) = Some (d, c, v)"
  by (induction kvs arbitrary: a sep) (force simp: Let_def)+

lemma show_int_primitive: "primitive_text (show_int z)"
proof -
  have "show_int z \<noteq> []" by (simp add: show_int_def)
  moreover have "json_char c \<and> \<not> ends_primitive c \<and> c \<noteq> DQUOTE \<and> c \<noteq> CHR ''{'' \<and> c \<noteq> CHR ''[''" if "c \<in> set (show_int z)" for c
    using show_int_chars [OF that] by (auto simp: is_digit_def json_char_def ends_primitive_def white_def)
  ultimately show ?thesis by (auto simp: primitive_text_def list_all_iff)
qed

text \<open>(C19) A status report is read back. When the report fits into the buffer, with details that are a JSON value and
  a token without quotes, the SDK's tokenizer finds the tokens of the report in the buffer and the search for a key
  finds every field that is set, with its value; the status read there stands for the status reported.\<close>

theorem update_request_read_back:
  assumes status: "aws_iot_jobs_map_status_to_string (job_status r) = Some st"
    and details: "statusDetails r = map_option render details" "pred_option json_ok details"
    and token: "pred_option string_text (update_clientToken r)"
    and room: "length (update_text st r) < n" "n \<le> length m" "int n \<le> INT_MAX"
    and doc: "doc = JObject [] (report_members (update_members st r details))" "token_count doc \<le> length ts"
  shows "\<exists>m' ts' p i. aws_iot_jobs_json_serialize_update_job_execution_request (Some m) n r =
      Some (int (length (update_text st r)), Some m') \<and>
    jsmn_parse jsmn_init m' (length m') (Some ts) (length ts) = Some (int (token_count doc), p, Some ts') \<and>
    (\<forall>(k, v) \<in> set (update_members st r details). \<exists>i c. findToken k m' ts' 0 = Some (Some i) \<and>
       ts' ! i = hd (tokens_of c v) \<and> take (length (render v)) (drop c m') = render v) \<and>
    findToken ''status'' m' ts' 0 = Some (Some i) \<and>
    map_option (\<lambda>(rc, s). aws_iot_jobs_map_string_to_job_status s) (parseStringValue 12 m' (ts' ! i)) = Some (job_status r)"
proof -
  let ?kvs = "update_members st r details"
  define t where "t = update_text st r"
  define q where "q = NUL # drop (length t + 1) m"
  define m' where "m' = t @ q"
  define ts' where "ts' = tokens_of 0 doc @ drop (token_count doc) ts"
  have t: "t = render doc" unfolding t_def doc(1) by (rule update_text_render [OF details(1)])
  have st: "string_text st" "length st < 12" "aws_iot_jobs_map_string_to_job_status (Some st) = job_status r"
    using status by (cases "job_status r"; auto simp: aws_iot_jobs_map_status_to_string_def
        aws_iot_jobs_map_string_to_job_status_def)+
  have kvs: "distinct (map fst ?kvs)"
    by (cases details; cases "update_clientToken r") (simp_all add: update_members_def)
  have ok: "members_ok (report_members ?kvs)"
    using details(2) token st(1) show_int_primitive
    by (cases details; cases "update_clientToken r") (simp_all add: report_members_ok update_members_def primitive_text_def
        json_char_def ends_primitive_def white_def)
  have ser: "aws_iot_jobs_json_serialize_update_job_execution_request (Some m) n r = Some (int (length t), Some m')"
  proof -
    have "buffer_fits (Some m) n" "int (length t) \<le> INT_MAX" using room by (simp_all add: buffer_fits_def t_def)
    moreover have "in_buffer m n t = m'" using room(1) by (simp add: in_buffer_def m'_def q_def t_def)
    ultimately show ?thesis using update_printed [OF status, of "Some m" n] vsnprintf_whole [of "Some m" n t]
      by (simp add: t_def)
  qed
  have js: "m' = [] @ render doc @ [] @ q" by (simp add: m'_def t)
  have parse: "jsmn_parse jsmn_init m' (length m') (Some ts) (length ts) =
      Some (int (token_count doc), \<lparr>pos = length ([] @ render doc @ []), toknext = token_count doc, toksuper = -1\<rparr>,
        Some (tokens_of (length ([] :: string)) doc @ drop (token_count doc) ts))"
    by (rule jsmn_parse_value [OF js]) (use ok doc(2) in \<open>simp_all add: doc(1) q_def text_ends_def\<close>)
  have found: "\<exists>i c. findToken k m' ts' 0 = Some (Some i) \<and> ts' ! i = hd (tokens_of c v) \<and>
      take (length (render v)) (drop c m') = render v" if kv: "(k, v) \<in> set ?kvs" for k v
  proof -
    obtain d c where "member_place k (length ([] :: string) + 1 + length ([] :: string)) [] (report_members ?kvs) = Some (d, c, v)"
      using report_member_place [OF kvs kv] by blast
    from findToken_member [OF _ ok this, of m' q "[]" "drop (token_count doc) ts"] show ?thesis
      using js unfolding ts'_def doc(1) by auto
  qed
  have "(''status'', JString st) \<in> set ?kvs" by (simp add: update_members_def)
  from found [OF this] obtain i c where s: "findToken ''status'' m' ts' 0 = Some (Some i)" "ts' ! i = hd (tokens_of c (JString st))"
    "take (length (json_quoted st)) (drop c m') = json_quoted st"
    by auto
  have v: "map_option (\<lambda>(rc, s). aws_iot_jobs_map_string_to_job_status s) (parseStringValue 12 m' (ts' ! i)) = Some (job_status r)"
    unfolding s(2) parse_string_value [OF s(3) st(1,2)] using st(3) by simp
  show ?thesis
    using ser parse found s(1) v
    by (intro exI [of _ m'] exI [of _ ts'] exI [of _ "\<lparr>pos = length ([] @ render doc @ []), toknext = token_count doc, toksuper = -1\<rparr>"]
        exI [of _ i]) (auto simp: t_def ts'_def)
qed

theorem update_request_read_back_witness:
  "\<exists>m' ts' p i. aws_iot_jobs_json_serialize_update_job_execution_request (Some (replicate 150 CHR ''x'')) 140 sample_update =
      Some (118, Some m') \<and> jsmn_parse jsmn_init m' (length m') (Some (replicate 20 blank_token)) 20 = Some (13, p, Some ts') \<and>
    findToken ''status'' m' ts' 0 = Some (Some i) \<and>
    map_option (\<lambda>(rc, s). aws_iot_jobs_map_string_to_job_status s) (parseStringValue 12 m' (ts' ! i)) = Some JOB_EXECUTION_IN_PROGRESS"
proof -
  let ?d = "Some (JObject [] (MCons [] ''step'' [] [] (JString ''1'') [] MNil))"
  let ?doc = "JObject [] (report_members (update_members ''IN_PROGRESS'' sample_update ?d))"
  have status: "aws_iot_jobs_map_status_to_string (job_status sample_update) = Some ''IN_PROGRESS''" by code_simp
  have details: "statusDetails sample_update = map_option render ?d" "pred_option json_ok ?d"
    "pred_option string_text (update_clientToken sample_update)"
    by (simp_all add: sample_update_def)
  have len: "length (update_text ''IN_PROGRESS'' sample_update) = 118" by code_simp
  have count: "token_count ?doc = 13" by code_simp
  have room: "length (update_text ''IN_PROGRESS'' sample_update) < 140" "140 \<le> length (replicate 150 CHR ''x'')" "int 140 \<le> INT_MAX"
    unfolding len by (simp_all add: INT_MAX_def)
  have "token_count ?doc \<le> length (replicate 20 blank_token)" unfolding count by simp
  from update_request_read_back [OF status details room refl this] show ?thesis
    unfolding len count by (auto simp: sample_update_def)
qed

subsection \<open>A request to describe a job\<close>

lemma lone_bracket:
  "num \<le> length ts \<Longrightarrow> jsmn_parse jsmn_init (CHR ''}'' # NUL # q) (Suc (Suc (length q))) (Some ts) num =
     Some (JSMN_ERROR_INVAL, \<lparr>pos = 0, toknext = 0, toksuper = -1\<rparr>, Some ts)"
  by (simp add: jsmn_parse_def jsmn_init_def jsmn_loop.simps next_char_def char_at_def parse_step_def close_bracket_def)

text \<open>A request to describe a job. With a token, a number or the wish for the document in it, the request is printed
  as the object of these fields. A request with none of them is printed as a closing bracket alone, which the tokenizer
  refuses.\<close>

theorem describe_request_printed:
  assumes room: "n \<le> length m" and len: "int (length (object_text (describe_fields r))) \<le> INT_MAX"
    and ts: "num \<le> length ts" and doc: "doc = (if describe_fields r = [] then ''}'' else object_text (describe_fields r))"
    and none: "none \<longleftrightarrow> describe_clientToken r = None \<and> describe_executionNumber r = 0 \<and> \<not> describe_includeJobDocument r"
  shows "aws_iot_jobs_json_serialize_describe_job_execution_request (Some m) n r = vsnprintf (Some m) 0 n doc \<and>
    (none \<longleftrightarrow> doc = ''}'') \<and>
    (none \<and> 2 \<le> n \<longrightarrow>
       aws_iot_jobs_json_serialize_describe_job_execution_request (Some m) n r = Some (1, Some (''}'' @ NUL # drop 2 m)) \<and>
       map_option fst (jsmn_parse jsmn_init (''}'' @ NUL # drop 2 m) (length m) (Some ts) num) = Some JSMN_ERROR_INVAL)"
proof -
  have ok: "buffer_fits (Some m) n" using room by (simp add: buffer_fits_def)
  have fields: "describe_fields r = [] \<longleftrightarrow> none"
    by (cases "describe_clientToken r") (auto simp: describe_fields_def none)
  have d: "none \<longleftrightarrow> doc = ''}''" using fields by (auto simp: doc object_text_def)
  note p = describe_printed [OF ok len, folded doc]
  have "vsnprintf (Some m) 0 n doc = Some (1, Some (''}'' @ NUL # drop 2 m))" if "none" "2 \<le> n"
    using vsnprintf_whole [OF ok, of "''}''"] that d by (simp add: INT_MAX_def in_buffer_def numeral_2_eq_2 take_Cons')
  moreover have "map_option fst (jsmn_parse jsmn_init (''}'' @ NUL # drop 2 m) (length m) (Some ts) num) = Some JSMN_ERROR_INVAL"
    if "2 \<le> n"
  proof -
    have l: "length m = Suc (Suc (length (drop 2 m)))" using that room by simp
    show ?thesis unfolding l using lone_bracket [OF ts, of "drop 2 m"] by simp
  qed
  ultimately show ?thesis unfolding p using d by blast
qed

theorem describe_request_printed_witness:
  "aws_iot_jobs_json_serialize_describe_job_execution_request (Some ''xxxx'') 4
     \<lparr>describe_executionNumber = 0, describe_includeJobDocument = False, describe_clientToken = None\<rparr> =
     Some (1, Some (''}'' @ NUL # ''xx''))"
proof -
  let ?r = "\<lparr>describe_executionNumber = 0, describe_includeJobDocument = False, describe_clientToken = None\<rparr>"
  have "describe_fields ?r = []" by (simp add: describe_fields_def)
  then have len: "int (length (object_text (describe_fields ?r))) \<le> INT_MAX" by (simp add: object_text_def INT_MAX_def)
  note r = describe_request_printed [of 4 "''xxxx''" ?r 0 "[]", OF _ len _ refl refl, simplified]
  show ?thesis using r [THEN conjunct2] by simp
qed

subsection \<open>Topics\<close>

lemma vsnprintf_fits:
  assumes "vsnprintf (Some m) 0 n t = Some (r, mem)" and "0 \<le> r" and "r < int n"
  shows "mem = Some (t @ NUL # drop (length t + 1) m)"
proof -
  have n: "n \<noteq> 0" "int (length t) = r" using assms by (auto simp: vsnprintf_def Let_def split: if_splits)
  then have "take (n - 1) t = t" using assms(3) by simp
  then show ?thesis using assms(1) n(1) by (auto simp: vsnprintf_def Let_def split: if_splits)
qed

definition jobs_prefix :: "string \<Rightarrow> string" where
  "jobs_prefix thing = ''$aws/things/'' @ thing @ ''/jobs/''"

lemma api_topic_text:
  assumes run: "aws_iot_jobs_get_api_topic (Some tb) tn ty reply (Some thing) job = Some (r, Some tb')" "0 \<le> r" "r < int tn"
    and job: "pred_option (\<lambda>j. j \<noteq> [] \<and> hd j \<noteq> CHR ''/'' \<and> NUL \<notin> set j) job"
  obtains rest q where "tb' = jobs_prefix thing @ rest @ NUL # q" "rest \<noteq> []" "hd rest \<noteq> CHR ''/''" "NUL \<notin> set rest"
proof -
  obtain operation where op: "get_operation_for_base_topic ty = Some operation"
    using run by (auto simp: aws_iot_jobs_get_api_topic_def split: if_splits option.splits)
  have op_ok: "operation \<noteq> []" "hd operation \<noteq> CHR ''/''" "NUL \<notin> set operation"
    using op by (cases ty; auto simp: get_operation_for_base_topic_def)+
  have suffix_ok: "NUL \<notin> set suffix" if "get_suffix_for_topic_type reply = Some suffix" for suffix
    using that by (cases reply; auto simp: get_suffix_for_topic_type_def)
  have "\<exists>rest. vsnprintf (Some tb) 0 tn (jobs_prefix thing @ rest) = Some (r, Some tb') \<and> rest \<noteq> [] \<and> hd rest \<noteq> CHR ''/'' \<and> NUL \<notin> set rest"
  proof (cases "base_topic_requires_job_id ty \<or> ty = JOB_WILDCARD_TOPIC \<and> job \<noteq> None")
    case True
    then obtain j suffix where "job = Some j" "get_suffix_for_topic_type reply = Some suffix"
      "vsnprintf (Some tb) 0 tn (jobs_prefix thing @ j @ ''/'' @ operation @ suffix) = Some (r, Some tb')"
      using run op by (auto simp: aws_iot_jobs_get_api_topic_def jobs_prefix_def Let_def Option.bind_eq_Some_conv split: if_splits)
    then show ?thesis using job op_ok suffix_ok by (intro exI [of _ "j @ ''/'' @ operation @ suffix"]) auto
  next
    case f: False
    show ?thesis
    proof (cases "ty = JOB_WILDCARD_TOPIC")
      case True
      then show ?thesis using run f op
        by (intro exI [of _ "''#''"]) (auto simp: aws_iot_jobs_get_api_topic_def jobs_prefix_def Let_def split: if_splits)
    next
      case False
      then obtain suffix where "get_suffix_for_topic_type reply = Some suffix"
        "vsnprintf (Some tb) 0 tn (jobs_prefix thing @ operation @ suffix) = Some (r, Some tb')"
        using run f op by (auto simp: aws_iot_jobs_get_api_topic_def jobs_prefix_def Let_def Option.bind_eq_Some_conv split: if_splits)
      then show ?thesis using op_ok suffix_ok by (intro exI [of _ "operation @ suffix"]) auto
    qed
  qed
  then obtain rest where rest: "vsnprintf (Some tb) 0 tn (jobs_prefix thing @ rest) = Some (r, Some tb')"
    "rest \<noteq> []" "hd rest \<noteq> CHR ''/''" "NUL \<notin> set rest"
    by blast
  from vsnprintf_fits [OF rest(1) run(2,3)] rest(2-4) show ?thesis by (intro that) simp_all
qed

lemma of_char_byte: "(of_char c :: u8) = of_char d \<longleftrightarrow> c = d"
proof -
  have "unat (of_char c :: u8) = of_char c" for c
    by (simp add: of_char_def unat_of_nat)
  then show ?thesis by (metis of_char_eq_iff)
qed

lemma bytes_of_eq: "bytes_of a = bytes_of b \<longleftrightarrow> a = b"
  unfolding bytes_of_def by (rule inj_map_eq_map) (simp add: inj_on_def of_char_byte)

lemma wildcard_topic:
  "aws_iot_jobs_get_api_topic (Some fb) fn JOB_WILDCARD_TOPIC reply (Some thing) None = vsnprintf (Some fb) 0 fn (jobs_prefix thing @ ''#'')"
  by (simp add: aws_iot_jobs_get_api_topic_def base_topic_requires_job_id_def get_operation_for_base_topic_def jobs_prefix_def Let_def)

lemma bytes_char [simp]: "bytes_of [] = []" "bytes_of (c # cs) = of_char c # bytes_of cs" "bytes_of (a @ b) = bytes_of a @ bytes_of b"
  by (simp_all add: bytes_of_def)

lemma bytes_mem: "of_char c \<in> set (bytes_of s) \<longleftrightarrow> c \<in> set s"
  by (induction s) (auto simp: of_char_byte)

lemma bytes_special: "0 \<in> set (bytes_of s) \<longleftrightarrow> NUL \<in> set s" "SLASH \<in> set (bytes_of s) \<longleftrightarrow> CHR ''/'' \<in> set s"
  "PLUS \<in> set (bytes_of s) \<longleftrightarrow> CHR ''+'' \<in> set s" "HASH \<in> set (bytes_of s) \<longleftrightarrow> CHR ''#'' \<in> set s"
  using bytes_mem [of NUL s] bytes_mem [of "CHR ''/''" s] bytes_mem [of "CHR ''+''" s] bytes_mem [of "CHR ''#''" s] by simp_all

lemma all_jobs_filter:
  assumes names: "CHR ''/'' \<notin> set thing" "CHR ''/'' \<notin> set thing'" "CHR ''+'' \<notin> set thing'" "CHR ''#'' \<notin> set thing'"
    and rest: "rest \<noteq> []" "hd rest \<noteq> CHR ''/''"
  shows "topic_loop (bytes_of (jobs_prefix thing' @ ''#'')) (bytes_of (jobs_prefix thing @ rest)) \<longleftrightarrow> thing = thing'"
proof -
  obtain c cs where c: "rest = c # cs" using rest(1) by (cases rest) simp_all
  have sl: "(of_char c :: u8) \<noteq> SLASH" using rest(2) of_char_byte [of c "CHR ''/''"] by (simp add: c)
  have "topic_loop (bytes_of (jobs_prefix thing' @ ''#'')) (bytes_of (jobs_prefix thing @ rest)) \<longleftrightarrow>
      topic_loop (bytes_of thing' @ bytes_of ''/jobs/#'') (bytes_of thing @ bytes_of (''/jobs/'' @ rest))"
    by (simp add: jobs_prefix_def)
  also have "\<dots> \<longleftrightarrow> bytes_of thing' = bytes_of thing \<and> topic_loop (bytes_of ''/jobs/#'') (bytes_of (''/jobs/'' @ rest))"
    using names by (intro literal_level) (simp_all add: bytes_special)
  also have "\<dots> \<longleftrightarrow> bytes_of thing' = bytes_of thing" using sl by (simp add: c)
  finally show ?thesis by (auto simp: bytes_of_eq)
qed

text \<open>(C22) The subscription to all messages matches the messages of its thing. Whatever topic the library builds for a
  thing, for a request, a reply or a notice, of one job or all, the filter that it builds for all job messages matches
  it exactly when the filter is for the same thing.\<close>

theorem all_job_messages_matched:
  assumes topic: "aws_iot_jobs_get_api_topic (Some tb) tn ty reply (Some thing) job = Some (r, Some tb')" "0 \<le> r" "r < int tn"
    and topics: "aws_iot_jobs_get_api_topic (Some fb) fn JOB_WILDCARD_TOPIC JOB_WILDCARD_REPLY_TYPE (Some thing') None =
      Some (q, Some fb')" "0 \<le> q" "q < int fn"
    and names: "set thing \<inter> {NUL, CHR ''/''} = {}" "set thing' \<inter> {NUL, CHR ''/'', CHR ''+'', CHR ''#''} = {}"
      "pred_option (\<lambda>j. j \<noteq> [] \<and> hd j \<noteq> CHR ''/'' \<and> NUL \<notin> set j) job"
  shows "\<exists>name. text_in tb' = Some name \<and>
    is_topic_matched (buffer_pointer (Some fb')) (Some (bytes_of name)) = Some (thing = thing')"
proof -
  obtain rest z where t: "tb' = jobs_prefix thing @ rest @ NUL # z" "rest \<noteq> []" "hd rest \<noteq> CHR ''/''" "NUL \<notin> set rest"
    by (rule api_topic_text [OF topic names(3)])
  obtain z' where f: "fb' = jobs_prefix thing' @ ''#'' @ NUL # z'"
    using vsnprintf_fits [OF topics(1) [unfolded wildcard_topic] topics(2,3)] by simp
  have nul: "NUL \<notin> set (jobs_prefix thing @ rest)" "NUL \<notin> set (jobs_prefix thing' @ ''#'')"
    using names(1,2) t(4) by (auto simp: jobs_prefix_def)
  have tw: "takeWhile (\<lambda>c. c \<noteq> NUL) (a @ NUL # b) = a" if "NUL \<notin> set a" for a b
    using that by (induction a) auto
  have tw0: "takeWhile (\<lambda>c. c \<noteq> 0) (a @ 0 # b) = a" if "0 \<notin> set a" for a b :: "u8 list"
    using that by (induction a) auto
  have name: "text_in tb' = Some (jobs_prefix thing @ rest)"
    using tw [OF nul(1), of z] by (simp add: text_in_def t(1))
  have fb: "bytes_of fb' = bytes_of (jobs_prefix thing' @ ''#'') @ 0 # bytes_of z'"
    using of_char_byte [of NUL] by (simp add: f)
  have "c_string (bytes_of fb') = Some (bytes_of (jobs_prefix thing' @ ''#''))"
    unfolding fb c_string_def using tw0 [of "bytes_of (jobs_prefix thing' @ ''#'')" "bytes_of z'"] nul(2)
    by (simp add: bytes_special del: bytes_char)
  then have "is_topic_matched (buffer_pointer (Some fb')) (Some (bytes_of (jobs_prefix thing @ rest))) = Some (thing = thing')"
    using all_jobs_filter [of thing thing' rest] names(1,2) t(2,3)
    by (simp add: is_topic_matched_def buffer_pointer_def del: bytes_char) 
  then show ?thesis using name by blast
qed

theorem all_job_messages_matched_witness:
  "is_topic_matched (Some (cstr (bytes_of ''$aws/things/T/jobs/#''))) (Some (bytes_of ''$aws/things/T/jobs/7/update/accepted'')) = Some True"
proof -
  have t: "aws_iot_jobs_get_api_topic (Some (replicate 37 CHR ''x'')) 37 JOB_UPDATE_TOPIC JOB_ACCEPTED_REPLY_TYPE (Some ''T'') (Some ''7'') =
      Some (36, Some (''$aws/things/T/jobs/7/update/accepted'' @ [NUL]))"
    and f: "aws_iot_jobs_get_api_topic (Some (replicate 21 CHR ''x'')) 21 JOB_WILDCARD_TOPIC JOB_WILDCARD_REPLY_TYPE (Some ''T'') None =
      Some (20, Some (''$aws/things/T/jobs/#'' @ [NUL]))"
    by code_simp+
  have name: "text_in (''$aws/things/T/jobs/7/update/accepted'' @ [NUL]) = Some ''$aws/things/T/jobs/7/update/accepted''" by code_simp
  show ?thesis
    using all_job_messages_matched [OF t _ _ f] name by (simp add: buffer_pointer_def cstr_def)
qed

subsection \<open>Sending\<close>

definition update_topic :: "string \<Rightarrow> string \<Rightarrow> string" where
  "update_topic thing job = jobs_prefix thing @ job @ ''/update''"

lemma update_topic_printed:
  "aws_iot_jobs_get_api_topic (Some tb) n JOB_UPDATE_TOPIC JOB_REQUEST_TYPE (Some thing) (Some job) =
     vsnprintf (Some tb) 0 n (update_topic thing job)"
  by (simp add: aws_iot_jobs_get_api_topic_def base_topic_requires_job_id_def get_operation_for_base_topic_def
      get_suffix_for_topic_type_def update_topic_def jobs_prefix_def Let_def)

lemma check_length:
  "CHECK_GENERATE_STRING_RESULT (int a) b = (if b \<le> a then LIMIT_EXCEEDED_ERROR else SUCCESS)"
  "CHECK_GENERATE_STRING_RESULT (-1) b = FAILURE"
  by (simp_all add: CHECK_GENERATE_STRING_RESULT_def)

text \<open>(C32) A status report is sent or refused as a whole. The topic and the document are printed into the caller's
  buffers; if one does not fit with its terminator, or the status is none that can be reported, the call returns the
  error and the client is not called; otherwise exactly the topic and the document are published.\<close>

theorem update_request_sent:
  assumes buffers: "unat tn \<le> length tb" "mn \<le> length mb"
    and topic: "topic = update_topic thing job" "int (length topic) \<le> INT_MAX" "tb' = in_buffer tb (unat tn) topic"
    and doc: "\<forall>st. aws_iot_jobs_map_status_to_string (job_status r) = Some st \<longrightarrow> doc = update_text st r"
      "int (length doc) \<le> INT_MAX" "mb' = in_buffer mb mn doc"
  shows "aws_iot_jobs_send_update P qos (Some thing) (Some job) (Some r) (Some tb) tn (Some mb) mn s =
    (if unat tn \<le> length topic then Some (LIMIT_EXCEEDED_ERROR, Some tb', Some mb, s)
     else if job_status r \<in> {JOB_EXECUTION_STATUS_NOT_SET, JOB_EXECUTION_UNKNOWN_STATUS} then Some (FAILURE, Some tb', Some mb, s)
     else if mn \<le> length doc then Some (LIMIT_EXCEEDED_ERROR, Some tb', Some mb', s)
     else do {
       (rc, s) \<leftarrow> aws_iot_mqtt_publish P (Some (bytes_of tb')) (of_nat (length topic))
         (Some \<lparr>msg_qos = qos, msg_isRetained = 0, msg_isDup = 0, msg_id = 0, msg_payload = Some (bytes_of mb'),
           msg_payloadLen = of_nat (length doc)\<rparr>) s;
       Some (rc, Some tb', Some mb', s)
     })"
proof -
  have t: "aws_iot_jobs_get_api_topic (Some tb) (unat tn) JOB_UPDATE_TOPIC JOB_REQUEST_TYPE (Some thing) (Some job) =
      Some (int (length topic), Some tb')"
    unfolding update_topic_printed topic(1) [symmetric] topic(3)
    using vsnprintf_whole [of "Some tb" "unat tn" topic] buffers(1) topic(2) by (simp add: buffer_fits_def)
  show ?thesis
  proof (cases "aws_iot_jobs_map_status_to_string (job_status r)")
    case None
    then have "job_status r \<in> {JOB_EXECUTION_STATUS_NOT_SET, JOB_EXECUTION_UNKNOWN_STATUS}"
      by (cases "job_status r") (simp_all add: aws_iot_jobs_map_status_to_string_def)
    then show ?thesis
      by (simp add: aws_iot_jobs_send_update_def send_request_def t None check_length
          aws_iot_jobs_json_serialize_update_job_execution_request_def)
  next
    case (Some st)
    then have known: "job_status r \<notin> {JOB_EXECUTION_STATUS_NOT_SET, JOB_EXECUTION_UNKNOWN_STATUS}"
      by (auto simp: aws_iot_jobs_map_status_to_string_def)
    have d: "doc = update_text st r" using doc(1) Some by blast
    have "aws_iot_jobs_json_serialize_update_job_execution_request (Some mb) mn r = Some (int (length doc), Some mb')"
      using update_printed [OF Some, of "Some mb" mn] vsnprintf_whole [of "Some mb" mn doc] buffers(2) doc(2,3)
      by (simp add: d buffer_fits_def)
    then show ?thesis using known
      by (simp add: aws_iot_jobs_send_update_def send_request_def publish_request_def t check_length
          buffer_pointer_def)
  qed
qed

theorem update_request_sent_witness:
  "case aws_iot_jobs_send_update demo QOS0 (Some ''T'') (Some ''7'') (Some sample_update) (Some (replicate 40 NUL)) 40
       (Some (replicate 150 NUL)) 150 (idle_state []) of
     None \<Rightarrow> False
   | Some (rc, _, _, s) \<Rightarrow> rc = SUCCESS \<and> outgoing (wd s) = 48 # 0x93 # 1 # 0 # 27 #
       bytes_of (''$aws/things/T/jobs/7/update'' @ update_text ''IN_PROGRESS'' sample_update)"
proof -
  let ?topic = "update_topic ''T'' ''7''" and ?doc = "update_text ''IN_PROGRESS'' sample_update"
  have l: "length ?topic = 27" "length ?doc = 118" by code_simp+
  have buffers: "unat (40 :: u16) \<le> length (replicate 40 NUL)" "150 \<le> length (replicate 150 NUL)" by simp_all
  have topic: "int (length ?topic) \<le> INT_MAX" "int (length ?doc) \<le> INT_MAX" unfolding l by (simp_all add: INT_MAX_def)
  have doc: "\<forall>st. aws_iot_jobs_map_status_to_string (job_status sample_update) = Some st \<longrightarrow> ?doc = update_text st sample_update"
    by (simp add: sample_update_def aws_iot_jobs_map_status_to_string_def)
  have publish: "case aws_iot_mqtt_publish demo (Some (bytes_of (in_buffer (replicate 40 NUL) 40 ?topic))) 27
      (Some \<lparr>msg_qos = QOS0, msg_isRetained = 0, msg_isDup = 0, msg_id = 0, msg_payload = Some (bytes_of (in_buffer (replicate 150 NUL) 150 ?doc)),
         msg_payloadLen = 118\<rparr>) (idle_state []) of None \<Rightarrow> False
    | Some (rc, s) \<Rightarrow> rc = SUCCESS \<and> outgoing (wd s) = 48 # 0x93 # 1 # 0 # 27 # bytes_of (''$aws/things/T/jobs/7/update'' @ ?doc)"
    by code_simp
  have status: "job_status sample_update = JOB_EXECUTION_IN_PROGRESS" by (simp add: sample_update_def)
  show ?thesis
    unfolding update_request_sent [OF buffers refl topic(1) refl doc topic(2) refl, of demo QOS0 "idle_state []"]
    using publish by (auto simp: l status split: option.splits)
qed

end
