(* ===== verification/Boot.thy ===== *)
theory Boot
  imports Firmware
begin

text \<open>
  The start of the device in \<open>src/src/main.c\<close>: \<open>app_main\<close>, which initialises the flash, loads the configuration, brings
  the wireless station up and waits for it, creates the queues and starts the tasks; and the two tasks that only wait.
  The drivers are an argument. Events of the wireless interface arrive one by one while \<open>app_main\<close> waits, and are
  handled by \<open>esp32_wifi_eventHandler\<close> as registered with \<open>esp_event_loop_init\<close>. The code also registers it with
  \<open>esp_event_handler_register\<close>, which would call it with arguments of other types; these calls are left out.
\<close>

definition ESP_ERR_NVS_NO_FREE_PAGES :: esp_err_t where "ESP_ERR_NVS_NO_FREE_PAGES = 0x110d"
definition ESP_ERR_NVS_NEW_VERSION_FOUND :: esp_err_t where "ESP_ERR_NVS_NEW_VERSION_FOUND = 0x1110"

text \<open>The calls whose result goes through \<open>ESP_ERROR_CHECK\<close>, in their order.\<close>

datatype driver_call =
    Event_loop_init | Wifi_init | Register_wifi_event | Register_ip_event | Wifi_set_mode | Wifi_set_config | Wifi_start

definition wifi_driver_calls :: "driver_call list" where
  "wifi_driver_calls = [Event_loop_init, Wifi_init, Register_wifi_event, Register_ip_event, Wifi_set_mode, Wifi_set_config, Wifi_start]"

text \<open>\<open>xQueueCreate\<close> gets the number of the queue, its length and the size of an item, and may find no memory.\<close>

record 'n boot_api =
  nvs_flash_init :: "'n \<Rightarrow> esp_err_t \<times> 'n"
  nvs_flash_erase :: "'n \<Rightarrow> esp_err_t \<times> 'n"
  driver_result :: "driver_call \<Rightarrow> esp_err_t"
  xQueueCreate :: "nat \<Rightarrow> nat \<Rightarrow> nat \<Rightarrow> bool"

text \<open>The flash is erased and initialised again when its pages are full or of another version; \<^term>\<open>None\<close> is an abort.\<close>

definition flash_ready :: "'n boot_api \<Rightarrow> 'n \<Rightarrow> 'n option" where
  "flash_ready B n = (let (ret, n) = nvs_flash_init B n in
     if ret = ESP_ERR_NVS_NO_FREE_PAGES \<or> ret = ESP_ERR_NVS_NEW_VERSION_FOUND
     then let (err, n) = nvs_flash_erase B n in
       if err \<noteq> ESP_OK then None
       else let (ret, n) = nvs_flash_init B n in if ret \<noteq> ESP_OK then None else Some n
     else if ret \<noteq> ESP_OK then None else Some n)"

text \<open>
  \<open>xEventGroupWaitBits\<close> for any bit of the mask: the state and the events left when it returns, or the state it is
  still waiting in when the events are used up.
\<close>

fun wait_bits :: "u32 \<Rightarrow> system_event list \<Rightarrow> wifi \<Rightarrow> wifi + (wifi \<times> system_event list)" where
  "wait_bits wanted es w =
     (if and (wifi_event_group w) wanted \<noteq> 0 then Inr (w, es)
      else case es of [] \<Rightarrow> Inl w | e # es \<Rightarrow> wait_bits wanted es (esp32_wifi_eventHandler e w))"

declare wait_bits.simps [simp del]

text \<open>The result of the wait is only logged. \<^term>\<open>None\<close> is an abort.\<close>

definition wifi_init_sta :: "'n boot_api \<Rightarrow> system_event list \<Rightarrow> (wifi + (wifi \<times> system_event list)) option" where
  "wifi_init_sta B es =
     (if list_ex (\<lambda>d. driver_result B d \<noteq> ESP_OK) wifi_driver_calls then None
      else Some (wait_bits (or CONNECT_BIT STOP_BIT) es \<lparr>wifi_event_group = 0, connect_requests = 0\<rparr>))"

datatype task_name = Task_led | Task_config | Task_adc_read | Task_nvs | Task_connector | Aws_iot_task

text \<open>How the start ends: in \<open>abort\<close>, still waiting for the station, in the empty loop after a queue was not created, or
  with the tasks running, in the order of their creation.\<close>

datatype 'n boot =
    Aborted
  | Waiting_for_station wifi config 'n
  | No_queue_memory
  | Tasks_running app "task_name list" wifi "system_event list" 'n

definition app_main :: "'n boot_api \<Rightarrow> 'n nvs_api \<Rightarrow> system_event list \<Rightarrow> data_t \<Rightarrow> 'n \<Rightarrow> 'n boot" where
  "app_main B api es d n = (case flash_ready B n of
       None \<Rightarrow> Aborted
     | Some n \<Rightarrow> let (c, n) = app_main_config api n in
         (case wifi_init_sta B es of
           None \<Rightarrow> Aborted
         | Some (Inl w) \<Rightarrow> Waiting_for_station w c n
         | Some (Inr (w, es)) \<Rightarrow>
             if xQueueCreate B 0 N_QUEUE 4 \<and> xQueueCreate B 1 N_QUEUE 4 \<and> xQueueCreate B 2 N_QUEUE STRING_LENGTH_BIG
             then Tasks_running (app_start c d)
               [Task_led, Task_config, Task_adc_read, Task_nvs, Task_connector, Aws_iot_task] w es n
             else No_queue_memory))"

text \<open>One round of the light, in ticks of ten milliseconds, and of the task that is started with an LTE modem only.\<close>

datatype led_action = Gpio_set_level nat | Task_delay nat

definition task_led :: "led_action list" where
  "task_led = [Gpio_set_level 0, Task_delay 25, Gpio_set_level 1, Task_delay 25]"

definition task_lte :: "led_action list" where
  "task_lte = [Task_delay 500]"

end
