(* ===== verification/BootProperties.thy ===== *)
theory BootProperties
  imports Boot FirmwareProperties
begin

text \<open>
  What the start of the device achieves: with working drivers and memory the tasks run, on the configuration stored, once
  the station has an address; without one the start waits for ever and no task runs.
\<close>

subsection \<open>Waiting for the station\<close>

definition asks_to_connect :: "system_event \<Rightarrow> bool" where
  "asks_to_connect e \<longleftrightarrow> e = SYSTEM_EVENT_STA_START \<or> e = SYSTEM_EVENT_STA_DISCONNECTED"

lemma waited_bits: "or CONNECT_BIT STOP_BIT = (3 :: u32)"
  by (simp add: CONNECT_BIT_def STOP_BIT_def)

lemma handler_waits:
  assumes "and (wifi_event_group w) 3 = 0" and "e \<noteq> SYSTEM_EVENT_STA_GOT_IP"
  shows "and (wifi_event_group (esp32_wifi_eventHandler e w)) 3 = 0"
proof -
  have "and (or g 4) 3 = and g (3 :: u32)" for g
    by (simp add: bit.conj_disj_distrib2)
  moreover have "and (and g x) 3 = and (and g 3) (x :: u32)" for g x
    by (simp add: ac_simps)
  ultimately show ?thesis using assms
    by (cases e) (simp_all add: set_bits_def clear_bits_def esp_wifi_connect_def GOT_DATA_BIT_def CONNECT_BIT_def)
qed

lemma handler_requests:
  "connect_requests (esp32_wifi_eventHandler e w) = connect_requests w + (if asks_to_connect e then 1 else 0)"
  by (cases e) (simp_all add: set_bits_def clear_bits_def esp_wifi_connect_def asks_to_connect_def)

lemma wait_for_address:
  assumes "and (wifi_event_group w) 3 = 0"
  shows "if SYSTEM_EVENT_STA_GOT_IP \<in> set es
    then \<exists>w' rest. wait_bits 3 es w = Inr (w', rest) \<and> and (wifi_event_group w') CONNECT_BIT \<noteq> 0 \<and>
      es = takeWhile (\<lambda>e. e \<noteq> SYSTEM_EVENT_STA_GOT_IP) es @ SYSTEM_EVENT_STA_GOT_IP # rest
    else \<exists>w'. wait_bits 3 es w = Inl w' \<and> connect_requests w' = connect_requests w + length (filter asks_to_connect es)"
  using assms
proof (induction es arbitrary: w)
  case Nil
  then show ?case by (simp add: wait_bits.simps)
next
  case (Cons e es)
  have step: "wait_bits 3 (e # es) w = wait_bits 3 es (esp32_wifi_eventHandler e w)"
    using Cons.prems by (simp add: wait_bits.simps [of 3 "e # es" w])
  show ?case
  proof (cases "e = SYSTEM_EVENT_STA_GOT_IP")
    case True
    define w' where "w' = esp32_wifi_eventHandler e w"
    have c: "and (wifi_event_group w') CONNECT_BIT \<noteq> 0" using handler_link [of e w] True by (simp add: w'_def)
    have "and (wifi_event_group w') 3 \<noteq> 0"
    proof
      assume "and (wifi_event_group w') 3 = 0"
      then have "and (and (wifi_event_group w') 3) CONNECT_BIT = 0" by simp
      then show False using c by (simp add: CONNECT_BIT_def and.assoc)
    qed
    then have "wait_bits 3 es w' = Inr (w', es)" by (simp add: wait_bits.simps)
    then show ?thesis using True c step by (simp add: w'_def)
  next
    case False
    have "and (wifi_event_group (esp32_wifi_eventHandler e w)) 3 = 0" by (rule handler_waits [OF Cons.prems False])
    from Cons.IH [OF this] show ?thesis
      using False step by (auto simp: handler_requests split: if_splits)
  qed
qed

subsection \<open>The start\<close>

text \<open>The configuration in the store, over the initial one.\<close>

definition stored_config :: "(string \<Rightarrow> int option) \<Rightarrow> config" where
  "stored_config m =
     \<lparr>threshold_min = (case m ''threshold_min'' of None \<Rightarrow> threshold_min default_config | Some v \<Rightarrow> v),
      threshold_max = (case m ''threshold_max'' of None \<Rightarrow> threshold_max default_config | Some v \<Rightarrow> v),
      rate = (case m ''rate'' of None \<Rightarrow> rate default_config | Some v \<Rightarrow> v)\<rparr>"

lemma app_main_config_stored:
  assumes "nvs_lawful api I S" and "nvs_healthy api I S"
  obtains n' where "app_main_config api n = (stored_config (I n), n')" and "I n' = I n" and "S n' = S n"
proof -
  obtain n' where n': "load_config api default_config n = (ESP_OK, stored_config (I n), n')" "I n' = I n" "S n' = S n"
    using load_config_stored [OF assms, of default_config n] unfolding stored_config_def by auto
  then show ?thesis by (intro that [of n']) (simp_all add: app_main_config_def)
qed

text \<open>(C40) The start of the device. When the flash can be made ready, the drivers answer and the queues can be created, the
  first address event lets \<open>app_main\<close> go on, and the six tasks run on the configuration in the store, the initial one where
  nothing is stored, with the store unchanged; while there is no such event no task runs, not even the one that samples,
  however often the station asks for a connection.\<close>

theorem start_needs_address:
  assumes flash: "flash_ready B n = Some n1" and store: "nvs_lawful api I S" "nvs_healthy api I S"
    and drivers: "\<And>d. driver_result B d = ESP_OK" and queues: "\<And>k len item. xQueueCreate B k len item"
  shows "if SYSTEM_EVENT_STA_GOT_IP \<in> set es
    then \<exists>w rest n'. app_main B api es d n = Tasks_running (app_start (stored_config (I n1)) d)
        [Task_led, Task_config, Task_adc_read, Task_nvs, Task_connector, Aws_iot_task] w rest n' \<and>
      es = takeWhile (\<lambda>e. e \<noteq> SYSTEM_EVENT_STA_GOT_IP) es @ SYSTEM_EVENT_STA_GOT_IP # rest \<and>
      and (wifi_event_group w) CONNECT_BIT \<noteq> 0 \<and> I n' = I n1 \<and> S n' = S n1
    else \<exists>w n'. app_main B api es d n = Waiting_for_station w (stored_config (I n1)) n' \<and>
      connect_requests w = length (filter asks_to_connect es)"
proof -
  obtain n2 where n2: "app_main_config api n1 = (stored_config (I n1), n2)" "I n2 = I n1" "S n2 = S n1"
    by (rule app_main_config_stored [OF store])
  have wifi: "wifi_init_sta B es = Some (wait_bits 3 es \<lparr>wifi_event_group = 0, connect_requests = 0\<rparr>)"
    by (simp add: wifi_init_sta_def drivers wifi_driver_calls_def waited_bits)
  have "and (wifi_event_group \<lparr>wifi_event_group = 0, connect_requests = 0\<rparr>) 3 = 0" by simp
  from wait_for_address [OF this, of es] show ?thesis
    by (auto simp: app_main_def flash n2 wifi queues split: if_splits)
qed

definition sample_board :: "flash boot_api" where
  "sample_board = \<lparr>nvs_flash_init = (\<lambda>n. (ESP_OK, n)), nvs_flash_erase = (\<lambda>n. (ESP_OK, blank_flash)),
     driver_result = (\<lambda>d. ESP_OK), xQueueCreate = (\<lambda>k len item. True)\<rparr>"

theorem start_needs_address_witness:
  "(\<exists>w n'. app_main sample_board flash_api [SYSTEM_EVENT_STA_START, SYSTEM_EVENT_STA_DISCONNECTED, SYSTEM_EVENT_STA_DISCONNECTED]
       sample blank_flash = Waiting_for_station w default_config n' \<and> connect_requests w = 3) \<and>
   (\<exists>w n'. app_main sample_board flash_api [SYSTEM_EVENT_STA_START, SYSTEM_EVENT_STA_GOT_IP] sample blank_flash =
     Tasks_running (app_start default_config sample)
       [Task_led, Task_config, Task_adc_read, Task_nvs, Task_connector, Aws_iot_task] w [] n')"
proof -
  have flash: "flash_ready sample_board blank_flash = Some blank_flash"
    by (simp add: flash_ready_def sample_board_def ESP_OK_def ESP_ERR_NVS_NO_FREE_PAGES_def ESP_ERR_NVS_NEW_VERSION_FOUND_def)
  have board: "\<And>d. driver_result sample_board d = ESP_OK" "\<And>k len item. xQueueCreate sample_board k len item"
    by (simp_all add: sample_board_def)
  have c: "stored_config (fst blank_flash) = default_config" by (simp add: stored_config_def blank_flash_def)
  show ?thesis
    using start_needs_address [OF flash flash_lawful flash_healthy board, of "[SYSTEM_EVENT_STA_START, SYSTEM_EVENT_STA_DISCONNECTED,
        SYSTEM_EVENT_STA_DISCONNECTED]" sample]
      start_needs_address [OF flash flash_lawful flash_healthy board, of "[SYSTEM_EVENT_STA_START, SYSTEM_EVENT_STA_GOT_IP]" sample]
    by (auto simp: c asks_to_connect_def)
qed

end
