(* ===== verification/Spec2Isabelle.thy ===== *)
theory Spec2Isabelle
  imports FirmwareProperties MqttCodecProperties MqttTopic MqttYieldProperties MqttReceiveProperties NetworkProperties Liveness
    ModemProperties ModemSmsProperties CloudProperties JsonUtilsProperties ShadowSystem JobsProperties BootProperties
begin

text \<open>
  A verification library for the firmware of an ESP32 data logger: it samples three temperature
  sensors and the supply voltage, keeps the readings in flash, and reports readings and alerts
  to AWS IoT over MQTT, by LTE or wireless.

  Parts of the program, with their theories.

  \<^item> The application, \<open>src/src/main.c\<close> and \<open>src/src/storage.c\<close>. \<open>Storage\<close> models saving a reading
    in the flash ring, and loading, saving and parsing the configuration; \<open>Firmware\<close> one
    iteration of each task, the subscription callback and the wireless event handler;
    \<open>FirmwareSystem\<close> their interleaving as a step relation, \<open>sys_step\<close>, and the order of what the sensor task queues
    over a whole run, \<open>sensor_history\<close>; \<open>FirmwareProperties\<close> what the tasks
    achieve and where they fail; \<open>Boot\<close> the start from reset to the running tasks, with \<open>BootProperties\<close>.
    The flash library is a record of functions; what the code relies on is the predicate \<open>nvs_lawful\<close>, and an association list shows that it can hold.
  \<^item> The timers, \<open>port/timer.c\<close>: \<open>Timer\<close>, over a tick counter that wraps around.
  \<^item> The MQTT client library, \<open>aws_iot_mqtt_client_*.c\<close>. \<open>MqttTypes\<close> and \<open>MqttCodec\<close> model
    the packet formats, a packet being the bytes the code writes and a pointer the bytes it
    refers to; \<open>MqttTopic\<close> the match of topics with filters; \<open>MqttClient\<close> the client structure,
    its state, sending, receiving and delivery; \<open>MqttApi\<close> the commands; \<open>MqttYield\<close> the
    background work, keep-alive and reconnection.
  \<^item> The task that uses it, \<open>aws_iot_task\<close> of \<open>main.c\<close>. \<open>CloudTask\<close> models its start-up, a pass of its loop and
    its handlers on top of the client, the other tasks running while it is inside the library; \<open>MqttWorldFrame\<close>
    shows which relations on the state outside the client every command of it keeps, and \<open>CloudProperties\<close> that
    the task refines the abstract system of \<open>FirmwareSystem\<close> and what a round of it sends, tried on the sample
    of \<open>CloudSample\<close>.
  \<^item> The port below it, \<open>port/threads_freertos.c\<close> and \<open>port/network_mbedtls_wrapper.c\<close>: \<open>Network\<close>
    models the mutexes and the TLS connection, reading and writing; \<open>NetworkProperties\<close> shows that the
    client reads packets from TLS as they were sent, and \<open>Liveness\<close> that its blocking calls return.

  \<^item> The modem library, \<open>components/pppos/libGSM.c\<close>. \<open>Modem\<close> models the table of commands and the
    exchange of a command over the serial line; \<open>ModemTask\<close> the variables the library shares, the callbacks
    of the PPP stack and the modem task, whose control flow becomes the program counter \<open>task_pc\<close>; two values of it
    stand for undefined behaviour, so that an invariant sees it: \<open>Dead_use\<close> for a control block that is missing or freed and
    passed to the PPP stack, \<open>Freed_twice\<close> for one that is freed again;
    \<open>ModemSystem\<close> the calls \<open>ppposInit\<close> and \<open>ppposDisconnect\<close>, the interleaving of everything, and its
    invariants; \<open>ModemSms\<close> the radio and the short messages; \<open>ModemProperties\<close> and \<open>ModemSmsProperties\<close>
    what they achieve and where they fail, tried on the line of \<open>ModemSample\<close>.
  \<^item> JSON, \<open>external_libs/jsmn/jsmn.c\<close> and \<open>aws_iot_json_utils.c\<close>. \<open>Jsmn\<close> models the tokenizer, one pass of its loop
    per definition \<open>parse_step\<close>; \<open>JsmnLemmas\<close> shows that it stays inside the text and the array; \<open>JsmnText\<close> states what
    a JSON value, its text and its tokens are, and \<open>JsmnRun\<close> by induction on the value that the run over the text
    finds the tokens; \<open>JsmnProperties\<close> are the promises to its callers. \<open>JsonUtils\<close> models the helpers that compare
    keys, read values and find a key, and \<open>JsonUtilsProperties\<close> what they promise on the tokens of a JSON text.
    \<open>JsmnWindow\<close> shows that the tokenizer looks at nothing behind the length it is given.
  \<^item> The device shadow, \<open>aws_iot_shadow*.c\<close>, which the application does not call. \<open>ShadowJson\<close> models building and reading
    its documents, in buffers with a size; \<open>ShadowRecords\<close> the requests that wait, the topics subscribed for their answers,
    the keys registered for changes, and the two callbacks, with the static variables as a record in the world of the
    client; \<open>Shadow\<close> its calls. \<open>ShadowDocuments\<close> and \<open>JsonSeek\<close> relate documents to JSON values, \<open>ShadowProperties\<close> and
    \<open>ShadowMessages\<close> show what is written and read back, \<open>ShadowDelta\<close> specifies a delta message on JSON values,
    \<open>delta_outcome\<close>, and shows that the callback refines it, \<open>ShadowWorld\<close> shows which order on the variables every operation keeps,
    \<open>ShadowRecordsProperties\<close> and \<open>ShadowRequests\<close> what a message and a request do, and \<open>ShadowSystem\<close> what holds over
    any sequence of calls, \<open>shadow_run\<close>, from the initialisation to the release.
  \<^item> The job service, \<open>aws_iot_jobs_*.c\<close>, not called either. \<open>Jobs\<close> models its types, topics, printer, documents and calls;
    \<open>JobsDocuments\<close> shows that printing in pieces is printing at once, and \<open>JobsProperties\<close> what is printed, read back, matched
    and sent.

  How the model corresponds to the code. A C function that may leave defined behaviour (a read
  behind an object, signed overflow, a loop that does not end) returns an option, and \<^term>\<open>None\<close>
  stands for that. A function with a result code returns the code or a sum of the code and
  the values it stores through its pointers. Machine integers keep their width; the \<open>int\<close>s of the
  application are integers with the overflow written out. Code outside the repository (the flash
  and network libraries, FreeRTOS, the application's handlers) is a field of a record that is an
  argument of the model.

  What the lemmas show. The locale \<open>client_frame\<close> in \<open>MqttFrame\<close> is the contract between the
  client and a relation that its operations keep, \<open>client_api_frame\<close> in \<open>MqttApiFrame\<close> extends it to
  the commands; the interpretations in \<open>MqttClientProperties\<close> give the invariant of the client and
  the preservation of its table of subscriptions. The locale \<open>countdown\<close> in \<open>Timer\<close> is the contract of a timer, and
  \<open>invariant\<close> in \<open>Prelude\<close> that of an invariant of interleaved tasks, interpreted on the firmware and the modem.
  The locale \<open>byte_stream\<close> in \<open>NetworkProperties\<close> is the contract between the packet layer and a network,
  interpreted on the TLS wrapper, and \<open>world_order\<close> in \<open>MqttWorldFrame\<close> that of an order on the world which the client's
  commands keep, interpreted on the data of the application and on the variables of the shadow. \<open>MqttSample\<close> is a platform on which the statements about the client are tried.

  Bounds. Loops that may run for ever (sending, reading away a packet, waiting, the background
  loop, hanging up the modem, the wait after a subscription of the shadow) are partial functions without fuel; the others terminate by a measure. \<open>Liveness\<close> shows that reading and
  sending return if the clock runs and no call takes longer than \<open>2 ^ 28\<close> ticks, a month, so that the counter does not
  wrap around unseen.

  The shadow's callbacks may nest, since one may wait for an answer while the client delivers the next message; \<open>with_shadow\<close> takes
  the depth as an argument, and what is shown holds for every depth.

  Not modelled: the console output and the drivers behind the calls; certificates and TLS itself, flash and
  drivers are arguments. The packages the build tool fetches (a file system, web servers) are third-party code that the
  application does not call. The shadow hands a topic to the client by address and may use the place again later; the
  model keeps the text of the time of the call.
\<close>

end
